(* ===== verification/Prelude.thy ===== *)
theory Prelude
  imports
    Main
    "HOL-Library.Word"
    "HOL-Library.AList"
    "HOL-Library.Char_ord"
    "HOL-Library.List_Lexorder"
begin

text \<open>
  Shared vocabulary of the development: the machine types of the Rust code, the representation
  of its hash maps, and the generic lemmas the component theories lean on.

  \<^item> \<open>u64\<close> and \<open>u32\<close> are machine words, so \<open>+\<close> wraps as it does in a release build.
  \<^item> A \<open>HashMap<String, V>\<close> is an association list with distinct keys. The order of the list
    stands for the (unspecified) iteration order of the map: every theorem quantifies over all
    lists, hence over all iteration orders. \<open>insert\<close> is \<^const>\<open>AList.update\<close>, \<open>remove\<close> is
    \<^const>\<open>AList.delete\<close>, \<open>get\<close> is \<^const>\<open>map_of\<close>.
  \<^item> A \<open>Result<A, E>\<close> is \<open>'e + 'a\<close>, with \<open>Inl\<close> for \<open>Err\<close>.
  \<^item> A \<open>String\<close> is the list of its UTF-8 bytes.
  \<^item> A point in time (\<open>DateTime<Utc>\<close>) is an \<open>int\<close>, in nanoseconds since the epoch.
\<close>

named_theorems engine_simps \<open>lookup laws of the stamps and readers of the engine\<close>

type_synonym u64 = "64 word"
type_synonym u32 = "32 word"
type_synonym uuid = "128 word"
type_synonym timestamp = int
type_synonym 'v hmap = "(string \<times> 'v) list"

subsection \<open>Hash maps as association lists\<close>

definition wf_hmap :: "'v hmap \<Rightarrow> bool" where
  "wf_hmap m \<longleftrightarrow> distinct (map fst m)"

abbreviation hkeys :: "'v hmap \<Rightarrow> string set" where
  "hkeys m \<equiv> fst ` set m"

text \<open>\<open>entry(k).or_insert(v)\<close>\<close>

definition hm_or_insert :: "string \<Rightarrow> 'v \<Rightarrow> 'v hmap \<Rightarrow> 'v hmap" where
  "hm_or_insert k v m = (case map_of m k of None \<Rightarrow> AList.update k v m | Some _ \<Rightarrow> m)"

text \<open>\<open>entry(k).and_modify(f).or_insert_with(v)\<close>\<close>

definition hm_modify_or_insert :: "string \<Rightarrow> ('v \<Rightarrow> 'v) \<Rightarrow> 'v \<Rightarrow> 'v hmap \<Rightarrow> 'v hmap" where
  "hm_modify_or_insert k f v m =
     (case map_of m k of None \<Rightarrow> AList.update k v m | Some x \<Rightarrow> AList.update k (f x) m)"

text \<open>\<open>if let Some(x) = m.get_mut(k) { *x = f(x) }\<close>\<close>

definition hm_modify :: "string \<Rightarrow> ('v \<Rightarrow> 'v) \<Rightarrow> 'v hmap \<Rightarrow> 'v hmap" where
  "hm_modify k f m = (case map_of m k of None \<Rightarrow> m | Some x \<Rightarrow> AList.update k (f x) m)"

declare update_conv' [simp]

lemma wf_hmap_Nil [simp]: "wf_hmap []"
  by (simp add: wf_hmap_def)

lemma wf_hmap_update [simp]: "wf_hmap m \<Longrightarrow> wf_hmap (AList.update k v m)"
  by (simp add: wf_hmap_def distinct_update)

lemma wf_hmap_delete [simp]: "wf_hmap m \<Longrightarrow> wf_hmap (AList.delete k m)"
  by (simp add: wf_hmap_def distinct_delete)

lemma map_of_or_insert [simp]:
  "map_of (hm_or_insert k v m) j =
     (if j = k then Some (case map_of m k of None \<Rightarrow> v | Some x \<Rightarrow> x) else map_of m j)"
  by (auto simp: hm_or_insert_def split: option.splits)

lemma map_of_modify_or_insert [simp]:
  "map_of (hm_modify_or_insert k f v m) j =
     (if j = k then Some (case map_of m k of None \<Rightarrow> v | Some x \<Rightarrow> f x) else map_of m j)"
  by (auto simp: hm_modify_or_insert_def split: option.splits)

lemma map_of_modify [simp]:
  "map_of (hm_modify k f m) j = (if j = k then map_option f (map_of m k) else map_of m j)"
  by (auto simp: hm_modify_def split: option.splits)

lemma wf_hmap_ops [simp]:
  assumes "wf_hmap m"
  shows "wf_hmap (hm_or_insert k v m)" "wf_hmap (hm_modify_or_insert k f v m)"
    "wf_hmap (hm_modify k f m)"
  using assms
  by (auto simp: hm_or_insert_def hm_modify_or_insert_def hm_modify_def split: option.splits)

lemma hkeys_conv_dom: "hkeys m = dom (map_of m)"
  by (simp add: dom_map_of_conv_image_fst)

subsection \<open>Stores of keyed items\<close>

text \<open>The contract of the registries of the engine: an item is stored under its own key.\<close>

locale keyed_store =
  fixes key_of :: "'x \<Rightarrow> string"
    and put :: "'x \<Rightarrow> 's \<Rightarrow> 's"
    and look :: "'s \<Rightarrow> string \<Rightarrow> 'v option"
    and val_of :: "'x \<Rightarrow> 'v"
  assumes look_put: "look (put x s) k = (if k = key_of x then Some (val_of x) else look s k)"
begin

lemma look_fold_put:
  "look (fold put xs s) k =
     (case List.find (\<lambda>x. key_of x = k) (rev xs) of Some x \<Rightarrow> Some (val_of x) | None \<Rightarrow> look s k)"
proof (induction xs rule: rev_induct)
  case (snoc x xs)
  then show ?case by (auto simp: look_put)
qed simp

end

subsection \<open>Results\<close>

text \<open>\<open>r.map_err(f)\<close> and the \<open>?\<close> operator\<close>

definition map_err :: "('e \<Rightarrow> 'f) \<Rightarrow> 'e + 'a \<Rightarrow> 'f + 'a" where
  "map_err f r = (case r of Inl e \<Rightarrow> Inl (f e) | Inr a \<Rightarrow> Inr a)"

definition bind_result :: "'e + 'a \<Rightarrow> ('a \<Rightarrow> 'e + 'b) \<Rightarrow> 'e + 'b" where
  "bind_result r f = (case r of Inl e \<Rightarrow> Inl e | Inr a \<Rightarrow> f a)"

definition ok_or :: "'a option \<Rightarrow> 'e \<Rightarrow> 'e + 'a" where
  "ok_or x e = (case x of None \<Rightarrow> Inl e | Some a \<Rightarrow> Inr a)"

lemma result_simps [simp]:
  "map_err f (Inl e) = Inl (f e)" "map_err f (Inr a) = Inr a"
  "bind_result (Inl e) g = Inl e" "bind_result (Inr a) g = g a"
  "ok_or None e = Inl e" "ok_or (Some a) e = Inr a"
  by (simp_all add: map_err_def bind_result_def ok_or_def)

lemma bind_result_eq_Inr:
  "bind_result r f = Inr b \<longleftrightarrow> (\<exists>a. r = Inr a \<and> f a = Inr b)"
  by (cases r) auto

subsection \<open>Lists\<close>

text \<open>\<open>iter().filter_map(f)\<close> is \<^const>\<open>List.map_filter\<close> of the library; \<open>find\<close> is \<^const>\<open>List.find\<close>.\<close>

lemma length_map_filter_all:
  "(\<And>x. x \<in> set xs \<Longrightarrow> f x \<noteq> None) \<Longrightarrow> length (List.map_filter f xs) = length xs"
  by (induction xs) (auto simp: List.map_filter_simps split: option.splits)

lemma map_filter_append [simp]:
  "List.map_filter f (xs @ ys) = List.map_filter f xs @ List.map_filter f ys"
  by (induction xs) (auto simp: List.map_filter_simps split: option.splits)

lemma map_filter_map_Some:
  "(\<And>x. x \<in> set xs \<Longrightarrow> f (g x) = Some x) \<Longrightarrow> List.map_filter f (map g xs) = xs"
  by (induction xs) (auto simp: List.map_filter_simps)

subsection \<open>Words\<close>

lemma unat_add_no_wrap:
  fixes a b :: u64
  assumes "unat a + unat b < 2 ^ 64"
  shows "unat (a + b) = unat a + unat b"
  using assms by (simp add: unat_word_ariths)

lemma word_add_mono_no_wrap:
  fixes a b :: u64
  assumes "unat a + unat b < 2 ^ 64"
  shows "a \<le> a + b"
  using assms by (simp add: word_le_nat_alt unat_add_no_wrap)

end
