(* ===== verification/F64.thy ===== *)
theory F64
  imports Prelude "HOL-Library.Log_Nat"
begin

text \<open>
  The \<open>f64\<close> of the Rust code: IEEE 754 binary64, which carries every dollar amount the engine
  accumulates. A finite double is a sign and a magnitude counted in units of the smallest
  subnormal, \<open>2^-1074\<close>, so every finite value is an integer number of units and the arithmetic
  is exact integer arithmetic followed by one rounding to nearest, ties to even.
\<close>

datatype f64 = NaN | Inf bool | Fin bool nat
  \<comment> \<open>the flag is the sign bit (True for negative)\<close>

text \<open>
  \<open>round_ratio n d\<close> rounds the rational \<open>n / d\<close> to 53 significant bits: \<open>e\<close> is the exponent of
  the unit in the last place of its binade (0 in the subnormal range and in the first normal
  binade, where the spacing is one unit).
\<close>

definition round_ratio :: "nat \<Rightarrow> nat \<Rightarrow> nat" where
  "round_ratio n d =
     (let e = floorlog 2 (n div d) - 53; u = d * 2 ^ e; q = n div u; r = n mod u
      in (if 2 * r > u \<or> (2 * r = u \<and> odd q) then q + 1 else q) * 2 ^ e)"

definition round_nat :: "nat \<Rightarrow> nat" where
  "round_nat n = round_ratio n 1"

definition f64_limit :: nat where
  "f64_limit = 2 ^ 2098"

text \<open>A rounded magnitude at or above \<open>2^1024\<close> (that is, \<open>2^2098\<close> units) overflows to infinity.\<close>

definition f64_make :: "bool \<Rightarrow> nat \<Rightarrow> f64" where
  "f64_make s n = (if f64_limit \<le> n then Inf s else Fin s n)"

definition wf_f64 :: "f64 \<Rightarrow> bool" where
  "wf_f64 x = (case x of Fin s n \<Rightarrow> n < f64_limit \<and> 2 ^ (floorlog 2 n - 53) dvd n | _ \<Rightarrow> True)"

definition signed :: "bool \<Rightarrow> nat \<Rightarrow> int" where
  "signed s n = (if s then - int n else int n)"

fun f64_add :: "f64 \<Rightarrow> f64 \<Rightarrow> f64" where
  "f64_add NaN y = NaN"
| "f64_add x NaN = NaN"
| "f64_add (Inf s) (Inf t) = (if s = t then Inf s else NaN)"
| "f64_add (Inf s) (Fin t m) = Inf s"
| "f64_add (Fin s n) (Inf t) = Inf t"
| "f64_add (Fin s n) (Fin t m) =
     (let v = signed s n + signed t m
      in if v = 0 then Fin (s \<and> t) 0
         else f64_make (v < 0) (round_nat (nat \<bar>v\<bar>)))"

fun f64_div :: "f64 \<Rightarrow> f64 \<Rightarrow> f64" where
  "f64_div NaN y = NaN"
| "f64_div x NaN = NaN"
| "f64_div (Inf s) (Inf t) = NaN"
| "f64_div (Inf s) (Fin t m) = Inf (s \<noteq> t)"
| "f64_div (Fin s n) (Inf t) = Fin (s \<noteq> t) 0"
| "f64_div (Fin s n) (Fin t m) =
     (if m = 0 then (if n = 0 then NaN else Inf (s \<noteq> t))
      else f64_make (s \<noteq> t) (round_ratio (n * 2 ^ 1074) m))"

fun f64_le :: "f64 \<Rightarrow> f64 \<Rightarrow> bool" where
  "f64_le NaN y = False"
| "f64_le x NaN = False"
| "f64_le (Inf s) (Inf t) = (s \<or> \<not> t)"
| "f64_le (Inf s) (Fin t m) = s"
| "f64_le (Fin s n) (Inf t) = (\<not> t)"
| "f64_le (Fin s n) (Fin t m) = (signed s n \<le> signed t m)"

text \<open>\<open>a >= b\<close>\<close>

abbreviation f64_ge :: "f64 \<Rightarrow> f64 \<Rightarrow> bool" where
  "f64_ge a b \<equiv> f64_le b a"

definition f64_is_finite :: "f64 \<Rightarrow> bool" where
  "f64_is_finite x = (case x of Fin _ _ \<Rightarrow> True | _ \<Rightarrow> False)"

abbreviation f64_zero :: f64 where
  "f64_zero \<equiv> Fin False 0"

text \<open>\<open>n as f64\<close>\<close>

definition f64_of_int :: "int \<Rightarrow> f64" where
  "f64_of_int i = f64_make (i < 0) (round_nat (nat \<bar>i\<bar> * 2 ^ 1074))"

text \<open>\<open>iter.sum::<f64>()\<close>, which folds from \<open>-0.0\<close>\<close>

definition f64_sum :: "f64 list \<Rightarrow> f64" where
  "f64_sum xs = foldl f64_add (Fin True 0) xs"

subsection \<open>Rounding\<close>

lemma round_nat_1:
  "round_nat n =
     (let e = floorlog 2 n - 53; q = n div 2 ^ e; r = n mod 2 ^ e
      in (if 2 * r > 2 ^ e \<or> (2 * r = 2 ^ e \<and> odd q) then q + 1 else q) * 2 ^ e)"
  by (simp add: round_nat_def round_ratio_def Let_def)

lemma round_nat_exact:
  assumes "2 ^ (floorlog 2 n - 53) dvd n"
  shows "round_nat n = n"
proof -
  have "n mod 2 ^ (floorlog 2 n - 53) = 0"
    using assms by (simp add: mod_eq_0_iff_dvd)
  then show ?thesis
    using assms by (simp add: round_nat_1 Let_def)
qed

lemma round_nat_small: "n < 2 ^ 53 \<Longrightarrow> round_nat n = n"
proof (rule round_nat_exact)
  assume "n < 2 ^ 53"
  then have "floorlog 2 n \<le> 53"
    by (intro floorlog_leI) simp_all
  then show "2 ^ (floorlog 2 n - 53) dvd n" by simp
qed

text \<open>Rounding to a fixed grid \<open>2^e\<close>, ties to even, is monotone.\<close>

definition rne :: "nat \<Rightarrow> nat \<Rightarrow> nat" where
  "rne e n = (let q = n div 2 ^ e; r = n mod 2 ^ e
              in if 2 * r > 2 ^ e \<or> (2 * r = 2 ^ e \<and> odd q) then q + 1 else q)"

lemma round_nat_rne: "round_nat n = rne (floorlog 2 n - 53) n * 2 ^ (floorlog 2 n - 53)"
  by (simp add: round_nat_1 rne_def Let_def)

lemma rne_bounds: "n div 2 ^ e \<le> rne e n" "rne e n \<le> n div 2 ^ e + 1"
  by (simp_all add: rne_def Let_def)

lemma rne_mono:
  assumes "n \<le> m"
  shows "rne e n \<le> rne e m"
proof (cases "n div 2 ^ e = m div 2 ^ e")
  case True
  have "n mod 2 ^ e \<le> m mod 2 ^ e"
  proof -
    have "n div 2 ^ e * 2 ^ e + n mod 2 ^ e \<le> m div 2 ^ e * 2 ^ e + m mod 2 ^ e"
      using assms by (simp only: div_mult_mod_eq)
    with True show ?thesis by simp
  qed
  with True show ?thesis by (auto simp: rne_def Let_def)
next
  case False
  with assms have "n div 2 ^ e + 1 \<le> m div 2 ^ e"
    using div_le_mono [OF assms, of "2 ^ e"] by linarith
  with rne_bounds(2) [of e n] rne_bounds(1) [of m e] show ?thesis by linarith
qed

lemma round_nat_le_pow:
  assumes "floorlog 2 n \<le> k" and "53 \<le> k"
  shows "round_nat n \<le> 2 ^ k"
proof (cases "floorlog 2 n \<le> 53")
  case True
  then have "n < 2 ^ 53" by (auto dest: floorlog_leD)
  then have "round_nat n = n" by (rule round_nat_small)
  with \<open>n < 2 ^ 53\<close> have "round_nat n < 2 ^ 53" by simp
  also have "(2::nat) ^ 53 \<le> 2 ^ k" using assms(2) by (intro power_increasing) simp_all
  finally show ?thesis by simp
next
  case False
  let ?e = "floorlog 2 n - 53"
  have "n < 2 ^ floorlog 2 n"
    using floorlog_bounds [of n 2] by (cases "n = 0") auto
  also have "floorlog 2 n = 53 + ?e" using False by simp
  finally have "n div 2 ^ ?e < 2 ^ 53"
    by (simp add: less_mult_imp_div_less power_add)
  then have "rne ?e n \<le> 2 ^ 53" using rne_bounds(2) [of ?e n] by linarith
  then have "round_nat n \<le> 2 ^ 53 * 2 ^ ?e"
    by (simp add: round_nat_rne)
  also have "\<dots> = 2 ^ floorlog 2 n" using False by (simp only: power_add [symmetric]) simp
  also have "\<dots> \<le> 2 ^ k" using assms(1) by (intro power_increasing) simp_all
  finally show ?thesis .
qed

lemma round_nat_ge_pow:
  assumes "2 ^ k \<le> n" and "53 \<le> Suc k"
  shows "2 ^ k \<le> round_nat n"
proof -
  let ?e = "floorlog 2 n - 53"
  have n0: "0 < n" using assms(1) by (metis gr0I le_zero_eq power_not_zero zero_neq_numeral)
  have k: "Suc k \<le> floorlog 2 n"
    by (rule floorlog_geI) (use assms in auto)
  have "2 ^ (floorlog 2 n - 1) \<le> n"
    using floorlog_bounds [of n 2] n0 by simp
  also have "floorlog 2 n - 1 = 52 + ?e" using k assms(2) by simp
  finally have "2 ^ 52 \<le> n div 2 ^ ?e"
    by (simp add: power_add less_eq_div_iff_mult_less_eq)
  then have "2 ^ 52 * 2 ^ ?e \<le> round_nat n"
    using rne_bounds(1) [of n ?e] by (simp add: round_nat_rne)
  moreover have "(2::nat) ^ 52 * 2 ^ ?e = 2 ^ (floorlog 2 n - 1)"
    using k assms(2) by (simp only: power_add [symmetric]) (rule arg_cong [where f = "(^) 2"], simp)
  moreover have "(2::nat) ^ k \<le> 2 ^ (floorlog 2 n - 1)"
    using k by (intro power_increasing) simp_all
  ultimately show ?thesis by linarith
qed

lemma round_nat_mono:
  assumes "n \<le> m"
  shows "round_nat n \<le> round_nat m"
proof -
  have fl: "floorlog 2 n \<le> floorlog 2 m" using assms by (rule floorlog_mono)
  consider "floorlog 2 n - 53 = floorlog 2 m - 53" | "floorlog 2 n < floorlog 2 m" "53 < floorlog 2 m"
    using fl by linarith
  then show ?thesis
  proof cases
    case 1
    then show ?thesis using rne_mono [OF assms] by (simp add: round_nat_rne)
  next
    case 2
    let ?k = "floorlog 2 m - 1"
    have m0: "0 < m" using 2 by (cases m) (auto simp: floorlog_def)
    have "round_nat n \<le> 2 ^ ?k" by (rule round_nat_le_pow) (use 2 in auto)
    also have "2 ^ ?k \<le> round_nat m"
      by (rule round_nat_ge_pow) (use 2 m0 floorlog_bounds [of m 2] in auto)
    finally show ?thesis .
  qed
qed

lemma rne_le_pow53: "rne (floorlog 2 n - 53) n \<le> 2 ^ 53"
proof (cases "floorlog 2 n \<le> 53")
  case True
  then have "n < 2 ^ 53" by (auto dest: floorlog_leD)
  with True show ?thesis by (simp add: rne_def)
next
  case False
  let ?e = "floorlog 2 n - 53"
  have "n < 2 ^ floorlog 2 n"
    using floorlog_bounds [of n 2] by (cases "n = 0") auto
  also have "floorlog 2 n = 53 + ?e" using False by simp
  finally have "n div 2 ^ ?e < 2 ^ 53"
    by (simp add: less_mult_imp_div_less power_add)
  then show ?thesis using rne_bounds(2) [of ?e n] by linarith
qed

lemma round_nat_representable: "2 ^ (floorlog 2 (round_nat n) - 53) dvd round_nat n"
proof -
  let ?e = "floorlog 2 n - 53"
  consider "rne ?e n < 2 ^ 53" | "rne ?e n = 2 ^ 53"
    using rne_le_pow53 [of n] by linarith
  then show ?thesis
  proof cases
    case 1
    then have "round_nat n < 2 ^ 53 * 2 ^ ?e" by (simp add: round_nat_rne)
    then have "floorlog 2 (round_nat n) \<le> 53 + ?e"
      by (intro floorlog_leI) (simp_all add: power_add)
    then have "floorlog 2 (round_nat n) - 53 \<le> ?e" by simp
    then show ?thesis by (simp add: round_nat_rne le_imp_power_dvd)
  next
    case 2
    then have r: "round_nat n = 2 ^ (53 + ?e)" by (simp add: round_nat_rne power_add)
    have "floorlog 2 (2 ^ (53 + ?e)) = 54 + ?e"
      using floorlog_power [of 1 2 "53 + ?e"] by (simp add: floorlog_def)
    then show ?thesis unfolding r by (intro le_imp_power_dvd) simp
  qed
qed

lemma wf_f64_make_round: "wf_f64 (f64_make s (round_nat n))"
  using round_nat_representable by (simp add: f64_make_def wf_f64_def)

lemma wf_f64_zero [simp]: "wf_f64 (Fin s 0)"
  by (simp add: wf_f64_def f64_limit_def)

lemma wf_f64_add [simp]: "wf_f64 (f64_add x y)"
  by (cases x; cases y) (auto simp: Let_def wf_f64_make_round, auto simp: wf_f64_def)

lemma wf_f64_of_int [simp]: "wf_f64 (f64_of_int i)"
  by (simp add: f64_of_int_def wf_f64_make_round)

subsection \<open>Order\<close>

definition f64_nonneg :: "f64 \<Rightarrow> bool" where
  "f64_nonneg x = f64_le f64_zero x"

lemma f64_le_refl: "x \<noteq> NaN \<Longrightarrow> f64_le x x"
  by (cases x) auto

lemma f64_le_trans: "f64_le x y \<Longrightarrow> f64_le y z \<Longrightarrow> f64_le x z"
  by (cases x; cases y; cases z) auto

lemma f64_add_not_less:
  assumes wf: "wf_f64 x" and b: "f64_nonneg x" "f64_nonneg y"
  shows "f64_le x (f64_add x y)"
proof (cases x; cases y)
  fix s n t m assume x: "x = Fin s n" and y: "y = Fin t m"
  let ?v = "signed s n + signed t m"
  have s: "0 \<le> signed s n" "0 \<le> signed t m"
    using b x y by (auto simp: f64_nonneg_def signed_def)
  have r: "round_nat n = n"
    using wf x by (simp add: wf_f64_def round_nat_exact)
  have "signed s n \<le> int (round_nat (nat \<bar>?v\<bar>))"
  proof -
    have "n \<le> nat \<bar>?v\<bar>" if "\<not> s" using that s by (auto simp: signed_def)
    then have "round_nat n \<le> round_nat (nat \<bar>?v\<bar>)" if "\<not> s"
      using that round_nat_mono by blast
    then show ?thesis using r by (auto simp: signed_def)
  qed
  then show ?thesis
    using s by (auto simp: x y Let_def f64_make_def signed_def split: if_splits)
qed (use b in \<open>auto simp: f64_nonneg_def split: if_splits\<close>)

lemma f64_add_nonneg:
  assumes "wf_f64 x" "f64_nonneg x" "f64_nonneg y"
  shows "f64_nonneg (f64_add x y)"
  using f64_add_not_less [OF assms] assms(2) f64_le_trans unfolding f64_nonneg_def by blast

end
