(* ===== verification/Json.thy ===== *)
theory Json
  imports F64
begin

text \<open>
  JSON values, the free-form part of the data contract (\<open>serde_json::Value\<close>), with the accessors
  the engine uses: \<open>get\<close>, \<open>as_str\<close>, \<open>as_bool\<close>, \<open>as_u64\<close>, \<open>as_f64\<close>, \<open>as_array\<close>, \<open>is_object\<close> and
  the indexed assignment \<open>v[key] = w\<close>. An object is an association list with distinct keys; the
  order of its keys is not observed anywhere in the engine.
\<close>

datatype jnum = PosInt u64 | NegInt int | Float f64

datatype json =
    JNull
  | JBool bool
  | JNum jnum
  | JStr string
  | JArr "json list"
  | JObj "(string \<times> json) list"

fun is_object :: "json \<Rightarrow> bool" where
  "is_object (JObj _) = True"
| "is_object _ = False"

fun as_object :: "json \<Rightarrow> (string \<times> json) list option" where
  "as_object (JObj fs) = Some fs"
| "as_object _ = None"

fun as_array :: "json \<Rightarrow> json list option" where
  "as_array (JArr xs) = Some xs"
| "as_array _ = None"

fun as_str :: "json \<Rightarrow> string option" where
  "as_str (JStr s) = Some s"
| "as_str _ = None"

fun as_bool :: "json \<Rightarrow> bool option" where
  "as_bool (JBool b) = Some b"
| "as_bool _ = None"

fun as_u64 :: "json \<Rightarrow> u64 option" where
  "as_u64 (JNum (PosInt n)) = Some n"
| "as_u64 _ = None"

fun as_f64 :: "json \<Rightarrow> f64 option" where
  "as_f64 (JNum (PosInt n)) = Some (f64_of_int (uint n))"
| "as_f64 (JNum (NegInt i)) = Some (f64_of_int i)"
| "as_f64 (JNum (Float x)) = Some x"
| "as_f64 _ = None"

text \<open>\<open>v.get(key)\<close>: \<open>None\<close> unless \<open>v\<close> is an object with that key.\<close>

fun json_get :: "json \<Rightarrow> string \<Rightarrow> json option" where
  "json_get (JObj fs) k = map_of fs k"
| "json_get _ k = None"

text \<open>
  \<open>v[key] = w\<close>: inserts into an object, turns \<open>null\<close> into an object first, and panics (\<open>None\<close>)
  on every other value.
\<close>

fun json_index_set :: "json \<Rightarrow> string \<Rightarrow> json \<Rightarrow> json option" where
  "json_index_set (JObj fs) k w = Some (JObj (AList.update k w fs))"
| "json_index_set JNull k w = Some (JObj [(k, w)])"
| "json_index_set _ k w = None"

text \<open>The guard every stamp starts with: a value that is not an object is replaced by \<open>{}\<close>.\<close>

definition ensure_object :: "json \<Rightarrow> json" where
  "ensure_object v = (if is_object v then v else JObj [])"

text \<open>The guard followed by \<open>v[key] = w\<close>, which can then not panic.\<close>

definition stamp_key :: "string \<Rightarrow> json \<Rightarrow> json \<Rightarrow> json" where
  "stamp_key k w v = (case ensure_object v of JObj fs \<Rightarrow> JObj (AList.update k w fs))"

text \<open>Rendering an \<open>f64\<close>: a value that is not finite has no JSON number and becomes \<open>null\<close>.\<close>

definition json_of_f64 :: "f64 \<Rightarrow> json" where
  "json_of_f64 x = (if f64_is_finite x then JNum (Float x) else JNull)"

definition json_of_opt :: "('a \<Rightarrow> json) \<Rightarrow> 'a option \<Rightarrow> json" where
  "json_of_opt f x = (case x of None \<Rightarrow> JNull | Some a \<Rightarrow> f a)"

abbreviation json_u64 :: "u64 \<Rightarrow> json" where
  "json_u64 n \<equiv> JNum (PosInt n)"

subsection \<open>Typed fields\<close>

text \<open>
  The shape rules of the derived deserialisers: a plain field must be present and well-typed; an
  \<open>Option\<close> field may be absent or \<open>null\<close>; a \<open>#[serde(default)]\<close> field may be absent, and is then the
  default. Unknown keys are ignored.
\<close>

definition field_req :: "(json \<Rightarrow> 'a option) \<Rightarrow> json \<Rightarrow> string \<Rightarrow> 'a option" where
  "field_req d v k = Option.bind (json_get v k) d"

definition field_default :: "(json \<Rightarrow> 'a option) \<Rightarrow> 'a \<Rightarrow> json \<Rightarrow> string \<Rightarrow> 'a option" where
  "field_default d x v k = (case json_get v k of None \<Rightarrow> Some x | Some w \<Rightarrow> d w)"

definition dec_opt :: "(json \<Rightarrow> 'a option) \<Rightarrow> json \<Rightarrow> 'a option option" where
  "dec_opt d w = (if w = JNull then Some None else map_option Some (d w))"

abbreviation field_opt :: "(json \<Rightarrow> 'a option) \<Rightarrow> json \<Rightarrow> string \<Rightarrow> 'a option option" where
  "field_opt d v k \<equiv> field_default (dec_opt d) None v k"

fun dec_u32 :: "json \<Rightarrow> u32 option" where
  "dec_u32 (JNum (PosInt n)) = (if unat n < 2 ^ 32 then Some (of_nat (unat n)) else None)"
| "dec_u32 _ = None"

subsection \<open>Laws\<close>

lemma ensure_object_is_object [simp]: "is_object (ensure_object v)"
  by (cases v) (simp_all add: ensure_object_def)

lemma ensure_object_id [simp]: "is_object v \<Longrightarrow> ensure_object v = v"
  by (simp add: ensure_object_def)

lemma is_object_conv: "is_object v \<longleftrightarrow> (\<exists>fs. v = JObj fs)"
  by (cases v) auto

lemma json_get_ensure_object [simp]: "json_get (ensure_object v) k = json_get v k"
  by (cases v) (simp_all add: ensure_object_def)

lemma stamp_key_is_object [simp]: "is_object (stamp_key k w v)"
  by (cases v) (simp_all add: stamp_key_def ensure_object_def)

lemma json_get_stamp_key [simp, engine_simps]:
  "json_get (stamp_key k w v) j = (if j = k then Some w else json_get v j)"
  by (cases v) (simp_all add: stamp_key_def ensure_object_def)

lemma json_index_set_object:
  "is_object v \<Longrightarrow> json_index_set v k w = Some (stamp_key k w v)"
  by (cases v) (simp_all add: stamp_key_def)

lemma json_index_set_eq_None:
  "json_index_set v k w = None \<longleftrightarrow> \<not> is_object v \<and> v \<noteq> JNull"
  by (cases v) simp_all

lemma json_get_index_set [engine_simps]:
  "json_index_set v k w = Some v' \<Longrightarrow> json_get v' j = (if j = k then Some w else json_get v j)"
  by (cases v) auto

lemma json_index_set_is_object: "json_index_set v k w = Some v' \<Longrightarrow> is_object v'"
  by (cases v) auto

lemma as_f64_json_of_f64: "f64_is_finite x \<Longrightarrow> as_f64 (json_of_f64 x) = Some x"
  by (simp add: json_of_f64_def)

lemma json_of_f64_neq_JStr [simp]: "json_of_f64 x \<noteq> JStr s"
  by (simp add: json_of_f64_def)

lemma dec_u32_of [simp]: "dec_u32 (json_u64 (ucast (n :: u32))) = Some n"
proof -
  have "unat n < 2 ^ LENGTH(32)" by (rule unsigned_less)
  then have n: "unat n < 2 ^ 32" by simp
  then have "unat n < 2 ^ 64" by simp
  then have "unat (ucast n :: u64) = unat n"
    by (simp add: unsigned_ucast_eq take_bit_nat_eq_self_iff)
  with n show ?thesis by simp
qed

lemma field_cong:
  assumes "json_get v' k = json_get v k"
  shows "field_req d v' k = field_req d v k" "field_default d x v' k = field_default d x v k"
  using assms by (simp_all add: field_req_def field_default_def)

lemma field_get:
  assumes "json_get v k = Some w"
  shows "field_req d v k = d w" "field_default d x v k = d w"
  using assms by (simp_all add: field_req_def field_default_def)

end
