(* ===== verification/Contract.thy ===== *)
theory Contract
  imports Json "HOL-Library.Monad_Syntax"
begin

text \<open>
  The data contract (\<open>crates/engine-contract\<close>): the run state \<open>TaskContext\<close> with its per-node
  \<open>NodeRun\<close>s, the dispatch row \<open>NodeInvocation\<close>, and, from \<open>engine-core\<close>, the session row
  \<open>ClaudeSession\<close> and \<open>NodeError\<close>. The wire forms of the two row types are written out, because the
  engine reads its own ledgers back through them.

  Third-party formatting is a parameter: an \<open>ext\<close> holds the textual forms of \<open>Uuid\<close> and
  \<open>DateTime<Utc>\<close> and the serialised size of a JSON value, and \<open>ext_ok\<close> states the documented
  round trips of the two textual forms.
\<close>

record ext =
  uuid_str :: "uuid \<Rightarrow> string"
  uuid_parse :: "string \<Rightarrow> uuid option"
  time_str :: "timestamp \<Rightarrow> string"
  time_parse :: "string \<Rightarrow> timestamp option"
  time_rfc3339 :: "timestamp \<Rightarrow> string"
  json_bytes :: "json \<Rightarrow> nat option"

definition ext_ok :: "ext \<Rightarrow> bool" where
  "ext_ok X \<longleftrightarrow>
     (\<forall>u. uuid_parse X (uuid_str X u) = Some u) \<and> (\<forall>t. time_parse X (time_str X t) = Some t)"

subsection \<open>The run state\<close>

datatype node_run_status = Pending | Running | Success | Failed

record usage =
  input_tokens :: "u64 option"
  output_tokens :: "u64 option"
  model :: string

record node_run =
  nr_status :: node_run_status
  nr_started_at :: "timestamp option"
  nr_completed_at :: "timestamp option"
  nr_error :: "string option"
  nr_input :: "json option"
  nr_usage :: "usage option"

record task_context =
  event :: json
  nodes :: "json hmap"
  metadata :: json
  node_runs :: "node_run hmap"

definition wf_ctx :: "task_context \<Rightarrow> bool" where
  "wf_ctx c \<longleftrightarrow> wf_hmap (nodes c) \<and> wf_hmap (node_runs c)"

subsection \<open>Dispatch rows\<close>

datatype node_invocation_status = InvSuccess | InvFailed

record node_invocation =
  ni_id :: uuid
  ni_run_id :: "string option"
  ni_campaign_id :: "string option"
  ni_node :: string
  ni_seq :: u64
  ni_started_at :: timestamp
  ni_completed_at :: timestamp
  ni_status :: node_invocation_status
  ni_error :: "string option"
  ni_payload :: "json option"
  ni_payload_truncated :: bool
  ni_payload_cap_bytes :: u64

fun invocation_status_str :: "node_invocation_status \<Rightarrow> string" where
  "invocation_status_str InvSuccess = ''success''"
| "invocation_status_str InvFailed = ''failed''"

definition invocation_status_of_str :: "string \<Rightarrow> node_invocation_status option" where
  "invocation_status_of_str s =
     (if s = ''success'' then Some InvSuccess else if s = ''failed'' then Some InvFailed else None)"

text \<open>A unit variant is a string, or an object whose single key is the variant, with \<open>null\<close>.\<close>

fun dec_unit_enum :: "(string \<Rightarrow> 'a option) \<Rightarrow> json \<Rightarrow> 'a option" where
  "dec_unit_enum f (JStr s) = f s"
| "dec_unit_enum f (JObj [(k, JNull)]) = f k"
| "dec_unit_enum f _ = None"

definition node_invocation_to_json :: "ext \<Rightarrow> node_invocation \<Rightarrow> json" where
  "node_invocation_to_json X r = JObj
     [(''id'', JStr (uuid_str X (ni_id r))),
      (''run_id'', json_of_opt JStr (ni_run_id r)),
      (''campaign_id'', json_of_opt JStr (ni_campaign_id r)),
      (''node'', JStr (ni_node r)),
      (''seq'', json_u64 (ni_seq r)),
      (''started_at'', JStr (time_str X (ni_started_at r))),
      (''completed_at'', JStr (time_str X (ni_completed_at r))),
      (''status'', JStr (invocation_status_str (ni_status r))),
      (''error'', json_of_opt JStr (ni_error r)),
      (''payload'', json_of_opt id (ni_payload r)),
      (''payload_truncated'', JBool (ni_payload_truncated r)),
      (''payload_cap_bytes'', json_u64 (ni_payload_cap_bytes r))]"

definition node_invocation_of_json :: "ext \<Rightarrow> json \<Rightarrow> node_invocation option" where
  "node_invocation_of_json X v = do {
     i \<leftarrow> field_req (\<lambda>w. Option.bind (as_str w) (uuid_parse X)) v ''id'';
     run \<leftarrow> field_opt as_str v ''run_id'';
     camp \<leftarrow> field_opt as_str v ''campaign_id'';
     nd \<leftarrow> field_req as_str v ''node'';
     sq \<leftarrow> field_req as_u64 v ''seq'';
     st \<leftarrow> field_req (\<lambda>w. Option.bind (as_str w) (time_parse X)) v ''started_at'';
     co \<leftarrow> field_req (\<lambda>w. Option.bind (as_str w) (time_parse X)) v ''completed_at'';
     status \<leftarrow> field_req (dec_unit_enum invocation_status_of_str) v ''status'';
     err \<leftarrow> field_opt as_str v ''error'';
     pl \<leftarrow> field_opt Some v ''payload'';
     tr \<leftarrow> field_default as_bool False v ''payload_truncated'';
     cap \<leftarrow> field_default as_u64 0 v ''payload_cap_bytes'';
     Some \<lparr>ni_id = i, ni_run_id = run, ni_campaign_id = camp, ni_node = nd, ni_seq = sq,
           ni_started_at = st, ni_completed_at = co, ni_status = status, ni_error = err,
           ni_payload = pl, ni_payload_truncated = tr, ni_payload_cap_bytes = cap\<rparr>
   }"

subsection \<open>Session rows\<close>

record claude_session =
  cs_node :: string
  cs_session_id :: "string option"
  cs_ok :: bool
  cs_cost_usd :: f64
  cs_input_tokens :: u64
  cs_output_tokens :: u64
  cs_cache_read_input_tokens :: u64
  cs_cache_creation_input_tokens :: u64
  cs_model :: string
  cs_started_at :: "string option"
  cs_cost_known :: bool

definition claude_session_to_json :: "claude_session \<Rightarrow> json" where
  "claude_session_to_json s = JObj
     [(''node'', JStr (cs_node s)),
      (''session_id'', json_of_opt JStr (cs_session_id s)),
      (''ok'', JBool (cs_ok s)),
      (''cost_usd'', json_of_f64 (cs_cost_usd s)),
      (''input_tokens'', json_u64 (cs_input_tokens s)),
      (''output_tokens'', json_u64 (cs_output_tokens s)),
      (''cache_read_input_tokens'', json_u64 (cs_cache_read_input_tokens s)),
      (''cache_creation_input_tokens'', json_u64 (cs_cache_creation_input_tokens s)),
      (''model'', JStr (cs_model s)),
      (''started_at'', json_of_opt JStr (cs_started_at s)),
      (''cost_known'', JBool (cs_cost_known s))]"

definition default_cost_known :: bool where
  "default_cost_known = True"

definition claude_session_of_json :: "json \<Rightarrow> claude_session option" where
  "claude_session_of_json v = do {
     nd \<leftarrow> field_req as_str v ''node'';
     sid \<leftarrow> field_opt as_str v ''session_id'';
     k \<leftarrow> field_req as_bool v ''ok'';
     cost \<leftarrow> field_default as_f64 f64_zero v ''cost_usd'';
     i \<leftarrow> field_default as_u64 0 v ''input_tokens'';
     out \<leftarrow> field_default as_u64 0 v ''output_tokens'';
     cr \<leftarrow> field_default as_u64 0 v ''cache_read_input_tokens'';
     cc \<leftarrow> field_default as_u64 0 v ''cache_creation_input_tokens'';
     m \<leftarrow> field_default as_str '''' v ''model'';
     st \<leftarrow> field_opt as_str v ''started_at'';
     known \<leftarrow> field_default as_bool default_cost_known v ''cost_known'';
     Some \<lparr>cs_node = nd, cs_session_id = sid, cs_ok = k, cs_cost_usd = cost,
           cs_input_tokens = i, cs_output_tokens = out, cs_cache_read_input_tokens = cr,
           cs_cache_creation_input_tokens = cc, cs_model = m, cs_started_at = st,
           cs_cost_known = known\<rparr>
   }"

subsection \<open>Node errors\<close>

record node_error =
  ne_message :: string
  ne_sessions :: "claude_session list"
  ne_node_result :: "json option"

definition node_error_new :: "string \<Rightarrow> node_error" where
  "node_error_new m = \<lparr>ne_message = m, ne_sessions = [], ne_node_result = None\<rparr>"

definition with_sessions :: "node_error \<Rightarrow> claude_session list \<Rightarrow> node_error" where
  "with_sessions e ss = e\<lparr>ne_sessions := ss\<rparr>"

definition with_node_result :: "node_error \<Rightarrow> json \<Rightarrow> node_error" where
  "with_node_result e r = e\<lparr>ne_node_result := Some r\<rparr>"

subsection \<open>Round trips\<close>

lemma dec_opt_json_of_opt:
  "(\<And>a. x = Some a \<Longrightarrow> f a \<noteq> JNull \<and> d (f a) = Some a) \<Longrightarrow> dec_opt d (json_of_opt f x) = Some x"
  by (cases x) (auto simp: dec_opt_def json_of_opt_def)

lemma dec_opt_str [simp]: "dec_opt as_str (json_of_opt JStr x) = Some x"
  by (rule dec_opt_json_of_opt) simp

lemma dec_opt_value [simp]:
  "dec_opt Some (json_of_opt id x) = Some (if x = Some JNull then None else x)"
  by (cases x) (auto simp: dec_opt_def json_of_opt_def)

lemma invocation_status_round_trip [simp]:
  "invocation_status_of_str (invocation_status_str s) = Some s"
  by (cases s) (simp_all add: invocation_status_of_str_def)

text \<open>
  Reading a dispatch row back gives the row, except that a \<open>null\<close> payload reads as no payload.
\<close>

lemma node_invocation_round_trip:
  assumes "ext_ok X"
  shows "node_invocation_of_json X (node_invocation_to_json X r) =
     Some (r\<lparr>ni_payload := (if ni_payload r = Some JNull then None else ni_payload r)\<rparr>)"
  using assms
  by (simp add: node_invocation_of_json_def node_invocation_to_json_def ext_ok_def
      field_req_def field_default_def)

lemma claude_session_round_trip:
  assumes "f64_is_finite (cs_cost_usd s)"
  shows "claude_session_of_json (claude_session_to_json s) = Some s"
  using assms
  by (simp add: claude_session_of_json_def claude_session_to_json_def field_req_def
      field_default_def as_f64_json_of_f64)

text \<open>A session row whose cost is not finite cannot be read back.\<close>

lemma claude_session_nonfinite:
  assumes "\<not> f64_is_finite (cs_cost_usd s)"
  shows "claude_session_of_json (claude_session_to_json s) = None"
  using assms
  by (simp add: claude_session_of_json_def claude_session_to_json_def field_req_def
      field_default_def json_of_f64_def)

subsection \<open>A concrete instance of the external formats\<close>

text \<open>
  Unary renderings that satisfy \<open>ext_ok\<close>, for evaluating the model on concrete inputs; every value
  serialises to 10 bytes.
\<close>

definition sample_time_str :: "timestamp \<Rightarrow> string" where
  "sample_time_str t = (if t < 0 then CHR ''-'' # replicate (nat (- t)) CHR ''1''
     else replicate (nat t) CHR ''1'')"

definition sample_time_parse :: "string \<Rightarrow> timestamp option" where
  "sample_time_parse s = (case s of
     [] \<Rightarrow> Some 0
   | c # r \<Rightarrow> Some (if c = CHR ''-'' then - int (length r) else int (length s)))"

definition sample_ext :: ext where
  "sample_ext = \<lparr>uuid_str = (\<lambda>u. replicate (unat u) CHR ''1''),
     uuid_parse = (\<lambda>s. Some (of_nat (length s))),
     time_str = sample_time_str, time_parse = sample_time_parse, time_rfc3339 = sample_time_str,
     json_bytes = (\<lambda>v. Some 10)\<rparr>"

lemma sample_time_round_trip: "sample_time_parse (sample_time_str t) = Some t"
  by (cases "nat t") (auto simp: sample_time_parse_def sample_time_str_def)

lemma sample_ext_ok: "ext_ok sample_ext"
  by (simp add: ext_ok_def sample_ext_def sample_time_round_trip)

end
