(* ===== verification/Budget.thy ===== *)
theory Budget
  imports Contract
begin

text \<open>
  Spend accounting and the budget gate (\<open>engine-core/src/budget.rs\<close>, with the two node-output readers
  of \<open>workflow.rs\<close> it folds in). \<open>budget_ledger\<close> accumulates per dispatched node within one run,
  \<open>campaign_ledger\<close> per chain step; both are gated by \<open>evaluate_budget\<close>. What the two ledgers share
  is the interface \<open>spend_ledger\<close>, whose main consequence is that a tripped gate stays tripped.
\<close>

record budget =
  max_total_tokens :: "u64 option"
  max_cost_usd :: "f64 option"

datatype budget_halt_reason = TotalTokens u64 u64 | CostUsd f64 f64
  \<comment> \<open>spent and limit\<close>

fun cap_name :: "budget_halt_reason \<Rightarrow> string" where
  "cap_name (TotalTokens _ _) = ''max_total_tokens''"
| "cap_name (CostUsd _ _) = ''max_cost_usd''"

fun halt_reason_to_json :: "budget_halt_reason \<Rightarrow> json" where
  "halt_reason_to_json (TotalTokens spent limit) = JObj
     [(''cap'', JStr (cap_name (TotalTokens spent limit))),
      (''spent'', json_u64 spent), (''limit'', json_u64 limit)]"
| "halt_reason_to_json (CostUsd spent limit) = JObj
     [(''cap'', JStr (cap_name (CostUsd spent limit))),
      (''spent'', json_of_f64 spent), (''limit'', json_of_f64 limit)]"

datatype budget_decision = Allow | Halt budget_halt_reason

definition evaluate_budget :: "budget option \<Rightarrow> u64 \<Rightarrow> f64 \<Rightarrow> budget_decision" where
  "evaluate_budget b total_tokens total_cost_usd =
     (case b of
        None \<Rightarrow> Allow
      | Some bud \<Rightarrow>
          (case max_total_tokens bud of
             Some limit \<Rightarrow>
               if total_tokens \<ge> limit then Halt (TotalTokens total_tokens limit)
               else
                 (case max_cost_usd bud of
                    Some l \<Rightarrow> if f64_ge total_cost_usd l then Halt (CostUsd total_cost_usd l) else Allow
                  | None \<Rightarrow> Allow)
           | None \<Rightarrow>
               (case max_cost_usd bud of
                  Some l \<Rightarrow> if f64_ge total_cost_usd l then Halt (CostUsd total_cost_usd l) else Allow
                | None \<Rightarrow> Allow)))"

subsection \<open>The per-run ledger\<close>

record budget_ledger =
  bl_total_tokens :: u64
  bl_total_cost_usd :: f64
  bl_has_unknown_cost_node :: bool

definition budget_ledger_new :: budget_ledger where
  "budget_ledger_new =
     \<lparr>bl_total_tokens = 0, bl_total_cost_usd = f64_zero, bl_has_unknown_cost_node = False\<rparr>"

definition from_parts :: "u64 \<Rightarrow> f64 \<Rightarrow> budget_ledger" where
  "from_parts t c =
     \<lparr>bl_total_tokens = t, bl_total_cost_usd = c, bl_has_unknown_cost_node = False\<rparr>"

definition usage_tokens :: "usage \<Rightarrow> u64" where
  "usage_tokens u = (case input_tokens u of Some n \<Rightarrow> n | None \<Rightarrow> 0) +
     (case output_tokens u of Some n \<Rightarrow> n | None \<Rightarrow> 0)"

definition node_cost_usd :: "task_context \<Rightarrow> string \<Rightarrow> f64 option" where
  "node_cost_usd ctx i = do {
     v \<leftarrow> map_of (nodes ctx) i;
     c \<leftarrow> json_get v ''cost_usd'';
     as_f64 c
   }"

definition node_cache_tokens :: "task_context \<Rightarrow> string \<Rightarrow> u64 option" where
  "node_cache_tokens ctx i = do {
     v \<leftarrow> map_of (nodes ctx) i;
     let cache_read = Option.bind (json_get v ''cache_read_input_tokens'') as_u64;
     let cache_creation = Option.bind (json_get v ''cache_creation_input_tokens'') as_u64;
     (case (cache_read, cache_creation) of
        (None, None) \<Rightarrow> None
      | (a, b) \<Rightarrow> Some ((case a of Some n \<Rightarrow> n | None \<Rightarrow> 0) + (case b of Some n \<Rightarrow> n | None \<Rightarrow> 0)))
   }"

definition ledger_from_context :: "task_context \<Rightarrow> budget_ledger" where
  "ledger_from_context ctx =
     (let usage_sum = sum_list (map usage_tokens (List.map_filter nr_usage (map snd (node_runs ctx))));
          costs = map (node_cost_usd ctx) (map fst (nodes ctx));
          caches = List.map_filter (node_cache_tokens ctx) (map fst (nodes ctx))
      in \<lparr>bl_total_tokens = usage_sum + sum_list caches,
          bl_total_cost_usd = foldl f64_add f64_zero (List.map_filter id costs),
          bl_has_unknown_cost_node = (None \<in> set costs)\<rparr>)"

definition ledger_record ::
  "usage option \<Rightarrow> f64 option \<Rightarrow> u64 option \<Rightarrow> budget_ledger \<Rightarrow> budget_ledger" where
  "ledger_record usg cost cache L =
     (let L1 = (case usg of Some u \<Rightarrow> L\<lparr>bl_total_tokens := bl_total_tokens L + usage_tokens u\<rparr> | None \<Rightarrow> L);
          L2 = (case cache of Some n \<Rightarrow> L1\<lparr>bl_total_tokens := bl_total_tokens L1 + n\<rparr> | None \<Rightarrow> L1)
      in (case cost of Some c \<Rightarrow> L2\<lparr>bl_total_cost_usd := f64_add (bl_total_cost_usd L2) c\<rparr> | None \<Rightarrow> L2))"

definition ledger_check :: "budget_ledger \<Rightarrow> budget option \<Rightarrow> budget_decision" where
  "ledger_check L b = evaluate_budget b (bl_total_tokens L) (bl_total_cost_usd L)"

subsection \<open>The campaign ledger\<close>

record campaign_ledger =
  cl_total_tokens :: u64
  cl_total_cost_usd :: f64
  cl_has_unknown_cost_step :: bool

definition campaign_ledger_new :: campaign_ledger where
  "campaign_ledger_new =
     \<lparr>cl_total_tokens = 0, cl_total_cost_usd = f64_zero, cl_has_unknown_cost_step = False\<rparr>"

definition record_step :: "f64 option \<Rightarrow> u64 \<Rightarrow> campaign_ledger \<Rightarrow> campaign_ledger" where
  "record_step cost tokens L =
     (let L1 = L\<lparr>cl_total_tokens := cl_total_tokens L + tokens\<rparr>
      in (case cost of
            Some c \<Rightarrow> L1\<lparr>cl_total_cost_usd := f64_add (cl_total_cost_usd L1) c\<rparr>
          | None \<Rightarrow> L1\<lparr>cl_has_unknown_cost_step := True\<rparr>))"

definition campaign_check :: "campaign_ledger \<Rightarrow> budget option \<Rightarrow> budget_decision" where
  "campaign_check L b = evaluate_budget b (cl_total_tokens L) (cl_total_cost_usd L)"

subsection \<open>The gate\<close>

lemma evaluate_budget_None [simp]: "evaluate_budget None t c = Allow"
  by (simp add: evaluate_budget_def)

lemma evaluate_budget_Allow_iff:
  "evaluate_budget (Some b) t c = Allow \<longleftrightarrow>
     (case max_total_tokens b of Some l \<Rightarrow> t < l | None \<Rightarrow> True) \<and>
     (case max_cost_usd b of Some l \<Rightarrow> \<not> f64_ge c l | None \<Rightarrow> True)"
  by (auto simp: evaluate_budget_def not_le split: option.splits)

lemma evaluate_budget_Halt_iff:
  "evaluate_budget (Some b) t c = Halt r \<longleftrightarrow>
     (\<exists>l. max_total_tokens b = Some l \<and> l \<le> t \<and> r = TotalTokens t l) \<or>
     (\<exists>l. max_cost_usd b = Some l \<and> f64_ge c l \<and> r = CostUsd c l \<and>
          (\<forall>k. max_total_tokens b = Some k \<longrightarrow> t < k))"
  by (auto simp: evaluate_budget_def not_le split: option.splits)

lemma evaluate_budget_mono:
  assumes "evaluate_budget b t c = Halt r" and "t \<le> t'" and "f64_le c c'"
  shows "\<exists>r'. evaluate_budget b t' c' = Halt r'"
proof (cases b)
  case None
  with assms(1) show ?thesis by simp
next
  case (Some bud)
  show ?thesis
  proof (cases "evaluate_budget b t' c'")
    case Allow
    then have "evaluate_budget (Some bud) t c = Allow"
      using assms(2,3) Some
      by (auto simp: evaluate_budget_Allow_iff split: option.splits dest: f64_le_trans)
    with assms(1) Some show ?thesis by simp
  next
    case (Halt r')
    then show ?thesis by blast
  qed
qed

subsection \<open>What the two ledgers share\<close>

locale spend_ledger =
  fixes tokens :: "'l \<Rightarrow> u64"
    and cost :: "'l \<Rightarrow> f64"
    and check :: "'l \<Rightarrow> budget option \<Rightarrow> budget_decision"
    and fold_in :: "'x \<Rightarrow> 'l \<Rightarrow> 'l"
    and dtokens :: "'x \<Rightarrow> u64"
    and dcost :: "'x \<Rightarrow> f64 option"
  assumes check_eval: "check L b = evaluate_budget b (tokens L) (cost L)"
    and tokens_fold_in: "tokens (fold_in x L) = tokens L + dtokens x"
    and cost_fold_in:
      "cost (fold_in x L) = (case dcost x of None \<Rightarrow> cost L | Some c \<Rightarrow> f64_add (cost L) c)"
begin

definition sound_cost :: "'l \<Rightarrow> bool" where
  "sound_cost L \<longleftrightarrow> wf_f64 (cost L) \<and> f64_nonneg (cost L)"

definition nonneg_item :: "'x \<Rightarrow> bool" where
  "nonneg_item x \<longleftrightarrow> (\<forall>c. dcost x = Some c \<longrightarrow> f64_nonneg c)"

lemma sound_cost_fold_in: "sound_cost L \<Longrightarrow> nonneg_item x \<Longrightarrow> sound_cost (fold_in x L)"
  by (auto simp: sound_cost_def nonneg_item_def cost_fold_in f64_add_nonneg split: option.splits)

lemma cost_fold_in_mono:
  "sound_cost L \<Longrightarrow> nonneg_item x \<Longrightarrow> f64_le (cost L) (cost (fold_in x L))"
  by (cases "cost L")
    (auto simp: sound_cost_def nonneg_item_def cost_fold_in f64_nonneg_def
      intro: f64_add_not_less [unfolded f64_nonneg_def] split: option.splits)

lemma tokens_fold:
  assumes "unat (tokens L) + (\<Sum>x\<leftarrow>xs. unat (dtokens x)) < 2 ^ 64"
  shows "unat (tokens (fold fold_in xs L)) = unat (tokens L) + (\<Sum>x\<leftarrow>xs. unat (dtokens x))"
  using assms
proof (induction xs arbitrary: L)
  case (Cons x xs)
  then have "unat (tokens (fold_in x L)) = unat (tokens L) + unat (dtokens x)"
    by (simp add: tokens_fold_in unat_add_no_wrap)
  with Cons show ?case by simp
qed simp

lemma halt_latch:
  assumes "check L b = Halt r" and "sound_cost L" and "\<forall>x\<in>set xs. nonneg_item x"
    and "unat (tokens L) + (\<Sum>x\<leftarrow>xs. unat (dtokens x)) < 2 ^ 64"
  shows "\<exists>r'. check (fold fold_in xs L) b = Halt r'"
  using assms
proof (induction xs arbitrary: L r)
  case (Cons x xs)
  have t: "unat (tokens (fold_in x L)) = unat (tokens L) + unat (dtokens x)"
    using Cons.prems(4) by (simp add: tokens_fold_in unat_add_no_wrap)
  have "tokens L \<le> tokens (fold_in x L)" using t by (simp add: word_le_nat_alt)
  moreover have "f64_le (cost L) (cost (fold_in x L))"
    using Cons.prems(2,3) by (simp add: cost_fold_in_mono)
  ultimately obtain r' where "check (fold_in x L) b = Halt r'"
    using Cons.prems(1) evaluate_budget_mono unfolding check_eval by blast
  moreover have "sound_cost (fold_in x L)"
    using Cons.prems(2,3) by (simp add: sound_cost_fold_in)
  ultimately show ?case
    using Cons.IH [of "fold_in x L" r'] Cons.prems(3,4) t by simp
qed auto

end

text \<open>The spend of one completed node, as the run loop passes it to \<open>record\<close>.\<close>

type_synonym spend = "usage option \<times> f64 option \<times> u64 option"

definition record_spend :: "spend \<Rightarrow> budget_ledger \<Rightarrow> budget_ledger" where
  "record_spend s L = (case s of (u, c, k) \<Rightarrow> ledger_record u c k L)"

definition spend_tokens :: "spend \<Rightarrow> u64" where
  "spend_tokens s = (case s of (u, c, k) \<Rightarrow>
     (case u of Some x \<Rightarrow> usage_tokens x | None \<Rightarrow> 0) + (case k of Some n \<Rightarrow> n | None \<Rightarrow> 0))"

definition spend_cost :: "spend \<Rightarrow> f64 option" where
  "spend_cost s = (case s of (u, c, k) \<Rightarrow> c)"

lemmas ledger_defs = ledger_record_def record_spend_def spend_tokens_def spend_cost_def
  budget_ledger_new_def ledger_check_def from_parts_def

interpretation run_ledger: spend_ledger bl_total_tokens bl_total_cost_usd ledger_check
  record_spend spend_tokens spend_cost
  by unfold_locales (auto simp: ledger_defs Let_def split: prod.splits option.splits)

interpretation chain_ledger: spend_ledger cl_total_tokens cl_total_cost_usd campaign_check
  "\<lambda>(c, n). record_step c n" snd fst
  by unfold_locales (auto simp: record_step_def campaign_check_def Let_def split: option.splits)

lemma record_spend_unknown [simp]:
  "bl_has_unknown_cost_node (record_spend s L) = bl_has_unknown_cost_node L"
  by (auto simp: ledger_defs Let_def split: prod.splits option.splits)

subsection \<open>Reconstructing a ledger from the run state\<close>

abbreviation run_usage :: "task_context \<Rightarrow> string \<Rightarrow> usage option" where
  "run_usage ctx i \<equiv> Option.bind (map_of (node_runs ctx) i) nr_usage"

definition or_zero :: "u64 option \<Rightarrow> u64" where
  "or_zero x = (case x of Some n \<Rightarrow> n | None \<Rightarrow> 0)"

lemma sum_list_map_filter:
  "sum_list (map g (List.map_filter f xs)) = (\<Sum>x\<leftarrow>xs. or_zero (map_option g (f x)))"
  by (induction xs) (auto simp: List.map_filter_simps or_zero_def split: option.splits)

lemma sum_list_keys: "wf_hmap m \<Longrightarrow> sum_list (map (g \<circ> fst) m) = (\<Sum>k\<in>hkeys m. g k)"
  using sum_list_distinct_conv_sum_set [of "map fst m" g] by (simp add: wf_hmap_def)

lemma sum_list_values:
  assumes "wf_hmap m"
  shows "(\<Sum>r\<leftarrow>map snd m. h r) = (\<Sum>k\<in>hkeys m. h (the (map_of m k)))"
proof -
  have "(\<Sum>r\<leftarrow>map snd m. h r) = (\<Sum>k\<leftarrow>map fst m. h (the (map_of m k)))"
    using assms
    by (auto simp: wf_hmap_def map_of_is_SomeI comp_def intro!: arg_cong [where f = sum_list] map_cong)
  then show ?thesis
    using assms by (simp add: sum_list_keys)
qed

text \<open>
  The token total of a ledger rebuilt from a stored context: what the last run of each node reported, and the cache
  tokens of the last output of each node. Earlier runs of a node that ran twice are not in it.
\<close>

lemma from_context_tokens:
  assumes "wf_ctx ctx"
  shows "bl_total_tokens (ledger_from_context ctx) =
    (\<Sum>i\<in>hkeys (node_runs ctx). or_zero (map_option usage_tokens (run_usage ctx i))) +
    (\<Sum>i\<in>hkeys (nodes ctx). or_zero (node_cache_tokens ctx i))"
proof -
  have "sum_list (map usage_tokens (List.map_filter nr_usage (map snd (node_runs ctx)))) =
      (\<Sum>i\<in>hkeys (node_runs ctx). or_zero (map_option usage_tokens (run_usage ctx i)))"
    using assms unfolding sum_list_map_filter
    by (subst sum_list_values) (auto simp: wf_ctx_def hkeys_conv_dom intro!: sum.cong)
  moreover have "sum_list (List.map_filter (node_cache_tokens ctx) (map fst (nodes ctx))) =
      (\<Sum>i\<in>hkeys (nodes ctx). or_zero (node_cache_tokens ctx i))"
    using assms sum_list_map_filter [of id "node_cache_tokens ctx" "map fst (nodes ctx)"]
    by (simp add: wf_ctx_def sum_list_keys option.map_id)
  ultimately show ?thesis by (simp add: ledger_from_context_def Let_def)
qed

definition sample_run :: "usage option \<Rightarrow> node_run" where
  "sample_run u = \<lparr>nr_status = Success, nr_started_at = None, nr_completed_at = None,
     nr_error = None, nr_input = None, nr_usage = u\<rparr>"

definition sample_ctx :: task_context where
  "sample_ctx = \<lparr>event = JNull,
     nodes = [(''a'', JObj [(''cache_read_input_tokens'', json_u64 7)])],
     metadata = JObj [],
     node_runs = [(''a'', sample_run (Some \<lparr>input_tokens = Some 2, output_tokens = Some 3, model = ''m''\<rparr>)),
       (''b'', sample_run None)]\<rparr>"

subsection \<open>The gate is a latch\<close>

text \<open>
  Once the budget gate has halted a run it keeps halting: folding in any further spend, with no
  negative cost and no token counter overflow, leaves the gate of the ledger halted.
\<close>

theorem budget_gate_latches:
  assumes "ledger_check L b = Halt r"
    and "wf_f64 (bl_total_cost_usd L)" and "f64_nonneg (bl_total_cost_usd L)"
    and "\<forall>s\<in>set spends. \<forall>c. spend_cost s = Some c \<longrightarrow> f64_nonneg c"
    and "unat (bl_total_tokens L) + (\<Sum>s\<leftarrow>spends. unat (spend_tokens s)) < 2 ^ 64"
  shows "\<exists>r'. ledger_check (fold record_spend spends L) b = Halt r'"
  using assms
  by (intro run_ledger.halt_latch) (auto simp: run_ledger.sound_cost_def run_ledger.nonneg_item_def)

theorem budget_gate_latches_witness:
  "\<exists>r'. ledger_check (fold record_spend [(None, Some (Fin False 3), Some 5)] (from_parts 10 f64_zero))
     (Some \<lparr>max_total_tokens = Some 10, max_cost_usd = None\<rparr>) = Halt r'"
proof (rule budget_gate_latches [where r = "TotalTokens 10 10"])
  show "ledger_check (from_parts 10 f64_zero) (Some \<lparr>max_total_tokens = Some 10, max_cost_usd = None\<rparr>) =
      Halt (TotalTokens 10 10)"
    by (simp add: ledger_defs evaluate_budget_def)
qed (auto simp: ledger_defs f64_nonneg_def signed_def)

text \<open>
  The token total of a run is exact: recording any sequence of node spends adds up their input,
  output and cache tokens, provided the sum fits in 64 bits.
\<close>

theorem ledger_tokens_exact:
  assumes "unat (bl_total_tokens L) + (\<Sum>s\<leftarrow>spends. unat (spend_tokens s)) < 2 ^ 64"
  shows "unat (bl_total_tokens (fold record_spend spends L)) =
    unat (bl_total_tokens L) + (\<Sum>s\<leftarrow>spends. unat (spend_tokens s))"
  using assms by (rule run_ledger.tokens_fold)

theorem ledger_tokens_exact_witness:
  "unat (bl_total_tokens (fold record_spend [(None, None, Some 5), (None, None, Some 6)] budget_ledger_new)) = 11"
  using ledger_tokens_exact [of budget_ledger_new "[(None, None, Some 5), (None, None, Some 6)]"]
  by (simp add: ledger_defs)

text \<open>
  A campaign cost total never counts a step of unknown cost, and the ledger says so: after any
  sequence of steps the total is the sum of the reported costs alone, and the unknown-cost flag is
  raised exactly when some step reported none.
\<close>

theorem campaign_unknown_cost_flagged:
  "cl_total_cost_usd (fold (\<lambda>(c, n). record_step c n) steps campaign_ledger_new) =
     foldl f64_add f64_zero (List.map_filter fst steps) \<and>
   cl_has_unknown_cost_step (fold (\<lambda>(c, n). record_step c n) steps campaign_ledger_new) =
     (\<exists>n. (None, n) \<in> set steps)"
proof -
  have "cl_total_cost_usd (fold (\<lambda>(c, n). record_step c n) steps L) =
      foldl f64_add (cl_total_cost_usd L) (List.map_filter fst steps)" for L
    by (induction steps arbitrary: L)
      (auto simp: record_step_def Let_def List.map_filter_simps split: option.splits)
  moreover have "cl_has_unknown_cost_step (fold (\<lambda>(c, n). record_step c n) steps L) =
      (cl_has_unknown_cost_step L \<or> (\<exists>n. (None, n) \<in> set steps))" for L
    by (induction steps arbitrary: L)
      (auto simp: record_step_def Let_def split: option.splits)
  ultimately show ?thesis by (simp add: campaign_ledger_new_def)
qed

end
