(* ===== verification/Markers.thy ===== *)
theory Markers
  imports Budget
begin

text \<open>
  The run-level markers a run carries in its metadata: cancellation (\<open>cancellation.rs\<close>), the budget
  halt and run id stamps (\<open>workflow.rs\<close>), suspension (\<open>suspend.rs\<close>), completion and failure
  (\<open>completion.rs\<close>), with their readers and the terminal status derived from them.

  \<open>stamp_resumed\<close> and the two \<open>request_suspension\<close> functions index into the stored marker without
  checking its shape, which panics when the marker is neither an object nor \<open>null\<close>; a panic is \<open>None\<close>.
  Of the shapes a marker may have, the object form (the one the engine writes) is decoded.
\<close>

definition flag_at :: "json \<Rightarrow> string \<Rightarrow> string \<Rightarrow> bool" where
  "flag_at m k f =
     (case do { v \<leftarrow> json_get m k; w \<leftarrow> json_get v f; as_bool w } of Some b \<Rightarrow> b | None \<Rightarrow> False)"

lemma flag_at_stamp_other [simp, engine_simps]: "j \<noteq> k \<Longrightarrow> flag_at (stamp_key k w m) j f = flag_at m j f"
  by (simp add: flag_at_def)

lemma flag_at_stamp_same [engine_simps]:
  "flag_at (stamp_key k w m) k f = (case Option.bind (json_get w f) as_bool of Some b \<Rightarrow> b | None \<Rightarrow> False)"
  by (simp add: flag_at_def)

lemma flag_at_ensure_object [simp]: "flag_at (ensure_object m) k f = flag_at m k f"
  by (simp add: flag_at_def)

subsection \<open>Cancellation, budget halt, run id\<close>

definition stamp_cancelled :: "ext \<Rightarrow> timestamp \<Rightarrow> json \<Rightarrow> json" where
  "stamp_cancelled X now m = stamp_key ''cancellation''
     (JObj [(''cancelled'', JBool True), (''at'', JStr (time_rfc3339 X now))]) m"

definition stamp_budget_halt :: "budget_halt_reason \<Rightarrow> json \<Rightarrow> json" where
  "stamp_budget_halt r m = stamp_key ''budget''
     (JObj [(''halted'', JBool True), (''reason'', halt_reason_to_json r)]) m"

definition stamp_run_id :: "ext \<Rightarrow> uuid \<Rightarrow> json \<Rightarrow> json" where
  "stamp_run_id X u m = stamp_key ''run_id'' (JStr (uuid_str X u)) m"

definition read_run_id :: "json \<Rightarrow> string option" where
  "read_run_id m = Option.bind (json_get m ''run_id'') as_str"

lemma read_run_id_stamp [simp]: "read_run_id (stamp_run_id X u m) = Some (uuid_str X u)"
  by (simp add: read_run_id_def stamp_run_id_def)

subsection \<open>Suspension\<close>

datatype suspend_reason = OperatorPause | SuspendNode | HeavyWorkQueue

fun suspend_reason_str :: "suspend_reason \<Rightarrow> string" where
  "suspend_reason_str OperatorPause = ''operator_pause''"
| "suspend_reason_str SuspendNode = ''suspend_node''"
| "suspend_reason_str HeavyWorkQueue = ''heavy_work_queue''"

definition suspend_reason_of_str :: "string \<Rightarrow> suspend_reason option" where
  "suspend_reason_of_str s =
     (if s = ''operator_pause'' then Some OperatorPause
      else if s = ''suspend_node'' then Some SuspendNode
      else if s = ''heavy_work_queue'' then Some HeavyWorkQueue else None)"

record suspension =
  sp_resume_at :: string
  sp_reason :: suspend_reason
  sp_origin_identity :: "string option"
  sp_ledger :: budget_ledger

record ledger_snapshot =
  ls_total_tokens :: u64
  ls_total_cost_usd :: f64

record suspension_state =
  ss_suspended :: bool
  ss_resume_at :: "string option"
  ss_reason :: "suspend_reason option"
  ss_origin_identity :: "string option"
  ss_ledger :: "ledger_snapshot option"
  ss_resume_count :: u32
  ss_requested :: bool

definition ledger_snapshot_to_json :: "ledger_snapshot \<Rightarrow> json" where
  "ledger_snapshot_to_json s = JObj
     [(''total_tokens'', json_u64 (ls_total_tokens s)),
      (''total_cost_usd'', json_of_f64 (ls_total_cost_usd s))]"

definition ledger_snapshot_of_json :: "json \<Rightarrow> ledger_snapshot option" where
  "ledger_snapshot_of_json v = do {
     t \<leftarrow> field_req as_u64 v ''total_tokens'';
     c \<leftarrow> field_req as_f64 v ''total_cost_usd'';
     Some \<lparr>ls_total_tokens = t, ls_total_cost_usd = c\<rparr>
   }"

definition suspension_state_of_json :: "json \<Rightarrow> suspension_state option" where
  "suspension_state_of_json v = do {
     s \<leftarrow> field_req as_bool v ''suspended'';
     r \<leftarrow> field_opt as_str v ''resume_at'';
     why \<leftarrow> field_opt (dec_unit_enum suspend_reason_of_str) v ''reason'';
     org \<leftarrow> field_opt as_str v ''origin_identity'';
     led \<leftarrow> field_opt ledger_snapshot_of_json v ''ledger'';
     n \<leftarrow> field_default dec_u32 0 v ''resume_count'';
     req \<leftarrow> field_default as_bool False v ''requested'';
     Some \<lparr>ss_suspended = s, ss_resume_at = r, ss_reason = why, ss_origin_identity = org,
           ss_ledger = led, ss_resume_count = n, ss_requested = req\<rparr>
   }"

definition read_suspension :: "json \<Rightarrow> suspension_state option" where
  "read_suspension m = Option.bind (json_get m ''suspension'') suspension_state_of_json"

definition existing_resume_count :: "json \<Rightarrow> u32" where
  "existing_resume_count m = (case read_suspension m of Some s \<Rightarrow> ss_resume_count s | None \<Rightarrow> 0)"

definition stamp_suspended :: "ext \<Rightarrow> timestamp \<Rightarrow> suspension \<Rightarrow> json \<Rightarrow> json" where
  "stamp_suspended X now s m = stamp_key ''suspension''
     (JObj [(''suspended'', JBool True),
            (''at'', JStr (time_rfc3339 X now)),
            (''resume_at'', JStr (sp_resume_at s)),
            (''reason'', JStr (suspend_reason_str (sp_reason s))),
            (''origin_identity'', json_of_opt JStr (sp_origin_identity s)),
            (''ledger'', ledger_snapshot_to_json
               \<lparr>ls_total_tokens = bl_total_tokens (sp_ledger s),
                ls_total_cost_usd = bl_total_cost_usd (sp_ledger s)\<rparr>),
            (''resume_count'', json_u64 (ucast (existing_resume_count (ensure_object m)))),
            (''requested'', JBool False)]) m"

definition stamp_resumed :: "json \<Rightarrow> json option" where
  "stamp_resumed m =
     (let m0 = ensure_object m; n = existing_resume_count m0
      in case json_get m0 ''suspension'' of
           None \<Rightarrow> Some m0
         | Some existing \<Rightarrow> do {
             u1 \<leftarrow> json_index_set existing ''suspended'' (JBool False);
             u2 \<leftarrow> json_index_set u1 ''requested'' (JBool False);
             u3 \<leftarrow> json_index_set u2 ''resume_count'' (json_u64 (ucast (n + 1)));
             Some (stamp_key ''suspension'' u3 m0)
           })"

definition fresh_request :: "json \<Rightarrow> json" where
  "fresh_request pending = JObj
     [(''suspended'', JBool False), (''at'', JNull), (''resume_at'', JNull), (''reason'', JNull),
      (''origin_identity'', JNull), (''ledger'', JNull), (''resume_count'', json_u64 0),
      (''requested'', JBool True), (''pending_reason'', pending)]"

definition request_with_pending :: "json \<Rightarrow> json \<Rightarrow> json option" where
  "request_with_pending pending m =
     (let m0 = ensure_object m
      in case json_get m0 ''suspension'' of
           Some existing \<Rightarrow> do {
             u1 \<leftarrow> json_index_set existing ''requested'' (JBool True);
             u2 \<leftarrow> json_index_set u1 ''pending_reason'' pending;
             Some (stamp_key ''suspension'' u2 m0)
           }
         | None \<Rightarrow> Some (stamp_key ''suspension'' (fresh_request pending) m0))"

definition request_suspension :: "json \<Rightarrow> json option" where
  "request_suspension m = request_with_pending JNull m"

definition request_suspension_with_reason :: "suspend_reason \<Rightarrow> json \<Rightarrow> json option" where
  "request_suspension_with_reason r m = request_with_pending (JStr (suspend_reason_str r)) m"

definition suspension_requested :: "json \<Rightarrow> bool" where
  "suspension_requested m = flag_at m ''suspension'' ''requested''"

definition requested_reason :: "json \<Rightarrow> suspend_reason" where
  "requested_reason m =
     (case do { v \<leftarrow> json_get m ''suspension''; w \<leftarrow> json_get v ''pending_reason'';
                dec_unit_enum suspend_reason_of_str w } of
        Some r \<Rightarrow> r | None \<Rightarrow> SuspendNode)"

definition is_suspended :: "json \<Rightarrow> bool" where
  "is_suspended m = (case read_suspension m of Some s \<Rightarrow> ss_suspended s | None \<Rightarrow> False)"

subsection \<open>Completion, failure and the terminal status\<close>

definition stamp_completion :: "ext \<Rightarrow> timestamp \<Rightarrow> string \<Rightarrow> json \<Rightarrow> json" where
  "stamp_completion X now status m = stamp_key ''completion''
     (JObj [(''terminal'', JBool True), (''status'', JStr status), (''at'', JStr (time_rfc3339 X now))]) m"

definition stamp_failure :: "string \<Rightarrow> json \<Rightarrow> json" where
  "stamp_failure msg m = stamp_key ''failure''
     (JObj [(''failed'', JBool True), (''error'', JStr msg)]) m"

definition is_complete :: "json \<Rightarrow> bool" where
  "is_complete m = flag_at m ''completion'' ''terminal''"

definition derive_terminal_status :: "task_context \<Rightarrow> string" where
  "derive_terminal_status snapshot =
     (let m = metadata snapshot
      in if flag_at m ''cancellation'' ''cancelled'' then ''cancelled''
         else if flag_at m ''budget'' ''halted'' then ''budget_halted''
         else if flag_at m ''failure'' ''failed'' \<or>
                 list_ex (\<lambda>r. nr_status r = Failed) (map snd (node_runs snapshot)) then ''failed''
         else ''succeeded'')"

subsection \<open>Reading the stamps back\<close>

lemma suspend_reason_round_trip [simp]: "suspend_reason_of_str (suspend_reason_str r) = Some r"
  by (cases r) (simp_all add: suspend_reason_of_str_def)

lemma dec_opt_reason [simp]:
  "dec_opt (dec_unit_enum suspend_reason_of_str) (JStr (suspend_reason_str r)) = Some (Some r)"
  by (simp add: dec_opt_def)

lemma ledger_snapshot_round_trip [simp]:
  "f64_is_finite (ls_total_cost_usd s) \<Longrightarrow>
     dec_opt ledger_snapshot_of_json (ledger_snapshot_to_json s) = Some (Some s)"
  by (simp add: dec_opt_def ledger_snapshot_of_json_def ledger_snapshot_to_json_def field_req_def
      as_f64_json_of_f64)

lemma read_suspension_ensure_object [simp]: "read_suspension (ensure_object m) = read_suspension m"
  by (simp add: read_suspension_def)

lemma existing_resume_count_ensure_object [simp]:
  "existing_resume_count (ensure_object m) = existing_resume_count m"
  by (simp add: existing_resume_count_def)

lemma read_suspension_stamp_other [simp, engine_simps]:
  "k \<noteq> ''suspension'' \<Longrightarrow> read_suspension (stamp_key k w m) = read_suspension m"
  by (simp add: read_suspension_def)

lemma read_stamp_suspended:
  assumes "f64_is_finite (bl_total_cost_usd (sp_ledger s))"
  shows "read_suspension (stamp_suspended X now s m) = Some
    \<lparr>ss_suspended = True, ss_resume_at = Some (sp_resume_at s), ss_reason = Some (sp_reason s),
     ss_origin_identity = sp_origin_identity s,
     ss_ledger = Some \<lparr>ls_total_tokens = bl_total_tokens (sp_ledger s),
       ls_total_cost_usd = bl_total_cost_usd (sp_ledger s)\<rparr>,
     ss_resume_count = existing_resume_count m, ss_requested = False\<rparr>"
proof -
  have str: "dec_opt as_str (JStr x) = Some (Some x)" for x by (simp add: dec_opt_def)
  show ?thesis
    using assms
    by (simp add: read_suspension_def stamp_suspended_def suspension_state_of_json_def field_req_def
        field_default_def str del: dec_u32.simps)
qed

lemma stamp_resumed_object:
  assumes "json_get m ''suspension'' = Some v" and "is_object v"
  shows "stamp_resumed m = Some (stamp_key ''suspension''
     (stamp_key ''resume_count'' (json_u64 (ucast (existing_resume_count m + 1)))
       (stamp_key ''requested'' (JBool False) (stamp_key ''suspended'' (JBool False) v)))
     (ensure_object m))"
  using assms by (simp add: stamp_resumed_def json_index_set_object Let_def)

lemma suspension_state_of_json_update:
  assumes "suspension_state_of_json v = Some st"
    and get: "\<And>k. k \<notin> {''suspended'', ''requested'', ''resume_count''} \<Longrightarrow> json_get v' k = json_get v k"
    and set: "json_get v' ''suspended'' = Some (JBool a)" "json_get v' ''requested'' = Some (JBool b)"
      "json_get v' ''resume_count'' = Some (json_u64 (ucast n))"
  shows "suspension_state_of_json v' =
    Some (st\<lparr>ss_suspended := a, ss_requested := b, ss_resume_count := n\<rparr>)"
proof -
  note same = field_cong(2) [OF get [of "''resume_at''"]] field_cong(2) [OF get [of "''reason''"]]
    field_cong(2) [OF get [of "''origin_identity''"]] field_cong(2) [OF get [of "''ledger''"]]
  note new = field_get(1) [OF set(1)] field_get(2) [OF set(2)] field_get(2) [OF set(3)]
  show ?thesis
    using assms(1) unfolding suspension_state_of_json_def
    by (auto simp: bind_eq_Some_conv same new simp del: dec_u32.simps)
qed

lemma read_stamp_resumed:
  assumes "read_suspension m = Some st"
  shows "\<exists>m'. stamp_resumed m = Some m' \<and>
    read_suspension m' = Some (st\<lparr>ss_suspended := False, ss_requested := False,
      ss_resume_count := ss_resume_count st + 1\<rparr>)"
proof -
  obtain v where v: "json_get m ''suspension'' = Some v" "suspension_state_of_json v = Some st"
    using assms by (auto simp: read_suspension_def bind_eq_Some_conv)
  then have obj: "is_object v"
    by (cases v) (auto simp: suspension_state_of_json_def field_req_def)
  let ?v = "stamp_key ''resume_count'' (json_u64 (ucast (ss_resume_count st + 1)))
     (stamp_key ''requested'' (JBool False) (stamp_key ''suspended'' (JBool False) v))"
  have "existing_resume_count m = ss_resume_count st"
    using assms by (simp add: existing_resume_count_def)
  then have m': "stamp_resumed m = Some (stamp_key ''suspension'' ?v (ensure_object m))"
    using stamp_resumed_object [OF v(1) obj] by simp
  have "suspension_state_of_json ?v = Some (st\<lparr>ss_suspended := False, ss_requested := False,
      ss_resume_count := ss_resume_count st + 1\<rparr>)"
    by (rule suspension_state_of_json_update [OF v(2)]) auto
  with m' show ?thesis by (simp add: read_suspension_def)
qed

lemma stamp_suspended_is_object [simp]: "is_object (stamp_suspended X now s m)"
  by (simp add: stamp_suspended_def)

subsection \<open>Properties\<close>

text \<open>
  A suspension marker round-trips: for a ledger with a finite cost, reading the marker back gives
  the resume pointer, the reason, the origin and the exact spend the run had, marks the run
  suspended, clears the request that produced it, and rebuilding the ledger from the snapshot
  restores the spend totals the run stopped with.
\<close>

theorem suspension_round_trip:
  assumes "f64_is_finite (bl_total_cost_usd (sp_ledger s))"
  shows "\<exists>st snap. read_suspension (stamp_suspended X now s m) = Some st \<and>
    ss_suspended st \<and> \<not> ss_requested st \<and>
    ss_resume_at st = Some (sp_resume_at s) \<and> ss_reason st = Some (sp_reason s) \<and>
    ss_origin_identity st = sp_origin_identity s \<and>
    ss_resume_count st = existing_resume_count m \<and>
    ss_ledger st = Some snap \<and>
    from_parts (ls_total_tokens snap) (ls_total_cost_usd snap) =
      (sp_ledger s)\<lparr>bl_has_unknown_cost_node := False\<rparr>"
  using assms by (simp add: read_stamp_suspended from_parts_def)

definition sample_suspension :: suspension where
  "sample_suspension = \<lparr>sp_resume_at = ''Review'', sp_reason = OperatorPause,
     sp_origin_identity = None, sp_ledger = from_parts 42 (Fin False 7)\<rparr>"

theorem suspension_round_trip_witness:
  "\<exists>st. read_suspension (stamp_suspended sample_ext 0 sample_suspension (JObj [])) = Some st \<and>
     ss_suspended st \<and> ss_resume_at st = Some ''Review''"
  using suspension_round_trip [of sample_suspension sample_ext 0 "JObj []"]
  by (auto simp: sample_suspension_def from_parts_def f64_is_finite_def)

fun suspend_resume_cycles :: "ext \<Rightarrow> (timestamp \<times> suspension) list \<Rightarrow> json \<Rightarrow> json option" where
  "suspend_resume_cycles X [] m = Some m"
| "suspend_resume_cycles X ((t, s) # rest) m =
     Option.bind (stamp_resumed (stamp_suspended X t s m)) (suspend_resume_cycles X rest)"

text \<open>
  \<open>resume_count\<close> counts the resumes: a run suspended and resumed any number of times, each time
  with a finite cost, never panics on its own markers, ends not suspended, and its counter has grown
  by exactly the number of cycles.
\<close>

theorem resume_count_counts_resumes:
  assumes "cycles \<noteq> []" and "\<forall>(t, s)\<in>set cycles. f64_is_finite (bl_total_cost_usd (sp_ledger s))"
  shows "\<exists>m'. suspend_resume_cycles X cycles m = Some m' \<and> \<not> is_suspended m' \<and>
    existing_resume_count m' = existing_resume_count m + of_nat (length cycles)"
  using assms
proof (induction cycles arbitrary: m rule: list_nonempty_induct)
  case (single x)
  obtain t s where x: "x = (t, s)" by fastforce
  from single show ?case
    using read_stamp_resumed [OF read_stamp_suspended [of s X t m]]
    by (auto simp: x is_suspended_def existing_resume_count_def)
next
  case (cons x xs)
  obtain t s where x: "x = (t, s)" by fastforce
  obtain m1 where m1: "stamp_resumed (stamp_suspended X t s m) = Some m1"
    "existing_resume_count m1 = existing_resume_count m + 1"
    using cons.prems read_stamp_resumed [OF read_stamp_suspended [of s X t m]]
    by (auto simp: x existing_resume_count_def)
  with cons.IH [of m1] cons.prems show ?case by (auto simp: x)
qed

theorem resume_count_witness:
  "\<exists>m'. suspend_resume_cycles sample_ext [(0, sample_suspension), (1, sample_suspension)] (JObj []) = Some m' \<and>
     \<not> is_suspended m' \<and> existing_resume_count m' = existing_resume_count (JObj []) + of_nat 2"
  using resume_count_counts_resumes
    [of "[(0, sample_suspension), (1, sample_suspension)]" sample_ext "JObj []"]
  by (simp add: sample_suspension_def from_parts_def f64_is_finite_def)

text \<open>
  The exact condition under which the suspension writers panic. They tolerate metadata that is
  not an object, but not a stored marker that is neither an object nor \<open>null\<close>: on such a marker both
  resuming a run and requesting a suspension panic, and on every other metadata neither does.
\<close>

theorem suspension_writers_panic_iff:
  "(stamp_resumed m = None) = (\<exists>v. json_get m ''suspension'' = Some v \<and> \<not> is_object v \<and> v \<noteq> JNull) \<and>
   (request_suspension m = None) = (\<exists>v. json_get m ''suspension'' = Some v \<and> \<not> is_object v \<and> v \<noteq> JNull)"
proof (cases "json_get m ''suspension''")
  case None
  then show ?thesis
    by (simp add: stamp_resumed_def request_suspension_def request_with_pending_def Let_def)
next
  case (Some v)
  then show ?thesis
    by (cases v) (simp_all add: stamp_resumed_def request_suspension_def request_with_pending_def Let_def)
qed

text \<open>
  A node's request reaches the run loop: after \<open>request_suspension_with_reason\<close> returns, the
  suspension is seen as requested with exactly the reason given, and the plain
  \<open>request_suspension\<close> resets any earlier reason to the default.
\<close>

theorem request_reaches_the_walk:
  assumes "request_suspension_with_reason r m = Some m'" and "request_suspension m' = Some m''"
  shows "suspension_requested m' \<and> requested_reason m' = r \<and>
    suspension_requested m'' \<and> requested_reason m'' = SuspendNode"
proof -
  have "suspension_requested n' \<and> json_get n' ''suspension'' \<noteq> None \<and>
      Option.bind (json_get n' ''suspension'') (\<lambda>v. json_get v ''pending_reason'') = Some p"
    if "request_with_pending p n = Some n'" for p n n'
    using that
    by (auto simp: request_with_pending_def Let_def suspension_requested_def flag_at_def
        fresh_request_def bind_eq_Some_conv json_get_index_set split: option.splits)
  with assms show ?thesis
    unfolding request_suspension_with_reason_def request_suspension_def requested_reason_def
    by (fastforce simp: bind_eq_Some_conv split: option.splits)
qed

theorem request_reaches_the_walk_witness:
  "\<exists>m' m''. request_suspension_with_reason HeavyWorkQueue (JObj []) = Some m' \<and>
     request_suspension m' = Some m'' \<and> requested_reason m' = HeavyWorkQueue \<and>
     requested_reason m'' = SuspendNode"
proof -
  obtain m' m'' where m: "request_suspension_with_reason HeavyWorkQueue (JObj []) = Some m'"
    "request_suspension m' = Some m''"
    by (simp add: request_suspension_with_reason_def request_suspension_def request_with_pending_def
        Let_def stamp_key_def fresh_request_def)
  with request_reaches_the_walk [OF m] show ?thesis by blast
qed

text \<open>
  Stamping a finished run's completion with its derived status is stable: it marks the run
  complete, and deriving the status again from the stamped snapshot gives the same status.
\<close>

theorem completion_stable:
  "is_complete (stamp_completion X now (derive_terminal_status c) (metadata c)) \<and>
   derive_terminal_status
     (c\<lparr>metadata := stamp_completion X now (derive_terminal_status c) (metadata c)\<rparr>) =
     derive_terminal_status c"
  by (simp add: is_complete_def stamp_completion_def flag_at_stamp_same
      derive_terminal_status_def Let_def)

end
