(* ===== verification/Ledgers.thy ===== *)
theory Ledgers
  imports Markers
begin

text \<open>
  The two append-only row ledgers a run keeps in its metadata: the session ledger (\<open>sessions.rs\<close>, one
  row per billed model call, with its roll-up \<open>ledger_totals\<close>) and the dispatch ledger
  (\<open>invocations.rs\<close>, one numbered row per node dispatch, with the retention cap on its payload).
  Both are JSON arrays that tolerate any other shape. Their contract, the locale \<open>row_ledger\<close>,
  says what reading gives back after an append and that an append touches no other metadata key.
\<close>

subsection \<open>Rows under a metadata key\<close>

definition append_at :: "string \<Rightarrow> json \<Rightarrow> json \<Rightarrow> json" where
  "append_at k row m =
     (let m0 = ensure_object m
      in case Option.bind (json_get m0 k) as_array of
           Some entries \<Rightarrow> stamp_key k (JArr (entries @ [row])) m0
         | None \<Rightarrow> stamp_key k (JArr [row]) m0)"

definition rows_at :: "string \<Rightarrow> (json \<Rightarrow> 'r option) \<Rightarrow> json \<Rightarrow> 'r list" where
  "rows_at k d m =
     (case Option.bind (json_get m k) as_array of
        Some entries \<Rightarrow> List.map_filter d entries | None \<Rightarrow> [])"

subsection \<open>Sessions\<close>

definition append_session :: "claude_session \<Rightarrow> json \<Rightarrow> json" where
  "append_session s m = append_at ''claude_sessions'' (claude_session_to_json s) m"

definition seed_sessions :: "claude_session list \<Rightarrow> json \<Rightarrow> json" where
  "seed_sessions ss m = stamp_key ''claude_sessions'' (JArr (map claude_session_to_json ss)) m"

definition read_sessions :: "json \<Rightarrow> claude_session list" where
  "read_sessions m = rows_at ''claude_sessions'' claude_session_of_json m"

definition read_session_ids :: "json \<Rightarrow> string list" where
  "read_session_ids m = List.map_filter cs_session_id (read_sessions m)"

record ledger_totals =
  lt_invocations :: u64
  lt_cost_usd :: f64
  lt_input_tokens :: u64
  lt_output_tokens :: u64
  lt_cache_read_input_tokens :: u64
  lt_cache_creation_input_tokens :: u64
  lt_unknown_cost_invocations :: u64

definition ledger_totals_default :: ledger_totals where
  "ledger_totals_default = \<lparr>lt_invocations = 0, lt_cost_usd = f64_zero, lt_input_tokens = 0,
     lt_output_tokens = 0, lt_cache_read_input_tokens = 0, lt_cache_creation_input_tokens = 0,
     lt_unknown_cost_invocations = 0\<rparr>"

definition add_session :: "ledger_totals \<Rightarrow> claude_session \<Rightarrow> ledger_totals" where
  "add_session acc s =
     \<lparr>lt_invocations = lt_invocations acc + 1,
      lt_cost_usd = f64_add (lt_cost_usd acc) (cs_cost_usd s),
      lt_input_tokens = lt_input_tokens acc + cs_input_tokens s,
      lt_output_tokens = lt_output_tokens acc + cs_output_tokens s,
      lt_cache_read_input_tokens = lt_cache_read_input_tokens acc + cs_cache_read_input_tokens s,
      lt_cache_creation_input_tokens =
        lt_cache_creation_input_tokens acc + cs_cache_creation_input_tokens s,
      lt_unknown_cost_invocations =
        (if \<not> cs_cost_known s then lt_unknown_cost_invocations acc + 1
         else lt_unknown_cost_invocations acc)\<rparr>"

definition totals_of_metadata :: "json \<Rightarrow> ledger_totals" where
  "totals_of_metadata m = foldl add_session ledger_totals_default (read_sessions m)"

subsection \<open>Dispatches\<close>

definition resolved_policy_identity :: string where
  "resolved_policy_identity = ''ResolvedPolicy''"

definition default_payload_cap_bytes :: u64 where
  "default_payload_cap_bytes = 65536"

definition payload_cap_from_resolved_policy :: "task_context \<Rightarrow> u64" where
  "payload_cap_from_resolved_policy ctx =
     (case do {
        v \<leftarrow> map_of (nodes ctx) resolved_policy_identity;
        obj \<leftarrow> as_object v;
        w \<leftarrow> map_of obj ''node_invocation_payload_cap_bytes'';
        as_u64 w
      } of Some n \<Rightarrow> n | None \<Rightarrow> default_payload_cap_bytes)"

definition truncate_payload :: "ext \<Rightarrow> json \<Rightarrow> u64 \<Rightarrow> json \<times> bool" where
  "truncate_payload X v cap =
     (case map_option (\<lambda>n. of_nat n :: u64) (json_bytes X v) of
        Some len \<Rightarrow>
          if len \<le> cap then (v, False)
          else (JObj [(''__truncated__'', JBool True), (''cap_bytes'', json_u64 cap)], True)
      | None \<Rightarrow> (JObj [(''__truncated__'', JBool True), (''cap_bytes'', json_u64 cap)], True))"

definition append_invocation :: "ext \<Rightarrow> node_invocation \<Rightarrow> json \<Rightarrow> json" where
  "append_invocation X r m = append_at ''node_invocations'' (node_invocation_to_json X r) m"

definition read_invocations :: "ext \<Rightarrow> json \<Rightarrow> node_invocation list" where
  "read_invocations X m = rows_at ''node_invocations'' (node_invocation_of_json X) m"

definition next_seq :: "ext \<Rightarrow> json \<Rightarrow> u64" where
  "next_seq X m = of_nat (length (read_invocations X m))"

subsection \<open>The contract of a row ledger\<close>

lemma append_at_is_object [simp]: "is_object (append_at k row m)"
  by (auto simp: append_at_def Let_def split: option.splits)

lemma json_get_append_at_other [simp]: "j \<noteq> k \<Longrightarrow> json_get (append_at k row m) j = json_get m j"
  by (auto simp: append_at_def Let_def split: option.splits)

lemma rows_at_append_at:
  "rows_at k d (append_at k row m) = rows_at k d m @ (case d row of None \<Rightarrow> [] | Some r \<Rightarrow> [r])"
  by (auto simp: append_at_def rows_at_def Let_def List.map_filter_simps split: option.splits)

lemma rows_at_cong: "json_get m k = json_get m' k \<Longrightarrow> rows_at k d m = rows_at k d m'"
  by (simp add: rows_at_def)

lemma rows_at_stamp_other [simp]: "j \<noteq> k \<Longrightarrow> rows_at k d (stamp_key j w m) = rows_at k d m"
  by (simp add: rows_at_def)

lemma rows_at_ensure_object [simp]: "rows_at k d (ensure_object m) = rows_at k d m"
  by (simp add: rows_at_def)

locale row_ledger =
  fixes key :: string
    and append_row :: "'r \<Rightarrow> json \<Rightarrow> json"
    and read_rows :: "json \<Rightarrow> 'r list"
    and row_back :: "'r \<Rightarrow> 'r option"
  assumes read_append:
      "read_rows (append_row r m) = read_rows m @ (case row_back r of None \<Rightarrow> [] | Some r' \<Rightarrow> [r'])"
    and append_other: "k \<noteq> key \<Longrightarrow> json_get (append_row r m) k = json_get m k"
    and read_cong: "json_get m key = json_get m' key \<Longrightarrow> read_rows m = read_rows m'"
begin

lemma read_fold_append: "read_rows (fold append_row rs m) = read_rows m @ List.map_filter row_back rs"
  by (induction rs arbitrary: m)
    (auto simp: read_append List.map_filter_simps split: option.splits)

lemma read_append_prefix: "\<exists>new. read_rows (append_row r m) = read_rows m @ new"
  by (simp add: read_append)

lemma read_fold_append_length:
  "(\<And>r. r \<in> set rs \<Longrightarrow> row_back r \<noteq> None) \<Longrightarrow>
     length (read_rows (fold append_row rs m)) = length (read_rows m) + length rs"
  by (simp add: read_fold_append length_map_filter_all)

lemma fold_append_other: "k \<noteq> key \<Longrightarrow> json_get (fold append_row rs m) k = json_get m k"
  by (induction rs arbitrary: m) (simp_all add: append_other)

lemma read_stamp_other: "k \<noteq> key \<Longrightarrow> read_rows (stamp_key k w m) = read_rows m"
  by (rule read_cong) simp

end

interpretation session_rows: row_ledger "''claude_sessions''" append_session read_sessions
  "\<lambda>s. claude_session_of_json (claude_session_to_json s)"
  by unfold_locales
    (auto simp: append_session_def read_sessions_def rows_at_append_at cong: rows_at_cong)

interpretation invocation_rows: row_ledger "''node_invocations''" "append_invocation X"
  "read_invocations X" "\<lambda>r. node_invocation_of_json X (node_invocation_to_json X r)" for X
  by unfold_locales
    (auto simp: append_invocation_def read_invocations_def rows_at_append_at cong: rows_at_cong)

lemma session_back: "claude_session_of_json (claude_session_to_json s) =
    (if f64_is_finite (cs_cost_usd s) then Some s else None)"
  by (simp add: claude_session_round_trip claude_session_nonfinite)

lemma map_filter_if: "List.map_filter (\<lambda>x. if P x then Some x else None) xs = filter P xs"
  by (induction xs) (auto simp: List.map_filter_simps)

lemma append_invocation_read:
  assumes "ext_ok X"
  shows "read_invocations X (append_invocation X r m) = read_invocations X m @
    [r\<lparr>ni_payload := (if ni_payload r = Some JNull then None else ni_payload r)\<rparr>]"
  by (simp add: invocation_rows.read_append node_invocation_round_trip [OF assms])

subsection \<open>Properties\<close>

text \<open>
  Rolling the session ledger up counts every call: after appending any calls, the totals are the
  fold of the calls already in the ledger followed by the appended ones, in order and without
  de-duplication. A call whose cost is not a finite number is the one exception: its row cannot be
  read back, so neither its cost nor its tokens reach the totals.
\<close>

theorem session_totals:
  "totals_of_metadata (fold append_session ss m) =
     foldl add_session (totals_of_metadata m) (filter (\<lambda>s. f64_is_finite (cs_cost_usd s)) ss)"
  by (simp add: totals_of_metadata_def session_rows.read_fold_append session_back map_filter_if)

text \<open>
  Resuming replaces the session ledger instead of extending it: seeding is idempotent, leaves
  every other metadata key alone, and calls appended afterwards follow the seeded ones.
\<close>

theorem seed_sessions_replaces:
  assumes "\<forall>s\<in>set ss. f64_is_finite (cs_cost_usd s)"
  shows "read_sessions (fold append_session ss' (seed_sessions ss (seed_sessions ss m))) =
      ss @ filter (\<lambda>s. f64_is_finite (cs_cost_usd s)) ss' \<and>
    (\<forall>k. k \<noteq> ''claude_sessions'' \<longrightarrow> json_get (seed_sessions ss m) k = json_get m k)"
proof -
  have "read_sessions (seed_sessions ss m') = ss" for m'
    using assms
    by (simp add: read_sessions_def seed_sessions_def rows_at_def map_filter_map_Some session_back)
  then show ?thesis
    by (simp add: session_rows.read_fold_append session_back map_filter_if seed_sessions_def)
qed

definition sample_session :: claude_session where
  "sample_session = \<lparr>cs_node = ''build'', cs_session_id = None, cs_ok = True, cs_cost_usd = f64_zero,
     cs_input_tokens = 3, cs_output_tokens = 4, cs_cache_read_input_tokens = 0,
     cs_cache_creation_input_tokens = 0, cs_model = ''m'', cs_started_at = None,
     cs_cost_known = True\<rparr>"

theorem seed_sessions_replaces_witness:
  "read_sessions (fold append_session [sample_session, sample_session]
     (seed_sessions [sample_session] (seed_sessions [sample_session] JNull))) =
     [sample_session, sample_session, sample_session]"
  using seed_sessions_replaces [of "[sample_session]" "[sample_session, sample_session]" JNull]
  by (simp add: sample_session_def f64_is_finite_def)

text \<open>
  A retained payload is never silently shortened: either it is the node's output itself, whose
  serialised size fits the cap, or it is the explicit truncation marker, flagged as truncated, and
  then the output did not fit.
\<close>

theorem payload_retention:
  assumes "truncate_payload X v cap = (p, t)"
    and "json_bytes X v = Some n" and "n < 2 ^ 64"
  shows "if n \<le> unat cap then p = v \<and> \<not> t
    else t \<and> json_get p ''__truncated__'' = Some (JBool True) \<and>
      json_get p ''cap_bytes'' = Some (json_u64 cap)"
proof -
  have "(of_nat n :: u64) \<le> cap \<longleftrightarrow> n \<le> unat cap"
    using assms(3) by (simp add: word_le_nat_alt unat_of_nat)
  with assms show ?thesis
    by (auto simp: truncate_payload_def split: if_splits)
qed

theorem payload_retention_witness:
  "fst (truncate_payload sample_ext (JBool True) 10) = JBool True \<and>
   snd (truncate_payload sample_ext (JBool True) 9)"
  using payload_retention [of sample_ext "JBool True" 10 "fst (truncate_payload sample_ext (JBool True) 10)"
      "snd (truncate_payload sample_ext (JBool True) 10)" 10]
    payload_retention [of sample_ext "JBool True" 9 "fst (truncate_payload sample_ext (JBool True) 9)"
      "snd (truncate_payload sample_ext (JBool True) 9)" 10]
  by (simp add: sample_ext_def)

end
