(* ===== verification/Graph.thy ===== *)
theory Graph
  imports Ledgers
begin

text \<open>
  The declared workflow graph and its executable nodes: \<open>schema.rs\<close> (\<open>NodeConfig\<close>,
  \<open>WorkflowSchema\<close>), the \<open>Node\<close> trait and \<open>NodeRegistry\<close> of \<open>node.rs\<close>, and \<open>routing.rs\<close>.

  A node is a record of what the trait offers: its name, its \<open>process\<close>, the \<open>route\<close> function when it
  is a router, and the lane identity it carries. \<open>process\<close> may do anything to the context it owns; its
  \<open>nat\<close> argument numbers the calls, so that a node may answer differently each time it is dispatched.
\<close>

record node_config =
  nc_identity :: string
  connections :: "string list"

definition node_config_new :: "string \<Rightarrow> string list \<Rightarrow> node_config" where
  "node_config_new i cs = \<lparr>nc_identity = i, connections = cs\<rparr>"

definition node_config_next :: "node_config \<Rightarrow> string option" where
  "node_config_next c = (case connections c of [] \<Rightarrow> None | x # _ \<Rightarrow> Some x)"

record workflow_schema =
  workflow_type :: string
  start_node :: string
  schema_nodes :: "node_config hmap"

definition workflow_schema_new :: "string \<Rightarrow> string \<Rightarrow> node_config hmap \<Rightarrow> workflow_schema" where
  "workflow_schema_new t s ns = \<lparr>workflow_type = t, start_node = s, schema_nodes = ns\<rparr>"

definition schema_start :: "workflow_schema \<Rightarrow> node_config option" where
  "schema_start S = map_of (schema_nodes S) (start_node S)"

definition next_after :: "workflow_schema \<Rightarrow> string \<Rightarrow> string option" where
  "next_after S i = Option.bind (map_of (schema_nodes S) i) node_config_next"

subsection \<open>Nodes, routers and the registry\<close>

record node =
  node_name :: string
  process :: "nat \<Rightarrow> task_context \<Rightarrow> node_error + task_context"
  as_router :: "(task_context \<Rightarrow> string option) option"
  agent :: "string option"

definition dispatch_route :: "(task_context \<Rightarrow> string option) \<Rightarrow> task_context \<Rightarrow> string option" where
  "dispatch_route r ctx = r ctx"

type_synonym node_registry = "node hmap"

definition registry_new :: node_registry where
  "registry_new = []"

definition register :: "node \<Rightarrow> node_registry \<Rightarrow> node_registry" where
  "register n R = AList.update (node_name n) n R"

definition registry_get :: "node_registry \<Rightarrow> string \<Rightarrow> node option" where
  "registry_get R i = map_of R i"

definition registry_contains :: "node_registry \<Rightarrow> string \<Rightarrow> bool" where
  "registry_contains R i = (map_of R i \<noteq> None)"

definition registry_len :: "node_registry \<Rightarrow> nat" where
  "registry_len R = length R"

definition registry_is_empty :: "node_registry \<Rightarrow> bool" where
  "registry_is_empty R = (R = [])"

text \<open>
  A registry is only ever built by \<open>register\<close>, so that every node sits under its own name.
\<close>

definition wf_registry :: "node_registry \<Rightarrow> bool" where
  "wf_registry R \<longleftrightarrow> wf_hmap R \<and> list_all (\<lambda>(i, n). node_name n = i) R"

lemma wf_registry_new: "wf_registry registry_new"
  by (simp add: wf_registry_def registry_new_def)

lemma wf_registry_register: "wf_registry R \<Longrightarrow> wf_registry (register n R)"
proof -
  have "list_all (\<lambda>(i, n). node_name n = i) R \<Longrightarrow>
      list_all (\<lambda>(i, n). node_name n = i) (AList.update (node_name n) n R)"
    by (induction R) auto
  then show "wf_registry R \<Longrightarrow> wf_registry (register n R)"
    by (simp add: wf_registry_def register_def)
qed

lemma wf_registry_get: "wf_registry R \<Longrightarrow> registry_get R i = Some n \<Longrightarrow> node_name n = i"
  by (auto simp: wf_registry_def registry_get_def list_all_iff dest: map_of_SomeD)

lemma registry_get_register [simp]:
  "registry_get (register n R) i = (if i = node_name n then Some n else registry_get R i)"
  by (simp add: registry_get_def register_def)

interpretation node_store: keyed_store node_name register registry_get "\<lambda>n. n"
  by unfold_locales simp

lemma next_after_connection:
  "next_after S i = Some j \<Longrightarrow> \<exists>c. map_of (schema_nodes S) i = Some c \<and> j \<in> set (connections c)"
  by (fastforce simp: next_after_def node_config_next_def bind_eq_Some_conv neq_Nil_conv
      split: list.splits)

end
