(* ===== verification/Validator.thy ===== *)
theory Validator
  imports Graph
begin

text \<open>
  The structural validator (\<open>validate.rs\<close>): fan-out arity, reachability and cycle detection over the
  declared connections. The work list of \<open>check_reachability\<close> is a stack (\<open>push\<close> and \<open>pop\<close> at the same
  end), here with its top first; its loop ends because every push marks a new node. The recursion of
  \<open>dfs_visit\<close> is bounded by fuel, and \<open>graph_fuel\<close>, the number of names the schema mentions, is shown to
  be enough, so \<open>validate\<close> always returns.
\<close>

datatype validation_error =
    UnregisteredNode string
  | UnreachableNode string
  | NonRouterFanOut string nat
  | Cycle "string list"

datatype dfs_mark = InProgress | Done

definition is_router :: "node_registry \<Rightarrow> string \<Rightarrow> bool" where
  "is_router R i = (case registry_get R i of Some n \<Rightarrow> as_router n \<noteq> None | None \<Rightarrow> False)"

fun check_fan_out :: "node_registry \<Rightarrow> (string \<times> node_config) list \<Rightarrow> validation_error + unit" where
  "check_fan_out R [] = Inr ()"
| "check_fan_out R ((i, c) # rest) =
     (if length (connections c) > 1 \<and> \<not> is_router R i
      then Inl (NonRouterFanOut i (length (connections c)))
      else check_fan_out R rest)"

subsection \<open>Reachability\<close>

definition declared_connections :: "workflow_schema \<Rightarrow> string \<Rightarrow> string list" where
  "declared_connections S i =
     (case map_of (schema_nodes S) i of Some c \<Rightarrow> connections c | None \<Rightarrow> [])"

fun push_new :: "string list \<Rightarrow> string list \<Rightarrow> string list \<Rightarrow> string list \<times> string list" where
  "push_new [] visited queue = (visited, queue)"
| "push_new (x # xs) visited queue =
     (if x \<in> set visited then push_new xs visited queue
      else push_new xs (x # visited) (x # queue))"

definition all_connections :: "workflow_schema \<Rightarrow> string set" where
  "all_connections S = (\<Union>c\<in>snd ` set (schema_nodes S). set (connections c))"

lemma finite_all_connections [simp]: "finite (all_connections S)"
  by (simp add: all_connections_def)

lemma declared_connections_subset: "set (declared_connections S i) \<subseteq> all_connections S"
proof
  fix x
  assume "x \<in> set (declared_connections S i)"
  then obtain c where "map_of (schema_nodes S) i = Some c" and "x \<in> set (connections c)"
    by (cases "map_of (schema_nodes S) i") (simp_all add: declared_connections_def)
  then show "x \<in> all_connections S"
    by (force simp: all_connections_def dest: map_of_SomeD)
qed

lemma push_new_measure:
  assumes "push_new xs v q = (v', q')" and "set xs \<subseteq> U" and "finite U"
  shows "card (U - set v') + length q' = card (U - set v) + length q"
  using assms
proof (induction xs v q rule: push_new.induct)
  case (2 x xs v q)
  show ?case
  proof (cases "x \<in> set v")
    case False
    then have "x \<in> U - set v" using 2(4) by simp
    moreover have "U - set (x # v) = U - set v - {x}" by auto
    ultimately have "card (U - set v) = Suc (card (U - set (x # v)))"
      using 2(5) card.remove [of "U - set v" x] by simp
    moreover have "card (U - set v') + length q' = card (U - set (x # v)) + length (x # q)"
      using 2(2) [OF False] 2(3-5) False by simp
    ultimately show ?thesis by simp
  next
    case True
    with 2(1) [OF True] 2(3-5) show ?thesis by simp
  qed
qed simp

function reach_loop :: "workflow_schema \<Rightarrow> string list \<Rightarrow> string list \<Rightarrow> string list" where
  "reach_loop S visited [] = visited"
| "reach_loop S visited (i # queue) =
     (case push_new (declared_connections S i) visited queue of (v, q) \<Rightarrow> reach_loop S v q)"
  by pat_completeness auto

termination
proof (relation "measure (\<lambda>(S, v, q). card (all_connections S - set v) + length q)")
  fix S :: workflow_schema and v i q v' q'
  assume "(v', q') = push_new (declared_connections S i) v q"
  then have "card (all_connections S - set v') + length q' = card (all_connections S - set v) + length q"
    by (intro push_new_measure [OF _ declared_connections_subset finite_all_connections]) simp
  then show "((S, v', q'), S, v, i # q)
      \<in> measure (\<lambda>(S, v, q). card (all_connections S - set v) + length q)"
    by simp
qed simp

definition visited_from_start :: "workflow_schema \<Rightarrow> string list" where
  "visited_from_start S = reach_loop S [start_node S] [start_node S]"

definition check_reachability :: "workflow_schema \<Rightarrow> validation_error + unit" where
  "check_reachability S =
     (let visited = visited_from_start S
      in case List.find (\<lambda>i. i \<notin> set visited) (sort (map fst (schema_nodes S))) of
           Some i \<Rightarrow> Inl (UnreachableNode i)
         | None \<Rightarrow> Inr ())"

subsection \<open>Cycles\<close>

type_synonym marks = "dfs_mark hmap"

fun dfs_visit ::
    "nat \<Rightarrow> node_registry \<Rightarrow> workflow_schema \<Rightarrow> string \<Rightarrow> marks \<Rightarrow> string list \<Rightarrow>
     (validation_error + marks) option"
  and dfs_edges ::
    "nat \<Rightarrow> node_registry \<Rightarrow> workflow_schema \<Rightarrow> string list \<Rightarrow> marks \<Rightarrow> string list \<Rightarrow>
     (validation_error + marks) option" where
  "dfs_visit 0 R S i marks stack = None"
| "dfs_visit (Suc fuel) R S i marks stack =
     (let marks1 = AList.update i InProgress marks;
          stack1 = stack @ [i]
      in case (if is_router R i then Some (Inr marks1)
               else dfs_edges fuel R S (declared_connections S i) marks1 stack1) of
           None \<Rightarrow> None
         | Some (Inl e) \<Rightarrow> Some (Inl e)
         | Some (Inr marks2) \<Rightarrow> Some (Inr (AList.update i Done marks2)))"
| "dfs_edges fuel R S [] marks stack = Some (Inr marks)"
| "dfs_edges fuel R S (next # rest) marks stack =
     (case map_of marks next of
        Some InProgress \<Rightarrow> Some (Inl (Cycle (stack @ [next])))
      | Some Done \<Rightarrow> dfs_edges fuel R S rest marks stack
      | None \<Rightarrow>
          (case dfs_visit fuel R S next marks stack of
             None \<Rightarrow> None
           | Some (Inl e) \<Rightarrow> Some (Inl e)
           | Some (Inr marks') \<Rightarrow> dfs_edges fuel R S rest marks' stack))"

fun cycles_loop ::
  "nat \<Rightarrow> node_registry \<Rightarrow> workflow_schema \<Rightarrow> string list \<Rightarrow> marks \<Rightarrow>
   (validation_error + marks) option" where
  "cycles_loop fuel R S [] marks = Some (Inr marks)"
| "cycles_loop fuel R S (start # rest) marks =
     (if map_of marks start = None
      then (case dfs_visit fuel R S start marks [] of
              None \<Rightarrow> None
            | Some (Inl e) \<Rightarrow> Some (Inl e)
            | Some (Inr marks') \<Rightarrow> cycles_loop fuel R S rest marks')
      else cycles_loop fuel R S rest marks)"

definition graph_names :: "workflow_schema \<Rightarrow> string list" where
  "graph_names S = map fst (schema_nodes S) @ concat (map (connections \<circ> snd) (schema_nodes S))"

definition graph_fuel :: "workflow_schema \<Rightarrow> nat" where
  "graph_fuel S = length (graph_names S)"

definition check_cycles :: "node_registry \<Rightarrow> workflow_schema \<Rightarrow> (validation_error + unit) option" where
  "check_cycles R S =
     (case cycles_loop (graph_fuel S) R S (sort (map fst (schema_nodes S))) [] of
        None \<Rightarrow> None
      | Some (Inl e) \<Rightarrow> Some (Inl e)
      | Some (Inr _) \<Rightarrow> Some (Inr ()))"

definition validate :: "node_registry \<Rightarrow> workflow_schema \<Rightarrow> (validation_error + unit) option" where
  "validate R S =
     (case check_fan_out R (schema_nodes S) of
        Inl e \<Rightarrow> Some (Inl e)
      | Inr _ \<Rightarrow>
          (case check_reachability S of
             Inl e \<Rightarrow> Some (Inl e)
           | Inr _ \<Rightarrow> check_cycles R S))"


subsection \<open>The declared graph as relations\<close>

definition declared_edges :: "workflow_schema \<Rightarrow> (string \<times> string) set" where
  "declared_edges S = {(i, j). j \<in> set (declared_connections S i)}"

text \<open>The edges the cycle check walks: those not declared out of a router.\<close>

definition fixed_edges :: "node_registry \<Rightarrow> workflow_schema \<Rightarrow> (string \<times> string) set" where
  "fixed_edges R S = {(i, j). \<not> is_router R i \<and> j \<in> set (declared_connections S i)}"

subsection \<open>Fan-out\<close>

lemma check_fan_out_Inr:
  "check_fan_out R ns = Inr () \<longleftrightarrow>
     (\<forall>(i, c)\<in>set ns. length (connections c) \<le> 1 \<or> is_router R i)"
  by (induction R ns rule: check_fan_out.induct) auto

lemma check_fan_out_Inl:
  "check_fan_out R ns = Inl e \<Longrightarrow> \<exists>i c. (i, c) \<in> set ns \<and> 1 < length (connections c) \<and>
     \<not> is_router R i \<and> e = NonRouterFanOut i (length (connections c))"
  by (induction R ns rule: check_fan_out.induct) (auto split: if_splits)

subsection \<open>Reachability is exact\<close>

lemma push_new_sets:
  "push_new xs v q = (v', q') \<Longrightarrow>
     set v' = set v \<union> set xs \<and> set q' = set q \<union> (set xs - set v)"
  by (induction xs v q rule: push_new.induct) (auto split: if_splits)

definition reach_inv :: "workflow_schema \<Rightarrow> string list \<Rightarrow> string list \<Rightarrow> bool" where
  "reach_inv S v q \<longleftrightarrow> start_node S \<in> set v \<and> set q \<subseteq> set v \<and>
     set v \<subseteq> (declared_edges S)\<^sup>* `` {start_node S} \<and>
     (\<forall>x\<in>set v - set q. set (declared_connections S x) \<subseteq> set v)"

lemma reach_inv_step:
  assumes "reach_inv S v (i # q)" and "push_new (declared_connections S i) v q = (v', q')"
  shows "reach_inv S v' q'"
proof -
  note sets = push_new_sets [OF assms(2)]
  have "(start_node S, i) \<in> (declared_edges S)\<^sup>*" using assms(1) by (auto simp: reach_inv_def)
  then have "set (declared_connections S i) \<subseteq> (declared_edges S)\<^sup>* `` {start_node S}"
    by (auto simp: declared_edges_def intro: rtrancl_into_rtrancl)
  with sets assms(1) show ?thesis
    unfolding reach_inv_def by auto
qed

lemma reach_loop_inv: "reach_inv S v q \<Longrightarrow> reach_inv S (reach_loop S v q) []"
  by (induction S v q rule: reach_loop.induct) (auto split: prod.splits dest: reach_inv_step)

lemma visited_inv: "reach_inv S (visited_from_start S) []"
  unfolding visited_from_start_def by (rule reach_loop_inv) (simp add: reach_inv_def)

lemma visited_exact: "set (visited_from_start S) = (declared_edges S)\<^sup>* `` {start_node S}"
proof
  show "set (visited_from_start S) \<subseteq> (declared_edges S)\<^sup>* `` {start_node S}"
    using visited_inv by (simp add: reach_inv_def)
  have "x \<in> set (visited_from_start S)" if "(start_node S, x) \<in> (declared_edges S)\<^sup>*" for x
    using that
  proof induction
    case base
    then show ?case using visited_inv by (simp add: reach_inv_def)
  next
    case (step y z)
    then show ?case using visited_inv [of S] by (auto simp: reach_inv_def declared_edges_def)
  qed
  then show "(declared_edges S)\<^sup>* `` {start_node S} \<subseteq> set (visited_from_start S)" by blast
qed

lemma check_reachability_Inr:
  "check_reachability S = Inr () \<longleftrightarrow>
     hkeys (schema_nodes S) \<subseteq> (declared_edges S)\<^sup>* `` {start_node S}"
proof -
  have "check_reachability S = Inr () \<longleftrightarrow>
      List.find (\<lambda>i. i \<notin> set (visited_from_start S)) (sort (map fst (schema_nodes S))) = None"
    by (auto simp: check_reachability_def Let_def split: option.splits)
  then show ?thesis by (auto simp: find_None_iff visited_exact)
qed

lemma check_reachability_Inl:
  assumes "check_reachability S = Inl e"
  shows "\<exists>i \<in> hkeys (schema_nodes S). e = UnreachableNode i \<and>
    (start_node S, i) \<notin> (declared_edges S)\<^sup>*"
proof -
  obtain i where e: "e = UnreachableNode i"
    and "List.find (\<lambda>i. i \<notin> set (visited_from_start S)) (sort (map fst (schema_nodes S))) = Some i"
    using assms by (auto simp: check_reachability_def Let_def split: option.splits)
  then have "i \<in> set (sort (map fst (schema_nodes S)))" and "i \<notin> set (visited_from_start S)"
    unfolding find_Some_iff by (metis nth_mem, metis)
  with e show ?thesis by (simp add: visited_exact)
qed


subsection \<open>The cycle check is exact\<close>

abbreviation done_nodes :: "marks \<Rightarrow> string set" where
  "done_nodes marks \<equiv> {x. map_of marks x = Some Done}"

text \<open>
  Between two steps of the search, the nodes in progress are those of the stack, and no edge leaves
  the finished nodes, among which there is no cycle.
\<close>

definition dfs_inv :: "node_registry \<Rightarrow> workflow_schema \<Rightarrow> marks \<Rightarrow> string list \<Rightarrow> bool" where
  "dfs_inv R S marks stack \<longleftrightarrow>
     {x. map_of marks x = Some InProgress} = set stack \<and>
     fixed_edges R S `` done_nodes marks \<subseteq> done_nodes marks \<and>
     (\<forall>x\<in>done_nodes marks. (x, x) \<notin> (fixed_edges R S)\<^sup>+)"

lemma closed_trancl: "(x, y) \<in> r\<^sup>+ \<Longrightarrow> r `` A \<subseteq> A \<Longrightarrow> x \<in> A \<Longrightarrow> y \<in> A"
  by (induction rule: trancl_induct) auto

lemma dfs_inv_fresh: "dfs_inv R S marks stack \<Longrightarrow> map_of marks i = None \<Longrightarrow> i \<notin> set stack"
  unfolding dfs_inv_def by (metis (mono_tags) mem_Collect_eq option.distinct(1))

lemma dfs_inv_enter:
  assumes "dfs_inv R S marks stack" and "map_of marks i = None"
  shows "dfs_inv R S (AList.update i InProgress marks) (stack @ [i])"
proof -
  have "done_nodes (AList.update i InProgress marks) = done_nodes marks"
    using assms(2) by (auto split: if_splits)
  with assms show ?thesis by (auto simp: dfs_inv_def)
qed

lemma dfs_inv_leave:
  assumes inv: "dfs_inv R S marks (stack @ [i])" and i: "i \<notin> set stack"
    and succ: "fixed_edges R S `` {i} \<subseteq> done_nodes marks"
  shows "dfs_inv R S (AList.update i Done marks) stack"
proof -
  have prog: "map_of marks i = Some InProgress" using inv by (auto simp: dfs_inv_def)
  have d: "done_nodes (AList.update i Done marks) = insert i (done_nodes marks)" by auto
  have "(i, i) \<notin> (fixed_edges R S)\<^sup>+"
  proof
    assume "(i, i) \<in> (fixed_edges R S)\<^sup>+"
    then obtain y where "(i, y) \<in> fixed_edges R S" and "(y, i) \<in> (fixed_edges R S)\<^sup>*"
      by (meson tranclD)
    moreover from this succ have "y \<in> done_nodes marks" by blast
    ultimately have "i \<in> done_nodes marks"
      using inv closed_trancl [of y i "fixed_edges R S" "done_nodes marks"]
      unfolding dfs_inv_def by (metis rtranclD)
    with prog show False by simp
  qed
  with inv succ d i show ?thesis unfolding dfs_inv_def by auto
qed

lemma dfs_Inr:
  shows "dfs_visit fuel R S i marks stack = Some (Inr marks') \<Longrightarrow> dfs_inv R S marks stack \<Longrightarrow>
      map_of marks i = None \<Longrightarrow>
      dfs_inv R S marks' stack \<and> insert i (done_nodes marks) \<subseteq> done_nodes marks'"
    and "dfs_edges fuel R S ns marks stack = Some (Inr marks') \<Longrightarrow> dfs_inv R S marks stack \<Longrightarrow>
      dfs_inv R S marks' stack \<and> set ns \<union> done_nodes marks \<subseteq> done_nodes marks'"
proof (induction fuel R S i marks stack and fuel R S ns marks stack
    arbitrary: marks' and marks' rule: dfs_visit_dfs_edges.induct)
  case (2 fuel R S i marks stack)
  let ?m1 = "AList.update i InProgress marks"
  have inv1: "dfs_inv R S ?m1 (stack @ [i])" using 2(3,4) by (rule dfs_inv_enter)
  have i: "i \<notin> set stack" using 2(3,4) by (rule dfs_inv_fresh)
  obtain m2 where m2: "(if is_router R i then Some (Inr ?m1)
        else dfs_edges fuel R S (declared_connections S i) ?m1 (stack @ [i])) = Some (Inr m2)"
    and m': "marks' = AList.update i Done m2"
    using 2(2) by (auto simp: Let_def split: option.splits sum.splits if_splits)
  have step: "dfs_inv R S m2 (stack @ [i]) \<and> fixed_edges R S `` {i} \<subseteq> done_nodes m2 \<and>
      done_nodes ?m1 \<subseteq> done_nodes m2"
  proof (cases "is_router R i")
    case True
    with m2 inv1 show ?thesis by (auto simp: fixed_edges_def)
  next
    case False
    with m2 2(1) [OF refl refl False _ inv1] show ?thesis by (auto simp: fixed_edges_def)
  qed
  moreover have "done_nodes ?m1 = done_nodes marks" using 2(4) by (auto split: if_splits)
  ultimately show ?case using dfs_inv_leave [of R S m2 stack i] i m' by auto
next
  case (4 fuel R S nxt rest marks stack)
  show ?case
  proof (cases "map_of marks nxt")
    case None
    then obtain m1 where v: "dfs_visit fuel R S nxt marks stack = Some (Inr m1)"
      and e: "dfs_edges fuel R S rest m1 stack = Some (Inr marks')"
      using 4(4) by (auto split: option.splits sum.splits)
    have "dfs_inv R S m1 stack \<and> insert nxt (done_nodes marks) \<subseteq> done_nodes m1"
      using 4(1) [OF None v 4(5) None] .
    with 4(2) [OF None v refl e] show ?thesis by auto
  next
    case (Some mk)
    show ?thesis
    proof (cases mk)
      case Done
      with Some 4(3) [of Done marks'] 4(4,5) show ?thesis by auto
    qed (use Some 4(4) in simp)
  qed
qed auto


definition cycle_path :: "node_registry \<Rightarrow> workflow_schema \<Rightarrow> string list \<Rightarrow> bool" where
  "cycle_path R S path \<longleftrightarrow> successively (\<lambda>a b. (a, b) \<in> fixed_edges R S) path \<and>
     (\<exists>p x q. path = p @ x # q @ [x])"

lemma cycle_path_closes:
  assumes "successively (\<lambda>a b. (a, b) \<in> fixed_edges R S) stack" and "x \<in> set stack"
    and "(last stack, x) \<in> fixed_edges R S"
  shows "cycle_path R S (stack @ [x])"
proof -
  from assms(2) obtain p q where "stack = p @ x # q" by (meson split_list)
  then have path: "stack @ [x] = p @ x # q @ [x]" by simp
  have "successively (\<lambda>a b. (a, b) \<in> fixed_edges R S) (stack @ [x])"
    using assms by (simp add: successively_append_iff)
  with path show ?thesis by (auto simp: cycle_path_def)
qed

lemma cycle_path_trancl: "cycle_path R S path \<Longrightarrow> \<exists>x. (x, x) \<in> (fixed_edges R S)\<^sup>+"
proof -
  have "successively (\<lambda>a b. (a, b) \<in> r) (x # q @ [y]) \<Longrightarrow> (x, y) \<in> r\<^sup>+" for r and x y :: string and q
    by (induction q arbitrary: x) (auto intro: trancl_into_trancl2)
  then show "cycle_path R S path \<Longrightarrow> \<exists>x. (x, x) \<in> (fixed_edges R S)\<^sup>+"
    unfolding cycle_path_def by (metis list.distinct(1) successively_append_iff)
qed

lemma dfs_Inl:
  shows "dfs_visit fuel R S i marks stack = Some (Inl e) \<Longrightarrow> dfs_inv R S marks stack \<Longrightarrow>
      map_of marks i = None \<Longrightarrow> successively (\<lambda>a b. (a, b) \<in> fixed_edges R S) (stack @ [i]) \<Longrightarrow>
      \<exists>path. e = Cycle path \<and> cycle_path R S path"
    and "dfs_edges fuel R S ns marks stack = Some (Inl e) \<Longrightarrow> dfs_inv R S marks stack \<Longrightarrow>
      stack \<noteq> [] \<Longrightarrow> successively (\<lambda>a b. (a, b) \<in> fixed_edges R S) stack \<Longrightarrow>
      \<forall>n\<in>set ns. (last stack, n) \<in> fixed_edges R S \<Longrightarrow>
      \<exists>path. e = Cycle path \<and> cycle_path R S path"
proof (induction fuel R S i marks stack and fuel R S ns marks stack
    rule: dfs_visit_dfs_edges.induct)
  case (2 fuel R S i marks stack)
  have inv1: "dfs_inv R S (AList.update i InProgress marks) (stack @ [i])"
    using 2(3,4) by (rule dfs_inv_enter)
  have nr: "\<not> is_router R i"
    and "dfs_edges fuel R S (declared_connections S i) (AList.update i InProgress marks)
      (stack @ [i]) = Some (Inl e)"
    using 2(2) by (auto simp: Let_def split: option.splits sum.splits if_splits)
  then show ?case using 2(1) [OF refl refl nr _ inv1] 2(5) by (simp add: fixed_edges_def)
next
  case (4 fuel R S nxt rest marks stack)
  have edge: "(last stack, nxt) \<in> fixed_edges R S" using 4(8) by simp
  show ?case
  proof (cases "map_of marks nxt")
    case None
    note visit = dfs_Inr(1) [of fuel R S nxt marks stack]
    show ?thesis
    proof (cases "dfs_visit fuel R S nxt marks stack")
      case v: (Some r)
      show ?thesis
      proof (cases r)
        case (Inl a)
        with v None 4(1) 4(4-7) edge show ?thesis by (simp add: successively_append_iff)
      next
        case (Inr m1)
        with v None 4(2) 4(4-8) visit show ?thesis by simp
      qed
    qed (use None 4(4) in simp)
  next
    case (Some mk)
    show ?thesis
    proof (cases mk)
      case InProgress
      then have "nxt \<in> set stack" using Some 4(5) by (auto simp: dfs_inv_def)
      with InProgress Some 4(4,7) edge cycle_path_closes show ?thesis by auto
    next
      case Done
      with Some 4(3-8) show ?thesis by simp
    qed
  qed
qed auto


subsection \<open>The fuel is enough\<close>

lemma dfs_inv_dom:
  assumes "dfs_inv R S marks stack" and "dfs_inv R S marks' stack"
    and "done_nodes marks \<subseteq> done_nodes marks'"
  shows "dom (map_of marks) \<subseteq> dom (map_of marks')"
proof
  fix x
  assume "x \<in> dom (map_of marks)"
  then obtain mk where mk: "map_of marks x = Some mk" by blast
  show "x \<in> dom (map_of marks')"
  proof (cases mk)
    case InProgress
    with mk assms(1,2) have "map_of marks' x = Some InProgress" unfolding dfs_inv_def by blast
    then show ?thesis by blast
  next
    case Done
    with mk assms(3) show ?thesis by auto
  qed
qed

lemma connections_in_names: "set (declared_connections S i) \<subseteq> set (graph_names S)"
  using declared_connections_subset [of S i] by (auto simp: graph_names_def all_connections_def)

abbreviation unmarked :: "workflow_schema \<Rightarrow> marks \<Rightarrow> string set" where
  "unmarked S marks \<equiv> set (graph_names S) - dom (map_of marks)"

lemma unmarked_mono: "dom (map_of m) \<subseteq> dom (map_of m') \<Longrightarrow> card (unmarked S m') \<le> card (unmarked S m)"
  by (intro card_mono) auto

lemma unmarked_update:
  assumes "i \<in> set (graph_names S)" and "map_of m i = None"
  shows "Suc (card (unmarked S (AList.update i mk m))) = card (unmarked S m)"
proof -
  have "unmarked S (AList.update i mk m) = unmarked S m - {i}" by auto
  moreover have "i \<in> unmarked S m" using assms by auto
  ultimately show ?thesis by (metis List.finite_set card_Suc_Diff1 finite_Diff)
qed

lemma dfs_enough_fuel:
  shows "dfs_inv R S marks stack \<Longrightarrow> map_of marks i = None \<Longrightarrow> i \<in> set (graph_names S) \<Longrightarrow>
      card (unmarked S marks) \<le> fuel \<Longrightarrow> dfs_visit fuel R S i marks stack \<noteq> None"
    and "dfs_inv R S marks stack \<Longrightarrow> set ns \<subseteq> set (graph_names S) \<Longrightarrow>
      card (unmarked S marks) \<le> fuel \<Longrightarrow> dfs_edges fuel R S ns marks stack \<noteq> None"
proof (induction fuel R S i marks stack and fuel R S ns marks stack
    rule: dfs_visit_dfs_edges.induct)
  case (1 R S i marks stack)
  then show ?case by (auto simp: domIff)
next
  case (2 fuel R S i marks stack)
  have inv1: "dfs_inv R S (AList.update i InProgress marks) (stack @ [i])"
    using 2(2,3) by (rule dfs_inv_enter)
  have "card (unmarked S (AList.update i InProgress marks)) \<le> fuel"
    using unmarked_update [OF 2(4,3), of InProgress] 2(5) by simp
  with 2(1) [OF refl refl _ inv1 connections_in_names]
  have "\<not> is_router R i \<longrightarrow> dfs_edges fuel R S (declared_connections S i)
      (AList.update i InProgress marks) (stack @ [i]) \<noteq> None"
    by blast
  then show ?case by (auto simp: Let_def split: option.splits sum.splits if_splits)
next
  case (4 fuel R S nxt rest marks stack)
  show ?case
  proof (cases "map_of marks nxt")
    case None
    with 4(1,4,5,6) obtain r where v: "dfs_visit fuel R S nxt marks stack = Some r" by auto
    show ?thesis
    proof (cases r)
      case (Inr m1)
      have "dfs_inv R S m1 stack \<and> insert nxt (done_nodes marks) \<subseteq> done_nodes m1"
        using dfs_Inr(1) 4(4) None v Inr by blast
      then have m1: "dfs_inv R S m1 stack" "done_nodes marks \<subseteq> done_nodes m1" by blast+
      have "card (unmarked S m1) \<le> fuel"
        using unmarked_mono [OF dfs_inv_dom [OF 4(4) m1], of S] 4(6) by (rule le_trans)
      with 4(2) [OF None v Inr m1(1)] 4(5) show ?thesis using None v Inr by simp
    qed (use None v in simp)
  next
    case (Some mk)
    with 4 show ?thesis by (cases mk) auto
  qed
qed auto

lemma cycles_loop_result:
  assumes "dfs_inv R S marks []" and "set ss \<subseteq> set (graph_names S)"
  shows "(\<exists>m'. cycles_loop (graph_fuel S) R S ss marks = Some (Inr m') \<and> dfs_inv R S m' [] \<and>
       set ss \<union> dom (map_of marks) \<subseteq> done_nodes m') \<or>
    (\<exists>path. cycles_loop (graph_fuel S) R S ss marks = Some (Inl (Cycle path)) \<and> cycle_path R S path)"
  using assms
proof (induction ss arbitrary: marks)
  case Nil
  have "x \<in> done_nodes marks" if "map_of marks x = Some mk" for x mk
    using that Nil(1) by (cases mk) (auto simp: dfs_inv_def)
  with Nil show ?case by auto
next
  case (Cons s ss)
  show ?case
  proof (cases "map_of marks s")
    case None
    have "card (unmarked S marks) \<le> card (set (graph_names S))" by (intro card_mono) auto
    also have "\<dots> \<le> graph_fuel S" by (simp add: graph_fuel_def card_length)
    finally obtain r where v: "dfs_visit (graph_fuel S) R S s marks [] = Some r"
      using dfs_enough_fuel(1) [OF Cons.prems(1) None] Cons.prems(2) by auto
    show ?thesis
    proof (cases r)
      case (Inl e)
      with dfs_Inl(1) [OF _ Cons.prems(1) None] v None show ?thesis by auto
    next
      case (Inr m1)
      then have m1: "dfs_inv R S m1 []" "insert s (done_nodes marks) \<subseteq> done_nodes m1"
        using dfs_Inr(1) Cons.prems(1) None v by blast+
      have "dom (map_of marks) \<subseteq> dom (map_of m1)"
        using dfs_inv_dom [OF Cons.prems(1) m1(1)] m1(2) by blast
      with Cons.IH [OF m1(1)] Cons.prems(2) None v Inr m1(2) show ?thesis by fastforce
    qed
  next
    case (Some mk)
    with Cons.IH [OF Cons.prems(1)] Cons.prems(2) show ?thesis by fastforce
  qed
qed

lemma check_cycles_result:
  "(check_cycles R S = Some (Inr ()) \<and> acyclic (fixed_edges R S)) \<or>
   (\<exists>path. check_cycles R S = Some (Inl (Cycle path)) \<and> cycle_path R S path)"
proof -
  have "dfs_inv R S [] []" by (simp add: dfs_inv_def)
  moreover have "set (sort (map fst (schema_nodes S))) \<subseteq> set (graph_names S)"
    by (auto simp: graph_names_def)
  ultimately consider (ok) m' where "check_cycles R S = Some (Inr ())" "dfs_inv R S m' []"
      "hkeys (schema_nodes S) \<subseteq> done_nodes m'"
    | (err) "\<exists>path. check_cycles R S = Some (Inl (Cycle path)) \<and> cycle_path R S path"
    using cycles_loop_result [of R S "[]" "sort (map fst (schema_nodes S))"]
    by (fastforce simp: check_cycles_def)
  then show ?thesis
  proof cases
    case ok
    have "x \<in> hkeys (schema_nodes S)" if "(x, y) \<in> fixed_edges R S" for x y
      using that
      by (cases "map_of (schema_nodes S) x")
        (auto simp: fixed_edges_def declared_connections_def hkeys_conv_dom)
    then have "(x, x) \<notin> (fixed_edges R S)\<^sup>+" for x
      using ok(2,3) unfolding dfs_inv_def by (meson subsetD tranclD)
    with ok(1) show ?thesis by (simp add: acyclic_def)
  qed simp
qed

subsection \<open>Properties\<close>

text \<open>
  C1. The validator decides exactly the documented structure: it always returns, and it accepts a
  schema if and only if only routers declare more than one connection, every declared node is
  reachable from the start node over declared connections, and the connections declared by
  non-router nodes form no cycle.
\<close>

theorem validate_exact:
  "validate R S \<noteq> None \<and>
   (validate R S = Some (Inr ()) \<longleftrightarrow>
      (\<forall>(i, c)\<in>set (schema_nodes S). length (connections c) \<le> 1 \<or> is_router R i) \<and>
      hkeys (schema_nodes S) \<subseteq> (declared_edges S)\<^sup>* `` {start_node S} \<and>
      acyclic (fixed_edges R S))"
proof -
  have cyc: "check_cycles R S \<noteq> None"
      "check_cycles R S = Some (Inr ()) \<longleftrightarrow> acyclic (fixed_edges R S)"
    using check_cycles_result [of R S] cycle_path_trancl [of R S] by (auto simp: acyclic_def)
  have "validate R S = Some (Inr ()) \<longleftrightarrow> check_fan_out R (schema_nodes S) = Inr () \<and>
      check_reachability S = Inr () \<and> check_cycles R S = Some (Inr ())"
    by (auto simp: validate_def split: sum.splits)
  moreover have "validate R S \<noteq> None" using cyc(1) by (auto simp: validate_def split: sum.splits)
  ultimately show ?thesis by (simp add: check_fan_out_Inr check_reachability_Inr cyc(2))
qed

definition sample_node :: "string \<Rightarrow> bool \<Rightarrow> node" where
  "sample_node i router = \<lparr>node_name = i, process = (\<lambda>_. Inr),
     as_router = (if router then Some (\<lambda>_. None) else None), agent = None\<rparr>"

definition sample_schema :: "(string \<times> string list) list \<Rightarrow> workflow_schema" where
  "sample_schema g = \<lparr>workflow_type = ''T'', start_node = ''a'',
     schema_nodes = map (\<lambda>(i, cs). (i, \<lparr>nc_identity = i, connections = cs\<rparr>)) g\<rparr>"

theorem validate_exact_witness:
  "validate [] (sample_schema [(''a'', [''b'']), (''b'', [])]) = Some (Inr ()) \<and>
   acyclic (fixed_edges [] (sample_schema [(''a'', [''b'']), (''b'', [])]))"
proof -
  have "validate [] (sample_schema [(''a'', [''b'']), (''b'', [])]) = Some (Inr ())" by code_simp
  then show ?thesis using validate_exact [of "[]" "sample_schema [(''a'', [''b'']), (''b'', [])]"] by blast
qed

text \<open>
  Every rejection names a real defect: a fan-out error names a declared non-router with that many
  connections, an unreachable-node error names a declared node with no path from the start, and a
  cycle error carries a walk along non-router connections that ends in a node it already passed. The
  unregistered-node error is never produced.
\<close>

theorem validate_error_sound:
  assumes "validate R S = Some (Inl e)"
  shows "case e of
      UnregisteredNode i \<Rightarrow> False
    | UnreachableNode i \<Rightarrow> i \<in> hkeys (schema_nodes S) \<and> (start_node S, i) \<notin> (declared_edges S)\<^sup>*
    | NonRouterFanOut i n \<Rightarrow> \<exists>c. (i, c) \<in> set (schema_nodes S) \<and> length (connections c) = n \<and> 1 < n \<and>
        \<not> is_router R i
    | Cycle path \<Rightarrow> cycle_path R S path"
proof (cases "check_fan_out R (schema_nodes S)")
  case (Inl e')
  with assms have "check_fan_out R (schema_nodes S) = Inl e" by (simp add: validate_def)
  then show ?thesis using check_fan_out_Inl by fastforce
next
  case fan: (Inr u)
  show ?thesis
  proof (cases "check_reachability S")
    case (Inl e')
    with assms fan have "check_reachability S = Inl e" by (simp add: validate_def)
    from check_reachability_Inl [OF this] show ?thesis by (elim bexE conjE) simp
  next
    case (Inr u')
    with assms fan have "check_cycles R S = Some (Inl e)" by (simp add: validate_def)
    with check_cycles_result [of R S] show ?thesis by auto
  qed
qed

theorem validate_error_sound_witness:
  "validate [] (sample_schema [(''a'', [''b'']), (''b'', [''a''])]) =
     Some (Inl (Cycle [''a'', ''b'', ''a''])) \<and>
   cycle_path [] (sample_schema [(''a'', [''b'']), (''b'', [''a''])]) [''a'', ''b'', ''a'']"
proof -
  have "validate [] (sample_schema [(''a'', [''b'']), (''b'', [''a''])]) =
      Some (Inl (Cycle [''a'', ''b'', ''a'']))"
    by code_simp
  with validate_error_sound [OF this] show ?thesis by simp
qed

end
