(* ===== verification/Telemetry.thy ===== *)
theory Telemetry
  imports Validator
begin

text \<open>
  The run telemetry snapshot (\<open>policy/telemetry.rs\<close>) and its graph-agnostic stamp
  (\<open>stamp_run_telemetry\<close> of \<open>workflow.rs\<close>). Spend figures come from the session ledger when it has a
  row, and from the per-node scans of the run state otherwise. A \<open>BTreeMap\<close> is an association list
  with distinct keys, as the hash maps are.
\<close>

record run_telemetry =
  rt_wall_clock_secs :: f64
  rt_total_attempts :: u32
  rt_total_retries :: u32
  rt_tasks_passed :: u32
  rt_tasks_failed :: u32
  rt_review_verdicts :: "string list"
  rt_total_input_tokens :: u64
  rt_total_output_tokens :: u64
  rt_total_cost_usd :: f64
  rt_total_cache_read_tokens :: u64
  rt_total_cache_creation_tokens :: u64
  rt_unknown_cost_invocations :: u32
  rt_model_tier_used :: "string hmap"
  rt_backend_used :: "string hmap"

record run_telemetry_inputs =
  ti_start_node_identity :: string
  ti_verdict_stages :: "string list"
  ti_cost_bearing_stages :: "string list"
  ti_total_attempts :: u32
  ti_total_retries :: u32
  ti_tasks_passed :: u32
  ti_tasks_failed :: u32
  ti_model_tier_used :: "string hmap"
  ti_model_stages :: "string list"

definition wall_clock_secs :: "task_context \<Rightarrow> string \<Rightarrow> timestamp \<Rightarrow> f64" where
  "wall_clock_secs ctx start now =
     (case Option.bind (map_of (node_runs ctx) start) nr_started_at of
        Some started \<Rightarrow>
          f64_div (f64_of_int (max 0 ((now - started) div 1000000))) (f64_of_int 1000)
      | None \<Rightarrow> f64_zero)"

definition total_tokens :: "task_context \<Rightarrow> u64 \<times> u64" where
  "total_tokens ctx = foldl (\<lambda>(i, out) run.
       (case nr_usage run of
          Some u \<Rightarrow> (i + (case input_tokens u of Some n \<Rightarrow> n | None \<Rightarrow> 0),
                     out + (case output_tokens u of Some n \<Rightarrow> n | None \<Rightarrow> 0))
        | None \<Rightarrow> (i, out)))
     (0, 0) (map snd (node_runs ctx))"

definition total_cost_usd :: "task_context \<Rightarrow> string list \<Rightarrow> f64" where
  "total_cost_usd ctx stages = f64_sum (List.map_filter
     (\<lambda>stage. do { v \<leftarrow> map_of (nodes ctx) stage; w \<leftarrow> json_get v ''cost_usd''; as_f64 w }) stages)"

definition u64_field :: "json \<Rightarrow> string \<Rightarrow> u64" where
  "u64_field v k = (case Option.bind (json_get v k) as_u64 of Some n \<Rightarrow> n | None \<Rightarrow> 0)"

definition total_cache_tokens :: "task_context \<Rightarrow> string list \<Rightarrow> u64 \<times> u64" where
  "total_cache_tokens ctx stages = foldl (\<lambda>(rd, cr) v.
       (rd + u64_field v ''cache_read_input_tokens'', cr + u64_field v ''cache_creation_input_tokens''))
     (0, 0) (List.map_filter (map_of (nodes ctx)) stages)"

definition review_verdicts :: "task_context \<Rightarrow> string list \<Rightarrow> string list" where
  "review_verdicts ctx stages = List.map_filter
     (\<lambda>stage. do { v \<leftarrow> map_of (nodes ctx) stage; w \<leftarrow> json_get v ''verdict''; s \<leftarrow> as_str w;
                   Some (stage @ '':'' @ s) }) stages"

definition transport_field :: "string \<Rightarrow> task_context \<Rightarrow> string \<Rightarrow> (string \<times> string) option" where
  "transport_field f ctx stage = do {
     v \<leftarrow> map_of (nodes ctx) stage;
     tr \<leftarrow> json_get v ''transport'';
     w \<leftarrow> json_get tr f;
     s \<leftarrow> as_str w;
     Some (stage, s)
   }"

definition extend_map :: "'v hmap \<Rightarrow> (string \<times> 'v) list \<Rightarrow> 'v hmap" where
  "extend_map m ps = foldl (\<lambda>acc (k, v). AList.update k v acc) m ps"

definition observed_model_tiers :: "task_context \<Rightarrow> string list \<Rightarrow> string hmap" where
  "observed_model_tiers ctx stages = extend_map [] (List.map_filter (transport_field ''tier'' ctx) stages)"

definition observed_backends :: "task_context \<Rightarrow> string list \<Rightarrow> string hmap" where
  "observed_backends ctx stages = extend_map [] (List.map_filter (transport_field ''backend'' ctx) stages)"

definition u32_try_from :: "u64 \<Rightarrow> u32" where
  "u32_try_from n = (if unat n < 2 ^ 32 then ucast n else - 1)"

definition harvest :: "task_context \<Rightarrow> timestamp \<Rightarrow> run_telemetry_inputs \<Rightarrow> run_telemetry" where
  "harvest ctx now inp =
     (let ledger = totals_of_metadata (metadata ctx);
          use_ledger = lt_invocations ledger > 0;
          toks = (if use_ledger then (lt_input_tokens ledger, lt_output_tokens ledger)
                  else total_tokens ctx);
          caches = (if use_ledger
                    then (lt_cache_read_input_tokens ledger, lt_cache_creation_input_tokens ledger)
                    else total_cache_tokens ctx (ti_cost_bearing_stages inp));
          cost = (if use_ledger then lt_cost_usd ledger
                  else total_cost_usd ctx (ti_cost_bearing_stages inp));
          unknown = (if use_ledger then u32_try_from (lt_unknown_cost_invocations ledger) else 0)
      in \<lparr>rt_wall_clock_secs = wall_clock_secs ctx (ti_start_node_identity inp) now,
          rt_total_attempts = ti_total_attempts inp,
          rt_total_retries = ti_total_retries inp,
          rt_tasks_passed = ti_tasks_passed inp,
          rt_tasks_failed = ti_tasks_failed inp,
          rt_review_verdicts = review_verdicts ctx (ti_verdict_stages inp),
          rt_total_input_tokens = fst toks,
          rt_total_output_tokens = snd toks,
          rt_total_cost_usd = cost,
          rt_total_cache_read_tokens = fst caches,
          rt_total_cache_creation_tokens = snd caches,
          rt_unknown_cost_invocations = unknown,
          rt_model_tier_used =
            extend_map (ti_model_tier_used inp) (observed_model_tiers ctx (ti_model_stages inp)),
          rt_backend_used = observed_backends ctx (ti_model_stages inp)\<rparr>)"

definition json_of_map :: "string hmap \<Rightarrow> json" where
  "json_of_map m = JObj (map (\<lambda>(k, v). (k, JStr v)) m)"

definition run_telemetry_to_json :: "run_telemetry \<Rightarrow> json" where
  "run_telemetry_to_json t = JObj
     [(''wall_clock_secs'', json_of_f64 (rt_wall_clock_secs t)),
      (''total_attempts'', json_u64 (ucast (rt_total_attempts t))),
      (''total_retries'', json_u64 (ucast (rt_total_retries t))),
      (''tasks_passed'', json_u64 (ucast (rt_tasks_passed t))),
      (''tasks_failed'', json_u64 (ucast (rt_tasks_failed t))),
      (''review_verdicts'', JArr (map JStr (rt_review_verdicts t))),
      (''total_input_tokens'', json_u64 (rt_total_input_tokens t)),
      (''total_output_tokens'', json_u64 (rt_total_output_tokens t)),
      (''total_cost_usd'', json_of_f64 (rt_total_cost_usd t)),
      (''total_cache_read_tokens'', json_u64 (rt_total_cache_read_tokens t)),
      (''total_cache_creation_tokens'', json_u64 (rt_total_cache_creation_tokens t)),
      (''unknown_cost_invocations'', json_u64 (ucast (rt_unknown_cost_invocations t))),
      (''model_tier_used'', json_of_map (rt_model_tier_used t)),
      (''backend_used'', json_of_map (rt_backend_used t))]"

definition stamp_run_telemetry :: "timestamp \<Rightarrow> string \<Rightarrow> task_context \<Rightarrow> task_context" where
  "stamp_run_telemetry now start ctx =
     (let stages = map fst (nodes ctx);
          t = harvest ctx now
            \<lparr>ti_start_node_identity = start, ti_verdict_stages = stages,
             ti_cost_bearing_stages = stages, ti_total_attempts = 0, ti_total_retries = 0,
             ti_tasks_passed = 0, ti_tasks_failed = 0, ti_model_tier_used = [],
             ti_model_stages = stages\<rparr>
      in ctx\<lparr>metadata := stamp_key ''run_telemetry'' (run_telemetry_to_json t) (metadata ctx)\<rparr>)"

subsection \<open>The stamp changes one metadata key\<close>

lemma stamp_run_telemetry_simps [simp]:
  "event (stamp_run_telemetry now s ctx) = event ctx"
  "nodes (stamp_run_telemetry now s ctx) = nodes ctx"
  "node_runs (stamp_run_telemetry now s ctx) = node_runs ctx"
  by (simp_all add: stamp_run_telemetry_def Let_def)

lemma json_get_telemetry_other [simp]:
  "k \<noteq> ''run_telemetry'' \<Longrightarrow> json_get (metadata (stamp_run_telemetry now s ctx)) k = json_get (metadata ctx) k"
  by (simp add: stamp_run_telemetry_def Let_def)

lemma telemetry_readers [simp]:
  "read_invocations X (metadata (stamp_run_telemetry now s ctx)) = read_invocations X (metadata ctx)"
  "read_sessions (metadata (stamp_run_telemetry now s ctx)) = read_sessions (metadata ctx)"
  "read_suspension (metadata (stamp_run_telemetry now s ctx)) = read_suspension (metadata ctx)"
  "k \<noteq> ''run_telemetry'' \<Longrightarrow> flag_at (metadata (stamp_run_telemetry now s ctx)) k f = flag_at (metadata ctx) k f"
  by (auto simp: stamp_run_telemetry_def Let_def invocation_rows.read_stamp_other
      session_rows.read_stamp_other)

lemma map_of_extend_map:
  "map_of (extend_map m ps) k = (case map_of (rev ps) k of Some v \<Rightarrow> Some v | None \<Rightarrow> map_of m k)"
  unfolding extend_map_def
  by (induction ps arbitrary: m) (auto simp: map_add_def split: option.splits)

lemma wf_extend_map: "wf_hmap m \<Longrightarrow> wf_hmap (extend_map m ps)"
  unfolding extend_map_def by (induction ps arbitrary: m) auto

lemma map_of_rev_wf: "wf_hmap m \<Longrightarrow> map_of (rev m) = map_of m"
  by (rule map_of_inject_set [THEN iffD2]) (simp_all add: wf_hmap_def rev_map [symmetric])

lemma totals_invocations:
  "lt_invocations (foldl add_session L ss) = lt_invocations L + of_nat (length ss)"
  by (induction ss arbitrary: L) (simp_all add: add_session_def)

lemma transport_collect:
  "map_of (extend_map [] (List.map_filter (transport_field f ctx) stages)) k =
     (if k \<in> set stages then map_option snd (transport_field f ctx k) else None)"
proof -
  have key: "transport_field f ctx s = Some p \<Longrightarrow> fst p = s" for s p
    by (auto simp: transport_field_def bind_eq_Some_conv)
  have "map_of (rev (List.map_filter (transport_field f ctx) stages)) k =
      (if k \<in> set stages then map_option snd (transport_field f ctx k) else None)"
  proof (induction stages)
    case (Cons s ss)
    then show ?case
      using key [of s]
      by (cases "transport_field f ctx s")
        (auto simp: List.map_filter_simps map_add_def split: option.splits)
  qed (simp add: List.map_filter_simps)
  then show ?thesis by (simp add: map_of_extend_map split: option.splits)
qed

subsection \<open>Properties\<close>

text \<open>
  Telemetry prefers what was observed to what was planned: the tier reported for a stage is the
  one its transport recorded when the stage is scanned and has one, and the caller's tier otherwise;
  and the spend figures are those of the session ledger exactly when that ledger has a readable row
  (below the 64-bit wrap of its row counter).
\<close>

theorem harvest_prefers_observed:
  assumes "length (read_sessions (metadata ctx)) < 2 ^ 64"
  shows "map_of (rt_model_tier_used (harvest ctx now inp)) k =
      (case (if k \<in> set (ti_model_stages inp) then transport_field ''tier'' ctx k else None) of
         Some p \<Rightarrow> Some (snd p) | None \<Rightarrow> map_of (ti_model_tier_used inp) k) \<and>
    rt_total_cost_usd (harvest ctx now inp) =
      (if read_sessions (metadata ctx) \<noteq> [] then lt_cost_usd (totals_of_metadata (metadata ctx))
       else total_cost_usd ctx (ti_cost_bearing_stages inp)) \<and>
    rt_total_input_tokens (harvest ctx now inp) =
      (if read_sessions (metadata ctx) \<noteq> [] then lt_input_tokens (totals_of_metadata (metadata ctx))
       else fst (total_tokens ctx))"
proof -
  let ?n = "length (read_sessions (metadata ctx))"
  have "(of_nat ?n :: u64) = 0 \<longleftrightarrow> ?n = 0"
    using assms by (auto simp: word_of_nat_eq_0_iff dest: dvd_imp_le)
  then have "lt_invocations (totals_of_metadata (metadata ctx)) > 0 \<longleftrightarrow> read_sessions (metadata ctx) \<noteq> []"
    by (simp add: totals_of_metadata_def totals_invocations ledger_totals_default_def word_gt_0)
  then show ?thesis
    by (auto simp: harvest_def Let_def map_of_extend_map [of "ti_model_tier_used inp"]
        map_of_rev_wf [OF wf_extend_map] transport_collect observed_model_tiers_def
        split: option.splits)
qed

theorem harvest_prefers_observed_witness:
  "map_of (rt_model_tier_used (harvest
     (sample_ctx\<lparr>nodes := [(''a'', JObj [(''transport'', JObj [(''tier'', JStr ''haiku'')])])]\<rparr>) 0
     \<lparr>ti_start_node_identity = ''a'', ti_verdict_stages = [], ti_cost_bearing_stages = [],
      ti_total_attempts = 0, ti_total_retries = 0, ti_tasks_passed = 0, ti_tasks_failed = 0,
      ti_model_tier_used = [(''a'', ''opus'')], ti_model_stages = [''a'']\<rparr>)) ''a'' = Some ''haiku''"
  by (subst harvest_prefers_observed [THEN conjunct1])
    (simp_all add: sample_ctx_def transport_field_def read_sessions_def rows_at_def)

end
