(* ===== verification/Runner.thy ===== *)
theory Runner
  imports Telemetry
begin

text \<open>
  The workflow runner (\<open>workflow.rs\<close>): the envelope \<open>node_context\<close> around one node dispatch, the
  pointer walk with its cancellation, budget and pause gates, and the entry points \<open>run\<close>, \<open>run_with\<close> and
  \<open>run_from\<close>.

  The walk is one function per loop iteration, \<open>walk_step\<close>, iterated by \<open>walk\<close>. A router may send the
  walk round a cycle for ever, so \<open>walk\<close> is a partial function whose value \<open>None\<close> means that the loop
  does not end. What the code reads from outside (the clock, fresh uuids, the cancellation and pause
  flags) is indexed by the iteration number; a clock is read several times per iteration, so its
  second argument numbers the reads. The calls to \<open>on_progress\<close> are collected in order in the list of
  snapshots. The formatted texts of the log events are not modelled.
\<close>

record world =
  formats :: ext
  clock :: "nat \<Rightarrow> nat \<Rightarrow> timestamp"
  fresh_uuid :: "nat \<Rightarrow> uuid"

record run_options =
  ro_cancelled :: "(nat \<Rightarrow> bool) option"
  ro_budget :: "budget option"
  ro_paused :: "(nat \<Rightarrow> bool) option"
  ro_run_id :: "uuid option"

definition run_options_default :: run_options where
  "run_options_default =
     \<lparr>ro_cancelled = None, ro_budget = None, ro_paused = None, ro_run_id = None\<rparr>"

record resume_state =
  rs_ctx :: task_context
  rs_at_identity :: string
  rs_ledger :: budget_ledger

record workflow =
  w_registry :: node_registry
  w_schema :: workflow_schema
  w_seeded_nodes :: "json hmap"

definition workflow_new :: "node_registry \<Rightarrow> workflow_schema \<Rightarrow> workflow" where
  "workflow_new R S = \<lparr>w_registry = R, w_schema = S, w_seeded_nodes = []\<rparr>"

definition new_validated ::
  "node_registry \<Rightarrow> workflow_schema \<Rightarrow> (validation_error + workflow) option" where
  "new_validated R S =
     (case validate R S of
        None \<Rightarrow> None
      | Some (Inl e) \<Rightarrow> Some (Inl e)
      | Some (Inr _) \<Rightarrow> Some (Inr \<lparr>w_registry = R, w_schema = S, w_seeded_nodes = []\<rparr>))"

definition with_seeded_nodes :: "json hmap \<Rightarrow> workflow \<Rightarrow> workflow" where
  "with_seeded_nodes s w = w\<lparr>w_seeded_nodes := s\<rparr>"

definition without_seeded_nodes :: "workflow \<Rightarrow> workflow" where
  "without_seeded_nodes w = w\<lparr>w_seeded_nodes := []\<rparr>"

definition has_node :: "workflow \<Rightarrow> string \<Rightarrow> bool" where
  "has_node w i = registry_contains (w_registry w) i"

definition read_campaign_id :: "task_context \<Rightarrow> string option" where
  "read_campaign_id ctx =
     (case Option.bind (json_get (event ctx) ''campaign_id'') as_str of
        Some c \<Rightarrow> Some c
      | None \<Rightarrow> do {
          v \<leftarrow> map_of (nodes ctx) ''OrchestrationRunNode'';
          w \<leftarrow> json_get v ''campaign_id'';
          as_str w
        })"

subsection \<open>Seeding\<close>

definition pending_run :: node_run where
  "pending_run = \<lparr>nr_status = Pending, nr_started_at = None, nr_completed_at = None,
     nr_error = None, nr_input = None, nr_usage = None\<rparr>"

definition seed_context :: "workflow \<Rightarrow> json \<Rightarrow> task_context" where
  "seed_context w ev = \<lparr>event = ev, nodes = w_seeded_nodes w, metadata = JObj [],
     node_runs = foldl (\<lambda>m i. AList.update i pending_run m) [] (map fst (schema_nodes (w_schema w)))\<rparr>"

definition seed_missing_pending :: "workflow \<Rightarrow> task_context \<Rightarrow> task_context" where
  "seed_missing_pending w ctx = ctx\<lparr>node_runs :=
     foldl (\<lambda>m i. hm_or_insert i pending_run m) (node_runs ctx) (map fst (schema_nodes (w_schema w)))\<rparr>"

subsection \<open>One dispatch\<close>

definition stamp_running :: "world \<Rightarrow> nat \<Rightarrow> string \<Rightarrow> task_context \<Rightarrow> task_context" where
  "stamp_running W t i ctx = ctx\<lparr>node_runs := hm_modify_or_insert i
     (\<lambda>r. r\<lparr>nr_status := Running, nr_started_at := Some (clock W t 0)\<rparr>)
     \<lparr>nr_status = Running, nr_started_at = Some (clock W t 0), nr_completed_at = None,
      nr_error = None, nr_input = None, nr_usage = None\<rparr> (node_runs ctx)\<rparr>"

definition capped_payload :: "ext \<Rightarrow> task_context \<Rightarrow> string \<Rightarrow> u64 \<Rightarrow> json option \<times> bool" where
  "capped_payload X ctx i cap =
     (case map_of (nodes ctx) i of
        Some raw \<Rightarrow> (case truncate_payload X raw cap of (v, b) \<Rightarrow> (Some v, b))
      | None \<Rightarrow> (None, False))"

definition success_context :: "world \<Rightarrow> nat \<Rightarrow> string \<Rightarrow> task_context \<Rightarrow> task_context \<Rightarrow> task_context" where
  "success_context W t i pre ok =
     (let X = formats W;
          ok1 = ok\<lparr>node_runs := hm_modify i
            (\<lambda>r. r\<lparr>nr_status := Success, nr_completed_at := Some (clock W t 2)\<rparr>) (node_runs ok)\<rparr>;
          seq = next_seq X (metadata ok1);
          cap = payload_cap_from_resolved_policy pre;
          p = capped_payload X ok1 i cap
      in ok1\<lparr>metadata := append_invocation X
           \<lparr>ni_id = fresh_uuid W t, ni_run_id = read_run_id (metadata pre),
            ni_campaign_id = read_campaign_id pre, ni_node = i, ni_seq = seq,
            ni_started_at = clock W t 1, ni_completed_at = clock W t 3, ni_status = InvSuccess,
            ni_error = None, ni_payload = fst p, ni_payload_truncated = snd p,
            ni_payload_cap_bytes = cap\<rparr> (metadata ok1)\<rparr>)"

definition failure_context :: "world \<Rightarrow> nat \<Rightarrow> string \<Rightarrow> task_context \<Rightarrow> node_error \<Rightarrow> task_context" where
  "failure_context W t i pre err =
     (let X = formats W;
          cap = payload_cap_from_resolved_policy pre;
          e1 = pre\<lparr>metadata := fold append_session (ne_sessions err) (metadata pre)\<rparr>;
          e2 = (case ne_node_result err of
                  Some r \<Rightarrow> e1\<lparr>nodes := AList.update i r (nodes e1)\<rparr> | None \<Rightarrow> e1);
          e3 = e2\<lparr>node_runs := hm_modify i
            (\<lambda>r. r\<lparr>nr_status := Failed, nr_completed_at := Some (clock W t 2),
                   nr_error := Some (ne_message err)\<rparr>) (node_runs e2)\<rparr>;
          seq = next_seq X (metadata e3)
      in e3\<lparr>metadata := append_invocation X
           \<lparr>ni_id = fresh_uuid W t, ni_run_id = read_run_id (metadata pre),
            ni_campaign_id = read_campaign_id pre, ni_node = i, ni_seq = seq,
            ni_started_at = clock W t 1, ni_completed_at = clock W t 3, ni_status = InvFailed,
            ni_error = Some (ne_message err), ni_payload = None, ni_payload_truncated = False,
            ni_payload_cap_bytes = cap\<rparr> (metadata e3)\<rparr>)"

text \<open>The result is the context, whether the node failed, and the snapshots emitted.\<close>

definition node_context ::
  "world \<Rightarrow> nat \<Rightarrow> node \<Rightarrow> task_context \<Rightarrow> task_context \<times> bool \<times> task_context list" where
  "node_context W t nd ctx =
     (let i = node_name nd;
          pre = stamp_running W t i ctx
      in case process nd t pre of
           Inr ok \<Rightarrow> (let c = success_context W t i pre ok in (c, False, [pre, c]))
         | Inl err \<Rightarrow> (let c = failure_context W t i pre err in (c, True, [pre, c])))"

subsection \<open>The walk\<close>

definition finish_suspended ::
  "world \<Rightarrow> timestamp \<Rightarrow> string option \<Rightarrow> suspend_reason \<Rightarrow> string option \<Rightarrow> budget_ledger \<Rightarrow>
   task_context \<Rightarrow> task_context" where
  "finish_suspended W now resume_at reason origin ledger ctx =
     (case resume_at of
        None \<Rightarrow> ctx
      | Some r \<Rightarrow> ctx\<lparr>metadata := stamp_suspended (formats W) now
          \<lparr>sp_resume_at = r, sp_reason = reason, sp_origin_identity = origin, sp_ledger = ledger\<rparr>
          (metadata ctx)\<rparr>)"

record walk_state =
  ws_ctx :: task_context
  ws_current :: "string option"
  ws_ledger :: budget_ledger
  ws_tick :: nat
  ws_snaps :: "task_context list"

type_synonym run_result = "(string + task_context) \<times> task_context list"

datatype walk_outcome = Continue walk_state | Return run_result

definition no_node_message :: "string \<Rightarrow> string" where
  "no_node_message i = ''no node registered for identity '' @ [CHR 0x27] @ i @ [CHR 0x27]"

definition halt_with :: "world \<Rightarrow> workflow \<Rightarrow> walk_state \<Rightarrow> task_context \<Rightarrow> walk_outcome" where
  "halt_with W w s ctx =
     (let c = stamp_run_telemetry (clock W (ws_tick s) 9) (start_node (w_schema w)) ctx
      in Return (Inr c, ws_snaps s @ [c]))"

definition flag_raised :: "(nat \<Rightarrow> bool) option \<Rightarrow> nat \<Rightarrow> bool" where
  "flag_raised f t = (case f of Some g \<Rightarrow> g t | None \<Rightarrow> False)"

definition after_dispatch ::
  "world \<Rightarrow> workflow \<Rightarrow> walk_state \<Rightarrow> string \<Rightarrow> node \<Rightarrow> task_context \<Rightarrow> walk_outcome" where
  "after_dispatch W w s i nd ctx =
     (let router_next = map_option (\<lambda>r. dispatch_route r ctx) (as_router nd);
          ledger = (case map_of (node_runs ctx) i of
             Some run \<Rightarrow> ledger_record (nr_usage run) (node_cost_usd ctx i) (node_cache_tokens ctx i)
               (ws_ledger s)
           | None \<Rightarrow> ws_ledger s);
          current = (case router_next of Some nxt \<Rightarrow> nxt | None \<Rightarrow> next_after (w_schema w) i)
      in if suspension_requested (metadata ctx) \<and> current \<noteq> None
         then halt_with W w s
           (finish_suspended W (clock W (ws_tick s) 8) current (requested_reason (metadata ctx))
              (Some i) ledger ctx)
         else Continue (s\<lparr>ws_ctx := ctx, ws_current := current, ws_ledger := ledger,
                ws_tick := Suc (ws_tick s)\<rparr>))"

definition walk_step :: "world \<Rightarrow> workflow \<Rightarrow> run_options \<Rightarrow> walk_state \<Rightarrow> string \<Rightarrow> walk_outcome" where
  "walk_step W w opts s i =
     (let t = ws_tick s; ctx = ws_ctx s
      in if flag_raised (ro_cancelled opts) t
         then halt_with W w s
           (ctx\<lparr>metadata := stamp_cancelled (formats W) (clock W t 7) (metadata ctx)\<rparr>)
         else case ledger_check (ws_ledger s) (ro_budget opts) of
           Halt reason \<Rightarrow>
             halt_with W w s (ctx\<lparr>metadata := stamp_budget_halt reason (metadata ctx)\<rparr>)
         | Allow \<Rightarrow>
             if flag_raised (ro_paused opts) t
             then halt_with W w s
               (finish_suspended W (clock W t 7) (Some i) OperatorPause None (ws_ledger s) ctx)
             else (case registry_get (w_registry w) i of
               None \<Rightarrow> Return (Inl (no_node_message i), ws_snaps s)
             | Some nd \<Rightarrow>
                 (case node_context W t nd ctx of (next_ctx, failed, snaps) \<Rightarrow>
                    let s1 = s\<lparr>ws_snaps := ws_snaps s @ snaps\<rparr>
                    in if failed
                       then Continue (s1\<lparr>ws_ctx := next_ctx, ws_current := None, ws_tick := Suc t\<rparr>)
                       else after_dispatch W w s1 i nd next_ctx)))"

partial_function (option) walk ::
  "world \<Rightarrow> workflow \<Rightarrow> run_options \<Rightarrow> walk_state \<Rightarrow> run_result option" where
  "walk W w opts s =
     (case ws_current s of
        None \<Rightarrow> Some (Inr (stamp_run_telemetry (clock W (ws_tick s) 9) (start_node (w_schema w)) (ws_ctx s)),
                      ws_snaps s)
      | Some i \<Rightarrow>
          (case walk_step W w opts s i of
             Return r \<Rightarrow> Some r
           | Continue s' \<Rightarrow> walk W w opts s'))"

declare walk.simps [code]

definition walk_from ::
  "world \<Rightarrow> workflow \<Rightarrow> run_options \<Rightarrow> task_context \<Rightarrow> string option \<Rightarrow> budget_ledger \<Rightarrow> run_result option" where
  "walk_from W w opts ctx current ledger = walk W w opts
     \<lparr>ws_ctx = ctx, ws_current = current, ws_ledger = ledger, ws_tick = 0, ws_snaps = [ctx]\<rparr>"

subsection \<open>Entry points\<close>

definition stamp_options_run_id :: "world \<Rightarrow> run_options \<Rightarrow> task_context \<Rightarrow> task_context" where
  "stamp_options_run_id W opts ctx =
     (case ro_run_id opts of
        Some u \<Rightarrow> ctx\<lparr>metadata := stamp_run_id (formats W) u (metadata ctx)\<rparr> | None \<Rightarrow> ctx)"

definition run_with :: "world \<Rightarrow> workflow \<Rightarrow> json \<Rightarrow> run_options \<Rightarrow> run_result option" where
  "run_with W w ev opts =
     walk_from W w opts (stamp_options_run_id W opts (seed_context w ev))
       (Some (start_node (w_schema w))) budget_ledger_new"

definition run :: "world \<Rightarrow> workflow \<Rightarrow> json \<Rightarrow> run_result option" where
  "run W w ev = run_with W w ev run_options_default"

text \<open>
  \<open>run_from\<close> panics (\<open>None\<close> of the outer option) when the stored suspension marker is of the wrong
  shape; the inner option is the walk's.
\<close>

definition run_from ::
  "world \<Rightarrow> workflow \<Rightarrow> resume_state \<Rightarrow> run_options \<Rightarrow> run_result option option" where
  "run_from W w st opts =
     (let ctx = seed_missing_pending w (rs_ctx st)
      in case stamp_resumed (metadata ctx) of
           None \<Rightarrow> None
         | Some m \<Rightarrow> Some (walk_from W w opts (stamp_options_run_id W opts (ctx\<lparr>metadata := m\<rparr>))
             (Some (rs_at_identity st)) (rs_ledger st)))"


subsection \<open>Reachable walk states\<close>

inductive walk_reaches :: "world \<Rightarrow> workflow \<Rightarrow> run_options \<Rightarrow> walk_state \<Rightarrow> walk_state \<Rightarrow> bool"
  for W w opts where
  walk_here: "walk_reaches W w opts s s"
| walk_more: "ws_current s = Some i \<Longrightarrow> walk_step W w opts s i = Continue s' \<Longrightarrow>
    walk_reaches W w opts s' s'' \<Longrightarrow> walk_reaches W w opts s s''"

text \<open>A state in which the walk stops, with what it returns.\<close>

definition walk_stops ::
  "world \<Rightarrow> workflow \<Rightarrow> run_options \<Rightarrow> walk_state \<Rightarrow> run_result \<Rightarrow> bool" where
  "walk_stops W w opts s r =
     (case ws_current s of
        None \<Rightarrow> r = (Inr (stamp_run_telemetry (clock W (ws_tick s) 9) (start_node (w_schema w)) (ws_ctx s)),
                     ws_snaps s)
      | Some i \<Rightarrow> walk_step W w opts s i = Return r)"

lemma walk_result:
  "walk W w opts s = Some r \<Longrightarrow> \<exists>s'. walk_reaches W w opts s s' \<and> walk_stops W w opts s' r"
proof (induction rule: walk.raw_induct [rotated, consumes 1])
  case (1 walk W w opts s r)
  show ?case
  proof (cases "ws_current s")
    case None
    with 1(2) show ?thesis
      by (intro exI [of _ s]) (simp add: walk_here walk_stops_def)
  next
    case (Some i)
    show ?thesis
    proof (cases "walk_step W w opts s i")
      case (Continue s1)
      with Some 1(2) have "walk W w opts s1 = Some r" by simp
      from 1(1) [OF this] Some Continue show ?thesis by (blast intro: walk_more)
    next
      case (Return r')
      with Some 1(2) show ?thesis
        by (intro exI [of _ s]) (simp add: walk_here walk_stops_def)
    qed
  qed
qed

lemma walk_returns:
  assumes "walk_reaches W w opts s s'" and "walk_stops W w opts s' r"
  shows "walk W w opts s = Some r"
  using assms
proof (induction rule: walk_reaches.induct)
  case (walk_here s)
  then show ?case by (subst walk.simps) (auto simp: walk_stops_def split: option.splits)
next
  case (walk_more s i s' s'')
  then show ?case by (subst walk.simps) simp
qed

subsection \<open>The steps of the walk\<close>

lemma halt_with_neq_Continue [simp]: "halt_with W w s ctx \<noteq> Continue s'"
  by (simp add: halt_with_def Let_def)

lemma walk_step_Continue:
  assumes "walk_step W w opts s i = Continue s'"
  obtains nd where "\<not> flag_raised (ro_cancelled opts) (ws_tick s)"
    "ledger_check (ws_ledger s) (ro_budget opts) = Allow"
    "\<not> flag_raised (ro_paused opts) (ws_tick s)"
    "registry_get (w_registry w) i = Some nd"
    "case node_context W (ws_tick s) nd (ws_ctx s) of (c, failed, snaps) \<Rightarrow>
       if failed then s' = s\<lparr>ws_snaps := ws_snaps s @ snaps, ws_ctx := c, ws_current := None,
         ws_tick := Suc (ws_tick s)\<rparr>
       else after_dispatch W w (s\<lparr>ws_snaps := ws_snaps s @ snaps\<rparr>) i nd c = Continue s'"
  using assms
  by (auto simp: walk_step_def Let_def split: if_splits budget_decision.splits option.splits prod.splits)

lemma walk_step_Continue_simps:
  assumes "walk_step W w opts s i = Continue s'"
  obtains nd where "registry_get (w_registry w) i = Some nd"
    "ws_tick s' = Suc (ws_tick s)"
    "ws_ctx s' = fst (node_context W (ws_tick s) nd (ws_ctx s))"
    "ws_snaps s' = ws_snaps s @ snd (snd (node_context W (ws_tick s) nd (ws_ctx s)))"
  using assms
  by (rule walk_step_Continue)
    (auto simp: after_dispatch_def Let_def split: if_splits prod.splits)

subsection \<open>What one dispatch leaves behind\<close>

abbreviation rows_of :: "world \<Rightarrow> task_context \<Rightarrow> node_invocation list" where
  "rows_of W c \<equiv> read_invocations (formats W) (metadata c)"

text \<open>A node that leaves the dispatch ledger to the runner, as every node of the engine does.\<close>

definition keeps_rows :: "world \<Rightarrow> node \<Rightarrow> bool" where
  "keeps_rows W nd \<longleftrightarrow> (\<forall>t c c'. process nd t c = Inr c' \<longrightarrow> rows_of W c' = rows_of W c)"

definition registry_keeps_rows :: "world \<Rightarrow> workflow \<Rightarrow> bool" where
  "registry_keeps_rows W w \<longleftrightarrow> ext_ok (formats W) \<and> wf_registry (w_registry w) \<and>
     (\<forall>i nd. registry_get (w_registry w) i = Some nd \<longrightarrow> keeps_rows W nd)"

lemma rows_append_sessions [simp]:
  "read_invocations X (fold append_session ss m) = read_invocations X m"
  by (rule invocation_rows.read_cong) (simp add: session_rows.fold_append_other)

lemma rows_stamp_running [simp]: "metadata (stamp_running W t i c) = metadata c"
  by (simp add: stamp_running_def)

lemma node_context_row:
  assumes "ext_ok (formats W)" and "keeps_rows W nd"
  shows "\<exists>r. rows_of W (fst (node_context W t nd c)) = rows_of W c @ [r] \<and>
    ni_node r = node_name nd \<and> ni_seq r = next_seq (formats W) (metadata c) \<and>
    ni_run_id r = read_run_id (metadata c) \<and>
    (ni_status r = InvFailed \<longleftrightarrow> fst (snd (node_context W t nd c)))"
proof (cases "process nd t (stamp_running W t (node_name nd) c)")
  case (Inl err)
  then show ?thesis
    by (auto simp: node_context_def failure_context_def Let_def append_invocation_read [OF assms(1)]
        next_seq_def split: option.splits)
next
  case (Inr ok)
  then have "rows_of W ok = rows_of W c"
    using assms(2) by (fastforce simp: keeps_rows_def)
  with Inr show ?thesis
    by (auto simp: node_context_def success_context_def Let_def append_invocation_read [OF assms(1)]
        next_seq_def)
qed


subsection \<open>Invariants of the walk\<close>

text \<open>
  What holds of the state the walk starts in and survives every iteration holds of the state it stops
  in.
\<close>

locale walk_invariant =
  fixes W :: world and w :: workflow and opts :: run_options and inv :: "walk_state \<Rightarrow> bool"
  assumes inv_step:
    "inv s \<Longrightarrow> ws_current s = Some i \<Longrightarrow> walk_step W w opts s i = Continue s' \<Longrightarrow> inv s'"
begin

lemma inv_reaches: "walk_reaches W w opts s s' \<Longrightarrow> inv s \<Longrightarrow> inv s'"
  by (induction rule: walk_reaches.induct) (auto intro: inv_step)

lemma inv_result:
  "walk W w opts s = Some r \<Longrightarrow> inv s \<Longrightarrow> \<exists>s'. inv s' \<and> walk_stops W w opts s' r"
  using walk_result inv_reaches by blast

end

definition numbered :: "world \<Rightarrow> task_context \<Rightarrow> bool" where
  "numbered W c \<longleftrightarrow> map ni_seq (rows_of W c) = map of_nat [0..<length (rows_of W c)]"

lemma numbered_append:
  "rows_of W c' = rows_of W c @ [r] \<Longrightarrow> ni_seq r = next_seq (formats W) (metadata c) \<Longrightarrow>
     numbered W c \<Longrightarrow> numbered W c'"
  by (simp add: numbered_def next_seq_def)

lemma step_row:
  assumes "registry_keeps_rows W w" and "walk_step W w opts s i = Continue s'"
  shows "\<exists>r. rows_of W (ws_ctx s') = rows_of W (ws_ctx s) @ [r] \<and> ni_node r = i \<and>
    ni_seq r = next_seq (formats W) (metadata (ws_ctx s)) \<and>
    ni_run_id r = read_run_id (metadata (ws_ctx s))"
  using assms(2)
proof (rule walk_step_Continue_simps)
  fix nd
  assume nd: "registry_get (w_registry w) i = Some nd"
    and ctx: "ws_ctx s' = fst (node_context W (ws_tick s) nd (ws_ctx s))"
  have "keeps_rows W nd" "node_name nd = i" "ext_ok (formats W)"
    using assms(1) nd by (auto simp: registry_keeps_rows_def wf_registry_get)
  with node_context_row [of W nd "ws_tick s" "ws_ctx s"] ctx show ?thesis by auto
qed

interpretation row_numbers: walk_invariant W w opts
  "\<lambda>s. registry_keeps_rows W w \<longrightarrow> numbered W (ws_ctx s)" for W w opts
  by unfold_locales (blast dest: step_row intro: numbered_append)

interpretation first_snapshot: walk_invariant W w opts
  "\<lambda>s. \<exists>rest. ws_snaps s = c0 # rest" for W w opts c0
proof
  fix s i s'
  assume "\<exists>rest. ws_snaps s = c0 # rest" and "walk_step W w opts s i = Continue s'"
  then show "\<exists>rest. ws_snaps s' = c0 # rest" by (auto elim: walk_step_Continue_simps)
qed

text \<open>The dispatch ledger a halted walk returns is the one it had, up to the row of a last dispatch.\<close>

lemma halt_with_eq:
  "halt_with W w s c = Return r \<longleftrightarrow>
     r = (Inr (stamp_run_telemetry (clock W (ws_tick s) 9) (start_node (w_schema w)) c),
          ws_snaps s @ [stamp_run_telemetry (clock W (ws_tick s) 9) (start_node (w_schema w)) c])"
  by (auto simp: halt_with_def Let_def)

lemma rows_finish_suspended [simp]:
  "rows_of W (finish_suspended V now p why org L c) = rows_of W c"
  by (auto simp: finish_suspended_def stamp_suspended_def invocation_rows.read_stamp_other
      split: option.splits)

lemma stop_numbered:
  assumes "registry_keeps_rows W w" and "walk_stops W w opts s (Inr c, snaps)"
    and "numbered W (ws_ctx s)"
  shows "numbered W c"
proof (cases "ws_current s")
  case None
  with assms(2,3) show ?thesis by (simp add: walk_stops_def numbered_def)
next
  case (Some i)
  with assms(2) have step: "walk_step W w opts s i = Return (Inr c, snaps)"
    by (simp add: walk_stops_def)
  consider (gate) "rows_of W c = rows_of W (ws_ctx s)"
    | (node) nd where "registry_get (w_registry w) i = Some nd"
        "rows_of W c = rows_of W (fst (node_context W (ws_tick s) nd (ws_ctx s)))"
    using step
    by (auto simp: walk_step_def after_dispatch_def Let_def halt_with_eq stamp_cancelled_def
        stamp_budget_halt_def invocation_rows.read_stamp_other
        split: if_splits budget_decision.splits option.splits prod.splits)
  then show ?thesis
  proof cases
    case gate
    with assms(3) show ?thesis by (simp add: numbered_def)
  next
    case node
    have "keeps_rows W nd" "ext_ok (formats W)"
      using assms(1) node(1) by (auto simp: registry_keeps_rows_def)
    from node_context_row [OF this(2,1), of "ws_tick s" "ws_ctx s"] node(2)
    show ?thesis using assms(3) by (auto intro: numbered_append)
  qed
qed


subsection \<open>Termination\<close>

lemma walk_continue:
  "ws_current s = Some i \<Longrightarrow> walk_step W w opts s i = Continue s' \<Longrightarrow>
     walk W w opts s = walk W w opts s'"
  by (subst walk.simps) simp

lemma walk_return:
  "ws_current s = Some i \<Longrightarrow> walk_step W w opts s i = Return r \<Longrightarrow> walk W w opts s = Some r"
  by (subst walk.simps) simp

lemma walk_end: "ws_current s = None \<Longrightarrow> \<exists>r. walk W w opts s = Some r"
  by (subst walk.simps) simp

text \<open>The successors the walk may move to from a node.\<close>

definition runtime_edges :: "workflow \<Rightarrow> (string \<times> string) set" where
  "runtime_edges w = {(i, j). \<exists>nd. registry_get (w_registry w) i = Some nd \<and>
     (case as_router nd of
        None \<Rightarrow> next_after (w_schema w) i = Some j
      | Some r \<Rightarrow> \<exists>c. r c = Some j)}"

lemma walk_step_successor:
  assumes "walk_step W w opts s i = Continue s'" and "ws_current s' = Some j"
  shows "(i, j) \<in> runtime_edges w"
  using assms(1)
proof (rule walk_step_Continue)
  fix nd
  assume "registry_get (w_registry w) i = Some nd"
    and "case node_context W (ws_tick s) nd (ws_ctx s) of (c, failed, snaps) \<Rightarrow>
       if failed then s' = s\<lparr>ws_snaps := ws_snaps s @ snaps, ws_ctx := c, ws_current := None,
         ws_tick := Suc (ws_tick s)\<rparr>
       else after_dispatch W w (s\<lparr>ws_snaps := ws_snaps s @ snaps\<rparr>) i nd c = Continue s'"
  with assms(2) show ?thesis
    by (auto simp: runtime_edges_def after_dispatch_def Let_def dispatch_route_def
        split: prod.splits if_splits option.splits)
qed

lemma walk_terminates_wf:
  assumes "wf ((runtime_edges w)\<inverse>)"
  shows "\<exists>r. walk W w opts s = Some r"
proof (cases "ws_current s")
  case None
  then show ?thesis by (rule walk_end)
next
  case (Some i)
  from assms Some show ?thesis
  proof (induction i arbitrary: s rule: wf_induct_rule)
    case (less i)
    show ?case
    proof (cases "walk_step W w opts s i")
      case (Return r)
      with less(2) show ?thesis by (simp add: walk_return)
    next
      case (Continue s')
      then have "\<exists>r. walk W w opts s' = Some r"
        using walk_end less(1) walk_step_successor by (cases "ws_current s'") blast+
      with less(2) Continue show ?thesis by (simp add: walk_continue)
    qed
  qed
qed

lemma finite_fixed_edges: "finite (fixed_edges R S)"
proof (rule finite_subset)
  show "fixed_edges R S \<subseteq> hkeys (schema_nodes S) \<times> all_connections S"
  proof clarify
    fix i j
    assume "(i, j) \<in> fixed_edges R S"
    then have j: "j \<in> set (declared_connections S i)" by (simp add: fixed_edges_def)
    then have "map_of (schema_nodes S) i \<noteq> None"
      by (cases "map_of (schema_nodes S) i") (simp_all add: declared_connections_def)
    with j show "i \<in> hkeys (schema_nodes S) \<and> j \<in> all_connections S"
      using declared_connections_subset [of S i] by (auto simp: hkeys_conv_dom)
  qed
qed simp

lemma next_after_declared: "next_after S i = Some j \<Longrightarrow> j \<in> set (declared_connections S i)"
  using next_after_connection [of S i j] by (auto simp: declared_connections_def)

lemma router_free_runtime_edges:
  assumes "\<forall>i. \<not> is_router (w_registry w) i"
  shows "runtime_edges w \<subseteq> fixed_edges (w_registry w) (w_schema w)"
  using assms
  by (auto simp: runtime_edges_def fixed_edges_def is_router_def next_after_declared
      split: option.splits)

lemma validated_acyclic: "validate R S = Some (Inr ()) \<Longrightarrow> acyclic (fixed_edges R S)"
  using check_cycles_result [of R S] by (auto simp: validate_def split: sum.splits)

text \<open>
  C2. A validated workflow without routers always finishes: whatever its nodes do, and whatever
  cancellation, budget and pause settings it runs under, the walk ends and returns a result.
\<close>

theorem validated_run_terminates:
  assumes "validate (w_registry w) (w_schema w) = Some (Inr ())"
    and "\<forall>i. \<not> is_router (w_registry w) i"
  shows "\<exists>r. run_with W w ev opts = Some r"
proof -
  have "wf ((fixed_edges (w_registry w) (w_schema w))\<inverse>)"
    using finite_fixed_edges validated_acyclic [OF assms(1)] by (rule finite_acyclic_wf_converse)
  then have "wf ((runtime_edges w)\<inverse>)"
    by (rule wf_subset) (use router_free_runtime_edges [OF assms(2)] in blast)
  then show ?thesis unfolding run_with_def walk_from_def by (rule walk_terminates_wf)
qed

text \<open>The tokens the run loop folds into the ledger for a dispatch that left the context \<open>c\<close>.\<close>

definition dispatch_tokens :: "task_context \<Rightarrow> string \<Rightarrow> nat" where
  "dispatch_tokens c i = (case map_of (node_runs c) i of
     Some nr \<Rightarrow> unat (spend_tokens (nr_usage nr, node_cost_usd c i, node_cache_tokens c i))
   | None \<Rightarrow> 0)"

lemma node_context_ok:
  assumes "node_context W t nd c = (c', False, snaps)"
  obtains ok where "process nd t (stamp_running W t (node_name nd) c) = Inr ok"
    "dispatch_tokens c' (node_name nd) = dispatch_tokens ok (node_name nd)"
  using assms
  by (auto simp: node_context_def success_context_def Let_def dispatch_tokens_def node_cost_usd_def
      node_cache_tokens_def spend_tokens_def split: sum.splits option.splits)

lemma after_dispatch_tokens:
  assumes "after_dispatch W w s i nd c = Continue s'"
    and "unat (bl_total_tokens (ws_ledger s)) + dispatch_tokens c i < 2 ^ 64"
  shows "unat (bl_total_tokens (ws_ledger s')) =
    unat (bl_total_tokens (ws_ledger s)) + dispatch_tokens c i"
proof (cases "map_of (node_runs c) i")
  case None
  with assms show ?thesis
    by (auto simp: after_dispatch_def Let_def dispatch_tokens_def split: if_splits)
next
  case (Some nr)
  let ?sp = "(nr_usage nr, node_cost_usd c i, node_cache_tokens c i)"
  have "ws_ledger s' = record_spend ?sp (ws_ledger s)"
    using assms(1) Some by (auto simp: after_dispatch_def Let_def record_spend_def split: if_splits)
  moreover have "dispatch_tokens c i = unat (spend_tokens ?sp)"
    using Some by (simp add: dispatch_tokens_def)
  ultimately show ?thesis
    using assms(2) by (simp add: run_ledger.tokens_fold_in unat_add_no_wrap)
qed

lemma budgeted_step:
  assumes "ro_budget opts = Some b" and "max_total_tokens b = Some limit"
    and "wf_registry (w_registry w)" and "unat limit + m < 2 ^ 64"
    and spend: "\<forall>j nd t c ok. registry_get (w_registry w) j = Some nd \<and> process nd t c = Inr ok \<longrightarrow>
       dispatch_tokens ok j \<in> {1..m}"
    and step: "walk_step W w opts s i = Continue s'" and next_node: "ws_current s' \<noteq> None"
  shows "unat (bl_total_tokens (ws_ledger s)) < unat (bl_total_tokens (ws_ledger s')) \<and>
    unat (bl_total_tokens (ws_ledger s)) < unat limit"
  using step
proof (rule walk_step_Continue)
  fix nd
  assume nd: "registry_get (w_registry w) i = Some nd"
    and allow: "ledger_check (ws_ledger s) (ro_budget opts) = Allow"
    and out: "case node_context W (ws_tick s) nd (ws_ctx s) of (c, failed, snaps) \<Rightarrow>
       if failed then s' = s\<lparr>ws_snaps := ws_snaps s @ snaps, ws_ctx := c, ws_current := None,
         ws_tick := Suc (ws_tick s)\<rparr>
       else after_dispatch W w (s\<lparr>ws_snaps := ws_snaps s @ snaps\<rparr>) i nd c = Continue s'"
  have name: "node_name nd = i" using assms(3) nd by (rule wf_registry_get)
  have lim: "unat (bl_total_tokens (ws_ledger s)) < unat limit"
    using allow assms(1,2) by (simp add: ledger_check_def evaluate_budget_Allow_iff word_less_nat_alt)
  obtain c snaps where c: "node_context W (ws_tick s) nd (ws_ctx s) = (c, False, snaps)"
      "after_dispatch W w (s\<lparr>ws_snaps := ws_snaps s @ snaps\<rparr>) i nd c = Continue s'"
    using out next_node by (auto split: prod.splits if_splits)
  from c(1) obtain ok where "process nd (ws_tick s) (stamp_running W (ws_tick s) (node_name nd) (ws_ctx s)) = Inr ok"
      "dispatch_tokens c (node_name nd) = dispatch_tokens ok (node_name nd)"
    by (rule node_context_ok)
  with spend nd name have d: "dispatch_tokens c i \<in> {1..m}" by fastforce
  then have "unat (bl_total_tokens (ws_ledger s')) =
      unat (bl_total_tokens (ws_ledger s)) + dispatch_tokens c i"
    using after_dispatch_tokens [OF c(2)] lim assms(4) by simp
  with d lim show ?thesis by simp
qed

text \<open>
  C11. A token cap bounds every retry loop: if each successful dispatch reports at least one token and
  no single dispatch can overflow the counter, a run under a \<open>max_total_tokens\<close> budget always ends,
  whatever cycles its routers take.
\<close>

theorem token_budget_terminates:
  assumes "ro_budget opts = Some b" and "max_total_tokens b = Some limit"
    and "wf_registry (w_registry w)" and "unat limit + m < 2 ^ 64"
    and "\<forall>j nd t c ok. registry_get (w_registry w) j = Some nd \<and> process nd t c = Inr ok \<longrightarrow>
       dispatch_tokens ok j \<in> {1..m}"
  shows "\<exists>r. run_with W w ev opts = Some r"
proof -
  have "\<exists>r. walk W w opts s = Some r" for s
  proof (induction "unat limit - unat (bl_total_tokens (ws_ledger s))" arbitrary: s rule: less_induct)
    case less
    show ?case
    proof (cases "ws_current s")
      case None
      then show ?thesis by (rule walk_end)
    next
      case (Some i)
      show ?thesis
      proof (cases "walk_step W w opts s i")
        case (Return r)
        with Some show ?thesis by (simp add: walk_return)
      next
        case (Continue s')
        have "\<exists>r. walk W w opts s' = Some r"
        proof (cases "ws_current s'")
          case None
          then show ?thesis by (rule walk_end)
        next
          case (Some j)
          with budgeted_step [OF assms Continue] show ?thesis by (intro less) auto
        qed
        with Some Continue show ?thesis by (simp add: walk_continue)
      qed
    qed
  qed
  then show ?thesis unfolding run_with_def walk_from_def .
qed


subsection \<open>Concrete runs\<close>

definition sample_world :: world where
  "sample_world = \<lparr>formats = sample_ext, clock = (\<lambda>t k. 0), fresh_uuid = of_nat\<rparr>"

definition chain_workflow :: workflow where
  "chain_workflow = workflow_new
     (register (sample_node ''b'' False) (register (sample_node ''a'' False) registry_new))
     (sample_schema [(''a'', [''b'']), (''b'', [])])"

lemma chain_validates: "validate (w_registry chain_workflow) (w_schema chain_workflow) = Some (Inr ())"
  by code_simp

theorem validated_run_terminates_witness:
  "\<exists>r. run_with sample_world chain_workflow JNull run_options_default = Some r"
proof (rule validated_run_terminates [OF chain_validates])
  show "\<forall>i. \<not> is_router (w_registry chain_workflow) i"
    by (simp add: is_router_def chain_workflow_def workflow_new_def sample_node_def registry_new_def
        registry_get_def register_def)
qed

text \<open>A router that sends the walk back to itself for ever, spending one token per dispatch.\<close>

definition spin_node :: node where
  "spin_node = \<lparr>node_name = ''a'',
     process = (\<lambda>t c. Inr (c\<lparr>node_runs := AList.update ''a''
       (sample_run (Some \<lparr>input_tokens = Some 1, output_tokens = None, model = ''m''\<rparr>)) (node_runs c),
       nodes := []\<rparr>)),
     as_router = Some (\<lambda>_. Some ''a''), agent = None\<rparr>"

definition spin_workflow :: workflow where
  "spin_workflow = workflow_new (register spin_node registry_new) (sample_schema [(''a'', [])])"

theorem token_budget_terminates_witness:
  "\<exists>r. run_with sample_world spin_workflow JNull (run_options_default
     \<lparr>ro_budget := Some \<lparr>max_total_tokens = Some 1000, max_cost_usd = None\<rparr>\<rparr>) = Some r"
proof (rule token_budget_terminates [where limit = 1000 and m = 1
      and b = "\<lparr>max_total_tokens = Some 1000, max_cost_usd = None\<rparr>"])
  show "wf_registry (w_registry spin_workflow)"
    by (simp add: spin_workflow_def workflow_new_def wf_registry_new wf_registry_register)
  show "\<forall>j nd t c ok. registry_get (w_registry spin_workflow) j = Some nd \<and> process nd t c = Inr ok \<longrightarrow>
       dispatch_tokens ok j \<in> {1..1}"
    by (auto simp: spin_workflow_def workflow_new_def registry_get_def register_def registry_new_def
        spin_node_def dispatch_tokens_def sample_run_def spend_tokens_def usage_tokens_def
        node_cache_tokens_def split: if_splits)
qed simp_all

end
