(* ===== verification/RunLaws.thy ===== *)
theory RunLaws
  imports Runner
begin

text \<open>
  What a run promises its callers: the order of the gates at a node boundary, what a failed node
  leaves behind, where a suspended run resumes, the numbering of the dispatch ledger and the first
  snapshot.
\<close>

subsection \<open>The seeded context\<close>

lemma seeded_runs:
  "map_of (node_runs (seed_context w ev)) i =
     (if i \<in> hkeys (schema_nodes (w_schema w)) then Some pending_run else None)"
proof -
  have "map_of (foldl (\<lambda>m i. AList.update i pending_run m) m ks) i =
      (if i \<in> set ks then Some pending_run else map_of m i)" for m ks
    by (induction ks arbitrary: m) auto
  then show ?thesis by (simp add: seed_context_def)
qed

subsection \<open>Running pass-through nodes\<close>

lemma walk_ended:
  "ws_current s = None \<Longrightarrow> walk W w opts s =
     Some (Inr (stamp_run_telemetry (clock W (ws_tick s) 9) (start_node (w_schema w)) (ws_ctx s)), ws_snaps s)"
  by (subst walk.simps) simp

text \<open>A node that only hands the context on moves the walk to its declared successor.\<close>

lemma idle_step:
  assumes "registry_get (w_registry w) i = Some (sample_node i False)"
    and "\<not> suspension_requested (metadata (ws_ctx s))"
  shows "\<exists>s'. walk_step W w run_options_default s i = Continue s' \<and>
    ws_current s' = next_after (w_schema w) i \<and> \<not> suspension_requested (metadata (ws_ctx s'))"
  using assms
  by (simp add: walk_step_def flag_raised_def run_options_default_def ledger_check_def Let_def
      node_context_def sample_node_def after_dispatch_def success_context_def suspension_requested_def
      flag_at_def invocation_rows.append_other)

lemma chain_keeps_rows: "registry_keeps_rows sample_world chain_workflow"
proof -
  have "wf_registry (w_registry chain_workflow)"
    by (simp add: chain_workflow_def workflow_new_def wf_registry_register wf_registry_new)
  moreover have "keeps_rows sample_world nd" if "registry_get (w_registry chain_workflow) i = Some nd" for i nd
    using that
    by (auto simp: chain_workflow_def workflow_new_def keeps_rows_def sample_node_def
        registry_get_def registry_new_def register_def split: if_splits)
  ultimately show ?thesis by (simp add: registry_keeps_rows_def sample_world_def sample_ext_ok)
qed

lemma chain_run:
  "\<exists>c snaps. run_with sample_world chain_workflow JNull run_options_default = Some (Inr c, snaps) \<and>
     length (rows_of sample_world c) = 2"
proof -
  let ?s = "\<lparr>ws_ctx = seed_context chain_workflow JNull, ws_current = Some ''a'',
    ws_ledger = budget_ledger_new, ws_tick = 0, ws_snaps = [seed_context chain_workflow JNull]\<rparr>"
  have nodes: "registry_get (w_registry chain_workflow) ''a'' = Some (sample_node ''a'' False)"
      "registry_get (w_registry chain_workflow) ''b'' = Some (sample_node ''b'' False)"
      "next_after (w_schema chain_workflow) ''a'' = Some ''b''"
      "next_after (w_schema chain_workflow) ''b'' = None"
    by (simp_all add: chain_workflow_def workflow_new_def sample_node_def sample_schema_def
        next_after_def node_config_next_def)
  have "\<not> suspension_requested (metadata (ws_ctx ?s))" "rows_of sample_world (ws_ctx ?s) = []"
    by (simp_all add: seed_context_def suspension_requested_def flag_at_def read_invocations_def
        rows_at_def)
  moreover from this(1) idle_step [OF nodes(1), of ?s sample_world] nodes(3) obtain s1
    where s1: "walk_step sample_world chain_workflow run_options_default ?s ''a'' = Continue s1"
      "ws_current s1 = Some ''b''" "\<not> suspension_requested (metadata (ws_ctx s1))" by auto
  moreover from idle_step [OF nodes(2) s1(3), of sample_world] nodes(4) obtain s2
    where s2: "walk_step sample_world chain_workflow run_options_default s1 ''b'' = Continue s2"
      "ws_current s2 = None" by auto
  ultimately have "length (rows_of sample_world (ws_ctx s2)) = 2"
    using step_row [OF chain_keeps_rows s1(1)] step_row [OF chain_keeps_rows s2(1)] by auto
  moreover have "run_with sample_world chain_workflow JNull run_options_default =
      walk sample_world chain_workflow run_options_default ?s"
    by (simp add: run_with_def walk_from_def stamp_options_run_id_def run_options_default_def)
      (simp add: chain_workflow_def workflow_new_def sample_schema_def)
  ultimately show ?thesis
    using s1 s2 by (simp add: walk_continue [of _ "''a''"] walk_continue [of _ "''b''"] walk_ended)
qed

subsection \<open>Gates\<close>

lemma walk_stop_result:
  "ws_current s = Some i \<Longrightarrow> walk_step W w opts s i = halt_with W w s c \<Longrightarrow>
     walk W w opts s = Some (Inr (stamp_run_telemetry (clock W (ws_tick s) 9) (start_node (w_schema w)) c),
       ws_snaps s @ [stamp_run_telemetry (clock W (ws_tick s) 9) (start_node (w_schema w)) c])"
  by (rule walk_return) (simp_all add: halt_with_def Let_def)

text \<open>
  C12. Cancellation comes first: when the token is cancelled at a node boundary the run ends there as
  \<open>Ok\<close>, with the cancelled marker and the terminal status \<open>cancelled\<close>, whatever the budget and pause
  flags say. No node runs: outputs, node runs and the dispatch ledger are those of the boundary, and
  the last snapshot is the returned context.
\<close>

theorem cancellation_dominates:
  assumes "ws_current s = Some i" and "flag_raised (ro_cancelled opts) (ws_tick s)"
  shows "\<exists>c. walk W w opts s = Some (Inr c, ws_snaps s @ [c]) \<and>
    derive_terminal_status c = ''cancelled'' \<and>
    event c = event (ws_ctx s) \<and> nodes c = nodes (ws_ctx s) \<and> node_runs c = node_runs (ws_ctx s) \<and>
    rows_of W c = rows_of W (ws_ctx s)"
proof -
  have "walk_step W w opts s i = halt_with W w s ((ws_ctx s)\<lparr>metadata :=
      stamp_cancelled (formats W) (clock W (ws_tick s) 7) (metadata (ws_ctx s))\<rparr>)"
    using assms(2) by (simp add: walk_step_def Let_def)
  from walk_stop_result [OF assms(1) this] show ?thesis
    by (simp add: derive_terminal_status_def stamp_cancelled_def flag_at_stamp_same
        invocation_rows.read_stamp_other)
qed

definition sample_walk :: "budget_ledger \<Rightarrow> walk_state" where
  "sample_walk L = \<lparr>ws_ctx = seed_context chain_workflow JNull, ws_current = Some ''a'', ws_ledger = L,
     ws_tick = 0, ws_snaps = []\<rparr>"

theorem cancellation_dominates_witness:
  "\<exists>c. walk sample_world chain_workflow (run_options_default
       \<lparr>ro_cancelled := Some (\<lambda>t. True), ro_paused := Some (\<lambda>t. True)\<rparr>) (sample_walk budget_ledger_new) =
     Some (Inr c, [c]) \<and> derive_terminal_status c = ''cancelled''"
  using cancellation_dominates [of "sample_walk budget_ledger_new" "''a''" "run_options_default
      \<lparr>ro_cancelled := Some (\<lambda>t. True), ro_paused := Some (\<lambda>t. True)\<rparr>" sample_world chain_workflow]
  by (auto simp: sample_walk_def flag_raised_def)

text \<open>
  C13. The budget gate comes before the pause gate and before any dispatch: when the ledger is over a
  cap the run ends as \<open>Ok\<close> at that boundary with the halt reason in its metadata, even when it is
  paused at the same time, and nothing is dispatched.
\<close>

theorem budget_halts_before_dispatch:
  assumes "ws_current s = Some i" and "\<not> flag_raised (ro_cancelled opts) (ws_tick s)"
    and "ledger_check (ws_ledger s) (ro_budget opts) = Halt r"
    and "\<not> flag_at (metadata (ws_ctx s)) ''cancellation'' ''cancelled''"
  shows "\<exists>c. walk W w opts s = Some (Inr c, ws_snaps s @ [c]) \<and>
    derive_terminal_status c = ''budget_halted'' \<and>
    Option.bind (json_get (metadata c) ''budget'') (\<lambda>b. json_get b ''reason'') =
      Some (halt_reason_to_json r) \<and>
    read_suspension (metadata c) = read_suspension (metadata (ws_ctx s)) \<and>
    nodes c = nodes (ws_ctx s) \<and> node_runs c = node_runs (ws_ctx s) \<and>
    rows_of W c = rows_of W (ws_ctx s)"
proof -
  have "walk_step W w opts s i = halt_with W w s ((ws_ctx s)\<lparr>metadata :=
      stamp_budget_halt r (metadata (ws_ctx s))\<rparr>)"
    using assms(2,3) by (simp add: walk_step_def Let_def)
  from walk_stop_result [OF assms(1) this] assms(4) show ?thesis
    by (simp add: derive_terminal_status_def stamp_budget_halt_def flag_at_stamp_same
        invocation_rows.read_stamp_other)
qed

theorem budget_halts_before_dispatch_witness:
  "\<exists>c. walk sample_world chain_workflow (run_options_default
       \<lparr>ro_budget := Some \<lparr>max_total_tokens = Some 5, max_cost_usd = None\<rparr>,
        ro_paused := Some (\<lambda>t. True)\<rparr>) (sample_walk (from_parts 5 f64_zero)) =
     Some (Inr c, [c]) \<and> derive_terminal_status c = ''budget_halted''"
  using budget_halts_before_dispatch [of "sample_walk (from_parts 5 f64_zero)" "''a''"
      "run_options_default \<lparr>ro_budget := Some \<lparr>max_total_tokens = Some 5, max_cost_usd = None\<rparr>,
        ro_paused := Some (\<lambda>t. True)\<rparr>" "TotalTokens 5 5" sample_world chain_workflow]
  by (auto simp: sample_walk_def flag_raised_def run_options_default_def ledger_check_def
      from_parts_def evaluate_budget_def seed_context_def flag_at_def)

subsection \<open>Suspension and resumption\<close>

lemma seed_missing_known:
  assumes "hkeys (schema_nodes (w_schema w)) \<subseteq> hkeys (node_runs c)"
  shows "seed_missing_pending w c = c"
proof -
  have "foldl (\<lambda>m i. hm_or_insert i pending_run m) m ks = m" if "set ks \<subseteq> hkeys m" for m ks
    using that by (induction ks) (auto simp: hm_or_insert_def hkeys_conv_dom split: option.splits)
  with assms show ?thesis by (simp add: seed_missing_pending_def)
qed

lemma resumed_walk:
  assumes "read_suspension (metadata c) = Some st" and "ro_run_id opts = None"
    and "hkeys (schema_nodes (w_schema w)) \<subseteq> hkeys (node_runs c)"
  shows "\<exists>m. run_from W w \<lparr>rs_ctx = c, rs_at_identity = i, rs_ledger = L\<rparr> opts =
      Some (walk_from W w opts (c\<lparr>metadata := m\<rparr>) (Some i) L) \<and>
    read_suspension m = Some (st\<lparr>ss_suspended := False, ss_requested := False,
      ss_resume_count := ss_resume_count st + 1\<rparr>)"
proof -
  obtain m where "stamp_resumed (metadata c) = Some m"
    "read_suspension m = Some (st\<lparr>ss_suspended := False, ss_requested := False,
      ss_resume_count := ss_resume_count st + 1\<rparr>)"
    using read_stamp_resumed [OF assms(1)] by blast
  with assms(2) seed_missing_known [OF assms(3)] show ?thesis
    by (intro exI [of _ m]) (simp add: run_from_def Let_def stamp_options_run_id_def)
qed

text \<open>
  C4. Pausing and resuming loses nothing: a run paused at a boundary returns with a marker from which
  the resume handler gets back the node that was about to run and the exact spend; resuming there
  walks on from that node, with the outputs, the node runs and the spend the run had, no longer
  suspended, and with the resume counted.
\<close>

theorem pause_resume:
  assumes "ws_current s = Some i" and "\<not> flag_raised (ro_cancelled opts) (ws_tick s)"
    and "ledger_check (ws_ledger s) (ro_budget opts) = Allow"
    and "flag_raised (ro_paused opts) (ws_tick s)"
    and "f64_is_finite (bl_total_cost_usd (ws_ledger s))"
    and "hkeys (schema_nodes (w_schema w)) \<subseteq> hkeys (node_runs (ws_ctx s))"
    and "ro_run_id opts' = None"
  shows "\<exists>c st snap m. walk W w opts s = Some (Inr c, ws_snaps s @ [c]) \<and>
    read_suspension (metadata c) = Some st \<and> ss_resume_at st = Some i \<and>
    ss_reason st = Some OperatorPause \<and> ss_ledger st = Some snap \<and>
    run_from W' w \<lparr>rs_ctx = c, rs_at_identity = the (ss_resume_at st),
        rs_ledger = from_parts (ls_total_tokens snap) (ls_total_cost_usd snap)\<rparr> opts' =
      Some (walk_from W' w opts' ((ws_ctx s)\<lparr>metadata := m\<rparr>) (Some i)
        ((ws_ledger s)\<lparr>bl_has_unknown_cost_node := False\<rparr>)) \<and>
    \<not> is_suspended m \<and>
    existing_resume_count m = existing_resume_count (metadata (ws_ctx s)) + 1"
proof -
  let ?c = "stamp_run_telemetry (clock W (ws_tick s) 9) (start_node (w_schema w))
    (finish_suspended W (clock W (ws_tick s) 7) (Some i) OperatorPause None (ws_ledger s) (ws_ctx s))"
  have "walk_step W w opts s i = halt_with W w s
      (finish_suspended W (clock W (ws_tick s) 7) (Some i) OperatorPause None (ws_ledger s) (ws_ctx s))"
    using assms(2-4) by (simp add: walk_step_def Let_def)
  note walk = walk_stop_result [OF assms(1) this]
  obtain st where st: "read_suspension (metadata ?c) = Some st" "ss_resume_at st = Some i"
      "ss_reason st = Some OperatorPause"
      "ss_ledger st = Some \<lparr>ls_total_tokens = bl_total_tokens (ws_ledger s),
         ls_total_cost_usd = bl_total_cost_usd (ws_ledger s)\<rparr>"
      "ss_resume_count st = existing_resume_count (metadata (ws_ctx s))"
    using assms(5) by (simp add: finish_suspended_def read_stamp_suspended)
  have c: "?c\<lparr>metadata := m\<rparr> = (ws_ctx s)\<lparr>metadata := m\<rparr>" for m
    by (simp add: stamp_run_telemetry_def finish_suspended_def Let_def)
  have "hkeys (schema_nodes (w_schema w)) \<subseteq> hkeys (node_runs ?c)"
    using assms(6) by (simp add: finish_suspended_def)
  from resumed_walk [OF st(1) assms(7) this, of W' i
      "(ws_ledger s)\<lparr>bl_has_unknown_cost_node := False\<rparr>"]
  obtain m where m: "run_from W' w \<lparr>rs_ctx = ?c, rs_at_identity = i,
        rs_ledger = (ws_ledger s)\<lparr>bl_has_unknown_cost_node := False\<rparr>\<rparr> opts' =
      Some (walk_from W' w opts' ((ws_ctx s)\<lparr>metadata := m\<rparr>) (Some i)
        ((ws_ledger s)\<lparr>bl_has_unknown_cost_node := False\<rparr>))"
      "read_suspension m = Some (st\<lparr>ss_suspended := False, ss_requested := False,
        ss_resume_count := ss_resume_count st + 1\<rparr>)"
    unfolding c by blast
  have led: "from_parts (bl_total_tokens (ws_ledger s)) (bl_total_cost_usd (ws_ledger s)) =
      (ws_ledger s)\<lparr>bl_has_unknown_cost_node := False\<rparr>"
    by (simp add: from_parts_def)
  have "\<not> is_suspended m" "existing_resume_count m = existing_resume_count (metadata (ws_ctx s)) + 1"
    using m(2) st(5) by (simp_all add: is_suspended_def existing_resume_count_def)
  with walk st m led show ?thesis
    by (intro exI [of _ ?c] exI [of _ st] exI [of _ m] exI
        [of _ "\<lparr>ls_total_tokens = bl_total_tokens (ws_ledger s),
          ls_total_cost_usd = bl_total_cost_usd (ws_ledger s)\<rparr>"]) simp
qed

theorem pause_resume_witness:
  "\<exists>c st. walk sample_world chain_workflow (run_options_default\<lparr>ro_paused := Some (\<lambda>t. True)\<rparr>)
       (sample_walk (from_parts 5 f64_zero)) = Some (Inr c, [c]) \<and>
     read_suspension (metadata c) = Some st \<and> ss_resume_at st = Some ''a''"
proof -
  have keys: "hkeys (schema_nodes (w_schema chain_workflow)) \<subseteq>
      hkeys (node_runs (ws_ctx (sample_walk (from_parts 5 f64_zero))))"
    by (simp add: sample_walk_def hkeys_conv_dom [of "node_runs _"] seeded_runs subset_iff domIff)
  show ?thesis
    using pause_resume [OF _ _ _ _ _ keys, of "''a''" "run_options_default\<lparr>ro_paused := Some (\<lambda>t. True)\<rparr>"
        run_options_default sample_world sample_world]
    by (simp add: sample_walk_def flag_raised_def run_options_default_def ledger_check_def
        from_parts_def f64_is_finite_def) blast
qed

text \<open>
  A node that asks for suspension is not run again: after such a node succeeds, the run suspends
  with the node's successor as the resume point, the node as the origin, the requested reason and
  the node's own spend already in the ledger; and when there is no successor the run completes
  instead of suspending.
\<close>

theorem suspend_node_resumes_after:
  assumes "as_router nd = None" and "suspension_requested (metadata c)"
    and "f64_is_finite (bl_total_cost_usd ledger)" and "map_of (node_runs c) i = Some nr"
    and "ledger = ledger_record (nr_usage nr) (node_cost_usd c i) (node_cache_tokens c i) (ws_ledger s)"
  shows "case next_after (w_schema w) i of
      Some j \<Rightarrow> (\<exists>c' st. after_dispatch W w s i nd c = Return (Inr c', ws_snaps s @ [c']) \<and>
        read_suspension (metadata c') = Some st \<and> ss_suspended st \<and> \<not> ss_requested st \<and>
        ss_resume_at st = Some j \<and> ss_origin_identity st = Some i \<and>
        ss_reason st = Some (requested_reason (metadata c)) \<and>
        ss_ledger st = Some \<lparr>ls_total_tokens = bl_total_tokens ledger,
          ls_total_cost_usd = bl_total_cost_usd ledger\<rparr> \<and>
        nodes c' = nodes c \<and> node_runs c' = node_runs c)
    | None \<Rightarrow> (\<exists>s'. after_dispatch W w s i nd c = Continue s' \<and> ws_current s' = None \<and>
        ws_ctx s' = c)"
  using assms
  by (auto simp: after_dispatch_def halt_with_def finish_suspended_def read_stamp_suspended Let_def
      split: option.splits)


theorem suspend_node_resumes_after_witness:
  "\<exists>c' st. after_dispatch sample_world chain_workflow (sample_walk budget_ledger_new) ''a''
       (sample_node ''a'' False)
       ((seed_context chain_workflow JNull)\<lparr>metadata := JObj [(''suspension'', fresh_request JNull)]\<rparr>) =
     Return (Inr c', [c']) \<and> read_suspension (metadata c') = Some st \<and> ss_resume_at st = Some ''b'' \<and>
     ss_origin_identity st = Some ''a''"
proof -
  let ?c = "(seed_context chain_workflow JNull)\<lparr>metadata := JObj [(''suspension'', fresh_request JNull)]\<rparr>"
  have run: "map_of (node_runs ?c) ''a'' = Some pending_run"
    by (simp add: seeded_runs) (simp add: chain_workflow_def workflow_new_def sample_schema_def)
  have nxt: "next_after (w_schema chain_workflow) ''a'' = Some ''b''" by code_simp
  have "node_cost_usd ?c ''a'' = None" "node_cache_tokens ?c ''a'' = None"
    by (simp_all add: node_cost_usd_def node_cache_tokens_def seed_context_def chain_workflow_def
        workflow_new_def)
  then show ?thesis
    using suspend_node_resumes_after [OF _ _ _ run refl, of "sample_node ''a'' False"
        "sample_walk budget_ledger_new" sample_world chain_workflow] nxt
    by (auto simp: sample_node_def suspension_requested_def flag_at_def fresh_request_def
        ledger_record_def pending_run_def sample_walk_def budget_ledger_new_def f64_is_finite_def)
qed

subsection \<open>Failure\<close>

lemma sessions_append_invocation [simp]:
  "read_sessions (append_invocation X r m) = read_sessions m"
  by (rule session_rows.read_cong) (simp add: invocation_rows.append_other)

lemma failure_context_parts:
  "event (failure_context W t i (stamp_running W t i c) err) = event c"
  "nodes (failure_context W t i (stamp_running W t i c) err) =
     (case ne_node_result err of Some v \<Rightarrow> AList.update i v (nodes c) | None \<Rightarrow> nodes c)"
  "j \<noteq> i \<Longrightarrow> map_of (node_runs (failure_context W t i (stamp_running W t i c) err)) j =
     map_of (node_runs c) j"
  "read_sessions (metadata (failure_context W t i (stamp_running W t i c) err)) =
     read_sessions (metadata c) @ filter (\<lambda>x. f64_is_finite (cs_cost_usd x)) (ne_sessions err)"
  by (auto simp: failure_context_def stamp_running_def Let_def session_rows.read_fold_append
      session_back map_filter_if split: option.splits)

lemma failure_context_run:
  "\<exists>nr. map_of (node_runs (failure_context W t i (stamp_running W t i c) err)) i = Some nr \<and>
     nr_status nr = Failed \<and> nr_error nr = Some (ne_message err)"
  by (auto simp: failure_context_def stamp_running_def Let_def split: option.splits)

lemma failure_context_row:
  assumes "ext_ok (formats W)"
  shows "\<exists>r. rows_of W (failure_context W t i (stamp_running W t i c) err) = rows_of W c @ [r] \<and>
    ni_node r = i \<and> ni_status r = InvFailed \<and> ni_error r = Some (ne_message err)"
  by (auto simp: failure_context_def Let_def append_invocation_read [OF assms] split: option.splits)

text \<open>What the walk returns when a node fails.\<close>

lemma failed_dispatch:
  assumes "ws_current s = Some i" and "\<not> flag_raised (ro_cancelled opts) (ws_tick s)"
    and "ledger_check (ws_ledger s) (ro_budget opts) = Allow"
    and "\<not> flag_raised (ro_paused opts) (ws_tick s)"
    and "registry_get (w_registry w) i = Some nd" and "node_name nd = i"
    and "process nd (ws_tick s) (stamp_running W (ws_tick s) i (ws_ctx s)) = Inl err"
  shows "walk W w opts s =
    (let pre = stamp_running W (ws_tick s) i (ws_ctx s);
         c = failure_context W (ws_tick s) i pre err
     in Some (Inr (stamp_run_telemetry (clock W (Suc (ws_tick s)) 9) (start_node (w_schema w)) c),
          ws_snaps s @ [pre, c]))"
proof -
  let ?pre = "stamp_running W (ws_tick s) i (ws_ctx s)"
  let ?c = "failure_context W (ws_tick s) i ?pre err"
  have "node_context W (ws_tick s) nd (ws_ctx s) = (?c, True, [?pre, ?c])"
    using assms(6,7) by (simp add: node_context_def Let_def)
  then have "walk_step W w opts s i = Continue (s\<lparr>ws_snaps := ws_snaps s @ [?pre, ?c], ws_ctx := ?c,
      ws_current := None, ws_tick := Suc (ws_tick s)\<rparr>)"
    using assms(2-5) by (simp add: walk_step_def Let_def)
  then show ?thesis
    using walk_continue [OF assms(1)] by (simp add: walk_ended Let_def)
qed

text \<open>
  C3. A failing node leaves nothing half-done: the run ends as \<open>Ok\<close> with the context from before the
  call, in which only the following changed. The node's run is \<open>Failed\<close> with its message; its
  structured result, if it carried one out on the error, is its output; the model calls it billed
  are appended to the session ledger; and one \<open>Failed\<close> row is appended to the dispatch ledger. No
  other node's output or run is touched and no further node is dispatched.
\<close>

theorem failed_node_reverts:
  assumes "ws_current s = Some i" and "\<not> flag_raised (ro_cancelled opts) (ws_tick s)"
    and "ledger_check (ws_ledger s) (ro_budget opts) = Allow"
    and "\<not> flag_raised (ro_paused opts) (ws_tick s)"
    and "registry_get (w_registry w) i = Some nd" and "wf_registry (w_registry w)"
    and "ext_ok (formats W)"
    and "process nd (ws_tick s) (stamp_running W (ws_tick s) i (ws_ctx s)) = Inl err"
  shows "\<exists>c snaps r nr. walk W w opts s = Some (Inr c, ws_snaps s @ snaps) \<and>
    event c = event (ws_ctx s) \<and>
    nodes c = (case ne_node_result err of
        Some v \<Rightarrow> AList.update i v (nodes (ws_ctx s)) | None \<Rightarrow> nodes (ws_ctx s)) \<and>
    map_of (node_runs c) i = Some nr \<and> nr_status nr = Failed \<and>
    nr_error nr = Some (ne_message err) \<and>
    (\<forall>j. j \<noteq> i \<longrightarrow> map_of (node_runs c) j = map_of (node_runs (ws_ctx s)) j) \<and>
    read_sessions (metadata c) = read_sessions (metadata (ws_ctx s)) @
      filter (\<lambda>x. f64_is_finite (cs_cost_usd x)) (ne_sessions err) \<and>
    rows_of W c = rows_of W (ws_ctx s) @ [r] \<and> ni_node r = i \<and> ni_status r = InvFailed \<and>
    ni_error r = Some (ne_message err)"
proof -
  let ?pre = "stamp_running W (ws_tick s) i (ws_ctx s)"
  let ?c = "failure_context W (ws_tick s) i ?pre err"
  have name: "node_name nd = i" using assms(6,5) by (rule wf_registry_get)
  have walk: "walk W w opts s = Some (Inr (stamp_run_telemetry (clock W (Suc (ws_tick s)) 9)
      (start_node (w_schema w)) ?c), ws_snaps s @ [?pre, ?c])"
    using failed_dispatch [OF assms(1-5) name assms(8)] by (simp add: Let_def)
  obtain nr where nr: "map_of (node_runs ?c) i = Some nr" "nr_status nr = Failed"
      "nr_error nr = Some (ne_message err)"
    using failure_context_run by blast
  obtain r where r: "rows_of W ?c = rows_of W (ws_ctx s) @ [r]" "ni_node r = i"
      "ni_status r = InvFailed" "ni_error r = Some (ne_message err)"
    using failure_context_row [OF assms(7)] by blast
  show ?thesis
    by (rule exI, rule exI, rule exI [of _ r], rule exI [of _ nr], rule conjI [OF walk])
      (simp add: failure_context_parts nr r)
qed

definition failing_node :: node where
  "failing_node = (sample_node ''a'' False)\<lparr>process := (\<lambda>t c. Inl (node_error_new ''boom''))\<rparr>"

definition failing_workflow :: workflow where
  "failing_workflow = chain_workflow\<lparr>w_registry := register failing_node registry_new\<rparr>"

theorem failed_node_reverts_witness:
  "\<exists>c snaps r nr. walk sample_world failing_workflow run_options_default (sample_walk budget_ledger_new) =
     Some (Inr c, snaps) \<and> map_of (node_runs c) ''a'' = Some nr \<and> nr_status nr = Failed \<and>
     nr_error nr = Some ''boom'' \<and> rows_of sample_world c = [r] \<and> ni_status r = InvFailed"
proof -
  have rows: "rows_of sample_world (ws_ctx (sample_walk budget_ledger_new)) = []"
    by (simp add: sample_walk_def seed_context_def read_invocations_def rows_at_def)
  have "wf_registry (w_registry failing_workflow)"
    by (simp add: failing_workflow_def wf_registry_register wf_registry_new)
  moreover have "registry_get (w_registry failing_workflow) ''a'' = Some failing_node"
    by (simp add: failing_workflow_def failing_node_def sample_node_def)
  ultimately show ?thesis
    using failed_node_reverts [of "sample_walk budget_ledger_new" "''a''" run_options_default
        failing_workflow failing_node sample_world "node_error_new ''boom''"] rows
    by (auto simp: sample_walk_def flag_raised_def run_options_default_def ledger_check_def
        sample_world_def sample_ext_ok failing_node_def node_error_new_def)
qed

subsection \<open>Audit trail\<close>

text \<open>
  C7. The dispatch ledger of a run is complete and numbered without gaps: every iteration that does
  not stop the run appends exactly one row, naming the node it dispatched and the run it belongs to,
  and the rows of the result are numbered 0, 1, 2 and so on in dispatch order. (Nodes must not
  rewrite the ledger themselves.)
\<close>

theorem dispatch_ledger_numbered:
  assumes "registry_keeps_rows W w"
  shows "(walk_step W w opts s i = Continue s' \<longrightarrow>
      (\<exists>r. rows_of W (ws_ctx s') = rows_of W (ws_ctx s) @ [r] \<and> ni_node r = i \<and>
        ni_run_id r = read_run_id (metadata (ws_ctx s)))) \<and>
    (run_with W w ev opts = Some (Inr c, snaps) \<longrightarrow>
      map ni_seq (rows_of W c) = map of_nat [0..<length (rows_of W c)])"
proof (intro conjI impI)
  assume "walk_step W w opts s i = Continue s'"
  with assms show "\<exists>r. rows_of W (ws_ctx s') = rows_of W (ws_ctx s) @ [r] \<and> ni_node r = i \<and>
      ni_run_id r = read_run_id (metadata (ws_ctx s))"
    using step_row by blast
next
  assume "run_with W w ev opts = Some (Inr c, snaps)"
  then have run: "walk W w opts \<lparr>ws_ctx = stamp_options_run_id W opts (seed_context w ev),
      ws_current = Some (start_node (w_schema w)), ws_ledger = budget_ledger_new, ws_tick = 0,
      ws_snaps = [stamp_options_run_id W opts (seed_context w ev)]\<rparr> = Some (Inr c, snaps)"
    by (simp add: run_with_def walk_from_def)
  have "rows_of W (stamp_options_run_id W opts (seed_context w ev)) = []"
    by (auto simp: stamp_options_run_id_def seed_context_def stamp_run_id_def
        invocation_rows.read_stamp_other read_invocations_def rows_at_def split: option.splits)
  then have "numbered W (stamp_options_run_id W opts (seed_context w ev))"
    by (simp add: numbered_def)
  with row_numbers.inv_result [OF run] assms obtain s'
    where "numbered W (ws_ctx s')" "walk_stops W w opts s' (Inr c, snaps)" by auto
  with stop_numbered [OF assms] show "map ni_seq (rows_of W c) = map of_nat [0..<length (rows_of W c)]"
    unfolding numbered_def by blast
qed

theorem dispatch_ledger_numbered_witness:
  "\<exists>c snaps. run_with sample_world chain_workflow JNull run_options_default = Some (Inr c, snaps) \<and>
     map ni_seq (rows_of sample_world c) = [0, 1]"
proof -
  obtain c snaps where run: "run_with sample_world chain_workflow JNull run_options_default = Some (Inr c, snaps)"
    and "length (rows_of sample_world c) = 2"
    using chain_run by blast
  with dispatch_ledger_numbered [OF chain_keeps_rows, THEN conjunct2, rule_format, OF run] show ?thesis
    by (auto simp: numeral_2_eq_2)
qed

text \<open>
  Observers see the whole plan before anything runs: the first snapshot of a run has exactly the
  declared nodes, all \<open>Pending\<close>, the seeded outputs and the triggering event, and carries the run id.
\<close>

theorem first_snapshot_is_plan:
  assumes "run_with W w ev opts = Some (r, snaps)"
  shows "\<exists>c0 rest. snaps = c0 # rest \<and> event c0 = ev \<and> nodes c0 = w_seeded_nodes w \<and>
    (\<forall>i. map_of (node_runs c0) i =
      (if i \<in> hkeys (schema_nodes (w_schema w)) then Some pending_run else None)) \<and>
    read_run_id (metadata c0) = map_option (uuid_str (formats W)) (ro_run_id opts)"
proof -
  let ?c = "stamp_options_run_id W opts (seed_context w ev)"
  from assms have "walk W w opts \<lparr>ws_ctx = ?c, ws_current = Some (start_node (w_schema w)),
      ws_ledger = budget_ledger_new, ws_tick = 0, ws_snaps = [?c]\<rparr> = Some (r, snaps)"
    by (simp add: run_with_def walk_from_def)
  from first_snapshot.inv_result [OF this, of ?c] obtain s' rest
    where s': "ws_snaps s' = ?c # rest" "walk_stops W w opts s' (r, snaps)" by auto
  then have "\<exists>rest'. snaps = ?c # rest'"
    by (auto simp: walk_stops_def walk_step_def after_dispatch_def halt_with_def Let_def
        split: option.splits if_splits budget_decision.splits prod.splits)
      metis
  moreover have "event ?c = ev" "nodes ?c = w_seeded_nodes w"
      "node_runs ?c = node_runs (seed_context w ev)"
      "read_run_id (metadata ?c) = map_option (uuid_str (formats W)) (ro_run_id opts)"
    by (auto simp: stamp_options_run_id_def seed_context_def read_run_id_def stamp_run_id_def
        split: option.splits)
  ultimately show ?thesis by (auto simp: seeded_runs)
qed


theorem first_snapshot_is_plan_witness:
  "\<exists>r c0 rest. run_with sample_world chain_workflow JNull run_options_default = Some (r, c0 # rest) \<and>
     map_of (node_runs c0) ''b'' = Some pending_run"
proof -
  obtain r snaps where run: "run_with sample_world chain_workflow JNull run_options_default = Some (r, snaps)"
    using chain_run by blast
  from first_snapshot_is_plan [OF run] obtain c0 rest where c0: "snaps = c0 # rest"
    "map_of (node_runs c0) ''b'' =
      (if ''b'' \<in> hkeys (schema_nodes (w_schema chain_workflow)) then Some pending_run else None)"
    by blast
  have "''b'' \<in> hkeys (schema_nodes (w_schema chain_workflow))" by code_simp
  with run c0 show ?thesis
    by (intro exI [of _ r] exI [of _ c0] exI [of _ rest]) simp
qed

subsection \<open>What validation does not cover\<close>

definition dangling_workflow :: workflow where
  "dangling_workflow = workflow_new (register (sample_node ''a'' False) registry_new)
     (sample_schema [(''a'', [''ghost''])])"

text \<open>
  Validation does not make a workflow runnable: there is a workflow that validates although its
  only connection leads to a node that is neither declared nor registered, and its run, started
  normally, ends in a \<open>WorkflowError\<close> after the first node succeeded, losing the context.
\<close>

theorem validated_can_dangle:
  "validate (w_registry dangling_workflow) (w_schema dangling_workflow) = Some (Inr ()) \<and>
   \<not> has_node dangling_workflow ''ghost'' \<and>
   (\<exists>snaps. run sample_world dangling_workflow JNull = Some (Inl (no_node_message ''ghost''), snaps))"
proof -
  have "validate (w_registry dangling_workflow) (w_schema dangling_workflow) = Some (Inr ())"
    by code_simp
  moreover have "\<not> has_node dangling_workflow ''ghost''" by code_simp
  moreover have "\<exists>snaps. run sample_world dangling_workflow JNull =
      Some (Inl (no_node_message ''ghost''), snaps)"
  proof -
    let ?s = "\<lparr>ws_ctx = seed_context dangling_workflow JNull, ws_current = Some ''a'',
      ws_ledger = budget_ledger_new, ws_tick = 0, ws_snaps = [seed_context dangling_workflow JNull]\<rparr>"
    have reg: "registry_get (w_registry dangling_workflow) ''a'' = Some (sample_node ''a'' False)"
        "registry_get (w_registry dangling_workflow) ''ghost'' = None"
        "next_after (w_schema dangling_workflow) ''a'' = Some ''ghost''"
        "start_node (w_schema dangling_workflow) = ''a''"
      by (simp_all add: dangling_workflow_def workflow_new_def sample_node_def sample_schema_def
          next_after_def node_config_next_def registry_new_def registry_get_def register_def)
    have "\<not> suspension_requested (metadata (ws_ctx ?s))"
      by (simp add: seed_context_def suspension_requested_def flag_at_def)
    with idle_step [OF reg(1), of ?s sample_world] reg(3) obtain s1
      where s1: "walk_step sample_world dangling_workflow run_options_default ?s ''a'' = Continue s1"
        "ws_current s1 = Some ''ghost''" by auto
    have "walk_step sample_world dangling_workflow run_options_default s1 ''ghost'' =
        Return (Inl (no_node_message ''ghost''), ws_snaps s1)"
      by (simp add: walk_step_def flag_raised_def run_options_default_def ledger_check_def reg)
    moreover have "run sample_world dangling_workflow JNull =
        walk sample_world dangling_workflow run_options_default ?s"
      by (simp add: run_def run_with_def walk_from_def stamp_options_run_id_def reg
          run_options_default_def)
    ultimately show ?thesis
      using s1 by (simp add: walk_continue [of _ "''a''"] walk_return [of _ "''ghost''"])
  qed
  ultimately show ?thesis by blast
qed

end
