(* ===== verification/Strings.thy ===== *)
theory Strings
  imports Prelude "HOL-Library.Sublist"
begin

text \<open>
  The parts of the standard library's text handling that the program uses. A \<open>String\<close> is the list
  of its UTF-8 bytes, so the order of \<open>char\<close> is the byte order of \<open>Ord for str\<close>: rendering of an
  unsigned number (\<open>Display\<close>), \<open>u64::from_str\<close>, \<open>str::split\<close> at a character, and \<open>str::trim\<close>,
  which strips the characters of the Unicode property White\_Space.
\<close>

subsection \<open>Decimal numbers\<close>

fun decimal :: "nat \<Rightarrow> string" where
  "decimal n = (if n < 10 then [char_of (48 + n)] else decimal (n div 10) @ [char_of (48 + n mod 10)])"

declare decimal.simps [simp del]

fun undecimal :: "string \<Rightarrow> nat \<Rightarrow> nat" where
  "undecimal [] n = n"
| "undecimal (c # cs) n = undecimal cs (10 * n + (of_char c - 48))"

definition is_digit :: "char \<Rightarrow> bool" where
  "is_digit c \<longleftrightarrow> CHR ''0'' \<le> c \<and> c \<le> CHR ''9''"

definition parse_u64 :: "string \<Rightarrow> u64 option" where
  "parse_u64 s =
     (let d = (case s of c # cs \<Rightarrow> if c = CHR ''+'' then cs else s | [] \<Rightarrow> [])
      in if d \<noteq> [] \<and> list_all is_digit d \<and> undecimal d 0 < 2 ^ 64 then Some (of_nat (undecimal d 0))
         else None)"

lemma of_char_digit: "n < 10 \<Longrightarrow> (of_char (char_of (48 + n :: nat) :: char) :: nat) = 48 + n"
  by (simp add: take_bit_eq_mod)

lemma undecimal_append: "undecimal (a @ b) n = undecimal b (undecimal a n)"
  by (induction a n rule: undecimal.induct) simp_all

lemma undecimal_decimal [simp]: "undecimal (decimal n) 0 = n"
proof (induction n rule: decimal.induct)
  case (1 n)
  show ?case
  proof (cases "n < 10")
    case True
    then show ?thesis by (subst decimal.simps) (simp add: of_char_digit)
  next
    case False
    with 1 show ?thesis
      by (subst decimal.simps) (simp add: undecimal_append of_char_digit)
  qed
qed

lemma is_digit_char_of: "n < 10 \<Longrightarrow> is_digit (char_of (48 + n :: nat))"
  by (simp add: is_digit_def less_eq_char_def of_char_digit)

lemma decimal_digits [simp]: "list_all is_digit (decimal n)" "decimal n \<noteq> []"
proof (induction n rule: decimal.induct)
  case (1 n)
  { case 1
    show ?case using "1.IH"(1) by (subst decimal.simps) (simp add: is_digit_char_of) }
  { case 2
    show ?case by (subst decimal.simps) simp }
qed

lemma digit_not [simp]: "is_digit c \<Longrightarrow> c \<noteq> CHR '':''" "is_digit c \<Longrightarrow> c \<noteq> CHR ''+''"
  by (auto simp: is_digit_def less_eq_char_def)

lemma colon_not_in_decimal [simp]: "CHR '':'' \<notin> set (decimal n)"
  using decimal_digits(1) [of n] digit_not(1) unfolding list_all_iff by blast

lemma parse_u64_decimal [simp]: "parse_u64 (decimal (unat w)) = Some w"
proof -
  have "unat w < 2 ^ 64" using unsigned_less [of w, where 'a = nat] by simp
  moreover have "(case decimal (unat w) of c # cs \<Rightarrow> if c = CHR ''+'' then cs else decimal (unat w) | [] \<Rightarrow> [])
      = decimal (unat w)"
    using decimal_digits [of "unat w"] by (cases "decimal (unat w)") auto
  ultimately show ?thesis by (simp add: parse_u64_def)
qed

subsection \<open>Splitting\<close>

fun split_on :: "char \<Rightarrow> string \<Rightarrow> string list" where
  "split_on c [] = [[]]"
| "split_on c (x # xs) =
     (if x = c then [] # split_on c xs
      else (case split_on c xs of [] \<Rightarrow> [[x]] | y # ys \<Rightarrow> (x # y) # ys))"

lemma split_on_no_sep [simp]: "c \<notin> set s \<Longrightarrow> split_on c s = [s]"
  by (induction s) auto

lemma split_on_append [simp]: "c \<notin> set a \<Longrightarrow> split_on c (a @ c # b) = a # split_on c b"
  by (induction a) auto

lemma length_split_on: "length (split_on c s) = Suc (count_list s c)"
  by (induction s) (auto split: list.splits)

subsection \<open>Trimming\<close>

text \<open>The UTF-8 encodings of the characters with the property White\_Space.\<close>

definition whitespace :: "string list" where
  "whitespace =
     map (\<lambda>b. [b]) [CHR 0x09, CHR 0x0A, CHR 0x0B, CHR 0x0C, CHR 0x0D, CHR '' ''] @
     [[CHR 0xC2, CHR 0x85], [CHR 0xC2, CHR 0xA0], [CHR 0xE1, CHR 0x9A, CHR 0x80]] @
     map (\<lambda>b. [CHR 0xE2, CHR 0x80, b])
       [CHR 0x80, CHR 0x81, CHR 0x82, CHR 0x83, CHR 0x84, CHR 0x85, CHR 0x86, CHR 0x87, CHR 0x88,
        CHR 0x89, CHR 0x8A, CHR 0xA8, CHR 0xA9, CHR 0xAF] @
     [[CHR 0xE2, CHR 0x81, CHR 0x9F], [CHR 0xE3, CHR 0x80, CHR 0x80]]"

function strip_prefixes :: "string list \<Rightarrow> string \<Rightarrow> string" where
  "strip_prefixes ws s =
     (case List.find (\<lambda>w. w \<noteq> [] \<and> prefix w s) ws of
        None \<Rightarrow> s
      | Some w \<Rightarrow> strip_prefixes ws (drop (length w) s))"
  by pat_completeness auto
termination
  by (relation "measure (\<lambda>(ws, s). length s)") (auto simp: find_Some_iff prefix_def)

declare strip_prefixes.simps [simp del]

definition trim_start :: "string \<Rightarrow> string" where
  "trim_start s = strip_prefixes whitespace s"

definition trim_end :: "string \<Rightarrow> string" where
  "trim_end s = rev (strip_prefixes (map rev whitespace) (rev s))"

definition trim :: "string \<Rightarrow> string" where
  "trim s = trim_end (trim_start s)"

lemma strip_prefixes_id: "(\<And>w. w \<in> set ws \<Longrightarrow> w \<noteq> [] \<Longrightarrow> \<not> prefix w s) \<Longrightarrow> strip_prefixes ws s = s"
proof -
  assume "\<And>w. w \<in> set ws \<Longrightarrow> w \<noteq> [] \<Longrightarrow> \<not> prefix w s"
  then have "List.find (\<lambda>w. w \<noteq> [] \<and> prefix w s) ws = None" by (auto simp: find_None_iff)
  then show ?thesis by (subst strip_prefixes.simps) simp
qed

lemma trim_Nil [simp]: "trim [] = []"
proof -
  have "strip_prefixes ws [] = []" for ws by (rule strip_prefixes_id) simp
  then show ?thesis by (simp add: trim_def trim_start_def trim_end_def)
qed

text \<open>A text is not changed by trimming when no whitespace character begins or ends it.\<close>

definition untrimmed_start :: "string \<Rightarrow> bool" where
  "untrimmed_start s \<longleftrightarrow> list_all (\<lambda>w. \<not> prefix w s) whitespace"

lemma trim_id:
  assumes "untrimmed_start s" and "list_all (\<lambda>w. \<not> suffix w s) whitespace"
  shows "trim s = s"
proof -
  have "trim_start s = s" unfolding trim_start_def
    using assms(1) by (intro strip_prefixes_id) (auto simp: untrimmed_start_def list_all_iff)
  moreover have "trim_end s = s" unfolding trim_end_def
    using assms(2) by (subst strip_prefixes_id) (auto simp: list_all_iff suffix_to_prefix)
  ultimately show ?thesis by (simp add: trim_def)
qed

lemma no_suffix_digit: "is_digit (last s) \<Longrightarrow> s \<noteq> [] \<Longrightarrow> list_all (\<lambda>w. \<not> suffix w s) whitespace"
proof -
  assume d: "is_digit (last s)" and "s \<noteq> []"
  have "list_all (\<lambda>w. w \<noteq> [] \<and> \<not> is_digit (last w)) whitespace" by code_simp
  with d show ?thesis by (auto simp: list_all_iff suffix_def)
qed

lemma untrimmed_start_colon:
  assumes "untrimmed_start a"
  shows "untrimmed_start (a @ CHR '':'' # b)"
proof -
  have "list_all (\<lambda>w. CHR '':'' \<notin> set w) whitespace" by code_simp
  moreover have "prefix w a" if "prefix w (a @ CHR '':'' # b)" "CHR '':'' \<notin> set w" for w
    using that by (auto simp: prefix_append prefix_Cons)
  ultimately show ?thesis using assms unfolding untrimmed_start_def list_all_iff by blast
qed

lemma strip_prefixes_keeps:
  assumes "c \<in> set s" and "\<And>w. w \<in> set ws \<Longrightarrow> c \<notin> set w"
  shows "c \<in> set (strip_prefixes ws s)"
  using assms
proof (induction ws s rule: strip_prefixes.induct)
  case (1 ws s)
  show ?case
  proof (cases "List.find (\<lambda>w. w \<noteq> [] \<and> prefix w s) ws")
    case None
    with "1.prems" show ?thesis by (subst strip_prefixes.simps) simp
  next
    case (Some w)
    then have w: "w \<in> set ws" "prefix w s" by (auto simp: find_Some_iff)
    then have "c \<in> set (drop (length w) s)" using "1.prems" by (auto simp: prefix_def)
    with "1.IH" [OF Some] "1.prems"(2) Some show ?thesis by (subst strip_prefixes.simps) simp
  qed
qed

lemma trim_not_blank:
  assumes "c \<in> set s" and "list_all (\<lambda>w. c \<notin> set w) whitespace"
  shows "trim s \<noteq> []"
proof -
  have "c \<in> set (trim_start s)" unfolding trim_start_def
    using assms by (intro strip_prefixes_keeps) (auto simp: list_all_iff)
  then have "c \<in> set (trim_end (trim_start s))" unfolding trim_end_def set_rev
    using assms by (intro strip_prefixes_keeps) (auto simp: list_all_iff)
  then show ?thesis by (auto simp: trim_def)
qed

subsection \<open>Characters\<close>

text \<open>
  \<open>s.chars().count()\<close> and \<open>s.chars().take(n).collect()\<close>: a character of a UTF-8 text is a byte that is
  not a continuation byte, with the continuation bytes that follow it.
\<close>

definition is_cont :: "char \<Rightarrow> bool" where
  "is_cont c \<longleftrightarrow> CHR 0x80 \<le> c \<and> c < CHR 0xC0"

fun chars_count :: "string \<Rightarrow> nat" where
  "chars_count [] = 0"
| "chars_count (c # cs) = (if is_cont c then chars_count cs else Suc (chars_count cs))"

fun chars_take :: "nat \<Rightarrow> string \<Rightarrow> string" where
  "chars_take n [] = []"
| "chars_take n (c # cs) =
     (if is_cont c then c # chars_take n cs
      else case n of 0 \<Rightarrow> [] | Suc m \<Rightarrow> c # chars_take m cs)"

lemma chars_count_append [simp]: "chars_count (a @ b) = chars_count a + chars_count b"
  by (induction a) auto

lemma chars_count_take [simp]: "chars_count (chars_take n s) = min n (chars_count s)"
  by (induction n s rule: chars_take.induct) (auto split: nat.splits)

lemma chars_take_all: "chars_count s \<le> n \<Longrightarrow> chars_take n s = s"
  by (induction n s rule: chars_take.induct) (auto split: nat.splits if_splits)

lemma chars_take_append:
  "chars_count a \<le> n \<Longrightarrow> chars_take n (a @ b) = a @ chars_take (n - chars_count a) b"
  by (induction n a rule: chars_take.induct) (auto split: nat.splits if_splits)

lemma prefix_chars_take: "prefix (chars_take n s) s"
  by (induction n s rule: chars_take.induct) (auto split: nat.splits)

end
