(* ===== verification/Compose.thy ===== *)
theory Compose
  imports Runner Strings
begin

text \<open>
  Building graphs from nodes: the wrappers \<open>Identified\<close> and \<open>WithInput\<close> of \<open>node.rs\<close>, \<open>ParallelNode\<close>
  (\<open>parallel.rs\<close>), \<open>FanOutNode\<close> and \<open>AggregateNode\<close> (\<open>nodes/fan_out.rs\<close>, \<open>nodes/aggregate.rs\<close>) and the
  \<open>SuspendNode\<close> (\<open>nodes/suspend.rs\<close>). The branches of a parallel node run concurrently over copies of
  one context and cannot see each other, so that their results are the list of the results of each
  on the same input.
\<close>

subsection \<open>Identity and input wrappers\<close>

definition identified_process ::
  "node \<Rightarrow> string \<Rightarrow> nat \<Rightarrow> task_context \<Rightarrow> node_error + task_context" where
  "identified_process inner i t ctx = bind_result (process inner t ctx) (\<lambda>out.
     if node_name inner \<noteq> i
     then (case map_of (nodes out) (node_name inner) of
             Some v \<Rightarrow> Inr (out\<lparr>nodes := AList.update i v (AList.delete (node_name inner) (nodes out))\<rparr>)
           | None \<Rightarrow> Inr out)
     else Inr out)"

definition with_identity :: "node \<Rightarrow> string \<Rightarrow> node" where
  "with_identity inner i = \<lparr>node_name = i, process = identified_process inner i,
     as_router = as_router inner, agent = None\<rparr>"

type_synonym input_binding = "string option"

definition input_unbound :: input_binding where
  "input_unbound = None"

definition input_bound :: "string \<Rightarrow> input_binding" where
  "input_bound u = Some u"

definition is_bound :: "input_binding \<Rightarrow> bool" where
  "is_bound b = (b \<noteq> None)"

definition input_resolve :: "input_binding \<Rightarrow> string \<Rightarrow> string" where
  "input_resolve b d = (case b of Some u \<Rightarrow> u | None \<Rightarrow> d)"

definition with_input_from :: "node \<Rightarrow> string \<Rightarrow> node \<times> input_binding" where
  "with_input_from inner u = (\<lparr>node_name = node_name inner, process = process inner,
     as_router = as_router inner, agent = None\<rparr>, input_bound u)"

subsection \<open>Parallel branches\<close>

datatype branch_failure = FailRun | Tolerate

record branch_outcome =
  bo_branch :: string
  bo_ok :: bool
  bo_error :: "string option"

record parallel_node =
  pn_identity :: string
  pn_branches :: "node list"
  pn_branch_failure :: branch_failure

definition parallel_new :: "string \<Rightarrow> node list \<Rightarrow> parallel_node" where
  "parallel_new i bs = \<lparr>pn_identity = i, pn_branches = bs, pn_branch_failure = FailRun\<rparr>"

definition with_branch_failure :: "branch_failure \<Rightarrow> parallel_node \<Rightarrow> parallel_node" where
  "with_branch_failure f p = p\<lparr>pn_branch_failure := f\<rparr>"

definition merge_branch_outputs :: "task_context \<Rightarrow> task_context list \<Rightarrow> task_context" where
  "merge_branch_outputs base outs = base
     \<lparr>nodes := extend_map (nodes base) (foldl (\<lambda>m c. extend_map m (nodes c)) [] outs),
      node_runs := extend_map (node_runs base) (foldl (\<lambda>m c. extend_map m (node_runs c)) [] outs)\<rparr>"

fun collect_ok :: "(node_error + task_context) list \<Rightarrow> node_error + task_context list" where
  "collect_ok [] = Inr []"
| "collect_ok (Inl e # rs) = Inl e"
| "collect_ok (Inr c # rs) = bind_result (collect_ok rs) (\<lambda>cs. Inr (c # cs))"

fun branch_outcome_of :: "node \<times> (node_error + task_context) \<Rightarrow> branch_outcome" where
  "branch_outcome_of (n, Inr c) = \<lparr>bo_branch = node_name n, bo_ok = True, bo_error = None\<rparr>"
| "branch_outcome_of (n, Inl e) =
     \<lparr>bo_branch = node_name n, bo_ok = False, bo_error = Some (ne_message e)\<rparr>"

definition branch_outcome_to_json :: "branch_outcome \<Rightarrow> json" where
  "branch_outcome_to_json b = JObj ([(''branch'', JStr (bo_branch b)), (''ok'', JBool (bo_ok b))] @
     (case bo_error b of Some e \<Rightarrow> [(''error'', JStr e)] | None \<Rightarrow> []))"

definition ok_results :: "(node_error + task_context) list \<Rightarrow> task_context list" where
  "ok_results rs = List.map_filter (\<lambda>r. case r of Inr c \<Rightarrow> Some c | Inl _ \<Rightarrow> None) rs"

definition parallel_process ::
  "parallel_node \<Rightarrow> nat \<Rightarrow> task_context \<Rightarrow> node_error + task_context" where
  "parallel_process p t ctx =
     (let results = map (\<lambda>b. process b t ctx) (pn_branches p)
      in case pn_branch_failure p of
           FailRun \<Rightarrow> bind_result (collect_ok results) (\<lambda>outs. Inr (merge_branch_outputs ctx outs))
         | Tolerate \<Rightarrow>
             (let outcomes = map branch_outcome_of (zip (pn_branches p) results);
                  merged = merge_branch_outputs ctx (ok_results results)
              in Inr (merged\<lparr>nodes := AList.update (pn_identity p)
                   (JArr (map branch_outcome_to_json outcomes)) (nodes merged)\<rparr>)))"

definition parallel_as_node :: "parallel_node \<Rightarrow> node" where
  "parallel_as_node p = \<lparr>node_name = pn_identity p, process = parallel_process p,
     as_router = None, agent = None\<rparr>"

subsection \<open>Fan-out and aggregation\<close>

definition branch_identity :: "string \<Rightarrow> nat \<Rightarrow> string" where
  "branch_identity base i = base @ ''['' @ decimal i @ '']''"

record fan_out_node =
  fo_identity :: string
  fo_base_name :: string
  fo_count :: nat
  fo_builder :: "nat \<Rightarrow> node"

definition fan_out_process :: "fan_out_node \<Rightarrow> nat \<Rightarrow> task_context \<Rightarrow> node_error + task_context" where
  "fan_out_process f t ctx =
     (let branches = map (\<lambda>i. with_identity (fo_builder f i) (branch_identity (fo_base_name f) i))
            [0..<fo_count f]
      in parallel_process (parallel_new (fo_identity f) branches) t ctx)"

datatype missing_source = MissingFail | MissingSkip

record aggregate_node =
  ag_identity :: string
  ag_source_identities :: "string list"
  ag_output_key :: string
  ag_missing_source :: missing_source

definition aggregate_new :: "string \<Rightarrow> string list \<Rightarrow> aggregate_node" where
  "aggregate_new i srcs = \<lparr>ag_identity = i, ag_source_identities = srcs, ag_output_key = i,
     ag_missing_source = MissingFail\<rparr>"

definition with_missing_source :: "missing_source \<Rightarrow> aggregate_node \<Rightarrow> aggregate_node" where
  "with_missing_source m a = a\<lparr>ag_missing_source := m\<rparr>"

definition for_fan_out :: "string \<Rightarrow> string \<Rightarrow> nat \<Rightarrow> aggregate_node" where
  "for_fan_out i base count = aggregate_new i (map (branch_identity base) [0..<count])"

definition missing_message :: "string \<Rightarrow> string \<Rightarrow> string" where
  "missing_message i src = ''AggregateNode '' @ [CHR 0x27] @ i @ [CHR 0x27] @ '': missing source '' @
     [CHR 0x27] @ src @ [CHR 0x27] @ '' in ctx.nodes''"

fun gather :: "aggregate_node \<Rightarrow> task_context \<Rightarrow> string list \<Rightarrow> node_error + json list" where
  "gather a ctx [] = Inr []"
| "gather a ctx (src # rest) =
     (case map_of (nodes ctx) src of
        Some v \<Rightarrow> bind_result (gather a ctx rest) (\<lambda>vs. Inr (v # vs))
      | None \<Rightarrow>
          (case ag_missing_source a of
             MissingFail \<Rightarrow> Inl (node_error_new (missing_message (ag_identity a) src))
           | MissingSkip \<Rightarrow> gather a ctx rest))"

definition aggregate_process :: "aggregate_node \<Rightarrow> nat \<Rightarrow> task_context \<Rightarrow> node_error + task_context" where
  "aggregate_process a t ctx = bind_result (gather a ctx (ag_source_identities a))
     (\<lambda>vs. Inr (ctx\<lparr>nodes := AList.update (ag_output_key a) (JArr vs) (nodes ctx)\<rparr>))"

subsection \<open>The suspend node\<close>

record suspend_node =
  sn_identity :: string
  sn_enabled :: bool
  sn_predicate :: "(task_context \<Rightarrow> bool) option"
  sn_reason_label :: string

definition suspend_node_new :: "string \<Rightarrow> suspend_node" where
  "suspend_node_new i = \<lparr>sn_identity = i, sn_enabled = False, sn_predicate = None, sn_reason_label = []\<rparr>"

text \<open>\<open>None\<close> is the panic of \<open>request_suspension\<close> on a stored marker of the wrong shape.\<close>

definition suspend_node_process :: "suspend_node \<Rightarrow> task_context \<Rightarrow> (node_error + task_context) option" where
  "suspend_node_process n ctx =
     (let should = (sn_enabled n \<and> (case sn_predicate n of None \<Rightarrow> True | Some p \<Rightarrow> p ctx))
      in case (if should then request_suspension (metadata ctx) else Some (metadata ctx)) of
           None \<Rightarrow> None
         | Some m \<Rightarrow> Some (Inr (ctx\<lparr>metadata := m, nodes := AList.update (sn_identity n)
             (JObj [(''suspended'', JBool should), (''enabled'', JBool (sn_enabled n)),
                    (''reason'', JStr (sn_reason_label n))]) (nodes ctx)\<rparr>)))"

subsection \<open>Merging\<close>

lemma map_of_foldl_extend:
  "map_of (foldl (\<lambda>m c. extend_map m (f c)) m cs) k =
     (case map_of (rev (concat (map f cs))) k of Some v \<Rightarrow> Some v | None \<Rightarrow> map_of m k)"
  by (induction cs arbitrary: m)
    (auto simp: map_of_extend_map map_add_def split: option.splits)

lemma wf_foldl_extend: "wf_hmap m \<Longrightarrow> wf_hmap (foldl (\<lambda>m c. extend_map m (f c)) m cs)"
  by (induction cs arbitrary: m) (simp_all add: wf_extend_map)

lemma map_of_merge:
  "map_of (nodes (merge_branch_outputs base outs)) k =
     (case map_of (rev (concat (map nodes outs))) k of Some v \<Rightarrow> Some v | None \<Rightarrow> map_of (nodes base) k)"
  by (auto simp: merge_branch_outputs_def map_of_extend_map [of "nodes base"] map_of_foldl_extend
      map_of_rev_wf wf_foldl_extend split: option.splits)

lemma map_of_rev_concat_last:
  assumes "\<forall>c\<in>set cs'. map_of (f c) k = None" and "wf_hmap (f c)"
  shows "map_of (rev (concat (map f (cs @ c # cs')))) k =
    (case map_of (f c) k of Some v \<Rightarrow> Some v | None \<Rightarrow> map_of (rev (concat (map f cs))) k)"
proof -
  have "map_of (rev (concat (map f cs'))) k = None"
    using assms(1) by (auto simp: map_of_eq_None_iff)
  then show ?thesis
    using assms(2) by (auto simp: map_add_def map_of_rev_wf split: option.splits)
qed


lemma collect_ok_map [simp]: "collect_ok (map Inr cs) = Inr cs"
  by (induction cs) simp_all

lemma parallel_all_ok:
  assumes "pn_branch_failure p = FailRun" and "map (\<lambda>b. process b t ctx) (pn_branches p) = map Inr outs"
  shows "parallel_process p t ctx = Inr (merge_branch_outputs ctx outs)"
  using assms by (simp add: parallel_process_def)

text \<open>
  The merge of a parallel node is decided by the last branch in declared order that has the key:
  when every branch succeeds, an output key has the value it has in the last branch whose context
  has that key. The metadata is always the one from before the fan-out.
\<close>

theorem parallel_last_branch_wins:
  assumes "pn_branch_failure p = FailRun"
    and "map (\<lambda>b. process b t ctx) (pn_branches p) = map Inr (cs @ c # cs')"
    and "map_of (nodes c) k = Some v" and "\<forall>c'\<in>set cs'. map_of (nodes c') k = None"
    and "wf_hmap (nodes c)"
  shows "\<exists>out. parallel_process p t ctx = Inr out \<and> map_of (nodes out) k = Some v \<and>
    metadata out = metadata ctx"
proof -
  have "map_of (nodes (merge_branch_outputs ctx (cs @ c # cs'))) k = Some v"
    using assms(3) map_of_rev_concat_last [OF assms(4,5), of cs]
    by (simp add: map_of_merge del: map_append concat_append rev_append)
  then show ?thesis
    using parallel_all_ok [OF assms(1,2)] by (simp add: merge_branch_outputs_def)
qed

definition write_node :: "string \<Rightarrow> string \<Rightarrow> json \<Rightarrow> node" where
  "write_node i k v = (sample_node i False)\<lparr>process :=
     (\<lambda>t c. Inr (c\<lparr>nodes := AList.update k v (nodes c)\<rparr>))\<rparr>"

theorem parallel_last_branch_wins_witness:
  "\<exists>out. parallel_process (parallel_new ''p'' [write_node ''x'' ''k'' (JBool True),
       write_node ''y'' ''k'' (JBool False)]) 0 (sample_ctx\<lparr>nodes := []\<rparr>) = Inr out \<and>
     map_of (nodes out) ''k'' = Some (JBool False)"
  using parallel_last_branch_wins [of "parallel_new ''p'' [write_node ''x'' ''k'' (JBool True),
      write_node ''y'' ''k'' (JBool False)]" 0 "sample_ctx\<lparr>nodes := []\<rparr>"
      "[sample_ctx\<lparr>nodes := [(''k'', JBool True)]\<rparr>]" "sample_ctx\<lparr>nodes := [(''k'', JBool False)]\<rparr>" "[]"
      "''k''" "JBool False"]
  by (auto simp: parallel_new_def write_node_def sample_node_def wf_hmap_def)

text \<open>
  A branch's update of an output that existed before the fan-out is lost when a later branch
  leaves that output alone: the later branch's untouched copy overwrites it, although only one
  branch wrote the key.
\<close>

theorem parallel_stale_copy_wins:
  assumes "pn_branches p = [b1, b2]" and "pn_branch_failure p = FailRun"
    and "map_of (nodes ctx) k = Some old" and "wf_hmap (nodes ctx)"
    and "process b1 t ctx = Inr (ctx\<lparr>nodes := AList.update k new (nodes ctx)\<rparr>)"
    and "process b2 t ctx = Inr (ctx\<lparr>nodes := AList.update j w (nodes ctx)\<rparr>)" and "j \<noteq> k"
  shows "\<exists>out. parallel_process p t ctx = Inr out \<and> map_of (nodes out) k = Some old \<and>
    map_of (nodes out) j = Some w"
proof -
  let ?c1 = "ctx\<lparr>nodes := AList.update k new (nodes ctx)\<rparr>"
  let ?c2 = "ctx\<lparr>nodes := AList.update j w (nodes ctx)\<rparr>"
  have "map (\<lambda>b. process b t ctx) (pn_branches p) = map Inr [?c1, ?c2]"
    using assms(1,5,6) by simp
  from parallel_all_ok [OF assms(2) this] show ?thesis
    using assms(3,4,7)
    by (simp add: map_of_merge map_add_def map_of_rev_wf)
qed

theorem parallel_stale_copy_wins_witness:
  "\<exists>out. parallel_process (parallel_new ''p'' [write_node ''x'' ''k'' (JBool True),
       write_node ''y'' ''j'' JNull]) 0 (sample_ctx\<lparr>nodes := [(''k'', JBool False)]\<rparr>) = Inr out \<and>
     map_of (nodes out) ''k'' = Some (JBool False)"
  using parallel_stale_copy_wins [of "parallel_new ''p'' [write_node ''x'' ''k'' (JBool True),
      write_node ''y'' ''j'' JNull]" "write_node ''x'' ''k'' (JBool True)" "write_node ''y'' ''j'' JNull"
      "sample_ctx\<lparr>nodes := [(''k'', JBool False)]\<rparr>" "''k''" "JBool False" 0 "JBool True" "''j''" JNull]
  by (auto simp: parallel_new_def write_node_def sample_node_def wf_hmap_def)

text \<open>
  Model calls billed inside a parallel node are not accounted for: whatever rows its branches
  append to the session ledger, in either failure mode, the ledger after the node is the one from
  before it.
\<close>

theorem parallel_drops_branch_sessions:
  assumes "parallel_process p t ctx = Inr out"
  shows "read_sessions (metadata out) = read_sessions (metadata ctx)"
proof -
  have "metadata out = metadata ctx"
    using assms
    by (auto simp: parallel_process_def merge_branch_outputs_def Let_def bind_result_eq_Inr
        split: branch_failure.splits)
  then show ?thesis by simp
qed

definition billing_node :: node where
  "billing_node = (sample_node ''llm'' False)\<lparr>process :=
     (\<lambda>t c. Inr (c\<lparr>metadata := append_session sample_session (metadata c)\<rparr>))\<rparr>"

theorem parallel_drops_branch_sessions_witness:
  "read_sessions (metadata (projr (process billing_node 0 (sample_ctx\<lparr>nodes := []\<rparr>)))) = [sample_session] \<and>
   read_sessions (metadata (projr (parallel_process (parallel_new ''p'' [billing_node]) 0
     (sample_ctx\<lparr>nodes := []\<rparr>)))) = []"
proof -
  let ?c = "sample_ctx\<lparr>nodes := []\<rparr>"
  have none: "read_sessions (metadata ?c) = []"
    by (simp add: sample_ctx_def read_sessions_def rows_at_def)
  have "process billing_node 0 ?c = Inr (?c\<lparr>metadata := append_session sample_session (metadata ?c)\<rparr>)"
    by (simp add: billing_node_def)
  moreover from this have "parallel_process (parallel_new ''p'' [billing_node]) 0 ?c =
      Inr (merge_branch_outputs ?c [?c\<lparr>metadata := append_session sample_session (metadata ?c)\<rparr>])"
    by (intro parallel_all_ok) (simp_all add: parallel_new_def)
  moreover from parallel_drops_branch_sessions [OF this] none
  have "read_sessions (metadata (merge_branch_outputs ?c
      [?c\<lparr>metadata := append_session sample_session (metadata ?c)\<rparr>])) = []" by simp
  moreover have "read_sessions (append_session sample_session (metadata ?c)) = [sample_session]"
    using none
    by (simp add: session_rows.read_append session_back) (simp add: sample_session_def f64_is_finite_def)
  ultimately show ?thesis by simp
qed

subsection \<open>Fan-out followed by aggregation\<close>

lemma branch_identity_inject [simp]: "branch_identity b i = branch_identity b j \<longleftrightarrow> i = j"
  by (auto simp: branch_identity_def) (metis undecimal_decimal)


text \<open>The branches of a fan-out that each store their own result under the wrapped node's name.\<close>

definition writes_results :: "fan_out_node \<Rightarrow> string \<Rightarrow> (nat \<Rightarrow> json) \<Rightarrow> nat \<Rightarrow> task_context \<Rightarrow> bool" where
  "writes_results f nm v t ctx \<longleftrightarrow>
     (\<forall>i<fo_count f. node_name (fo_builder f i) = nm \<and> branch_identity (fo_base_name f) i \<noteq> nm \<and>
        (\<exists>out. process (fo_builder f i) t ctx = Inr out \<and> nodes out = AList.update nm (v i) (nodes ctx)))"

lemma branch_result:
  assumes "writes_results f nm v t ctx" and "i < fo_count f" and "wf_hmap (nodes ctx)"
  shows "\<exists>out. process (with_identity (fo_builder f i) (branch_identity (fo_base_name f) i)) t ctx = Inr out \<and>
    wf_hmap (nodes out) \<and>
    (\<forall>k. k \<noteq> nm \<longrightarrow> map_of (nodes out) k =
       (if k = branch_identity (fo_base_name f) i then Some (v i) else map_of (nodes ctx) k))"
proof -
  obtain out where out: "process (fo_builder f i) t ctx = Inr out"
      "nodes out = AList.update nm (v i) (nodes ctx)"
      "node_name (fo_builder f i) = nm" "branch_identity (fo_base_name f) i \<noteq> nm"
    using assms(1,2) by (auto simp: writes_results_def)
  have "wf_hmap (nodes out)" using out(2) assms(3) by simp
  with out show ?thesis
    by (auto simp: with_identity_def identified_process_def delete_conv')
qed

lemma map_of_upt_concat:
  assumes "\<forall>i<n. wf_hmap (g i) \<and> map_of (g i) k = (if i = j then Some v else old)" and "j < n"
  shows "map_of (rev (concat (map g [0..<n]))) k = (if old = None \<or> j = n - 1 then Some v else old)"
  using assms
proof (induction n)
  case (Suc n)
  have here: "map_of (rev (g n)) k = (if n = j then Some v else old)"
    using Suc.prems(1) by (simp add: map_of_rev_wf)
  show ?case
  proof (cases "j = n")
    case False
    with Suc have "map_of (rev (concat (map g [0..<n]))) k = (if old = None \<or> j = n - 1 then Some v else old)"
      by simp
    with here False Suc.prems(2) show ?thesis
      by (cases old) (auto simp: map_add_def)
  qed (use here in \<open>simp add: map_add_def\<close>)
qed simp

lemma fan_out_result:
  assumes "writes_results f nm v t ctx" and "wf_hmap (nodes ctx)"
  shows "\<exists>out. fan_out_process f t ctx = Inr out \<and> (\<forall>j<fo_count f.
     map_of (nodes out) (branch_identity (fo_base_name f) j) =
       (if map_of (nodes ctx) (branch_identity (fo_base_name f) j) = None \<or> j = fo_count f - 1
        then Some (v j) else map_of (nodes ctx) (branch_identity (fo_base_name f) j)))"
proof -
  let ?id = "branch_identity (fo_base_name f)"
  obtain out where out: "\<forall>i<fo_count f. process (with_identity (fo_builder f i) (?id i)) t ctx = Inr (out i) \<and>
      wf_hmap (nodes (out i)) \<and>
      (\<forall>k. k \<noteq> nm \<longrightarrow> map_of (nodes (out i)) k = (if k = ?id i then Some (v i) else map_of (nodes ctx) k))"
    using branch_result [OF assms(1) _ assms(2)] by metis
  let ?outs = "map out [0..<fo_count f]"
  have "fan_out_process f t ctx = Inr (merge_branch_outputs ctx ?outs)"
    unfolding fan_out_process_def Let_def
    using out by (intro parallel_all_ok) (simp_all add: parallel_new_def)
  moreover have "map_of (nodes (merge_branch_outputs ctx ?outs)) (?id j) =
      (if map_of (nodes ctx) (?id j) = None \<or> j = fo_count f - 1 then Some (v j)
       else map_of (nodes ctx) (?id j))" if j: "j < fo_count f" for j
  proof -
    have "?id j \<noteq> nm" using assms(1) j by (auto simp: writes_results_def)
    with out have "\<forall>i<fo_count f. wf_hmap ((nodes \<circ> out) i) \<and>
        map_of ((nodes \<circ> out) i) (?id j) = (if i = j then Some (v j) else map_of (nodes ctx) (?id j))"
      by auto
    from map_of_upt_concat [OF this j] show ?thesis by (auto simp: map_of_merge o_def)
  qed
  ultimately show ?thesis by blast
qed

lemma gather_all:
  assumes "\<forall>s\<in>set srcs. map_of (nodes ctx) s \<noteq> None"
  shows "gather a ctx srcs = Inr (map (\<lambda>s. the (map_of (nodes ctx) s)) srcs)"
  using assms by (induction srcs) auto

text \<open>
  Fanning out and aggregating gives the branch results in index order: on a context in which the
  branch identities are free, the aggregate of a fan-out whose branches store \<open>v 0\<close>, \<open>v 1\<close> and so on
  is the array of exactly these values, however many branches there are.
\<close>

theorem fan_out_aggregate:
  assumes "writes_results f nm v t ctx" and "wf_hmap (nodes ctx)"
    and "\<forall>i<fo_count f. map_of (nodes ctx) (branch_identity (fo_base_name f) i) = None"
  shows "\<exists>mid out. fan_out_process f t ctx = Inr mid \<and>
    aggregate_process (for_fan_out a (fo_base_name f) (fo_count f)) t mid = Inr out \<and>
    map_of (nodes out) a = Some (JArr (map v [0..<fo_count f]))"
proof -
  obtain mid where mid: "fan_out_process f t ctx = Inr mid"
      "\<forall>j<fo_count f. map_of (nodes mid) (branch_identity (fo_base_name f) j) = Some (v j)"
    using fan_out_result [OF assms(1,2)] assms(3) by auto
  then have "gather (for_fan_out a (fo_base_name f) (fo_count f)) mid
      (map (branch_identity (fo_base_name f)) [0..<fo_count f]) = Inr (map v [0..<fo_count f])"
    by (subst gather_all) (auto simp: o_def)
  with mid(1) show ?thesis
    by (simp add: aggregate_process_def for_fan_out_def aggregate_new_def)
qed

text \<open>
  Running a fan-out again, as a retry loop does, keeps the old results: on a context that already
  holds the results of an earlier pass, every branch result except the last one's is the stale value
  of that earlier pass, although every branch wrote a new one.
\<close>

theorem fan_out_rerun_stale:
  assumes "writes_results f nm v t ctx" and "wf_hmap (nodes ctx)"
    and "map_of (nodes ctx) (branch_identity (fo_base_name f) j) = Some old" and "Suc j < fo_count f"
  shows "\<exists>out. fan_out_process f t ctx = Inr out \<and>
    map_of (nodes out) (branch_identity (fo_base_name f) j) = Some old"
  using fan_out_result [OF assms(1,2)] assms(3,4) by (force split: if_splits)

definition sample_fan_out :: fan_out_node where
  "sample_fan_out = \<lparr>fo_identity = ''fan'', fo_base_name = ''src'', fo_count = 2,
     fo_builder = (\<lambda>i. write_node ''n'' ''n'' (json_u64 (of_nat i + 7)))\<rparr>"

lemma sample_fan_out_writes:
  "writes_results sample_fan_out ''n'' (\<lambda>i. json_u64 (of_nat i + 7)) t ctx"
  by (auto simp: writes_results_def sample_fan_out_def write_node_def sample_node_def branch_identity_def)

theorem fan_out_aggregate_witness:
  "\<exists>mid out. fan_out_process sample_fan_out 0 (sample_ctx\<lparr>nodes := []\<rparr>) = Inr mid \<and>
     aggregate_process (for_fan_out ''all'' ''src'' 2) 0 mid = Inr out \<and>
     map_of (nodes out) ''all'' = Some (JArr [json_u64 7, json_u64 8])"
  using fan_out_aggregate [OF sample_fan_out_writes, of "sample_ctx\<lparr>nodes := []\<rparr>" 0 "''all''"]
  by (simp add: sample_fan_out_def upt_rec)

theorem fan_out_rerun_stale_witness:
  "\<exists>out. fan_out_process sample_fan_out 0
       (sample_ctx\<lparr>nodes := [(branch_identity ''src'' 0, JNull), (branch_identity ''src'' 1, JNull)]\<rparr>) = Inr out \<and>
     map_of (nodes out) (branch_identity ''src'' 0) = Some JNull"
  using fan_out_rerun_stale [OF sample_fan_out_writes, of
      "sample_ctx\<lparr>nodes := [(branch_identity ''src'' 0, JNull), (branch_identity ''src'' 1, JNull)]\<rparr>" 0 JNull 0]
  by (simp add: sample_fan_out_def wf_hmap_def)

end
