(* ===== verification/Loop.thy ===== *)
theory Loop
  imports Compose
begin

text \<open>
  The bounded-loop combinator (\<open>loop_combinator.rs\<close>): the guard router, the increment node that owns
  the counter, and the cluster \<open>build_loop\<close> makes of them. Both nodes are wrapped by
  \<open>with_identity\<close>; the counter is a 64-bit JSON number that the guard reads truncated to 32 bits.
\<close>

record loop_spec =
  identity_prefix :: string
  max_iterations :: u32
  exit_predicate :: "task_context \<Rightarrow> bool"
  body_entry :: string
  exit_to :: string

definition guard_identity :: "loop_spec \<Rightarrow> string" where
  "guard_identity spec = identity_prefix spec @ ''Guard''"

definition increment_identity :: "loop_spec \<Rightarrow> string" where
  "increment_identity spec = identity_prefix spec @ ''Increment''"

definition loop_count :: "string \<Rightarrow> task_context \<Rightarrow> u64" where
  "loop_count i ctx =
     (case do { v \<leftarrow> map_of (nodes ctx) i; w \<leftarrow> json_get v ''iterations''; as_u64 w } of
        Some n \<Rightarrow> n | None \<Rightarrow> 0)"

definition saturating_add_u32 :: "u32 \<Rightarrow> u32 \<Rightarrow> u32" where
  "saturating_add_u32 a b = (if unat a + unat b < 2 ^ 32 then a + b else - 1)"

definition guard_route :: "loop_spec \<Rightarrow> task_context \<Rightarrow> string option" where
  "guard_route spec ctx =
     (let completed = ucast (loop_count (increment_identity spec) ctx) :: u32;
          iterations_so_far = saturating_add_u32 completed 1
      in if iterations_so_far \<ge> max_iterations spec \<or> exit_predicate spec ctx
         then Some (exit_to spec)
         else Some (increment_identity spec))"

definition loop_guard_node :: "loop_spec \<Rightarrow> node" where
  "loop_guard_node spec = \<lparr>node_name = ''LoopGuardRouterNode'', process = (\<lambda>t ctx. Inr ctx),
     as_router = Some (guard_route spec), agent = None\<rparr>"

definition increment_process :: "string \<Rightarrow> nat \<Rightarrow> task_context \<Rightarrow> node_error + task_context" where
  "increment_process self t ctx = Inr (ctx\<lparr>nodes := AList.update self
     (JObj [(''iterations'', json_u64 (loop_count self ctx + 1))]) (nodes ctx)\<rparr>)"

definition loop_increment_node :: "loop_spec \<Rightarrow> node" where
  "loop_increment_node spec = \<lparr>node_name = ''LoopIncrementNode'',
     process = increment_process (increment_identity spec),
     as_router = Some (\<lambda>_. Some (body_entry spec)), agent = None\<rparr>"

record loop_cluster =
  lc_guard_identity :: string
  lc_increment_identity :: string
  lc_nodes :: "node list"
  lc_connections :: "node_config hmap"

definition build_loop :: "loop_spec \<Rightarrow> loop_cluster" where
  "build_loop spec =
     (let g = guard_identity spec; i = increment_identity spec
      in \<lparr>lc_guard_identity = g, lc_increment_identity = i,
          lc_nodes = [with_identity (loop_guard_node spec) g, with_identity (loop_increment_node spec) i],
          lc_connections = AList.update i (node_config_new i [body_entry spec])
            (AList.update g (node_config_new g [i, exit_to spec]) [])\<rparr>)"

subsection \<open>One round of the loop\<close>

text \<open>A dispatch that succeeds, outside all gates, moves on to the successor its node picks.\<close>

lemma plain_step:
  assumes "registry_get (w_registry w) i = Some nd" and "node_name nd = i"
    and "process nd (ws_tick s) (stamp_running W (ws_tick s) i (ws_ctx s)) = Inr ok"
    and "\<not> suspension_requested (metadata ok)"
  shows "\<exists>s'. walk_step W w run_options_default s i = Continue s' \<and> nodes (ws_ctx s') = nodes ok \<and>
    \<not> suspension_requested (metadata (ws_ctx s')) \<and>
    ws_current s' = (case as_router nd of Some r \<Rightarrow> r (ws_ctx s') | None \<Rightarrow> next_after (w_schema w) i)"
  using assms
  by (simp add: walk_step_def flag_raised_def run_options_default_def ledger_check_def Let_def
      node_context_def after_dispatch_def success_context_def suspension_requested_def dispatch_route_def
      flag_at_def invocation_rows.append_other split: option.splits)

lemma stamp_running_parts [simp]:
  "nodes (stamp_running W t i c) = nodes c" "event (stamp_running W t i c) = event c"
  by (simp_all add: stamp_running_def)

lemma loop_count_cong: "map_of (nodes c) i = map_of (nodes c') i \<Longrightarrow> loop_count i c = loop_count i c'"
  by (simp add: loop_count_def)

lemma loop_identities_distinct [simp]:
  "guard_identity spec \<noteq> increment_identity spec" "increment_identity spec \<noteq> guard_identity spec"
  by (simp_all add: guard_identity_def increment_identity_def)

text \<open>A workflow that hosts the loop around a single body node that always succeeds.\<close>

definition hosts_loop :: "world \<Rightarrow> workflow \<Rightarrow> loop_spec \<Rightarrow> node \<Rightarrow> bool" where
  "hosts_loop W w spec body \<longleftrightarrow>
     (\<forall>nd\<in>set (lc_nodes (build_loop spec)). registry_get (w_registry w) (node_name nd) = Some nd) \<and>
     registry_get (w_registry w) (body_entry spec) = Some body \<and> node_name body = body_entry spec \<and>
     as_router body = None \<and>
     next_after (w_schema w) (body_entry spec) = Some (lc_guard_identity (build_loop spec)) \<and>
     (\<forall>t c. \<exists>ok. process body t c = Inr ok \<and>
        map_of (nodes ok) (increment_identity spec) = map_of (nodes c) (increment_identity spec) \<and>
        map_of (nodes ok) ''LoopIncrementNode'' = map_of (nodes c) ''LoopIncrementNode'' \<and>
        (\<not> suspension_requested (metadata c) \<longrightarrow> \<not> suspension_requested (metadata ok)))"

lemma hosts_loop_nodes:
  assumes "hosts_loop W w spec body"
  shows "registry_get (w_registry w) (guard_identity spec) =
      Some (with_identity (loop_guard_node spec) (guard_identity spec))"
    "registry_get (w_registry w) (increment_identity spec) =
      Some (with_identity (loop_increment_node spec) (increment_identity spec))"
    "next_after (w_schema w) (body_entry spec) = Some (guard_identity spec)"
  using assms by (simp_all add: hosts_loop_def build_loop_def Let_def with_identity_def)

abbreviation loop_at :: "loop_spec \<Rightarrow> string \<Rightarrow> u64 \<Rightarrow> walk_state \<Rightarrow> bool" where
  "loop_at spec i n s \<equiv> ws_current s = Some i \<and> \<not> suspension_requested (metadata (ws_ctx s)) \<and>
     loop_count (increment_identity spec) (ws_ctx s) = n \<and>
     map_of (nodes (ws_ctx s)) ''LoopIncrementNode'' = None"

lemma body_step:
  assumes "hosts_loop W w spec body" and "loop_at spec (body_entry spec) n s"
  shows "\<exists>s'. walk_step W w run_options_default s (body_entry spec) = Continue s' \<and>
    loop_at spec (guard_identity spec) n s'"
proof -
  let ?pre = "stamp_running W (ws_tick s) (body_entry spec) (ws_ctx s)"
  obtain ok where ok: "process body (ws_tick s) ?pre = Inr ok"
      "map_of (nodes ok) (increment_identity spec) = map_of (nodes ?pre) (increment_identity spec)"
      "\<not> suspension_requested (metadata ok)"
      "map_of (nodes ok) ''LoopIncrementNode'' = map_of (nodes ?pre) ''LoopIncrementNode''"
    using assms unfolding hosts_loop_def by (metis rows_stamp_running)
  from plain_step [OF _ _ ok(1,3), of w] assms(1) obtain s'
    where s': "walk_step W w run_options_default s (body_entry spec) = Continue s'"
      "nodes (ws_ctx s') = nodes ok" "\<not> suspension_requested (metadata (ws_ctx s'))"
      "ws_current s' = Some (guard_identity spec)"
    by (auto simp: hosts_loop_def hosts_loop_nodes(3) [OF assms(1)])
  moreover have "loop_count (increment_identity spec) (ws_ctx s') = n"
    using assms(2) ok(2) s'(2) by (metis loop_count_cong stamp_running_parts(1))
  ultimately show ?thesis using assms(2) ok(4) by auto
qed


lemma suffix_neq:
  "increment_identity spec \<noteq> ''LoopIncrementNode''" "increment_identity spec \<noteq> ''LoopGuardRouterNode''"
  "guard_identity spec \<noteq> ''LoopGuardRouterNode''" "guard_identity spec \<noteq> ''LoopIncrementNode''"
  using arg_cong [of _ _ last] by (fastforce simp: guard_identity_def increment_identity_def)+

lemma identified_keeps:
  assumes "process inner t c = Inr out"
  shows "\<exists>ok. process (with_identity inner i) t c = Inr ok \<and> metadata ok = metadata out \<and>
    (\<forall>k. k \<noteq> i \<and> k \<noteq> node_name inner \<longrightarrow> map_of (nodes ok) k = map_of (nodes out) k)"
  using assms
  by (cases "map_of (nodes out) (node_name inner)")
    (auto simp: with_identity_def identified_process_def delete_conv')

lemma guard_step:
  assumes "hosts_loop W w spec body" and "loop_at spec (guard_identity spec) n s"
  shows "\<exists>s'. walk_step W w run_options_default s (guard_identity spec) = Continue s' \<and>
    ws_current s' = guard_route spec (ws_ctx s') \<and> \<not> suspension_requested (metadata (ws_ctx s')) \<and>
    loop_count (increment_identity spec) (ws_ctx s') = n \<and>
    map_of (nodes (ws_ctx s')) ''LoopIncrementNode'' = None"
proof -
  let ?pre = "stamp_running W (ws_tick s) (guard_identity spec) (ws_ctx s)"
  let ?nd = "with_identity (loop_guard_node spec) (guard_identity spec)"
  obtain ok where ok: "process ?nd (ws_tick s) ?pre = Inr ok" "metadata ok = metadata ?pre"
      "map_of (nodes ok) (increment_identity spec) = map_of (nodes ?pre) (increment_identity spec)"
      "map_of (nodes ok) ''LoopIncrementNode'' = map_of (nodes ?pre) ''LoopIncrementNode''"
    using suffix_neq [of spec] loop_identities_distinct [of spec]
      identified_keeps [of "loop_guard_node spec" "ws_tick s" ?pre ?pre "guard_identity spec"]
    by (auto simp: loop_guard_node_def)
  have "\<not> suspension_requested (metadata ok)" using ok(2) assms(2) by simp
  from plain_step [OF hosts_loop_nodes(1) [OF assms(1)] _ ok(1) this] obtain s'
    where s': "walk_step W w run_options_default s (guard_identity spec) = Continue s'"
      "nodes (ws_ctx s') = nodes ok" "\<not> suspension_requested (metadata (ws_ctx s'))"
      "ws_current s' = guard_route spec (ws_ctx s')"
    by (auto simp: with_identity_def loop_guard_node_def)
  moreover have "loop_count (increment_identity spec) (ws_ctx s') = n"
    using assms(2) ok(3) s'(2) by (metis loop_count_cong stamp_running_parts(1))
  ultimately show ?thesis using assms(2) ok(4) by auto
qed

lemma increment_step:
  assumes "hosts_loop W w spec body" and "loop_at spec (increment_identity spec) n s"
  shows "\<exists>s'. walk_step W w run_options_default s (increment_identity spec) = Continue s' \<and>
    loop_at spec (body_entry spec) (n + 1) s'"
proof -
  let ?i = "increment_identity spec"
  let ?pre = "stamp_running W (ws_tick s) ?i (ws_ctx s)"
  let ?nd = "with_identity (loop_increment_node spec) ?i"
  have n: "loop_count ?i ?pre = n" using assms(2) by (metis loop_count_cong stamp_running_parts(1))
  obtain ok where ok: "process ?nd (ws_tick s) ?pre = Inr ok" "metadata ok = metadata ?pre"
      "nodes ok = AList.update ?i (JObj [(''iterations'', json_u64 (n + 1))]) (nodes ?pre)"
    using suffix_neq [of spec] assms(2) n
    by (auto simp: with_identity_def identified_process_def loop_increment_node_def
        increment_process_def)
  have "\<not> suspension_requested (metadata ok)" using ok(2) assms(2) by simp
  from plain_step [OF hosts_loop_nodes(2) [OF assms(1)] _ ok(1) this] obtain s'
    where s': "walk_step W w run_options_default s ?i = Continue s'"
      "nodes (ws_ctx s') = nodes ok" "\<not> suspension_requested (metadata (ws_ctx s'))"
      "ws_current s' = Some (body_entry spec)"
    by (auto simp: with_identity_def loop_increment_node_def)
  moreover have "loop_count ?i (ws_ctx s') = n + 1" using ok(3) s'(2) by (simp add: loop_count_def)
  moreover have "map_of (nodes (ws_ctx s')) ''LoopIncrementNode'' = None"
    using suffix_neq [of spec] assms(2) ok(3) s'(2) by simp
  ultimately show ?thesis by blast
qed

lemma guard_route_cases:
  assumes "loop_count (increment_identity spec) c = n" and "unat n < max 1 (unat (max_iterations spec))"
  shows "guard_route spec c =
    (if unat (max_iterations spec) \<le> Suc (unat n) \<or> exit_predicate spec c then Some (exit_to spec)
     else Some (increment_identity spec))"
proof -
  have "unat (max_iterations spec) < 2 ^ 32"
    using unsigned_less [of "max_iterations spec"] by simp
  with assms(2) have n: "Suc (unat n) < 2 ^ 32" by (simp add: max_def split: if_splits)
  have "unat (ucast n :: u32) = unat n" using n by (simp add: unsigned_ucast_eq take_bit_nat_eq_self_iff)
  then have "unat (saturating_add_u32 (ucast n) 1) = Suc (unat n)"
    using n by (simp add: saturating_add_u32_def unat_word_ariths)
  then show ?thesis
    using assms(1) by (simp add: guard_route_def Let_def word_le_nat_alt)
qed


subsection \<open>Properties\<close>

definition body_rows :: "world \<Rightarrow> loop_spec \<Rightarrow> walk_state \<Rightarrow> nat" where
  "body_rows W spec s = length (filter (\<lambda>r. ni_node r = body_entry spec) (rows_of W (ws_ctx s)))"

lemma step_body_rows:
  assumes "registry_keeps_rows W w" and "walk_step W w opts s i = Continue s'"
  shows "body_rows W spec s' = body_rows W spec s + (if i = body_entry spec then 1 else 0)"
  using step_row [OF assms] by (auto simp: body_rows_def)

lemma body_not_router:
  assumes "hosts_loop W w spec body"
  shows "guard_identity spec \<noteq> body_entry spec" "increment_identity spec \<noteq> body_entry spec"
  using assms hosts_loop_nodes [OF assms]
  by (auto simp: hosts_loop_def with_identity_def loop_guard_node_def loop_increment_node_def)

lemma loop_rounds:
  assumes "hosts_loop W w spec body" and "registry_keeps_rows W w"
    and "loop_at spec (body_entry spec) n s" and "unat n < max 1 (unat (max_iterations spec))"
  shows "\<exists>s' k. walk_reaches W w run_options_default s s' \<and> ws_current s' = Some (exit_to spec) \<and>
    body_rows W spec s' = body_rows W spec s + k \<and> 1 \<le> k \<and>
    k \<le> max 1 (unat (max_iterations spec)) - unat n \<and>
    ((\<forall>c. \<not> exit_predicate spec c) \<longrightarrow> k = max 1 (unat (max_iterations spec)) - unat n)"
  using assms(3,4)
proof (induction "unat (max_iterations spec) - unat n" arbitrary: n s rule: less_induct)
  case less
  note rows = step_body_rows [OF assms(2), where spec = spec]
  obtain s1 where s1: "walk_step W w run_options_default s (body_entry spec) = Continue s1"
      "loop_at spec (guard_identity spec) n s1"
    using body_step [OF assms(1) less(2)] by blast
  obtain s2 where s2: "walk_step W w run_options_default s1 (guard_identity spec) = Continue s2"
      "ws_current s2 = guard_route spec (ws_ctx s2)" "\<not> suspension_requested (metadata (ws_ctx s2))"
      "loop_count (increment_identity spec) (ws_ctx s2) = n"
      "map_of (nodes (ws_ctx s2)) ''LoopIncrementNode'' = None"
    using guard_step [OF assms(1) s1(2)] by blast
  have two: "walk_reaches W w run_options_default s s''"
    if "walk_reaches W w run_options_default s2 s''" for s''
    using walk_more [OF _ s1(1) walk_more [OF _ s2(1) that]] less(2) s1(2) by simp
  have here: "body_rows W spec s2 = body_rows W spec s + 1"
    using rows [OF s1(1)] rows [OF s2(1)] body_not_router [OF assms(1)] by simp
  note route = guard_route_cases [OF s2(4) less(3)]
  show ?case
  proof (cases "unat (max_iterations spec) \<le> Suc (unat n) \<or> exit_predicate spec (ws_ctx s2)")
    case True
    with route s2(2) have "ws_current s2 = Some (exit_to spec)" by simp
    with two [OF walk_here] here less(3) True show ?thesis
      by (intro exI [of _ s2] exI [of _ 1]) (auto simp: max_def split: if_splits)
  next
    case False
    with route s2 have "loop_at spec (increment_identity spec) n s2" by simp
    from increment_step [OF assms(1) this] obtain s3
      where s3: "walk_step W w run_options_default s2 (increment_identity spec) = Continue s3"
        "loop_at spec (body_entry spec) (n + 1) s3" by blast
    have "unat (max_iterations spec) < 2 ^ 32"
      using unsigned_less [of "max_iterations spec"] by simp
    with False have "unat n + 1 < 2 ^ 64" by simp
    then have n1: "unat (n + 1) = Suc (unat n)" by (simp add: unat_word_ariths)
    have "unat (max_iterations spec) - unat (n + 1) < unat (max_iterations spec) - unat n"
        "unat (n + 1) < max 1 (unat (max_iterations spec))"
      using n1 False by auto
    from less(1) [OF this(1) s3(2) this(2), unfolded n1]
    obtain s' k where r: "walk_reaches W w run_options_default s3 s'"
        "ws_current s' = Some (exit_to spec)" "body_rows W spec s' = body_rows W spec s3 + k" "1 \<le> k"
        "k \<le> max 1 (unat (max_iterations spec)) - Suc (unat n)"
        "(\<forall>c. \<not> exit_predicate spec c) \<longrightarrow> k = max 1 (unat (max_iterations spec)) - Suc (unat n)"
      by blast
    moreover have "walk_reaches W w run_options_default s s'"
      using False route s2(2) by (intro two walk_more [OF _ s3(1) r(1)]) simp
    moreover have "body_rows W spec s3 = body_rows W spec s + 1"
      using here rows [OF s3(1)] body_not_router [OF assms(1)] by simp
    ultimately show ?thesis
      using False by (intro exI [of _ s'] exI [of _ "Suc k"]) auto
  qed
qed

text \<open>
  C14. A bounded loop runs its body at least once and at most \<open>max_iterations\<close> times and then leaves:
  from the body entry with a fresh counter, the walk reaches the exit node, and the dispatch ledger
  then has between 1 and \<open>max 1 max_iterations\<close> new rows of the body, exactly that maximum when the
  exit predicate never holds.
\<close>

theorem loop_body_bounded:
  assumes "hosts_loop W w spec body" and "registry_keeps_rows W w"
    and "loop_at spec (body_entry spec) 0 s"
  shows "\<exists>s' k. walk_reaches W w run_options_default s s' \<and> ws_current s' = Some (exit_to spec) \<and>
    body_rows W spec s' = body_rows W spec s + k \<and> 1 \<le> k \<and>
    k \<le> max 1 (unat (max_iterations spec)) \<and>
    ((\<forall>c. \<not> exit_predicate spec c) \<longrightarrow> k = max 1 (unat (max_iterations spec)))"
  using loop_rounds [OF assms] by simp


definition sample_spec :: loop_spec where
  "sample_spec = \<lparr>identity_prefix = ''L'', max_iterations = 3, exit_predicate = (\<lambda>_. False),
     body_entry = ''body'', exit_to = ''done''\<rparr>"

definition loop_workflow :: workflow where
  "loop_workflow = workflow_new
     (fold register (lc_nodes (build_loop sample_spec)) (register (sample_node ''body'' False) registry_new))
     (sample_schema [(''body'', [''LGuard''])])"

lemmas loop_sample_defs = loop_workflow_def workflow_new_def build_loop_def sample_spec_def
  guard_identity_def increment_identity_def

lemma sample_hosts_loop: "hosts_loop sample_world loop_workflow sample_spec (sample_node ''body'' False)"
  by (auto simp: hosts_loop_def loop_sample_defs with_identity_def sample_node_def next_after_def
      node_config_next_def sample_schema_def Let_def)

lemma loop_keeps_rows: "registry_keeps_rows sample_world loop_workflow"
proof -
  have "wf_registry (w_registry loop_workflow)"
    by (simp add: loop_sample_defs Let_def wf_registry_register wf_registry_new)
  moreover have "keeps_rows sample_world nd" if "registry_get (w_registry loop_workflow) i = Some nd" for i nd
    using that
    by (auto simp: loop_sample_defs Let_def keeps_rows_def with_identity_def identified_process_def
        loop_guard_node_def loop_increment_node_def increment_process_def sample_node_def registry_new_def
        registry_get_def register_def bind_result_eq_Inr split: if_splits option.splits)
  ultimately show ?thesis by (simp add: registry_keeps_rows_def sample_world_def sample_ext_ok)
qed

theorem loop_body_bounded_witness:
  "\<exists>s'. walk_reaches sample_world loop_workflow run_options_default
       \<lparr>ws_ctx = seed_context loop_workflow JNull, ws_current = Some ''body'',
        ws_ledger = budget_ledger_new, ws_tick = 0, ws_snaps = []\<rparr> s' \<and>
     ws_current s' = Some ''done'' \<and>
     length (filter (\<lambda>r. ni_node r = ''body'') (rows_of sample_world (ws_ctx s'))) = 3"
proof -
  let ?s = "\<lparr>ws_ctx = seed_context loop_workflow JNull, ws_current = Some ''body'',
    ws_ledger = budget_ledger_new, ws_tick = 0, ws_snaps = []\<rparr>"
  have at: "loop_at sample_spec (body_entry sample_spec) 0 ?s"
    by (simp add: seed_context_def suspension_requested_def flag_at_def loop_count_def)
      (simp add: loop_sample_defs)
  have "body_rows sample_world sample_spec ?s = 0"
    by (simp add: body_rows_def seed_context_def read_invocations_def rows_at_def)
  with loop_body_bounded [OF sample_hosts_loop loop_keeps_rows at] show ?thesis
    by (auto simp: body_rows_def sample_spec_def)
qed

end
