(* ===== verification/Cron.thy ===== *)
theory Cron
  imports Prelude "HOL-Library.Monad_Syntax"
begin

text \<open>
  The durable cron primitive (\<open>cron/mod.rs\<close>, \<open>cron/record.rs\<close>, \<open>cron/store.rs\<close>): schedules and their
  validation, the fire log with its silence protocol, the file-backed store and the \<open>tick\<close> driver.

  The \<open>cron\<close>, \<open>chrono\<close> and \<open>chrono-tz\<close> crates are parameters (\<open>cron_ext\<close>): parsing of time zones and
  cron expressions, the next slot of an expression, and the range of \<open>DateTime<Utc>\<close>, outside which
  adding a duration panics. A panic is \<open>None\<close>. The file on disk is the last successfully written
  copy of the entries; whether a write succeeds is a parameter, as the code ignores failures.
\<close>

record cron_ext =
  tz_parse :: "string \<Rightarrow> string option"
  cron_parse_error :: "string \<Rightarrow> string option"
  cron_after :: "string \<Rightarrow> string \<Rightarrow> timestamp \<Rightarrow> timestamp option"
  dt_min :: timestamp
  dt_max :: timestamp

text \<open>The slot an expression gives after an instant lies strictly after it.\<close>

definition cron_ext_ok :: "cron_ext \<Rightarrow> bool" where
  "cron_ext_ok E \<longleftrightarrow> (\<forall>e tz t t'. cron_after E e tz t = Some t' \<longrightarrow> t < t')"

definition ms :: "int \<Rightarrow> int" where
  "ms n = n * 1000000"

text \<open>\<open>t + Duration::milliseconds(n)\<close>\<close>

definition add_ms :: "cron_ext \<Rightarrow> timestamp \<Rightarrow> int \<Rightarrow> timestamp option" where
  "add_ms E t n = (if dt_min E \<le> t + ms n \<and> t + ms n \<le> dt_max E then Some (t + ms n) else None)"

subsection \<open>Schedules\<close>

definition min_interval_ms :: int where
  "min_interval_ms = 60000"

definition max_interval_ms :: int where
  "max_interval_ms = 86400000"

datatype cron_schedule = Calendar string string | Interval int timestamp

record raw_schedule =
  raw_cron_expr :: "string option"
  raw_timezone :: "string option"
  raw_every_ms :: "int option"
  raw_first_fire_at :: "timestamp option"

datatype cron_schedule_error =
    BothCalendarAndInterval
  | NeitherCalendarNorInterval
  | IncompleteCalendarSchedule
  | InvalidCronExpr string
  | InvalidTimezone string
  | NoUpcomingFire
  | IntervalTooShort int
  | IntervalTooLong int

fun validate_schedule :: "cron_ext \<Rightarrow> cron_schedule \<Rightarrow> cron_schedule_error + unit" where
  "validate_schedule E (Calendar expr tz) =
     (case cron_parse_error E expr of
        Some e \<Rightarrow> Inl (InvalidCronExpr (expr @ '': '' @ e)) | None \<Rightarrow> Inr ())"
| "validate_schedule E (Interval every first) =
     (if every < min_interval_ms then Inl (IntervalTooShort every)
      else if every \<ge> max_interval_ms then Inl (IntervalTooLong every)
      else Inr ())"

definition next_calendar_fire_after ::
  "cron_ext \<Rightarrow> string \<Rightarrow> string \<Rightarrow> timestamp \<Rightarrow> cron_schedule_error + timestamp" where
  "next_calendar_fire_after E expr tz after =
     (case cron_parse_error E expr of
        Some e \<Rightarrow> Inl (InvalidCronExpr (expr @ '': '' @ e))
      | None \<Rightarrow> ok_or (cron_after E expr tz after) NoUpcomingFire)"

definition normalize_schedule ::
  "cron_ext \<Rightarrow> raw_schedule \<Rightarrow> timestamp \<Rightarrow> (cron_schedule_error + cron_schedule \<times> timestamp) option" where
  "normalize_schedule E raw now =
     (let cal = (raw_cron_expr raw \<noteq> None \<or> raw_timezone raw \<noteq> None);
          itv = (raw_every_ms raw \<noteq> None)
      in if cal \<and> itv then Some (Inl BothCalendarAndInterval)
         else if \<not> cal \<and> \<not> itv then Some (Inl NeitherCalendarNorInterval)
         else if cal then
           (case (raw_cron_expr raw, raw_timezone raw) of
              (Some expr, Some timezone) \<Rightarrow>
                Some (bind_result (ok_or (tz_parse E timezone) (InvalidTimezone timezone)) (\<lambda>tz.
                  bind_result (validate_schedule E (Calendar expr tz)) (\<lambda>_.
                  bind_result (next_calendar_fire_after E expr tz now) (\<lambda>nxt.
                    Inr (Calendar expr tz, nxt)))))
            | _ \<Rightarrow> Some (Inl IncompleteCalendarSchedule))
         else do {
           every \<leftarrow> raw_every_ms raw;
           first \<leftarrow> (case raw_first_fire_at raw of Some f \<Rightarrow> Some f | None \<Rightarrow> add_ms E now every);
           Some (bind_result (validate_schedule E (Interval every first)) (\<lambda>_.
             Inr (Interval every first, first)))
         })"

text \<open>For the next two, the inner option is the code's and \<open>None\<close> outside is a panic.\<close>

definition result_ok :: "'e + 'a \<Rightarrow> 'a option" where
  "result_ok r = (case r of Inl _ \<Rightarrow> None | Inr a \<Rightarrow> Some a)"

fun recover_next_fire_at ::
  "cron_ext \<Rightarrow> cron_schedule \<Rightarrow> timestamp \<Rightarrow> timestamp option \<Rightarrow> timestamp option option" where
  "recover_next_fire_at E (Calendar expr tz) created lst =
     Some (result_ok (next_calendar_fire_after E expr tz (case lst of Some l \<Rightarrow> l | None \<Rightarrow> created)))"
| "recover_next_fire_at E (Interval every first) created lst =
     (case lst of Some l \<Rightarrow> map_option Some (add_ms E l every) | None \<Rightarrow> Some (Some first))"

fun advance_next_fire_at :: "cron_ext \<Rightarrow> cron_schedule \<Rightarrow> timestamp \<Rightarrow> timestamp option option" where
  "advance_next_fire_at E (Calendar expr tz) fired = Some (result_ok (next_calendar_fire_after E expr tz fired))"
| "advance_next_fire_at E (Interval every first) fired = map_option Some (add_ms E fired every)"

subsection \<open>Records and the fire log\<close>

record cron_record =
  cr_id :: string
  cr_schedule :: cron_schedule
  cr_created_at :: timestamp
  cr_enabled :: bool
  cr_last_fired_at :: "timestamp option"
  cr_next_fire_at :: "timestamp option"

datatype fire_outcome = Reported string | Silent

record cron_fire_log_entry =
  fe_fired_at :: timestamp
  fe_scheduled_at :: "timestamp option"
  fe_outcome_kind :: string
  fe_note :: "string option"

fun fire_outcome_kind_and_note :: "fire_outcome \<Rightarrow> string \<times> string option" where
  "fire_outcome_kind_and_note Silent = (''silent'', None)"
| "fire_outcome_kind_and_note (Reported msg) = (''reported'', Some msg)"

definition fire_log_entry_new ::
  "fire_outcome \<Rightarrow> timestamp \<Rightarrow> timestamp option \<Rightarrow> cron_fire_log_entry" where
  "fire_log_entry_new out fired scheduled =
     (case fire_outcome_kind_and_note out of (kind, note) \<Rightarrow>
        \<lparr>fe_fired_at = fired, fe_scheduled_at = scheduled, fe_outcome_kind = kind, fe_note = note\<rparr>)"

text \<open>The log entry read back from its wire form: any tag other than \<open>silent\<close> reads as \<open>reported\<close>.\<close>

definition fire_log_entry_of_wire :: "cron_fire_log_entry \<Rightarrow> cron_fire_log_entry" where
  "fire_log_entry_of_wire w = w\<lparr>fe_outcome_kind :=
     (if fe_outcome_kind w = ''silent'' then ''silent'' else ''reported'')\<rparr>"

subsection \<open>The file-backed store\<close>

record store_entry =
  se_record :: cron_record
  se_fire_log :: "cron_fire_log_entry list"

record file_cron_store =
  fs_entries :: "store_entry hmap"
  fs_disk :: "store_entry hmap option"

definition store_load :: "store_entry hmap option \<Rightarrow> store_entry hmap" where
  "store_load disk = (case disk of
     None \<Rightarrow> []
   | Some es \<Rightarrow> map (\<lambda>(k, e). (k, e\<lparr>se_fire_log := map fire_log_entry_of_wire (se_fire_log e)\<rparr>)) es)"

definition store_open :: "store_entry hmap option \<Rightarrow> file_cron_store" where
  "store_open disk = \<lparr>fs_entries = store_load disk, fs_disk = disk\<rparr>"

definition persist :: "bool \<Rightarrow> file_cron_store \<Rightarrow> file_cron_store" where
  "persist write_ok s = (if write_ok then s\<lparr>fs_disk := Some (fs_entries s)\<rparr> else s)"

definition upsert :: "bool \<Rightarrow> cron_record \<Rightarrow> file_cron_store \<Rightarrow> file_cron_store" where
  "upsert write_ok r s = persist write_ok (s\<lparr>fs_entries :=
     hm_modify_or_insert (cr_id r) (\<lambda>e. e\<lparr>se_record := r\<rparr>) \<lparr>se_record = r, se_fire_log = []\<rparr>
       (fs_entries s)\<rparr>)"

definition store_list :: "file_cron_store \<Rightarrow> cron_record list" where
  "store_list s = map (se_record \<circ> snd) (fs_entries s)"

definition store_get :: "file_cron_store \<Rightarrow> string \<Rightarrow> cron_record option" where
  "store_get s i = map_option se_record (map_of (fs_entries s) i)"

definition is_due :: "timestamp \<Rightarrow> cron_record \<Rightarrow> bool" where
  "is_due now r \<longleftrightarrow> cr_enabled r \<and> (case cr_next_fire_at r of Some t \<Rightarrow> t \<le> now | None \<Rightarrow> False)"

definition store_due :: "file_cron_store \<Rightarrow> timestamp \<Rightarrow> cron_record list" where
  "store_due s now = filter (is_due now) (map (se_record \<circ> snd) (fs_entries s))"

definition fired_record :: "cron_fire_log_entry \<Rightarrow> timestamp option \<Rightarrow> cron_record \<Rightarrow> cron_record" where
  "fired_record entry nxt r = r\<lparr>cr_last_fired_at := Some (fe_fired_at entry), cr_next_fire_at := nxt\<rparr>"

definition record_fire ::
  "bool \<Rightarrow> string \<Rightarrow> cron_fire_log_entry \<Rightarrow> timestamp option \<Rightarrow> file_cron_store \<Rightarrow> file_cron_store" where
  "record_fire write_ok i entry nxt s = persist write_ok (s\<lparr>fs_entries := hm_modify i
     (\<lambda>e. e\<lparr>se_record := fired_record entry nxt (se_record e), se_fire_log := se_fire_log e @ [entry]\<rparr>)
     (fs_entries s)\<rparr>)"

definition fire_log :: "file_cron_store \<Rightarrow> string \<Rightarrow> cron_fire_log_entry list" where
  "fire_log s i = (case map_of (fs_entries s) i of Some e \<Rightarrow> se_fire_log e | None \<Rightarrow> [])"

subsection \<open>The tick driver\<close>

definition advance_anchor :: "timestamp \<Rightarrow> cron_record \<Rightarrow> timestamp" where
  "advance_anchor now r = (case cr_schedule r of
     Calendar _ _ \<Rightarrow> (case cr_next_fire_at r of Some t \<Rightarrow> t | None \<Rightarrow> now)
   | Interval _ _ \<Rightarrow> now)"

fun fire_all ::
  "cron_ext \<Rightarrow> (string \<Rightarrow> cron_fire_log_entry \<Rightarrow> timestamp option \<Rightarrow> 's \<Rightarrow> 's) \<Rightarrow>
   timestamp \<Rightarrow> (cron_record \<Rightarrow> fire_outcome) \<Rightarrow> cron_record list \<Rightarrow> 's \<Rightarrow> 's option" where
  "fire_all E rec now fire [] s = Some s"
| "fire_all E rec now fire (r # rs) s =
     (case advance_next_fire_at E (cr_schedule r) (advance_anchor now r) of
        None \<Rightarrow> None
      | Some nxt \<Rightarrow> fire_all E rec now fire rs
          (rec (cr_id r) (fire_log_entry_new (fire r) now (cr_next_fire_at r)) nxt s))"

text \<open>
  The driver over any store, given by its \<open>due\<close> and \<open>record_fire\<close>; the result is the new store and the
  number of records fired.
\<close>

definition tick_with ::
  "cron_ext \<Rightarrow> ('s \<Rightarrow> timestamp \<Rightarrow> cron_record list) \<Rightarrow>
   (string \<Rightarrow> cron_fire_log_entry \<Rightarrow> timestamp option \<Rightarrow> 's \<Rightarrow> 's) \<Rightarrow>
   's \<Rightarrow> timestamp \<Rightarrow> (cron_record \<Rightarrow> fire_outcome) \<Rightarrow> ('s \<times> nat) option" where
  "tick_with E due rec s now fire =
     map_option (\<lambda>s'. (s', length (due s now))) (fire_all E rec now fire (due s now) s)"

definition tick ::
  "cron_ext \<Rightarrow> bool \<Rightarrow> file_cron_store \<Rightarrow> timestamp \<Rightarrow> (cron_record \<Rightarrow> fire_outcome) \<Rightarrow>
   (file_cron_store \<times> nat) option" where
  "tick E write_ok s now fire = tick_with E store_due (record_fire write_ok) s now fire"

subsection \<open>The contract of a store\<close>

locale cron_store =
  fixes valid :: "'s \<Rightarrow> bool"
    and get_rec :: "'s \<Rightarrow> string \<Rightarrow> cron_record option"
    and due_recs :: "'s \<Rightarrow> timestamp \<Rightarrow> cron_record list"
    and rec_fire :: "string \<Rightarrow> cron_fire_log_entry \<Rightarrow> timestamp option \<Rightarrow> 's \<Rightarrow> 's"
    and log_of :: "'s \<Rightarrow> string \<Rightarrow> cron_fire_log_entry list"
  assumes get_id: "valid s \<Longrightarrow> get_rec s i = Some r \<Longrightarrow> cr_id r = i"
    and due_iff: "valid s \<Longrightarrow>
      r \<in> set (due_recs s now) \<longleftrightarrow> is_due now r \<and> get_rec s (cr_id r) = Some r"
    and due_distinct: "valid s \<Longrightarrow> distinct (map cr_id (due_recs s now))"
    and valid_fire: "valid s \<Longrightarrow> valid (rec_fire i e n s)"
    and get_fire: "get_rec (rec_fire i e n s) j =
      (if j = i then map_option (fired_record e n) (get_rec s j) else get_rec s j)"
    and log_fire: "log_of (rec_fire i e n s) j =
      (if j = i \<and> get_rec s j \<noteq> None then log_of s j @ [e] else log_of s j)"
begin

definition fire_effect ::
  "cron_ext \<Rightarrow> timestamp \<Rightarrow> (cron_record \<Rightarrow> fire_outcome) \<Rightarrow> cron_record list \<Rightarrow> 's \<Rightarrow> 's \<Rightarrow> bool" where
  "fire_effect E now fire rs s s' \<longleftrightarrow>
     (\<forall>i. i \<notin> cr_id ` set rs \<longrightarrow> get_rec s' i = get_rec s i \<and> log_of s' i = log_of s i) \<and>
     (\<forall>r\<in>set rs. \<exists>nxt. advance_next_fire_at E (cr_schedule r) (advance_anchor now r) = Some nxt \<and>
        get_rec s' (cr_id r) =
          Some (r\<lparr>cr_last_fired_at := Some now, cr_next_fire_at := nxt\<rparr>) \<and>
        log_of s' (cr_id r) =
          log_of s (cr_id r) @ [fire_log_entry_new (fire r) now (cr_next_fire_at r)])"

lemma entry_fired_at [simp]: "fe_fired_at (fire_log_entry_new out now sch) = now"
  by (cases out) (simp_all add: fire_log_entry_new_def)

lemma fire_all_effect:
  assumes "fire_all E rec_fire now fire rs s = Some s'" and "distinct (map cr_id rs)"
    and "\<forall>r\<in>set rs. get_rec s (cr_id r) = Some r"
  shows "fire_effect E now fire rs s s'"
  using assms
proof (induction rs arbitrary: s)
  case Nil
  then show ?case by (simp add: fire_effect_def)
next
  case (Cons r rs)
  then obtain nxt where nxt: "advance_next_fire_at E (cr_schedule r) (advance_anchor now r) = Some nxt"
    and rest: "fire_all E rec_fire now fire rs
      (rec_fire (cr_id r) (fire_log_entry_new (fire r) now (cr_next_fire_at r)) nxt s) = Some s'"
    by (auto split: option.splits)
  let ?s = "rec_fire (cr_id r) (fire_log_entry_new (fire r) now (cr_next_fire_at r)) nxt s"
  have other: "cr_id r' \<noteq> cr_id r" if "r' \<in> set rs" for r' using Cons.prems(2) that by (auto simp: image_iff)
  then have "fire_effect E now fire rs ?s s'"
    using Cons.IH [OF rest] Cons.prems(2,3) by (auto simp: get_fire)
  moreover have "get_rec ?s (cr_id r) = Some (r\<lparr>cr_last_fired_at := Some now, cr_next_fire_at := nxt\<rparr>)"
      "log_of ?s (cr_id r) = log_of s (cr_id r) @ [fire_log_entry_new (fire r) now (cr_next_fire_at r)]"
    using Cons.prems(3) by (auto simp: get_fire log_fire fired_record_def)
  ultimately show ?case
    using Cons.prems(2) nxt other unfolding fire_effect_def
    by (auto simp: get_fire log_fire image_iff)
qed

lemma valid_fire_all: "fire_all E rec_fire now fire rs s = Some s' \<Longrightarrow> valid s \<Longrightarrow> valid s'"
  by (induction rs arbitrary: s) (auto simp: valid_fire split: option.splits)

lemma tick_effect:
  assumes "valid s" and "tick_with E due_recs rec_fire s now fire = Some (s', n)"
  shows "valid s' \<and> n = length (due_recs s now) \<and> fire_effect E now fire (due_recs s now) s s'"
  using assms fire_all_effect [of E now fire "due_recs s now" s s']
  by (auto simp: tick_with_def due_distinct due_iff valid_fire_all)

end


subsection \<open>The file-backed store keeps the contract\<close>

definition valid_store :: "file_cron_store \<Rightarrow> bool" where
  "valid_store s \<longleftrightarrow> wf_hmap (fs_entries s) \<and>
     (\<forall>k e. map_of (fs_entries s) k = Some e \<longrightarrow> cr_id (se_record e) = k)"

lemma persist_entries [simp]: "fs_entries (persist b s) = fs_entries s"
  by (simp add: persist_def)

lemma valid_store_persist [simp]: "valid_store (persist b s) = valid_store s"
  by (simp add: valid_store_def)

lemma valid_store_upsert: "valid_store s \<Longrightarrow> valid_store (upsert b r s)"
  by (auto simp: valid_store_def upsert_def split: if_splits option.splits)

lemma store_due_iff:
  assumes "valid_store s"
  shows "r \<in> set (store_due s now) \<longleftrightarrow> is_due now r \<and> store_get s (cr_id r) = Some r"
proof -
  have dist: "distinct (map fst (fs_entries s))" using assms by (simp add: valid_store_def wf_hmap_def)
  have "(\<exists>(k, e)\<in>set (fs_entries s). se_record e = r) \<longleftrightarrow> store_get s (cr_id r) = Some r"
    using assms by (auto simp: valid_store_def store_get_def dest: map_of_SomeD map_of_is_SomeI [OF dist])
  then show ?thesis by (force simp: store_due_def)
qed

lemma store_due_distinct:
  assumes "valid_store s"
  shows "distinct (map cr_id (store_due s now))"
proof -
  have dist: "distinct (map fst (fs_entries s))" using assms by (simp add: valid_store_def wf_hmap_def)
  have "map cr_id (map (se_record \<circ> snd) (fs_entries s)) = map fst (fs_entries s)"
    using assms by (auto simp: valid_store_def dest: map_of_is_SomeI [OF dist])
  then show ?thesis unfolding store_due_def using dist by (metis distinct_map_filter)
qed

interpretation file_store: cron_store valid_store store_get store_due "record_fire b" fire_log for b
proof
  fix s i r
  assume "valid_store s" and "store_get s i = Some r"
  then show "cr_id r = i" by (auto simp: store_get_def valid_store_def)
next
  fix s i e n
  assume "valid_store s"
  then show "valid_store (record_fire b i e n s)"
    by (auto simp: record_fire_def valid_store_def fired_record_def split: if_splits)
qed (auto simp: store_due_iff store_due_distinct record_fire_def store_get_def fire_log_def option.map_comp
    o_def split: option.splits)

subsection \<open>Properties\<close>

text \<open>
  C22. A tick fires every due, enabled record exactly once and nothing else: it returns the number of
  due records, appends one entry with the scheduled and the actual time to the log of each of them,
  stamps the actual time as the last fire and moves the record to its next time, and leaves every
  other record and log alone. Well-formedness of the store is kept.
\<close>

theorem tick_fires_due_once:
  assumes "valid_store s" and "tick E b s now fire = Some (s', n)" and "store_get s i = Some r"
  shows "valid_store s' \<and> n = length (store_due s now) \<and>
    (if is_due now r
     then \<exists>nxt. advance_next_fire_at E (cr_schedule r) (advance_anchor now r) = Some nxt \<and>
       store_get s' i = Some (r\<lparr>cr_last_fired_at := Some now, cr_next_fire_at := nxt\<rparr>) \<and>
       fire_log s' i = fire_log s i @ [fire_log_entry_new (fire r) now (cr_next_fire_at r)]
     else store_get s' i = Some r \<and> fire_log s' i = fire_log s i)"
proof -
  have id: "cr_id r = i" using assms(1,3) by (rule file_store.get_id)
  have eff: "valid_store s' \<and> n = length (store_due s now) \<and>
      file_store.fire_effect E now fire (store_due s now) s s'"
    using file_store.tick_effect [OF assms(1)] assms(2) unfolding tick_def by blast
  have due: "r \<in> set (store_due s now) \<longleftrightarrow> is_due now r"
    using assms(1,3) id by (simp add: store_due_iff)
  have "i \<in> cr_id ` set (store_due s now) \<longleftrightarrow> is_due now r"
    using assms(1,3) id by (force simp: store_due_iff)
  with eff due id assms(3) show ?thesis
    unfolding file_store.fire_effect_def by auto
qed

text \<open>
  C23. An interval schedule makes up for any downtime with exactly one fire: after a tick fired it, it is
  not due again before a full period from the actual fire time, so that no tick before then appends
  to its log, however many periods were missed.
\<close>

theorem interval_single_catch_up:
  assumes "valid_store s" and "tick E b s now fire = Some (s', n)"
    and "store_get s i = Some r" and "cr_schedule r = Interval every first" and "is_due now r"
    and "now' < now + ms every" and "tick E b' s' now' fire' = Some (s'', n')"
  shows "\<exists>e. fire_log s' i = fire_log s i @ [e] \<and> fe_fired_at e = now \<and>
    fe_scheduled_at e = cr_next_fire_at r \<and> fire_log s'' i = fire_log s' i"
proof -
  have id: "cr_id r = i" using assms(1,3) by (rule file_store.get_id)
  have eff: "valid_store s'" "file_store.fire_effect E now fire (store_due s now) s s'"
    using file_store.tick_effect [OF assms(1)] assms(2) unfolding tick_def by blast+
  have "r \<in> set (store_due s now)" using assms(1,3,5) id by (simp add: store_due_iff)
  with eff(2) obtain nxt where nxt:
      "advance_next_fire_at E (cr_schedule r) (advance_anchor now r) = Some nxt"
      "store_get s' i = Some (r\<lparr>cr_last_fired_at := Some now, cr_next_fire_at := nxt\<rparr>)"
      "fire_log s' i = fire_log s i @ [fire_log_entry_new (fire r) now (cr_next_fire_at r)]"
    using id unfolding file_store.fire_effect_def by auto
  have "nxt = Some (now + ms every)"
    using nxt(1) assms(4) by (auto simp: advance_anchor_def add_ms_def split: if_splits)
  then have "i \<notin> cr_id ` set (store_due s' now')"
    using nxt(2) assms(6) eff(1) by (auto simp: store_due_iff is_due_def)
  moreover have "file_store.fire_effect E now' fire' (store_due s' now') s' s''"
    using file_store.tick_effect [OF eff(1)] assms(7) unfolding tick_def by blast
  ultimately have "fire_log s'' i = fire_log s' i"
    unfolding file_store.fire_effect_def by blast
  with nxt(3) show ?thesis
    by (cases "fire r") (auto simp: fire_log_entry_new_def)
qed

text \<open>The slots of a cron expression from a first one on.\<close>

fun slot :: "cron_ext \<Rightarrow> string \<Rightarrow> string \<Rightarrow> timestamp option \<Rightarrow> nat \<Rightarrow> timestamp option" where
  "slot E expr tz t0 0 = t0"
| "slot E expr tz t0 (Suc k) = Option.bind (slot E expr tz t0 k) (cron_after E expr tz)"

fun ticks ::
  "cron_ext \<Rightarrow> (timestamp \<times> bool) list \<Rightarrow> (cron_record \<Rightarrow> fire_outcome) \<Rightarrow> file_cron_store \<Rightarrow>
   file_cron_store option" where
  "ticks E [] fire s = Some s"
| "ticks E ((now, b) # ts) fire s =
     (case tick E b s now fire of None \<Rightarrow> None | Some (s', n) \<Rightarrow> ticks E ts fire s')"

lemma calendar_tick:
  assumes "valid_store s" and "tick E b s now fire = Some (s', n)" and "store_get s i = Some r"
    and "cr_schedule r = Calendar expr tz" and "cron_parse_error E expr = None"
    and "cr_next_fire_at r = slot E expr tz t0 k"
  shows "valid_store s' \<and> (\<exists>r' k' new. store_get s' i = Some r' \<and> cr_schedule r' = Calendar expr tz \<and>
    cr_next_fire_at r' = slot E expr tz t0 k' \<and> k \<le> k' \<and> fire_log s' i = fire_log s i @ new \<and>
    map fe_scheduled_at new = map (slot E expr tz t0) [k..<k'])"
proof -
  have id: "cr_id r = i" using assms(1,3) by (rule file_store.get_id)
  have eff: "valid_store s'" "file_store.fire_effect E now fire (store_due s now) s s'"
    using file_store.tick_effect [OF assms(1)] assms(2) unfolding tick_def by blast+
  show ?thesis
  proof (cases "is_due now r")
    case True
    then obtain t where t: "cr_next_fire_at r = Some t" by (auto simp: is_due_def split: option.splits)
    have "r \<in> set (store_due s now)" using assms(1,3) id True by (simp add: store_due_iff)
    with eff(2) obtain nxt where nxt:
        "advance_next_fire_at E (cr_schedule r) (advance_anchor now r) = Some nxt"
        "store_get s' i = Some (r\<lparr>cr_last_fired_at := Some now, cr_next_fire_at := nxt\<rparr>)"
        "fire_log s' i = fire_log s i @ [fire_log_entry_new (fire r) now (cr_next_fire_at r)]"
      using id unfolding file_store.fire_effect_def by auto
    have "nxt = slot E expr tz t0 (Suc k)"
      using nxt(1) assms(4-6) t
      by (auto simp: advance_anchor_def next_calendar_fire_after_def result_ok_def ok_or_def
          split: option.splits)
    moreover have "fe_scheduled_at (fire_log_entry_new (fire r) now (cr_next_fire_at r)) = slot E expr tz t0 k"
      using assms(6) by (cases "fire r") (simp_all add: fire_log_entry_new_def)
    ultimately show ?thesis
      using eff(1) nxt(2,3) assms(4)
      by (intro conjI exI [of _ "r\<lparr>cr_last_fired_at := Some now, cr_next_fire_at := nxt\<rparr>"]
          exI [of _ "Suc k"] exI [of _ "[fire_log_entry_new (fire r) now (cr_next_fire_at r)]"]) auto
  next
    case False
    then have "i \<notin> cr_id ` set (store_due s now)"
      using assms(1,3) id by (auto simp: store_due_iff)
    then have "store_get s' i = Some r" "fire_log s' i = fire_log s i"
      using eff(2) assms(3) unfolding file_store.fire_effect_def by auto
    with eff(1) assms(4,6) show ?thesis by (intro conjI exI [of _ k] exI) auto
  qed
qed

text \<open>
  A calendar schedule does not drift: however late, early or often ticks come, the scheduled times
  in its log are exactly the successive slots of its cron expression, starting with the one it was
  waiting for, none skipped and none repeated, and it is waiting for the slot after the last one.
\<close>

theorem calendar_drift_free:
  assumes "valid_store s" and "ticks E ts fire s = Some s'" and "store_get s i = Some r"
    and "cr_schedule r = Calendar expr tz" and "cron_parse_error E expr = None"
  shows "\<exists>r' n new. store_get s' i = Some r' \<and> fire_log s' i = fire_log s i @ new \<and>
    map fe_scheduled_at new = map (slot E expr tz (cr_next_fire_at r)) [0..<n] \<and>
    cr_next_fire_at r' = slot E expr tz (cr_next_fire_at r) n"
proof -
  have "\<exists>r' k' new. store_get s' i = Some r' \<and> fire_log s' i = fire_log s i @ new \<and> k \<le> k' \<and>
      map fe_scheduled_at new = map (slot E expr tz t0) [k..<k'] \<and>
      cr_next_fire_at r' = slot E expr tz t0 k'"
    if "valid_store s" "ticks E ts fire s = Some s'" "store_get s i = Some r"
      "cr_schedule r = Calendar expr tz" "cr_next_fire_at r = slot E expr tz t0 k" for t0 k s r
    using that
  proof (induction ts arbitrary: s r k)
    case Nil
    then show ?case by force
  next
    case (Cons tb ts)
    obtain now b where tb: "tb = (now, b)" by force
    then obtain s1 n1 where s1: "tick E b s now fire = Some (s1, n1)" "ticks E ts fire s1 = Some s'"
      using Cons.prems(2) by (auto split: option.splits)
    from calendar_tick [OF Cons.prems(1) s1(1) Cons.prems(3,4) assms(5) Cons.prems(5)]
    obtain r1 k1 new1 where r1: "valid_store s1" "store_get s1 i = Some r1"
        "cr_schedule r1 = Calendar expr tz" "cr_next_fire_at r1 = slot E expr tz t0 k1" "k \<le> k1"
        "fire_log s1 i = fire_log s i @ new1" "map fe_scheduled_at new1 = map (slot E expr tz t0) [k..<k1]"
      by blast
    from Cons.IH [OF r1(1) s1(2) r1(2,3,4)] obtain r' k' new where r':
        "store_get s' i = Some r'" "fire_log s' i = fire_log s1 i @ new" "k1 \<le> k'"
        "map fe_scheduled_at new = map (slot E expr tz t0) [k1..<k']"
        "cr_next_fire_at r' = slot E expr tz t0 k'"
      by blast
    moreover have "[k..<k'] = [k..<k1] @ [k1..<k']"
      using r1(5) r'(3) by (metis le_Suc_ex upt_add_eq_append)
    ultimately show ?case
      using r1 by (intro exI [of _ r'] exI [of _ k'] exI [of _ "new1 @ new"]) simp
  qed
  from this [OF assms(1-4), of "cr_next_fire_at r" 0] show ?thesis by fastforce
qed


subsection \<open>Restart\<close>

definition clean_log :: "cron_fire_log_entry list \<Rightarrow> bool" where
  "clean_log es \<longleftrightarrow> (\<forall>e\<in>set es. (fe_outcome_kind e = ''silent'' \<and> fe_note e = None) \<or>
     (fe_outcome_kind e = ''reported'' \<and> fe_note e \<noteq> None))"

definition clean_store :: "file_cron_store \<Rightarrow> bool" where
  "clean_store s \<longleftrightarrow> (\<forall>i. clean_log (fire_log s i))"

lemma clean_new [simp]: "clean_log [fire_log_entry_new out now sch]"
  by (cases out) (simp_all add: clean_log_def fire_log_entry_new_def)

lemma clean_log_append [simp]: "clean_log (a @ b) \<longleftrightarrow> clean_log a \<and> clean_log b"
  by (auto simp: clean_log_def)

lemma clean_log_wire: "clean_log es \<Longrightarrow> map fire_log_entry_of_wire es = es"
  by (rule map_idI) (auto simp: clean_log_def fire_log_entry_of_wire_def)

lemma store_open_load:
  "store_get (store_open (Some (fs_entries s))) i = store_get s i"
  "fire_log (store_open (Some (fs_entries s))) i = map fire_log_entry_of_wire (fire_log s i)"
  by (auto simp: store_open_def store_load_def store_get_def fire_log_def map_of_map option.map_comp
      o_def split: option.splits)

lemma fire_all_disk:
  "fire_all E (record_fire True) now fire rs s = Some s' \<Longrightarrow> rs \<noteq> [] \<Longrightarrow>
     fs_disk s' = Some (fs_entries s')"
proof (induction rs arbitrary: s)
  case (Cons r rs)
  then show ?case
    by (cases rs) (auto simp: record_fire_def persist_def split: option.splits)
qed simp

text \<open>
  The silence protocol and the fire log survive a restart: every entry a tick logs is either
  silent without a note or reported with one, and after a tick that fired something and whose
  write succeeded, a process that opens the file again sees the same records and the same logs.
\<close>

theorem cron_survives_restart:
  assumes "valid_store s" and "clean_store s" and "tick E True s now fire = Some (s', n)" and "0 < n"
  shows "clean_store s' \<and> (\<forall>i. store_get (store_open (fs_disk s')) i = store_get s' i \<and>
    fire_log (store_open (fs_disk s')) i = fire_log s' i)"
proof -
  have eff: "n = length (store_due s now)" "file_store.fire_effect E now fire (store_due s now) s s'"
    using file_store.tick_effect [OF assms(1)] assms(3) unfolding tick_def by blast+
  have "clean_log (fire_log s' i)" for i
  proof (cases "i \<in> cr_id ` set (store_due s now)")
    case True
    then obtain r where "fire_log s' i = fire_log s i @ [fire_log_entry_new (fire r) now (cr_next_fire_at r)]"
      using eff(2) unfolding file_store.fire_effect_def by auto
    with assms(2) show ?thesis by (simp add: clean_store_def)
  next
    case False
    with eff(2) assms(2) show ?thesis by (simp add: file_store.fire_effect_def clean_store_def)
  qed
  moreover have "fs_disk s' = Some (fs_entries s')"
    using assms(3,4) eff(1) fire_all_disk [of E now fire "store_due s now" s s']
    by (auto simp: tick_def tick_with_def)
  ultimately show ?thesis by (simp add: clean_store_def store_open_load clean_log_wire)
qed

subsection \<open>Normalisation\<close>

text \<open>
  An interval that is far too long crashes instead of being rejected: with no explicit first fire,
  the first fire is computed before the bounds are checked, so a period that leaves the range of
  dates panics, although validation of that schedule would report it as too long.
\<close>

theorem normalize_panics_before_validating:
  assumes "raw_cron_expr raw = None" and "raw_timezone raw = None" and "raw_first_fire_at raw = None"
    and "raw_every_ms raw = Some every" and "max_interval_ms \<le> every" and "dt_max E < now + ms every"
  shows "normalize_schedule E raw now = None \<and>
    validate_schedule E (Interval every first) = Inl (IntervalTooLong every)"
  using assms
  by (auto simp: normalize_schedule_def add_ms_def min_interval_ms_def max_interval_ms_def)

text \<open>
  What normalisation accepts is sound: the result is one kind of schedule, an interval lies in the
  allowed bounds and starts where it says, and a calendar schedule parses and its first fire is its
  next slot, strictly in the future.
\<close>

theorem normalize_sound:
  assumes "cron_ext_ok E" and "normalize_schedule E raw now = Some (Inr (sched, first))"
  shows "case sched of
      Interval every f \<Rightarrow> raw_every_ms raw = Some every \<and> f = first \<and> 60000 \<le> every \<and> every < 86400000 \<and>
        (raw_first_fire_at raw = None \<longrightarrow> first = now + ms every) \<and>
        raw_cron_expr raw = None \<and> raw_timezone raw = None
    | Calendar expr tz \<Rightarrow> raw_cron_expr raw = Some expr \<and> cron_parse_error E expr = None \<and>
        Option.bind (raw_timezone raw) (tz_parse E) = Some tz \<and>
        cron_after E expr tz now = Some first \<and> now < first \<and> raw_every_ms raw = None"
  using assms
  by (auto simp: normalize_schedule_def next_calendar_fire_after_def add_ms_def ok_or_def cron_ext_ok_def
      min_interval_ms_def max_interval_ms_def Let_def bind_result_eq_Inr bind_eq_Some_conv
      split: if_splits option.splits)

subsection \<open>Concrete schedules\<close>

text \<open>A daily slot, in an unbounded range of dates that ends after \<open>10\<close> years.\<close>

definition sample_cron :: cron_ext where
  "sample_cron = \<lparr>tz_parse = Some, cron_parse_error = (\<lambda>_. None),
     cron_after = (\<lambda>e tz t. Some (t + ms 86400000)), dt_min = 0, dt_max = ms 315360000000\<rparr>"

definition sample_record :: "string \<Rightarrow> cron_schedule \<Rightarrow> cron_record" where
  "sample_record i sch = \<lparr>cr_id = i, cr_schedule = sch, cr_created_at = 0, cr_enabled = True,
     cr_last_fired_at = None, cr_next_fire_at = Some 1000\<rparr>"

definition sample_store :: file_cron_store where
  "sample_store = upsert True (sample_record ''i'' (Interval 60000 1000))
     (upsert True (sample_record ''c'' (Calendar ''e'' ''UTC'')) (store_open None))"

lemma sample_store_valid: "valid_store sample_store"
  unfolding sample_store_def
  by (intro valid_store_upsert) (simp add: valid_store_def store_open_def store_load_def)

lemma sample_store_clean: "clean_store sample_store"
  by (simp add: clean_store_def sample_store_def upsert_def store_open_def store_load_def fire_log_def
      clean_log_def sample_record_def split: option.splits)

lemmas sample_cron_defs = sample_cron_def sample_record_def sample_store_def upsert_def store_open_def
  store_load_def store_get_def is_due_def

lemma sample_gets:
  "store_get sample_store ''i'' = Some (sample_record ''i'' (Interval 60000 1000))"
  "store_get sample_store ''c'' = Some (sample_record ''c'' (Calendar ''e'' ''UTC''))"
  by (simp_all add: sample_cron_defs)

lemma sample_tick: "\<exists>s'. tick sample_cron True sample_store 5000 (\<lambda>_. Silent) = Some (s', 2)"
  by (simp add: tick_def tick_with_def store_due_def sample_cron_defs hm_modify_or_insert_def persist_def
      advance_anchor_def add_ms_def ms_def)

theorem tick_fires_due_once_witness:
  "\<exists>s'. tick sample_cron True sample_store 5000 (\<lambda>_. Silent) = Some (s', 2) \<and> valid_store s' \<and>
     (\<exists>e. fire_log s' ''i'' = fire_log sample_store ''i'' @ [e])"
proof -
  obtain s' where t: "tick sample_cron True sample_store 5000 (\<lambda>_. Silent) = Some (s', 2)"
    using sample_tick by blast
  from tick_fires_due_once [OF sample_store_valid t sample_gets(1)] t show ?thesis
    by (auto simp: sample_record_def is_due_def)
qed

theorem interval_single_catch_up_witness:
  "\<exists>s' s'' n e. tick sample_cron True sample_store 5000 (\<lambda>_. Silent) = Some (s', 2) \<and>
     tick sample_cron True s' 6000 (\<lambda>_. Silent) = Some (s'', n) \<and>
     fire_log s'' ''i'' = fire_log sample_store ''i'' @ [e]"
proof -
  obtain s' where t: "tick sample_cron True sample_store 5000 (\<lambda>_. Silent) = Some (s', 2)"
    using sample_tick by blast
  moreover have "\<exists>s'' n. tick sample_cron True s' 6000 (\<lambda>_. Silent) = Some (s'', n)"
    using t
    by (auto simp: tick_def tick_with_def store_due_def sample_cron_defs hm_modify_or_insert_def persist_def
        advance_anchor_def add_ms_def ms_def record_fire_def hm_modify_def fired_record_def
        next_calendar_fire_after_def result_ok_def)
  then obtain s'' n where t2: "tick sample_cron True s' 6000 (\<lambda>_. Silent) = Some (s'', n)" by blast
  ultimately show ?thesis
    using interval_single_catch_up [OF sample_store_valid t sample_gets(1) _ _ _ t2]
    by (auto simp: sample_record_def is_due_def ms_def)
qed

theorem calendar_drift_free_witness:
  "\<exists>s' r' n new. ticks sample_cron [(5000, True)] (\<lambda>_. Silent) sample_store = Some s' \<and>
     store_get s' ''c'' = Some r' \<and> fire_log s' ''c'' = fire_log sample_store ''c'' @ new \<and>
     map fe_scheduled_at new = map (slot sample_cron ''e'' ''UTC'' (Some 1000)) [0..<n]"
proof -
  obtain s' where "tick sample_cron True sample_store 5000 (\<lambda>_. Silent) = Some (s', 2)"
    using sample_tick by blast
  then have t: "ticks sample_cron [(5000, True)] (\<lambda>_. Silent) sample_store = Some s'" by simp
  show ?thesis
    using calendar_drift_free [OF sample_store_valid t sample_gets(2), of "''e''" "''UTC''"] t
    by (auto simp: sample_record_def sample_cron_def)
qed

theorem cron_survives_restart_witness:
  "\<exists>s'. tick sample_cron True sample_store 5000 (\<lambda>_. Silent) = Some (s', 2) \<and>
     fire_log (store_open (fs_disk s')) ''i'' = fire_log s' ''i''"
  using sample_tick cron_survives_restart [OF sample_store_valid sample_store_clean, of sample_cron 5000
      "\<lambda>_. Silent" _ 2] by fastforce

definition sample_raw :: "int \<Rightarrow> raw_schedule" where
  "sample_raw n = \<lparr>raw_cron_expr = None, raw_timezone = None, raw_every_ms = Some n, raw_first_fire_at = None\<rparr>"

theorem normalize_panics_before_validating_witness:
  "normalize_schedule sample_cron (sample_raw 9223372036854775807) 0 = None"
  using normalize_panics_before_validating [of "sample_raw 9223372036854775807" 9223372036854775807 sample_cron 0]
  by (simp add: sample_raw_def sample_cron_def ms_def max_interval_ms_def)

theorem normalize_sound_witness:
  "\<exists>first. normalize_schedule sample_cron (sample_raw 60000) 7 = Some (Inr (Interval 60000 first, first)) \<and>
     first = 7 + ms 60000"
proof -
  have ok: "cron_ext_ok sample_cron" by (simp add: cron_ext_ok_def sample_cron_def ms_def)
  have "normalize_schedule sample_cron (sample_raw 60000) 7 =
      Some (Inr (Interval 60000 (7 + ms 60000), 7 + ms 60000))"
    by (simp add: normalize_schedule_def sample_raw_def sample_cron_def add_ms_def ms_def
        min_interval_ms_def max_interval_ms_def)
  with normalize_sound [OF ok this] show ?thesis by blast
qed

end
