(* ===== verification/Lease.thy ===== *)
theory Lease
  imports Strings
begin

text \<open>
  The advisory session lease (\<open>term-core/src/lease.rs\<close>) over a tmux user option. Every driver call is
  one atomic step of a client, so a client is a program over \<open>show_option\<close> and \<open>set_option\<close>, and
  clients interleave call by call. The tmux server itself is a parameter: \<open>tmux_ok\<close> states what
  \<open>lease.rs\<close> documents of it, that a write always succeeds and overwrites and that a read shows the
  last value written.
\<close>

subsection \<open>Driver errors and programs\<close>

datatype tmux_error =
    NotInstalled
  | NoServer
  | ExitError int string
  | Io string
  | WithContext string tmux_error
  | Timeout string int

fun root_cause :: "tmux_error \<Rightarrow> tmux_error" where
  "root_cause (WithContext action source) = root_cause source"
| "root_cause e = e"

datatype 'a driver_prog =
    Return 'a
  | ShowOption string "tmux_error + string \<Rightarrow> 'a driver_prog"
  | SetOption string string "tmux_error + unit \<Rightarrow> 'a driver_prog"

primrec and_then :: "'a driver_prog \<Rightarrow> ('a \<Rightarrow> 'b driver_prog) \<Rightarrow> 'b driver_prog" where
  "and_then (Return a) f = f a"
| "and_then (ShowOption n k) f = ShowOption n (\<lambda>r. and_then (k r) f)"
| "and_then (SetOption n v k) f = SetOption n v (\<lambda>r. and_then (k r) f)"

subsection \<open>The lease and its wire format\<close>

record lease =
  l_run_id :: string
  l_nonce :: string
  l_identity :: string
  l_expires_at_ms :: u64

definition to_value :: "lease \<Rightarrow> string" where
  "to_value l = l_run_id l @ '':'' @ l_nonce l @ '':'' @ l_identity l @ '':'' @
     decimal (unat (l_expires_at_ms l))"

definition lease_parse :: "string \<Rightarrow> lease option" where
  "lease_parse raw =
     (case split_on (CHR '':'') raw of
        [r, n, i, e] \<Rightarrow> map_option
          (\<lambda>ms. \<lparr>l_run_id = r, l_nonce = n, l_identity = i, l_expires_at_ms = ms\<rparr>) (parse_u64 e)
      | _ \<Rightarrow> None)"

definition lease_is_expired :: "lease \<Rightarrow> u64 \<Rightarrow> bool" where
  "lease_is_expired l now \<longleftrightarrow> now \<ge> l_expires_at_ms l"

datatype lease_error = Held | NoStealWindow | WithinStealGrace | LostReadBack | NotOurs | Driver tmux_error

text \<open>\<open>steal_after\<close> is in milliseconds, as \<open>Duration::as_millis\<close> gives it before the cast to 64 bits.\<close>

record acquire_request =
  session_name :: string
  req_run_id :: string
  req_nonce :: string
  req_identity :: string
  req_expires_at_ms :: u64
  now_ms :: u64
  steal_after :: "nat option"

definition is_unset_option_error :: "tmux_error \<Rightarrow> bool" where
  "is_unset_option_error e =
     (case root_cause e of ExitError c err \<Rightarrow> prefix ''invalid option'' err | _ \<Rightarrow> False)"

definition option_name :: "string \<Rightarrow> string" where
  "option_name s = ''@engine_lease@'' @ s"

subsection \<open>The operations\<close>

definition lease_of_shown :: "tmux_error + string \<Rightarrow> tmux_error + lease option" where
  "lease_of_shown r =
     (case r of
        Inl e \<Rightarrow> if is_unset_option_error e then Inr None else Inl e
      | Inr raw \<Rightarrow> let trimmed = trim raw in if trimmed = [] then Inr None else Inr (lease_parse trimmed))"

definition lease_read :: "string \<Rightarrow> (tmux_error + lease option) driver_prog" where
  "lease_read s = ShowOption (option_name s) (\<lambda>r. Return (lease_of_shown r))"

definition write_and_confirm :: "string \<Rightarrow> lease \<Rightarrow> (lease_error + lease) driver_prog" where
  "write_and_confirm s candidate =
     SetOption (option_name s) (to_value candidate) (\<lambda>w.
       case w of
         Inl e \<Rightarrow> Return (Inl (Driver e))
       | Inr _ \<Rightarrow> and_then (lease_read s) (\<lambda>r. Return
           (case r of
              Inl e \<Rightarrow> Inl (Driver e)
            | Inr (Some readback) \<Rightarrow>
                if l_nonce readback = l_nonce candidate then Inr readback else Inl LostReadBack
            | Inr None \<Rightarrow> Inl LostReadBack)))"

definition acquire_refused :: "acquire_request \<Rightarrow> lease option \<Rightarrow> lease_error option" where
  "acquire_refused req current =
     (case current of
        None \<Rightarrow> None
      | Some existing \<Rightarrow>
          if \<not> lease_is_expired existing (now_ms req)
          then (if l_nonce existing = req_nonce req then None else Some Held)
          else (case steal_after req of
                  None \<Rightarrow> Some NoStealWindow
                | Some steal \<Rightarrow>
                    let age = (if now_ms req \<ge> l_expires_at_ms existing
                               then now_ms req - l_expires_at_ms existing else 0)
                    in if age < of_nat steal then Some WithinStealGrace else None))"

definition request_lease :: "acquire_request \<Rightarrow> lease" where
  "request_lease req = \<lparr>l_run_id = req_run_id req, l_nonce = req_nonce req,
     l_identity = req_identity req, l_expires_at_ms = req_expires_at_ms req\<rparr>"

definition acquire :: "acquire_request \<Rightarrow> (lease_error + lease) driver_prog" where
  "acquire req = and_then (lease_read (session_name req)) (\<lambda>r.
     case r of
       Inl e \<Rightarrow> Return (Inl (Driver e))
     | Inr current \<Rightarrow>
         (case acquire_refused req current of
            Some e \<Rightarrow> Return (Inl e)
          | None \<Rightarrow> write_and_confirm (session_name req) (request_lease req)))"

definition renew :: "string \<Rightarrow> string \<Rightarrow> u64 \<Rightarrow> string \<Rightarrow> string \<Rightarrow> (lease_error + lease) driver_prog" where
  "renew s nonce new_expires r i = and_then (lease_read s) (\<lambda>x.
     case x of
       Inl e \<Rightarrow> Return (Inl (Driver e))
     | Inr (Some existing) \<Rightarrow>
         if l_nonce existing = nonce
         then write_and_confirm s \<lparr>l_run_id = r, l_nonce = nonce, l_identity = i, l_expires_at_ms = new_expires\<rparr>
         else Return (Inl NotOurs)
     | Inr None \<Rightarrow> Return (Inl NotOurs))"

definition release :: "string \<Rightarrow> string \<Rightarrow> (lease_error + unit) driver_prog" where
  "release s nonce = and_then (lease_read s) (\<lambda>x.
     case x of
       Inl e \<Rightarrow> Return (Inl (Driver e))
     | Inr (Some existing) \<Rightarrow>
         if l_nonce existing = nonce
         then SetOption (option_name s) [] (\<lambda>w. Return (map_err Driver w))
         else Return (Inl NotOurs)
     | Inr None \<Rightarrow> Return (Inl NotOurs))"

text \<open>In milliseconds; \<open>None\<close> is the remainder by zero that the cast to 64 bits can lead to.\<close>

definition jittered_backoff :: "nat \<Rightarrow> nat \<Rightarrow> nat option" where
  "jittered_backoff max_nanos subsec_nanos =
     (if max_nanos = 0 then Some 0
      else let millis = of_nat (max 1 (max_nanos div 1000000)) :: u64
           in if millis = 0 then None else Some (subsec_nanos mod unat millis))"

subsection \<open>Running programs against a server\<close>

record 's tmux =
  t_show :: "'s \<Rightarrow> string \<Rightarrow> tmux_error + string"
  t_set :: "'s \<Rightarrow> string \<Rightarrow> string \<Rightarrow> (tmux_error + unit) \<times> 's"

definition tmux_ok :: "'s tmux \<Rightarrow> bool" where
  "tmux_ok srv \<longleftrightarrow> (\<forall>s n v. fst (t_set srv s n v) = Inr () \<and>
     (\<exists>raw. t_show srv (snd (t_set srv s n v)) n = Inr raw \<and> trim raw = trim v))"

primrec run_prog :: "'s tmux \<Rightarrow> 'a driver_prog \<Rightarrow> 's \<Rightarrow> 'a \<times> 's" where
  "run_prog srv (Return a) s = (a, s)"
| "run_prog srv (ShowOption n k) s = run_prog srv (k (t_show srv s n)) s"
| "run_prog srv (SetOption n v k) s =
     run_prog srv (k (fst (t_set srv s n v))) (snd (t_set srv s n v))"

fun prog_step :: "'s tmux \<Rightarrow> 'a driver_prog \<times> 's \<Rightarrow> 'a driver_prog \<times> 's" where
  "prog_step srv (Return a, s) = (Return a, s)"
| "prog_step srv (ShowOption n k, s) = (k (t_show srv s n), s)"
| "prog_step srv (SetOption n v k, s) = (k (fst (t_set srv s n v)), snd (t_set srv s n v))"

text \<open>Two clients of one server; the schedule says whose driver call comes next.\<close>

fun run_two :: "'s tmux \<Rightarrow> bool list \<Rightarrow> 'a driver_prog \<times> 'b driver_prog \<times> 's \<Rightarrow>
  'a driver_prog \<times> 'b driver_prog \<times> 's" where
  "run_two srv [] (p, q, s) = (p, q, s)"
| "run_two srv (b # bs) (p, q, s) =
     (if b then (let (p', s') = prog_step srv (p, s) in run_two srv bs (p', q, s'))
      else (let (q', s') = prog_step srv (q, s) in run_two srv bs (p, q', s')))"

definition lease_at :: "'s tmux \<Rightarrow> 's \<Rightarrow> string \<Rightarrow> tmux_error + lease option" where
  "lease_at srv s session = lease_of_shown (t_show srv s (option_name session))"

subsection \<open>The wire format\<close>

definition lease_wf :: "lease \<Rightarrow> bool" where
  "lease_wf l \<longleftrightarrow> CHR '':'' \<notin> set (l_run_id l) \<union> set (l_nonce l) \<union> set (l_identity l) \<and>
     untrimmed_start (l_run_id l)"

lemma parse_to_value:
  "lease_parse (to_value l) =
     (if CHR '':'' \<in> set (l_run_id l) \<union> set (l_nonce l) \<union> set (l_identity l) then None else Some l)"
proof (cases "CHR '':'' \<in> set (l_run_id l) \<union> set (l_nonce l) \<union> set (l_identity l)")
  case True
  then have "count_list (to_value l) (CHR '':'') > 3"
    by (auto simp: to_value_def count_list_0_iff simp flip: neq0_conv)
  then have "length (split_on (CHR '':'') (to_value l)) > 4" by (simp add: length_split_on)
  then have "lease_parse (to_value l) = None"
    by (auto simp: lease_parse_def split: list.splits)
  then show ?thesis using True by simp
next
  case False
  then show ?thesis by (simp add: lease_parse_def to_value_def)
qed

lemma to_value_nonempty [simp]: "to_value l \<noteq> []"
  by (simp add: to_value_def)

lemma trim_to_value:
  assumes "untrimmed_start (l_run_id l)"
  shows "trim (to_value l) = to_value l"
proof (rule trim_id)
  show "untrimmed_start (to_value l)"
    unfolding to_value_def append.simps append_Cons using untrimmed_start_colon [OF assms] by simp
  have "last (to_value l) = last (decimal (unat (l_expires_at_ms l)))"
    by (simp add: to_value_def)
  moreover have "is_digit (last (decimal n))" for n
    using decimal_digits [of n] by (auto simp: list_all_iff)
  ultimately show "list_all (\<lambda>w. \<not> suffix w (to_value l)) whitespace"
    by (intro no_suffix_digit) simp_all
qed

lemma set_succeeds: "tmux_ok srv \<Longrightarrow> fst (t_set srv s n v) = Inr ()"
  by (simp add: tmux_ok_def)

lemma lease_at_written:
  assumes "tmux_ok srv"
  shows "lease_at srv (snd (t_set srv s (option_name n) v)) n =
    Inr (if trim v = [] then None else lease_parse (trim v))"
proof -
  obtain raw where "t_show srv (snd (t_set srv s (option_name n) v)) (option_name n) = Inr raw"
    "trim raw = trim v" using assms unfolding tmux_ok_def by blast
  then show ?thesis by (simp add: lease_at_def lease_of_shown_def)
qed

lemma lease_at_set:
  "tmux_ok srv \<Longrightarrow> lease_wf l \<Longrightarrow>
   lease_at srv (snd (t_set srv s (option_name n) (to_value l))) n = Inr (Some l)"
  by (simp add: lease_at_written lease_wf_def trim_to_value parse_to_value)

text \<open>
  A lease written to the session's option is read back as it was written exactly when no field
  contains a colon; otherwise every reader, its writer included, sees no lease at all. (A run id
  that begins with whitespace is altered by the trimming of the read.)
\<close>

theorem lease_round_trip:
  assumes "tmux_ok srv" and "untrimmed_start (l_run_id l)"
  shows "lease_at srv (snd (t_set srv s (option_name n) (to_value l))) n =
    Inr (if CHR '':'' \<in> set (l_run_id l) \<union> set (l_nonce l) \<union> set (l_identity l) then None else Some l)"
  using assms by (simp add: lease_at_written trim_to_value parse_to_value)

subsection \<open>One client alone\<close>

lemma run_and_then:
  "run_prog srv (and_then p f) s = (case run_prog srv p s of (a, s') \<Rightarrow> run_prog srv (f a) s')"
  by (induction p arbitrary: s) auto

lemma run_lease_read [simp]: "run_prog srv (lease_read n) s = (lease_at srv s n, s)"
  by (simp add: lease_read_def lease_at_def)

lemma run_write_and_confirm:
  assumes "tmux_ok srv" and "lease_wf l"
  shows "run_prog srv (write_and_confirm n l) s =
    (Inr l, snd (t_set srv s (option_name n) (to_value l)))"
  using lease_at_set [OF assms] set_succeeds [OF assms(1)]
  by (simp add: write_and_confirm_def run_and_then)

text \<open>When a lease found in the option lets a request through.\<close>

definition may_take :: "acquire_request \<Rightarrow> lease option \<Rightarrow> bool" where
  "may_take req current \<longleftrightarrow>
     (case current of
        None \<Rightarrow> True
      | Some l \<Rightarrow> now_ms req < l_expires_at_ms l \<and> l_nonce l = req_nonce req \<or>
          l_expires_at_ms l \<le> now_ms req \<and>
          (\<exists>d. steal_after req = Some d \<and> of_nat d \<le> now_ms req - l_expires_at_ms l))"

lemma acquire_refused_iff: "acquire_refused req cur = None \<longleftrightarrow> may_take req cur"
  by (auto simp: acquire_refused_def may_take_def lease_is_expired_def Let_def
      split: option.splits)

text \<open>
  C24. A client that is not interfered with acquires the session exactly when the option holds no
  readable lease, or its own live lease, or an expired lease older than the steal window it was
  given; then the option holds its lease. In every other case, an expired lease with no steal window
  included, the option is left as it was, and the error says why.
\<close>

theorem acquire_alone:
  assumes "tmux_ok srv" and "lease_wf (request_lease req)"
    and "lease_at srv s (session_name req) = Inr cur"
  shows "if may_take req cur
    then \<exists>s'. run_prog srv (acquire req) s = (Inr (request_lease req), s') \<and>
           lease_at srv s' (session_name req) = Inr (Some (request_lease req))
    else \<exists>l. cur = Some l \<and> run_prog srv (acquire req) s =
           (Inl (if now_ms req < l_expires_at_ms l then Held
                 else if steal_after req = None then NoStealWindow else WithinStealGrace), s)"
proof (cases "may_take req cur")
  case True
  then have "acquire_refused req cur = None" by (simp add: acquire_refused_iff)
  then have "run_prog srv (acquire req) s = (Inr (request_lease req),
      snd (t_set srv s (option_name (session_name req)) (to_value (request_lease req))))"
    using assms by (simp add: acquire_def run_and_then run_write_and_confirm)
  then show ?thesis using True lease_at_set [OF assms(1,2)] by simp
next
  case False
  then obtain e where e: "acquire_refused req cur = Some e" by (auto simp flip: acquire_refused_iff)
  then have "run_prog srv (acquire req) s = (Inl e, s)"
    using assms(3) by (simp add: acquire_def run_and_then)
  moreover obtain l where "cur = Some l" using False by (cases cur) (simp_all add: may_take_def)
  ultimately show ?thesis using False e
    by (auto simp: acquire_refused_def lease_is_expired_def Let_def not_le split: option.splits if_splits)
qed

text \<open>
  Alone, \<open>renew\<close> and \<open>release\<close> touch the option only when it holds the caller's nonce: \<open>renew\<close> then
  replaces the lease, \<open>release\<close> clears it; any other lease is left alone and \<open>NotOurs\<close> is returned.
\<close>

theorem renew_release_own_only:
  assumes "tmux_ok srv" and "lease_at srv s n = Inr cur"
    and "lease_wf \<lparr>l_run_id = r, l_nonce = nonce, l_identity = i, l_expires_at_ms = t\<rparr>"
  shows "if \<exists>l. cur = Some l \<and> l_nonce l = nonce
    then (\<exists>s'. run_prog srv (renew n nonce t r i) s =
            (Inr \<lparr>l_run_id = r, l_nonce = nonce, l_identity = i, l_expires_at_ms = t\<rparr>, s') \<and>
            lease_at srv s' n =
              Inr (Some \<lparr>l_run_id = r, l_nonce = nonce, l_identity = i, l_expires_at_ms = t\<rparr>)) \<and>
         (\<exists>s'. run_prog srv (release n nonce) s = (Inr (), s') \<and> lease_at srv s' n = Inr None)
    else run_prog srv (renew n nonce t r i) s = (Inl NotOurs, s) \<and>
         run_prog srv (release n nonce) s = (Inl NotOurs, s)"
proof (cases cur)
  case None
  then show ?thesis using assms(2) by (simp add: renew_def release_def run_and_then)
next
  case (Some l)
  then show ?thesis
    using assms(2) run_write_and_confirm [OF assms(1,3)] lease_at_set [OF assms(1,3)]
      set_succeeds [OF assms(1)] lease_at_written [OF assms(1)]
    by (auto simp: renew_def release_def run_and_then)
qed

subsection \<open>Clients that race\<close>

definition confirm :: "string \<Rightarrow> lease \<Rightarrow> (lease_error + lease) driver_prog" where
  "confirm n l = and_then (lease_read n) (\<lambda>r. Return
     (case r of
        Inl e \<Rightarrow> Inl (Driver e)
      | Inr (Some readback) \<Rightarrow> if l_nonce readback = l_nonce l then Inr readback else Inl LostReadBack
      | Inr None \<Rightarrow> Inl LostReadBack))"

text \<open>The three driver calls of an \<open>acquire\<close>, and the two of a \<open>release\<close>.\<close>

lemma step_acquire:
  "lease_at srv s (session_name req) = Inr cur \<Longrightarrow> may_take req cur \<Longrightarrow>
   prog_step srv (acquire req, s) = (write_and_confirm (session_name req) (request_lease req), s)"
  using acquire_refused_iff [of req cur] by (simp add: acquire_def lease_read_def lease_at_def)

lemma step_write:
  "tmux_ok srv \<Longrightarrow> prog_step srv (write_and_confirm n l, s) =
     (confirm n l, snd (t_set srv s (option_name n) (to_value l)))"
  by (simp add: write_and_confirm_def confirm_def set_succeeds)

lemma step_confirm:
  "lease_at srv s n = Inr (Some h) \<Longrightarrow> prog_step srv (confirm n l, s) =
     (Return (if l_nonce h = l_nonce l then Inr h else Inl LostReadBack), s)"
  by (simp add: confirm_def lease_read_def lease_at_def)

lemma step_release:
  "lease_at srv s n = Inr (Some h) \<Longrightarrow> prog_step srv (release n (l_nonce h), s) =
     (SetOption (option_name n) [] (\<lambda>w. Return (map_err Driver w)), s)"
  by (simp add: release_def lease_read_def lease_at_def)

lemmas client_steps = step_acquire step_write step_confirm step_release lease_at_set

text \<open>
  When two clients read the free option, both write, and only then read back, exactly one is
  granted the session: the one that wrote last.
\<close>

theorem lockstep_race_one_winner:
  assumes "tmux_ok srv" and "lease_at srv s n = Inr None"
    and "session_name a = n" and "session_name b = n" and "req_nonce a \<noteq> req_nonce b"
    and "lease_wf (request_lease a)" and "lease_wf (request_lease b)"
  shows "\<exists>s'. run_two srv [r, \<not> r, w, \<not> w, c, \<not> c] (acquire a, acquire b, s) =
    (if w then (Return (Inl LostReadBack), Return (Inr (request_lease b)), s')
     else (Return (Inr (request_lease a)), Return (Inl LostReadBack), s'))"
proof -
  have take: "may_take a None" "may_take b None" by (simp_all add: may_take_def)
  have nonces: "l_nonce (request_lease a) \<noteq> l_nonce (request_lease b)"
    using assms(5) by (simp add: request_lease_def)
  show ?thesis
    using assms take nonces nonces [symmetric] by (cases r; cases w; cases c) (simp_all add: client_steps)
qed

text \<open>
  C25. The read-back does not exclude two holders. Whatever the two requests are, there is an order
  of the driver calls in which both clients read the free option, the first is granted the session,
  and then the second, which had already passed its check, overwrites the lease and is granted the
  session too.
\<close>

theorem two_holders:
  assumes "tmux_ok srv" and "lease_at srv s n = Inr None"
    and "session_name a = n" and "session_name b = n"
    and "lease_wf (request_lease a)" and "lease_wf (request_lease b)"
  shows "\<exists>sched s'. run_two srv sched (acquire a, acquire b, s) =
    (Return (Inr (request_lease a)), Return (Inr (request_lease b)), s')"
proof -
  have take: "may_take a None" "may_take b None" by (simp_all add: may_take_def)
  have "\<exists>s'. run_two srv [False, True, True, True, False, False] (acquire a, acquire b, s) =
    (Return (Inr (request_lease a)), Return (Inr (request_lease b)), s')"
    using assms take by (simp add: client_steps)
  then show ?thesis by blast
qed

text \<open>
  A release can delete another client's lease: between the read that shows the caller's own
  expired lease and the clearing write, another client may steal the session and be granted it, and
  the session is then free although its lease is live.
\<close>

theorem release_deletes_foreign_lease:
  assumes "tmux_ok srv" and "lease_at srv s n = Inr (Some h)" and "l_expires_at_ms h \<le> now_ms b"
    and "steal_after b = Some d" and "of_nat d \<le> now_ms b - l_expires_at_ms h"
    and "session_name b = n" and "lease_wf (request_lease b)"
  shows "\<exists>sched s'. run_two srv sched (release n (l_nonce h), acquire b, s) =
    (Return (Inr ()), Return (Inr (request_lease b)), s') \<and> lease_at srv s' n = Inr None"
proof -
  have take: "may_take b (Some h)" using assms(3-5) by (simp add: may_take_def)
  have clear: "lease_at srv (snd (t_set srv s' (option_name n) [])) n = Inr None" for s'
    using lease_at_written [OF assms(1)] by simp
  have "\<exists>s'. run_two srv [True, False, False, False, True] (release n (l_nonce h), acquire b, s) =
    (Return (Inr ()), Return (Inr (request_lease b)), s') \<and> lease_at srv s' n = Inr None"
    using assms take by (simp add: client_steps set_succeeds clear)
  then show ?thesis by blast
qed

lemma jittered_backoff_bound:
  assumes "jittered_backoff m t = Some ms" and "m > 0" and "m div 1000000 < 2 ^ 64"
  shows "ms * 1000000 < m"
proof -
  have u: "unat (of_nat (max 1 (m div 1000000)) :: u64) = max 1 (m div 1000000)"
    using assms(3) by (simp add: unsigned_of_nat take_bit_nat_eq_self)
  then have "ms = t mod max 1 (m div 1000000)"
    using assms(1,2) by (auto simp: jittered_backoff_def Let_def split: if_splits)
  then have "ms < max 1 (m div 1000000)" by simp
  then show ?thesis using assms(2) by (cases "m div 1000000 = 0") (auto simp: max_def split: if_splits)
qed

subsection \<open>Concrete runs\<close>

text \<open>A server that keeps its options in a map.\<close>

definition map_tmux :: "(string \<Rightarrow> string option) tmux" where
  "map_tmux = \<lparr>t_show = (\<lambda>m n. case m n of None \<Rightarrow> Inl (ExitError 1 (''invalid option: '' @ n)) | Some v \<Rightarrow> Inr v),
     t_set = (\<lambda>m n v. (Inr (), m(n \<mapsto> v)))\<rparr>"

definition sample_request :: "string \<Rightarrow> u64 \<Rightarrow> nat option \<Rightarrow> acquire_request" where
  "sample_request nonce now steal = \<lparr>session_name = ''s'', req_run_id = ''r'', req_nonce = nonce,
     req_identity = ''w'', req_expires_at_ms = now + 100, now_ms = now, steal_after = steal\<rparr>"

definition sample_lease :: "string \<Rightarrow> lease" where
  "sample_lease i = \<lparr>l_run_id = ''r'', l_nonce = ''a'', l_identity = i, l_expires_at_ms = 100\<rparr>"

lemma sample_sel [simp]:
  "session_name (sample_request c t d) = ''s''" "req_nonce (sample_request c t d) = c"
  "now_ms (sample_request c t d) = t" "steal_after (sample_request c t d) = d"
  "l_nonce (sample_lease i) = ''a''" "l_expires_at_ms (sample_lease i) = 100"
  by (simp_all add: sample_request_def sample_lease_def)

lemma map_tmux_ok: "tmux_ok map_tmux"
  by (simp add: tmux_ok_def map_tmux_def)

lemma free_session: "lease_at map_tmux Map.empty n = Inr None"
  by (simp add: lease_at_def map_tmux_def lease_of_shown_def is_unset_option_error_def)

lemma sample_untrimmed: "untrimmed_start ''r''"
  by code_simp

lemma sample_wf:
  "CHR '':'' \<notin> set nonce \<Longrightarrow> lease_wf (request_lease (sample_request nonce now steal))"
  "lease_wf (sample_lease ''w'')"
  by (simp_all add: lease_wf_def request_lease_def sample_request_def sample_lease_def sample_untrimmed)

lemma held_session:
  "lease_at map_tmux (snd (t_set map_tmux Map.empty (option_name ''s'') (to_value (sample_lease ''w'')))) ''s''
   = Inr (Some (sample_lease ''w''))"
  by (rule lease_at_set [OF map_tmux_ok sample_wf(2)])

theorem lease_round_trip_witness:
  "lease_at map_tmux (snd (t_set map_tmux Map.empty (option_name ''s'') (to_value (sample_lease ''w:1'')))) ''s''
   = Inr None"
  using lease_round_trip [OF map_tmux_ok, of "sample_lease ''w:1''" Map.empty "''s''"] sample_untrimmed
  by (simp add: sample_lease_def)

theorem acquire_alone_witness:
  "\<exists>s'. run_prog map_tmux (acquire (sample_request ''a'' 10 None)) Map.empty =
     (Inr (request_lease (sample_request ''a'' 10 None)), s') \<and>
   lease_at map_tmux s' (session_name (sample_request ''a'' 10 None)) =
     Inr (Some (request_lease (sample_request ''a'' 10 None)))"
  using acquire_alone [OF map_tmux_ok sample_wf(1) free_session, of "''a''" 10 None]
  by (simp add: may_take_def)

theorem renew_release_own_only_witness:
  "let s = snd (t_set map_tmux Map.empty (option_name ''s'') (to_value (sample_lease ''w'')))
   in run_prog map_tmux (release ''s'' ''b'') s = (Inl NotOurs, s)"
  using renew_release_own_only [OF map_tmux_ok held_session, of "''r''" "''b''" "''w''" 200] sample_untrimmed
  by (simp add: lease_wf_def sample_lease_def)

theorem lockstep_race_one_winner_witness:
  "\<exists>s'. run_two map_tmux [True, False, True, False, True, False]
     (acquire (sample_request ''a'' 10 None), acquire (sample_request ''b'' 10 None), Map.empty) =
   (Return (Inl LostReadBack), Return (Inr (request_lease (sample_request ''b'' 10 None))), s')"
  using lockstep_race_one_winner [OF map_tmux_ok free_session, of "sample_request ''a'' 10 None" "''s''"
      "sample_request ''b'' 10 None" True True True]
    sample_wf(1) [of "''a''" 10 None] sample_wf(1) [of "''b''" 10 None]
  by (simp del: run_two.simps)

theorem two_holders_witness:
  "\<exists>sched s'. run_two map_tmux sched
     (acquire (sample_request ''a'' 10 None), acquire (sample_request ''b'' 10 None), Map.empty) =
   (Return (Inr (request_lease (sample_request ''a'' 10 None))),
    Return (Inr (request_lease (sample_request ''b'' 10 None))), s')"
  using two_holders [OF map_tmux_ok free_session, of "sample_request ''a'' 10 None" "''s''"
      "sample_request ''b'' 10 None"]
    sample_wf(1) [of "''a''" 10 None] sample_wf(1) [of "''b''" 10 None]
  by simp

theorem release_deletes_foreign_lease_witness:
  "\<exists>sched s'. run_two map_tmux sched (release ''s'' ''a'', acquire (sample_request ''b'' 500 (Some 50)),
      snd (t_set map_tmux Map.empty (option_name ''s'') (to_value (sample_lease ''w'')))) =
    (Return (Inr ()), Return (Inr (request_lease (sample_request ''b'' 500 (Some 50)))), s') \<and>
    lease_at map_tmux s' ''s'' = Inr None"
proof -
  have "of_nat 50 \<le> (500 :: u64) - 100" "(100 :: u64) \<le> 500" by simp_all
  then show ?thesis
    using release_deletes_foreign_lease [OF map_tmux_ok held_session,
        of "sample_request ''b'' 500 (Some 50)" 50] sample_wf(1) [of "''b''" 500 "Some 50"]
    by simp
qed

end
