(* ===== verification/Policy.thy ===== *)
theory Policy
  imports Ledgers Strings
begin

text \<open>
  Policy resolution (\<open>policy/\<close>): the merge of override layers onto a base (\<open>resolve.rs\<close>,
  \<open>overlay.rs\<close>, \<open>tier.rs\<close>), the layers that come out of a \<open>harness.json\<close> (\<open>profiles.rs\<close>), the
  permission profile in force and the actions it permits (\<open>permission.rs\<close>), and the command floor
  (\<open>command_floor.rs\<close>).

  Parameters stand for what is not in the repository: the file system as a function from paths, the
  JSON parser, the derived deserialiser of a policy type, the reader of \<open>brain.toml\<close> and the regular
  expression engine. The texts these report are dropped from the errors.
\<close>

subsection \<open>Layers\<close>

definition merge_opt :: "'a \<Rightarrow> 'a option \<Rightarrow> 'a" where
  "merge_opt lower higher = (case higher of Some x \<Rightarrow> x | None \<Rightarrow> lower)"

text \<open>\<open>Policy::apply\<close> of the policy at hand is the first argument.\<close>

definition resolve ::
  "('p \<Rightarrow> 'o \<Rightarrow> 'p) \<Rightarrow> 'p \<Rightarrow> 'o option \<Rightarrow> 'o option \<Rightarrow> 'o option \<Rightarrow> 'p" where
  "resolve app builtin harness_defaults profile event_override =
     (let r0 = builtin;
          r1 = (case harness_defaults of Some h \<Rightarrow> app r0 h | None \<Rightarrow> r0);
          r2 = (case profile of Some p \<Rightarrow> app r1 p | None \<Rightarrow> r1)
      in (case event_override of Some e \<Rightarrow> app r2 e | None \<Rightarrow> r2))"

text \<open>
  What the four layers promise of one knob: its value is the one of the highest layer that sets it.
  A layer that is absent sets nothing.
\<close>

definition topmost :: "('o \<Rightarrow> 'f option) \<Rightarrow> 'f \<Rightarrow> 'o option list \<Rightarrow> 'f" where
  "topmost over base layers =
     (case List.find (\<lambda>v. v \<noteq> None) (map (\<lambda>l. Option.bind l over) layers) of
        Some (Some x) \<Rightarrow> x | _ \<Rightarrow> base)"

text \<open>The contract of \<open>Policy::apply\<close> for a knob: set by the override when the override has it.\<close>

locale policy_knob =
  fixes app :: "'p \<Rightarrow> 'o \<Rightarrow> 'p"
    and knob :: "'p \<Rightarrow> 'f"
    and over :: "'o \<Rightarrow> 'f option"
  assumes knob_app: "knob (app p ov) = merge_opt (knob p) (over ov)"
begin

lemma knob_resolve: "knob (resolve app b h p e) = topmost over (knob b) [e, p, h]"
  by (cases h; cases p; cases e)
    (auto simp: resolve_def topmost_def knob_app merge_opt_def split: option.splits)

end

datatype output_verbosity = Terse | Normal | Verbose

datatype model_tier = Sonnet | Haiku | Opus | LocalTier

definition model_tier_to_model_string :: "model_tier \<Rightarrow> string \<Rightarrow> string" where
  "model_tier_to_model_string tier local_model =
     (case tier of
        Sonnet \<Rightarrow> ''claude-sonnet-4-5''
      | Haiku \<Rightarrow> ''claude-haiku-4-5''
      | Opus \<Rightarrow> ''claude-opus-4-8''
      | LocalTier \<Rightarrow> local_model)"

datatype agent_backend = ClaudeCli | Pi | Aider

record local_config =
  lc_endpoint :: string
  lc_model :: string
  lc_constrained_json :: bool

definition local_config_default :: local_config where
  "local_config_default = \<lparr>lc_endpoint = ''http://localhost:11434'',
     lc_model = ''qwen2.5:7b-instruct'', lc_constrained_json = False\<rparr>"

record partial_local_config =
  plc_endpoint :: "string option"
  plc_model :: "string option"
  plc_constrained_json :: "bool option"

definition merge_local :: "local_config \<Rightarrow> partial_local_config \<Rightarrow> local_config" where
  "merge_local base ov =
     (let b1 = (case plc_endpoint ov of Some v \<Rightarrow> base\<lparr>lc_endpoint := v\<rparr> | None \<Rightarrow> base);
          b2 = (case plc_model ov of Some v \<Rightarrow> b1\<lparr>lc_model := v\<rparr> | None \<Rightarrow> b1)
      in (case plc_constrained_json ov of Some v \<Rightarrow> b2\<lparr>lc_constrained_json := v\<rparr> | None \<Rightarrow> b2))"

definition default_pi_tools :: "string list" where
  "default_pi_tools = [''read'', ''write'', ''edit'', ''hashline_edit'', ''bash'', ''grep'', ''find'',
     ''ls'', ''ast_grep'', ''ast_edit'', ''lsp'', ''todo'']"

record pi_config =
  pi_no_context_files :: bool
  pi_no_session :: bool
  pi_tools :: "string list"

definition pi_config_default :: pi_config where
  "pi_config_default =
     \<lparr>pi_no_context_files = True, pi_no_session = True, pi_tools = default_pi_tools\<rparr>"

record partial_pi_config =
  ppi_no_context_files :: "bool option"
  ppi_no_session :: "bool option"
  ppi_tools :: "string list option"

definition merge_pi_config :: "pi_config \<Rightarrow> partial_pi_config \<Rightarrow> pi_config" where
  "merge_pi_config base ov =
     (let b1 = (case ppi_no_context_files ov of
                  Some v \<Rightarrow> base\<lparr>pi_no_context_files := v\<rparr> | None \<Rightarrow> base);
          b2 = (case ppi_no_session ov of Some v \<Rightarrow> b1\<lparr>pi_no_session := v\<rparr> | None \<Rightarrow> b1)
      in (case ppi_tools ov of Some v \<Rightarrow> b2\<lparr>pi_tools := v\<rparr> | None \<Rightarrow> b2))"

interpretation local_endpoint: policy_knob merge_local lc_endpoint plc_endpoint
  by unfold_locales (simp add: merge_local_def merge_opt_def split: option.split)

interpretation local_model: policy_knob merge_local lc_model plc_model
  by unfold_locales (simp add: merge_local_def merge_opt_def split: option.split)

interpretation pi_tool_list: policy_knob merge_pi_config pi_tools ppi_tools
  by unfold_locales (simp add: merge_pi_config_def merge_opt_def split: option.split)

definition verbosity_directive :: "output_verbosity \<Rightarrow> string option" where
  "verbosity_directive v =
     (case v of
        Normal \<Rightarrow> None
      | Terse \<Rightarrow> Some (CHR 0x0A # CHR 0x0A # ''Be terse: keep your response as short as possible while still satisfying the request. Target well under 200 output tokens where the task allows it.'')
      | Verbose \<Rightarrow> Some (CHR 0x0A # CHR 0x0A # ''Be thorough: explain your reasoning and any trade-offs in detail before giving the final answer.''))"

definition apply_verbosity_directive :: "string \<Rightarrow> output_verbosity \<Rightarrow> string" where
  "apply_verbosity_directive prompt v =
     (case verbosity_directive v of Some d \<Rightarrow> prompt @ d | None \<Rightarrow> prompt)"

subsection \<open>Layers read from a harness file\<close>

datatype policy_config_source = Worktree string | HarnessFile string | Builtin

text \<open>\<open>Path::join\<close> with a relative path.\<close>

definition path_join :: "string \<Rightarrow> string \<Rightarrow> string" where
  "path_join a b = (if a = [] then b else if last a = CHR ''/'' then a @ b else a @ CHR ''/'' # b)"

definition harness_path :: "policy_config_source \<Rightarrow> string option" where
  "harness_path src =
     (case src of
        Worktree w \<Rightarrow> Some (path_join (path_join w ''planning'') ''harness.json'')
      | HarnessFile p \<Rightarrow> Some p
      | Builtin \<Rightarrow> None)"

datatype file_content = NoFile | Unreadable | FileText string

datatype policy_error =
    HarnessUnreadable string
  | HarnessUnparsable string
  | SectionUnparsable string string string
  | UnknownProfile string string
  | NoPolicyStamped
  | StampUnparsable
  | PolicyUnserializable

record policy_ext =
  read_file :: "string \<Rightarrow> file_content"
  parse_json :: "string \<Rightarrow> json option"

text \<open>
  The common start of the two readers: \<open><workflow_key>.<section>\<close> of the file, if there is a file and
  it has the section.
\<close>

definition harness_section ::
  "policy_ext \<Rightarrow> policy_config_source \<Rightarrow> string \<Rightarrow> string \<Rightarrow> policy_error + json option" where
  "harness_section X src key section =
     (case harness_path src of
        None \<Rightarrow> Inr None
      | Some path \<Rightarrow>
          (case read_file X path of
             NoFile \<Rightarrow> Inr None
           | Unreadable \<Rightarrow> Inl (HarnessUnreadable path)
           | FileText raw \<Rightarrow>
               bind_result (ok_or (parse_json X raw) (HarnessUnparsable path))
                 (\<lambda>harness. Inr (Option.bind (json_get harness key) (\<lambda>v. json_get v section)))))"

definition section_error :: "policy_config_source \<Rightarrow> string \<Rightarrow> string \<Rightarrow> policy_error" where
  "section_error src key section =
     SectionUnparsable (case harness_path src of Some p \<Rightarrow> p | None \<Rightarrow> []) key section"

definition read_harness_policy_defaults_from ::
  "policy_ext \<Rightarrow> (json \<Rightarrow> 'o option) \<Rightarrow> policy_config_source \<Rightarrow> string \<Rightarrow> policy_error + 'o option" where
  "read_harness_policy_defaults_from X dec src key =
     bind_result (harness_section X src key ''policy'')
       (\<lambda>sec. case sec of
          None \<Rightarrow> Inr None
        | Some v \<Rightarrow> bind_result (ok_or (dec v) (section_error src key ''policy'')) (\<lambda>p. Inr (Some p)))"

definition strip_comments :: "json \<Rightarrow> json" where
  "strip_comments v =
     (case v of JObj fs \<Rightarrow> JObj (filter (\<lambda>(k, _). \<not> prefix ''_comment'' k) fs) | _ \<Rightarrow> v)"

text \<open>\<open>HashMap<String, P>\<close> out of a value: an object all of whose values are a \<open>P\<close>.\<close>

fun dec_entries :: "(json \<Rightarrow> 'o option) \<Rightarrow> (string \<times> json) list \<Rightarrow> 'o hmap option" where
  "dec_entries dec [] = Some []"
| "dec_entries dec ((k, v) # fs) =
     do { x \<leftarrow> dec v; rest \<leftarrow> dec_entries dec fs; Some ((k, x) # rest) }"

definition dec_hmap :: "(json \<Rightarrow> 'o option) \<Rightarrow> json \<Rightarrow> 'o hmap option" where
  "dec_hmap dec v = Option.bind (as_object v) (dec_entries dec)"

definition read_harness_profiles_from ::
  "policy_ext \<Rightarrow> (json \<Rightarrow> 'o option) \<Rightarrow> policy_config_source \<Rightarrow> string \<Rightarrow> policy_error + 'o hmap option" where
  "read_harness_profiles_from X dec src key =
     bind_result (harness_section X src key ''profiles'')
       (\<lambda>sec. case sec of
          None \<Rightarrow> Inr None
        | Some v \<Rightarrow> bind_result (ok_or (dec_hmap dec (strip_comments v)) (section_error src key ''profiles''))
            (\<lambda>m. Inr (Some m)))"

definition resolve_profile_from ::
  "policy_ext \<Rightarrow> (json \<Rightarrow> 'o option) \<Rightarrow> string option \<Rightarrow> policy_config_source \<Rightarrow> string \<Rightarrow>
   (string \<Rightarrow> 'o option) \<Rightarrow> policy_error + 'o option" where
  "resolve_profile_from X dec profile_name src key by_name =
     (case profile_name of
        None \<Rightarrow> Inr None
      | Some n \<Rightarrow>
          bind_result (read_harness_profiles_from X dec src key)
            (\<lambda>ps. case Option.bind ps (\<lambda>m. map_of m n) of
               Some p \<Rightarrow> Inr (Some p)
             | None \<Rightarrow>
                 (case by_name n of
                    Some p \<Rightarrow> Inr (Some p)
                  | None \<Rightarrow> Inl (UnknownProfile n key))))"

text \<open>
  The four layers of a policy type with its \<open>apply\<close>, built-in value, section key and built-in
  profiles: the body the policies of the engine share.
\<close>

definition resolve_policy_for_run ::
  "('p \<Rightarrow> 'o \<Rightarrow> 'p) \<Rightarrow> 'p \<Rightarrow> string \<Rightarrow> (string \<Rightarrow> 'o option) \<Rightarrow> policy_ext \<Rightarrow> (json \<Rightarrow> 'o option) \<Rightarrow>
   policy_config_source \<Rightarrow> string option \<Rightarrow> 'o option \<Rightarrow> policy_error + 'p" where
  "resolve_policy_for_run app builtin key by_name X dec src profile_name event_override =
     bind_result (read_harness_policy_defaults_from X dec src key)
       (\<lambda>h. bind_result (resolve_profile_from X dec profile_name src key by_name)
          (\<lambda>p. Inr (resolve app builtin h p event_override)))"

definition stamp_resolved_policy ::
  "('p \<Rightarrow> json option) \<Rightarrow> 'p \<Rightarrow> task_context \<Rightarrow> policy_error + task_context" where
  "stamp_resolved_policy enc p ctx =
     bind_result (ok_or (enc p) PolicyUnserializable)
       (\<lambda>v. Inr (ctx\<lparr>nodes := AList.update resolved_policy_identity v (nodes ctx)\<rparr>))"

definition resolved_policy_strict :: "(json \<Rightarrow> 'p option) \<Rightarrow> task_context \<Rightarrow> policy_error + 'p" where
  "resolved_policy_strict dec ctx =
     bind_result (ok_or (map_of (nodes ctx) resolved_policy_identity) NoPolicyStamped)
       (\<lambda>v. ok_or (dec v) StampUnparsable)"

subsection \<open>Permission profiles\<close>

datatype gated_action =
    ClearOperatorGate
  | InstallOnMini
  | PushToMain
  | CrossRepoWrite
  | Notify
  | WakeLane
  | RunDrain

datatype permission_profile = Locked | Standard | Unrestricted

definition default_profile :: permission_profile where
  "default_profile = Standard"

datatype decision = Permit | Deny

definition decide :: "permission_profile \<Rightarrow> gated_action \<Rightarrow> decision" where
  "decide profile action =
     (if action = ClearOperatorGate then Deny
      else case (profile, action) of
        (Locked, _) \<Rightarrow> Deny
      | (Standard, InstallOnMini) \<Rightarrow> Deny
      | (Standard, PushToMain) \<Rightarrow> Permit
      | (Standard, CrossRepoWrite) \<Rightarrow> Permit
      | (Standard, Notify) \<Rightarrow> Permit
      | (Standard, WakeLane) \<Rightarrow> Deny
      | (Standard, RunDrain) \<Rightarrow> Deny
      | (Unrestricted, InstallOnMini) \<Rightarrow> Permit
      | (Unrestricted, PushToMain) \<Rightarrow> Permit
      | (Unrestricted, CrossRepoWrite) \<Rightarrow> Permit
      | (Unrestricted, Notify) \<Rightarrow> Permit
      | (Unrestricted, WakeLane) \<Rightarrow> Permit
      | (Unrestricted, RunDrain) \<Rightarrow> Permit
      | (_, ClearOperatorGate) \<Rightarrow> Deny)"

text \<open>
  The table of \<open>brain.toml\<close> as far as the code reads it: the \<open>id\<close> of each declared level under its
  key, the default key and the actions never allowed.
\<close>

record permission_profiles_config =
  levels :: "string hmap"
  default_level :: "string option"
  never_allowed :: "string list"

datatype profile_resolution_error =
    ConfigLoad
  | EmptyLevels
  | NoDefault
  | DefaultLevelMissing string
  | NeverAllowedMismatch "string list"
  | UnknownLevelId string

definition level_id_to_profile :: "string \<Rightarrow> permission_profile option" where
  "level_id_to_profile i =
     (if i = ''locked'' then Some Locked
      else if i = ''standard'' then Some Standard
      else if i = ''unrestricted'' then Some Unrestricted else None)"

definition resolve_permission_profile_from_config ::
  "permission_profiles_config \<Rightarrow> permission_profile \<times> profile_resolution_error option" where
  "resolve_permission_profile_from_config config =
     (if levels config = [] then (Locked, Some EmptyLevels)
      else case default_level config of
        None \<Rightarrow> (Locked, Some NoDefault)
      | Some default_id \<Rightarrow>
          if never_allowed config \<noteq> [''clear_operator_gate'']
          then (Locked, Some (NeverAllowedMismatch (never_allowed config)))
          else case List.find (\<lambda>i. level_id_to_profile i = None) (map snd (levels config)) of
            Some i \<Rightarrow> (Locked, Some (UnknownLevelId i))
          | None \<Rightarrow>
              (case map_of (levels config) default_id of
                 None \<Rightarrow> (Locked, Some (DefaultLevelMissing default_id))
               | Some level_id \<Rightarrow>
                   (case level_id_to_profile level_id of
                      Some profile \<Rightarrow> (profile, None)
                    | None \<Rightarrow> (Locked, Some (UnknownLevelId level_id)))))"

text \<open>\<open>load_brain_config\<close> of the brain library is the first argument.\<close>

definition resolve_permission_profile ::
  "(string \<Rightarrow> permission_profiles_config option) \<Rightarrow> string \<Rightarrow>
   permission_profile \<times> profile_resolution_error option" where
  "resolve_permission_profile load path =
     (case load path of
        Some config \<Rightarrow> resolve_permission_profile_from_config config
      | None \<Rightarrow> (Locked, Some ConfigLoad))"

text \<open>The levels from the tightest to the most permissive.\<close>

instantiation permission_profile :: linorder
begin

fun profile_rank :: "permission_profile \<Rightarrow> nat" where
  "profile_rank Locked = 0"
| "profile_rank Standard = 1"
| "profile_rank Unrestricted = 2"

definition less_eq_permission_profile :: "permission_profile \<Rightarrow> permission_profile \<Rightarrow> bool" where
  "p \<le> q \<longleftrightarrow> profile_rank p \<le> profile_rank q"

definition less_permission_profile :: "permission_profile \<Rightarrow> permission_profile \<Rightarrow> bool" where
  "p < q \<longleftrightarrow> profile_rank p < profile_rank q"

instance
proof
  fix p q :: permission_profile
  assume "p \<le> q" "q \<le> p"
  then show "p = q"
    by (cases p; cases q) (simp_all add: less_eq_permission_profile_def)
qed (auto simp: less_eq_permission_profile_def less_permission_profile_def)

end

text \<open>What a configuration must be for its default level to be in force.\<close>

definition permission_config_ok :: "permission_profiles_config \<Rightarrow> permission_profile \<Rightarrow> bool" where
  "permission_config_ok config p \<longleftrightarrow>
     list_all (\<lambda>(k, i). level_id_to_profile i \<noteq> None) (levels config) \<and>
     never_allowed config = [''clear_operator_gate''] \<and>
     Option.bind (Option.bind (default_level config) (map_of (levels config))) level_id_to_profile = Some p"

lemma locked_denies [simp]: "decide Locked a = Deny"
  by (simp add: decide_def)

lemma decide_mono: "p \<le> q \<Longrightarrow> decide p a = Permit \<Longrightarrow> decide q a = Permit"
  by (cases p; cases q; cases a) (simp_all add: decide_def less_eq_permission_profile_def)

lemma resolve_permission_ok:
  assumes "permission_config_ok config p"
  shows "resolve_permission_profile_from_config config = (p, None)"
proof -
  have "List.find (\<lambda>i. level_id_to_profile i = None) (map snd (levels config)) = None"
    using assms by (auto simp: permission_config_ok_def find_None_iff list_all_iff)
  then show ?thesis
    using assms
    by (auto simp: permission_config_ok_def resolve_permission_profile_from_config_def bind_eq_Some_conv)
qed

lemma resolve_permission_not_ok:
  assumes "\<And>p. \<not> permission_config_ok config p"
  shows "\<exists>e. resolve_permission_profile_from_config config = (Locked, Some e)"
proof (rule ccontr)
  assume none: "\<nexists>e. resolve_permission_profile_from_config config = (Locked, Some e)"
  then obtain d where d: "default_level config = Some d" "levels config \<noteq> []"
      "never_allowed config = [''clear_operator_gate'']"
      "List.find (\<lambda>i. level_id_to_profile i = None) (map snd (levels config)) = None"
    by (auto simp: resolve_permission_profile_from_config_def split: if_splits option.splits)
  with none obtain i p where "map_of (levels config) d = Some i" "level_id_to_profile i = Some p"
    by (auto simp: resolve_permission_profile_from_config_def split: option.splits)
  with d have "permission_config_ok config p"
    by (auto simp: permission_config_ok_def list_all_iff find_None_iff)
  with assms show False by blast
qed

text \<open>
  The permission profile fails closed. A profile other than the tightest one is in force exactly
  when the configuration can be loaded, every declared level has a known id, the list of actions
  never allowed is the expected one and the default names a declared level with that id; in every
  other case an error is reported and no action at all is permitted. Whatever is in force, clearing
  an operator gate is denied, and what a level permits every more permissive level permits too.
\<close>

theorem permission_fail_closed:
  "(case load path of
      Some config \<Rightarrow>
        (if permission_config_ok config Locked then resolve_permission_profile load path = (Locked, None)
         else if permission_config_ok config Standard
           then resolve_permission_profile load path = (Standard, None)
         else if permission_config_ok config Unrestricted
           then resolve_permission_profile load path = (Unrestricted, None)
         else (\<exists>e. resolve_permission_profile load path = (Locked, Some e)) \<and>
              (\<forall>a. decide (fst (resolve_permission_profile load path)) a = Deny))
    | None \<Rightarrow> resolve_permission_profile load path = (Locked, Some ConfigLoad)) \<and>
   decide (fst (resolve_permission_profile load path)) ClearOperatorGate = Deny \<and>
   mono (\<lambda>p. decide p a = Permit)"
proof -
  have gate: "decide q ClearOperatorGate = Deny" for q by (simp add: decide_def)
  have mono: "mono (\<lambda>p. decide p a = Permit)" by (auto intro!: monoI dest: decide_mono)
  have neither: "\<not> permission_config_ok config p"
    if "\<not> permission_config_ok config Locked" "\<not> permission_config_ok config Standard"
       "\<not> permission_config_ok config Unrestricted" for config p
    using that by (cases p) simp_all
  show ?thesis
    using gate mono resolve_permission_ok resolve_permission_not_ok neither
    by (auto simp: resolve_permission_profile_def split: option.splits) (metis fst_conv locked_denies)+
qed

subsection \<open>The command floor\<close>

datatype command_decision = Allow | DenyCommand string string

text \<open>
  The patterns and reasons of \<open>FLOOR_RULE_DEFS\<close>, each pattern matched case-insensitively. A tilde is
  written for the backslash, which occurs in the patterns while the tilde does not.
\<close>

definition backslashed :: "string \<Rightarrow> string" where
  "backslashed s = map (\<lambda>c. if c = CHR ''~'' then CHR 0x5C else c) s"

definition floor_rules :: "(string \<times> string) list" where
  "floor_rules = map (\<lambda>(pattern, reason). (''(?i)'' @ backslashed pattern, reason))
     [(''~brm~b[^~n]*(?:-[a-zA-Z]*r|--recursive)'', ''recursive delete''),
      (''~bgit~s+push~b.*(?:--force~b|(?:^|~s)-[a-zA-Z]*f~b)'', ''force push''),
      (''~b(drop|truncate)~s+table~b'', ''destructive SQL''),
      (''~bmkfs~b|:~(~)~s*~{'', ''destructive / fork bomb''),
      (''~bcurl~b.*~|~s*(sh|bash)~b'', ''pipe-to-shell'')]"

text \<open>\<open>Regex::find\<close> gives the text of the leftmost match, if any.\<close>

fun evaluate_rules ::
  "(string \<Rightarrow> string \<Rightarrow> string option) \<Rightarrow> (string \<times> string) list \<Rightarrow> string \<Rightarrow> command_decision" where
  "evaluate_rules re [] command = Allow"
| "evaluate_rules re ((pattern, reason) # rules) command =
     (case re pattern command of
        Some m \<Rightarrow> DenyCommand reason m
      | None \<Rightarrow> evaluate_rules re rules command)"

definition evaluate_command :: "(string \<Rightarrow> string \<Rightarrow> string option) \<Rightarrow> string \<Rightarrow> command_decision" where
  "evaluate_command re command = evaluate_rules re floor_rules command"

lemma evaluate_command_Allow:
  "evaluate_command re command = Allow \<longleftrightarrow>
     list_all (\<lambda>(pattern, reason). re pattern command = None) floor_rules"
proof -
  have "evaluate_rules re rs command = Allow \<longleftrightarrow> list_all (\<lambda>(p, r). re p command = None) rs" for rs
    by (induction rs) (auto split: option.splits)
  then show ?thesis by (simp add: evaluate_command_def)
qed

end
