(* ===== verification/Payload.thy ===== *)
theory Payload
  imports Policy
begin

text \<open>
  What reaches the operator (\<open>operator/\<close>): the payload and its digest (\<open>payload.rs\<close>), the limits of the
  channel (\<open>limits.rs\<close>), validation (\<open>validate.rs\<close>), the two channels (\<open>channel.rs\<close>) and the notice of
  a run that ended badly (\<open>failure.rs\<close>). SHA-256, rendered in hexadecimal, is a parameter.
\<close>

subsection \<open>Payloads\<close>

record response_option =
  ro_key :: string
  ro_label :: string

record operator_payload =
  gate_id :: string
  rendered_summary :: string
  options :: "response_option list"
  digest :: string

text \<open>\<open>(n as u64).to_le_bytes()\<close>\<close>

fun le_bytes :: "nat \<Rightarrow> nat \<Rightarrow> string" where
  "le_bytes 0 n = []"
| "le_bytes (Suc k) n = char_of (n mod 256) # le_bytes k (n div 256)"

definition len_prefixed :: "string \<Rightarrow> string" where
  "len_prefixed s = le_bytes 8 (length s) @ s"

definition digest_input :: "string \<Rightarrow> response_option list \<Rightarrow> string" where
  "digest_input summary opts =
     len_prefixed summary @ le_bytes 8 (length opts) @
     concat (map (\<lambda>opt. len_prefixed (ro_key opt) @ len_prefixed (ro_label opt)) opts)"

definition digest_of :: "(string \<Rightarrow> string) \<Rightarrow> string \<Rightarrow> response_option list \<Rightarrow> string" where
  "digest_of H summary opts = H (digest_input summary opts)"

definition payload_new ::
  "(string \<Rightarrow> string) \<Rightarrow> string \<Rightarrow> string \<Rightarrow> response_option list \<Rightarrow> operator_payload" where
  "payload_new H gate summary opts =
     \<lparr>gate_id = gate, rendered_summary = summary, options = opts, digest = digest_of H summary opts\<rparr>"

definition recomputed_digest :: "(string \<Rightarrow> string) \<Rightarrow> operator_payload \<Rightarrow> string" where
  "recomputed_digest H p = digest_of H (rendered_summary p) (options p)"

definition digest_matches :: "(string \<Rightarrow> string) \<Rightarrow> operator_payload \<Rightarrow> bool" where
  "digest_matches H p \<longleftrightarrow> digest p = recomputed_digest H p"

subsection \<open>Validation\<close>

record payload_limits =
  max_options :: nat
  min_options :: nat
  max_label_chars :: nat
  max_summary_chars :: nat

definition payload_limits_default :: payload_limits where
  "payload_limits_default =
     \<lparr>max_options = 3, min_options = 2, max_label_chars = 20, max_summary_chars = 1024\<rparr>"

datatype operator_validation_error =
    MissingRenderedSummary
  | RenderedSummaryTooLong nat nat
  | TooFewOptions nat nat
  | TooManyOptions nat nat
  | OptionLabelTooLong string nat nat

datatype validated_payload = Validated (into_payload: operator_payload)

fun first_long_label :: "response_option list \<Rightarrow> nat \<Rightarrow> operator_validation_error option" where
  "first_long_label [] m = None"
| "first_long_label (opt # opts) m =
     (let label_chars = chars_count (ro_label opt)
      in if label_chars > m then Some (OptionLabelTooLong (ro_key opt) label_chars m)
         else first_long_label opts m)"

definition validate_payload ::
  "operator_payload \<Rightarrow> payload_limits \<Rightarrow> operator_validation_error + validated_payload" where
  "validate_payload p L =
     (if trim (rendered_summary p) = [] then Inl MissingRenderedSummary
      else let summary_chars = chars_count (rendered_summary p) in
      if summary_chars > max_summary_chars L
      then Inl (RenderedSummaryTooLong summary_chars (max_summary_chars L))
      else let option_count = length (options p) in
      if option_count < min_options L then Inl (TooFewOptions option_count (min_options L))
      else if option_count > max_options L then Inl (TooManyOptions option_count (max_options L))
      else case first_long_label (options p) (max_label_chars L) of
        Some e \<Rightarrow> Inl e
      | None \<Rightarrow> Inr (Validated p))"

datatype operator_channel = Notification | Session string

definition is_notification :: "operator_channel \<Rightarrow> bool" where
  "is_notification c = (case c of Notification \<Rightarrow> True | _ \<Rightarrow> False)"

definition session_slug :: "operator_channel \<Rightarrow> string option" where
  "session_slug c = (case c of Notification \<Rightarrow> None | Session s \<Rightarrow> Some s)"

datatype notify_error =
    TransportError string
  | RateLimited u64
  | PayloadRejected string
  | Unauthorized
  | Malformed string

definition is_retryable :: "notify_error \<Rightarrow> bool" where
  "is_retryable e = (case e of TransportError _ \<Rightarrow> True | RateLimited _ \<Rightarrow> True | _ \<Rightarrow> False)"

subsection \<open>The failure-notice policy\<close>

record notify_on_statuses =
  on_failed :: bool
  on_budget_halted :: bool
  on_cancelled :: bool
  on_succeeded :: bool

definition notify_on_statuses_default :: notify_on_statuses where
  "notify_on_statuses_default =
     \<lparr>on_failed = True, on_budget_halted = True, on_cancelled = False, on_succeeded = False\<rparr>"

record partial_notify_on_statuses =
  p_failed :: "bool option"
  p_budget_halted :: "bool option"
  p_cancelled :: "bool option"
  p_succeeded :: "bool option"

definition merge_notify_on_statuses ::
  "notify_on_statuses \<Rightarrow> partial_notify_on_statuses \<Rightarrow> notify_on_statuses" where
  "merge_notify_on_statuses base ov =
     (let b1 = (case p_failed ov of Some v \<Rightarrow> base\<lparr>on_failed := v\<rparr> | None \<Rightarrow> base);
          b2 = (case p_budget_halted ov of Some v \<Rightarrow> b1\<lparr>on_budget_halted := v\<rparr> | None \<Rightarrow> b1);
          b3 = (case p_cancelled ov of Some v \<Rightarrow> b2\<lparr>on_cancelled := v\<rparr> | None \<Rightarrow> b2)
      in (case p_succeeded ov of Some v \<Rightarrow> b3\<lparr>on_succeeded := v\<rparr> | None \<Rightarrow> b3))"

record failure_notify_policy =
  notify_statuses :: notify_on_statuses
  failure_item_priority :: int

definition failure_policy_default :: failure_notify_policy where
  "failure_policy_default =
     \<lparr>notify_statuses = notify_on_statuses_default, failure_item_priority = 0\<rparr>"

record partial_failure_notify_policy =
  p_notify_statuses :: "partial_notify_on_statuses option"
  p_failure_item_priority :: "int option"

definition failure_policy_apply ::
  "failure_notify_policy \<Rightarrow> partial_failure_notify_policy \<Rightarrow> failure_notify_policy" where
  "failure_policy_apply p ov =
     \<lparr>notify_statuses =
        (case p_notify_statuses ov of
           Some partial \<Rightarrow> merge_notify_on_statuses (notify_statuses p) partial
         | None \<Rightarrow> notify_statuses p),
      failure_item_priority = merge_opt (failure_item_priority p) (p_failure_item_priority ov)\<rparr>"

definition failure_statuses_explicit :: "partial_notify_on_statuses option" where
  "failure_statuses_explicit = Some \<lparr>p_failed = Some True, p_budget_halted = Some True,
     p_cancelled = Some False, p_succeeded = Some False\<rparr>"

definition failure_baseline :: partial_failure_notify_policy where
  "failure_baseline =
     \<lparr>p_notify_statuses = failure_statuses_explicit, p_failure_item_priority = Some 0\<rparr>"

definition failure_cheap_fast :: partial_failure_notify_policy where
  "failure_cheap_fast =
     \<lparr>p_notify_statuses = failure_statuses_explicit, p_failure_item_priority = Some (- 5)\<rparr>"

definition failure_thorough :: partial_failure_notify_policy where
  "failure_thorough =
     \<lparr>p_notify_statuses = failure_statuses_explicit, p_failure_item_priority = Some 5\<rparr>"

definition failure_profile_by_name :: "string \<Rightarrow> partial_failure_notify_policy option" where
  "failure_profile_by_name n =
     (if n = ''baseline'' then Some failure_baseline
      else if n = ''cheap-fast'' then Some failure_cheap_fast
      else if n = ''thorough'' then Some failure_thorough else None)"

definition failure_policy_for_run ::
  "policy_ext \<Rightarrow> (json \<Rightarrow> partial_failure_notify_policy option) \<Rightarrow> policy_config_source \<Rightarrow>
   string option \<Rightarrow> partial_failure_notify_policy option \<Rightarrow> policy_error + failure_notify_policy" where
  "failure_policy_for_run =
     resolve_policy_for_run failure_policy_apply failure_policy_default ''run_failure_notification''
       failure_profile_by_name"

definition should_notify :: "string \<Rightarrow> failure_notify_policy \<Rightarrow> bool" where
  "should_notify status p =
     (if status = ''failed'' then on_failed (notify_statuses p)
      else if status = ''budget_halted'' then on_budget_halted (notify_statuses p)
      else if status = ''cancelled'' then on_cancelled (notify_statuses p)
      else if status = ''succeeded'' then on_succeeded (notify_statuses p)
      else False)"

subsection \<open>The failure notice\<close>

record failed_node =
  fn_name :: string
  fn_error :: string

abbreviation newline :: char where
  "newline \<equiv> CHR 0x0A"

definition truncation_marker :: string where
  "truncation_marker = [CHR 0xE2, CHR 0x80, CHR 0xA6] @ ''[truncated]''"

definition em_dash :: string where
  "em_dash = [CHR 0xE2, CHR 0x80, CHR 0x94]"

definition failure_header :: "string \<Rightarrow> string \<Rightarrow> string \<Rightarrow> string" where
  "failure_header run_id workflow status =
     (if status = ''budget_halted'' then ''Run halted: budget limit reached'' else ''Run failed'')
     @ [newline] @ ''Workflow: '' @ workflow @ [newline] @ ''Run: '' @ run_id @ [newline]"

definition failure_node_line :: "failed_node list \<Rightarrow> string" where
  "failure_node_line failed =
     (case failed of
        [] \<Rightarrow> ''No specific node failure recorded.''
      | [x] \<Rightarrow> ''Failing node: '' @ fn_name x @ '' '' @ em_dash @ '' '' @ fn_error x
      | x # rest \<Rightarrow>
          ''Failing node: '' @ fn_name x @ '' '' @ em_dash @ '' '' @ fn_error x
          @ '' (+'' @ decimal (length rest) @ '' more failed node''
          @ (if length rest = 1 then [] else ''s'') @ '')'')"

definition failure_summary ::
  "string \<Rightarrow> string \<Rightarrow> string \<Rightarrow> failed_node list \<Rightarrow> nat \<Rightarrow> string" where
  "failure_summary run_id workflow status failed max_chars =
     (let header = failure_header run_id workflow status;
          node_line = failure_node_line failed;
          available = max_chars - chars_count header;
          final_line =
            (if chars_count node_line \<le> available then node_line
             else chars_take (available - chars_count truncation_marker) node_line @ truncation_marker);
          rendered = header @ final_line
      in if chars_count rendered > max_chars then chars_take max_chars rendered else rendered)"

definition failure_options :: "response_option list" where
  "failure_options =
     [\<lparr>ro_key = ''acknowledge'', ro_label = ''Acknowledge''\<rparr>,
      \<lparr>ro_key = ''view_run'', ro_label = ''View run''\<rparr>]"

definition render_failure_payload ::
  "(string \<Rightarrow> string) \<Rightarrow> string \<Rightarrow> string \<Rightarrow> string \<Rightarrow> string \<Rightarrow> failed_node list \<Rightarrow> payload_limits \<Rightarrow>
   operator_validation_error + validated_payload" where
  "render_failure_payload H gate run_id workflow status failed L =
     validate_payload
       (payload_new H gate (failure_summary run_id workflow status failed (max_summary_chars L))
          failure_options) L"

subsection \<open>The digest binds the rendered payload\<close>

lemma length_le_bytes [simp]: "length (le_bytes k n) = k"
  by (induction k arbitrary: n) auto

lemma le_bytes_inj: "le_bytes k m = le_bytes k n \<Longrightarrow> m < 256 ^ k \<Longrightarrow> n < 256 ^ k \<Longrightarrow> m = n"
proof (induction k arbitrary: m n)
  case (Suc k)
  from Suc.prems(1) have "(of_char (char_of (m mod 256) :: char) :: nat) = of_char (char_of (n mod 256) :: char)"
    by simp
  then have "m mod 256 = n mod 256" by (simp add: take_bit_eq_mod)
  moreover have "m div 256 = n div 256"
    using Suc by (intro Suc.IH) (auto simp: div_less_iff_less_mult mult.commute)
  ultimately show ?case by (metis div_mod_decomp)
qed simp

text \<open>A text of less than \<open>2^64\<close> bytes, which every \<open>String\<close> is.\<close>

abbreviation short :: "string \<Rightarrow> bool" where
  "short s \<equiv> length s < 256 ^ 8"

lemma len_prefixed_inj:
  assumes "len_prefixed s @ a = len_prefixed t @ b" "short s" "short t"
  shows "s = t \<and> a = b"
proof -
  from assms(1) have "le_bytes 8 (length s) = le_bytes 8 (length t)" and rest: "s @ a = t @ b"
    by (simp_all add: len_prefixed_def)
  then have "length s = length t" using assms by (intro le_bytes_inj [of 8])
  with rest show ?thesis by simp
qed

definition short_options :: "response_option list \<Rightarrow> bool" where
  "short_options opts \<longleftrightarrow>
     length opts < 256 ^ 8 \<and> list_all (\<lambda>opt. short (ro_key opt) \<and> short (ro_label opt)) opts"

lemma option_stream_inj:
  fixes xs ys :: "response_option list"
  assumes "concat (map (\<lambda>opt. len_prefixed (ro_key opt) @ len_prefixed (ro_label opt)) xs) =
           concat (map (\<lambda>opt. len_prefixed (ro_key opt) @ len_prefixed (ro_label opt)) ys)"
    and "length xs = length ys"
    and "list_all (\<lambda>opt. short (ro_key opt) \<and> short (ro_label opt)) xs"
    and "list_all (\<lambda>opt. short (ro_key opt) \<and> short (ro_label opt)) ys"
  shows "xs = ys"
  using assms(2,1,3,4)
proof (induction xs ys rule: list_induct2)
  case (Cons x xs y ys)
  let ?rest = "\<lambda>zs. concat (map (\<lambda>opt. len_prefixed (ro_key opt) @ len_prefixed (ro_label opt)) zs)"
  have "len_prefixed (ro_key x) @ (len_prefixed (ro_label x) @ ?rest xs) =
        len_prefixed (ro_key y) @ (len_prefixed (ro_label y) @ ?rest ys)"
    using Cons.prems(1) by simp
  from len_prefixed_inj [OF this] Cons.prems have
    k: "ro_key x = ro_key y" and "len_prefixed (ro_label x) @ ?rest xs = len_prefixed (ro_label y) @ ?rest ys"
    by simp_all
  from len_prefixed_inj [OF this(2)] Cons.prems have "ro_label x = ro_label y" "?rest xs = ?rest ys"
    by simp_all
  with k have "x = y" by (cases x; cases y) simp
  with \<open>?rest xs = ?rest ys\<close> Cons show ?case by simp
qed simp

lemma digest_input_inj:
  assumes "digest_input s xs = digest_input t ys"
    and "short s" "short t" "short_options xs" "short_options ys"
  shows "s = t \<and> xs = ys"
proof -
  from assms(1) have "s = t \<and>
      le_bytes 8 (length xs) @ concat (map (\<lambda>opt. len_prefixed (ro_key opt) @ len_prefixed (ro_label opt)) xs) =
      le_bytes 8 (length ys) @ concat (map (\<lambda>opt. len_prefixed (ro_key opt) @ len_prefixed (ro_label opt)) ys)"
    unfolding digest_input_def by (rule len_prefixed_inj) (use assms in auto)
  moreover from this have "length xs = length ys"
    using assms(4,5) by (intro le_bytes_inj [of 8]) (auto simp: short_options_def)
  ultimately show ?thesis
    using option_stream_inj [of xs ys] assms(4,5) by (auto simp: short_options_def)
qed

text \<open>
  A digest binds what the operator was shown: a payload built from a summary and options carries
  the digest of exactly these, and as long as the hash has no collision the digest still matches
  after a change of the payload only if summary and options are the ones it was built from.
\<close>

theorem digest_binds_rendered:
  assumes "short s" "short_options xs" "short (rendered_summary p)" "short_options (options p)"
    and "digest p = digest (payload_new H g s xs)"
  shows "digest_matches H (payload_new H g s xs) \<and>
    (digest_matches H p \<longrightarrow>
       rendered_summary p = s \<and> options p = xs \<or> (\<exists>a b. a \<noteq> b \<and> H a = H b))"
proof -
  have "digest_input (rendered_summary p) (options p) \<noteq> digest_input s xs"
    if "\<not> (rendered_summary p = s \<and> options p = xs)"
    using digest_input_inj [of "rendered_summary p" "options p" s xs] assms that by blast
  moreover have "H (digest_input (rendered_summary p) (options p)) = H (digest_input s xs)"
    if "digest_matches H p"
    using that assms(5) by (simp add: digest_matches_def recomputed_digest_def payload_new_def digest_of_def)
  ultimately show ?thesis
    by (auto simp: digest_matches_def recomputed_digest_def payload_new_def)
qed

theorem digest_binds_rendered_witness:
  "digest_matches id (payload_new id ''gate'' ''diff'' failure_options) \<and>
   \<not> digest_matches id (payload_new id ''gate'' ''diff'' failure_options\<lparr>rendered_summary := ''other''\<rparr>)"
proof -
  let ?p = "payload_new id ''gate'' ''diff'' failure_options"
  have "short_options failure_options" by (simp add: short_options_def failure_options_def)
  moreover have "options ?p = failure_options" by (simp add: payload_new_def)
  ultimately have "digest_matches id ?p \<and>
      (digest_matches id (?p\<lparr>rendered_summary := ''other''\<rparr>) \<longrightarrow>
       rendered_summary (?p\<lparr>rendered_summary := ''other''\<rparr>) = ''diff'' \<and> True \<or> (\<exists>a b :: string. a \<noteq> b \<and> id a = id b))"
    using digest_binds_rendered [of "''diff''" failure_options "?p\<lparr>rendered_summary := ''other''\<rparr>" id "''gate''"]
    by simp
  then show ?thesis by simp
qed

subsection \<open>Validation is exact\<close>

definition payload_ok :: "payload_limits \<Rightarrow> operator_payload \<Rightarrow> bool" where
  "payload_ok L p \<longleftrightarrow>
     trim (rendered_summary p) \<noteq> [] \<and> chars_count (rendered_summary p) \<le> max_summary_chars L \<and>
     min_options L \<le> length (options p) \<and> length (options p) \<le> max_options L \<and>
     list_all (\<lambda>opt. chars_count (ro_label opt) \<le> max_label_chars L) (options p)"

lemma first_long_label_None:
  "first_long_label opts m = None \<longleftrightarrow> list_all (\<lambda>opt. chars_count (ro_label opt) \<le> m) opts"
  by (induction opts) (auto simp: Let_def)

lemma validate_payload_ok [simp]: "payload_ok L p \<Longrightarrow> validate_payload p L = Inr (Validated p)"
  by (simp add: validate_payload_def payload_ok_def Let_def first_long_label_None split: option.splits)

lemma validate_payload_Inr: "validate_payload p L = Inr v \<longleftrightarrow> payload_ok L p \<and> v = Validated p"
  by (auto simp: validate_payload_def payload_ok_def Let_def not_less
      simp flip: first_long_label_None split: if_splits option.splits)

subsection \<open>The failure notice is always delivered\<close>

lemma failure_header_starts: "\<exists>rest. failure_header r w s = CHR ''R'' # rest"
  by (simp add: failure_header_def)

lemma failure_summary_starts:
  assumes "0 < m"
  shows "\<exists>rest. failure_summary r w s f m = CHR ''R'' # rest"
proof -
  obtain rest where h: "failure_header r w s = CHR ''R'' # rest" using failure_header_starts by blast
  moreover have "\<not> is_cont (CHR ''R'')" by (simp add: is_cont_def less_char_def less_eq_char_def)
  ultimately show ?thesis
    using assms by (cases m) (auto simp: failure_summary_def Let_def)
qed

lemma failure_summary_not_blank: "0 < m \<Longrightarrow> trim (failure_summary r w s f m) \<noteq> []"
proof -
  assume "0 < m"
  then have "CHR ''R'' \<in> set (failure_summary r w s f m)"
    using failure_summary_starts [of m r w s f] by auto
  moreover have "list_all (\<lambda>w. CHR ''R'' \<notin> set w) whitespace" by code_simp
  ultimately show ?thesis by (rule trim_not_blank)
qed

lemma failure_summary_bounded: "chars_count (failure_summary r w s f m) \<le> m"
  by (simp add: failure_summary_def Let_def)

lemma failure_summary_complete:
  assumes "chars_count (failure_header r w s @ failure_node_line f) \<le> m"
  shows "failure_summary r w s f m = failure_header r w s @ failure_node_line f"
proof -
  have "chars_count (failure_node_line f) \<le> m - chars_count (failure_header r w s)"
    using assms by simp
  then show ?thesis using assms by (simp add: failure_summary_def Let_def)
qed

lemma marker_chars [simp]: "chars_count truncation_marker = 12"
  by code_simp

lemma failure_summary_marked:
  assumes "chars_count (failure_header r w s) + 12 \<le> m"
    and "m < chars_count (failure_header r w s @ failure_node_line f)"
  shows "failure_summary r w s f m =
    failure_header r w s @ chars_take (m - chars_count (failure_header r w s) - 12) (failure_node_line f)
    @ truncation_marker"
proof -
  have "\<not> chars_count (failure_node_line f) \<le> m - chars_count (failure_header r w s)"
    using assms by simp
  then show ?thesis using assms by (simp add: failure_summary_def Let_def)
qed

lemma failure_summary_cut_header:
  assumes "m < chars_count (failure_header r w s)"
  shows "failure_summary r w s f m = chars_take m (failure_header r w s)"
proof -
  have "chars_take m (a @ b) = chars_take m a" if "m < chars_count a" for a b
    using that by (induction m a rule: chars_take.induct) (auto split: nat.splits if_splits)
  then show ?thesis using assms by (simp add: failure_summary_def Let_def)
qed

lemma failure_options_chars [simp]:
  "length failure_options = 2"
  "list_all (\<lambda>opt. chars_count (ro_label opt) \<le> n) failure_options \<longleftrightarrow> 11 \<le> n"
proof -
  have "chars_count ''Acknowledge'' = 11" "chars_count ''View run'' = 8" by code_simp+
  then show "list_all (\<lambda>opt. chars_count (ro_label opt) \<le> n) failure_options \<longleftrightarrow> 11 \<le> n"
    by (auto simp: failure_options_def simp del: chars_count.simps)
qed (simp add: failure_options_def)

lemma render_failure_ok:
  assumes "0 < max_summary_chars L" "2 \<in> {min_options L..max_options L}" "11 \<le> max_label_chars L"
  shows "payload_ok L (payload_new H g (failure_summary r w s f (max_summary_chars L)) failure_options)"
  using assms failure_summary_not_blank [of "max_summary_chars L" r w s f]
    failure_summary_bounded [of r w s f "max_summary_chars L"]
  by (simp add: payload_ok_def payload_new_def)

lemma render_failure_default:
  "render_failure_payload H g r w s f payload_limits_default =
     Inr (Validated (payload_new H g (failure_summary r w s f 1024) failure_options))"
  using render_failure_ok [of payload_limits_default H g r w s f]
  by (simp add: render_failure_payload_def payload_limits_default_def)

text \<open>
  Reporting a failed run fails only on limits no run can change: a summary limit of zero, bounds
  on the options that exclude two of them, or labels of less than eleven characters. Otherwise the
  notice is valid, whatever the workflow, the nodes and their errors are: the whole text when it
  fits; the header, a prefix of the node line and the truncation marker when the header and the
  marker fit; and when the limit is too small for the header, a prefix of the header without the
  marker.
\<close>

theorem failure_notice_total:
  "(case render_failure_payload H g r w s f L of
      Inl e \<Rightarrow> \<not> (0 < max_summary_chars L \<and> 2 \<in> {min_options L..max_options L} \<and> 11 \<le> max_label_chars L)
    | Inr v \<Rightarrow>
        (let m = max_summary_chars L; h = failure_header r w s; line = failure_node_line f;
             text = rendered_summary (into_payload v)
         in payload_ok L (into_payload v) \<and> digest_matches H (into_payload v) \<and> options (into_payload v) = failure_options \<and>
            (if chars_count (h @ line) \<le> m then text = h @ line
             else if chars_count h + 12 \<le> m
               then text = h @ chars_take (m - chars_count h - 12) line @ truncation_marker
             else if m < chars_count h then text = chars_take m h
             else prefix h text)))"
proof (cases "payload_ok L (payload_new H g (failure_summary r w s f (max_summary_chars L)) failure_options)")
  case False
  then have "\<not> (0 < max_summary_chars L \<and> 2 \<in> {min_options L..max_options L} \<and> 11 \<le> max_label_chars L)"
    using render_failure_ok by blast
  moreover obtain e where "render_failure_payload H g r w s f L = Inl e"
    using False validate_payload_Inr unfolding render_failure_payload_def by (metis sum.exhaust)
  ultimately show ?thesis by simp
next
  case True
  let ?m = "max_summary_chars L" and ?h = "failure_header r w s"
  have "prefix ?h (failure_summary r w s f ?m)" if "chars_count ?h \<le> ?m"
    using that by (auto simp: failure_summary_def Let_def chars_take_append)
  then show ?thesis
    using True failure_summary_complete failure_summary_marked failure_summary_cut_header
    by (auto simp: render_failure_payload_def Let_def digest_matches_def recomputed_digest_def payload_new_def)
qed

subsection \<open>The knobs of the failure policy\<close>

lemmas failure_apply_simps = failure_policy_apply_def merge_notify_on_statuses_def merge_opt_def

interpretation failure_failed: policy_knob failure_policy_apply "on_failed \<circ> notify_statuses"
  "\<lambda>ov. Option.bind (p_notify_statuses ov) p_failed"
  by unfold_locales (simp add: failure_apply_simps Let_def split: option.split)

interpretation failure_halted: policy_knob failure_policy_apply "on_budget_halted \<circ> notify_statuses"
  "\<lambda>ov. Option.bind (p_notify_statuses ov) p_budget_halted"
  by unfold_locales (simp add: failure_apply_simps Let_def split: option.split)

interpretation failure_cancelled: policy_knob failure_policy_apply "on_cancelled \<circ> notify_statuses"
  "\<lambda>ov. Option.bind (p_notify_statuses ov) p_cancelled"
  by unfold_locales (simp add: failure_apply_simps Let_def split: option.split)

interpretation failure_succeeded: policy_knob failure_policy_apply "on_succeeded \<circ> notify_statuses"
  "\<lambda>ov. Option.bind (p_notify_statuses ov) p_succeeded"
  by unfold_locales (simp add: failure_apply_simps Let_def split: option.split)

interpretation failure_priority: policy_knob failure_policy_apply failure_item_priority
  p_failure_item_priority
  by unfold_locales (simp add: failure_apply_simps Let_def)

text \<open>
  The failure policy of a run comes from four layers, each knob by itself: the event, the profile,
  the harness file and the built-in value, and the highest layer that sets the knob decides it; the
  four statuses are knobs of their own. The profile is the one of that name in the harness file, else
  the built-in one; a name that is neither, a harness file that cannot be read and a section that
  cannot be parsed are errors and never a silent default. Without a harness file only the built-in
  profiles and the event count.
\<close>

theorem failure_policy_layers:
  "(let key = ''run_failure_notification'';
        harness = read_harness_policy_defaults_from X dec src key;
        bundle = resolve_profile_from X dec prof src key failure_profile_by_name
    in case (harness, bundle) of
         (Inl e, _) \<Rightarrow> failure_policy_for_run X dec src prof ev = Inl e
       | (Inr h, Inl e) \<Rightarrow> failure_policy_for_run X dec src prof ev = Inl e
       | (Inr h, Inr p) \<Rightarrow>
           (case failure_policy_for_run X dec src prof ev of
              Inl e \<Rightarrow> False
            | Inr r \<Rightarrow>
                on_failed (notify_statuses r) =
                  topmost (\<lambda>ov. Option.bind (p_notify_statuses ov) p_failed) True [ev, p, h] \<and>
                on_budget_halted (notify_statuses r) =
                  topmost (\<lambda>ov. Option.bind (p_notify_statuses ov) p_budget_halted) True [ev, p, h] \<and>
                on_cancelled (notify_statuses r) =
                  topmost (\<lambda>ov. Option.bind (p_notify_statuses ov) p_cancelled) False [ev, p, h] \<and>
                on_succeeded (notify_statuses r) =
                  topmost (\<lambda>ov. Option.bind (p_notify_statuses ov) p_succeeded) False [ev, p, h] \<and>
                failure_item_priority r = topmost p_failure_item_priority 0 [ev, p, h])) \<and>
   failure_policy_for_run X dec Builtin None ev = Inr (resolve failure_policy_apply failure_policy_default None None ev) \<and>
   (case failure_profile_by_name name of
      Some p \<Rightarrow> failure_policy_for_run X dec Builtin (Some name) ev =
        Inr (resolve failure_policy_apply failure_policy_default None (Some p) ev)
    | None \<Rightarrow> failure_policy_for_run X dec Builtin (Some name) ev =
        Inl (UnknownProfile name ''run_failure_notification''))"
proof -
  note knobs = failure_failed.knob_resolve failure_halted.knob_resolve failure_cancelled.knob_resolve
    failure_succeeded.knob_resolve failure_priority.knob_resolve
  note readers = read_harness_policy_defaults_from_def resolve_profile_from_def
    read_harness_profiles_from_def harness_section_def harness_path_def
  have "failure_policy_for_run X dec Builtin None ev =
      Inr (resolve failure_policy_apply failure_policy_default None None ev)"
    by (simp add: failure_policy_for_run_def resolve_policy_for_run_def readers)
  moreover have "case failure_profile_by_name name of
      Some p \<Rightarrow> failure_policy_for_run X dec Builtin (Some name) ev =
        Inr (resolve failure_policy_apply failure_policy_default None (Some p) ev)
    | None \<Rightarrow> failure_policy_for_run X dec Builtin (Some name) ev =
        Inl (UnknownProfile name ''run_failure_notification'')"
    by (cases "failure_profile_by_name name") (simp_all add: failure_policy_for_run_def resolve_policy_for_run_def readers)
  ultimately show ?thesis
    using knobs [of failure_policy_default]
    by (auto simp: Let_def failure_policy_for_run_def resolve_policy_for_run_def o_def
        failure_policy_default_def notify_on_statuses_default_def split: sum.splits)
qed

end
