(* ===== verification/Approvals.thy ===== *)
theory Approvals
  imports Payload "HOL-Library.Multiset"
begin

text \<open>
  The approval ledger (\<open>operator/ledger\<close>): its rows (\<open>record.rs\<close>), the append-only file of JSON lines
  (\<open>store.rs\<close>), the recording of a decision (\<open>mod.rs\<close>) and the queries (\<open>query.rs\<close>).

  The file is its content, or \<open>None\<close> when there is none. The JSON form of a row is a parameter, with
  the documented behaviour of the serialiser as \<open>row_format_ok\<close>: a row has a form without line breaks
  or surrounding whitespace that reads back as the row. Whether the file can be opened for appending
  is an argument of every append.
\<close>

datatype ledger_decision = Approved | Skipped | RoutedToSession | Requeued

record approval_row =
  ar_item_id :: string
  ar_digest :: string
  ar_decision :: ledger_decision
  ar_who :: string
  ar_delivered_at :: timestamp
  ar_decided_at :: timestamp
  ar_rendered_diff :: string

record row_format =
  to_line :: "approval_row \<Rightarrow> string option"
  of_line :: "string \<Rightarrow> approval_row option"

subsection \<open>The file\<close>

definition ledger_append :: "row_format \<Rightarrow> bool \<Rightarrow> approval_row \<Rightarrow> string option \<Rightarrow> string option" where
  "ledger_append F writable row file =
     (case to_line F row of
        None \<Rightarrow> file
      | Some line \<Rightarrow>
          if writable then Some ((case file of None \<Rightarrow> [] | Some s \<Rightarrow> s) @ line @ [newline]) else file)"

text \<open>\<open>BufRead::lines\<close>: the pieces between line feeds, less a final empty one and a final carriage return.\<close>

definition strip_cr :: "string \<Rightarrow> string" where
  "strip_cr l = (if l \<noteq> [] \<and> last l = CHR 0x0D then butlast l else l)"

definition buf_lines :: "string \<Rightarrow> string list" where
  "buf_lines s =
     (let ps = split_on newline s in map strip_cr (if last ps = [] then butlast ps else ps))"

definition read_line :: "row_format \<Rightarrow> string \<Rightarrow> approval_row option" where
  "read_line F line = (let trimmed = trim line in if trimmed = [] then None else of_line F trimmed)"

definition read_all :: "row_format \<Rightarrow> string option \<Rightarrow> approval_row list" where
  "read_all F file = (case file of None \<Rightarrow> [] | Some s \<Rightarrow> List.map_filter (read_line F) (buf_lines s))"

definition rows_for :: "row_format \<Rightarrow> string option \<Rightarrow> string \<Rightarrow> approval_row list" where
  "rows_for F file item = filter (\<lambda>row. ar_item_id row = item) (read_all F file)"

definition default_ledger_path :: "string option \<Rightarrow> string option \<Rightarrow> string option" where
  "default_ledger_path xdg_state_home home =
     (case xdg_state_home of
        Some xdg \<Rightarrow> Some (path_join (path_join xdg ''engine-rs'') ''approval-ledger.jsonl'')
      | None \<Rightarrow> map_option (\<lambda>h. path_join (path_join (path_join (path_join h ''.local'') ''state'') ''engine-rs'')
          ''approval-ledger.jsonl'') home)"

subsection \<open>Decisions\<close>

record decision_request =
  dr_item_id :: string
  dr_delivered_digest :: string
  dr_presented_digest :: string
  dr_rendered_diff :: string
  dr_requested :: ledger_decision
  dr_who :: string
  dr_delivered_at :: timestamp
  dr_decided_at :: timestamp

record decision_outcome =
  outcome_row :: approval_row
  should_execute :: bool

definition decision_row :: "decision_request \<Rightarrow> approval_row" where
  "decision_row q =
     (let digest_matches = dr_delivered_digest q = dr_presented_digest q
      in \<lparr>ar_item_id = dr_item_id q, ar_digest = dr_delivered_digest q,
          ar_decision = (if digest_matches then dr_requested q else Requeued),
          ar_who = dr_who q, ar_delivered_at = dr_delivered_at q, ar_decided_at = dr_decided_at q,
          ar_rendered_diff = dr_rendered_diff q\<rparr>)"

definition record_decision ::
  "row_format \<Rightarrow> bool \<Rightarrow> decision_request \<Rightarrow> string option \<Rightarrow> decision_outcome \<times> string option" where
  "record_decision F writable q file =
     (let row = decision_row q
      in (\<lparr>outcome_row = row,
           should_execute = dr_delivered_digest q = dr_presented_digest q \<and> ar_decision row = Approved\<rparr>,
          ledger_append F writable row file))"

subsection \<open>Queries\<close>

definition time_to_approval :: "approval_row \<Rightarrow> int" where
  "time_to_approval row = ar_decided_at row - ar_delivered_at row"

record approval_stats =
  st_count :: nat
  st_median :: "int option"
  st_max :: "int option"

definition time_to_approval_stats :: "approval_row list \<Rightarrow> approval_stats" where
  "time_to_approval_stats rows =
     (let durations = map time_to_approval (filter (\<lambda>row. ar_decision row \<noteq> Requeued) rows)
      in if durations = [] then \<lparr>st_count = 0, st_median = None, st_max = None\<rparr>
         else let ds = sort durations; n = length ds
              in \<lparr>st_count = n, st_median = Some (ds ! (n div 2)), st_max = Some (last ds)\<rparr>)"

definition utc_day :: "timestamp \<Rightarrow> int" where
  "utc_day t = t div (86400 * 1000000000)"

fun count_day :: "int \<Rightarrow> (int \<times> nat) list \<Rightarrow> (int \<times> nat) list" where
  "count_day d [] = [(d, 1)]"
| "count_day d ((e, n) # m) =
     (if d < e then (d, 1) # (e, n) # m else if d = e then (e, Suc n) # m else (e, n) # count_day d m)"

definition decisions_per_day :: "approval_row list \<Rightarrow> (int \<times> nat) list" where
  "decisions_per_day rows = foldl (\<lambda>m row. count_day (utc_day (ar_decided_at row)) m) [] rows"

subsection \<open>Laws of the file\<close>

definition row_format_ok :: "row_format \<Rightarrow> approval_row \<Rightarrow> bool" where
  "row_format_ok F r \<longleftrightarrow>
     (case to_line F r of
        None \<Rightarrow> False
      | Some l \<Rightarrow> l \<noteq> [] \<and> newline \<notin> set l \<and> last l \<noteq> CHR 0x0D \<and> trim l = l \<and> of_line F l = Some r)"

text \<open>A file whose last line is complete.\<close>

definition complete_file :: "string option \<Rightarrow> bool" where
  "complete_file file \<longleftrightarrow> (case file of None \<Rightarrow> True | Some s \<Rightarrow> s = [] \<or> last s = newline)"

lemma split_on_append_last:
  "split_on c (a @ b) = butlast (split_on c a) @ (last (split_on c a) @ hd (split_on c b)) # tl (split_on c b)"
proof (induction a)
  case Nil
  then show ?case by (cases b) (auto split: list.splits)
next
  case (Cons x a)
  have "split_on c a \<noteq> []" by (cases a) (auto split: list.splits)
  with Cons show ?case by (cases "split_on c a") auto
qed

lemma split_on_nonempty [simp]: "split_on c s \<noteq> []"
  by (cases s) (auto split: list.splits)

lemma last_split_on_sep: "last (split_on c (s @ [c])) = []"
  by (simp add: split_on_append_last)

lemma buf_lines_append:
  assumes "s = [] \<or> last s = newline"
  shows "buf_lines (s @ t) = buf_lines s @ buf_lines t"
proof (cases "s = []")
  case False
  with assms obtain s' where "s = s' @ [newline]" by (metis append_butlast_last_id)
  then have l: "last (split_on newline s) = []" by (simp add: last_split_on_sep)
  then have "split_on newline (s @ t) = butlast (split_on newline s) @ split_on newline t"
    by (simp add: split_on_append_last)
  with l show ?thesis by (simp add: buf_lines_def Let_def butlast_append)
qed (simp add: buf_lines_def)

lemma buf_lines_line:
  "newline \<notin> set l \<Longrightarrow> buf_lines (l @ [newline]) = [strip_cr l]"
  by (simp add: buf_lines_def)

lemma read_line_ok: "row_format_ok F r \<Longrightarrow> to_line F r = Some l \<Longrightarrow> read_line F (strip_cr l) = Some r"
  by (simp add: row_format_ok_def read_line_def strip_cr_def)

lemma complete_append [simp]: "complete_file file \<Longrightarrow> complete_file (ledger_append F w r file)"
  by (auto simp: ledger_append_def complete_file_def split: option.splits)

lemma read_all_append:
  assumes "complete_file file" "row_format_ok F r"
  shows "read_all F (ledger_append F True r file) = read_all F file @ [r]"
proof -
  obtain l where l: "to_line F r = Some l" using assms(2) by (auto simp: row_format_ok_def split: option.splits)
  define s where "s = (case file of None \<Rightarrow> [] | Some s \<Rightarrow> s)"
  have "s = [] \<or> last s = newline" using assms(1) by (auto simp: complete_file_def s_def split: option.splits)
  then have "buf_lines (s @ l @ [newline]) = buf_lines s @ [strip_cr l]"
    using assms(2) l by (subst buf_lines_append) (auto simp: row_format_ok_def buf_lines_line)
  moreover have "read_all F file = List.map_filter (read_line F) (buf_lines s)"
    by (auto simp: read_all_def s_def buf_lines_def List.map_filter_simps split: option.splits)
  ultimately show ?thesis
    using read_line_ok [OF assms(2) l] l
    by (simp add: ledger_append_def read_all_def s_def List.map_filter_simps)
qed

definition record_all :: "row_format \<Rightarrow> decision_request list \<Rightarrow> string option \<Rightarrow> string option" where
  "record_all F qs file = fold (\<lambda>q f. snd (record_decision F True q f)) qs file"

lemma read_all_record_all:
  assumes "complete_file f" "list_all (row_format_ok F \<circ> decision_row) qs"
  shows "read_all F (record_all F qs f) = read_all F f @ map decision_row qs"
  using assms
proof (induction qs arbitrary: f)
  case (Cons q qs)
  then show ?case
    by (simp add: record_all_def record_decision_def Let_def read_all_append)
qed (simp add: record_all_def)

text \<open>
  C35. The approval ledger records every decision once, in order, and never rewrites a row: recording
  decisions on a file that ends in a complete line adds exactly their rows. The row of a decision is
  approved, and the caller may execute it, exactly when approval was asked for and the digest
  presented is the one delivered; any decision on another digest is recorded as a re-queue.
\<close>

theorem approval_ledger_faithful:
  assumes "complete_file file" "list_all (row_format_ok F \<circ> decision_row) qs"
  shows "read_all F (record_all F qs file) = read_all F file @ map decision_row qs \<and>
    (let ok = dr_requested q = Approved \<and> dr_delivered_digest q = dr_presented_digest q in
       (ar_decision (decision_row q) = Approved \<longleftrightarrow> ok) \<and>
       (should_execute (fst (record_decision F w q f)) \<longleftrightarrow> ok)) \<and>
    (dr_delivered_digest q = dr_presented_digest q \<or> ar_decision (decision_row q) = Requeued)"
  using read_all_record_all [OF assms] by (simp add: decision_row_def record_decision_def Let_def)

definition example_request :: decision_request where
  "example_request = \<lparr>dr_item_id = ''i'', dr_delivered_digest = ''d'', dr_presented_digest = ''e'',
     dr_rendered_diff = ''x'', dr_requested = Approved, dr_who = ''op'', dr_delivered_at = 1, dr_decided_at = 5\<rparr>"

definition example_format :: row_format where
  "example_format = \<lparr>to_line = (\<lambda>r. Some ''{}''),
     of_line = (\<lambda>s. if s = ''{}'' then Some (decision_row example_request) else None)\<rparr>"

lemma trim_braces: "trim ''{}'' = ''{}''"
  by (rule trim_id) code_simp+

lemma example_format_ok: "row_format_ok example_format (decision_row example_request)"
  by (simp add: row_format_ok_def example_format_def trim_braces)

theorem approval_ledger_faithful_witness:
  "read_all example_format (record_all example_format [example_request, example_request] None) =
     [decision_row example_request, decision_row example_request] \<and>
   ar_decision (decision_row example_request) = Requeued"
  using approval_ledger_faithful [of None example_format "[example_request, example_request]" example_request]
    example_format_ok
  by (simp add: complete_file_def read_all_def example_request_def)

text \<open>
  A decision recorded after a write that was cut short is lost: when a process died after writing
  a part of a row without its line feed, the next row is written to the same line, and as that line
  is no row, reading the ledger gives back neither of them.
\<close>

theorem row_after_torn_write_is_lost:
  assumes "complete_file (Some s)" and "torn \<noteq> []" "newline \<notin> set torn"
    and "row_format_ok F r" "to_line F r = Some l" and "of_line F (trim (torn @ l)) = None"
  shows "read_all F (ledger_append F True r (Some (s @ torn))) = read_all F (Some s)"
proof -
  have l: "l \<noteq> []" "newline \<notin> set l" "last l \<noteq> CHR 0x0D"
    using assms(4,5) by (auto simp: row_format_ok_def)
  have "s = [] \<or> last s = newline" using assms(1) by (simp add: complete_file_def)
  then have "buf_lines (s @ (torn @ l) @ [newline]) = buf_lines s @ [torn @ l]"
    using assms(3) l buf_lines_line [of "torn @ l"] by (subst buf_lines_append) (auto simp: strip_cr_def)
  then show ?thesis
    using assms(5,6) by (simp add: ledger_append_def read_all_def read_line_def List.map_filter_simps Let_def)
qed

theorem row_after_torn_write_is_lost_witness:
  "read_all example_format
     (ledger_append example_format True (decision_row example_request) (Some ''{'')) = []"
proof -
  have "trim ''{{}'' = ''{{}''" by (rule trim_id) code_simp+
  then have "of_line example_format (trim (''{'' @ ''{}'')) = None" by (simp add: example_format_def)
  then have "read_all example_format
      (ledger_append example_format True (decision_row example_request) (Some ([] @ ''{''))) =
      read_all example_format (Some [])"
    by (intro row_after_torn_write_is_lost [where l = "''{}''"] example_format_ok)
      (simp_all add: complete_file_def example_format_def)
  then show ?thesis by (simp add: read_all_def buf_lines_def)
qed

subsection \<open>Laws of the queries\<close>

lemma sorted_nth_rank:
  assumes "sorted xs" "k < length xs"
  shows "length (filter (\<lambda>x. x < xs ! k) xs) \<le> k" "length (filter (\<lambda>x. xs ! k < x) xs) < length xs - k"
proof -
  have t: "x \<le> xs ! k" if "x \<in> set (take (Suc k) xs)" for x
    using that assms by (auto simp: in_set_conv_nth sorted_nth_mono)
  have d: "xs ! k \<le> x" if "x \<in> set (drop k xs)" for x
    using that assms by (auto simp: in_set_conv_nth sorted_nth_mono)
  have "filter (\<lambda>x. x < xs ! k) (drop k xs) = []" using d by (force simp: filter_empty_conv)
  then have "filter (\<lambda>x. x < xs ! k) xs = filter (\<lambda>x. x < xs ! k) (take k xs)"
    by (metis append_take_drop_id append_Nil2 filter_append)
  then show "length (filter (\<lambda>x. x < xs ! k) xs) \<le> k"
    using length_filter_le [of "\<lambda>x. x < xs ! k" "take k xs"] assms(2) by simp
  have "filter (\<lambda>x. xs ! k < x) (take (Suc k) xs) = []" using t by (force simp: filter_empty_conv)
  then have "filter (\<lambda>x. xs ! k < x) xs = filter (\<lambda>x. xs ! k < x) (drop (Suc k) xs)"
    by (metis append_take_drop_id append_Nil filter_append)
  then show "length (filter (\<lambda>x. xs ! k < x) xs) < length xs - k"
    using length_filter_le [of "\<lambda>x. xs ! k < x" "drop (Suc k) xs"] assms(2) by simp
qed

text \<open>
  The statistics of the time to approval look at the rows that are not re-queues: their number, the
  longest time, and a time that at most half of them exceed and at most half of them stay below.
\<close>

lemma approval_stats_exact:
  assumes "ds = map time_to_approval (filter (\<lambda>row. ar_decision row \<noteq> Requeued) rows)" "ds \<noteq> []"
    and "S = time_to_approval_stats rows"
  shows "st_count S = length ds" "st_max S = Some (Max (set ds))"
    "\<exists>m. st_median S = Some m \<and> m \<in> set ds \<and> 2 * length (filter (\<lambda>d. d < m) ds) \<le> length ds \<and>
       2 * length (filter (\<lambda>d. m < d) ds) \<le> length ds"
proof -
  have S: "S = \<lparr>st_count = length ds, st_median = Some (sort ds ! (length ds div 2)), st_max = Some (last (sort ds))\<rparr>"
    using assms by (simp add: time_to_approval_stats_def Let_def)
  show "st_count S = length ds" by (simp add: S)
  have "last (sort ds) = Max (set ds)"
  proof (intro Max_eqI [symmetric])
    have ne: "sort ds \<noteq> []" by (metis assms(2) set_empty set_sort)
    from last_in_set [OF ne] show "last (sort ds) \<in> set ds" by simp
    fix y assume "y \<in> set ds"
    then obtain i where "i < length (sort ds)" "y = sort ds ! i" by (metis in_set_conv_nth set_sort)
    then show "y \<le> last (sort ds)"
      using ne by (simp add: last_conv_nth sorted_nth_mono)
  qed simp
  then show "st_max S = Some (Max (set ds))" by (simp add: S)
  let ?k = "length ds div 2" and ?m = "sort ds ! (length ds div 2)"
  have k: "?k < length (sort ds)" using assms(2) by (cases ds) auto
  have "mset (filter P (sort ds)) = mset (filter P ds)" for P by (simp add: mset_filter)
  then have len: "length (filter P ds) = length (filter P (sort ds))" for P
    by (metis size_mset)
  have "?m \<in> set ds" using k nth_mem [OF k] by simp
  moreover have "2 * length (filter (\<lambda>d. d < ?m) ds) \<le> length ds"
    "2 * length (filter (\<lambda>d. ?m < d) ds) \<le> length ds"
    using sorted_nth_rank [OF sorted_sort k] by (auto simp: len)
  ultimately show "\<exists>m. st_median S = Some m \<and> m \<in> set ds \<and> 2 * length (filter (\<lambda>d. d < m) ds) \<le> length ds \<and>
       2 * length (filter (\<lambda>d. m < d) ds) \<le> length ds"
    by (simp add: S)
qed

lemma count_day_sorted:
  "sorted_wrt (<) (map fst m) \<Longrightarrow>
     sorted_wrt (<) (map fst (count_day d m)) \<and> fst ` set (count_day d m) = insert d (fst ` set m) \<and>
     map_of (count_day d m) = (map_of m)(d \<mapsto> Suc (case map_of m d of None \<Rightarrow> 0 | Some n \<Rightarrow> n))"
proof (induction d m rule: count_day.induct)
  case (2 d e n m)
  have "map_of m d = None" if "d < e" using that "2.prems" by (force simp: map_of_eq_None_iff)
  with 2 show ?case by (auto simp: fun_eq_iff)
qed auto

text \<open>The decisions per day count the rows of every day that has one.\<close>

lemma decisions_per_day_exact:
  "map_of (decisions_per_day rows) d =
     (case length (filter (\<lambda>row. utc_day (ar_decided_at row) = d) rows) of 0 \<Rightarrow> None | Suc n \<Rightarrow> Some (Suc n)) \<and>
   sorted_wrt (<) (map fst (decisions_per_day rows))"
proof (induction rows arbitrary: d rule: rev_induct)
  case (snoc row rows)
  from snoc [of d] snoc [of "utc_day (ar_decided_at row)"] show ?case
    using count_day_sorted [of "decisions_per_day rows" "utc_day (ar_decided_at row)"]
    by (auto simp: decisions_per_day_def split: nat.splits option.splits)
qed (simp add: decisions_per_day_def)

end
