(* ===== verification/OperatorQueue.thy ===== *)
theory OperatorQueue
  imports Policy "HOL-Library.Multiset" "HOL-Library.Product_Lexorder" "HOL-Library.Monad_Syntax"
begin

text \<open>
  The operator queue (\<open>operator/queue\<close>): items and their order (\<open>item.rs\<close>), the depth-limited queue
  (\<open>mod.rs\<close>), its policy knobs (\<open>policy.rs\<close>), the digests (\<open>digest.rs\<close>) and the reader of the
  blocked-edge sink (\<open>source.rs\<close>). The payload of an item is never inspected and is a type parameter.
  Time is in nanoseconds; the answer timeout and the suppression window, in seconds, are taken to be
  in the range of a duration. The lines read from the sink file and the JSON parser of one line are
  parameters.
\<close>

subsection \<open>Items and their order\<close>

datatype item_source = BlockedEdge | GateApproval

record 'p operator_queue_item =
  item_id :: string
  payload :: 'p
  effective_priority :: int
  enqueued_at :: timestamp
  item_source_of :: item_source

definition queue_item_new :: "string \<Rightarrow> 'p \<Rightarrow> int \<Rightarrow> timestamp \<Rightarrow> item_source \<Rightarrow> 'p operator_queue_item" where
  "queue_item_new i p n t src = \<lparr>item_id = i, payload = p, effective_priority = n, enqueued_at = t,
     item_source_of = src\<rparr>"

datatype ordering = Less | Equal | Greater

definition cmp :: "'a :: linorder \<Rightarrow> 'a \<Rightarrow> ordering" where
  "cmp a b = (if a < b then Less else if a = b then Equal else Greater)"

fun then_with :: "ordering \<Rightarrow> ordering \<Rightarrow> ordering" where
  "then_with Equal o2 = o2"
| "then_with o1 o2 = o1"

definition compare_items :: "'p operator_queue_item \<Rightarrow> 'p operator_queue_item \<Rightarrow> ordering" where
  "compare_items a b =
     then_with (then_with (cmp (effective_priority b) (effective_priority a))
       (cmp (enqueued_at a) (enqueued_at b))) (cmp (item_id a) (item_id b))"

text \<open>Sorting and minima under \<open>compare_items\<close>, both stable as in the standard library.\<close>

fun insert_by :: "('a \<Rightarrow> 'a \<Rightarrow> ordering) \<Rightarrow> 'a \<Rightarrow> 'a list \<Rightarrow> 'a list" where
  "insert_by c x [] = [x]"
| "insert_by c x (y # ys) = (if c y x = Less then y # insert_by c x ys else x # y # ys)"

definition sort_by :: "('a \<Rightarrow> 'a \<Rightarrow> ordering) \<Rightarrow> 'a list \<Rightarrow> 'a list" where
  "sort_by c xs = foldr (insert_by c) xs []"

fun min_by :: "('a \<Rightarrow> 'a \<Rightarrow> ordering) \<Rightarrow> 'a list \<Rightarrow> 'a option" where
  "min_by c [] = None"
| "min_by c (x # xs) = Some (foldl (\<lambda>m y. if c m y = Greater then y else m) x xs)"

subsection \<open>Policy\<close>

record operator_queue_policy =
  operator_queue_depth :: u32
  answer_timeout_secs :: int
  suppression_window_secs :: int
  digest_schedule_secs :: int

definition queue_policy_default :: operator_queue_policy where
  "queue_policy_default = \<lparr>operator_queue_depth = 1, answer_timeout_secs = 900,
     suppression_window_secs = 60, digest_schedule_secs = 3600\<rparr>"

record partial_operator_queue_policy =
  p_operator_queue_depth :: "u32 option"
  p_answer_timeout_secs :: "int option"
  p_suppression_window_secs :: "int option"
  p_digest_schedule_secs :: "int option"

definition queue_policy_apply ::
  "operator_queue_policy \<Rightarrow> partial_operator_queue_policy \<Rightarrow> operator_queue_policy" where
  "queue_policy_apply p over =
     \<lparr>operator_queue_depth = merge_opt (operator_queue_depth p) (p_operator_queue_depth over),
      answer_timeout_secs = merge_opt (answer_timeout_secs p) (p_answer_timeout_secs over),
      suppression_window_secs = merge_opt (suppression_window_secs p) (p_suppression_window_secs over),
      digest_schedule_secs = merge_opt (digest_schedule_secs p) (p_digest_schedule_secs over)\<rparr>"

lemmas queue_apply_simps = queue_policy_apply_def merge_opt_def

interpretation queue_depth: policy_knob queue_policy_apply operator_queue_depth p_operator_queue_depth
  by unfold_locales (simp add: queue_apply_simps)

interpretation queue_timeout: policy_knob queue_policy_apply answer_timeout_secs p_answer_timeout_secs
  by unfold_locales (simp add: queue_apply_simps)

definition queue_baseline :: partial_operator_queue_policy where
  "queue_baseline = \<lparr>p_operator_queue_depth = Some 1, p_answer_timeout_secs = Some 900,
     p_suppression_window_secs = Some 60, p_digest_schedule_secs = Some 3600\<rparr>"

definition queue_cheap_fast :: partial_operator_queue_policy where
  "queue_cheap_fast = \<lparr>p_operator_queue_depth = Some 1, p_answer_timeout_secs = Some 300,
     p_suppression_window_secs = Some 120, p_digest_schedule_secs = Some 7200\<rparr>"

definition queue_thorough :: partial_operator_queue_policy where
  "queue_thorough = \<lparr>p_operator_queue_depth = Some 1, p_answer_timeout_secs = Some 1800,
     p_suppression_window_secs = Some 30, p_digest_schedule_secs = Some 1800\<rparr>"

definition queue_profile_by_name :: "string \<Rightarrow> partial_operator_queue_policy option" where
  "queue_profile_by_name n =
     (if n = ''baseline'' then Some queue_baseline
      else if n = ''cheap-fast'' then Some queue_cheap_fast
      else if n = ''thorough'' then Some queue_thorough else None)"

definition queue_policy_for_run ::
  "policy_ext \<Rightarrow> (json \<Rightarrow> partial_operator_queue_policy option) \<Rightarrow> policy_config_source \<Rightarrow>
   string option \<Rightarrow> partial_operator_queue_policy option \<Rightarrow> policy_error + operator_queue_policy" where
  "queue_policy_for_run =
     resolve_policy_for_run queue_policy_apply queue_policy_default ''operator_queue'' queue_profile_by_name"

subsection \<open>The queue\<close>

record 'p open_item =
  oi_item :: "'p operator_queue_item"
  oi_opened_at :: timestamp

record 'p operator_queue =
  pending :: "'p operator_queue_item list"
  open_items :: "'p open_item list"
  queue_policy :: operator_queue_policy
  level_predicate :: "'p operator_queue_item \<Rightarrow> bool"

definition queue_new :: "operator_queue_policy \<Rightarrow> 'p operator_queue" where
  "queue_new p = \<lparr>pending = [], open_items = [], queue_policy = p, level_predicate = (\<lambda>_. True)\<rparr>"

definition with_level_predicate ::
  "('p operator_queue_item \<Rightarrow> bool) \<Rightarrow> 'p operator_queue \<Rightarrow> 'p operator_queue" where
  "with_level_predicate f q = q\<lparr>level_predicate := f\<rparr>"

definition open_count :: "'p operator_queue \<Rightarrow> nat" where
  "open_count q = length (open_items q)"

definition pending_count :: "'p operator_queue \<Rightarrow> nat" where
  "pending_count q = length (pending q)"

definition enqueue :: "'p operator_queue_item \<Rightarrow> 'p operator_queue \<Rightarrow> 'p operator_queue" where
  "enqueue x q = q\<lparr>pending := pending q @ [x]\<rparr>"

definition secs :: "int \<Rightarrow> int" where
  "secs n = max 0 n * 1000000000"

definition timed_out :: "'p operator_queue \<Rightarrow> timestamp \<Rightarrow> 'p open_item \<Rightarrow> bool" where
  "timed_out q now oi \<longleftrightarrow> now - oi_opened_at oi \<ge> secs (answer_timeout_secs (queue_policy q))"

definition release_timed_out :: "timestamp \<Rightarrow> 'p operator_queue \<Rightarrow> 'p operator_queue" where
  "release_timed_out now q = q
     \<lparr>pending := pending q @ map oi_item (filter (timed_out q now) (open_items q)),
      open_items := filter (\<lambda>oi. \<not> timed_out q now oi) (open_items q)\<rparr>"

definition drop_stale :: "'p operator_queue \<Rightarrow> 'p operator_queue" where
  "drop_stale q = q\<lparr>pending := filter (level_predicate q) (pending q)\<rparr>"

definition next_deliverable ::
  "timestamp \<Rightarrow> 'p operator_queue \<Rightarrow> 'p operator_queue_item option \<times> 'p operator_queue" where
  "next_deliverable now q =
     (let q1 = drop_stale (release_timed_out now q);
          depth = unat (operator_queue_depth (queue_policy q1))
      in if length (open_items q1) \<ge> depth \<or> pending q1 = [] then (None, q1)
         else (case sort_by compare_items (pending q1) of
           [] \<Rightarrow> (None, q1)
         | x # rest \<Rightarrow> (Some x, q1\<lparr>pending := rest,
             open_items := open_items q1 @ [\<lparr>oi_item = x, oi_opened_at = now\<rparr>]\<rparr>)))"

definition answer :: "string \<Rightarrow> 'p operator_queue \<Rightarrow> bool \<times> 'p operator_queue" where
  "answer i q =
     (let still = filter (\<lambda>oi. item_id (oi_item oi) \<noteq> i) (open_items q)
      in (length still \<noteq> length (open_items q), q\<lparr>open_items := still\<rparr>))"

definition open_item_by_id :: "'p operator_queue \<Rightarrow> string \<Rightarrow> ('p operator_queue_item \<times> timestamp) option" where
  "open_item_by_id q i = map_option (\<lambda>oi. (oi_item oi, oi_opened_at oi))
     (List.find (\<lambda>oi. item_id (oi_item oi) = i) (open_items q))"

subsection \<open>Digests\<close>

record 'p queue_digest =
  qd_top :: "'p operator_queue_item"
  qd_total_count :: nat
  qd_generated_at :: timestamp

definition build_digest :: "'p operator_queue_item list \<Rightarrow> timestamp \<Rightarrow> 'p queue_digest option" where
  "build_digest items now = map_option
     (\<lambda>x. \<lparr>qd_top = x, qd_total_count = length items, qd_generated_at = now\<rparr>) (min_by compare_items items)"

definition storm_digest :: "'p operator_queue_item list \<Rightarrow> int \<Rightarrow> timestamp \<Rightarrow> 'p queue_digest option" where
  "storm_digest items window now =
     build_digest (filter (\<lambda>x. let age = now - enqueued_at x in age \<ge> 0 \<and> age \<le> secs window) items) now"

subsection \<open>The blocked-edge source\<close>

datatype blocked_edge_state = Idle | Working | Blocked | Unknown

record blocked_edge_record =
  be_session :: string
  be_host :: string
  be_from :: "blocked_edge_state option"
  be_to :: blocked_edge_state
  be_observed_at :: timestamp

record pending_blocked_edge =
  pe_session :: string
  pe_host :: string
  pe_to :: blocked_edge_state
  pe_observed_at :: timestamp

definition pending_of_record :: "blocked_edge_record \<Rightarrow> pending_blocked_edge" where
  "pending_of_record r = \<lparr>pe_session = be_session r, pe_host = be_host r, pe_to = be_to r,
     pe_observed_at = be_observed_at r\<rparr>"

definition default_sink_path :: "string option \<Rightarrow> string option \<Rightarrow> string option" where
  "default_sink_path xdg_state_home home =
     (case xdg_state_home of
        Some xdg \<Rightarrow> Some (path_join (path_join xdg ''bastion'') ''blocked-edges.jsonl'')
      | None \<Rightarrow> map_option (\<lambda>h. path_join (path_join (path_join (path_join h ''.local'') ''state'') ''bastion'')
          ''blocked-edges.jsonl'') home)"

text \<open>\<open>None\<close> as the file is a file that cannot be opened; a \<open>None\<close> line is one that cannot be read.\<close>

definition source_pending ::
  "(string \<Rightarrow> blocked_edge_record option) \<Rightarrow> string option list option \<Rightarrow>
   pending_blocked_edge list" where
  "source_pending parse file =
     (case file of
        None \<Rightarrow> []
      | Some ls \<Rightarrow> List.map_filter (\<lambda>l. do {
          line \<leftarrow> l;
          (if trim line = [] then None else map_option pending_of_record (parse (trim line)))
        }) ls)"

subsection \<open>The order is total\<close>

abbreviation item_key :: "'p operator_queue_item \<Rightarrow> int \<times> timestamp \<times> string" where
  "item_key x \<equiv> (- effective_priority x, enqueued_at x, item_id x)"

lemma compare_items_key: "compare_items a b = cmp (item_key a) (item_key b)"
  by (auto simp: compare_items_def cmp_def)

lemma cmp_simps:
  "cmp a b = Less \<longleftrightarrow> a < b" "cmp a b = Greater \<longleftrightarrow> b < a" "cmp a b = Equal \<longleftrightarrow> a = b"
  by (auto simp: cmp_def)

lemma mset_sort_by [simp]: "mset (sort_by c xs) = mset xs"
proof -
  have "mset (insert_by c x ys) = add_mset x (mset ys)" for x ys
    by (induction ys) auto
  then show ?thesis by (induction xs) (simp_all add: sort_by_def)
qed

lemma set_insert_by [simp]: "set (insert_by c x ys) = insert x (set ys)"
  by (induction ys) auto

lemma set_sort_by [simp]: "set (sort_by c xs) = set xs"
  by (metis mset_sort_by set_mset_mset)

text \<open>For any comparison that reads a key of a total order, the sort sorts by the key.\<close>

lemma sorted_insert_by:
  fixes k :: "'a \<Rightarrow> 'k :: linorder"
  assumes "\<And>a b. c a b = cmp (k a) (k b)" and "sorted (map k ys)"
  shows "sorted (map k (insert_by c x ys))"
  using assms(2)
proof (induction ys)
  case (Cons y ys)
  then show ?case
  proof (cases "k y < k x")
    case True
    then show ?thesis using Cons by (auto simp: assms(1) cmp_simps less_imp_le)
  next
    case False
    then have "k x \<le> k y" by simp
    then show ?thesis using Cons.prems False by (auto simp: assms(1) cmp_simps intro: order_trans)
  qed
qed simp

lemma sorted_sort_by:
  fixes k :: "'a \<Rightarrow> 'k :: linorder"
  assumes "\<And>a b. c a b = cmp (k a) (k b)"
  shows "sorted (map k (sort_by c xs))"
  by (induction xs) (simp_all add: sort_by_def sorted_insert_by [OF assms])

lemma sort_by_head:
  assumes "sort_by compare_items xs = x # rest"
  shows "x \<in> set xs" and "mset xs = add_mset x (mset rest)"
    and "\<forall>y \<in> set xs. compare_items y x \<noteq> Less"
proof -
  have m: "mset xs = add_mset x (mset rest)" using assms mset_sort_by [of compare_items xs] by simp
  then show "mset xs = add_mset x (mset rest)" .
  then have st: "set xs = insert x (set rest)" by (metis list.simps(15) mset.simps(2) mset_eq_setD)
  then show "x \<in> set xs" by simp
  have "sorted (map item_key (x # rest))"
    using sorted_sort_by [of compare_items item_key xs, OF compare_items_key] unfolding assms .
  then have "\<forall>y \<in> set rest. item_key x \<le> item_key y" unfolding list.map sorted_simps by simp
  then show "\<forall>y \<in> set xs. compare_items y x \<noteq> Less"
    unfolding st compare_items_key cmp_simps by (auto simp del: less_prod_simp less_eq_prod_simp simp: not_less)
qed

lemma min_by_least:
  fixes k :: "'a \<Rightarrow> 'k :: linorder"
  assumes c: "\<And>a b. c a b = cmp (k a) (k b)" and "min_by c xs = Some x"
  shows "x \<in> set xs \<and> (\<forall>y \<in> set xs. k x \<le> k y)"
proof -
  let ?f = "\<lambda>m y. if c m y = Greater then y else m"
  have *: "foldl ?f m ys \<in> insert m (set ys) \<and> (\<forall>y \<in> insert m (set ys). k (foldl ?f m ys) \<le> k y)" for m ys
  proof (induction ys arbitrary: m)
    case (Cons y ys)
    have "k (?f m y) \<le> k m" "k (?f m y) \<le> k y" by (auto simp: c cmp_simps)
    then show ?case using Cons [of "?f m y"] by (auto intro: order_trans)
  qed simp
  show ?thesis using assms(2) *
    by (cases xs) (auto simp del: insert_iff)
qed

subsection \<open>One delivery\<close>

lemma next_deliverable_cases:
  fixes q :: "'p operator_queue" and now :: timestamp
  defines "q1 \<equiv> drop_stale (release_timed_out now q)"
  obtains "length (open_items q1) \<ge> unat (operator_queue_depth (queue_policy q)) \<or> pending q1 = []"
      "next_deliverable now q = (None, q1)"
  | x rest where "length (open_items q1) < unat (operator_queue_depth (queue_policy q))"
      "sort_by compare_items (pending q1) = x # rest"
      "next_deliverable now q = (Some x, q1\<lparr>pending := rest,
         open_items := open_items q1 @ [\<lparr>oi_item = x, oi_opened_at = now\<rparr>]\<rparr>)"
proof -
  have pol: "queue_policy q1 = queue_policy q"
    by (simp add: q1_def drop_stale_def release_timed_out_def)
  note nd = next_deliverable_def [of now q, folded q1_def, unfolded Let_def pol]
  show ?thesis
  proof (cases "length (open_items q1) \<ge> unat (operator_queue_depth (queue_policy q)) \<or> pending q1 = []")
    case True
    then show ?thesis using that(1) nd by simp
  next
    case False
    then have "sort_by compare_items (pending q1) \<noteq> []"
      by (metis set_empty set_sort_by)
    then obtain x rest where "sort_by compare_items (pending q1) = x # rest"
      by (cases "sort_by compare_items (pending q1)") auto
    then show ?thesis using that(2) nd False by simp
  qed
qed

text \<open>
  C20. One call of \<open>next_deliverable\<close>: the open items whose timeout has elapsed go back to the
  pending ones, the pending items whose level predicate fails are dropped, and then nothing is
  delivered exactly when no slot is free or nothing is left; otherwise the delivered item is one
  that no remaining item precedes in the order of \<open>compare_items\<close>, it is opened at \<open>now\<close>, and every
  other item is kept, the pending ones as a multiset.
\<close>

theorem next_deliverable_exact:
  fixes q :: "'p operator_queue"
  shows "let q1 = release_timed_out now q;
             live = filter (level_predicate q) (pending q1);
             room = (length (open_items q1) < unat (operator_queue_depth (queue_policy q)))
         in case next_deliverable now q of
              (None, q') \<Rightarrow> (\<not> room \<or> live = []) \<and> q' = q1\<lparr>pending := live\<rparr>
            | (Some x, q') \<Rightarrow> room \<and> x \<in> set live \<and> (\<forall>y \<in> set live. compare_items y x \<noteq> Less) \<and>
                mset live = add_mset x (mset (pending q')) \<and>
                open_items q' = open_items q1 @ [\<lparr>oi_item = x, oi_opened_at = now\<rparr>]"
proof -
  have lp: "level_predicate (release_timed_out now q) = level_predicate q"
    by (simp add: release_timed_out_def)
  show ?thesis
  proof (cases rule: next_deliverable_cases [of q now])
    case 1
    then show ?thesis by (auto simp: drop_stale_def lp)
  next
    case (2 x rest)
    then show ?thesis using sort_by_head [OF 2(2)] by (simp add: drop_stale_def lp)
  qed
qed

abbreviation sample_item :: "string \<Rightarrow> int \<Rightarrow> timestamp \<Rightarrow> unit operator_queue_item" where
  "sample_item i n t \<equiv> queue_item_new i () n t GateApproval"

definition sample_queue :: "unit operator_queue" where
  "sample_queue = enqueue (sample_item ''c'' 9 20) (enqueue (sample_item ''b'' 9 10)
     (enqueue (sample_item ''a'' 1 0) (queue_new queue_policy_default)))"

theorem next_deliverable_exact_witness:
  "fst (next_deliverable 30 sample_queue) = Some (sample_item ''b'' 9 10) \<and>
   compare_items (sample_item ''c'' 9 20) (sample_item ''b'' 9 10) \<noteq> Less"
proof -
  have "fst (next_deliverable 30 sample_queue) = Some (sample_item ''b'' 9 10)" by code_simp
  moreover have "pending (release_timed_out 30 sample_queue) = pending sample_queue" by code_simp
  moreover have "level_predicate sample_queue = (\<lambda>_. True)"
    by (simp add: sample_queue_def enqueue_def queue_new_def)
  moreover have "sample_item ''c'' 9 20 \<in> set (pending sample_queue)" by code_simp
  ultimately show ?thesis
    using next_deliverable_exact [of 30 sample_queue]
    by (cases "next_deliverable 30 sample_queue") (simp add: Let_def)
qed

lemma next_deliverable_fst:
  fixes q :: "'p operator_queue" and now :: timestamp
  defines "q1 \<equiv> drop_stale (release_timed_out now q)"
  shows "fst (next_deliverable now q) =
    (if length (open_items q1) \<ge> unat (operator_queue_depth (queue_policy q)) \<or> pending q1 = []
     then None else Some (hd (sort_by compare_items (pending q1))))"
  unfolding q1_def by (cases rule: next_deliverable_cases [of q now]) (auto dest: sort_by_head(1))

lemma sort_by_head_unique:
  assumes "mset ys = mset xs" and "inj_on item_id (set xs)"
    and "xs \<noteq> []"
  shows "hd (sort_by compare_items ys) = hd (sort_by compare_items xs)"
proof -
  have st: "set ys = set xs" using assms(1) by (rule mset_eq_setD)
  obtain x xs' where x: "sort_by compare_items xs = x # xs'"
    using assms(3) by (metis list.exhaust set_empty set_sort_by)
  obtain y ys' where y: "sort_by compare_items ys = y # ys'"
    using assms(3) st by (metis list.exhaust set_empty set_sort_by)
  note hx = sort_by_head [OF x] and hy = sort_by_head [OF y, unfolded st]
  have "\<not> item_key y < item_key x" "\<not> item_key x < item_key y"
    using hx(1,3) hy(1,3) unfolding compare_items_key cmp_simps by blast+
  then have "item_key x = item_key y" unfolding not_less by (rule order_antisym)
  then show ?thesis using assms(2) hx(1) hy(1) unfolding x y by (simp add: inj_on_def)
qed

text \<open>
  Delivery does not depend on the order of arrival: two queues that differ only in the order of
  their pending items deliver the same item when no two items they choose among share an id.
\<close>

theorem delivery_order_free:
  assumes "mset ps = mset (pending q)"
    and "distinct (map item_id (pending (release_timed_out now q)))"
  shows "fst (next_deliverable now (q\<lparr>pending := ps\<rparr>)) = fst (next_deliverable now q)"
proof -
  let ?r = "\<lambda>q. drop_stale (release_timed_out now q)" and ?q' = "q\<lparr>pending := ps\<rparr>"
  have o: "open_items (?r ?q') = open_items (?r q)"
    by (simp add: drop_stale_def release_timed_out_def timed_out_def)
  have m: "mset (pending (?r ?q')) = mset (pending (?r q))"
    by (simp add: drop_stale_def release_timed_out_def timed_out_def assms(1))
  have inj: "inj_on item_id (set (pending (?r q)))"
    using assms(2) by (auto simp: drop_stale_def distinct_map inj_on_def)
  have "pending (?r ?q') = [] \<longleftrightarrow> pending (?r q) = []" using m by (metis mset_zero_iff)
  then show ?thesis
    using sort_by_head_unique [OF m inj] unfolding next_deliverable_fst o by simp
qed

theorem delivery_order_free_witness:
  "fst (next_deliverable 30 (sample_queue\<lparr>pending := rev (pending sample_queue)\<rparr>)) =
   fst (next_deliverable 30 sample_queue)"
proof (rule delivery_order_free)
  show "distinct (map item_id (pending (release_timed_out 30 sample_queue)))" by code_simp
qed simp_all

subsection \<open>Every sequence of calls\<close>

text \<open>
  The calls that change a queue. \<open>queue_step arrived lost q q'\<close> also says what enters the queue and
  what leaves it for good.
\<close>

inductive queue_step ::
  "'p operator_queue_item multiset \<Rightarrow> 'p operator_queue_item multiset \<Rightarrow>
   'p operator_queue \<Rightarrow> 'p operator_queue \<Rightarrow> bool" where
  step_enqueue: "queue_step {#x#} {#} q (enqueue x q)"
| step_deliver: "queue_step {#}
    (filter_mset (\<lambda>x. \<not> level_predicate q x) (mset (pending (release_timed_out now q))))
    q (snd (next_deliverable now q))"
| step_answer: "queue_step {#}
    (mset (map oi_item (filter (\<lambda>oi. item_id (oi_item oi) = i) (open_items q)))) q (snd (answer i q))"

inductive queue_reach ::
  "operator_queue_policy \<Rightarrow> ('p operator_queue_item \<Rightarrow> bool) \<Rightarrow> 'p operator_queue_item multiset \<Rightarrow>
   'p operator_queue_item multiset \<Rightarrow> 'p operator_queue \<Rightarrow> bool"
  for p f where
  reach_new: "queue_reach p f {#} {#} (with_level_predicate f (queue_new p))"
| reach_step: "queue_reach p f arrived lost q \<Longrightarrow> queue_step a l q q' \<Longrightarrow>
    queue_reach p f (arrived + a) (lost + l) q'"

abbreviation queue_items :: "'p operator_queue \<Rightarrow> 'p operator_queue_item multiset" where
  "queue_items q \<equiv> mset (pending q) + mset (map oi_item (open_items q))"

definition queue_ok ::
  "operator_queue_policy \<Rightarrow> ('p operator_queue_item \<Rightarrow> bool) \<Rightarrow> 'p operator_queue \<Rightarrow> bool" where
  "queue_ok p f q \<longleftrightarrow> queue_policy q = p \<and> level_predicate q = f \<and>
     open_count q \<le> unat (operator_queue_depth p)"

lemma release_timed_out_items: "queue_items (release_timed_out now q) = queue_items q"
proof -
  have "mset (map oi_item (filter P xs)) + mset (map oi_item (filter (\<lambda>x. \<not> P x) xs)) = mset (map oi_item xs)"
    for P and xs :: "'a open_item list" by (induction xs) auto
  then show ?thesis by (simp add: release_timed_out_def add.assoc del: mset_map)
qed

lemma queue_step_ok:
  assumes "queue_step a l q q'" and "queue_ok p f q"
  shows "queue_ok p f q'" and "queue_items q' + l = queue_items q + a"
proof -
  have "queue_ok p f q' \<and> queue_items q' + l = queue_items q + a" using assms
  proof (cases rule: queue_step.cases)
    case (step_enqueue x)
    then show ?thesis using assms(2) by (simp add: enqueue_def queue_ok_def open_count_def)
  next
    case (step_deliver now)
    let ?q1 = "release_timed_out now q"
    have q1: "queue_policy ?q1 = p" "level_predicate ?q1 = f" "level_predicate q = f"
      "length (open_items ?q1) \<le> unat (operator_queue_depth p)"
      using assms(2) le_trans [OF length_filter_le]
      by (auto simp: release_timed_out_def queue_ok_def open_count_def)
    have "queue_ok p f q' \<and> queue_items q' + l = queue_items ?q1"
    proof (cases rule: next_deliverable_cases [of q now])
      case 1
      then show ?thesis using q1 step_deliver multiset_partition [of "mset (pending ?q1)" f]
        by (simp add: queue_ok_def drop_stale_def open_count_def add_ac)
    next
      case (2 x rest)
      have "mset (filter f (pending ?q1)) = add_mset x (mset rest)"
        using sort_by_head(2) [OF 2(2)] by (simp add: drop_stale_def q1)
      then show ?thesis using q1 2 step_deliver multiset_partition [of "mset (pending ?q1)" f] assms(2)
        by (simp add: queue_ok_def drop_stale_def open_count_def add_ac)
    qed
    then show ?thesis unfolding release_timed_out_items using step_deliver by simp
  next
    case (step_answer i)
    have "mset (map oi_item (filter (\<lambda>oi. item_id (oi_item oi) \<noteq> i) xs)) +
        mset (map oi_item (filter (\<lambda>oi. item_id (oi_item oi) = i) xs)) = mset (map oi_item xs)"
      for xs :: "'a open_item list" by (induction xs) auto
    then show ?thesis using assms(2) step_answer le_trans [OF length_filter_le]
      by (auto simp: answer_def Let_def queue_ok_def open_count_def add.assoc simp del: mset_map)
  qed
  then show "queue_ok p f q'" and "queue_items q' + l = queue_items q + a" by auto
qed

text \<open>
  C21. Whatever the sequence of \<open>enqueue\<close>, \<open>next_deliverable\<close> and \<open>answer\<close> calls, at any times, at most
  \<open>operator_queue_depth\<close> items are open, and every item that ever arrived is pending, open, or was
  answered or dropped because its level predicate failed: a timeout never loses one.
\<close>

theorem queue_depth_and_conservation:
  assumes "queue_reach p f arrived lost q"
  shows "open_count q \<le> unat (operator_queue_depth p) \<and>
    arrived = lost + mset (pending q) + mset (map oi_item (open_items q))"
proof -
  have "queue_ok p f q \<and> queue_items q + lost = arrived" using assms
  proof induction
    case reach_new
    then show ?case by (simp add: with_level_predicate_def queue_new_def queue_ok_def open_count_def)
  next
    case (reach_step arrived lost q a l q')
    have "x + (lost + l) = arrived + a" if "x + l = y + a" "y + lost = arrived"
      for x y :: "'a operator_queue_item multiset" using that by (metis add.assoc add.commute)
    with reach_step queue_step_ok [OF reach_step.hyps(2)] show ?case by blast
  qed
  then show ?thesis
    by (auto simp: queue_ok_def add_ac)
qed

definition busy_queue :: "unit operator_queue" where
  "busy_queue = snd (next_deliverable 5 (enqueue (sample_item ''a'' 1 0)
     (with_level_predicate (\<lambda>_. True) (queue_new queue_policy_default))))"

theorem queue_depth_and_conservation_witness:
  "open_count busy_queue \<le> 1 \<and> {#sample_item ''a'' 1 0#} =
   mset (pending busy_queue) + mset (map oi_item (open_items busy_queue))"
proof -
  let ?q = "with_level_predicate (\<lambda>_. True) (queue_new queue_policy_default) :: unit operator_queue"
  let ?q1 = "enqueue (sample_item ''a'' 1 0) ?q"
  have lp: "level_predicate ?q1 = (\<lambda>_. True)" by (simp add: enqueue_def with_level_predicate_def)
  have "queue_reach queue_policy_default (\<lambda>_. True) {#sample_item ''a'' 1 0#} {#} busy_queue"
    using reach_step [OF reach_step [OF reach_new step_enqueue] step_deliver,
        of queue_policy_default "\<lambda>_. True" "sample_item ''a'' 1 0" 5]
    by (simp add: busy_queue_def lp)
  from queue_depth_and_conservation [OF this] show ?thesis
    by (simp add: queue_policy_default_def)
qed

subsection \<open>The item that is delivered for ever\<close>

text \<open>The items delivered by polling the queue at the given times, with no call in between.\<close>

fun poll_deliveries :: "timestamp list \<Rightarrow> 'p operator_queue \<Rightarrow> 'p operator_queue_item option list" where
  "poll_deliveries [] q = []"
| "poll_deliveries (t # ts) q = (let (r, q') = next_deliverable t q in r # poll_deliveries ts q')"

lemma redelivers_top:
  assumes "operator_queue_depth (queue_policy q) = 1"
    and "open_items q = [\<lparr>oi_item = x, oi_opened_at = t0\<rparr>]" and "level_predicate q x"
    and "\<forall>y \<in> set (pending q). compare_items x y = Less"
    and "now - t0 \<ge> secs (answer_timeout_secs (queue_policy q))"
  obtains q' where "next_deliverable now q = (Some x, q')"
    "queue_policy q' = queue_policy q" "level_predicate q' = level_predicate q"
    "open_items q' = [\<lparr>oi_item = x, oi_opened_at = now\<rparr>]" "set (pending q') \<subseteq> set (pending q)"
proof -
  let ?q1 = "drop_stale (release_timed_out now q)"
  have o: "open_items ?q1 = []" and p: "pending ?q1 = filter (level_predicate q) (pending q) @ [x]"
    and rest: "queue_policy ?q1 = queue_policy q" "level_predicate ?q1 = level_predicate q"
    using assms by (simp_all add: drop_stale_def release_timed_out_def timed_out_def)
  show ?thesis
  proof (cases rule: next_deliverable_cases [of q now])
    case 1
    then show ?thesis using o p assms(1) by simp
  next
    case (2 z zs)
    have nl: "\<not> item_key x < item_key x" by (rule less_irrefl)
    have "z = x"
    proof (rule ccontr)
      assume "z \<noteq> x"
      then have "z \<in> set (pending q)" using sort_by_head(1) [OF 2(2)] by (auto simp: p)
      then show False using sort_by_head(3) [OF 2(2)] assms(4) by (auto simp: p)
    qed
    moreover have "mset (filter (level_predicate q) (pending q)) = mset zs"
      using sort_by_head(2) [OF 2(2)] calculation by (simp add: p)
    then have "set zs \<subseteq> set (pending q)" by (metis filter_is_subset mset_eq_setD)
    ultimately show ?thesis using that 2(3) o rest by simp
  qed
qed

text \<open>
  With one slot, an unanswered item that precedes every pending item is not replaced by the
  next one when its timeout elapses: it is requeued and delivered again, at every poll for as long
  as nobody answers it, and no other item is ever delivered.
\<close>

theorem unanswered_top_item_wedges:
  assumes "operator_queue_depth (queue_policy q) = 1"
    and "open_items q = [\<lparr>oi_item = x, oi_opened_at = t0\<rparr>]" and "level_predicate q x"
    and "\<forall>y \<in> set (pending q). compare_items x y = Less"
    and "successively (\<lambda>a b. b - a \<ge> secs (answer_timeout_secs (queue_policy q))) (t0 # ts)"
  shows "poll_deliveries ts q = replicate (length ts) (Some x)"
  using assms
proof (induction ts arbitrary: q t0)
  case (Cons t ts)
  have gap: "t - t0 \<ge> secs (answer_timeout_secs (queue_policy q))" using Cons.prems(5) by simp
  obtain q' where q': "next_deliverable t q = (Some x, q')"
    "queue_policy q' = queue_policy q" "level_predicate q' = level_predicate q"
    "open_items q' = [\<lparr>oi_item = x, oi_opened_at = t\<rparr>]" "set (pending q') \<subseteq> set (pending q)"
    by (rule redelivers_top [OF Cons.prems(1-4) gap])
  have "poll_deliveries ts q' = replicate (length ts) (Some x)"
    using Cons.prems q' by (intro Cons.IH [of q' t]) auto
  then show ?case using q'(1) by simp
qed simp

definition wedged_queue :: "unit operator_queue" where
  "wedged_queue = enqueue (sample_item ''low'' 1 0) (snd (next_deliverable 10
     (enqueue (sample_item ''top'' 9 5) (queue_new queue_policy_default))))"

theorem unanswered_top_item_wedges_witness:
  "poll_deliveries [900000000010, 1800000000010] wedged_queue
   = replicate 2 (Some (sample_item ''top'' 9 5))"
proof -
  have "open_items wedged_queue = [\<lparr>oi_item = sample_item ''top'' 9 5, oi_opened_at = 10\<rparr>]" by code_simp
  moreover have p: "queue_policy wedged_queue = queue_policy_default" by code_simp
  moreover have "level_predicate wedged_queue (sample_item ''top'' 9 5)" by code_simp
  moreover have "\<forall>y \<in> set (pending wedged_queue). compare_items (sample_item ''top'' 9 5) y = Less"
    by code_simp
  moreover have "successively (\<lambda>a b. b - a \<ge> secs (answer_timeout_secs (queue_policy wedged_queue)))
     (10 # [900000000010, 1800000000010])" by (simp add: p queue_policy_default_def secs_def)
  moreover have "operator_queue_depth (queue_policy wedged_queue) = 1"
    by (simp add: p queue_policy_default_def)
  ultimately have "poll_deliveries [900000000010, 1800000000010] wedged_queue
     = replicate (length [900000000010, 1800000000010 :: timestamp]) (Some (sample_item ''top'' 9 5))"
    by (intro unanswered_top_item_wedges)
  then show ?thesis by (simp only: list.size One_nat_def add_0 add_Suc_right numeral_2_eq_2 add_0_right)
qed

subsection \<open>Digests\<close>

text \<open>
  A storm digest stands for exactly the items that arrived at or before \<open>now\<close> and within the
  window, counts them, and carries one that no other of them precedes; a window that is not positive
  narrows to the items of this very instant.
\<close>

theorem storm_digest_exact:
  fixes items :: "'p operator_queue_item list"
  shows "let recent = filter (\<lambda>x. now - secs window \<le> enqueued_at x \<and> enqueued_at x \<le> now) items
         in case storm_digest items window now of
              None \<Rightarrow> recent = []
            | Some d \<Rightarrow> qd_top d \<in> set recent \<and> qd_total_count d = length recent \<and>
                (\<forall>x \<in> set recent. compare_items x (qd_top d) \<noteq> Less \<and>
                  (window \<le> 0 \<longrightarrow> enqueued_at x = now))"
proof -
  let ?recent = "filter (\<lambda>x. now - secs window \<le> enqueued_at x \<and> enqueued_at x \<le> now) items"
  have f: "storm_digest items window now = build_digest ?recent now"
    unfolding storm_digest_def Let_def by (rule arg_cong [where f = "\<lambda>xs. build_digest xs now"])
      (rule filter_cong, auto)
  have w: "window \<le> 0 \<Longrightarrow> x \<in> set ?recent \<Longrightarrow> enqueued_at x = now" for x by (simp add: secs_def)
  show ?thesis
  proof (cases "min_by compare_items ?recent")
    case None
    then have "?recent = []" by (cases ?recent) simp_all
    then show ?thesis unfolding f by (simp add: build_digest_def)
  next
    case (Some x)
    have "x \<in> set ?recent" "\<forall>y \<in> set ?recent. compare_items y x \<noteq> Less"
      using min_by_least [of compare_items item_key, OF compare_items_key Some]
      unfolding compare_items_key cmp_simps not_less by blast+
    then show ?thesis using w unfolding f build_digest_def Some Let_def by simp
  qed
qed

theorem storm_digest_exact_witness:
  "let items = [sample_item ''a'' 1 0, sample_item ''b'' 5 7, sample_item ''c'' 9 9];
       d = \<lparr>qd_top = sample_item ''b'' 5 7, qd_total_count = 1, qd_generated_at = 7\<rparr>
   in storm_digest items 0 7 = Some d \<and>
      qd_total_count d = length (filter (\<lambda>x. 7 - secs 0 \<le> enqueued_at x \<and> enqueued_at x \<le> 7) items)"
proof -
  let ?xs = "[sample_item ''a'' 1 0, sample_item ''b'' 5 7, sample_item ''c'' 9 9]"
  have d: "storm_digest ?xs 0 7
     = Some \<lparr>qd_top = sample_item ''b'' 5 7, qd_total_count = 1, qd_generated_at = 7\<rparr>" by code_simp
  show ?thesis
    using storm_digest_exact [of 7 0 ?xs] unfolding Let_def d option.case by (elim conjE) (intro conjI refl)
qed

end
