(* ===== verification/LiveState.thy ===== *)
theory LiveState
  imports OperatorQueue Payload Markers
begin

text \<open>
  The in-memory store of the serving layer (\<open>live_state.rs\<close>): the live map, the bounded ring of
  completed runs, the operator queue fed by runs that end badly, and the set of runs an alarm was
  raised for. Every lock of the store is one field, and an operation that takes several locks in
  turn is the composition of one definition per critical section, so that the interleavings of its
  sections with those of other operations can be stated.

  The formats of identifiers, the hash and the policy file readers are collected in a \<open>serve_env\<close>; the
  clock is an argument of the operations that read it.
\<close>

record serve_env =
  se_formats :: ext
  se_hash :: "string \<Rightarrow> string"
  se_policy :: policy_ext
  se_dec :: "json \<Rightarrow> partial_failure_notify_policy option"

subsection \<open>The completed ring\<close>

record run_record =
  rr_snapshot :: task_context
  rr_workflow_type :: string
  rr_created_at :: timestamp
  rr_updated_at :: timestamp
  rr_terminal :: bool
  rr_campaign_id :: "uuid option"

definition completed_run_retention :: nat where
  "completed_run_retention = 100"

text \<open>The cache of terminal frames (\<open>stream.rs\<close>) is the same structure over frames, so the values are a parameter.\<close>

record 'v completed_ring =
  entries :: "(uuid \<times> 'v) list"
  ring_order :: "uuid list"

fun ring_evict :: "(uuid \<times> 'v) list \<Rightarrow> uuid list \<Rightarrow> (uuid \<times> 'v) list \<times> uuid list" where
  "ring_evict es [] = (es, [])"
| "ring_evict es (oldest # rest) =
     (if length (oldest # rest) > completed_run_retention then ring_evict (AList.delete oldest es) rest
      else (es, oldest # rest))"

definition ring_insert :: "uuid \<Rightarrow> 'v \<Rightarrow> 'v completed_ring \<Rightarrow> 'v completed_ring" where
  "ring_insert r rec R =
     (let ord = (if map_of (entries R) r = None then ring_order R @ [r] else ring_order R);
          (es, ord') = ring_evict (AList.update r rec (entries R)) ord
      in \<lparr>entries = es, ring_order = ord'\<rparr>)"

subsection \<open>The store\<close>

record live_store =
  live :: "(uuid \<times> task_context \<times> timestamp) list"
  completed :: "run_record completed_ring"
  operator_queue :: "operator_payload operator_queue"
  alarmed_runs :: "uuid set"

definition live_store_new :: live_store where
  "live_store_new = \<lparr>live = [], completed = \<lparr>entries = [], ring_order = []\<rparr>,
     operator_queue = queue_new queue_policy_default, alarmed_runs = {}\<rparr>"

definition store_record :: "uuid \<Rightarrow> task_context \<Rightarrow> timestamp \<Rightarrow> live_store \<Rightarrow> live_store" where
  "store_record r snapshot now S = S\<lparr>live := AList.update r (snapshot, now) (live S)\<rparr>"

text \<open>The two critical sections of \<open>get\<close>: the live map, then the ring.\<close>

definition get_sections ::
  "(uuid \<times> task_context \<times> timestamp) list \<Rightarrow> run_record completed_ring \<Rightarrow> uuid \<Rightarrow> task_context option" where
  "get_sections live_map ring r =
     (case map_of live_map r of
        Some (snapshot, _) \<Rightarrow> Some snapshot
      | None \<Rightarrow> map_option rr_snapshot (map_of (entries ring) r))"

definition live_get :: "live_store \<Rightarrow> uuid \<Rightarrow> task_context option" where
  "live_get S r = get_sections (live S) (completed S) r"

definition get_record :: "live_store \<Rightarrow> uuid \<Rightarrow> run_record option" where
  "get_record S r = map_of (entries (completed S)) r"

definition list_active :: "live_store \<Rightarrow> uuid list" where
  "list_active S = map fst (live S)"

definition store_remove :: "uuid \<Rightarrow> live_store \<Rightarrow> task_context option \<times> live_store" where
  "store_remove r S = (map_option fst (map_of (live S) r), S\<lparr>live := AList.delete r (live S)\<rparr>)"

definition list_live_records :: "live_store \<Rightarrow> (uuid \<times> task_context \<times> timestamp) list" where
  "list_live_records S = live S"

definition mark_alarmed :: "uuid \<Rightarrow> live_store \<Rightarrow> bool \<times> live_store" where
  "mark_alarmed r S = (r \<notin> alarmed_runs S, S\<lparr>alarmed_runs := insert r (alarmed_runs S)\<rparr>)"

subsection \<open>Campaigns\<close>

definition parse_campaign_id_value :: "ext \<Rightarrow> json option \<Rightarrow> uuid option" where
  "parse_campaign_id_value X v = do { w \<leftarrow> v; s \<leftarrow> as_str w; uuid_parse X s }"

definition orchestration_node_name :: string where
  "orchestration_node_name = ''OrchestrationRunNode''"

definition snapshot_campaign_id :: "ext \<Rightarrow> task_context \<Rightarrow> uuid option" where
  "snapshot_campaign_id X snapshot =
     (case parse_campaign_id_value X (json_get (event snapshot) ''campaign_id'') of
        Some u \<Rightarrow> Some u
      | None \<Rightarrow> Option.bind (map_of (nodes snapshot) orchestration_node_name)
          (\<lambda>node. parse_campaign_id_value X (json_get node ''campaign_id'')))"

record campaign_run =
  cr_run_id :: uuid
  cr_snapshot :: task_context
  cr_workflow_type :: "string option"
  cr_ordering_key :: timestamp
  cr_terminal :: bool

record campaign_lookup =
  cl_runs :: "campaign_run list"
  possibly_truncated :: bool

definition list_campaign_runs :: "ext \<Rightarrow> live_store \<Rightarrow> uuid \<Rightarrow> campaign_lookup" where
  "list_campaign_runs X S campaign =
     (let live_runs = List.map_filter (\<lambda>(r, snapshot, recorded_at).
            if snapshot_campaign_id X snapshot = Some campaign
            then Some \<lparr>cr_run_id = r, cr_snapshot = snapshot, cr_workflow_type = None,
                   cr_ordering_key = recorded_at, cr_terminal = False\<rparr> else None) (live S);
          done_runs = List.map_filter (\<lambda>(r, rec).
            if rr_campaign_id rec = Some campaign
            then Some \<lparr>cr_run_id = r, cr_snapshot = rr_snapshot rec, cr_workflow_type = Some (rr_workflow_type rec),
                   cr_ordering_key = rr_created_at rec, cr_terminal = True\<rparr> else None) (entries (completed S))
      in \<lparr>cl_runs = sort_key cr_ordering_key (live_runs @ done_runs),
          possibly_truncated = length (ring_order (completed S)) \<ge> completed_run_retention\<rparr>)"

subsection \<open>Going terminal\<close>

definition collect_failed_nodes :: "task_context \<Rightarrow> failed_node list" where
  "collect_failed_nodes snapshot =
     map (\<lambda>(name, run). \<lparr>fn_name = name,
            fn_error = (case nr_error run of Some e \<Rightarrow> e | None \<Rightarrow> ''unknown error'')\<rparr>)
       (sort_key fst (filter (\<lambda>(_, run). nr_status run = Failed) (node_runs snapshot)))"

definition maybe_enqueue_failure_notification ::
  "serve_env \<Rightarrow> timestamp \<Rightarrow> uuid \<Rightarrow> task_context \<Rightarrow> string \<Rightarrow> live_store \<Rightarrow> live_store" where
  "maybe_enqueue_failure_notification E now r snapshot workflow S =
     (let status = derive_terminal_status snapshot;
          policy = (case failure_policy_for_run (se_policy E) (se_dec E) Builtin None None of
                      Inr p \<Rightarrow> p | Inl _ \<Rightarrow> failure_policy_default)
      in if \<not> should_notify status policy then S
         else let failed = collect_failed_nodes snapshot;
                  run_id = uuid_str (se_formats E) r;
                  gate = ''run-failure:'' @ run_id
              in (case render_failure_payload (se_hash E) gate run_id workflow status failed
                         payload_limits_default of
                    Inl _ \<Rightarrow> S
                  | Inr validated \<Rightarrow> S\<lparr>operator_queue := enqueue
                      (queue_item_new gate (into_payload validated) (failure_item_priority policy) now GateApproval)
                      (operator_queue S)\<rparr>))"

text \<open>The critical sections of \<open>mark_terminal\<close>, in their order.\<close>

definition terminal_ring_section :: "uuid \<Rightarrow> run_record \<Rightarrow> live_store \<Rightarrow> bool \<times> live_store" where
  "terminal_ring_section r rec S =
     (let already_terminal = map_of (entries (completed S)) r \<noteq> None
      in (\<not> already_terminal, S\<lparr>completed := ring_insert r rec (completed S)\<rparr>))"

definition terminal_live_section :: "uuid \<Rightarrow> live_store \<Rightarrow> live_store" where
  "terminal_live_section r S = S\<lparr>live := AList.delete r (live S)\<rparr>"

definition terminal_alarm_section :: "uuid \<Rightarrow> live_store \<Rightarrow> live_store" where
  "terminal_alarm_section r S = S\<lparr>alarmed_runs := alarmed_runs S - {r}\<rparr>"

definition terminal_record :: "ext \<Rightarrow> task_context \<Rightarrow> string \<Rightarrow> timestamp \<Rightarrow> timestamp \<Rightarrow> run_record" where
  "terminal_record X snapshot workflow created updated =
     \<lparr>rr_snapshot = snapshot, rr_workflow_type = workflow, rr_created_at = created,
      rr_updated_at = updated, rr_terminal = True, rr_campaign_id = snapshot_campaign_id X snapshot\<rparr>"

definition mark_terminal ::
  "serve_env \<Rightarrow> timestamp \<Rightarrow> uuid \<Rightarrow> task_context \<Rightarrow> string \<Rightarrow> timestamp \<Rightarrow> timestamp \<Rightarrow> live_store \<Rightarrow> live_store" where
  "mark_terminal E now r snapshot workflow created updated S =
     (let (is_first, S1) = terminal_ring_section r
            (terminal_record (se_formats E) snapshot workflow created updated) S;
          S2 = terminal_alarm_section r (terminal_live_section r S1)
      in if is_first then maybe_enqueue_failure_notification E now r snapshot workflow S2 else S2)"

subsection \<open>A bounded first-in first-out map\<close>

text \<open>
  What the ring promises: an association list in the order of the first insertion, cut to the newest
  \<open>cap\<close> keys. Writing to a key that is present keeps its place.
\<close>

definition fifo_put :: "nat \<Rightarrow> 'k \<Rightarrow> 'v \<Rightarrow> ('k \<times> 'v) list \<Rightarrow> ('k \<times> 'v) list" where
  "fifo_put cap k v l = (let l' = AList.update k v l in drop (length l' - cap) l')"

definition fifo_puts :: "nat \<Rightarrow> ('k \<times> 'v) list \<Rightarrow> ('k \<times> 'v) list \<Rightarrow> ('k \<times> 'v) list" where
  "fifo_puts cap xs l = fold (\<lambda>(k, v). fifo_put cap k v) xs l"

lemma length_update: "length (AList.update k v l) = (if k \<in> fst ` set l then length l else Suc (length l))"
  by (induction l) auto

lemma keys_update: "map fst (AList.update k v l) = (if k \<in> fst ` set l then map fst l else map fst l @ [k])"
  by (induction l) auto

lemma keyset_update: "fst ` set (AList.update k v l) = insert k (fst ` set l)"
  by (induction l) auto

lemma keys_fifo_put:
  assumes "length l \<le> cap"
  shows "rev (map fst (fifo_put cap k v l)) =
    (if k \<in> fst ` set l then rev (map fst l) else take cap (k # rev (map fst l)))"
proof (cases "k \<in> fst ` set l")
  case False
  have d: "rev (drop (Suc n - cap) (ks @ [k])) = take cap (k # rev ks)" if "n \<le> cap" "length ks = n" for n ks
    using that by (cases "n = cap") (auto simp: rev_drop take_Cons')
  have "map fst (fifo_put cap k v l) = drop (Suc (length l) - cap) (map fst l @ [k])"
    using False by (simp add: fifo_put_def Let_def length_update keys_update flip: drop_map)
  with d [of "length l" "map fst l"] False assms show ?thesis by simp
qed (use assms in \<open>simp add: fifo_put_def keys_update length_update\<close>)

lemma length_fifo_put: "length l \<le> cap \<Longrightarrow> length (fifo_put cap k v l) = min cap (length (AList.update k v l))"
  by (simp add: fifo_put_def Let_def)

lemma length_fifo_puts: "length l \<le> cap \<Longrightarrow> length (fifo_puts cap xs l) \<le> cap"
  by (induction xs arbitrary: l) (auto simp: fifo_puts_def length_fifo_put)

lemma fifo_puts_Cons: "fifo_puts cap ((k, v) # xs) l = fifo_puts cap xs (fifo_put cap k v l)"
  by (simp add: fifo_puts_def)

lemma fifo_puts_snoc: "fifo_puts cap (xs @ [(k, v)]) l = fifo_put cap k v (fifo_puts cap xs l)"
  by (simp add: fifo_puts_def)

text \<open>A key stays for as many insertions as there is room for.\<close>

lemma fifo_retained_aux:
  assumes "k \<in> set (take m (rev (map fst l)))" "length l \<le> cap" "m + length xs \<le> cap"
  shows "k \<in> fst ` set (fifo_puts cap xs l)"
  using assms
proof (induction xs arbitrary: l m)
  case Nil
  then show ?case by (auto simp: fifo_puts_def dest: in_set_takeD)
next
  case (Cons x xs)
  obtain j v where x: "x = (j, v)" by (cases x)
  have "k \<in> set (take (Suc m) (rev (map fst (fifo_put cap j v l))))"
    using Cons.prems by (auto simp: keys_fifo_put take_Suc_Cons min_def dest: in_set_takeD
        intro: set_take_subset_set_take [THEN subsetD, rotated])
  with Cons.IH [of "Suc m" "fifo_put cap j v l"] Cons.prems show ?case
    by (simp add: x fifo_puts_Cons length_fifo_put)
qed

lemma fifo_retained:
  assumes "length l \<le> cap" "length xs < cap" "k \<notin> fst ` set l"
  shows "k \<in> fst ` set (fifo_puts cap xs (fifo_put cap k v l))"
  using assms by (intro fifo_retained_aux [where m = 1]) (auto simp: keys_fifo_put length_fifo_put take_Cons')

text \<open>It is gone once as many other keys came in.\<close>

lemma keys_fifo_puts_fresh:
  assumes "distinct (map fst xs)" "fst ` set xs \<inter> fst ` set l = {}" "length l \<le> cap"
  shows "rev (map fst (fifo_puts cap xs l)) = take cap (rev (map fst xs) @ rev (map fst l))"
  using assms
proof (induction xs rule: rev_induct)
  case (snoc x xs)
  obtain j v where x: "x = (j, v)" by (cases x)
  have IH: "rev (map fst (fifo_puts cap xs l)) = take cap (rev (map fst xs) @ rev (map fst l))"
    using snoc by auto
  have "j \<notin> set (take cap (rev (map fst xs) @ rev (map fst l)))"
    using snoc.prems x by (auto dest!: in_set_takeD)
  then have "j \<notin> set (map fst (fifo_puts cap xs l))" using IH by (metis set_rev)
  then have "j \<notin> fst ` set (fifo_puts cap xs l)" by simp
  then show ?case
    using length_fifo_puts [OF snoc.prems(3), of xs] IH
    by (simp add: x fifo_puts_snoc keys_fifo_put take_Cons' del: rev_map)
      (cases cap; simp add: take_Cons' min_def)
qed (simp add: fifo_puts_def)

text \<open>While there is room nothing was ever dropped.\<close>

lemma fifo_puts_room:
  assumes "length (fifo_puts cap xs l) < cap" "length l \<le> cap"
  shows "fifo_puts cap xs l = fold (\<lambda>(k, v). AList.update k v) xs l"
  using assms
proof (induction xs rule: rev_induct)
  case (snoc x xs)
  obtain j v where x: "x = (j, v)" by (cases x)
  let ?l = "fifo_puts cap xs l"
  have "length (AList.update j v ?l) < cap"
    using snoc.prems length_fifo_puts [OF snoc.prems(2), of xs]
    by (simp add: x fifo_puts_snoc length_fifo_put)
  moreover from this have "length ?l < cap" by (auto simp: length_update split: if_splits)
  ultimately show ?case using snoc by (simp add: x fifo_puts_snoc fifo_put_def)
qed (simp add: fifo_puts_def)

text \<open>The contract of an implementation, and what its clients know.\<close>

locale bounded_fifo =
  fixes cap :: nat
    and inv :: "'r \<Rightarrow> bool"
    and abs :: "'r \<Rightarrow> ('k \<times> 'v) list"
    and ins :: "'k \<Rightarrow> 'v \<Rightarrow> 'r \<Rightarrow> 'r"
    and nil :: 'r
  assumes nil: "inv nil" "abs nil = []"
    and inv_ins: "inv R \<Longrightarrow> inv (ins k v R)"
    and inv_bound: "inv R \<Longrightarrow> length (abs R) \<le> cap"
    and abs_ins: "inv R \<Longrightarrow> abs (ins k v R) = fifo_put cap k v (abs R)"
begin

lemma fold_ins:
  assumes "inv R"
  shows "inv (fold (\<lambda>(k, v). ins k v) xs R)" "abs (fold (\<lambda>(k, v). ins k v) xs R) = fifo_puts cap xs (abs R)"
proof -
  have "inv (fold (\<lambda>(k, v). ins k v) xs R) \<and> abs (fold (\<lambda>(k, v). ins k v) xs R) = fifo_puts cap xs (abs R)"
    using assms by (induction xs arbitrary: R) (auto simp: inv_ins abs_ins fifo_puts_def)
  then show "inv (fold (\<lambda>(k, v). ins k v) xs R)"
    "abs (fold (\<lambda>(k, v). ins k v) xs R) = fifo_puts cap xs (abs R)" by simp_all
qed

lemma kept:
  assumes "inv R" "length xs < cap" "k \<notin> fst ` set (abs R)"
  shows "k \<in> fst ` set (abs (fold (\<lambda>(k, v). ins k v) xs (ins k v R)))"
  using assms fold_ins [OF inv_ins [OF assms(1)]] fifo_retained [OF inv_bound]
  by (simp add: abs_ins)

lemma dropped:
  assumes "inv R" "distinct (map fst xs)" "length xs = cap" "fst ` set xs \<inter> fst ` set (abs R) = {}"
  shows "fst ` set (abs (fold (\<lambda>(k, v). ins k v) xs R)) = fst ` set xs"
proof -
  have "set (rev (map fst (fifo_puts cap xs (abs R)))) = set (rev (map fst xs))"
    using assms inv_bound by (subst keys_fifo_puts_fresh) auto
  then show ?thesis using fold_ins [OF assms(1)] by simp
qed

lemma room:
  assumes "length (abs (fold (\<lambda>(k, v). ins k v) xs nil)) < cap"
  shows "abs (fold (\<lambda>(k, v). ins k v) xs nil) = fold (\<lambda>(k, v). AList.update k v) xs []"
  using assms fifo_puts_room [of cap xs "[]"] fold_ins [OF nil(1), of xs] by (simp add: nil)

end

subsection \<open>The ring is a bounded first-in first-out map\<close>

definition ring_abs :: "'v completed_ring \<Rightarrow> (uuid \<times> 'v) list" where
  "ring_abs R = map (\<lambda>r. (r, the (map_of (entries R) r))) (ring_order R)"

definition ring_inv :: "'v completed_ring \<Rightarrow> bool" where
  "ring_inv R \<longleftrightarrow>
     distinct (ring_order R) \<and> set (ring_order R) = fst ` set (entries R) \<and>
     distinct (map fst (entries R)) \<and> length (ring_order R) \<le> completed_run_retention"

lemma ring_evict_eq:
  "ring_evict es ord =
     (fold AList.delete (take (length ord - completed_run_retention) ord) es,
      drop (length ord - completed_run_retention) ord)"
  by (induction es ord rule: ring_evict.induct) (auto simp: Suc_diff_le)

lemma map_of_fold_delete: "map_of (fold AList.delete ks es) j = (if j \<in> set ks then None else map_of es j)"
  by (induction ks arbitrary: es) (auto simp: delete_conv')

lemma fold_delete_keys:
  "fst ` set (fold AList.delete ks es) = fst ` set es - set ks"
  "distinct (map fst es) \<Longrightarrow> distinct (map fst (fold AList.delete ks es))"
proof -
  have del: "fst ` set (AList.delete k m) = fst ` set m - {k}" for k and m :: "('a \<times> 'b) list"
    by (induction m) auto
  show "fst ` set (fold AList.delete ks es) = fst ` set es - set ks"
    by (induction ks arbitrary: es) (auto simp: del)
  show "distinct (map fst es) \<Longrightarrow> distinct (map fst (fold AList.delete ks es))"
    by (induction ks arbitrary: es) (auto simp: distinct_delete)
qed

lemma update_keyed:
  assumes "distinct ks"
  shows "AList.update k v (map (\<lambda>j. (j, f j)) ks) =
    map (\<lambda>j. (j, if j = k then v else f j)) (if k \<in> set ks then ks else ks @ [k])"
  using assms by (induction ks) auto

lemma ring_insert_refines:
  assumes "ring_inv R"
  shows "ring_inv (ring_insert r rec R) \<and>
    ring_abs (ring_insert r rec R) = fifo_put completed_run_retention r rec (ring_abs R)"
proof -
  define ord where "ord = (if r \<in> set (ring_order R) then ring_order R else ring_order R @ [r])"
  define n where "n = length ord - completed_run_retention"
  define es where "es = AList.update r rec (entries R)"
  have "map_of (entries R) r = None \<longleftrightarrow> r \<notin> set (ring_order R)"
    using assms by (simp add: ring_inv_def map_of_eq_None_iff)
  then have ins: "ring_insert r rec R = \<lparr>entries = fold AList.delete (take n ord) es, ring_order = drop n ord\<rparr>"
    by (simp add: ring_insert_def ring_evict_eq ord_def n_def es_def Let_def)
  have ord: "distinct ord" "set ord = fst ` set es" "distinct (map fst es)"
    using assms by (auto simp: ring_inv_def ord_def es_def keyset_update distinct_update)
  then have sep: "set (drop n ord) = set ord - set (take n ord)"
    by (metis Diff_cancel Un_Diff append_take_drop_id distinct_append set_append Diff_triv Int_commute sup_bot_left)
  have "ring_inv (ring_insert r rec R)"
    using ord sep by (auto simp: ring_inv_def ins fold_delete_keys n_def)
  moreover have "ring_abs (ring_insert r rec R) = map (\<lambda>j. (j, the (map_of es j))) (drop n ord)"
    using sep by (auto simp: ring_abs_def ins map_of_fold_delete)
  moreover have "map (\<lambda>j. (j, the (map_of es j))) ord = AList.update r rec (ring_abs R)"
    using assms by (auto simp: ring_abs_def ring_inv_def update_keyed ord_def es_def)
  ultimately show ?thesis
    by (simp add: fifo_put_def Let_def n_def flip: drop_map) (metis length_map)
qed

abbreviation empty_ring :: "'v completed_ring" where
  "empty_ring \<equiv> \<lparr>entries = [], ring_order = []\<rparr>"

interpretation ring: bounded_fifo completed_run_retention ring_inv ring_abs ring_insert empty_ring
proof
  show "ring_inv empty_ring" "ring_abs empty_ring = []"
    by (simp_all add: ring_inv_def ring_abs_def)
  show "ring_inv R \<Longrightarrow> length (ring_abs R) \<le> completed_run_retention" for R
    by (simp add: ring_inv_def ring_abs_def)
qed (simp_all add: ring_insert_refines)

lemma ring_lookup: "ring_inv R \<Longrightarrow> map_of (entries R) r = map_of (ring_abs R) r"
proof -
  assume R: "ring_inv R"
  have "map_of (map (\<lambda>r. (r, the (map_of (entries R) r))) ks) r =
      (if r \<in> set ks then Some (the (map_of (entries R) r)) else None)" for ks
    by (induction ks) auto
  with R show ?thesis by (auto simp: ring_abs_def ring_inv_def map_of_eq_None_iff)
qed

lemma ring_keys: "ring_inv R \<Longrightarrow> fst ` set (ring_abs R) = fst ` set (entries R)"
  by (simp add: ring_abs_def ring_inv_def image_image)

text \<open>
  C26. The ring of completed runs refines a bounded first-in first-out map: seen in its order it is an
  association list of at most a hundred runs, every insertion does to it what the bounded map does,
  and the invariant that the order lists each stored run once is kept; a lookup in the hash map is a
  lookup in the list.
\<close>

theorem ring_refines_fifo:
  assumes "ring_inv R"
  shows "ring_inv (ring_insert r rec R) \<and>
    ring_abs (ring_insert r rec R) = fifo_put 100 r rec (ring_abs R) \<and>
    length (ring_abs (ring_insert r rec R)) \<le> 100 \<and>
    map_of (entries (ring_insert r rec R)) = map_of (ring_abs (ring_insert r rec R))"
proof -
  have "ring_inv (ring_insert r rec R)" using ring_insert_refines [OF assms] by simp
  with ring_lookup [OF this] ring.inv_bound [OF this] ring_insert_refines [OF assms, of r rec] show ?thesis
    by (simp add: completed_run_retention_def fun_eq_iff)
qed

definition example_run :: run_record where
  "example_run = \<lparr>rr_snapshot = \<lparr>event = JNull, nodes = [], metadata = JObj [], node_runs = []\<rparr>,
     rr_workflow_type = ''W'', rr_created_at = 0, rr_updated_at = 1, rr_terminal = True, rr_campaign_id = None\<rparr>"

theorem ring_refines_fifo_witness:
  "ring_abs (ring_insert 1 example_run (ring_insert 2 example_run empty_ring)) = [(2, example_run), (1, example_run)]"
proof -
  have i: "ring_inv (empty_ring :: run_record completed_ring)"
    and a: "ring_abs (empty_ring :: run_record completed_ring) = []" by (fact ring.nil)+
  have "ring_inv (ring_insert 2 example_run empty_ring)"
    "ring_abs (ring_insert 2 example_run empty_ring) = [(2, example_run)]"
    using ring_refines_fifo [OF i, of 2 example_run] a by (simp_all add: fifo_put_def)
  then show ?thesis
    using ring_refines_fifo [of "ring_insert 2 example_run empty_ring" 1 example_run] by (simp add: fifo_put_def)
qed

end
