(* ===== verification/LiveLaws.thy ===== *)
theory LiveLaws
  imports LiveState
begin

text \<open>
  Laws of the in-memory store under any sequence of its operations: which runs it remembers, what a
  campaign lookup finds, how often a failed run is reported, and what a reader sees that runs
  between the critical sections of a run that goes terminal.
\<close>

subsection \<open>Sequences of operations\<close>

datatype store_op =
    OpRecord uuid task_context timestamp
  | OpTerminal timestamp uuid task_context string timestamp timestamp
  | OpAlarm uuid
  | OpRemove uuid

fun apply_op :: "serve_env \<Rightarrow> store_op \<Rightarrow> live_store \<Rightarrow> live_store" where
  "apply_op E (OpRecord r c t) S = store_record r c t S"
| "apply_op E (OpTerminal now r c w created updated) S = mark_terminal E now r c w created updated S"
| "apply_op E (OpAlarm r) S = snd (mark_alarmed r S)"
| "apply_op E (OpRemove r) S = snd (store_remove r S)"

definition run_ops :: "serve_env \<Rightarrow> store_op list \<Rightarrow> live_store \<Rightarrow> live_store" where
  "run_ops E ops S = fold (apply_op E) ops S"

text \<open>The runs that went terminal, oldest first.\<close>

fun terminal_of :: "serve_env \<Rightarrow> store_op \<Rightarrow> (uuid \<times> run_record) option" where
  "terminal_of E (OpTerminal now r c w created updated) =
     Some (r, terminal_record (se_formats E) c w created updated)"
| "terminal_of E _ = None"

definition terminals :: "serve_env \<Rightarrow> store_op list \<Rightarrow> (uuid \<times> run_record) list" where
  "terminals E ops = List.map_filter (terminal_of E) ops"

definition notifies :: "task_context \<Rightarrow> bool" where
  "notifies c \<longleftrightarrow> derive_terminal_status c \<in> {''failed'', ''budget_halted''}"

definition failure_item ::
  "serve_env \<Rightarrow> timestamp \<Rightarrow> uuid \<Rightarrow> task_context \<Rightarrow> string \<Rightarrow> operator_payload operator_queue_item" where
  "failure_item E now r c w =
     (let run_id = uuid_str (se_formats E) r; gate = ''run-failure:'' @ run_id
      in queue_item_new gate
           (payload_new (se_hash E) gate
              (failure_summary run_id w (derive_terminal_status c) (collect_failed_nodes c) 1024) failure_options)
           0 now GateApproval)"

lemma failure_policy_builtin: "failure_policy_for_run P d Builtin None None = Inr failure_policy_default"
  by (simp add: failure_policy_for_run_def resolve_policy_for_run_def read_harness_policy_defaults_from_def
      resolve_profile_from_def harness_section_def harness_path_def resolve_def)

lemma maybe_enqueue_eq:
  "maybe_enqueue_failure_notification E now r c w S =
     (if notifies c then S\<lparr>operator_queue := enqueue (failure_item E now r c w) (operator_queue S)\<rparr> else S)"
proof -
  have "should_notify (derive_terminal_status c) failure_policy_default \<longleftrightarrow> notifies c"
    by (auto simp: should_notify_def notifies_def failure_policy_default_def notify_on_statuses_default_def
        derive_terminal_status_def Let_def)
  moreover have "failure_item_priority failure_policy_default = 0" by (simp add: failure_policy_default_def)
  ultimately show ?thesis
    by (simp add: maybe_enqueue_failure_notification_def failure_policy_builtin render_failure_default
        failure_item_def Let_def)
qed

lemma mark_terminal_fields:
  "live (mark_terminal E now r c w created updated S) = AList.delete r (live S)"
  "completed (mark_terminal E now r c w created updated S) = ring_insert r (terminal_record (se_formats E) c w created updated) (completed S)"
  "alarmed_runs (mark_terminal E now r c w created updated S) = alarmed_runs S - {r}"
  "operator_queue (mark_terminal E now r c w created updated S) =
       (if map_of (entries (completed S)) r = None \<and> notifies c
        then enqueue (failure_item E now r c w) (operator_queue S) else operator_queue S)"
  by (auto simp: mark_terminal_def terminal_ring_section_def terminal_live_section_def
      terminal_alarm_section_def maybe_enqueue_eq Let_def)

lemma completed_run_ops:
  "completed (run_ops E ops S) = fold (\<lambda>(r, rec). ring_insert r rec) (terminals E ops) (completed S)"
proof (induction ops arbitrary: S)
  case (Cons op ops)
  then show ?case
    by (cases op) (simp_all add: run_ops_def terminals_def List.map_filter_simps store_record_def
        mark_terminal_fields mark_alarmed_def store_remove_def)
qed (simp add: run_ops_def terminals_def List.map_filter_simps)

lemma ring_inv_run_ops: "ring_inv (completed (run_ops E ops live_store_new))"
  unfolding completed_run_ops by (rule ring.fold_ins) (simp add: live_store_new_def ring.nil)

lemma in_ring: "ring_inv R \<Longrightarrow> map_of (entries R) r = None \<longleftrightarrow> r \<notin> fst ` set (ring_abs R)"
  by (simp add: ring_keys map_of_eq_None_iff)

subsection \<open>What stays in the ring\<close>

text \<open>A record that is written is found, and writing others only ever drops it.\<close>

lemma ring_insert_present: "ring_inv R \<Longrightarrow> map_of (entries (ring_insert r v R)) r \<noteq> None"
proof -
  assume R: "ring_inv R"
  have "set (rev (map fst (fifo_put completed_run_retention r v (ring_abs R)))) =
      set (if r \<in> fst ` set (ring_abs R) then rev (map fst (ring_abs R))
           else take completed_run_retention (r # rev (map fst (ring_abs R))))"
    by (simp only: keys_fifo_put [OF ring.inv_bound [OF R]])
  then have "r \<in> fst ` set (ring_abs (ring_insert r v R))"
    by (auto simp: ring.abs_ins [OF R] completed_run_retention_def take_Cons' split: if_splits)
  then show ?thesis by (simp add: in_ring [OF ring.inv_ins [OF R]])
qed

lemma ring_insert_found: "ring_inv R \<Longrightarrow> map_of (entries (ring_insert r v R)) r = Some v"
proof -
  assume R: "ring_inv R"
  have "map_of (drop n l) r = Some v" if "map_of l r = Some v" "distinct (map fst l)" "r \<in> fst ` set (drop n l)" for n and l :: "(uuid \<times> 'a) list"
  proof -
    have "map fst l = map fst (take n l) @ map fst (drop n l)" by (simp flip: map_append)
    then have "map_of (take n l) r = None" using that(2,3) by (auto simp: map_of_eq_None_iff)
    moreover have "map_of l = map_of (drop n l) ++ map_of (take n l)" by (simp flip: map_of_append)
    ultimately show ?thesis using that(1) by (simp add: map_add_def)
  qed
  moreover have "map_of (AList.update r v (ring_abs R)) r = Some v" by (simp add: update_conv')
  moreover have "distinct (map fst (AList.update r v (ring_abs R)))"
    using R by (intro distinct_update) (simp add: ring_abs_def ring_inv_def o_def)
  moreover have "r \<in> fst ` set (fifo_put completed_run_retention r v (ring_abs R))"
    using ring_insert_present [OF R, of r v] ring_insert_refines [OF R, of r v] in_ring by metis
  ultimately show ?thesis
    using ring_insert_refines [OF R, of r v] ring_lookup [of "ring_insert r v R" r] unfolding fifo_put_def Let_def by metis
qed

lemma ring_evict_lookup: "map_of (fst (ring_evict es ord)) r \<in> {None, map_of es r}"
proof (induction es ord rule: ring_evict.induct)
  case (2 es oldest rest)
  then show ?case by (cases "r = oldest") (auto simp: delete_conv')
qed simp

lemma ring_insert_other:
  "j \<noteq> r \<Longrightarrow> map_of (entries (ring_insert j v R)) r \<in> {None, map_of (entries R) r}"
  using ring_evict_lookup [of "AList.update j v (entries R)" _ r]
  by (simp add: ring_insert_def Let_def update_conv' case_prod_beta)

lemma ring_inserts_other:
  "r \<notin> fst ` set xs \<Longrightarrow>
     map_of (entries (fold (\<lambda>(r, v). ring_insert r v) xs R)) r \<in> {None, map_of (entries R) r}"
proof (induction xs arbitrary: R)
  case (Cons x xs)
  obtain j v where x: "x = (j, v)" by (cases x)
  with Cons.prems have "map_of (entries (ring_insert j v R)) r \<in> {None, map_of (entries R) r}"
    by (intro ring_insert_other) auto
  with Cons.IH [of "ring_insert j v R"] Cons.prems show ?case by (auto simp: x)
qed simp

text \<open>Of runs that go terminal one after the other, each once, the last hundred are found as they were written.\<close>

lemma ring_recent:
  assumes "ring_inv R" and "distinct (map fst (xs @ (r, v) # ys))" and "length ys < 100"
    and "map_of (entries R) r = None"
  shows "map_of (entries (fold (\<lambda>(r, v). ring_insert r v) (xs @ (r, v) # ys) R)) r = Some v"
proof -
  define R1 where "R1 = fold (\<lambda>(r, v). ring_insert r v) xs R"
  have R1: "ring_inv R1" unfolding R1_def by (rule ring.fold_ins(1) [OF assms(1)])
  have "map_of (entries R1) r = None"
    using ring_inserts_other [of r xs R] assms(2,4) by (auto simp: R1_def)
  then have "r \<in> fst ` set (ring_abs (fold (\<lambda>(r, v). ring_insert r v) ys (ring_insert r v R1)))"
    using ring.kept [OF R1, of ys r v] assms(3) in_ring [OF R1] by (simp add: completed_run_retention_def)
  moreover have "ring_inv (fold (\<lambda>(r, v). ring_insert r v) ys (ring_insert r v R1))"
    by (rule ring.fold_ins(1) [OF ring.inv_ins [OF R1]])
  ultimately have "map_of (entries (fold (\<lambda>(r, v). ring_insert r v) ys (ring_insert r v R1))) r \<noteq> None"
    using in_ring by blast
  with ring_inserts_other [of r ys "ring_insert r v R1"] ring_insert_found [OF R1, of r v] assms(2) show ?thesis
    by (auto simp: R1_def)
qed

subsection \<open>One notice per run\<close>

text \<open>
  C27. A run that fails or is halted by its budget is reported to the operator once: the first time it
  goes terminal exactly one notice is appended to the queue, for no other status is there one, and
  going terminal again changes the queue no more, as long as fewer than a hundred other runs went
  terminal in between, whatever else happened to the store.
\<close>

theorem failure_notified_once:
  assumes "S = run_ops E before live_store_new" and "get_record S r = None"
    and "S1 = mark_terminal E now r c w created updated S"
    and "S2 = run_ops E ops S1" and "length (terminals E ops) < 100"
  shows "pending (operator_queue S1) =
      pending (operator_queue S) @ (if notifies c then [failure_item E now r c w] else []) \<and>
    operator_queue (mark_terminal E now' r c' w' created' updated' S2) = operator_queue S2"
proof -
  let ?rec = "terminal_record (se_formats E) c w created updated"
  have inv: "ring_inv (completed S)" using assms(1) ring_inv_run_ops by simp
  have fresh: "r \<notin> fst ` set (ring_abs (completed S))"
    using assms(2) in_ring [OF inv] by (simp add: get_record_def)
  have "r \<in> fst ` set (ring_abs (completed S2))"
    using ring.kept [OF inv _ fresh, of "terminals E ops" ?rec] assms
    by (simp add: completed_run_ops mark_terminal_fields completed_run_retention_def)
  moreover have "ring_inv (completed S2)"
    using ring.fold_ins [OF ring.inv_ins [OF inv]] assms by (simp add: completed_run_ops mark_terminal_fields)
  ultimately have "map_of (entries (completed S2)) r \<noteq> None" by (simp add: in_ring)
  then show ?thesis
    using assms(2,3) by (auto simp: mark_terminal_fields get_record_def enqueue_def)
qed

definition example_env :: serve_env where
  "example_env = \<lparr>se_formats = \<lparr>uuid_str = (\<lambda>u. decimal (unat u)), uuid_parse = (\<lambda>s. Some (of_nat (undecimal s 0))),
       time_str = (\<lambda>t. decimal (nat t)), time_parse = (\<lambda>s. Some (int (undecimal s 0))),
       time_rfc3339 = (\<lambda>t. []), json_bytes = (\<lambda>_. None)\<rparr>,
     se_hash = id, se_policy = \<lparr>read_file = (\<lambda>_. NoFile), parse_json = (\<lambda>_. None)\<rparr>, se_dec = (\<lambda>_. None)\<rparr>"

definition failed_context :: task_context where
  "failed_context = \<lparr>event = JObj [(''campaign_id'', JStr ''7'')], nodes = [],
     metadata = stamp_failure ''boom'' (JObj []), node_runs = []\<rparr>"

lemma notifies_failed_context [simp]: "notifies failed_context"
  by code_simp

theorem failure_notified_once_witness:
  "(let S1 = mark_terminal example_env 5 1 failed_context ''W'' 0 5 live_store_new in
    pending (operator_queue S1) = [failure_item example_env 5 1 failed_context ''W''] \<and>
    operator_queue (mark_terminal example_env 9 1 failed_context ''W'' 0 9 S1) = operator_queue S1)"
  using failure_notified_once [of live_store_new example_env "[]" 1
      "mark_terminal example_env 5 1 failed_context ''W'' 0 5 live_store_new" 5 failed_context "''W''" 0 5
      "mark_terminal example_env 5 1 failed_context ''W'' 0 5 live_store_new" "[]" 9 failed_context "''W''" 0 9]
  by (simp add: run_ops_def terminals_def List.map_filter_simps get_record_def live_store_new_def queue_new_def)

text \<open>
  The memory of the store is what makes the notice unique: once a hundred other runs went terminal
  after a run did, that run is forgotten, and if it goes terminal again with a status that notifies,
  it is reported a second time.
\<close>

theorem forgotten_run_notified_again:
  assumes "S = run_ops E before live_store_new"
    and "S1 = mark_terminal E now r c w created updated S"
    and "xs = terminals E ops" "distinct (map fst xs)" "length xs = 100"
    and "list_all (\<lambda>(k, _). k \<noteq> r \<and> get_record S k = None) xs"
    and "S2 = run_ops E ops S1" and "notifies c'"
  shows "operator_queue (mark_terminal E now' r c' w' created' updated' S2) =
    enqueue (failure_item E now' r c' w') (operator_queue S2)"
proof -
  let ?R = "completed S1"
  have inv: "ring_inv (completed S)" using assms(1) ring_inv_run_ops by simp
  then have inv1: "ring_inv ?R" using ring.inv_ins assms(2) by (simp add: mark_terminal_fields)
  have keys: "fst ` set (ring_abs ?R) \<subseteq> insert r (fst ` set (ring_abs (completed S)))"
  proof -
    have "ring_abs ?R = fifo_put completed_run_retention r
        (terminal_record (se_formats E) c w created updated) (ring_abs (completed S))"
      using ring.abs_ins [OF inv] assms(2) by (simp add: mark_terminal_fields)
    then have "set (ring_abs ?R) \<subseteq>
        set (AList.update r (terminal_record (se_formats E) c w created updated) (ring_abs (completed S)))"
      by (simp add: fifo_put_def Let_def set_drop_subset)
    then show ?thesis using keyset_update by (metis image_mono)
  qed
  have "k \<notin> insert r (fst ` set (ring_abs (completed S)))" if "k \<in> fst ` set xs" for k
  proof -
    from that obtain v where "(k, v) \<in> set xs" by auto
    with assms(6) have "k \<noteq> r \<and> get_record S k = None" unfolding list_all_iff by blast
    then show ?thesis by (simp add: get_record_def in_ring [OF inv])
  qed
  then have "fst ` set xs \<inter> insert r (fst ` set (ring_abs (completed S))) = {}" by blast
  then have "fst ` set xs \<inter> fst ` set (ring_abs ?R) = {}" using keys by blast
  then have "fst ` set (ring_abs (completed S2)) = fst ` set xs"
    using ring.dropped [OF inv1 assms(4)] assms(3,5,7)
    by (simp add: completed_run_ops completed_run_retention_def)
  then have "r \<notin> fst ` set (ring_abs (completed S2))" using assms(6) by (auto simp: list_all_iff)
  moreover have "ring_inv (completed S2)"
    using ring.fold_ins(1) [OF inv1] assms(7) by (simp add: completed_run_ops)
  ultimately show ?thesis using assms(8) by (simp add: mark_terminal_fields in_ring)
qed

text \<open>A hundred runs, none of them run 1.\<close>

definition hundred_runs :: "uuid list" where
  "hundred_runs = map of_nat [2..<102]"

lemma hundred_runs: "length hundred_runs = 100" "distinct hundred_runs" "1 \<notin> set hundred_runs"
proof -
  have small: "unat (of_nat n :: uuid) = n" if "n < 102" for n
    using that by (simp add: unsigned_of_nat take_bit_nat_eq_self)
  then have "inj_on (of_nat :: nat \<Rightarrow> uuid) {2..<102}" by (intro inj_on_inverseI [where g = unat]) simp
  then show "distinct hundred_runs" unfolding hundred_runs_def by (simp only: distinct_map distinct_upt set_upt simp_thms)
  have "(of_nat n :: uuid) \<noteq> of_nat 1" if "2 \<le> n" "n < 102" for n
  proof
    assume "(of_nat n :: uuid) = of_nat 1"
    then have "unat (of_nat n :: uuid) = unat (of_nat 1 :: uuid)" by (rule arg_cong)
    then show False using small [of n] small [of 1] that by simp
  qed
  then show "1 \<notin> set hundred_runs" unfolding hundred_runs_def set_map set_upt by force
qed (simp only: hundred_runs_def length_map length_upt)

definition hundred_ops :: "store_op list" where
  "hundred_ops = map (\<lambda>u. OpTerminal 1 u failed_context ''W'' 0 1) hundred_runs"

lemma terminals_hundred:
  "terminals E hundred_ops = map (\<lambda>u. (u, terminal_record (se_formats E) failed_context ''W'' 0 1)) hundred_runs"
proof -
  have "List.map_filter (terminal_of E) (map (\<lambda>u. OpTerminal 1 u failed_context ''W'' 0 1) us) =
      map (\<lambda>u. (u, terminal_record (se_formats E) failed_context ''W'' 0 1)) us" for us
    by (induction us) (auto simp: List.map_filter_simps)
  then show ?thesis by (simp add: terminals_def hundred_ops_def)
qed

theorem forgotten_run_notified_again_witness:
  "(let S1 = mark_terminal example_env 5 1 failed_context ''W'' 0 5 live_store_new;
        S2 = run_ops example_env hundred_ops S1
    in operator_queue (mark_terminal example_env 9 1 failed_context ''W'' 0 9 S2) =
       enqueue (failure_item example_env 9 1 failed_context ''W'') (operator_queue S2))"
proof -
  let ?xs = "terminals example_env hundred_ops"
  have "map fst ?xs = hundred_runs" by (simp add: terminals_hundred o_def)
  then have "distinct (map fst ?xs)" by (simp only: hundred_runs)
  moreover have "list_all (\<lambda>(k, _). k \<noteq> 1 \<and> get_record live_store_new k = None) ?xs"
    using hundred_runs(3) by (auto simp: list_all_iff terminals_hundred get_record_def live_store_new_def)
  moreover have "length ?xs = 100" by (simp add: terminals_hundred hundred_runs)
  ultimately show ?thesis
    using forgotten_run_notified_again [of live_store_new example_env "[]"
        "mark_terminal example_env 5 1 failed_context ''W'' 0 5 live_store_new" 5 1 failed_context "''W''" 0 5
        ?xs hundred_ops
        "run_ops example_env hundred_ops (mark_terminal example_env 5 1 failed_context ''W'' 0 5 live_store_new)"
        failed_context 9 "''W''" 0 9, OF _ refl refl _ _ _ refl] unfolding Let_def
    by (simp only: run_ops_def [of _ "[]"] fold.simps id_def simp_thms notifies_failed_context)
qed

subsection \<open>Campaigns\<close>

lemma keyset_fold_update:
  "fst ` set (fold (\<lambda>(k, v). AList.update k v) xs l) = fst ` set xs \<union> fst ` set l"
  by (induction xs arbitrary: l) (simp_all add: keyset_update case_prod_beta)

lemma length_fifo_puts_card: "length (fifo_puts cap xs []) = min cap (card (fst ` set xs))"
proof (induction xs rule: rev_induct)
  case (snoc x xs)
  obtain k v where x: "x = (k, v)" by (cases x)
  let ?l = "fifo_puts cap xs []"
  have b: "length ?l \<le> cap" by (rule length_fifo_puts) simp
  have len: "length (fifo_puts cap (xs @ [x]) []) = min cap (length (AList.update k v ?l))"
    by (simp add: x fifo_puts_snoc length_fifo_put [OF b])
  show ?case
  proof (cases "length ?l < cap")
    case True
    then have "?l = fold (\<lambda>(k, v). AList.update k v) xs []" by (rule fifo_puts_room) simp
    then have "fst ` set ?l = fst ` set xs" by (simp add: keyset_fold_update)
    with snoc True len show ?thesis by (simp add: x length_update card_insert_if)
  next
    case False
    with snoc have "cap \<le> card (fst ` set xs)" by simp
    moreover have "card (fst ` set xs) \<le> card (insert k (fst ` set xs))" by (simp add: card_insert_le)
    ultimately show ?thesis using len False b by (simp add: x length_update)
  qed
qed (simp add: fifo_puts_def)

lemma map_of_fold_update: "map_of (fold (\<lambda>(k, v). AList.update k v) xs []) = map_of (rev xs)"
  by (induction xs rule: rev_induct) (auto simp: fun_eq_iff)

definition done_run :: "uuid \<Rightarrow> run_record \<Rightarrow> campaign_run" where
  "done_run r rec = \<lparr>cr_run_id = r, cr_snapshot = rr_snapshot rec, cr_workflow_type = Some (rr_workflow_type rec),
     cr_ordering_key = rr_created_at rec, cr_terminal = True\<rparr>"

lemma set_map_filter_iff: "y \<in> set (List.map_filter f xs) \<longleftrightarrow> (\<exists>x \<in> set xs. f x = Some y)"
  by (induction xs) (auto simp: List.map_filter_simps split: option.splits)

lemma lookup_terminal_set:
  assumes "ring_inv (completed S)"
  shows "{x \<in> set (cl_runs (list_campaign_runs X S u)). cr_terminal x} =
    {done_run r rec |r rec. get_record S r = Some rec \<and> rr_campaign_id rec = Some u}"
proof -
  have "map_of (entries (completed S)) r = Some rec \<longleftrightarrow> (r, rec) \<in> set (entries (completed S))" for r rec
    using assms by (simp add: ring_inv_def)
  moreover have "x \<in> set (cl_runs (list_campaign_runs X S u)) \<and> cr_terminal x \<longleftrightarrow>
      (\<exists>r rec. (r, rec) \<in> set (entries (completed S)) \<and> rr_campaign_id rec = Some u \<and> x = done_run r rec)" for x
  proof -
    have "(\<exists>(r, rec) \<in> set (entries (completed S)). (if rr_campaign_id rec = Some u then Some (done_run r rec) else None) = Some x)
       \<longleftrightarrow> (\<exists>r rec. (r, rec) \<in> set (entries (completed S)) \<and> rr_campaign_id rec = Some u \<and> x = done_run r rec)"
      by (auto split: if_splits)
    then show ?thesis
      by (auto simp: list_campaign_runs_def Let_def set_map_filter_iff done_run_def case_prod_beta split: if_splits)
  qed
  ultimately show ?thesis by (auto simp: get_record_def)
qed

text \<open>
  A campaign lookup says honestly whether it is complete. The flag is set exactly when a hundred
  or more different runs have gone terminal since the start; when it is not set, the finished runs
  listed are exactly the runs whose last record belongs to the campaign, none having been dropped.
  The list is in the order of its keys, and every live run of the campaign is on it.
\<close>

theorem campaign_lookup_exact:
  "(let S = run_ops E ops live_store_new; hist = terminals E ops; L = list_campaign_runs X S u in
      (possibly_truncated L \<longleftrightarrow> 100 \<le> card (fst ` set hist)) \<and>
      (possibly_truncated L \<or>
       {x \<in> set (cl_runs L). cr_terminal x} =
         {done_run r rec |r rec. map_of (rev hist) r = Some rec \<and> rr_campaign_id rec = Some u}) \<and>
      sorted (map cr_ordering_key (cl_runs L)) \<and>
      cr_run_id ` {x \<in> set (cl_runs L). \<not> cr_terminal x} =
        {r. \<exists>c t. (r, c, t) \<in> set (live S) \<and> snapshot_campaign_id X c = Some u})"
proof -
  define S where "S = run_ops E ops live_store_new"
  have inv: "ring_inv (completed S)" unfolding S_def by (rule ring_inv_run_ops)
  have ring: "completed S = fold (\<lambda>(r, rec). ring_insert r rec) (terminals E ops) empty_ring"
    by (simp add: S_def completed_run_ops live_store_new_def)
  then have abs: "ring_abs (completed S) = fifo_puts 100 (terminals E ops) []"
    using ring.fold_ins(2) [OF ring.nil(1), of "terminals E ops"] by (simp add: ring.nil completed_run_retention_def)
  then have len: "length (ring_order (completed S)) = min 100 (card (fst ` set (terminals E ops)))"
    using length_fifo_puts_card [of 100 "terminals E ops"] by (metis length_map ring_abs_def)
  have look: "get_record S = map_of (rev (terminals E ops))" if "length (ring_order (completed S)) < 100"
  proof -
    have "length (ring_abs (completed S)) < completed_run_retention"
      using that by (simp add: ring_abs_def completed_run_retention_def)
    then have "ring_abs (completed S) = fold (\<lambda>(k, v). AList.update k v) (terminals E ops) []"
      unfolding ring by (rule ring.room)
    then have "get_record S r = map_of (rev (terminals E ops)) r" for r
      by (simp add: get_record_def ring_lookup [OF inv] map_of_fold_update)
    then show ?thesis ..
  qed
  let ?L = "list_campaign_runs X S u"
  have "possibly_truncated ?L \<longleftrightarrow> 100 \<le> card (fst ` set (terminals E ops))"
    by (simp add: list_campaign_runs_def Let_def len completed_run_retention_def)
  moreover have "possibly_truncated ?L \<or> {x \<in> set (cl_runs ?L). cr_terminal x} =
      {done_run r rec |r rec. map_of (rev (terminals E ops)) r = Some rec \<and> rr_campaign_id rec = Some u}"
    using look lookup_terminal_set [OF inv, of X u]
    by (cases "length (ring_order (completed S)) < 100")
      (simp_all add: list_campaign_runs_def Let_def completed_run_retention_def)
  moreover have "sorted (map cr_ordering_key (cl_runs ?L))"
    by (simp add: list_campaign_runs_def Let_def)
  moreover have "cr_run_id ` {x \<in> set (cl_runs ?L). \<not> cr_terminal x} =
      {r. \<exists>c t. (r, c, t) \<in> set (live S) \<and> snapshot_campaign_id X c = Some u}"
    by (force simp: list_campaign_runs_def Let_def set_map_filter_iff image_iff split: if_splits)
  ultimately show ?thesis by (simp add: S_def [symmetric] Let_def)
qed

subsection \<open>Readers between the critical sections\<close>

text \<open>
  The store as concurrent callers see it: one step is one critical section. \<open>marking\<close> holds the runs
  whose \<open>mark_terminal\<close> is past the ring and has not yet left the live map.
\<close>

record shared_store =
  store :: live_store
  marking :: "uuid set"

inductive section_step :: "shared_store \<Rightarrow> shared_store \<Rightarrow> bool" where
  progress: "section_step s (s\<lparr>store := store_record r c t (store s)\<rparr>)"
| enter_ring: "section_step s (s\<lparr>store := snd (terminal_ring_section r rec (store s)), marking := insert r (marking s)\<rparr>)"
| leave_live: "r \<in> marking s \<Longrightarrow>
    section_step s (s\<lparr>store := terminal_live_section r (store s), marking := marking s - {r}\<rparr>)"
| leave_alarm: "section_step s (s\<lparr>store := terminal_alarm_section r (store s)\<rparr>)"
| notice: "section_step s (s\<lparr>store := maybe_enqueue_failure_notification E now r c w (store s)\<rparr>)"
| alarm: "section_step s (s\<lparr>store := snd (mark_alarmed r (store s))\<rparr>)"

inductive_cases section_stepE: "section_step s s'"

definition shared_new :: shared_store where
  "shared_new = \<lparr>store = live_store_new, marking = {}\<rparr>"

definition known :: "uuid \<Rightarrow> shared_store \<Rightarrow> bool" where
  "known r s \<longleftrightarrow> map_of (live (store s)) r \<noteq> None \<or> map_of (entries (completed (store s))) r \<noteq> None"

definition shared_inv :: "shared_store \<Rightarrow> bool" where
  "shared_inv s \<longleftrightarrow> ring_inv (completed (store s)) \<and>
     (length (ring_order (completed (store s))) < completed_run_retention \<longrightarrow>
      (\<forall>r \<in> marking s. map_of (entries (completed (store s))) r \<noteq> None))"

lemma ring_insert_room:
  assumes "ring_inv R" "length (ring_order (ring_insert r rec R)) < completed_run_retention"
  shows "length (ring_order R) < completed_run_retention \<and>
    map_of (entries (ring_insert r rec R)) = (map_of (entries R))(r \<mapsto> rec)"
proof -
  have inv: "ring_inv (ring_insert r rec R)" by (rule ring.inv_ins [OF assms(1)])
  have abs: "ring_abs (ring_insert r rec R) = fifo_put completed_run_retention r rec (ring_abs R)"
    by (rule ring.abs_ins [OF assms(1)])
  have "length (fifo_put completed_run_retention r rec (ring_abs R)) < completed_run_retention"
    using assms(2) arg_cong [OF abs, of length] by (simp add: ring_abs_def)
  then have l: "length (AList.update r rec (ring_abs R)) < completed_run_retention"
    using length_fifo_put [OF ring.inv_bound [OF assms(1)]] by simp
  then have "ring_abs (ring_insert r rec R) = AList.update r rec (ring_abs R)"
    by (simp add: abs fifo_put_def)
  moreover have "length (ring_order R) < completed_run_retention"
    using l by (auto simp: length_update ring_abs_def split: if_splits)
  ultimately show ?thesis
    using ring_lookup [OF inv] ring_lookup [OF assms(1)] by (auto simp: fun_eq_iff)
qed

lemma section_fields [simp]:
  "completed (store_record r c t S) = completed S"
  "live (snd (terminal_ring_section r rec S)) = live S"
  "completed (snd (terminal_ring_section r rec S)) = ring_insert r rec (completed S)"
  "completed (terminal_live_section r S) = completed S"
  "live (terminal_live_section r S) = AList.delete r (live S)"
  "live (terminal_alarm_section r S) = live S" "completed (terminal_alarm_section r S) = completed S"
  "live (maybe_enqueue_failure_notification E now r c w S) = live S"
  "completed (maybe_enqueue_failure_notification E now r c w S) = completed S"
  "live (snd (mark_alarmed r S)) = live S" "completed (snd (mark_alarmed r S)) = completed S"
  by (simp_all add: store_record_def terminal_ring_section_def terminal_live_section_def Let_def
      terminal_alarm_section_def maybe_enqueue_eq mark_alarmed_def)

abbreviation roomy :: "shared_store \<Rightarrow> bool" where
  "roomy s \<equiv> length (ring_order (completed (store s))) < completed_run_retention"

abbreviation in_ring_of :: "shared_store \<Rightarrow> uuid \<Rightarrow> bool" where
  "in_ring_of s r \<equiv> map_of (entries (completed (store s))) r \<noteq> None"

lemma section_step_room:
  assumes "section_step s s'" "shared_inv s" "roomy s'"
  shows "roomy s \<and> (in_ring_of s r \<longrightarrow> in_ring_of s' r) \<and> (known r s \<longrightarrow> known r s')"
  using assms
proof (cases rule: section_step.cases)
  case (enter_ring k rec)
  with assms have "length (ring_order (ring_insert k rec (completed (store s)))) < completed_run_retention"
    "ring_inv (completed (store s))" by (simp_all add: shared_inv_def)
  with ring_insert_room [of "completed (store s)" k rec] enter_ring show ?thesis by (auto simp: known_def)
next
  case (leave_live k)
  with assms have "in_ring_of s k" by (auto simp: shared_inv_def)
  with leave_live assms(3) show ?thesis by (auto simp: known_def delete_conv')
qed (auto simp: known_def store_record_def)

lemma shared_inv_step:
  assumes "section_step s s'" "shared_inv s"
  shows "shared_inv s'"
  using assms
proof (cases rule: section_step.cases)
  case (enter_ring k rec)
  have inv: "ring_inv (completed (store s))" using assms(2) by (simp add: shared_inv_def)
  have "ring_inv (ring_insert k rec (completed (store s)))" by (rule ring.inv_ins [OF inv])
  moreover have "map_of (entries (ring_insert k rec (completed (store s)))) j \<noteq> None"
    if "length (ring_order (ring_insert k rec (completed (store s)))) < completed_run_retention"
      and "j \<in> insert k (marking s)" for j
    using ring_insert_room [OF inv that(1)] that(2) assms(2) by (auto simp: shared_inv_def)
  ultimately show ?thesis using enter_ring by (simp add: shared_inv_def)
qed (auto simp: shared_inv_def)

lemma shared_inv_reachable: "section_step\<^sup>*\<^sup>* shared_new s \<Longrightarrow> shared_inv s"
proof (induction rule: rtranclp_induct)
  case base
  show ?case by (simp add: shared_inv_def shared_new_def live_store_new_def ring.nil)
qed (rule shared_inv_step)

lemma section_steps_room:
  assumes "section_step\<^sup>*\<^sup>* s s'" "shared_inv s" "roomy s'"
  shows "roomy s \<and> (in_ring_of s r \<longrightarrow> in_ring_of s' r) \<and> (known r s \<longrightarrow> known r s')"
  using assms
proof (induction rule: converse_rtranclp_induct)
  case (step s u)
  have "shared_inv u" using step by (blast intro: shared_inv_step)
  with step.IH step.prems(2) have u: "roomy u \<and> (in_ring_of u r \<longrightarrow> in_ring_of s' r) \<and> (known r u \<longrightarrow> known r s')"
    by blast
  with section_step_room [OF step.hyps(1) step.prems(1), of r] show ?case by blast
qed blast

text \<open>
  While the ring has not filled up, that is before a hundred runs have ended since the process started, a run that
  is known to the store is not reported as unknown by a reader that overlaps with it going terminal: a reader that
  looks into the live map at one moment and into the ring at any later moment finds a snapshot, whatever critical
  sections of other callers run before, between and after. It rests on the order of the sections, into the ring
  before out of the live map. Once the ring is full, a run may be pushed out of it between the two looks.
\<close>

theorem reader_finds_while_room:
  assumes "section_step\<^sup>*\<^sup>* shared_new s0" "known r s0"
    and "section_step\<^sup>*\<^sup>* s0 s1" "section_step\<^sup>*\<^sup>* s1 s2"
    and "length (ring_order (completed (store s2))) < 100"
  shows "get_sections (live (store s1)) (completed (store s2)) r \<noteq> None"
proof -
  have room: "roomy s2" using assms(5) by (simp add: completed_run_retention_def)
  have inv0: "shared_inv s0" by (rule shared_inv_reachable [OF assms(1)])
  have inv1: "shared_inv s1" using assms(1,3) by (intro shared_inv_reachable) simp
  have s12: "roomy s1 \<and> (in_ring_of s1 r \<longrightarrow> in_ring_of s2 r)"
    using section_steps_room [OF assms(4) inv1 room] by blast
  then have "known r s1" using section_steps_room [OF assms(3) inv0] assms(2) by blast
  with s12 show ?thesis by (auto simp: get_sections_def known_def split: option.splits)
qed

definition shared_live :: shared_store where
  "shared_live = shared_new\<lparr>store := store_record 1 failed_context 0 live_store_new\<rparr>"

definition shared_both :: shared_store where
  "shared_both = shared_live\<lparr>store := snd (terminal_ring_section 1
     (terminal_record (se_formats example_env) failed_context ''W'' 0 1) (store shared_live)), marking := {1}\<rparr>"

definition shared_gone :: shared_store where
  "shared_gone = shared_both\<lparr>store := terminal_live_section 1 (store shared_both), marking := {}\<rparr>"

theorem reader_finds_while_room_witness:
  "get_sections (live (store shared_gone)) (completed (store shared_gone)) 1 \<noteq> None"
proof -
  have s1: "section_step shared_new shared_live"
    using section_step.progress [of shared_new 1 failed_context 0] by (simp add: shared_live_def shared_new_def)
  have s2: "section_step shared_live shared_both"
    using section_step.enter_ring [of shared_live 1 "terminal_record (se_formats example_env) failed_context ''W'' 0 1"]
    by (simp add: shared_both_def shared_live_def shared_new_def)
  have s3: "section_step shared_both shared_gone"
    using section_step.leave_live [of 1 shared_both] by (simp add: shared_gone_def shared_both_def)
  have "known 1 shared_live" by (simp add: known_def shared_live_def store_record_def)
  moreover have "length (ring_order (completed (store shared_gone))) < 100"
    by (simp add: shared_gone_def shared_both_def shared_live_def live_store_new_def ring_insert_def
        completed_run_retention_def)
  ultimately show ?thesis
    using reader_finds_while_room [of shared_live 1 shared_gone shared_gone] s1 s2 s3
    by (meson converse_rtranclp_into_rtranclp rtranclp.rtrancl_refl)
qed

end
