(* ===== verification/Durable.thy ===== *)
theory Durable
  imports Ledgers Markers "HOL-Library.Sublist" "HOL-Library.Multiset"
begin

text \<open>
  The durable record of a run: the \<open>events\<close> and \<open>node_invocations\<close> tables as the statements of
  \<open>engine-store/src/postgres.rs\<close> read and write them, the channel to the background writer and the
  closure that feeds it (\<open>engine-serve/src/durable.rs\<close>). Journal rows and progress updates share the
  channel but touch neither table and are left out. A table is a list of rows in no particular order;
  the time a row is written and whether a statement succeeds are arguments.
\<close>

subsection \<open>Tables\<close>

record events_row =
  er_id :: uuid
  er_workflow_type :: string
  er_data :: json
  er_task_context :: task_context
  er_created_at :: timestamp
  er_updated_at :: timestamp

record database =
  db_events :: "events_row list"
  db_invocations :: "node_invocation list"

definition touch :: "timestamp \<Rightarrow> events_row \<Rightarrow> events_row" where
  "touch now row = row\<lparr>er_updated_at := now\<rparr>"

text \<open>\<open>INSERT ... ON CONFLICT (id) DO UPDATE\<close> of everything but \<open>created_at\<close>\<close>

fun upsert_event :: "events_row \<Rightarrow> events_row list \<Rightarrow> events_row list" where
  "upsert_event row [] = [row]"
| "upsert_event row (r # rs) =
     (if er_id r = er_id row then row\<lparr>er_created_at := er_created_at r\<rparr> # rs else r # upsert_event row rs)"

definition store_get_event :: "database \<Rightarrow> uuid \<Rightarrow> events_row option" where
  "store_get_event db r = List.find (\<lambda>row. er_id row = r) (db_events db)"

text \<open>
  The candidates of the boot sweep: no completion marker and not written since \<open>older_than\<close>, oldest
  first. A negative limit is rejected by the database, so the limit is a natural number.
\<close>

definition list_orphan_candidates :: "timestamp \<Rightarrow> nat \<Rightarrow> database \<Rightarrow> events_row list" where
  "list_orphan_candidates older_than limit db =
     take limit (sort_key er_updated_at
       (filter (\<lambda>row. json_get (metadata (er_task_context row)) ''completion'' = None \<and>
                      er_updated_at row < older_than) (db_events db)))"

text \<open>\<open>INSERT ... ON CONFLICT (id) DO NOTHING\<close>\<close>

definition insert_node_invocation :: "node_invocation \<Rightarrow> node_invocation list \<Rightarrow> node_invocation list" where
  "insert_node_invocation ni rows = (if ni_id ni \<in> ni_id ` set rows then rows else rows @ [ni])"

subsection \<open>The channel\<close>

record durable_message =
  dm_run_id :: uuid
  dm_workflow_type :: string
  dm_data :: json
  dm_snapshot :: task_context

datatype durable_item = Snapshot durable_message | NodeInvocation node_invocation

definition message_to_row :: "durable_message \<Rightarrow> timestamp \<Rightarrow> timestamp \<Rightarrow> events_row" where
  "message_to_row m created updated =
     \<lparr>er_id = dm_run_id m, er_workflow_type = dm_workflow_type m, er_data = dm_data m,
      er_task_context = dm_snapshot m, er_created_at = created, er_updated_at = updated\<rparr>"

definition durable_record :: "uuid \<Rightarrow> string \<Rightarrow> json \<Rightarrow> task_context \<Rightarrow> durable_item" where
  "durable_record r workflow data snapshot =
     Snapshot \<lparr>dm_run_id = r, dm_workflow_type = workflow, dm_data = data, dm_snapshot = snapshot\<rparr>"

text \<open>One turn of the writer. Without a pool it only drains; a failed statement is logged and skipped.\<close>

definition write_item :: "bool \<Rightarrow> timestamp \<Rightarrow> durable_item \<Rightarrow> database option \<Rightarrow> database option" where
  "write_item ok now item pool =
     (case pool of
        None \<Rightarrow> None
      | Some db \<Rightarrow> Some
          (if \<not> ok then db
           else case item of
             Snapshot m \<Rightarrow> db\<lparr>db_events := upsert_event (touch now (message_to_row m now now)) (db_events db)\<rparr>
           | NodeInvocation ni \<Rightarrow> db\<lparr>db_invocations := insert_node_invocation ni (db_invocations db)\<rparr>))"

text \<open>The closure of \<open>durable_on_progress\<close>, with its high-water mark passed along.\<close>

definition durable_on_progress ::
  "ext \<Rightarrow> uuid \<Rightarrow> string \<Rightarrow> json \<Rightarrow> task_context \<Rightarrow> nat \<Rightarrow> durable_item list \<times> nat" where
  "durable_on_progress X r workflow data snapshot sent =
     (let invocations = read_invocations X (metadata snapshot);
          first = durable_record r workflow data snapshot
      in if length invocations > sent
         then (first # map NodeInvocation (drop sent invocations), length invocations)
         else ([first], sent))"

fun run_progress ::
  "ext \<Rightarrow> uuid \<Rightarrow> string \<Rightarrow> json \<Rightarrow> task_context list \<Rightarrow> nat \<Rightarrow> durable_item list" where
  "run_progress X r workflow data [] sent = []"
| "run_progress X r workflow data (c # cs) sent =
     (case durable_on_progress X r workflow data c sent of
        (items, sent') \<Rightarrow> items @ run_progress X r workflow data cs sent')"

subsection \<open>Rows by their key\<close>

lemma find_append: "List.find P (xs @ ys) = (case List.find P xs of None \<Rightarrow> List.find P ys | Some x \<Rightarrow> Some x)"
  by (induction xs) auto

text \<open>Reading a row back after an upsert.\<close>

lemma find_upsert:
  "List.find (\<lambda>r. er_id r = i) (upsert_event row rs) =
     (if i = er_id row
      then Some (case List.find (\<lambda>r. er_id r = i) rs of
                   None \<Rightarrow> row | Some old \<Rightarrow> row\<lparr>er_created_at := er_created_at old\<rparr>)
      else List.find (\<lambda>r. er_id r = i) rs)"
  by (induction rs) auto

lemma upsert_keys: "map er_id (upsert_event row rs) =
    (if er_id row \<in> er_id ` set rs then map er_id rs else map er_id rs @ [er_id row])"
  by (induction rs) auto

lemma distinct_upsert: "distinct (map er_id rs) \<Longrightarrow> distinct (map er_id (upsert_event row rs))"
  by (auto simp: upsert_keys)

subsection \<open>Every dispatch row reaches the table once\<close>

definition invocations_of :: "durable_item list \<Rightarrow> node_invocation list" where
  "invocations_of items = List.map_filter (\<lambda>i. case i of NodeInvocation ni \<Rightarrow> Some ni | _ \<Rightarrow> None) items"

lemma invocations_of_simps [simp]:
  "invocations_of [] = []"
  "invocations_of (Snapshot m # items) = invocations_of items"
  "invocations_of (NodeInvocation ni # items) = ni # invocations_of items"
  "invocations_of (xs @ ys) = invocations_of xs @ invocations_of ys"
  "invocations_of (map NodeInvocation nis) = nis"
proof -
  show "invocations_of (map NodeInvocation nis) = nis"
    by (induction nis) (simp_all add: invocations_of_def List.map_filter_simps)
qed (simp_all add: invocations_of_def List.map_filter_simps)

text \<open>
  The ledger of a run only grows: the rows of each snapshot continue those of the one before.
\<close>

fun ledger_grows :: "ext \<Rightarrow> node_invocation list \<Rightarrow> task_context list \<Rightarrow> bool" where
  "ledger_grows X rows [] = True"
| "ledger_grows X rows (c # cs) \<longleftrightarrow>
     prefix rows (read_invocations X (metadata c)) \<and> ledger_grows X (read_invocations X (metadata c)) cs"

definition last_rows :: "ext \<Rightarrow> node_invocation list \<Rightarrow> task_context list \<Rightarrow> node_invocation list" where
  "last_rows X rows cs = (if cs = [] then rows else read_invocations X (metadata (last cs)))"

lemma run_progress_forwards:
  "ledger_grows X rows cs \<Longrightarrow>
     rows @ invocations_of (run_progress X r w d cs (length rows)) = last_rows X rows cs"
proof (induction cs arbitrary: rows)
  case (Cons c cs)
  let ?new = "read_invocations X (metadata c)"
  from Cons.prems obtain zs where zs: "?new = rows @ zs" by (auto simp: prefix_def)
  from Cons have IH: "?new @ invocations_of (run_progress X r w d cs (length ?new)) = last_rows X ?new cs" by simp
  show ?case
  proof (cases "zs = []")
    case True
    with zs IH show ?thesis
      by (simp add: durable_on_progress_def durable_record_def last_rows_def)
  next
    case False
    with zs IH show ?thesis
      by (simp add: durable_on_progress_def durable_record_def last_rows_def Let_def)
  qed
qed (simp add: last_rows_def)

text \<open>The writer over a list of items: \<open>ok k\<close> says whether the statement of the \<open>k\<close>-th succeeds, \<open>clock k\<close> when.\<close>

fun write_items ::
  "(nat \<Rightarrow> bool) \<Rightarrow> (nat \<Rightarrow> timestamp) \<Rightarrow> nat \<Rightarrow> durable_item list \<Rightarrow> database option \<Rightarrow> database option" where
  "write_items ok clock k [] pool = pool"
| "write_items ok clock k (i # items) pool = write_items ok clock (Suc k) items (write_item (ok k) (clock k) i pool)"

text \<open>The dispatch rows among the items whose statement succeeds.\<close>

fun written_rows :: "(nat \<Rightarrow> bool) \<Rightarrow> nat \<Rightarrow> durable_item list \<Rightarrow> node_invocation list" where
  "written_rows ok k [] = []"
| "written_rows ok k (i # items) = (if ok k then invocations_of [i] else []) @ written_rows ok (Suc k) items"

lemma write_items_rows:
  "\<exists>db'. write_items ok clock k items (Some db) = Some db' \<and>
     db_invocations db' = fold insert_node_invocation (written_rows ok k items) (db_invocations db)"
proof (induction items arbitrary: k db)
  case (Cons i items)
  obtain db1 where db1: "write_item (ok k) (clock k) i (Some db) = Some db1"
    "db_invocations db1 = fold insert_node_invocation (if ok k then invocations_of [i] else []) (db_invocations db)"
    by (cases i) (simp_all add: write_item_def)
  from Cons.IH [of "Suc k" db1] show ?case by (simp add: db1)
qed simp

lemma written_rows_sub: "set (written_rows ok k items) \<subseteq> set (invocations_of items)"
proof (induction items arbitrary: k)
  case (Cons i items)
  from Cons.IH [of "Suc k"] show ?case by (cases i) auto
qed simp

lemma written_rows_all: "written_rows (\<lambda>_. True) k items = invocations_of items"
proof (induction items arbitrary: k)
  case (Cons i items)
  from Cons.IH [of "Suc k"] show ?case by (cases i) simp_all
qed simp

text \<open>A table of other rows and some rows of a ledger, each once, stays one.\<close>

lemma fold_insert_rows:
  assumes "distinct (map ni_id R)" and "ni_id ` set old \<inter> ni_id ` set R = {}" and "set nis \<subseteq> set R"
    and "mset cur = mset (old @ P)" "distinct P" "set P \<subseteq> set R"
  shows "\<exists>P'. mset (fold insert_node_invocation nis cur) = mset (old @ P') \<and> distinct P' \<and> set P' = set P \<union> set nis"
  using assms(3-)
proof (induction nis arbitrary: cur P)
  case (Cons ni nis)
  have cur: "set cur = set old \<union> set P" using mset_eq_setD [OF Cons.prems(2)] by simp
  have inj: "x = ni" if "x \<in> set R" "ni_id x = ni_id ni" for x
    using that Cons.prems(1) assms(1) by (auto simp: distinct_map inj_on_def)
  have other: "ni_id ni \<notin> ni_id ` set old" using Cons.prems(1) assms(2) by auto
  have "ni_id ni \<in> ni_id ` set P \<longleftrightarrow> ni \<in> set P" using inj Cons.prems(4) by force
  then have "ni_id ni \<in> ni_id ` set cur \<longleftrightarrow> ni \<in> set P" using other unfolding cur image_Un by blast
  then have "\<exists>P1. mset (insert_node_invocation ni cur) = mset (old @ P1) \<and> distinct P1 \<and> set P1 = insert ni (set P)"
    using Cons.prems(2,3)
    by (intro exI [of _ "if ni \<in> set P then P else P @ [ni]"]) (auto simp: insert_node_invocation_def insert_absorb)
  then obtain P1 where P1: "mset (insert_node_invocation ni cur) = mset (old @ P1)" "distinct P1" "set P1 = insert ni (set P)"
    by blast
  from Cons.IH [OF _ P1(1,2)] P1(3) Cons.prems(1,4) show ?case by simp
qed auto

text \<open>
  C31. Every dispatch row of a run is in the table of dispatches at most once at any time and exactly once in the
  end, also over a restart and after failed writes. The closure of the first process forwards what each snapshot
  adds, and any of its writes may fail; the closure of the process that resumes the run sends the whole ledger
  again, and when its writes succeed the table holds what it held before and each row of the last snapshot once,
  whatever the order in which they arrived. It takes a ledger that only grows from one snapshot to the next and rows
  with identifiers of their own, which no row of another run has: of a ledger that is replaced by a shorter one the
  new rows are not sent, and a row whose write fails in the last process is lost.
\<close>

theorem invocations_stored_once:
  assumes "ledger_grows X [] (cs1 @ cs2)" "cs2 \<noteq> []" "rows = read_invocations X (metadata (last cs2))"
    and "distinct (map ni_id rows)" "ni_id ` set (db_invocations db) \<inter> ni_id ` set rows = {}"
    and "write_items ok clock 0 (run_progress X r w d cs1 0) (Some db) = Some db1"
    and "write_items (\<lambda>_. True) clock' 0 (run_progress X r w d cs2 0) (Some db1) = Some db2"
  shows "mset (db_invocations db1) \<subseteq># mset (db_invocations db) + mset rows \<and>
    mset (db_invocations db2) = mset (db_invocations db) + mset rows"
proof -
  have app: "ledger_grows X rows (xs @ ys) \<longleftrightarrow> ledger_grows X rows xs \<and> ledger_grows X (last_rows X rows xs) ys" for rows xs ys
    by (induction xs arbitrary: rows) (auto simp: last_rows_def)
  define n1 where "n1 = last_rows X [] cs1"
  have g1: "ledger_grows X [] cs1" and g2: "ledger_grows X n1 cs2" using assms(1) app by (auto simp: n1_def)
  have g2': "ledger_grows X [] cs2" using g2 by (cases cs2) auto
  have pre: "ledger_grows X rows xs \<Longrightarrow> prefix rows (last_rows X rows xs)" for rows xs
    by (induction xs arbitrary: rows) (auto simp: last_rows_def intro: prefix_order.trans split: if_splits)
  have i1: "invocations_of (run_progress X r w d cs1 0) = n1"
    using run_progress_forwards [OF g1] by (simp add: n1_def)
  have i2: "invocations_of (run_progress X r w d cs2 0) = rows"
    using run_progress_forwards [OF g2'] assms(2,3) by (simp add: last_rows_def)
  have "set n1 \<subseteq> set rows" using set_mono_prefix [OF pre [OF g2]] assms(2,3) by (simp add: last_rows_def)
  then have sub: "set (written_rows ok 0 (run_progress X r w d cs1 0)) \<subseteq> set rows"
    using written_rows_sub [of ok 0 "run_progress X r w d cs1 0"] i1 by auto
  obtain P where P: "mset (db_invocations db1) = mset (db_invocations db @ P)" "distinct P" "set P \<subseteq> set rows"
    using fold_insert_rows [OF assms(4,5) sub, of "db_invocations db" "[]"] sub assms(6)
      write_items_rows [of ok clock 0 "run_progress X r w d cs1 0" db] by auto
  from fold_insert_rows [OF assms(4,5) subset_refl P] obtain Q where
    Q: "mset (fold insert_node_invocation rows (db_invocations db1)) = mset (db_invocations db @ Q)"
      "distinct Q" "set Q = set P \<union> set rows" by blast
  have rows: "distinct rows" using assms(4) by (simp add: distinct_map)
  have "mset Q = mset rows" using Q(2,3) P(3) rows by (intro set_eq_iff_mset_eq_distinct [THEN iffD1]) auto
  moreover have "db_invocations db2 = fold insert_node_invocation rows (db_invocations db1)"
    using write_items_rows [of "\<lambda>_. True" clock' 0 "run_progress X r w d cs2 0" db1] assms(7)
    by (simp add: written_rows_all i2)
  moreover have "mset P \<subseteq># mset rows"
    using P(2,3) rows by (metis finite_set msubset_mset_set_iff mset_set_set)
  ultimately show ?thesis using P(1) Q(1) by simp
qed

definition sample_row :: "uuid \<Rightarrow> node_invocation" where
  "sample_row u = \<lparr>ni_id = u, ni_run_id = None, ni_campaign_id = None, ni_node = ''A'', ni_seq = 0,
     ni_started_at = 0, ni_completed_at = 1, ni_status = InvSuccess, ni_error = None, ni_payload = None,
     ni_payload_truncated = False, ni_payload_cap_bytes = 10\<rparr>"

definition rows_context :: "node_invocation list \<Rightarrow> task_context" where
  "rows_context rows = \<lparr>event = JNull, nodes = [],
     metadata = fold (append_invocation sample_ext) rows (JObj []), node_runs = []\<rparr>"

lemma read_rows_context:
  "read_invocations sample_ext (metadata (rows_context (map sample_row us))) = map sample_row us"
proof -
  have [simp]: "(sample_row u)\<lparr>ni_payload := (if ni_payload (sample_row u) = Some JNull then None
      else ni_payload (sample_row u))\<rparr> = sample_row u" for u
    by (simp add: sample_row_def)
  have "read_invocations sample_ext (fold (append_invocation sample_ext) (map sample_row us) m) =
      read_invocations sample_ext m @ map sample_row us" for m
    by (induction us arbitrary: m) (simp_all add: append_invocation_read [OF sample_ext_ok])
  then show ?thesis by (simp add: rows_context_def read_invocations_def rows_at_def)
qed

theorem invocations_stored_once_witness:
  "(case write_items (\<lambda>k. k \<noteq> 2) (\<lambda>k. int k) 0
        (run_progress sample_ext 7 ''W'' JNull [rows_context [], rows_context (map sample_row [1])] 0)
        (Some \<lparr>db_events = [], db_invocations = [sample_row 5]\<rparr>) of
      None \<Rightarrow> False
    | Some db1 \<Rightarrow>
        (case write_items (\<lambda>_. True) (\<lambda>k. 9) 0
            (run_progress sample_ext 7 ''W'' JNull [rows_context (map sample_row [1, 2])] 0) (Some db1) of
           None \<Rightarrow> False
         | Some db2 \<Rightarrow> mset (db_invocations db2) = mset (map sample_row [5, 1, 2])))"
proof -
  define cs1 where "cs1 = [rows_context [], rows_context (map sample_row [1])]"
  define cs2 where "cs2 = [rows_context (map sample_row [1, 2])]"
  let ?db = "\<lparr>db_events = [], db_invocations = [sample_row 5]\<rparr>"
  note read = read_rows_context [of "[]", simplified] read_rows_context
  have grows: "ledger_grows sample_ext [] (cs1 @ cs2)"
    unfolding cs1_def cs2_def append.simps ledger_grows.simps by (simp only: read) simp
  have cs2: "cs2 \<noteq> []" by (simp add: cs2_def)
  have rows: "map sample_row [1, 2] = read_invocations sample_ext (metadata (last cs2))"
    unfolding cs2_def last.simps by (simp only: read if_True simp_thms)
  have dist: "distinct (map ni_id (map sample_row [1, 2]))" by (simp add: sample_row_def)
  have other: "ni_id ` set (db_invocations ?db) \<inter> ni_id ` set (map sample_row [1, 2]) = {}"
    by (simp add: sample_row_def)
  obtain db1 where db1: "write_items (\<lambda>k. k \<noteq> 2) (\<lambda>k. int k) 0 (run_progress sample_ext 7 ''W'' JNull cs1 0) (Some ?db) = Some db1"
    using write_items_rows by blast
  obtain db2 where db2: "write_items (\<lambda>_. True) (\<lambda>k. 9) 0 (run_progress sample_ext 7 ''W'' JNull cs2 0) (Some db1) = Some db2"
    using write_items_rows by blast
  have "mset (db_invocations db2) = mset (map sample_row [5, 1, 2])"
    using invocations_stored_once [OF grows cs2 rows dist other db1 db2] by simp
  with db1 db2 show ?thesis by (simp add: cs1_def cs2_def)
qed

end
