(* ===== verification/QueuePark.thy ===== *)
theory QueuePark
  imports Runner
begin

text \<open>
  The loop that drives a run through its queue parks (\<open>workflows/queue_park.rs\<close>): a run that suspends
  itself on the heavy-work queue is resumed with the outcome of its job as often as it parks, until
  the walk ends in any other way or the run is cancelled.

  The walk of each segment reads its own clock and flags, so the world and the options are indexed by
  the number of the segment. What \<open>tokio::select!\<close> yields at the \<open>n\<close>-th park is a parameter: the outcome
  of the job, the cancellation of the run, or nothing, when neither ever happens.
\<close>

datatype park_event = JobOutcome json | Cancelled timestamp

record park_env =
  pk_formats :: ext
  pk_world :: "nat \<Rightarrow> world"
  pk_options :: "nat \<Rightarrow> run_options"
  pk_event :: "nat \<Rightarrow> park_event option"

datatype queue_run_start = FreshStart json | ResumeStart resume_state

datatype drive_result = DriveOk task_context | DriveErr string | DrivePanic

definition test_task_node_identity :: string where
  "test_task_node_identity = ''TestTaskNode''"

definition heavy_work_metadata_key :: string where
  "heavy_work_metadata_key = ''heavy_work''"

definition read_job_id :: "ext \<Rightarrow> task_context \<Rightarrow> uuid option" where
  "read_job_id X ctx = do {
     v \<leftarrow> json_get (metadata ctx) heavy_work_metadata_key;
     w \<leftarrow> json_get v ''job_id'';
     s \<leftarrow> as_str w;
     uuid_parse X s
   }"

text \<open>The exits at the head of the loop: \<open>None\<close> is a context the loop returns as it is.\<close>

definition parked_job :: "ext \<Rightarrow> task_context \<Rightarrow> (suspension_state \<times> string \<times> uuid) option" where
  "parked_job X ctx =
     (case read_suspension (metadata ctx) of
        None \<Rightarrow> None
      | Some s \<Rightarrow>
          if \<not> ss_suspended s then None
          else if ss_reason s \<noteq> Some HeavyWorkQueue then None
          else case ss_resume_at s of
            None \<Rightarrow> None
          | Some resume_at \<Rightarrow>
              (case read_job_id X ctx of None \<Rightarrow> None | Some j \<Rightarrow> Some (s, resume_at, j)))"

text \<open>\<open>metadata[key]["state"] = "done"\<close>, with the panics of indexing.\<close>

definition mark_job_done :: "json \<Rightarrow> json option" where
  "mark_job_done m = do {
     job \<leftarrow> json_index_set (case json_get m heavy_work_metadata_key of Some v \<Rightarrow> v | None \<Rightarrow> JNull)
              ''state'' (JStr ''done'');
     json_index_set m heavy_work_metadata_key job
   }"

definition inject_outcome :: "json \<Rightarrow> task_context \<Rightarrow> task_context option" where
  "inject_outcome outcome ctx = do {
     m1 \<leftarrow> mark_job_done (metadata ctx);
     m2 \<leftarrow> stamp_resumed m1;
     Some (ctx\<lparr>nodes := AList.update test_task_node_identity outcome (nodes ctx), metadata := m2\<rparr>)
   }"

definition park_ledger :: "suspension_state \<Rightarrow> task_context \<Rightarrow> budget_ledger" where
  "park_ledger s ctx =
     (case ss_ledger s of
        Some l \<Rightarrow> from_parts (ls_total_tokens l) (ls_total_cost_usd l)
      | None \<Rightarrow> ledger_from_context ctx)"

text \<open>
  The loop returns the result, the snapshots of all segments, which go to the one progress closure of the run in
  order, and the job it asked the queue to withdraw with \<open>cancel_if_queued\<close>, if it did.
\<close>

partial_function (option) drive_loop ::
  "park_env \<Rightarrow> workflow \<Rightarrow> nat \<Rightarrow> task_context \<Rightarrow> task_context list \<Rightarrow> (drive_result \<times> task_context list \<times> uuid option) option" where
  "drive_loop K w n ctx snaps =
     (case parked_job (pk_formats K) ctx of
        None \<Rightarrow> Some (DriveOk ctx, snaps, None)
      | Some (s, resume_at, j) \<Rightarrow>
          (case pk_event K n of
             None \<Rightarrow> None
           | Some (Cancelled now) \<Rightarrow>
               Some (DriveOk (ctx\<lparr>metadata := stamp_cancelled (pk_formats K) now (metadata ctx)\<rparr>), snaps, Some j)
           | Some (JobOutcome outcome) \<Rightarrow>
               (case inject_outcome outcome ctx of
                  None \<Rightarrow> Some (DrivePanic, snaps, None)
                | Some ctx1 \<Rightarrow>
                    (case run_from (pk_world K (Suc n)) w
                            \<lparr>rs_ctx = ctx1, rs_at_identity = resume_at, rs_ledger = park_ledger s ctx1\<rparr>
                            (pk_options K (Suc n)) of
                       None \<Rightarrow> Some (DrivePanic, snaps, None)
                     | Some None \<Rightarrow> None
                     | Some (Some (Inl e, new)) \<Rightarrow> Some (DriveErr e, snaps @ new, None)
                     | Some (Some (Inr ctx2, new)) \<Rightarrow> drive_loop K w (Suc n) ctx2 (snaps @ new)))))"

declare drive_loop.simps [code]

definition drive :: "park_env \<Rightarrow> workflow \<Rightarrow> queue_run_start \<Rightarrow> (drive_result \<times> task_context list \<times> uuid option) option" where
  "drive K w start =
     (case (case start of
              FreshStart ev \<Rightarrow> Some (run_with (pk_world K 0) w ev (pk_options K 0))
            | ResumeStart st \<Rightarrow> run_from (pk_world K 0) w st (pk_options K 0)) of
        None \<Rightarrow> Some (DrivePanic, [], None)
      | Some None \<Rightarrow> None
      | Some (Some (Inl e, new)) \<Rightarrow> Some (DriveErr e, new, None)
      | Some (Some (Inr ctx, new)) \<Rightarrow> drive_loop K w 0 ctx new)"

subsection \<open>What the driver does with a park\<close>




subsection \<open>Properties\<close>



text \<open>
  The driver returns once the run is cancelled at some park, provided the earlier jobs end and the walk between two
  parks ends.
\<close>

theorem drive_returns:
  assumes "\<forall>n. pk_event K n \<noteq> None" "pk_event K k = Some (Cancelled now)"
    and "\<forall>n st. run_from (pk_world K n) w st (pk_options K n) \<noteq> Some None"
    and "\<forall>n ev. run_with (pk_world K n) w ev (pk_options K n) \<noteq> None"
  shows "drive K w start \<noteq> None"
proof -
  have loop: "\<exists>res. drive_loop K w n c snaps = Some res" if "n \<le> k" for n c snaps
    using that
  proof (induction "k - n" arbitrary: n c snaps)
    case 0
    with assms(2) show ?case
      by (subst drive_loop.simps) (auto split: option.split park_event.split prod.split)
  next
    case (Suc d)
    have n: "Suc n \<le> k" "d = k - Suc n" using Suc.hyps(2) by auto
    have IH: "\<exists>res. drive_loop K w (Suc n) c snaps = Some res" for c snaps
      using Suc.hyps(1) [OF n(2) n(1)] .
    show ?case
      using assms(1) [rule_format, of n] assms(3) [rule_format, of "Suc n"] IH
      by (subst drive_loop.simps) (auto split: option.split park_event.split prod.split sum.split)
  qed
  show ?thesis
  proof (cases start)
    case (FreshStart ev)
    with assms(4) obtain a where "run_with (pk_world K 0) w ev (pk_options K 0) = Some a" by blast
    with FreshStart loop [of 0] show ?thesis by (auto simp: drive_def split: prod.split sum.split)
  next
    case (ResumeStart st)
    with loop [of 0] assms(3) [rule_format, of 0 st] show ?thesis
      by (auto simp: drive_def split: option.split prod.split sum.split)
  qed
qed
subsection \<open>A run that parks once\<close>


definition park_once :: park_env where
  "park_once = \<lparr>pk_formats = sample_ext, pk_world = (\<lambda>_. sample_world), pk_options = (\<lambda>_. run_options_default),
     pk_event = (\<lambda>n. Some (if n = 0 then JobOutcome (JBool True) else Cancelled 5))\<rparr>"



theorem drive_returns_witness:
  "drive park_once (workflow_new registry_new (sample_schema [(''a'', [])])) (FreshStart JNull) \<noteq> None"
proof -
  let ?w = "workflow_new registry_new (sample_schema [(''a'', [])])"
  have step: "walk_step sample_world ?w run_options_default s i = Return (Inl (no_node_message i), ws_snaps s)" for s i
    by (simp add: walk_step_def registry_get_def workflow_new_def registry_new_def run_options_default_def
        flag_raised_def Let_def ledger_check_def)
  have walk: "walk_from sample_world ?w run_options_default c i l \<noteq> None" for c i l
    unfolding walk_from_def by (subst walk.simps) (simp add: step split: option.split)
  show ?thesis
    using drive_returns [of park_once 1 5 ?w "FreshStart JNull"] walk
    by (simp add: park_once_def run_with_def run_from_def Let_def split: option.split)
qed

end
