(* ===== verification/HeavyWork.thy ===== *)
theory HeavyWork
  imports Contract "HOL-Library.Product_Lexorder"
begin

text \<open>
  The heavy-work queue (\<open>engine-core/src/coord/heavy_work.rs\<close>) and the lookup of a parked job's outcome
  (\<open>engine-serve/src/suspend.rs\<close>).

  A \<open>job_dir\<close> is the directory of job files in the order it is listed; a file that does not parse is
  \<open>None\<close>. Reading a file and replacing it, which is a rename, are each one step of the file system, and nothing
  but the admission lock holds another process back in between. So an operation on a job file is a read, a function
  from the record that was read to the one that is written, and a write. The definitions named after the functions
  of the source put these together for the case that nothing comes in between; the steps in which processes really
  take turns are at the end of the theory. The failure of a write is an argument, as are
  which processes are alive, the free memory and the clock. When the admission lock cannot be taken or
  the directory cannot be listed an attempt fails before it changes anything, which is no step here.
  TOML parsing is not in the repository, so a configuration starts from the parsed table.
\<close>

subsection \<open>Jobs\<close>

datatype job_state = Queued | JobRunning | Done | JobCancelled | Abandoned

fun job_state_str :: "job_state \<Rightarrow> string" where
  "job_state_str Queued = ''queued''"
| "job_state_str JobRunning = ''running''"
| "job_state_str Done = ''done''"
| "job_state_str JobCancelled = ''cancelled''"
| "job_state_str Abandoned = ''abandoned''"

record heavy_job =
  hj_id :: uuid
  hj_class :: string
  hj_state :: job_state
  hj_repo :: string
  hj_cwd :: string
  hj_commands :: "string list"
  hj_run_id :: "uuid option"
  hj_holder_pid :: "u32 option"
  hj_enqueued_at :: timestamp
  hj_admitted_at :: "timestamp option"
  hj_heartbeat_at :: "timestamp option"
  hj_finished_at :: "timestamp option"
  hj_passed :: "bool option"
  hj_check_results :: "json option"

record job_result =
  jr_passed :: bool
  jr_check_results :: json

type_synonym job_dir = "(uuid \<times> heavy_job option) list"

datatype store_error = StoreIo | StoreDeserialize

definition read_job :: "job_dir \<Rightarrow> uuid \<Rightarrow> store_error + heavy_job" where
  "read_job D j =
     (case map_of D j of
        None \<Rightarrow> Inl StoreIo
      | Some None \<Rightarrow> Inl StoreDeserialize
      | Some (Some job) \<Rightarrow> Inr job)"

definition write_job :: "(uuid \<Rightarrow> bool) \<Rightarrow> heavy_job \<Rightarrow> job_dir \<Rightarrow> (store_error + unit) \<times> job_dir" where
  "write_job ok job D =
     (if ok (hj_id job) then (Inr (), AList.update (hj_id job) (Some job) D) else (Inl StoreIo, D))"

subsection \<open>Configuration\<close>

record class_limit =
  cl_limit :: nat
  cl_min_free_mb :: u64

record heavy_config =
  hc_enabled :: bool
  hc_heartbeat_interval_secs :: u64
  hc_stale_after_secs :: u64
  hc_poll_interval_ms :: u64
  hc_classes :: "class_limit hmap"

record raw_heavy_work =
  rw_heartbeat_interval_secs :: "u64 option"
  rw_stale_after_secs :: "u64 option"
  rw_poll_interval_ms :: "u64 option"
  rw_classes :: "class_limit hmap"

datatype heavy_config_error = ConfigRead | ConfigParse | InvalidClassLimit string nat

definition default_heartbeat_interval_secs :: u64 where "default_heartbeat_interval_secs = 30"
definition default_stale_after_secs :: u64 where "default_stale_after_secs = 300"
definition default_poll_interval_ms :: u64 where "default_poll_interval_ms = 50"

definition heavy_config_disabled :: heavy_config where
  "heavy_config_disabled = \<lparr>hc_enabled = False, hc_heartbeat_interval_secs = 0, hc_stale_after_secs = 0,
     hc_poll_interval_ms = 0, hc_classes = []\<rparr>"

definition config_class :: "heavy_config \<Rightarrow> string \<Rightarrow> class_limit option" where
  "config_class C c = map_of (hc_classes C) c"

fun parse_classes :: "class_limit hmap \<Rightarrow> class_limit hmap \<Rightarrow> heavy_config_error + class_limit hmap" where
  "parse_classes [] acc = Inr acc"
| "parse_classes ((name, l) # rest) acc =
     (if cl_limit l < 1 then Inl (InvalidClassLimit (''heavy_work.classes.'' @ name @ ''.limit'') (cl_limit l))
      else parse_classes rest (AList.update name l acc))"

definition heavy_config_parse ::
  "(string \<Rightarrow> raw_heavy_work option option) \<Rightarrow> string \<Rightarrow> heavy_config_error + heavy_config" where
  "heavy_config_parse toml text =
     (case toml text of
        None \<Rightarrow> Inl ConfigParse
      | Some None \<Rightarrow> Inr heavy_config_disabled
      | Some (Some raw) \<Rightarrow>
          (case parse_classes (rw_classes raw) [] of
             Inl e \<Rightarrow> Inl e
           | Inr classes \<Rightarrow> Inr \<lparr>hc_enabled = True,
               hc_heartbeat_interval_secs = (case rw_heartbeat_interval_secs raw of
                 Some n \<Rightarrow> n | None \<Rightarrow> default_heartbeat_interval_secs),
               hc_stale_after_secs = (case rw_stale_after_secs raw of Some n \<Rightarrow> n | None \<Rightarrow> default_stale_after_secs),
               hc_poll_interval_ms = (case rw_poll_interval_ms raw of Some n \<Rightarrow> n | None \<Rightarrow> default_poll_interval_ms),
               hc_classes = classes\<rparr>))"

definition heavy_config_load ::
  "(string \<Rightarrow> raw_heavy_work option option) \<Rightarrow> string option \<Rightarrow> heavy_config_error + heavy_config" where
  "heavy_config_load toml content =
     (case content of None \<Rightarrow> Inl ConfigRead | Some text \<Rightarrow> heavy_config_parse toml text)"

subsection \<open>Admission order and reclaim\<close>

definition fifo_key :: "heavy_job \<Rightarrow> timestamp \<times> uuid" where
  "fifo_key job = (hj_enqueued_at job, hj_id job)"

text \<open>\<open>Duration::num_seconds\<close> truncates towards zero.\<close>

definition num_seconds :: "int \<Rightarrow> int" where
  "num_seconds d = (if 0 \<le> d then d div 10 ^ 9 else - ((- d) div 10 ^ 9))"

definition is_pid_running :: "(u32 \<Rightarrow> bool) \<Rightarrow> u32 \<Rightarrow> bool" where
  "is_pid_running alive pid \<longleftrightarrow> pid \<noteq> 0 \<and> alive pid"

definition is_reclaimable ::
  "(u32 \<Rightarrow> bool) \<Rightarrow> u32 option \<Rightarrow> timestamp option \<Rightarrow> u64 \<Rightarrow> timestamp \<Rightarrow> bool" where
  "is_reclaimable alive holder_pid heartbeat_at stale_after_secs now =
     (if \<not> (case holder_pid of Some p \<Rightarrow> is_pid_running alive p | None \<Rightarrow> False) then True
      else case heartbeat_at of
             Some heartbeat \<Rightarrow>
               (let age_secs = num_seconds (now - heartbeat)
                in age_secs < 0 \<or> age_secs > uint stale_after_secs)
           | None \<Rightarrow> False)"

subsection \<open>The admission lock\<close>

text \<open>
  The lock is a directory, made when nothing has that name; \<open>lk_made\<close> is when it was made. Between finding
  it too old and removing it a process can be overtaken, so these are two steps. A process that crashes
  leaves the directory.
\<close>

definition admission_lock_stale_after :: int where
  "admission_lock_stale_after = 30 * 10 ^ 9"

datatype lock_phase = Outside | Acquiring | FoundStale | Holding

record lock_world =
  lk_made :: "timestamp option"
  lk_phase :: "u32 \<Rightarrow> lock_phase"

datatype lock_event = LockAsked | LockMade | LockStale | LockBroken | LockDropped | LockCrash

definition lock_step :: "timestamp \<Rightarrow> u32 \<Rightarrow> lock_event \<Rightarrow> lock_world \<Rightarrow> lock_world option" where
  "lock_step now p e W =
     (case e of
        LockAsked \<Rightarrow> if lk_phase W p = Outside then Some (W\<lparr>lk_phase := (lk_phase W)(p := Acquiring)\<rparr>) else None
      | LockMade \<Rightarrow>
          if lk_phase W p = Acquiring \<and> lk_made W = None
          then Some (W\<lparr>lk_made := Some now, lk_phase := (lk_phase W)(p := Holding)\<rparr>) else None
      | LockStale \<Rightarrow>
          (case lk_made W of
             Some made \<Rightarrow>
               if lk_phase W p = Acquiring \<and> now - made > admission_lock_stale_after
               then Some (W\<lparr>lk_phase := (lk_phase W)(p := FoundStale)\<rparr>) else None
           | None \<Rightarrow> None)
      | LockBroken \<Rightarrow>
          if lk_phase W p = FoundStale
          then Some (W\<lparr>lk_made := None, lk_phase := (lk_phase W)(p := Acquiring)\<rparr>) else None
      | LockDropped \<Rightarrow>
          if lk_phase W p = Holding
          then Some (W\<lparr>lk_made := None, lk_phase := (lk_phase W)(p := Outside)\<rparr>) else None
      | LockCrash \<Rightarrow> Some (W\<lparr>lk_phase := (lk_phase W)(p := Outside)\<rparr>))"

fun lock_run :: "(timestamp \<times> u32 \<times> lock_event) list \<Rightarrow> lock_world \<Rightarrow> lock_world option" where
  "lock_run [] W = Some W"
| "lock_run ((now, p, e) # es) W =
     (case lock_step now p e W of None \<Rightarrow> None | Some W' \<Rightarrow> lock_run es W')"

definition lock_free :: lock_world where
  "lock_free = \<lparr>lk_made = None, lk_phase = (\<lambda>_. Outside)\<rparr>"

subsection \<open>Submitting\<close>

datatype heavy_mode = ModeDisabled | ModeEnabled

record heavy_spec =
  hs_class :: string
  hs_repo :: string
  hs_cwd :: string
  hs_commands :: "string list"
  hs_run_id :: "uuid option"

definition queued_job :: "timestamp \<Rightarrow> uuid \<Rightarrow> heavy_spec \<Rightarrow> heavy_job" where
  "queued_job now j spec = \<lparr>hj_id = j, hj_class = hs_class spec, hj_state = Queued, hj_repo = hs_repo spec,
     hj_cwd = hs_cwd spec, hj_commands = hs_commands spec, hj_run_id = hs_run_id spec, hj_holder_pid = None,
     hj_enqueued_at = now, hj_admitted_at = None, hj_heartbeat_at = None, hj_finished_at = None,
     hj_passed = None, hj_check_results = None\<rparr>"

definition enqueue_with_id ::
  "(uuid \<Rightarrow> bool) \<Rightarrow> timestamp \<Rightarrow> uuid \<Rightarrow> heavy_spec \<Rightarrow> job_dir \<Rightarrow> (store_error + heavy_job) \<times> job_dir" where
  "enqueue_with_id ok now j spec D =
     (case write_job ok (queued_job now j spec) D of
        (Inl e, D') \<Rightarrow> (Inl e, D')
      | (Inr _, D') \<Rightarrow> (Inr (queued_job now j spec), D'))"

text \<open>The fork of \<open>run_to_completion_with_id\<close>: work that runs inline, or a job that waits for admission.\<close>

datatype submission = RunInline heavy_mode | WaitForAdmission heavy_job class_limit

definition submit_with_id ::
  "heavy_config \<Rightarrow> (uuid \<Rightarrow> bool) \<Rightarrow> timestamp \<Rightarrow> uuid \<Rightarrow> heavy_spec \<Rightarrow> job_dir \<Rightarrow> submission \<times> job_dir" where
  "submit_with_id C ok now j spec D =
     (if \<not> hc_enabled C then (RunInline ModeDisabled, D)
      else case config_class C (hs_class spec) of
        None \<Rightarrow> (RunInline ModeEnabled, D)
      | Some l \<Rightarrow>
          (case enqueue_with_id ok now j spec D of
             (Inr job, D') \<Rightarrow> (WaitForAdmission job l, D')
           | (Inl _, D') \<Rightarrow> (RunInline ModeEnabled, D')))"

record heavy_outcome =
  ho_mode :: heavy_mode
  ho_job_id :: "uuid option"
  ho_class :: string
  ho_waited_ms :: u64
  ho_degraded :: bool

definition inline_outcome :: "heavy_mode \<Rightarrow> heavy_spec \<Rightarrow> heavy_outcome" where
  "inline_outcome m spec = \<lparr>ho_mode = m, ho_job_id = None, ho_class = hs_class spec, ho_waited_ms = 0,
     ho_degraded = (m = ModeEnabled)\<rparr>"

definition admitted_outcome :: "heavy_job \<Rightarrow> timestamp \<Rightarrow> heavy_outcome" where
  "admitted_outcome job admitted_at = \<lparr>ho_mode = ModeEnabled, ho_job_id = Some (hj_id job), ho_class = hj_class job,
     ho_waited_ms = of_int (max 0 ((admitted_at - hj_enqueued_at job) div 10 ^ 6)), ho_degraded = False\<rparr>"

subsection \<open>Admission\<close>

text \<open>What the scan makes of one job: in the queue, running and alive, lapsed, or none of its business.\<close>

datatype scan_note = NoteQueued | NoteLive | NoteLapsed | NotePassed

definition note_job :: "(u32 \<Rightarrow> bool) \<Rightarrow> u64 \<Rightarrow> timestamp \<Rightarrow> string \<Rightarrow> heavy_job \<Rightarrow> scan_note" where
  "note_job alive stale now c job =
     (if hj_class job \<noteq> c then NotePassed
      else case hj_state job of
             Queued \<Rightarrow> NoteQueued
           | JobRunning \<Rightarrow>
               if is_reclaimable alive (hj_holder_pid job) (hj_heartbeat_at job) stale now then NoteLapsed else NoteLive
           | _ \<Rightarrow> NotePassed)"

definition abandoned_job :: "timestamp \<Rightarrow> heavy_job \<Rightarrow> heavy_job" where
  "abandoned_job now job = job\<lparr>hj_state := Abandoned, hj_finished_at := Some now\<rparr>"

fun scan_jobs ::
  "(uuid \<Rightarrow> bool) \<Rightarrow> (u32 \<Rightarrow> bool) \<Rightarrow> u64 \<Rightarrow> timestamp \<Rightarrow> string \<Rightarrow> uuid list \<Rightarrow> heavy_job list \<Rightarrow> nat \<Rightarrow> job_dir \<Rightarrow>
   (store_error + heavy_job list \<times> nat) \<times> job_dir" where
  "scan_jobs ok alive stale now c [] queued live D = (Inr (queued, live), D)"
| "scan_jobs ok alive stale now c (j # js) queued live D =
     (case read_job D j of
        Inl _ \<Rightarrow> scan_jobs ok alive stale now c js queued live D
      | Inr job \<Rightarrow>
          (case note_job alive stale now c job of
             NoteQueued \<Rightarrow> scan_jobs ok alive stale now c js (queued @ [job]) live D
           | NoteLive \<Rightarrow> scan_jobs ok alive stale now c js queued (Suc live) D
           | NoteLapsed \<Rightarrow>
               (case write_job ok (abandoned_job now job) D of
                  (Inl e, D') \<Rightarrow> (Inl e, D')
                | (Inr _, D') \<Rightarrow> scan_jobs ok alive stale now c js queued live D')
           | NotePassed \<Rightarrow> scan_jobs ok alive stale now c js queued live D))"

text \<open>The decision after the scan, and the record an admitted job is replaced by.\<close>

definition admits :: "class_limit \<Rightarrow> u64 \<Rightarrow> uuid \<Rightarrow> heavy_job list \<Rightarrow> nat \<Rightarrow> bool" where
  "admits limit free j queued live \<longleftrightarrow>
     (let is_head = (case sort_key fifo_key queued of job # _ \<Rightarrow> hj_id job = j | [] \<Rightarrow> False)
      in \<not> (\<not> is_head \<or> live \<ge> cl_limit limit \<or> free < cl_min_free_mb limit))"

definition admitted_job :: "timestamp \<Rightarrow> u32 \<Rightarrow> heavy_job \<Rightarrow> heavy_job" where
  "admitted_job now pid job = job\<lparr>hj_state := JobRunning, hj_admitted_at := Some now,
     hj_heartbeat_at := Some now, hj_holder_pid := Some pid\<rparr>"

definition try_admit ::
  "(uuid \<Rightarrow> bool) \<Rightarrow> (u32 \<Rightarrow> bool) \<Rightarrow> u32 \<Rightarrow> u64 \<Rightarrow> u64 \<Rightarrow> timestamp \<Rightarrow> string \<Rightarrow> class_limit \<Rightarrow> uuid \<Rightarrow> job_dir \<Rightarrow>
   (store_error + timestamp option) \<times> job_dir" where
  "try_admit ok alive pid free stale now c limit j D =
     (case scan_jobs ok alive stale now c (map fst D) [] 0 D of
        (Inl e, D1) \<Rightarrow> (Inl e, D1)
      | (Inr (queued, live), D1) \<Rightarrow>
          if \<not> admits limit free j queued live then (Inr None, D1)
          else (case read_job D1 j of
             Inl e \<Rightarrow> (Inl e, D1)
           | Inr job \<Rightarrow>
               (case write_job ok (admitted_job now pid job) D1 of
                  (Inl e, D2) \<Rightarrow> (Inl e, D2)
                | (Inr _, D2) \<Rightarrow> (Inr (Some now), D2))))"

subsection \<open>Running and ending\<close>

text \<open>A read, the record to write if there is one, and the write, with nothing in between; failures are ignored.\<close>

definition rewrite_job :: "(uuid \<Rightarrow> bool) \<Rightarrow> uuid \<Rightarrow> (heavy_job \<Rightarrow> heavy_job option) \<Rightarrow> job_dir \<Rightarrow> job_dir" where
  "rewrite_job ok j f D =
     (case read_job D j of
        Inl _ \<Rightarrow> D
      | Inr job \<Rightarrow> (case f job of None \<Rightarrow> D | Some job' \<Rightarrow> snd (write_job ok job' D)))"

definition beaten_job :: "timestamp \<Rightarrow> heavy_job \<Rightarrow> heavy_job option" where
  "beaten_job now job = (if hj_state job = JobRunning then Some (job\<lparr>hj_heartbeat_at := Some now\<rparr>) else None)"

definition heartbeat_tick :: "(uuid \<Rightarrow> bool) \<Rightarrow> timestamp \<Rightarrow> uuid \<Rightarrow> job_dir \<Rightarrow> job_dir" where
  "heartbeat_tick ok now j = rewrite_job ok j (beaten_job now)"

definition ended_job :: "timestamp \<Rightarrow> job_state \<Rightarrow> job_result option \<Rightarrow> heavy_job \<Rightarrow> heavy_job" where
  "ended_job now st result job =
     (let job1 = job\<lparr>hj_state := st, hj_finished_at := Some now\<rparr>
      in case result of
           Some r \<Rightarrow> job1\<lparr>hj_passed := Some (jr_passed r), hj_check_results := Some (jr_check_results r)\<rparr>
         | None \<Rightarrow> job1)"

definition finish_job :: "(uuid \<Rightarrow> bool) \<Rightarrow> timestamp \<Rightarrow> uuid \<Rightarrow> job_state \<Rightarrow> job_result option \<Rightarrow> job_dir \<Rightarrow> job_dir" where
  "finish_job ok now j st result = rewrite_job ok j (\<lambda>job. Some (ended_job now st result job))"

text \<open>The end of admitted work: \<open>None\<close> is a panic of the work.\<close>

definition end_work ::
  "(uuid \<Rightarrow> bool) \<Rightarrow> timestamp \<Rightarrow> uuid \<Rightarrow> 'o option \<Rightarrow> ('o \<Rightarrow> job_result) option \<Rightarrow> job_dir \<Rightarrow> job_dir" where
  "end_work ok now j outp to_result D =
     finish_job ok now j (if outp \<noteq> None then Done else Abandoned)
       (case (outp, to_result) of (Some x, Some extract) \<Rightarrow> Some (extract x) | _ \<Rightarrow> None) D"

subsection \<open>The lookup of a parked job\<close>

definition withdrawn_job :: "timestamp \<Rightarrow> heavy_job \<Rightarrow> heavy_job option" where
  "withdrawn_job now job =
     (if hj_state job = Queued then Some (job\<lparr>hj_state := JobCancelled, hj_finished_at := Some now\<rparr>) else None)"

definition cancel_if_queued :: "(uuid \<Rightarrow> bool) \<Rightarrow> timestamp \<Rightarrow> uuid \<Rightarrow> job_dir \<Rightarrow> job_dir" where
  "cancel_if_queued ok now j = rewrite_job ok j (withdrawn_job now)"

text \<open>One poll of \<open>await_outcome\<close>: nothing while the job is not finished.\<close>

definition await_outcome :: "ext \<Rightarrow> job_dir \<Rightarrow> uuid \<Rightarrow> json option" where
  "await_outcome X D j =
     (case read_job D j of
        Inl _ \<Rightarrow> None
      | Inr job \<Rightarrow>
          if hj_state job \<in> {Done, JobCancelled, Abandoned} then
            (let all_passed = (case hj_passed job of Some b \<Rightarrow> b | None \<Rightarrow> False);
                 check_results = (case hj_check_results job of Some v \<Rightarrow> v | None \<Rightarrow> JArr [])
             in Some (JObj [(''all_passed'', JBool all_passed), (''check_results'', check_results),
                  (''failure_summary'', JStr (if all_passed then [] else ''heavy-work job did not report success'')),
                  (''test_depth'', JNull), (''check_source'', JNull), (''excluded_checks'', JArr []),
                  (''heavy_work'', JObj [(''mode'', JStr ''enabled''), (''job_id'', JStr (uuid_str X j)),
                     (''state'', JStr (job_state_str (hj_state job)))])]))
          else None)"

subsection \<open>Processes taking turns\<close>

text \<open>
  An admission attempt under way: what is left of the listing and what was noted so far, a lapsed job that was read
  and is about to be abandoned, or a decision to admit, before and after the job's own file is read again.
\<close>

datatype attempt_phase =
    Scanning "uuid list" "heavy_job list" nat
  | Sweeping heavy_job "uuid list" "heavy_job list" nat
  | Admitting "heavy_job option"

record attempt =
  at_job :: uuid
  at_class :: string
  at_limit :: class_limit
  at_now :: timestamp
  at_phase :: attempt_phase

text \<open>
  Every step says whether it is \<open>Calm\<close>. It is not if an attempt starts while another is under way, or if a file is
  overwritten that is no longer what the writer had read.
\<close>

datatype heavy_event = Calm | AttemptOverlaps | StaleWrite

definition written_over :: "job_dir \<Rightarrow> heavy_job \<Rightarrow> heavy_event" where
  "written_over D old = (if map_of D (hj_id old) = Some (Some old) then Calm else StaleWrite)"

definition noted :: "(u32 \<Rightarrow> bool) \<Rightarrow> u64 \<Rightarrow> attempt \<Rightarrow> uuid list \<Rightarrow> heavy_job list \<Rightarrow> nat \<Rightarrow> store_error + heavy_job \<Rightarrow> attempt_phase" where
  "noted alive stale a ks queued live r =
     (case r of
        Inl _ \<Rightarrow> Scanning ks queued live
      | Inr job \<Rightarrow>
          (case note_job alive stale (at_now a) (at_class a) job of
             NoteQueued \<Rightarrow> Scanning ks (queued @ [job]) live
           | NoteLive \<Rightarrow> Scanning ks queued (Suc live)
           | NoteLapsed \<Rightarrow> Sweeping job ks queued live
           | NotePassed \<Rightarrow> Scanning ks queued live))"

text \<open>One read or write of an attempt, with what is left of it and whether it admitted its job.\<close>

definition attempt_step ::
  "(uuid \<Rightarrow> bool) \<Rightarrow> (u32 \<Rightarrow> bool) \<Rightarrow> u32 \<Rightarrow> u64 \<Rightarrow> u64 \<Rightarrow> attempt \<Rightarrow> job_dir \<Rightarrow>
   heavy_event \<times> job_dir \<times> attempt option \<times> bool" where
  "attempt_step ok alive pid free stale a D =
     (case at_phase a of
        Scanning (k # ks) queued live \<Rightarrow>
          (Calm, D, Some (a\<lparr>at_phase := noted alive stale a ks queued live (read_job D k)\<rparr>), False)
      | Scanning [] queued live \<Rightarrow>
          (Calm, D, if admits (at_limit a) free (at_job a) queued live then Some (a\<lparr>at_phase := Admitting None\<rparr>) else None, False)
      | Sweeping job ks queued live \<Rightarrow>
          (case write_job ok (abandoned_job (at_now a) job) D of
             (Inl _, D') \<Rightarrow> (Calm, D', None, False)
           | (Inr _, D') \<Rightarrow> (written_over D job, D', Some (a\<lparr>at_phase := Scanning ks queued live\<rparr>), False))
      | Admitting None \<Rightarrow>
          (Calm, D, case read_job D (at_job a) of
             Inl _ \<Rightarrow> None | Inr job \<Rightarrow> Some (a\<lparr>at_phase := Admitting (Some job)\<rparr>), False)
      | Admitting (Some job) \<Rightarrow>
          (case write_job ok (admitted_job (at_now a) pid job) D of
             (Inl _, D') \<Rightarrow> (Calm, D', None, False)
           | (Inr _, D') \<Rightarrow> (written_over D job, D', None, True)))"

text \<open>
  The tasks of all processes over one directory: those that wait for admission with the class they wait in, those
  whose work runs, the attempts under way, and the writes of heartbeats, ends and cancellations that have read their
  file, each with what was read and what will be written.
\<close>

record heavy_world =
  hw_dir :: job_dir
  hw_waiters :: "(uuid \<times> string) list"
  hw_workers :: "uuid list"
  hw_attempts :: "attempt list"
  hw_writes :: "(heavy_job \<times> heavy_job) list"

definition heavy_world_empty :: heavy_world where
  "heavy_world_empty = \<lparr>hw_dir = [], hw_waiters = [], hw_workers = [], hw_attempts = [], hw_writes = []\<rparr>"

definition drop_nth :: "nat \<Rightarrow> 'a list \<Rightarrow> 'a list" where
  "drop_nth i xs = take i xs @ drop (Suc i) xs"

text \<open>A heartbeat, an end or a cancellation reads its file; nothing is to be written when the file does not parse.\<close>

definition read_to_write :: "uuid \<Rightarrow> (heavy_job \<Rightarrow> heavy_job option) \<Rightarrow> heavy_world \<Rightarrow> heavy_world" where
  "read_to_write j f K =
     (case read_job (hw_dir K) j of
        Inl _ \<Rightarrow> K
      | Inr job \<Rightarrow> (case f job of None \<Rightarrow> K | Some job' \<Rightarrow> K\<lparr>hw_writes := hw_writes K @ [(job, job')]\<rparr>))"

text \<open>
  The turns: a submission, the start of an attempt with the listing of the directory, the next read or write of the
  \<open>i\<close>-th attempt, the reads of a heartbeat, of an end and of a cancellation, the \<open>i\<close>-th write that is due, and a crash,
  which takes any tasks away and leaves the files.
\<close>

datatype heavy_move =
    Submit uuid timestamp heavy_spec bool
  | Start uuid string timestamp "uuid list"
  | Advance nat bool "u32 \<Rightarrow> bool" u32 u64
  | ReadBeat uuid timestamp
  | ReadEnd uuid timestamp bool "job_result option"
  | ReadCancel uuid timestamp
  | Write nat bool
  | CrashTo "(uuid \<times> string) list" "uuid list" "attempt list" "(heavy_job \<times> heavy_job) list"

fun heavy_step :: "heavy_config \<Rightarrow> heavy_move \<Rightarrow> heavy_world \<Rightarrow> (heavy_event \<times> heavy_world) option" where
  "heavy_step C (Submit j now spec ok) K =
     (if map_of (hw_dir K) j \<noteq> None then None
      else case submit_with_id C (\<lambda>_. ok) now j spec (hw_dir K) of
        (WaitForAdmission job l, D) \<Rightarrow> Some (Calm, K\<lparr>hw_dir := D, hw_waiters := (j, hs_class spec) # hw_waiters K\<rparr>)
      | (RunInline m, D) \<Rightarrow> Some (Calm, K\<lparr>hw_dir := D\<rparr>))"
| "heavy_step C (Start j c now js) K =
     (case config_class C c of
        None \<Rightarrow> None
      | Some l \<Rightarrow>
          if (j, c) \<in> set (hw_waiters K) \<and> distinct js \<and> set js = fst ` set (hw_dir K)
          then Some (if hw_attempts K = [] then Calm else AttemptOverlaps, K\<lparr>hw_attempts := hw_attempts K @
            [\<lparr>at_job = j, at_class = c, at_limit = l, at_now = now, at_phase = Scanning js [] 0\<rparr>]\<rparr>)
          else None)"
| "heavy_step C (Advance i ok alive pid free) K =
     (if i \<ge> length (hw_attempts K) then None
      else let a = hw_attempts K ! i
           in case attempt_step (\<lambda>_. ok) alive pid free (hc_stale_after_secs C) a (hw_dir K) of
                (e, D, Some a', _) \<Rightarrow> Some (e, K\<lparr>hw_dir := D, hw_attempts := (hw_attempts K)[i := a']\<rparr>)
              | (e, D, None, False) \<Rightarrow> Some (e, K\<lparr>hw_dir := D, hw_attempts := drop_nth i (hw_attempts K)\<rparr>)
              | (e, D, None, True) \<Rightarrow> Some (e, K\<lparr>hw_dir := D, hw_attempts := drop_nth i (hw_attempts K),
                  hw_waiters := removeAll (at_job a, at_class a) (hw_waiters K), hw_workers := at_job a # hw_workers K\<rparr>))"
| "heavy_step C (ReadBeat j now) K =
     (if j \<in> set (hw_workers K) then Some (Calm, read_to_write j (beaten_job now) K) else None)"
| "heavy_step C (ReadEnd j now finished result) K =
     (if j \<in> set (hw_workers K)
      then Some (Calm, (read_to_write j (\<lambda>job. Some (ended_job now (if finished then Done else Abandoned) result job)) K)
             \<lparr>hw_workers := removeAll j (hw_workers K)\<rparr>)
      else None)"
| "heavy_step C (ReadCancel j now) K = Some (Calm, read_to_write j (withdrawn_job now) K)"
| "heavy_step C (Write i ok) K =
     (if i \<ge> length (hw_writes K) then None
      else case hw_writes K ! i of
        (old, new) \<Rightarrow>
          (case write_job (\<lambda>_. ok) new (hw_dir K) of
             (Inl _, D) \<Rightarrow> Some (Calm, K\<lparr>hw_dir := D, hw_writes := drop_nth i (hw_writes K)\<rparr>)
           | (Inr _, D) \<Rightarrow>
               Some (written_over (hw_dir K) old, K\<lparr>hw_dir := D, hw_writes := drop_nth i (hw_writes K)\<rparr>)))"
| "heavy_step C (CrashTo W R A P) K =
     (if set W \<subseteq> set (hw_waiters K) \<and> set R \<subseteq> set (hw_workers K) \<and> length A \<le> length (hw_attempts K) \<and>
         set A \<subseteq> set (hw_attempts K) \<and> set P \<subseteq> set (hw_writes K)
      then Some (Calm, K\<lparr>hw_waiters := W, hw_workers := R, hw_attempts := A, hw_writes := P\<rparr>) else None)"

text \<open>A run of turns, with the events of its steps.\<close>

fun heavy_run :: "heavy_config \<Rightarrow> heavy_move list \<Rightarrow> heavy_world \<Rightarrow> (heavy_event list \<times> heavy_world) option" where
  "heavy_run C [] K = Some ([], K)"
| "heavy_run C (m # ms) K =
     (case heavy_step C m K of
        None \<Rightarrow> None
      | Some (e, K1) \<Rightarrow> (case heavy_run C ms K1 of None \<Rightarrow> None | Some (es, K2) \<Rightarrow> Some (e # es, K2)))"

end
