(* ===== verification/Sweep.thy ===== *)
theory Sweep
  imports LiveLaws Durable QueuePark HeavyWork
begin

text \<open>
  The sweeps over runs nobody drives any more (\<open>engine-serve/src/orphan.rs\<close>) and their policy
  (\<open>operator/orphan.rs\<close>): the boot sweep, which stamps runs the previous process left behind as failed,
  and the alarm for runs without progress. The time a stamp reads and whether a statement of the
  database succeeds are arguments.
\<close>

subsection \<open>Policy\<close>

record orphan_policy =
  reconcile_on_boot :: bool
  stale_run_alarm_secs :: u64
  orphan_item_priority :: int
  orphan_scan_limit :: int

record partial_orphan_policy =
  p_reconcile_on_boot :: "bool option"
  p_stale_run_alarm_secs :: "u64 option"
  p_orphan_item_priority :: "int option"
  p_orphan_scan_limit :: "int option"

definition observed_per_block_max_secs :: u64 where
  "observed_per_block_max_secs = 2640"

definition stale_alarm_secs_for :: "u64 \<Rightarrow> u64" where
  "stale_alarm_secs_for margin_pct = observed_per_block_max_secs * margin_pct div 100"

definition orphan_policy_default :: orphan_policy where
  "orphan_policy_default = \<lparr>reconcile_on_boot = True, stale_run_alarm_secs = stale_alarm_secs_for 200,
     orphan_item_priority = 0, orphan_scan_limit = 200\<rparr>"

definition orphan_policy_apply :: "orphan_policy \<Rightarrow> partial_orphan_policy \<Rightarrow> orphan_policy" where
  "orphan_policy_apply p over =
     \<lparr>reconcile_on_boot = merge_opt (reconcile_on_boot p) (p_reconcile_on_boot over),
      stale_run_alarm_secs = merge_opt (stale_run_alarm_secs p) (p_stale_run_alarm_secs over),
      orphan_item_priority = merge_opt (orphan_item_priority p) (p_orphan_item_priority over),
      orphan_scan_limit = merge_opt (orphan_scan_limit p) (p_orphan_scan_limit over)\<rparr>"

lemmas orphan_apply_simps = orphan_policy_apply_def merge_opt_def

interpretation orphan_reconcile: policy_knob orphan_policy_apply reconcile_on_boot p_reconcile_on_boot
  by unfold_locales (simp add: orphan_apply_simps)

interpretation orphan_alarm: policy_knob orphan_policy_apply stale_run_alarm_secs p_stale_run_alarm_secs
  by unfold_locales (simp add: orphan_apply_simps)

interpretation orphan_limit: policy_knob orphan_policy_apply orphan_scan_limit p_orphan_scan_limit
  by unfold_locales (simp add: orphan_apply_simps)

definition orphan_baseline :: partial_orphan_policy where
  "orphan_baseline = \<lparr>p_reconcile_on_boot = Some True, p_stale_run_alarm_secs = Some (stale_alarm_secs_for 200),
     p_orphan_item_priority = Some 0, p_orphan_scan_limit = Some 200\<rparr>"

definition orphan_cheap_fast :: partial_orphan_policy where
  "orphan_cheap_fast = \<lparr>p_reconcile_on_boot = Some True, p_stale_run_alarm_secs = Some (stale_alarm_secs_for 125),
     p_orphan_item_priority = Some (- 5), p_orphan_scan_limit = Some 100\<rparr>"

definition orphan_thorough :: partial_orphan_policy where
  "orphan_thorough = \<lparr>p_reconcile_on_boot = Some True, p_stale_run_alarm_secs = Some (stale_alarm_secs_for 300),
     p_orphan_item_priority = Some 5, p_orphan_scan_limit = Some 500\<rparr>"

definition orphan_profile_by_name :: "string \<Rightarrow> partial_orphan_policy option" where
  "orphan_profile_by_name n =
     (if n = ''baseline'' then Some orphan_baseline
      else if n = ''cheap-fast'' then Some orphan_cheap_fast
      else if n = ''thorough'' then Some orphan_thorough else None)"

definition orphan_policy_for_run ::
  "policy_ext \<Rightarrow> (json \<Rightarrow> partial_orphan_policy option) \<Rightarrow> policy_config_source \<Rightarrow>
   string option \<Rightarrow> partial_orphan_policy option \<Rightarrow> policy_error + orphan_policy" where
  "orphan_policy_for_run =
     resolve_policy_for_run orphan_policy_apply orphan_policy_default ''orphan_recovery'' orphan_profile_by_name"

subsection \<open>The boot sweep\<close>

definition stuck_node_name :: "task_context \<Rightarrow> string option" where
  "stuck_node_name ctx =
     (case sort (map fst (filter (\<lambda>(_, run). nr_status run = Running) (node_runs ctx))) of
        [] \<Rightarrow> None | n # _ \<Rightarrow> Some n)"

definition orphan_reason :: "ext \<Rightarrow> events_row \<Rightarrow> string" where
  "orphan_reason X row =
     ''run '' @ uuid_str X (er_id row) @ '' was found non-terminal with no completion marker at boot; presumed crashed''
     @ (case stuck_node_name (er_task_context row) of
          Some node \<Rightarrow> '' on node '' @ node
        | None \<Rightarrow> '' (no in-flight node recorded)'')"

definition reconciled_row :: "ext \<Rightarrow> timestamp \<Rightarrow> timestamp \<Rightarrow> events_row \<Rightarrow> events_row" where
  "reconciled_row X now stamp row = row\<lparr>
     er_task_context := (er_task_context row)\<lparr>metadata :=
       stamp_completion X stamp ''failed'' (stamp_failure (orphan_reason X row) (metadata (er_task_context row)))\<rparr>,
     er_updated_at := now\<rparr>"

datatype sweep_error = ListFailed | PersistFailed uuid

record reconcile_summary =
  rc_scanned :: nat
  rc_reconciled :: "uuid list"

record swept =
  sw_db :: database
  sw_live :: live_store

text \<open>
  The loop over the candidates. \<open>ok\<close> says which upserts succeed; the first that fails ends the sweep,
  and what was done so far stays.
\<close>

fun reconcile_rows ::
  "serve_env \<Rightarrow> (uuid \<Rightarrow> bool) \<Rightarrow> timestamp \<Rightarrow> timestamp \<Rightarrow> events_row list \<Rightarrow> uuid list \<Rightarrow> swept \<Rightarrow>
   (sweep_error + uuid list) \<times> swept" where
  "reconcile_rows E ok now stamp [] acc W = (Inr acc, W)"
| "reconcile_rows E ok now stamp (row # rows) acc W =
     (if \<not> ok (er_id row) then (Inl (PersistFailed (er_id row)), W)
      else let row' = reconciled_row (se_formats E) now stamp row
           in reconcile_rows E ok now stamp rows (acc @ [er_id row])
                \<lparr>sw_db = (sw_db W)\<lparr>db_events := upsert_event row' (db_events (sw_db W))\<rparr>,
                 sw_live = mark_terminal E stamp (er_id row) (er_task_context row') (er_workflow_type row)
                   (er_created_at row) now (sw_live W)\<rparr>)"

definition reconcile_orphans ::
  "serve_env \<Rightarrow> bool \<Rightarrow> (uuid \<Rightarrow> bool) \<Rightarrow> orphan_policy \<Rightarrow> timestamp \<Rightarrow> timestamp \<Rightarrow> swept \<Rightarrow>
   (sweep_error + reconcile_summary) \<times> swept" where
  "reconcile_orphans E listed ok policy now stamp W =
     (if \<not> reconcile_on_boot policy then (Inr \<lparr>rc_scanned = 0, rc_reconciled = []\<rparr>, W)
      else if \<not> listed \<or> orphan_scan_limit policy < 0 then (Inl ListFailed, W)
      else let candidates = list_orphan_candidates now (nat (orphan_scan_limit policy)) (sw_db W)
           in case reconcile_rows E ok now stamp candidates [] W of
                (Inl e, W') \<Rightarrow> (Inl e, W')
              | (Inr done_ids, W') \<Rightarrow> (Inr \<lparr>rc_scanned = length candidates, rc_reconciled = done_ids\<rparr>, W'))"

subsection \<open>The stale-run alarm\<close>

definition derive_live_status :: "task_context \<Rightarrow> string" where
  "derive_live_status snapshot = (if is_suspended (metadata snapshot) then ''suspended'' else ''running'')"

text \<open>
  \<open>chrono::Duration::seconds\<close> panics beyond \<open>i64::MAX\<close> milliseconds (\<open>None\<close>); a threshold that does not
  even fit an \<open>i64\<close> is replaced by \<open>i64::MAX\<close> seconds, which panics as well.
\<close>

definition duration_seconds :: "u64 \<Rightarrow> int option" where
  "duration_seconds n =
     (if uint n \<le> (2 ^ 63 - 1) div 1000 then Some (uint n * 10 ^ 9) else None)"

definition stale_run_ids ::
  "(uuid \<times> task_context \<times> timestamp) list \<Rightarrow> timestamp \<Rightarrow> u64 \<Rightarrow> uuid list option" where
  "stale_run_ids records now alarm_secs =
     (case duration_seconds alarm_secs of
        None \<Rightarrow> None
      | Some threshold \<Rightarrow> Some (map fst (filter (\<lambda>(_, snapshot, updated_at).
          derive_live_status snapshot \<in> {''running'', ''suspended''} \<and> now - updated_at \<ge> threshold) records)))"

definition is_live_queue_park :: "ext \<Rightarrow> job_dir \<Rightarrow> task_context \<Rightarrow> bool" where
  "is_live_queue_park X jobs snapshot =
     (case json_get (metadata snapshot) ''heavy_work'' of
        None \<Rightarrow> False
      | Some hw \<Rightarrow>
          if Option.bind (json_get hw ''state'') as_str \<noteq> Some ''queued'' then False
          else (case do { v \<leftarrow> json_get hw ''job_id''; s \<leftarrow> as_str v; uuid_parse X s } of
                  None \<Rightarrow> False
                | Some j \<Rightarrow> (case read_job jobs j of Inl _ \<Rightarrow> False | Inr job \<Rightarrow> hj_state job \<in> {Queued, JobRunning})))"

definition stale_run_ids_excluding_live_queue_parks ::
  "ext \<Rightarrow> job_dir \<Rightarrow> (uuid \<times> task_context \<times> timestamp) list \<Rightarrow> timestamp \<Rightarrow> u64 \<Rightarrow> uuid list option" where
  "stale_run_ids_excluding_live_queue_parks X jobs records now alarm_secs =
     map_option (filter (\<lambda>r. case map_of records r of
         None \<Rightarrow> True | Some (snapshot, _) \<Rightarrow> \<not> is_live_queue_park X jobs snapshot))
       (stale_run_ids records now alarm_secs)"




subsection \<open>What a sweep does\<close>

definition is_orphan :: "timestamp \<Rightarrow> events_row \<Rightarrow> bool" where
  "is_orphan older_than row \<longleftrightarrow>
     json_get (metadata (er_task_context row)) ''completion'' = None \<and> er_updated_at row < older_than"

lemma candidates_eq:
  "list_orphan_candidates now n db = take n (sort_key er_updated_at (filter (is_orphan now) (db_events db)))"
  by (simp add: list_orphan_candidates_def is_orphan_def [abs_def])

lemma candidates_orphans: "set (list_orphan_candidates now n db) \<subseteq> {row \<in> set (db_events db). is_orphan now row}"
  by (auto simp: candidates_eq dest!: in_set_takeD)

lemma candidates_all:
  assumes "length (filter (is_orphan now) (db_events db)) \<le> n"
  shows "set (list_orphan_candidates now n db) = {row \<in> set (db_events db). is_orphan now row}"
  using assms by (simp add: candidates_eq)

lemma distinct_candidates:
  assumes "distinct (map er_id (db_events db))"
  shows "distinct (map er_id (list_orphan_candidates now n db))"
proof -
  have "distinct (map er_id (sort_key er_updated_at (filter P (db_events db))))" for P
    using assms by (metis (no_types, lifting) distinct_map distinct_filter distinct_sort filter_is_subset
        inj_on_subset set_sort)
  then show ?thesis by (simp add: list_orphan_candidates_def distinct_take flip: take_map)
qed

lemma upsert_known:
  assumes "distinct (map er_id rs)" "row \<in> set rs" "er_id row' = er_id row" "er_created_at row' = er_created_at row"
  shows "upsert_event row' rs = map (\<lambda>r. if r = row then row' else r) rs"
  using assms
proof (induction rs)
  case (Cons r rs)
  show ?case
  proof (cases "r = row")
    case True
    with Cons.prems have "row \<notin> set rs" by force
    then have "map (\<lambda>r. if r = row then row' else r) rs = rs" by (induction rs) auto
    with True Cons.prems show ?thesis by simp
  next
    case False
    with Cons show ?thesis by force
  qed
qed simp

lemma fold_upsert:
  assumes keeps: "\<And>r. er_id (f r) = er_id r" "\<And>r. er_created_at (f r) = er_created_at r"
    and "distinct (map er_id es)" "set rows \<subseteq> set es" "distinct (map er_id rows)"
  shows "fold (\<lambda>row. upsert_event (f row)) rows es = map (\<lambda>r. if r \<in> set rows then f r else r) es"
  using assms(3-5)
proof (induction rows arbitrary: es)
  case (Cons row rows)
  let ?es = "map (\<lambda>r. if r = row then f row else r) es"
  have "er_id \<circ> (\<lambda>r. if r = row then f row else r) = er_id" by (auto simp: keeps)
  then have ids: "map er_id ?es = map er_id es" by (simp only: list.map_comp)
  have new: "j \<notin> set rows" if "er_id j = er_id row" for j
    using Cons.prems(3) that by (metis distinct.simps(2) image_eqI list.set_map list.simps(9))
  have d: "distinct (map er_id ?es)" unfolding ids by (rule Cons.prems(1))
  have "set rows \<subseteq> set ?es" using Cons.prems(2) new by force
  then have "fold (\<lambda>row. upsert_event (f row)) rows ?es = map (\<lambda>r. if r \<in> set rows then f r else r) ?es"
    by (rule Cons.IH [OF d]) (use Cons.prems(3) in simp)
  moreover have "upsert_event (f row) es = ?es" using Cons.prems by (intro upsert_known) (auto simp: keeps)
  ultimately show ?case using new keeps(1) by (auto simp: o_def)
qed simp

lemma reconciled_row_keeps [simp]:
  "er_id (reconciled_row X now t row) = er_id row"
  "er_created_at (reconciled_row X now t row) = er_created_at row"
  "er_workflow_type (reconciled_row X now t row) = er_workflow_type row"
  "er_data (reconciled_row X now t row) = er_data row"
  by (simp_all add: reconciled_row_def)

lemma reconciled_row_complete:
  "is_complete (metadata (er_task_context (reconciled_row X now t row)))"
  "\<not> is_orphan later (reconciled_row X now t row)"
  by (simp_all add: reconciled_row_def is_complete_def stamp_completion_def flag_at_stamp_same is_orphan_def)

definition sweep_op :: "serve_env \<Rightarrow> timestamp \<Rightarrow> timestamp \<Rightarrow> events_row \<Rightarrow> store_op" where
  "sweep_op E now t row = OpTerminal t (er_id row)
     (er_task_context (reconciled_row (se_formats E) now t row)) (er_workflow_type row) (er_created_at row) now"

lemma reconcile_rows_ok:
  "reconcile_rows E (\<lambda>_. True) now t rows acc W =
     (Inr (acc @ map er_id rows),
      \<lparr>sw_db = (sw_db W)\<lparr>db_events :=
         fold (\<lambda>row. upsert_event (reconciled_row (se_formats E) now t row)) rows (db_events (sw_db W))\<rparr>,
       sw_live = run_ops E (map (sweep_op E now t) rows) (sw_live W)\<rparr>)"
  by (induction rows arbitrary: acc W) (simp_all add: run_ops_def sweep_op_def Let_def)

lemma reconcile_orphans_ok:
  assumes "reconcile_on_boot p" "0 \<le> orphan_scan_limit p" "distinct (map er_id (db_events (sw_db W)))"
    and "cands = list_orphan_candidates now (nat (orphan_scan_limit p)) (sw_db W)"
  shows "reconcile_orphans E True (\<lambda>_. True) p now t W =
    (Inr \<lparr>rc_scanned = length cands, rc_reconciled = map er_id cands\<rparr>,
     \<lparr>sw_db = (sw_db W)\<lparr>db_events :=
        map (\<lambda>row. if row \<in> set cands then reconciled_row (se_formats E) now t row else row) (db_events (sw_db W))\<rparr>,
      sw_live = run_ops E (map (sweep_op E now t) cands) (sw_live W)\<rparr>)"
proof -
  have "set cands \<subseteq> set (db_events (sw_db W))" using candidates_orphans assms(4) by blast
  then have "fold (\<lambda>row. upsert_event (reconciled_row (se_formats E) now t row)) cands (db_events (sw_db W)) =
      map (\<lambda>row. if row \<in> set cands then reconciled_row (se_formats E) now t row else row) (db_events (sw_db W))"
    using assms(3) distinct_candidates [OF assms(3)] by (intro fold_upsert) (simp_all add: assms(4))
  then show ?thesis
    using assms by (simp add: reconcile_orphans_def reconcile_rows_ok Let_def)
qed

lemma terminals_sweep:
  "terminals E (map (sweep_op E now t) rows) = map (\<lambda>row. (er_id row, terminal_record (se_formats E)
     (er_task_context (reconciled_row (se_formats E) now t row)) (er_workflow_type row) (er_created_at row) now)) rows"
  by (induction rows) (simp_all add: terminals_def List.map_filter_simps sweep_op_def)

lemma live_sweep:
  "map_of (live (run_ops E (map (sweep_op E now t) rows) S)) r =
     (if r \<in> er_id ` set rows then None else map_of (live S) r)"
  by (induction rows arbitrary: S) (auto simp: run_ops_def sweep_op_def mark_terminal_fields delete_conv')

lemma sweep_seeds_ring:
  assumes "distinct (map er_id rows)" and "ring_inv (completed S)" and "row \<in> set (drop (length rows - 100) rows)"
    and "get_record S (er_id row) = None"
  shows "get_record (run_ops E (map (sweep_op E now t) rows) S) (er_id row) = Some (terminal_record (se_formats E)
     (er_task_context (reconciled_row (se_formats E) now t row)) (er_workflow_type row) (er_created_at row) now)"
proof -
  obtain a b where d: "drop (length rows - 100) rows = a @ row # b"
    using assms(3) by (metis in_set_conv_decomp)
  then have "length (a @ row # b) = length (drop (length rows - 100) rows)" by simp
  then have "length (a @ row # b) \<le> 100" by simp
  then have b: "length b < 100" by simp
  have rows: "rows = (take (length rows - 100) rows @ a) @ row # b" using d by (metis append_assoc append_take_drop_id)
  then obtain pre where pre: "rows = pre @ row # b" by blast
  let ?rec = "\<lambda>row. terminal_record (se_formats E) (er_task_context (reconciled_row (se_formats E) now t row))
    (er_workflow_type row) (er_created_at row) now"
  have "distinct (map fst (map (\<lambda>row. (er_id row, ?rec row)) pre @ (er_id row, ?rec row) #
      map (\<lambda>row. (er_id row, ?rec row)) b))"
    using assms(1) by (simp add: pre o_def)
  moreover have "terminals E (map (sweep_op E now t) rows) = map (\<lambda>row. (er_id row, ?rec row)) pre @
      (er_id row, ?rec row) # map (\<lambda>row. (er_id row, ?rec row)) b"
    unfolding terminals_sweep pre by simp
  ultimately show ?thesis
    using ring_recent [OF assms(2), of "map (\<lambda>row. (er_id row, ?rec row)) pre" "er_id row" "?rec row"
      "map (\<lambda>row. (er_id row, ?rec row)) b"] b assms(4)
    unfolding get_record_def completed_run_ops by (simp only: length_map)
qed

text \<open>
  C28. The boot sweep, when its statements succeed, reconciles exactly the rows it lists: the oldest of the
  rows without a completion marker, as many as the scan limit allows. It reports them in that order; each of them
  gets a completion marker and a failure that names it and keeps its other data, and no other row changes. In a
  store that does not know these runs yet, the last hundred of them read back with the context that was written to
  their rows, as runs that ended when the sweep ran. When the scan limit covers the rows without a marker, no later
  sweep of the same cut-off finds a candidate.
\<close>

theorem boot_sweep_exact:
  assumes "reconcile_on_boot p" "0 \<le> orphan_scan_limit p" "distinct (map er_id (db_events (sw_db W)))"
    and "ring_inv (completed (sw_live W))" "list_all (\<lambda>row. get_record (sw_live W) (er_id row) = None) (db_events (sw_db W))"
    and "reconcile_orphans E True (\<lambda>_. True) p now t W = (res, W')"
  shows "let orphans = sort_key er_updated_at (filter (is_orphan now) (db_events (sw_db W)));
      listed = take (nat (orphan_scan_limit p)) orphans; fixed = reconciled_row (se_formats E) now t in
    res = Inr \<lparr>rc_scanned = length listed, rc_reconciled = map er_id listed\<rparr> \<and>
    db_events (sw_db W') = map (\<lambda>row. if er_id row \<in> er_id ` set listed then fixed row else row) (db_events (sw_db W)) \<and>
    list_all (\<lambda>row. is_complete (metadata (er_task_context (fixed row)))) listed \<and>
    list_all (\<lambda>row. live_get (sw_live W') (er_id row) = Some (er_task_context (fixed row)) \<and>
        get_record (sw_live W') (er_id row) = Some (terminal_record (se_formats E) (er_task_context (fixed row))
          (er_workflow_type row) (er_created_at row) now))
      (drop (length listed - 100) listed) \<and>
    (if length orphans \<le> nat (orphan_scan_limit p) then list_orphan_candidates now n (sw_db W') = [] else True)"
proof -
  let ?es = "db_events (sw_db W)" and ?fixed = "reconciled_row (se_formats E) now t"
  define cands where "cands = list_orphan_candidates now (nat (orphan_scan_limit p)) (sw_db W)"
  have listed: "cands = take (nat (orphan_scan_limit p)) (sort_key er_updated_at (filter (is_orphan now) ?es))"
    by (simp add: cands_def candidates_eq)
  note eq = reconcile_orphans_ok [OF assms(1-3) cands_def, of E t]
  have sub: "set cands \<subseteq> set ?es" using candidates_orphans cands_def by blast
  have mem: "row \<in> set cands \<longleftrightarrow> er_id row \<in> er_id ` set cands" if "row \<in> set ?es" for row
    using that sub assms(3) by (auto simp: distinct_map inj_on_def)
  have events: "db_events (sw_db W') = map (\<lambda>row. if er_id row \<in> er_id ` set cands then ?fixed row else row) ?es"
    using eq assms(6) mem by auto
  have none: "list_orphan_candidates now n (sw_db W') = []"
    if "length (filter (is_orphan now) ?es) \<le> nat (orphan_scan_limit p)"
  proof -
    have "\<not> is_orphan now row" if "row \<in> set (db_events (sw_db W'))" for row
      using that events mem candidates_all [OF \<open>length _ \<le> _\<close>]
      by (auto simp: reconciled_row_complete cands_def split: if_splits)
    then have "filter (is_orphan now) (db_events (sw_db W')) = []" by (auto simp: filter_empty_conv)
    then show ?thesis by (simp add: candidates_eq)
  qed
  have dist: "distinct (map er_id cands)" using distinct_candidates [OF assms(3)] by (simp add: cands_def)
  have live: "sw_live W' = run_ops E (map (sweep_op E now t) cands) (sw_live W)" using eq assms(6) by simp
  have seeded: "live_get (sw_live W') (er_id row) = Some (er_task_context (?fixed row)) \<and>
      get_record (sw_live W') (er_id row) = Some (terminal_record (se_formats E) (er_task_context (?fixed row))
        (er_workflow_type row) (er_created_at row) now)"
    if "row \<in> set (drop (length cands - 100) cands)" for row
  proof -
    have row: "row \<in> set cands" using that by (rule in_set_dropD)
    then have "get_record (sw_live W) (er_id row) = None" using sub assms(5) by (auto simp: list_all_iff)
    from sweep_seeds_ring [OF dist assms(4) that this] row show ?thesis
      by (simp add: live live_get_def get_sections_def live_sweep get_record_def terminal_record_def)
  qed
  have "res = Inr \<lparr>rc_scanned = length cands, rc_reconciled = map er_id cands\<rparr>" using eq assms(6) by simp
  moreover have "list_all (\<lambda>row. is_complete (metadata (er_task_context (?fixed row)))) cands"
    by (simp add: list_all_iff reconciled_row_complete)
  moreover have "list_all (\<lambda>row. live_get (sw_live W') (er_id row) = Some (er_task_context (?fixed row)) \<and>
      get_record (sw_live W') (er_id row) = Some (terminal_record (se_formats E) (er_task_context (?fixed row))
        (er_workflow_type row) (er_created_at row) now)) (drop (length cands - 100) cands)"
    using seeded unfolding list_all_iff by blast
  moreover have "if length (sort_key er_updated_at (filter (is_orphan now) ?es)) \<le> nat (orphan_scan_limit p)
      then list_orphan_candidates now n (sw_db W') = [] else True"
    using none by simp
  ultimately show ?thesis using events unfolding Let_def listed [symmetric] by blast
qed

text \<open>
  The sweep makes only the last hundred runs it reconciles readable: with more orphans than the
  ring of completed runs holds, the earlier ones are pushed out again and the server does not know
  them, although they are terminal in the database and no later sweep lists them.
\<close>

theorem sweep_seeds_last_hundred:
  assumes "reconcile_orphans E True (\<lambda>_. True) p now t \<lparr>sw_db = db, sw_live = live_store_new\<rparr> = (Inr summary, W')"
    and "distinct (map er_id (db_events db))"
  shows "(live_get (sw_live W') r = None) =
    (r \<notin> set (drop (length (rc_reconciled summary) - 100) (rc_reconciled summary)))"
proof (cases "reconcile_on_boot p")
  case False
  with assms show ?thesis
    by (auto simp: reconcile_orphans_def live_get_def get_sections_def live_store_new_def)
next
  case True
  then have lim: "0 \<le> orphan_scan_limit p" using assms(1) by (auto simp: reconcile_orphans_def split: if_splits)
  define cands where "cands = list_orphan_candidates now (nat (orphan_scan_limit p)) db"
  have W': "sw_live W' = run_ops E (map (sweep_op E now t) cands) live_store_new" "rc_reconciled summary = map er_id cands"
    using reconcile_orphans_ok [of p "\<lparr>sw_db = db, sw_live = live_store_new\<rparr>" cands now E t] True lim assms
    by (auto simp: cands_def)
  have terms: "map fst (terminals E (map (sweep_op E now t) cs)) = map er_id cs" for cs
    by (induction cs) (simp_all add: terminals_def List.map_filter_simps sweep_op_def)
  have live: "live (run_ops E (map (sweep_op E now t) cs) S) = []" if "live S = []" for cs S
    using that by (induction cs arbitrary: S) (simp_all add: run_ops_def sweep_op_def mark_terminal_fields)
  let ?xs = "terminals E (map (sweep_op E now t) cands)"
  have "ring_abs (completed (sw_live W')) = fifo_puts completed_run_retention ?xs []"
    using ring.fold_ins [OF ring.nil(1), of ?xs] by (simp add: W' completed_run_ops live_store_new_def ring.nil)
  moreover have "distinct (map fst ?xs)"
    using distinct_candidates [OF assms(2)] by (simp add: terms cands_def)
  ultimately have "rev (map fst (ring_abs (completed (sw_live W')))) = take 100 (rev (map er_id cands))"
    using keys_fifo_puts_fresh [of ?xs "[]" completed_run_retention] by (simp add: terms completed_run_retention_def)
  then have "fst ` set (ring_abs (completed (sw_live W'))) = set (take 100 (rev (map er_id cands)))"
    by (metis list.set_map set_rev)
  moreover have "ring_inv (completed (sw_live W'))" unfolding W' by (rule ring_inv_run_ops)
  moreover have "live (sw_live W') = []" unfolding W' by (rule live) (simp add: live_store_new_def)
  ultimately show ?thesis
    by (simp add: live_get_def get_sections_def in_ring W' take_rev)
qed

definition crashed_row :: "uuid \<Rightarrow> events_row" where
  "crashed_row u = \<lparr>er_id = u, er_workflow_type = ''W'', er_data = JNull,
     er_task_context = \<lparr>event = JNull, nodes = [], metadata = JObj [], node_runs = []\<rparr>,
     er_created_at = 0, er_updated_at = 0\<rparr>"

definition crashed_db :: "uuid list \<Rightarrow> database" where
  "crashed_db us = \<lparr>db_events = map crashed_row us, db_invocations = []\<rparr>"

lemma crashed_candidates: "list_orphan_candidates 1 n (crashed_db us) = map crashed_row (take n us)"
proof -
  have "filter (is_orphan 1) (map crashed_row us) = map crashed_row us"
    by (simp add: filter_id_conv is_orphan_def crashed_row_def)
  moreover have "sort_key er_updated_at (map crashed_row us) = map crashed_row us"
    by (rule sort_key_id_if_sorted) (induction us; simp add: crashed_row_def)
  ultimately show ?thesis by (simp add: candidates_eq crashed_db_def take_map)
qed

lemma crashed_ids: "map er_id (db_events (crashed_db us)) = us"
  by (simp add: crashed_db_def crashed_row_def o_def)

theorem boot_sweep_exact_witness:
  "(case reconcile_orphans example_env True (\<lambda>_. True) orphan_policy_default 1 2
      \<lparr>sw_db = crashed_db [1, 2], sw_live = live_store_new\<rparr> of
     (res, W') \<Rightarrow> res = Inr \<lparr>rc_scanned = 2, rc_reconciled = [1, 2]\<rparr> \<and>
       live_get (sw_live W') 1 = Some (er_task_context (reconciled_row (se_formats example_env) 1 2 (crashed_row 1))) \<and>
       list_orphan_candidates 1 5 (sw_db W') = [])"
proof -
  let ?W = "\<lparr>sw_db = crashed_db [1, 2], sw_live = live_store_new\<rparr>"
  obtain res W' where eq: "reconcile_orphans example_env True (\<lambda>_. True) orphan_policy_default 1 2 ?W = (res, W')"
    by fastforce
  have orphans: "sort_key er_updated_at (filter (is_orphan 1) (db_events (crashed_db [1, 2]))) = [crashed_row 1, crashed_row 2]"
    using crashed_candidates [of 5 "[1, 2]"] by (simp add: candidates_eq crashed_db_def is_orphan_def crashed_row_def)
  have dist: "distinct (map er_id (db_events (sw_db ?W)))" by (simp add: crashed_ids)
  have inv: "ring_inv (completed (sw_live ?W))" by (simp add: live_store_new_def ring.nil)
  have new: "list_all (\<lambda>row. get_record (sw_live ?W) (er_id row) = None) (db_events (sw_db ?W))"
    by (simp add: get_record_def live_store_new_def list_all_iff)
  have on: "reconcile_on_boot orphan_policy_default" "0 \<le> orphan_scan_limit orphan_policy_default"
    by (simp_all add: orphan_policy_default_def)
  have ids: "er_id (crashed_row u) = u" for u by (simp add: crashed_row_def)
  show ?thesis
    using boot_sweep_exact [OF on dist inv new eq, of 5] unfolding eq
    by (simp add: orphans Let_def ids) (simp add: orphan_policy_default_def ids)
qed

theorem sweep_seeds_last_hundred_witness:
  "(case reconcile_orphans example_env True (\<lambda>_. True) orphan_policy_default 1 2
      \<lparr>sw_db = crashed_db (1 # hundred_runs), sw_live = live_store_new\<rparr> of
     (_, W') \<Rightarrow> live_get (sw_live W') 1 = None)"
proof -
  let ?us = "1 # hundred_runs"
  let ?W = "\<lparr>sw_db = crashed_db ?us, sw_live = live_store_new\<rparr>"
  have dist: "distinct (map er_id (db_events (crashed_db ?us)))" using hundred_runs by (simp only: crashed_ids distinct.simps simp_thms)
  obtain W' where eq: "reconcile_orphans example_env True (\<lambda>_. True) orphan_policy_default 1 2 ?W =
      (Inr \<lparr>rc_scanned = 101, rc_reconciled = ?us\<rparr>, W')"
    using reconcile_orphans_ok [of orphan_policy_default ?W _ 1 example_env 2, OF _ _ _ refl] dist
    by (simp add: orphan_policy_default_def crashed_candidates crashed_row_def o_def hundred_runs)
  have "1 \<notin> set (drop (length ?us - 100) ?us)" by (simp add: hundred_runs)
  then show ?thesis
    using sweep_seeds_last_hundred [OF eq dist, of 1] eq by simp
qed

subsection \<open>What an alarm pass does\<close>






end
