(* ===== verification/Stream.thy ===== *)
theory Stream
  imports LiveLaws
begin

text \<open>
  The progress streams of the serving layer (\<open>engine-serve/src/stream.rs\<close>): one broadcast channel per
  live run, the bounded cache of last frames, and the second channel for progress updates. A channel
  of \<open>tokio::sync::broadcast\<close> is the list of all frames ever sent on it; a receiver is a position in
  that list, skips what the channel no longer retains, and sees the end once the sender is gone and
  the list is read.
\<close>

record stream_frame =
  sf_event_id :: uuid
  sf_status :: string
  sf_context :: task_context
  sf_terminal :: bool

record progress_frame =
  pf_event_id :: uuid
  pf_node :: string
  pf_done :: nat
  pf_total :: nat
  pf_label :: "string option"

record stream_registry =
  rg_live :: "uuid \<rightharpoonup> nat"
  rg_terminal :: "stream_frame completed_ring"
  rg_progress :: "uuid \<rightharpoonup> nat"
  rg_log :: "nat \<Rightarrow> stream_frame list"
  rg_progress_log :: "nat \<Rightarrow> progress_frame list"
  rg_next :: nat

definition registry_empty :: stream_registry where
  "registry_empty = \<lparr>rg_live = Map.empty, rg_terminal = empty_ring, rg_progress = Map.empty, rg_log = (\<lambda>_. []),
     rg_progress_log = (\<lambda>_. []), rg_next = 0\<rparr>"

definition channel_capacity :: nat where
  "channel_capacity = 256"

subsection \<open>The cache of last frames\<close>

definition cache_insert :: "uuid \<Rightarrow> stream_frame \<Rightarrow> stream_frame completed_ring \<Rightarrow> stream_frame completed_ring" where
  "cache_insert r frame C =
     (let ord = (if map_of (entries C) r = None then ring_order C @ [r] else ring_order C);
          (es, ord') = ring_evict (AList.update r frame (entries C)) ord
      in \<lparr>entries = es, ring_order = ord'\<rparr>)"

definition cache_get :: "stream_frame completed_ring \<Rightarrow> uuid \<Rightarrow> stream_frame option" where
  "cache_get C r = map_of (entries C) r"

subsection \<open>Publishing\<close>

definition sender_for :: "uuid \<Rightarrow> stream_registry \<Rightarrow> nat \<times> stream_registry" where
  "sender_for r G =
     (case rg_live G r of
        Some c \<Rightarrow> (c, G)
      | None \<Rightarrow> (rg_next G, G\<lparr>rg_live := (rg_live G)(r \<mapsto> rg_next G), rg_next := Suc (rg_next G)\<rparr>))"

definition send_frame :: "nat \<Rightarrow> stream_frame \<Rightarrow> stream_registry \<Rightarrow> stream_registry" where
  "send_frame c frame G = G\<lparr>rg_log := (rg_log G)(c := rg_log G c @ [frame])\<rparr>"

definition running_frame :: "uuid \<Rightarrow> task_context \<Rightarrow> stream_frame" where
  "running_frame r ctx = \<lparr>sf_event_id = r, sf_status = ''running'', sf_context = ctx, sf_terminal = False\<rparr>"

definition terminal_frame :: "uuid \<Rightarrow> task_context \<Rightarrow> stream_frame" where
  "terminal_frame r ctx =
     \<lparr>sf_event_id = r, sf_status = derive_terminal_status ctx, sf_context = ctx, sf_terminal = True\<rparr>"

definition suspended_frame :: "uuid \<Rightarrow> task_context \<Rightarrow> stream_frame" where
  "suspended_frame r ctx = \<lparr>sf_event_id = r, sf_status = ''suspended'', sf_context = ctx, sf_terminal = True\<rparr>"

definition publish :: "uuid \<Rightarrow> task_context \<Rightarrow> stream_registry \<Rightarrow> stream_registry" where
  "publish r ctx G = (case sender_for r G of (c, G1) \<Rightarrow> send_frame c (running_frame r ctx) G1)"

text \<open>The transition both last frames share: deliver, cache, drop the senders, under one lock.\<close>

definition retire :: "uuid \<Rightarrow> stream_frame \<Rightarrow> stream_registry \<Rightarrow> stream_registry" where
  "retire r frame G =
     (let G1 = (case rg_live G r of Some c \<Rightarrow> send_frame c frame G | None \<Rightarrow> G)
      in G1\<lparr>rg_terminal := cache_insert r frame (rg_terminal G1), rg_live := (rg_live G1)(r := None),
            rg_progress := (rg_progress G1)(r := None)\<rparr>)"

definition publish_terminal :: "uuid \<Rightarrow> task_context \<Rightarrow> stream_registry \<Rightarrow> stream_registry" where
  "publish_terminal r final G = retire r (terminal_frame r final) G"

definition publish_suspended :: "uuid \<Rightarrow> task_context \<Rightarrow> stream_registry \<Rightarrow> stream_registry" where
  "publish_suspended r snapshot G = retire r (suspended_frame r snapshot) G"

definition clear_terminal :: "uuid \<Rightarrow> stream_registry \<Rightarrow> stream_registry" where
  "clear_terminal r G = G\<lparr>
     rg_terminal := \<lparr>entries = AList.delete r (entries (rg_terminal G)),
                     ring_order = filter (\<lambda>j. j \<noteq> r) (ring_order (rg_terminal G))\<rparr>,
     rg_live := (rg_live G)(r := None)\<rparr>"

subsection \<open>Subscribing\<close>

datatype 'f receiver = OneShot "'f list" | Reader uuid nat nat

definition subscribe :: "uuid \<Rightarrow> stream_registry \<Rightarrow> stream_frame receiver \<times> stream_registry" where
  "subscribe r G =
     (case cache_get (rg_terminal G) r of
        Some frame \<Rightarrow> (OneShot [frame], G)
      | None \<Rightarrow> (case sender_for r G of (c, G1) \<Rightarrow> (Reader r c (length (rg_log G1 c)), G1)))"

definition progress_sender_for :: "uuid \<Rightarrow> stream_registry \<Rightarrow> nat \<times> stream_registry" where
  "progress_sender_for r G =
     (case rg_progress G r of
        Some c \<Rightarrow> (c, G)
      | None \<Rightarrow> (rg_next G, G\<lparr>rg_progress := (rg_progress G)(r \<mapsto> rg_next G), rg_next := Suc (rg_next G)\<rparr>))"

definition publish_progress :: "uuid \<Rightarrow> progress_frame \<Rightarrow> stream_registry \<Rightarrow> stream_registry" where
  "publish_progress r update G =
     (case progress_sender_for r G of (c, G1) \<Rightarrow>
        G1\<lparr>rg_progress_log := (rg_progress_log G1)(c := rg_progress_log G1 c @ [update\<lparr>pf_event_id := r\<rparr>])\<rparr>)"

definition subscribe_progress :: "uuid \<Rightarrow> stream_registry \<Rightarrow> progress_frame receiver \<times> stream_registry" where
  "subscribe_progress r G =
     (if map_of (entries (rg_terminal G)) r \<noteq> None then (OneShot [], G)
      else case progress_sender_for r G of (c, G1) \<Rightarrow> (Reader r c (length (rg_progress_log G1 c)), G1))"

text \<open>One call of \<open>recv_next\<close>: the next frame, the end, or nothing yet.\<close>

datatype 'f received = Frame 'f "'f receiver" | Closed | Waiting

definition recv_next :: "stream_registry \<Rightarrow> stream_frame receiver \<Rightarrow> stream_frame received" where
  "recv_next G rcv =
     (case rcv of
        OneShot [] \<Rightarrow> Closed
      | OneShot (f # fs) \<Rightarrow> Frame f (OneShot fs)
      | Reader r c pos \<Rightarrow>
          (let frames = rg_log G c; at_pos = max pos (length frames - channel_capacity)
           in if at_pos < length frames then Frame (frames ! at_pos) (Reader r c (Suc at_pos))
              else if rg_live G r = Some c then Waiting else Closed))"

fun read_stream :: "stream_registry \<Rightarrow> nat \<Rightarrow> stream_frame receiver \<Rightarrow> stream_frame list \<times> stream_frame received" where
  "read_stream G 0 rcv = ([], recv_next G rcv)"
| "read_stream G (Suc n) rcv =
     (case recv_next G rcv of
        Frame f rcv' \<Rightarrow> (case read_stream G n rcv' of (fs, e) \<Rightarrow> (f # fs, e))
      | e \<Rightarrow> ([], e))"

text \<open>The lookup of \<open>stream_event\<close>: the live map, the ring, the table of started runs.\<close>

definition stream_known :: "live_store \<Rightarrow> (uuid \<rightharpoonup> string \<times> timestamp) \<Rightarrow> uuid \<Rightarrow> bool" where
  "stream_known S started r \<longleftrightarrow>
     live_get S r \<noteq> None \<or> get_record S r \<noteq> None \<or> started r \<noteq> None"

subsection \<open>Sequences of operations\<close>

datatype stream_op =
    OpPublish uuid task_context
  | OpTerminalFrame uuid task_context
  | OpSuspendedFrame uuid task_context
  | OpClear uuid
  | OpSubscribe uuid
  | OpProgress uuid progress_frame
  | OpSubscribeProgress uuid

fun stream_apply :: "stream_op \<Rightarrow> stream_registry \<Rightarrow> stream_registry" where
  "stream_apply (OpPublish r c) G = publish r c G"
| "stream_apply (OpTerminalFrame r c) G = publish_terminal r c G"
| "stream_apply (OpSuspendedFrame r c) G = publish_suspended r c G"
| "stream_apply (OpClear r) G = clear_terminal r G"
| "stream_apply (OpSubscribe r) G = snd (subscribe r G)"
| "stream_apply (OpProgress r f) G = publish_progress r f G"
| "stream_apply (OpSubscribeProgress r) G = snd (subscribe_progress r G)"

fun op_run :: "stream_op \<Rightarrow> uuid" where
  "op_run (OpPublish r _) = r" | "op_run (OpTerminalFrame r _) = r" | "op_run (OpSuspendedFrame r _) = r"
| "op_run (OpClear r) = r" | "op_run (OpSubscribe r) = r" | "op_run (OpProgress r _) = r"
| "op_run (OpSubscribeProgress r) = r"

text \<open>No two runs share a channel, and channels are never reused.\<close>

definition stream_inv :: "stream_registry \<Rightarrow> bool" where
  "stream_inv G \<longleftrightarrow> (\<forall>j k c. rg_live G j = Some c \<and> rg_live G k = Some c \<longrightarrow> j = k) \<and>
     (\<forall>j c. rg_live G j = Some c \<longrightarrow> c < rg_next G)"

lemma cache_insert_eq: "cache_insert = ring_insert"
  by (simp add: fun_eq_iff cache_insert_def ring_insert_def)

lemma stream_inv_new: "stream_inv registry_empty"
  by (simp add: stream_inv_def registry_empty_def)

lemmas stream_defs = publish_def publish_terminal_def publish_suspended_def retire_def send_frame_def
  clear_terminal_def subscribe_def subscribe_progress_def publish_progress_def sender_for_def
  progress_sender_for_def Let_def

lemma stream_inv_apply: "stream_inv G \<Longrightarrow> stream_inv (stream_apply op G)"
  by (cases op) (auto simp: stream_inv_def stream_defs less_Suc_eq split: option.splits if_splits)

text \<open>What one operation does to the channel of a run it is not about, and to a retired channel.\<close>

lemma apply_other:
  assumes "stream_inv G" "rg_live G r = Some c" "op_run op \<noteq> r"
  shows "rg_live (stream_apply op G) r = Some c" "rg_log (stream_apply op G) c = rg_log G c"
  using assms by (cases op; fastforce simp: stream_inv_def stream_defs split: option.splits if_splits)+

definition retired :: "stream_registry \<Rightarrow> nat \<Rightarrow> bool" where
  "retired G c \<longleftrightarrow> (\<forall>k. rg_live G k \<noteq> Some c) \<and> c < rg_next G"

lemma apply_retired:
  assumes "retired G c"
  shows "retired (stream_apply op G) c" "rg_log (stream_apply op G) c = rg_log G c"
  using assms by (cases op; fastforce simp: retired_def stream_defs split: option.splits if_splits)+

lemma fold_retired:
  assumes "retired G c"
  shows "retired (fold stream_apply ops G) c \<and> rg_log (fold stream_apply ops G) c = rg_log G c"
  using assms by (induction ops arbitrary: G) (simp_all add: apply_retired)

lemma fold_other:
  assumes "stream_inv G" "rg_live G r = Some c" "list_all (\<lambda>op. op_run op \<noteq> r) ops"
  shows "rg_live (fold stream_apply ops G) r = Some c \<and> rg_log (fold stream_apply ops G) c = rg_log G c"
  using assms by (induction ops arbitrary: G) (simp_all add: apply_other stream_inv_apply)

text \<open>The frames published for a run by operations that neither end nor reset its stream.\<close>

fun frames_for :: "uuid \<Rightarrow> stream_op list \<Rightarrow> stream_frame list" where
  "frames_for r [] = []"
| "frames_for r (OpPublish j c # ops) = (if j = r then [running_frame r c] else []) @ frames_for r ops"
| "frames_for r (op # ops) = frames_for r ops"

definition keeps_stream :: "uuid \<Rightarrow> stream_op \<Rightarrow> bool" where
  "keeps_stream r op = (op_run op \<noteq> r \<or> (case op of OpPublish _ _ \<Rightarrow> True | OpSubscribe _ \<Rightarrow> True
     | OpProgress _ _ \<Rightarrow> True | OpSubscribeProgress _ \<Rightarrow> True | _ \<Rightarrow> False))"

lemma frames_for_other: "op_run op \<noteq> r \<Longrightarrow> frames_for r (op # ops) = frames_for r ops"
  by (cases op) simp_all

lemma fold_publishes:
  assumes "stream_inv G" "rg_live G r = Some c" "list_all (keeps_stream r) ops"
  shows "stream_inv (fold stream_apply ops G) \<and> rg_live (fold stream_apply ops G) r = Some c \<and>
    rg_log (fold stream_apply ops G) c = rg_log G c @ frames_for r ops"
  using assms
proof (induction ops arbitrary: G)
  case (Cons op ops)
  have step: "rg_live (stream_apply op G) r = Some c"
    "rg_log (stream_apply op G) c @ frames_for r ops = rg_log G c @ frames_for r (op # ops)"
  proof -
    have "rg_live (stream_apply op G) r = Some c \<and>
        rg_log (stream_apply op G) c @ frames_for r ops = rg_log G c @ frames_for r (op # ops)"
    proof (cases "op_run op = r")
      case False
      with Cons.prems show ?thesis by (simp add: apply_other frames_for_other)
    next
      case True
      with Cons.prems show ?thesis
        by (cases op) (auto simp: keeps_stream_def stream_defs split: option.splits)
    qed
    then show "rg_live (stream_apply op G) r = Some c"
      "rg_log (stream_apply op G) c @ frames_for r ops = rg_log G c @ frames_for r (op # ops)" by simp_all
  qed
  with Cons.IH [of "stream_apply op G"] Cons.prems show ?case by (simp add: stream_inv_apply)
qed simp

lemma read_retired:
  assumes "rg_log G c = pre @ fs" "rg_live G r \<noteq> Some c" "length fs \<le> channel_capacity" "length fs \<le> n"
  shows "read_stream G n (Reader r c (length pre)) = (fs, Closed)"
  using assms
proof (induction fs arbitrary: n pre)
  case Nil
  then show ?case by (cases n) (simp_all add: recv_next_def)
next
  case (Cons f fs)
  then obtain m where n: "n = Suc m" by (cases n) auto
  have "recv_next G (Reader r c (length pre)) = Frame f (Reader r c (length (pre @ [f])))"
    using Cons.prems(1,3) by (auto simp: recv_next_def Let_def nth_append max_def)
  with Cons.IH [of "pre @ [f]" m] Cons.prems n show ?case by simp
qed

subsection \<open>Properties\<close>

text \<open>
  C30. A subscriber of a run whose stream has not ended reads every frame published for the run from
  then on, in order and whatever happens to other runs, then the last frame, then the end of the
  stream, and it does so also when it reads late: nothing that happens after the last frame changes
  it. It must not fall more than 256 frames behind, the capacity of the channel.
\<close>

theorem subscriber_reads_to_the_end:
  assumes "stream_inv G" "cache_get (rg_terminal G) r = None" "subscribe r G = (rcv, G1)"
    and "list_all (keeps_stream r) ops" "G2 = fold stream_apply ops G1"
    and "lst \<in> {terminal_frame r c, suspended_frame r c}" "G3 = retire r lst G2"
    and "length (frames_for r ops) < channel_capacity" "length (frames_for r ops) < n"
  shows "read_stream (fold stream_apply later G3) n rcv = (frames_for r ops @ [lst], Closed)"
proof -
  have G1: "G1 = snd (subscribe r G)" using assms(3) by simp
  obtain d where d: "rcv = Reader r d (length (rg_log G1 d))" "rg_live G1 r = Some d"
    using assms(2,3) by (auto simp: subscribe_def sender_for_def split: option.splits)
  have inv1: "stream_inv G1" using stream_inv_apply [OF assms(1), of "OpSubscribe r"] G1 by simp
  have G2: "stream_inv G2" "rg_live G2 r = Some d" "rg_log G2 d = rg_log G1 d @ frames_for r ops"
    using fold_publishes [OF inv1 d(2) assms(4)] assms(5) by simp_all
  then have "retired G3 d" "rg_log G3 d = rg_log G1 d @ frames_for r ops @ [lst]"
    by (auto simp: assms(7) retire_def retired_def stream_inv_def send_frame_def)
  then have "retired (fold stream_apply later G3) d"
    "rg_log (fold stream_apply later G3) d = rg_log G1 d @ frames_for r ops @ [lst]"
    using fold_retired by auto
  then show ?thesis
    unfolding d(1) using assms(8,9) by (intro read_retired) (auto simp: retired_def)
qed

definition step_context :: "nat \<Rightarrow> task_context" where
  "step_context k = \<lparr>event = JNull, nodes = [], metadata = JObj [(''step'', json_u64 (of_nat k))], node_runs = []\<rparr>"

theorem subscriber_reads_to_the_end_witness:
  "(case subscribe 7 registry_empty of (rcv, G1) \<Rightarrow>
     read_stream (publish 7 (step_context 9) (publish_terminal 7 (step_context 2)
         (publish 8 (step_context 5) (publish 7 (step_context 1) G1)))) 5 rcv =
       ([running_frame 7 (step_context 1), terminal_frame 7 (step_context 2)], Closed))"
proof -
  obtain rcv G1 where s: "subscribe 7 registry_empty = (rcv, G1)" by fastforce
  let ?ops = "[OpPublish 7 (step_context 1), OpPublish 8 (step_context 5)]"
  have "cache_get (rg_terminal registry_empty) 7 = None" by (simp add: cache_get_def registry_empty_def)
  then show ?thesis
    using subscriber_reads_to_the_end [OF stream_inv_new _ s, of ?ops _ "terminal_frame 7 (step_context 2)"
        "step_context 2" _ 5 "[OpPublish 7 (step_context 9)]", OF _ _ refl _ refl] s
    by (simp add: keeps_stream_def channel_capacity_def publish_terminal_def)
qed

text \<open>
  The stream of a finished run can hang. Suspended runs take places in the cache of last frames
  but not in the ring of completed runs: once a hundred other runs suspended after a run ended, its
  last frame is gone while the server still knows the run, so a client that connects is accepted,
  subscribes to a fresh channel, and waits for ever, whatever else the other runs do.
\<close>

theorem evicted_stream_hangs:
  assumes "stream_inv G" "ring_inv (rg_terminal G)" "ring_inv (completed S)"
    and "S1 = mark_terminal E now r c w created updated S" "G1 = publish_terminal r c G"
    and "length xs = 100" "distinct (map fst xs)"
    and "list_all (\<lambda>(k, _). k \<noteq> r \<and> cache_get (rg_terminal G) k = None) xs"
    and "S2 = fold (\<lambda>(k, x). store_record k x t) xs S1" "G2 = fold (\<lambda>(k, x). publish_suspended k x) xs G1"
    and "rg_live G2 r = None" "list_all (\<lambda>op. op_run op \<noteq> r) later"
  shows "stream_known S2 started r \<and>
    (case subscribe r G2 of (rcv, G3) \<Rightarrow> recv_next (fold stream_apply later G3) rcv = Waiting)"
proof -
  let ?C = "rg_terminal G1" and ?ys = "map (\<lambda>(k, x). (k, suspended_frame k x)) xs"
  have cache1: "?C = ring_insert r (terminal_frame r c) (rg_terminal G)"
    by (simp add: assms(5) publish_terminal_def retire_def cache_insert_eq send_frame_def Let_def split: option.split)
  have inv1: "ring_inv ?C" unfolding cache1 by (rule ring.inv_ins [OF assms(2)])
  have cache2: "rg_terminal (fold (\<lambda>(k, x). publish_suspended k x) zs H) =
      fold (\<lambda>(k, v). ring_insert k v) (map (\<lambda>(k, x). (k, suspended_frame k x)) zs) (rg_terminal H)" for zs H
    by (induction zs arbitrary: H)
      (auto simp: publish_suspended_def retire_def cache_insert_eq send_frame_def Let_def split: option.split)
  have fst_ys: "map fst ?ys = map fst xs" by (simp add: case_prod_beta o_def)
  then have keys_ys: "fst ` set ?ys = fst ` set xs" by (metis list.set_map)
  have keys1: "fst ` set (ring_abs ?C) \<subseteq> insert r (fst ` set (ring_abs (rg_terminal G)))"
    unfolding cache1 ring.abs_ins [OF assms(2)] fifo_put_def Let_def
    by (metis (no_types) image_mono keyset_update set_drop_subset)
  have "k \<notin> insert r (fst ` set (ring_abs (rg_terminal G)))" if "k \<in> fst ` set xs" for k
  proof -
    from that obtain x where "(k, x) \<in> set xs" by auto
    with assms(8) have "k \<noteq> r \<and> cache_get (rg_terminal G) k = None" by (auto simp: list_all_iff)
    then show ?thesis by (simp add: cache_get_def in_ring [OF assms(2)])
  qed
  with keys1 have "\<forall>k \<in> fst ` set xs. k \<notin> fst ` set (ring_abs ?C)" by (meson subsetD)
  then have "fst ` set ?ys \<inter> fst ` set (ring_abs ?C) = {}" unfolding keys_ys by (simp only: disjoint_iff Ball_def)
  moreover have "length ?ys = completed_run_retention" using assms(6) by (simp add: completed_run_retention_def)
  moreover have "distinct (map fst ?ys)" unfolding fst_ys by (rule assms(7))
  ultimately have "fst ` set (ring_abs (rg_terminal G2)) = fst ` set xs"
    unfolding assms(10) cache2 keys_ys [symmetric] by (intro ring.dropped [OF inv1])
  moreover have "ring_inv (rg_terminal G2)" unfolding assms(10) cache2 by (rule ring.fold_ins [OF inv1])
  moreover have "r \<notin> fst ` set xs" using assms(8) by (auto simp: list_all_iff)
  ultimately have gone: "cache_get (rg_terminal G2) r = None" by (simp add: cache_get_def in_ring)
  have inv2: "stream_inv G2"
  proof -
    have "stream_inv (fold (\<lambda>(k, x). publish_suspended k x) zs H)" if "stream_inv H" for zs H
      using that stream_inv_apply [of _ "OpSuspendedFrame _ _"] by (induction zs arbitrary: H) auto
    then show ?thesis using stream_inv_apply [OF assms(1), of "OpTerminalFrame r c"] assms(5,10) by simp
  qed
  obtain d G3 where sub: "subscribe r G2 = (Reader r d (length (rg_log G3 d)), G3)" "rg_live G3 r = Some d"
    using gone assms(11) by (auto simp: subscribe_def sender_for_def)
  have "stream_inv G3" using stream_inv_apply [OF inv2, of "OpSubscribe r"] sub by simp
  then have "recv_next (fold stream_apply later G3) (Reader r d (length (rg_log G3 d))) = Waiting"
    using fold_other [OF _ sub(2) assms(12)] by (simp add: recv_next_def Let_def)
  moreover have "completed (fold (\<lambda>(k, x). store_record k x t) zs H) = completed H" for zs H
    by (induction zs arbitrary: H) auto
  then have "get_record S2 r \<noteq> None"
    using ring_insert_present [OF assms(3)] by (simp add: assms(4,9) get_record_def mark_terminal_fields)
  ultimately show ?thesis using sub by (simp add: stream_known_def)
qed

theorem evicted_stream_hangs_witness:
  "(let S1 = mark_terminal example_env 5 1 failed_context ''W'' 0 5 live_store_new;
        G1 = publish_terminal 1 failed_context registry_empty;
        xs = map (\<lambda>u. (u, step_context 7)) hundred_runs
    in stream_known (fold (\<lambda>(k, x). store_record k x 6) xs S1) Map.empty 1 \<and>
       (case subscribe 1 (fold (\<lambda>(k, x). publish_suspended k x) xs G1) of
          (rcv, G3) \<Rightarrow> recv_next (publish 9 (step_context 0) G3) rcv = Waiting))"
proof -
  let ?xs = "map (\<lambda>u. (u, step_context 7)) hundred_runs"
  let ?G1 = "publish_terminal 1 failed_context registry_empty"
  have fst: "map fst ?xs = hundred_runs" by (simp add: o_def)
  have live: "rg_live (fold (\<lambda>(k, x). publish_suspended k x) zs G) 1 = None" if "rg_live G 1 = None" for zs G
    using that by (induction zs arbitrary: G)
      (auto simp: publish_suspended_def retire_def send_frame_def Let_def split: option.split)
  have "list_all (\<lambda>(k, _). k \<noteq> 1 \<and> cache_get (rg_terminal registry_empty) k = None) ?xs"
    using hundred_runs(3) by (auto simp: list_all_iff cache_get_def registry_empty_def)
  moreover have "rg_live (fold (\<lambda>(k, x). publish_suspended k x) ?xs ?G1) 1 = None"
    by (rule live) (simp add: publish_terminal_def retire_def registry_empty_def)
  moreover have "ring_inv (completed live_store_new)" "ring_inv (rg_terminal registry_empty)"
    by (simp_all add: live_store_new_def registry_empty_def ring.nil)
  moreover have "distinct (map fst ?xs)" "length ?xs = 100" by (simp_all only: fst length_map hundred_runs)
  ultimately show ?thesis
    unfolding Let_def
    using evicted_stream_hangs [where E = example_env and r = 1 and c = failed_context and S = live_store_new
        and G = registry_empty and xs = ?xs and t = 6 and now = 5 and w = "''W''" and created = 0 and updated = 5
        and started = "Map.empty" and later = "[OpPublish 9 (step_context 0)]", OF stream_inv_new _ _ refl refl _ _ _ refl refl]
    by (simp only: list.pred_inject op_run.simps fold.simps stream_apply.simps comp_def id_def) simp
qed

end
