(* ===== verification/Dispatch.thy ===== *)
theory Dispatch
  imports Runner
begin

text \<open>
  The dispatcher (\<open>dispatch.rs\<close>): two registries keyed by workflow type, one of factories and one of
  schemas, filled together by \<open>register\<close>. A factory builds a workflow from the triggering event, or
  fails with a message.
\<close>

type_synonym workflow_factory = "json \<Rightarrow> string + workflow"

datatype dispatch_error = UnknownWorkflowType string | PolicyResolutionFailed string

record dispatcher =
  workflow_registry :: "workflow_factory hmap"
  schema_registry :: "workflow_schema hmap"

definition dispatcher_new :: dispatcher where
  "dispatcher_new = \<lparr>workflow_registry = [], schema_registry = []\<rparr>"

definition dispatcher_register :: "workflow_schema \<Rightarrow> workflow_factory \<Rightarrow> dispatcher \<Rightarrow> dispatcher" where
  "dispatcher_register S f d =
     (let t = workflow_type S
      in d\<lparr>workflow_registry := AList.update t f (workflow_registry d),
           schema_registry := AList.update t S (schema_registry d)\<rparr>)"

definition dispatch_with_event :: "dispatcher \<Rightarrow> string \<Rightarrow> json \<Rightarrow> dispatch_error + workflow" where
  "dispatch_with_event d t ev =
     bind_result (ok_or (map_of (workflow_registry d) t) (UnknownWorkflowType t))
       (\<lambda>f. map_err PolicyResolutionFailed (f ev))"

definition dispatch :: "dispatcher \<Rightarrow> string \<Rightarrow> dispatch_error + workflow" where
  "dispatch d t = dispatch_with_event d t JNull"

definition resolve_schema :: "dispatcher \<Rightarrow> string \<Rightarrow> dispatch_error + workflow_schema" where
  "resolve_schema d t = ok_or (map_of (schema_registry d) t) (UnknownWorkflowType t)"

definition registered_types :: "dispatcher \<Rightarrow> string list" where
  "registered_types d = map fst (workflow_registry d)"

definition is_registered :: "dispatcher \<Rightarrow> string \<Rightarrow> bool" where
  "is_registered d t \<longleftrightarrow> map_of (workflow_registry d) t \<noteq> None \<and> map_of (schema_registry d) t \<noteq> None"

interpretation factory_store: keyed_store "\<lambda>(S, f). workflow_type S" "\<lambda>(S, f). dispatcher_register S f"
  "\<lambda>d. map_of (workflow_registry d)" snd
  by unfold_locales (auto simp: dispatcher_register_def Let_def)

interpretation schema_store: keyed_store "\<lambda>(S, f). workflow_type S" "\<lambda>(S, f). dispatcher_register S f"
  "\<lambda>d. map_of (schema_registry d)" fst
  by unfold_locales (auto simp: dispatcher_register_def Let_def)

lemma find_SomeD: "List.find P xs = Some x \<Longrightarrow> P x"
  by (induction xs) (auto split: if_splits)

text \<open>
  The two registries of a dispatcher never disagree: after any registrations, a workflow type is
  unknown to dispatching exactly when it is unknown to schema resolution and exactly when it was
  never registered; otherwise both come from the last registration of that type, the schema is the
  one of that type, and dispatching runs its factory on the event and reports the factory's message.
\<close>

theorem dispatcher_in_sync:
  "let d = fold (\<lambda>(S, f). dispatcher_register S f) regs dispatcher_new
   in case List.find (\<lambda>(S, f). workflow_type S = t) (rev regs) of
        None \<Rightarrow> \<not> is_registered d t \<and> dispatch_with_event d t ev = Inl (UnknownWorkflowType t) \<and>
          resolve_schema d t = Inl (UnknownWorkflowType t)
      | Some (S, f) \<Rightarrow> is_registered d t \<and> resolve_schema d t = Inr S \<and> workflow_type S = t \<and>
          dispatch_with_event d t ev = map_err PolicyResolutionFailed (f ev)"
proof -
  let ?d = "fold (\<lambda>(S, f). dispatcher_register S f) regs dispatcher_new"
  let ?last = "List.find (\<lambda>(S, f). workflow_type S = t) (rev regs)"
  have keys: "(\<lambda>x. (case x of (S, f) \<Rightarrow> workflow_type S) = t) = (\<lambda>(S, f). workflow_type S = t)"
    by auto
  have regs: "map_of (workflow_registry ?d) t = map_option snd ?last"
      "map_of (schema_registry ?d) t = map_option fst ?last"
    unfolding factory_store.look_fold_put schema_store.look_fold_put keys
    by (simp_all add: dispatcher_new_def split: option.splits)
  show ?thesis
  proof (cases ?last)
    case None
    with regs show ?thesis
      by (simp add: is_registered_def dispatch_with_event_def resolve_schema_def)
  next
    case (Some p)
    from find_SomeD [OF this] have "workflow_type (fst p) = t" by (auto split: prod.splits)
    with regs Some show ?thesis
      by (cases p) (simp add: is_registered_def dispatch_with_event_def resolve_schema_def)
  qed
qed

end
