(* ===== verification/Serve.thy ===== *)
theory Serve
  imports Sweep Stream Dispatch
begin

text \<open>
  The serving layer (\<open>engine-serve\<close>): triggering, driving, pausing, suspending, resuming and aborting
  runs over HTTP (\<open>http.rs\<close>, \<open>suspend.rs\<close>, \<open>resume.rs\<close>, \<open>abort.rs\<close>).

  A \<open>server\<close> holds everything the handlers and the spawned tasks share: the run store, the streams, the
  index of suspended runs, the registries of cancellation tokens and pause signals, the side table
  of started runs, the channel to the durable writer with the database behind it, the tokens handed
  from a factory to \<open>spawn_run\<close> on each worker thread, and the tasks that drive runs. Tokens and
  signals are shared by reference, so they are numbers, and the raised ones are a set. A handler is
  one definition, except that a resume is two, because a request may come in between the moment it
  takes the entry and the moment it commits; the exit of a task is three, because a resume may come in before the
  old task has given up its token and its pause signal. What the handlers read from the process (the key, the
  dispatcher, the repository registry, the file system) is an \<open>http_env\<close>; \<open>he_publishes\<close> says which
  factories hand a token over and for which campaign. The clock, fresh identifiers and the success
  of a database read are arguments.
\<close>

subsection \<open>Requests and responses\<close>

record http_env =
  he_serve :: serve_env
  he_api_key :: string
  he_dispatcher :: dispatcher
  he_publishes :: "string \<Rightarrow> json \<Rightarrow> uuid option option"
  he_budget :: budget
  he_registry :: "(string \<Rightarrow> string + string) option"
  he_current_dir :: "string + string"
  he_is_dir :: "string \<Rightarrow> bool"

abbreviation he_formats :: "http_env \<Rightarrow> ext" where
  "he_formats H \<equiv> se_formats (he_serve H)"

datatype http_error =
    Unauthorized
  | NotFound
  | Conflict string
  | Unprocessable string "(string \<times> string) list"

definition check_api_key :: "string option \<Rightarrow> string \<Rightarrow> bool" where
  "check_api_key header expected = (case header of Some v \<Rightarrow> v = expected | None \<Rightarrow> False)"

subsection \<open>Suspended runs\<close>

record suspended_entry =
  su_workflow_type :: string
  su_data :: json
  su_snapshot :: task_context
  su_created_at :: timestamp
  su_suspended_at :: timestamp
  su_resume_at :: string
  su_reason :: string
  su_resuming :: bool

datatype take_for_resume = ReadyToResume suspended_entry | AlreadyResuming | NotSuspended

record suspended_index =
  ix_entries :: "uuid \<rightharpoonup> suspended_entry"
  ix_order :: "uuid list"

definition index_insert ::
  "uuid \<Rightarrow> suspended_entry \<Rightarrow> suspended_index \<Rightarrow> (uuid \<times> suspended_entry) option \<times> suspended_index" where
  "index_insert r entry I =
     (let es = (ix_entries I)(r \<mapsto> entry);
          ord = (if ix_entries I r = None then ix_order I @ [r] else ix_order I)
      in if length ord > completed_run_retention then
           (case ord of
              [] \<Rightarrow> (None, \<lparr>ix_entries = es, ix_order = ord\<rparr>)
            | oldest # rest \<Rightarrow>
                if oldest = r then (None, \<lparr>ix_entries = es, ix_order = rest\<rparr>)
                else (case es oldest of
                        Some evicted \<Rightarrow> (Some (oldest, evicted), \<lparr>ix_entries = es(oldest := None), ix_order = rest\<rparr>)
                      | None \<Rightarrow> (None, \<lparr>ix_entries = es, ix_order = rest\<rparr>)))
         else (None, \<lparr>ix_entries = es, ix_order = ord\<rparr>))"

definition list_suspended :: "suspended_index \<Rightarrow> (uuid \<times> suspended_entry) list" where
  "list_suspended I = List.map_filter (\<lambda>r. map_option (\<lambda>e. (r, e)) (ix_entries I r)) (rev (ix_order I))"

definition take_entry :: "uuid \<Rightarrow> suspended_index \<Rightarrow> take_for_resume \<times> suspended_index" where
  "take_entry r I =
     (case ix_entries I r of
        None \<Rightarrow> (NotSuspended, I)
      | Some e \<Rightarrow>
          if su_resuming e then (AlreadyResuming, I)
          else let e' = e\<lparr>su_resuming := True\<rparr>
               in (ReadyToResume e', I\<lparr>ix_entries := (ix_entries I)(r \<mapsto> e')\<rparr>))"

definition clear_resuming :: "uuid \<Rightarrow> suspended_index \<Rightarrow> suspended_index" where
  "clear_resuming r I =
     (case ix_entries I r of
        None \<Rightarrow> I
      | Some e \<Rightarrow> I\<lparr>ix_entries := (ix_entries I)(r \<mapsto> e\<lparr>su_resuming := False\<rparr>)\<rparr>)"

definition remove_suspended :: "uuid \<Rightarrow> suspended_index \<Rightarrow> suspended_entry option \<times> suspended_index" where
  "remove_suspended r I =
     (case ix_entries I r of
        None \<Rightarrow> (None, I)
      | Some e \<Rightarrow> (Some e, \<lparr>ix_entries = (ix_entries I)(r := None), ix_order = filter (\<lambda>j. j \<noteq> r) (ix_order I)\<rparr>))"

text \<open>The pointer and the reason of an entry, as both of its sources read them from the marker.\<close>

definition marker_resume_at :: "json \<Rightarrow> string" where
  "marker_resume_at m =
     (case Option.bind (read_suspension m) ss_resume_at of Some i \<Rightarrow> i | None \<Rightarrow> [])"

definition marker_reason :: "json \<Rightarrow> string" where
  "marker_reason m =
     (case Option.bind (read_suspension m) ss_reason of Some r \<Rightarrow> suspend_reason_str r | None \<Rightarrow> [])"

subsection \<open>The server\<close>

record pending_token =
  pt_token :: nat
  pt_campaign_id :: "uuid option"

record spawned_run =
  sp_run_id :: uuid
  sp_workflow :: workflow
  sp_workflow_type :: string
  sp_data :: json
  sp_created_at :: timestamp
  sp_start :: queue_run_start
  sp_token :: nat
  sp_pause :: nat
  sp_budget :: budget
  sp_campaign :: "uuid option"
  sp_sent :: nat

datatype file_effect = WriteBlockedState string task_context string | RemoveWorktree string string

record server =
  sv_live :: live_store
  sv_streams :: stream_registry
  sv_index :: suspended_index
  sv_started :: "uuid \<rightharpoonup> string \<times> timestamp"
  sv_runs :: "uuid \<rightharpoonup> nat"
  sv_campaigns :: "uuid \<rightharpoonup> nat"
  sv_pauses :: "uuid \<rightharpoonup> nat"
  sv_cancelled :: "nat set"
  sv_paused :: "nat set"
  sv_next_flag :: nat
  sv_pending :: "nat \<rightharpoonup> pending_token"
  sv_channel :: "durable_item list"
  sv_pool :: "database option"
  sv_tasks :: "spawned_run list"
  sv_effects :: "file_effect list"

definition server_new :: "database option \<Rightarrow> server" where
  "server_new pool = \<lparr>sv_live = live_store_new, sv_streams = registry_empty,
     sv_index = \<lparr>ix_entries = Map.empty, ix_order = []\<rparr>, sv_started = Map.empty, sv_runs = Map.empty,
     sv_campaigns = Map.empty, sv_pauses = Map.empty, sv_cancelled = {}, sv_paused = {}, sv_next_flag = 0,
     sv_pending = Map.empty, sv_channel = [], sv_pool = pool, sv_tasks = [], sv_effects = []\<rparr>"

definition new_flag :: "server \<Rightarrow> nat \<times> server" where
  "new_flag V = (sv_next_flag V, V\<lparr>sv_next_flag := Suc (sv_next_flag V)\<rparr>)"

text \<open>Calling the factory of a workflow type, with the token it leaves on the thread.\<close>

definition call_factory :: "http_env \<Rightarrow> nat \<Rightarrow> string \<Rightarrow> json \<Rightarrow> server \<Rightarrow> (dispatch_error + workflow) \<times> server" where
  "call_factory H th wt data V =
     (dispatch_with_event (he_dispatcher H) wt data,
      if map_of (workflow_registry (he_dispatcher H)) wt = None then V
      else case he_publishes H wt data of
        None \<Rightarrow> V
      | Some campaign \<Rightarrow>
          (case new_flag V of (tok, V1) \<Rightarrow>
             V1\<lparr>sv_pending := (sv_pending V1)(th \<mapsto> \<lparr>pt_token = tok, pt_campaign_id = campaign\<rparr>)\<rparr>))"

definition take_pending_run_token :: "nat \<Rightarrow> server \<Rightarrow> pending_token option \<times> server" where
  "take_pending_run_token th V = (sv_pending V th, V\<lparr>sv_pending := (sv_pending V)(th := None)\<rparr>)"

text \<open>The synchronous half of \<open>spawn_run\<close>: the run adopts a pending token, then the task is spawned.\<close>

definition spawn_run :: "nat \<Rightarrow> spawned_run \<Rightarrow> server \<Rightarrow> server" where
  "spawn_run th sp V =
     (case take_pending_run_token th V of
        (None, V1) \<Rightarrow> V1\<lparr>sv_tasks := sv_tasks V1 @ [sp]\<rparr>
      | (Some pt, V1) \<Rightarrow>
          V1\<lparr>sv_runs := (sv_runs V1)(sp_run_id sp \<mapsto> pt_token pt),
             sv_campaigns := (case pt_campaign_id pt of
                Some c \<Rightarrow> (sv_campaigns V1)(c \<mapsto> pt_token pt) | None \<Rightarrow> sv_campaigns V1),
             sv_tasks := sv_tasks V1 @ [sp\<lparr>sp_token := pt_token pt, sp_campaign := pt_campaign_id pt\<rparr>]\<rparr>)"

subsection \<open>Triggering a run\<close>

text \<open>\<open>Path::join\<close>\<close>

definition path_push :: "string \<Rightarrow> string \<Rightarrow> string" where
  "path_push a b = (case b of c # _ \<Rightarrow> if c = CHR ''/'' then b else path_join a b | [] \<Rightarrow> path_join a b)"

definition sdlc_flow_type :: string where "sdlc_flow_type = ''SDLC_FLOW''"
definition sdlc_task_type :: string where "sdlc_task_type = ''SDLC_TASK''"

definition quoted :: "string \<Rightarrow> string" where
  "quoted t = CHR 0x27 # t @ [CHR 0x27]"

definition preflight :: "http_env \<Rightarrow> string \<Rightarrow> json \<Rightarrow> http_error option" where
  "preflight H wt data =
     (if wt = sdlc_flow_type \<or> wt = sdlc_task_type then
        (let target = (case Option.bind (json_get data ''repo'') as_str of
             Some slug \<Rightarrow>
               (case he_registry H of
                  Some resolve_repo \<Rightarrow>
                    (case resolve_repo slug of
                       Inr d \<Rightarrow> Inr d
                     | Inl msg \<Rightarrow> Inl (Unprocessable ''unknown repo'' [(''repo'', slug), (''message'', msg)]))
                | None \<Rightarrow> Inl (Unprocessable ''unknown repo'' [(''repo'', slug), (''message'',
                    wt @ '' event named repo slug '' @ quoted slug @ '' but no repo registry is available to resolve it'')]))
           | None \<Rightarrow>
               (case he_current_dir H of
                  Inr dir \<Rightarrow> Inr dir
                | Inl msg \<Rightarrow> Inl (Unprocessable ''unresolvable target root'' [(''message'', msg)])))
         in case target of
              Inl e \<Rightarrow> Some e
            | Inr dir \<Rightarrow>
                (case Option.bind (json_get data ''spec_slug'') as_str of
                   None \<Rightarrow> None
                 | Some slug \<Rightarrow>
                     let spec_dir = path_push (path_push dir ''planning'') slug
                     in if he_is_dir H spec_dir then None
                        else Some (Unprocessable ''unknown spec_slug'' [(''spec_slug'', slug),
                          (''message'', ''spec directory '' @ quoted spec_dir @ '' does not exist'')])))
      else None)"

definition post_events ::
  "http_env \<Rightarrow> nat \<Rightarrow> timestamp \<Rightarrow> uuid \<Rightarrow> string option \<Rightarrow> string \<Rightarrow> json \<Rightarrow> server \<Rightarrow> (http_error + uuid) \<times> server" where
  "post_events H th now r header wt data V =
     (if \<not> check_api_key header (he_api_key H) then (Inl Unauthorized, V)
      else case call_factory H th wt data V of
        (Inl (UnknownWorkflowType t), V1) \<Rightarrow> (Inl (Unprocessable ''unknown workflow_type'' [(''workflow_type'', t)]), V1)
      | (Inl (PolicyResolutionFailed m), V1) \<Rightarrow> (Inl (Unprocessable ''policy resolution failed'' [(''message'', m)]), V1)
      | (Inr w, V1) \<Rightarrow>
          (case preflight H wt data of
             Some e \<Rightarrow> (Inl e, V1)
           | None \<Rightarrow>
               (case new_flag V1 of (token, V2) \<Rightarrow>
                (case new_flag (V2\<lparr>sv_runs := (sv_runs V2)(r \<mapsto> token)\<rparr>) of (pause, V3) \<Rightarrow>
                   (Inr r, spawn_run th
                      \<lparr>sp_run_id = r, sp_workflow = w, sp_workflow_type = wt, sp_data = data, sp_created_at = now,
                       sp_start = FreshStart data, sp_token = token, sp_pause = pause, sp_budget = he_budget H,
                       sp_campaign = None, sp_sent = 0\<rparr>
                      (V3\<lparr>sv_pauses := (sv_pauses V3)(r \<mapsto> pause),
                          sv_started := (sv_started V3)(r \<mapsto> (wt, now))\<rparr>))))))"

subsection \<open>Driving a run\<close>

definition empty_task_context :: task_context where
  "empty_task_context = \<lparr>event = JNull, nodes = [], metadata = JObj [], node_runs = []\<rparr>"

definition failed_node_reason :: "task_context \<Rightarrow> string option" where
  "failed_node_reason ctx =
     (case List.find (\<lambda>(_, nr). nr_status nr = Failed) (node_runs ctx) of
        None \<Rightarrow> None
      | Some (name, nr) \<Rightarrow> Some (''node '' @ name @ '' failed: '' @
          (case nr_error nr of Some e \<Rightarrow> e | None \<Rightarrow> ''unknown error'')))"

definition teardown_target :: "task_context \<Rightarrow> (string \<times> string) option" where
  "teardown_target ctx =
     (if map_option nr_status (map_of (node_runs ctx) ''LoadTaskStateNode'') = Some Success then None
      else do {
        setup \<leftarrow> map_of (nodes ctx) ''SetupWorktreeNode'';
        path \<leftarrow> Option.bind (json_get setup ''worktree_path'') as_str;
        branch \<leftarrow> Option.bind (json_get setup ''branch_name'') as_str;
        Some (path, branch)
      })"

text \<open>The three-way fan-out of one snapshot of a task: live state, durable writer, stream.\<close>

definition progress_fanout :: "http_env \<Rightarrow> timestamp \<Rightarrow> task_context \<Rightarrow> spawned_run \<Rightarrow> server \<Rightarrow> spawned_run \<times> server" where
  "progress_fanout H now snapshot sp V =
     (case durable_on_progress (he_formats H) (sp_run_id sp) (sp_workflow_type sp) (sp_data sp) snapshot (sp_sent sp) of
        (items, sent) \<Rightarrow>
          (sp\<lparr>sp_sent := sent\<rparr>,
           V\<lparr>sv_live := store_record (sp_run_id sp) snapshot now (sv_live V),
             sv_channel := sv_channel V @ items,
             sv_streams := publish (sp_run_id sp) snapshot (sv_streams V)\<rparr>))"

record step_progress =
  spr_repo :: string
  spr_block_id :: string
  spr_index :: u64
  spr_total :: u64
  spr_status :: string

definition publish_step_progress ::
  "http_env \<Rightarrow> timestamp \<Rightarrow> step_progress \<Rightarrow> spawned_run \<Rightarrow> server \<Rightarrow> server" where
  "publish_step_progress H now p sp V =
     snd (progress_fanout H now \<lparr>event = sp_data sp, nodes = [],
        metadata = JObj [(''orchestration_step_progress'', JObj
          [(''repo'', JStr (spr_repo p)), (''block_id'', JStr (spr_block_id p)), (''index'', json_u64 (spr_index p)),
           (''total'', json_u64 (spr_total p)), (''status'', JStr (spr_status p))])],
        node_runs = []\<rparr> (sp\<lparr>sp_sent := 0\<rparr>) V)"

definition stamp_terminal_completion :: "ext \<Rightarrow> timestamp \<Rightarrow> task_context \<Rightarrow> task_context" where
  "stamp_terminal_completion X now ctx =
     ctx\<lparr>metadata := stamp_completion X now (derive_terminal_status ctx) (metadata ctx)\<rparr>"

text \<open>The context a run ends with and the reason it did not end cleanly; \<open>msg\<close> is the text of a panic.\<close>

definition run_outcome :: "live_store \<Rightarrow> uuid \<Rightarrow> string \<Rightarrow> drive_result \<Rightarrow> task_context \<times> string option" where
  "run_outcome L r msg res =
     (let last_ctx = (case live_get L r of Some c \<Rightarrow> c | None \<Rightarrow> empty_task_context)
      in case res of
           DriveOk ctx \<Rightarrow> (ctx, failed_node_reason ctx)
         | DriveErr e \<Rightarrow> (last_ctx\<lparr>metadata := stamp_failure e (metadata last_ctx)\<rparr>, Some e)
         | DrivePanic \<Rightarrow> (let e = ''node panicked: '' @ msg
             in (last_ctx\<lparr>metadata := stamp_failure e (metadata last_ctx)\<rparr>, Some e)))"

definition ends_suspended :: "task_context \<Rightarrow> bool" where
  "ends_suspended ctx \<longleftrightarrow> is_suspended (metadata ctx) \<and> \<not> flag_at (metadata ctx) ''cancellation'' ''cancelled''"

definition terminal_effects :: "spawned_run \<Rightarrow> task_context \<Rightarrow> string option \<Rightarrow> file_effect list" where
  "terminal_effects sp ctx reason =
     (if sp_workflow_type sp = sdlc_flow_type \<or> sp_workflow_type sp = sdlc_task_type then
        (case reason of
           None \<Rightarrow> []
         | Some why \<Rightarrow>
             [WriteBlockedState (if sp_workflow_type sp = sdlc_task_type then ''sdlc-task-state.json''
                else ''sdlc-flow-state.json'') ctx why] @
             (case teardown_target ctx of Some (path, branch) \<Rightarrow> [RemoveWorktree path branch] | None \<Rightarrow> []))
      else [])"

definition entry_of_run :: "timestamp \<Rightarrow> spawned_run \<Rightarrow> task_context \<Rightarrow> suspended_entry" where
  "entry_of_run now sp ctx = \<lparr>su_workflow_type = sp_workflow_type sp, su_data = sp_data sp, su_snapshot = ctx,
     su_created_at = sp_created_at sp, su_suspended_at = now, su_resume_at = marker_resume_at (metadata ctx),
     su_reason = marker_reason (metadata ctx), su_resuming = False\<rparr>"

text \<open>The suspended exit, with the run the index had no room for.\<close>

definition suspended_exit :: "http_env \<Rightarrow> timestamp \<Rightarrow> spawned_run \<Rightarrow> task_context \<Rightarrow> server \<Rightarrow> server" where
  "suspended_exit H now sp ctx V =
     (let r = sp_run_id sp
      in case index_insert r (entry_of_run now sp ctx) (sv_index V) of
           (evicted, I) \<Rightarrow>
             let V1 = V\<lparr>sv_streams := publish_suspended r ctx (sv_streams V),
                        sv_live := store_record r ctx now (sv_live V), sv_index := I\<rparr>
             in case evicted of
                  None \<Rightarrow> V1
                | Some (victim, e) \<Rightarrow>
                    let snap = stamp_terminal_completion (he_formats H) now
                          ((su_snapshot e)\<lparr>metadata := stamp_cancelled (he_formats H) now (metadata (su_snapshot e))\<rparr>)
                    in V1\<lparr>sv_channel := sv_channel V1 @ [durable_record victim (su_workflow_type e) (su_data e) snap],
                          sv_live := mark_terminal (he_serve H) now victim snap (su_workflow_type e)
                            (su_created_at e) now (sv_live V1)\<rparr>)"

definition terminal_exit :: "http_env \<Rightarrow> timestamp \<Rightarrow> spawned_run \<Rightarrow> task_context \<Rightarrow> server \<Rightarrow> server" where
  "terminal_exit H now sp ctx V =
     (let r = sp_run_id sp; final = stamp_terminal_completion (he_formats H) now ctx
      in V\<lparr>sv_channel := sv_channel V @ [durable_record r (sp_workflow_type sp) (sp_data sp) final],
           sv_streams := publish_terminal r final (sv_streams V),
           sv_live := mark_terminal (he_serve H) now r final (sp_workflow_type sp) (sp_created_at sp) now (sv_live V),
           sv_started := (sv_started V)(r := None)\<rparr>)"

text \<open>
  The exit of the spawned task. When the driver has returned, the task takes leave: the run is listed as
  suspended, or recorded as ended, and is driven no longer. Then it gives up the token and the campaign, and last
  the pause signal, each by the number of the run alone. Another thread may come in between these steps, so they
  are definitions of their own.
\<close>

definition leave_run :: "http_env \<Rightarrow> timestamp \<Rightarrow> string \<Rightarrow> drive_result \<Rightarrow> spawned_run \<Rightarrow> server \<Rightarrow> server" where
  "leave_run H now msg res sp V =
     (case run_outcome (sv_live V) (sp_run_id sp) msg res of
        (ctx, reason) \<Rightarrow>
          let V1 = (if ends_suspended ctx then suspended_exit H now sp ctx V
                    else terminal_exit H now sp ctx
                      (V\<lparr>sv_effects := sv_effects V @ terminal_effects sp ctx reason\<rparr>))
          in V1\<lparr>sv_tasks := filter (\<lambda>t. sp_token t \<noteq> sp_token sp) (sv_tasks V1)\<rparr>)"

definition deregister_run :: "spawned_run \<Rightarrow> server \<Rightarrow> server" where
  "deregister_run sp V = V\<lparr>sv_runs := (sv_runs V)(sp_run_id sp := None),
     sv_campaigns := (case sp_campaign sp of Some c \<Rightarrow> (sv_campaigns V)(c := None) | None \<Rightarrow> sv_campaigns V)\<rparr>"

definition remove_pause_signal :: "uuid \<Rightarrow> server \<Rightarrow> server" where
  "remove_pause_signal r V = V\<lparr>sv_pauses := (sv_pauses V)(r := None)\<rparr>"

text \<open>The whole exit, with nothing coming in between.\<close>

definition finish_run :: "http_env \<Rightarrow> timestamp \<Rightarrow> string \<Rightarrow> drive_result \<Rightarrow> spawned_run \<Rightarrow> server \<Rightarrow> server" where
  "finish_run H now msg res sp V =
     remove_pause_signal (sp_run_id sp) (deregister_run sp (leave_run H now msg res sp V))"

text \<open>The flags a walk of the task reads, at the moments the server is in the given states.\<close>

definition task_options :: "spawned_run \<Rightarrow> (nat \<Rightarrow> server) \<Rightarrow> run_options" where
  "task_options sp states =
     \<lparr>ro_cancelled = Some (\<lambda>t. sp_token sp \<in> sv_cancelled (states t)), ro_budget = Some (sp_budget sp),
      ro_paused = Some (\<lambda>t. sp_pause sp \<in> sv_paused (states t)), ro_run_id = Some (sp_run_id sp)\<rparr>"

subsection \<open>Pausing, resuming and aborting\<close>

definition pause_run :: "http_env \<Rightarrow> string option \<Rightarrow> uuid \<Rightarrow> server \<Rightarrow> (http_error + unit) \<times> server" where
  "pause_run H header r V =
     (if \<not> check_api_key header (he_api_key H) then (Inl Unauthorized, V)
      else if list_ex (\<lambda>(j, _). j = r) (list_suspended (sv_index V)) then (Inl (Conflict ''run is already suspended''), V)
      else case sv_pauses V r of
        Some signal \<Rightarrow> (Inr (), V\<lparr>sv_paused := insert signal (sv_paused V)\<rparr>)
      | None \<Rightarrow> (Inl NotFound, V))"

definition rehydrate_from_store :: "bool \<Rightarrow> database option \<Rightarrow> uuid \<Rightarrow> suspended_entry option" where
  "rehydrate_from_store ok pool r =
     (case pool of
        None \<Rightarrow> None
      | Some db \<Rightarrow>
          if \<not> ok then None
          else (case store_get_event db r of
             None \<Rightarrow> None
           | Some row \<Rightarrow>
               let m = metadata (er_task_context row)
               in if \<not> is_suspended m then None
                  else Some \<lparr>su_workflow_type = er_workflow_type row, su_data = er_data row,
                    su_snapshot = er_task_context row, su_created_at = er_created_at row,
                    su_suspended_at = er_updated_at row, su_resume_at = marker_resume_at m,
                    su_reason = marker_reason m, su_resuming = True\<rparr>))"

definition resume_take ::
  "http_env \<Rightarrow> bool \<Rightarrow> string option \<Rightarrow> uuid \<Rightarrow> server \<Rightarrow> (http_error + suspended_entry) \<times> server" where
  "resume_take H ok header r V =
     (if \<not> check_api_key header (he_api_key H) then (Inl Unauthorized, V)
      else case take_entry r (sv_index V) of
        (ReadyToResume e, I) \<Rightarrow> (Inr e, V\<lparr>sv_index := I\<rparr>)
      | (AlreadyResuming, _) \<Rightarrow> (Inl (Conflict ''resume already in flight''), V)
      | (NotSuspended, _) \<Rightarrow>
          (case rehydrate_from_store ok (sv_pool V) r of Some e \<Rightarrow> (Inr e, V) | None \<Rightarrow> (Inl NotFound, V)))"

definition resume_ledger :: "task_context \<Rightarrow> budget_ledger" where
  "resume_ledger ctx =
     (case Option.bind (read_suspension (metadata ctx)) ss_ledger of
        Some l \<Rightarrow> from_parts (ls_total_tokens l) (ls_total_cost_usd l)
      | None \<Rightarrow> ledger_from_context ctx)"

definition resume_commit ::
  "http_env \<Rightarrow> nat \<Rightarrow> uuid \<Rightarrow> suspended_entry \<Rightarrow> server \<Rightarrow> (http_error + string) \<times> server" where
  "resume_commit H th r e V =
     (let refused = (\<lambda>err U. (Inl err, U\<lparr>sv_index := clear_resuming r (sv_index U)\<rparr>))
      in if Option.bind (read_suspension (metadata (su_snapshot e))) ss_reason = Some HeavyWorkQueue
         then refused (Conflict ''run is parked on the heavy-work queue'') V
         else case call_factory H th (su_workflow_type e) (su_data e) V of
           (Inl (UnknownWorkflowType t), V1) \<Rightarrow>
             refused (Unprocessable ''policy resolution failed'' [(''message'', ''unknown workflow_type '' @ quoted t)]) V1
         | (Inl (PolicyResolutionFailed m), V1) \<Rightarrow>
             refused (Unprocessable ''policy resolution failed'' [(''message'', m)]) V1
         | (Inr w, V1) \<Rightarrow>
             if \<not> has_node (without_seeded_nodes w) (su_resume_at e)
             then refused (Unprocessable ''resume point no longer exists in the workflow graph''
                    [(''resume_at'', su_resume_at e)]) V1
             else (case new_flag V1 of (token, V2) \<Rightarrow>
               (case new_flag (V2\<lparr>sv_runs := (sv_runs V2)(r \<mapsto> token)\<rparr>) of (pause, V3) \<Rightarrow>
                  (Inr (su_resume_at e), spawn_run th
                     \<lparr>sp_run_id = r, sp_workflow = without_seeded_nodes w, sp_workflow_type = su_workflow_type e,
                      sp_data = su_data e, sp_created_at = su_created_at e,
                      sp_start = ResumeStart \<lparr>rs_ctx = su_snapshot e, rs_at_identity = su_resume_at e,
                        rs_ledger = resume_ledger (su_snapshot e)\<rparr>,
                      sp_token = token, sp_pause = pause, sp_budget = he_budget H, sp_campaign = None, sp_sent = 0\<rparr>
                     (V3\<lparr>sv_pauses := (sv_pauses V3)(r \<mapsto> pause),
                         sv_started := (sv_started V3)(r \<mapsto> (su_workflow_type e, su_created_at e)),
                         sv_streams := clear_terminal r (sv_streams V3),
                         sv_index := snd (remove_suspended r (sv_index V3))\<rparr>)))))"

definition resume_run ::
  "http_env \<Rightarrow> nat \<Rightarrow> bool \<Rightarrow> string option \<Rightarrow> uuid \<Rightarrow> server \<Rightarrow> (http_error + string) \<times> server" where
  "resume_run H th ok header r V =
     (case resume_take H ok header r V of
        (Inl err, V1) \<Rightarrow> (Inl err, V1)
      | (Inr e, V1) \<Rightarrow> resume_commit H th r e V1)"

definition abort_run ::
  "http_env \<Rightarrow> timestamp \<Rightarrow> string option \<Rightarrow> uuid \<Rightarrow> server \<Rightarrow> (http_error + unit) \<times> server" where
  "abort_run H now header r V =
     (if \<not> check_api_key header (he_api_key H) then (Inl Unauthorized, V)
      else case sv_runs V r of
        Some token \<Rightarrow> (Inr (), V\<lparr>sv_cancelled := insert token (sv_cancelled V)\<rparr>)
      | None \<Rightarrow>
          (case remove_suspended r (sv_index V) of
             (None, _) \<Rightarrow> (Inl NotFound, V)
           | (Some e, I) \<Rightarrow>
               let snap = (su_snapshot e)\<lparr>metadata := stamp_cancelled (he_formats H) now (metadata (su_snapshot e))\<rparr>
               in (Inr (), V\<lparr>sv_index := I,
                     sv_streams := publish_terminal r snap (sv_streams V),
                     sv_live := mark_terminal (he_serve H) now r snap (su_workflow_type e) (su_created_at e) now (sv_live V),
                     sv_started := (sv_started V)(r := None)\<rparr>)))"

definition abort_campaign ::
  "http_env \<Rightarrow> string option \<Rightarrow> string \<Rightarrow> server \<Rightarrow> (http_error + unit) \<times> server" where
  "abort_campaign H header raw V =
     (if \<not> check_api_key header (he_api_key H) then (Inl Unauthorized, V)
      else case uuid_parse (he_formats H) raw of
        None \<Rightarrow> (Inl NotFound, V)
      | Some c \<Rightarrow>
          (case sv_campaigns V c of
             Some token \<Rightarrow> (Inr (), V\<lparr>sv_cancelled := insert token (sv_cancelled V)\<rparr>)
           | None \<Rightarrow> (Inl NotFound, V)))"

subsection \<open>Reading back\<close>

record readback =
  rb_workflow_type :: string
  rb_status :: string
  rb_created_at :: timestamp
  rb_updated_at :: timestamp
  rb_context :: task_context

definition get_event :: "http_env \<Rightarrow> timestamp \<Rightarrow> string option \<Rightarrow> string \<Rightarrow> server \<Rightarrow> http_error + readback" where
  "get_event H now header raw V =
     (if \<not> check_api_key header (he_api_key H) then Inl Unauthorized
      else case uuid_parse (he_formats H) raw of
        None \<Rightarrow> Inl NotFound
      | Some r \<Rightarrow>
          (case get_record (sv_live V) r of
             Some rec \<Rightarrow> Inr \<lparr>rb_workflow_type = rr_workflow_type rec, rb_status = derive_terminal_status (rr_snapshot rec),
               rb_created_at = rr_created_at rec, rb_updated_at = rr_updated_at rec, rb_context = rr_snapshot rec\<rparr>
           | None \<Rightarrow>
               (case live_get (sv_live V) r of
                  Some snapshot \<Rightarrow>
                    (case (case sv_started V r of Some p \<Rightarrow> p | None \<Rightarrow> (''unknown'', now)) of
                       (wt, created) \<Rightarrow> Inr \<lparr>rb_workflow_type = wt, rb_status = derive_live_status snapshot,
                         rb_created_at = created, rb_updated_at = now, rb_context = snapshot\<rparr>)
                | None \<Rightarrow>
                    (case sv_started V r of
                       Some (wt, created) \<Rightarrow> Inr \<lparr>rb_workflow_type = wt, rb_status = ''running'',
                         rb_created_at = created, rb_updated_at = now, rb_context = empty_task_context\<rparr>
                     | None \<Rightarrow> Inl NotFound))))"

definition stream_event ::
  "http_env \<Rightarrow> string option \<Rightarrow> string \<Rightarrow> server \<Rightarrow>
   (http_error + stream_frame receiver \<times> progress_frame receiver) \<times> server" where
  "stream_event H header raw V =
     (if \<not> check_api_key header (he_api_key H) then (Inl Unauthorized, V)
      else case uuid_parse (he_formats H) raw of
        None \<Rightarrow> (Inl NotFound, V)
      | Some r \<Rightarrow>
          if \<not> stream_known (sv_live V) (sv_started V) r then (Inl NotFound, V)
          else (case subscribe r (sv_streams V) of (rcv, G) \<Rightarrow>
            (case subscribe_progress r G of (prcv, G1) \<Rightarrow> (Inr (rcv, prcv), V\<lparr>sv_streams := G1\<rparr>))))"

end
