(* ===== verification/ServeLaws.thy ===== *)
theory ServeLaws
  imports Serve
begin

text \<open>
  Laws of the serving layer: the interleavings of requests with the tasks that drive runs and with the
  durable writer, who drives a run, what the exits of a run leave behind, and what a resume continues.
\<close>

subsection \<open>Interleavings\<close>

text \<open>
  The state of the service: the server, the resumes between their two halves, the tasks that have left their
  run but not yet deregistered it, those that have yet to remove its pause signal, and the identifiers
  handed out so far. To state what becomes of the registrations, the state also collects the tokens of the
  tasks whose run an older task of the same run deregistered while they drove it, and of those whose pause
  signal one removed. Each handler and each half of a resume is one step. A task publishes arbitrary snapshots and ends with an arbitrary result, so what
  follows holds for every workflow.
\<close>

record serving =
  sg_server :: server
  sg_inflight :: "(uuid \<times> suspended_entry) list"
  sg_leaving :: "spawned_run list"
  sg_unpausing :: "spawned_run list"
  sg_unregistered :: "nat set"
  sg_deaf :: "nat set"
  sg_used :: "uuid set"

definition tokens_of :: "uuid \<Rightarrow> server \<Rightarrow> nat set" where
  "tokens_of r V = sp_token ` {t \<in> set (sv_tasks V). sp_run_id t = r}"

inductive serve_step :: "http_env \<Rightarrow> serving \<Rightarrow> serving \<Rightarrow> bool" for H where
  posted: "r \<notin> sg_used G \<Longrightarrow> post_events H th now r key wt data (sg_server G) = (res, V) \<Longrightarrow>
    serve_step H G (G\<lparr>sg_server := V, sg_used := insert r (sg_used G)\<rparr>)"
| progressed: "sp \<in> set (sv_tasks (sg_server G)) \<Longrightarrow> progress_fanout H now c sp (sg_server G) = (sp', V) \<Longrightarrow>
    serve_step H G (G\<lparr>sg_server := V\<lparr>sv_tasks := map (\<lambda>t. if t = sp then sp' else t) (sv_tasks V)\<rparr>\<rparr>)"
| stepped: "sp \<in> set (sv_tasks (sg_server G)) \<Longrightarrow>
    serve_step H G (G\<lparr>sg_server := publish_step_progress H now p sp (sg_server G)\<rparr>)"
| left: "sp \<in> set (sv_tasks (sg_server G)) \<Longrightarrow>
    serve_step H G (G\<lparr>sg_server := leave_run H now msg res sp (sg_server G), sg_leaving := sg_leaving G @ [sp]\<rparr>)"
| deregistered: "sp \<in> set (sg_leaving G) \<Longrightarrow>
    serve_step H G (G\<lparr>sg_server := deregister_run sp (sg_server G), sg_leaving := remove1 sp (sg_leaving G),
      sg_unpausing := sg_unpausing G @ [sp],
      sg_unregistered := sg_unregistered G \<union> tokens_of (sp_run_id sp) (sg_server G)\<rparr>)"
| unpaused: "sp \<in> set (sg_unpausing G) \<Longrightarrow>
    serve_step H G (G\<lparr>sg_server := remove_pause_signal (sp_run_id sp) (sg_server G),
      sg_unpausing := remove1 sp (sg_unpausing G), sg_deaf := sg_deaf G \<union> tokens_of (sp_run_id sp) (sg_server G)\<rparr>)"
| paused: "pause_run H key r (sg_server G) = (ans, V) \<Longrightarrow> serve_step H G (G\<lparr>sg_server := V\<rparr>)"
| took: "resume_take H ok key r (sg_server G) = (Inr e, V) \<Longrightarrow>
    serve_step H G (G\<lparr>sg_server := V, sg_inflight := sg_inflight G @ [(r, e)]\<rparr>)"
| refused: "resume_take H ok key r (sg_server G) = (Inl err, V) \<Longrightarrow> serve_step H G (G\<lparr>sg_server := V\<rparr>)"
| committed: "(r, e) \<in> set (sg_inflight G) \<Longrightarrow> resume_commit H th r e (sg_server G) = (out, V) \<Longrightarrow>
    serve_step H G (G\<lparr>sg_server := V, sg_inflight := remove1 (r, e) (sg_inflight G)\<rparr>)"
| aborted: "abort_run H now key r (sg_server G) = (ans, V) \<Longrightarrow> serve_step H G (G\<lparr>sg_server := V\<rparr>)"
| campaign_aborted: "abort_campaign H key raw (sg_server G) = (ans, V) \<Longrightarrow> serve_step H G (G\<lparr>sg_server := V\<rparr>)"
| streamed: "stream_event H key raw (sg_server G) = (rcv, V) \<Longrightarrow> serve_step H G (G\<lparr>sg_server := V\<rparr>)"
| written: "sv_channel (sg_server G) = item # rest \<Longrightarrow>
    serve_step H G (G\<lparr>sg_server := (sg_server G)\<lparr>sv_channel := rest,
      sv_pool := write_item ok now item (sv_pool (sg_server G))\<rparr>\<rparr>)"

definition serving_new :: "database option \<Rightarrow> serving" where
  "serving_new pool = \<lparr>sg_server = server_new pool, sg_inflight = [], sg_leaving = [], sg_unpausing = [],
     sg_unregistered = {}, sg_deaf = {}, sg_used = {}\<rparr>"

abbreviation serves :: "http_env \<Rightarrow> serving \<Rightarrow> serving \<Rightarrow> bool" where
  "serves H \<equiv> (serve_step H)\<^sup>*\<^sup>*"

subsection \<open>Tasks, tokens and signals\<close>

definition drivers :: "server \<Rightarrow> uuid list" where
  "drivers V = map sp_run_id (sv_tasks V)"

definition flags_ok :: "server \<Rightarrow> bool" where
  "flags_ok V \<longleftrightarrow> distinct (map sp_token (sv_tasks V)) \<and> (\<forall>t \<in> set (sv_tasks V). sp_token t < sv_next_flag V) \<and>
     (\<forall>th pt. sv_pending V th = Some pt \<longrightarrow> pt_token pt < sv_next_flag V \<and> pt_token pt \<notin> sp_token ` set (sv_tasks V)) \<and>
     (\<forall>th th' pt pt'. sv_pending V th = Some pt \<and> sv_pending V th' = Some pt' \<and> pt_token pt = pt_token pt' \<longrightarrow> th = th')"

definition tasks_ok :: "server \<Rightarrow> bool" where
  "tasks_ok V \<longleftrightarrow> flags_ok V \<and> distinct (drivers V)"

lemma tasks_ok_cong:
  assumes "sv_tasks V' = sv_tasks V" "sv_pending V' = sv_pending V" "sv_next_flag V' = sv_next_flag V"
  shows "tasks_ok V' = tasks_ok V" "drivers V' = drivers V"
  using assms by (simp_all add: tasks_ok_def flags_ok_def drivers_def)

text \<open>Fresh flags keep the invariant, in the hands of a factory and in the hands of a task.\<close>

lemma flags_ok_pending:
  assumes "flags_ok V" "pt_token pt = sv_next_flag V"
  shows "flags_ok (V\<lparr>sv_next_flag := Suc (sv_next_flag V), sv_pending := (sv_pending V)(th \<mapsto> pt)\<rparr>)"
proof -
  have old: "pt_token p < sv_next_flag V" "pt_token p \<notin> sp_token ` set (sv_tasks V)" if "sv_pending V j = Some p" for j p
    using assms(1) that unfolding flags_ok_def by blast+
  have tasks: "sp_token t < sv_next_flag V" if "t \<in> set (sv_tasks V)" for t using assms(1) that by (simp add: flags_ok_def)
  then have fresh: "sv_next_flag V \<notin> sp_token ` set (sv_tasks V)" by (metis imageE less_irrefl)
  have uniq: "j = k" if "sv_pending V j = Some p" "sv_pending V k = Some p'" "pt_token p = pt_token p'" for j k p p'
    using assms(1) that unfolding flags_ok_def by blast
  let ?P = "(sv_pending V)(th \<mapsto> pt)"
  have mine: "k = th" if "?P k = Some q" "pt_token q = sv_next_flag V" for k q
    using that old(1) [of k q] by (cases "k = th") simp_all
  have one: "j = k" if "?P j = Some p" "?P k = Some p'" "pt_token p = pt_token p'" for j k p p'
  proof (cases "pt_token p = sv_next_flag V")
    case True
    have "pt_token p' = sv_next_flag V" using that(3) True by simp
    with mine [OF that(2)] mine [OF that(1) True] show ?thesis by simp
  next
    case False
    have "?P i = sv_pending V i" if "?P i = Some q" "pt_token q \<noteq> sv_next_flag V" for i q
      using that assms(2) by (cases "i = th") auto
    from this [OF that(1) False] this [OF that(2) False [unfolded that(3)]] that
    show ?thesis by (intro uniq [of j p k p']) (simp_all only:)
  qed
  have "pt_token p < Suc (sv_next_flag V) \<and> pt_token p \<notin> sp_token ` set (sv_tasks V)" if "((sv_pending V)(th \<mapsto> pt)) j = Some p" for j p
    using that old [of j p] assms(2) fresh by (cases "j = th") simp_all
  then have pend: "\<forall>j p. ?P j = Some p \<longrightarrow> pt_token p < Suc (sv_next_flag V) \<and> pt_token p \<notin> sp_token ` set (sv_tasks V)"
    by blast
  have "distinct (map sp_token (sv_tasks V)) \<and> (\<forall>t \<in> set (sv_tasks V). sp_token t < Suc (sv_next_flag V))"
    using tasks assms(1) by (auto simp: flags_ok_def less_SucI)
  moreover have "\<forall>j k p p'. ?P j = Some p \<and> ?P k = Some p' \<and> pt_token p = pt_token p' \<longrightarrow> j = k" using one by blast
  moreover define W where "W = V\<lparr>sv_next_flag := Suc (sv_next_flag V), sv_pending := ?P\<rparr>"
  then have W: "sv_tasks W = sv_tasks V" "sv_pending W = ?P" "sv_next_flag W = Suc (sv_next_flag V)" by simp_all
  ultimately show ?thesis using pend unfolding W_def [symmetric] flags_ok_def W by (intro conjI) (assumption | elim conjE, assumption)+
qed

lemma call_factory_keeps:
  assumes "call_factory H th wt d V = (res, V')"
  shows "tasks_ok V \<Longrightarrow> tasks_ok V'" "sv_tasks V' = sv_tasks V" "sv_runs V' = sv_runs V"
    "sv_pauses V' = sv_pauses V" "sv_index V' = sv_index V" "sv_pool V' = sv_pool V" "drivers V' = drivers V"
proof -
  have "V' = V \<or> (\<exists>c. V' = V\<lparr>sv_next_flag := Suc (sv_next_flag V),
      sv_pending := (sv_pending V)(th \<mapsto> \<lparr>pt_token = sv_next_flag V, pt_campaign_id = c\<rparr>)\<rparr>)"
    using assms by (auto simp: call_factory_def new_flag_def split: if_splits option.splits)
  then show "tasks_ok V \<Longrightarrow> tasks_ok V'" "sv_tasks V' = sv_tasks V" "sv_runs V' = sv_runs V"
    "sv_pauses V' = sv_pauses V" "sv_index V' = sv_index V" "sv_pool V' = sv_pool V" "drivers V' = drivers V"
    by (elim disjE exE; simp add: tasks_ok_def drivers_def flags_ok_pending)+
qed

text \<open>A spawned task is the one driver of its run and reads the flags that are registered for it.\<close>

lemma flags_ok_spawn:
  assumes V: "flags_ok V" and W: "sv_tasks W = sv_tasks V @ [t]" "sv_pending W = (sv_pending V)(th := None)"
    and flag: "sv_next_flag V < sv_next_flag W"
    and tok: "sp_token t = (case sv_pending V th of Some pt \<Rightarrow> pt_token pt | None \<Rightarrow> sv_next_flag V)"
  shows "flags_ok W"
proof -
  have old: "pt_token p < sv_next_flag V" "pt_token p \<notin> sp_token ` set (sv_tasks V)" if "sv_pending V j = Some p" for j p
    using V that unfolding flags_ok_def by blast+
  have tasks: "sp_token x < sv_next_flag V" if "x \<in> set (sv_tasks V)" for x using V that by (simp add: flags_ok_def)
  then have fresh: "sv_next_flag V \<notin> sp_token ` set (sv_tasks V)" by (metis imageE less_irrefl)
  have uniq: "j = k" if "sv_pending V j = Some p" "sv_pending V k = Some p'" "pt_token p = pt_token p'" for j k p p'
    using V that unfolding flags_ok_def by blast
  have t: "sp_token t < sv_next_flag W \<and> sp_token t \<notin> sp_token ` set (sv_tasks V)"
  proof (cases "sv_pending V th")
    case None
    then show ?thesis using tok flag fresh by simp
  next
    case (Some pt)
    then show ?thesis using tok flag old [OF Some] by simp
  qed
  have others: "pt_token p \<noteq> sp_token t" if "sv_pending V j = Some p" "j \<noteq> th" for j p
  proof (cases "sv_pending V th")
    case None
    then show ?thesis using tok old(1) [OF that(1)] by simp
  next
    case (Some q)
    then show ?thesis using tok uniq [OF that(1) Some] that(2) by auto
  qed
  show ?thesis
    unfolding flags_ok_def W
  proof (intro conjI allI impI ballI)
    show "distinct (map sp_token (sv_tasks V @ [t]))" using V t by (auto simp: flags_ok_def)
    show "sp_token x < sv_next_flag W" if "x \<in> set (sv_tasks V @ [t])" for x
      using that tasks [of x] t flag by auto
    show "pt_token p < sv_next_flag W" "pt_token p \<notin> sp_token ` set (sv_tasks V @ [t])"
      if "((sv_pending V)(th := None)) j = Some p" for j p
      using that old [of j p] others [of j p] flag by (auto split: if_splits)
    show "j = k" if "((sv_pending V)(th := None)) j = Some p \<and> ((sv_pending V)(th := None)) k = Some p' \<and> pt_token p = pt_token p'" for j k p p'
      using that V unfolding flags_ok_def by (auto split: if_splits)
  qed
qed

definition spawned_for :: "uuid \<Rightarrow> server \<Rightarrow> server \<Rightarrow> bool" where
  "spawned_for r V W \<longleftrightarrow> (\<exists>t. sp_run_id t = r \<and> sv_tasks W = sv_tasks V @ [t] \<and>
     sv_runs W = (sv_runs V)(r \<mapsto> sp_token t) \<and> sv_pauses W = (sv_pauses V)(r \<mapsto> sp_pause t))"

lemma spawned_for_drivers: "spawned_for r V W \<Longrightarrow> drivers W = drivers V @ [r]"
  by (auto simp: spawned_for_def drivers_def)

lemma spawn_run_ok:
  assumes V: "tasks_ok V" "r \<notin> set (drivers V)"
    and V3: "sv_tasks V3 = sv_tasks V" "sv_runs V3 = (sv_runs V)(r \<mapsto> sv_next_flag V)"
      "sv_pauses V3 = (sv_pauses V)(r \<mapsto> pz)" "sv_pending V3 = sv_pending V"
      "sv_next_flag V3 = Suc (Suc (sv_next_flag V))"
    and sp: "sp_run_id sp = r" "sp_token sp = sv_next_flag V" "sp_pause sp = pz"
  shows "tasks_ok (spawn_run th sp V3)"
    "spawned_for r V (spawn_run th sp V3)"
    "sv_index (spawn_run th sp V3) = sv_index V3" "sv_pool (spawn_run th sp V3) = sv_pool V3"
proof -
  let ?W = "spawn_run th sp V3"
  define t where "t = (case sv_pending V th of None \<Rightarrow> sp
    | Some pt \<Rightarrow> sp\<lparr>sp_token := pt_token pt, sp_campaign := pt_campaign_id pt\<rparr>)"
  have t: "sp_run_id t = r" "sp_pause t = pz"
    "sp_token t = (case sv_pending V th of Some pt \<Rightarrow> pt_token pt | None \<Rightarrow> sv_next_flag V)"
    using sp by (simp_all add: t_def split: option.split)
  have W: "sv_tasks ?W = sv_tasks V @ [t]" "sv_pending ?W = (sv_pending V)(th := None)"
    "sv_next_flag ?W = Suc (Suc (sv_next_flag V))" "sv_runs ?W = (sv_runs V)(r \<mapsto> sp_token t)"
    "sv_pauses ?W = (sv_pauses V)(r \<mapsto> pz)"
    using V3 sp t(3) by (simp_all add: spawn_run_def take_pending_run_token_def t_def split: option.split)
  then show "spawned_for r V ?W" using t(1,2) unfolding spawned_for_def by blast
  have F: "flags_ok V" using V(1) by (simp only: tasks_ok_def)
  have "flags_ok ?W" by (rule flags_ok_spawn [OF F W(1,2) _ t(3)]) (simp add: W(3))
  moreover have "distinct (drivers ?W)" using V t(1) by (simp add: tasks_ok_def drivers_def W(1))
  ultimately show "tasks_ok ?W" by (simp add: tasks_ok_def)
qed (auto simp: spawn_run_def take_pending_run_token_def split: option.split)

lemma exit_keeps:
  "sv_tasks (suspended_exit H now sp c V) = sv_tasks V" "sv_runs (suspended_exit H now sp c V) = sv_runs V"
  "sv_pauses (suspended_exit H now sp c V) = sv_pauses V" "sv_pending (suspended_exit H now sp c V) = sv_pending V"
  "sv_next_flag (suspended_exit H now sp c V) = sv_next_flag V" "sv_pool (suspended_exit H now sp c V) = sv_pool V"
  "sv_campaigns (suspended_exit H now sp c V) = sv_campaigns V" "sv_effects (suspended_exit H now sp c V) = sv_effects V"
  "sv_started (suspended_exit H now sp c V) = sv_started V"
  "sv_index (suspended_exit H now sp c V) = snd (index_insert (sp_run_id sp) (entry_of_run now sp c) (sv_index V))"
  "sv_tasks (terminal_exit H now sp c V) = sv_tasks V" "sv_runs (terminal_exit H now sp c V) = sv_runs V"
  "sv_pauses (terminal_exit H now sp c V) = sv_pauses V" "sv_pending (terminal_exit H now sp c V) = sv_pending V"
  "sv_next_flag (terminal_exit H now sp c V) = sv_next_flag V" "sv_pool (terminal_exit H now sp c V) = sv_pool V"
  "sv_index (terminal_exit H now sp c V) = sv_index V" "sv_campaigns (terminal_exit H now sp c V) = sv_campaigns V"
  by (simp_all add: suspended_exit_def terminal_exit_def Let_def split: prod.split option.split)

lemma leave_run_fields:
  "sv_tasks (leave_run H now msg res sp V) = filter (\<lambda>t. sp_token t \<noteq> sp_token sp) (sv_tasks V)"
  "sv_runs (leave_run H now msg res sp V) = sv_runs V" "sv_pauses (leave_run H now msg res sp V) = sv_pauses V"
  "sv_pending (leave_run H now msg res sp V) = sv_pending V"
  "sv_next_flag (leave_run H now msg res sp V) = sv_next_flag V"
  "sv_pool (leave_run H now msg res sp V) = sv_pool V"
  by (simp_all add: leave_run_def Let_def exit_keeps split: prod.split)

lemma finish_run_fields:
  "sv_tasks (finish_run H now msg res sp V) = sv_tasks (leave_run H now msg res sp V)"
  "sv_runs (finish_run H now msg res sp V) = (sv_runs V)(sp_run_id sp := None)"
  "sv_pauses (finish_run H now msg res sp V) = (sv_pauses V)(sp_run_id sp := None)"
  "sv_pending (finish_run H now msg res sp V) = sv_pending V"
  "sv_next_flag (finish_run H now msg res sp V) = sv_next_flag V"
  "sv_pool (finish_run H now msg res sp V) = sv_pool V"
  "sv_index (finish_run H now msg res sp V) = sv_index (leave_run H now msg res sp V)"
  "sv_live (finish_run H now msg res sp V) = sv_live (leave_run H now msg res sp V)"
  "sv_streams (finish_run H now msg res sp V) = sv_streams (leave_run H now msg res sp V)"
  "sv_channel (finish_run H now msg res sp V) = sv_channel (leave_run H now msg res sp V)"
  "sv_started (finish_run H now msg res sp V) = sv_started (leave_run H now msg res sp V)"
  "sv_effects (finish_run H now msg res sp V) = sv_effects (leave_run H now msg res sp V)"
  by (simp_all add: finish_run_def deregister_run_def remove_pause_signal_def leave_run_fields)

text \<open>A task that leaves is the only one it removes.\<close>

lemma leave_run_drops:
  assumes "tasks_ok V" "sp \<in> set (sv_tasks V)"
  shows "filter (\<lambda>t. sp_token t \<noteq> sp_token sp) (sv_tasks V) = filter (\<lambda>t. t \<noteq> sp) (sv_tasks V)"
  using assms by (intro filter_cong) (auto simp: tasks_ok_def flags_ok_def distinct_map inj_on_def)

lemma leave_run_ok:
  assumes "tasks_ok V" "sp \<in> set (sv_tasks V)"
  shows "tasks_ok (leave_run H now msg res sp V)"
    "set (drivers (leave_run H now msg res sp V)) = set (drivers V) - {sp_run_id sp}"
proof -
  note kept = leave_run_drops [OF assms]
  have "t = sp" if "t \<in> set (sv_tasks V)" "sp_run_id t = sp_run_id sp" for t
    using assms that by (auto simp: tasks_ok_def drivers_def distinct_map inj_on_def)
  then show "set (drivers (leave_run H now msg res sp V)) = set (drivers V) - {sp_run_id sp}"
    using assms(2) by (auto simp: drivers_def leave_run_fields kept)
  have "flags_ok (leave_run H now msg res sp V)"
    using assms(1) unfolding tasks_ok_def flags_ok_def leave_run_fields kept
    by (auto simp: distinct_map_filter image_iff)
  moreover have "distinct (drivers (leave_run H now msg res sp V))"
    using assms(1) by (simp add: tasks_ok_def drivers_def leave_run_fields distinct_map_filter)
  ultimately show "tasks_ok (leave_run H now msg res sp V)" by (simp add: tasks_ok_def)
qed

subsection \<open>Registrations\<close>

text \<open>
  What is registered, over the tasks \<open>T\<close>, the tokens \<open>R\<close> and the pause signals \<open>P\<close> of the runs, the tasks
  \<open>L\<close> that have yet to deregister and those \<open>U\<close> that have yet to remove their pause signal, and the
  tokens \<open>S\<close> and \<open>D\<close> of the tasks that were deregistered by an older task of their run.
\<close>

definition regs_ok ::
  "spawned_run list \<Rightarrow> (uuid \<rightharpoonup> nat) \<Rightarrow> (uuid \<rightharpoonup> nat) \<Rightarrow> spawned_run list \<Rightarrow> spawned_run list \<Rightarrow> nat set \<Rightarrow> nat set \<Rightarrow> bool" where
  "regs_ok T R P L U S D \<longleftrightarrow>
     (\<forall>r k. R r = Some k \<longrightarrow> (\<exists>t \<in> set T \<union> set L. sp_run_id t = r \<and> sp_token t = k)) \<and>
     (\<forall>r k. P r = Some k \<longrightarrow> (\<exists>t \<in> set T \<union> set L \<union> set U. sp_run_id t = r \<and> sp_pause t = k)) \<and>
     (\<forall>t \<in> set T. sp_token t \<notin> S \<longrightarrow> R (sp_run_id t) = Some (sp_token t)) \<and>
     (\<forall>t \<in> set T. sp_token t \<notin> D \<longrightarrow> P (sp_run_id t) = Some (sp_pause t))"

lemma regs_ok_spawn:
  assumes "regs_ok T R P L U S D" "sp_run_id t \<notin> sp_run_id ` set T"
  shows "regs_ok (T @ [t]) (R(sp_run_id t \<mapsto> sp_token t)) (P(sp_run_id t \<mapsto> sp_pause t)) L U S D"
  using assms unfolding regs_ok_def by (auto simp: image_iff)

lemma regs_ok_leave:
  "regs_ok T R P L U S D \<Longrightarrow> regs_ok (filter (\<lambda>t. t \<noteq> sp) T) R P (L @ [sp]) U S D"
  unfolding regs_ok_def by (auto; blast)

lemma in_remove1: "t \<in> set L \<Longrightarrow> t \<noteq> sp \<Longrightarrow> t \<in> set (remove1 sp L)"
  by simp

lemma regs_ok_deregister:
  assumes "regs_ok T R P L U S D"
  shows "regs_ok T (R(sp_run_id sp := None)) P (remove1 sp L) (U @ [sp])
    (S \<union> sp_token ` {t \<in> set T. sp_run_id t = sp_run_id sp}) D"
proof -
  have registered: "R r = Some k \<Longrightarrow> \<exists>t \<in> set T \<union> set L. sp_run_id t = r \<and> sp_token t = k" for r k
    using assms unfolding regs_ok_def by blast
  show ?thesis
    unfolding regs_ok_def
  proof (intro conjI allI impI ballI)
    show "\<exists>t \<in> set T \<union> set (remove1 sp L). sp_run_id t = r \<and> sp_token t = k" if upd: "(R(sp_run_id sp := None)) r = Some k" for r k
    proof -
      obtain t where "t \<in> set T \<union> set L" "sp_run_id t = r" "sp_token t = k" "r \<noteq> sp_run_id sp"
        using registered [of r k] upd by (auto split: if_splits)
      then have "t \<in> set T \<union> set (remove1 sp L)" by (cases "t = sp") auto
      then show ?thesis using \<open>sp_run_id t = r\<close> \<open>sp_token t = k\<close> by blast
    qed
    show "\<exists>t \<in> set T \<union> set (remove1 sp L) \<union> set (U @ [sp]). sp_run_id t = r \<and> sp_pause t = k" if reg: "P r = Some k" for r k
    proof -
      obtain t where "t \<in> set T \<union> set L \<union> set U" "sp_run_id t = r" "sp_pause t = k"
        using reg assms unfolding regs_ok_def by blast
      then show ?thesis using in_remove1 [of t L sp] by (cases "t = sp") auto
    qed
    show "(R(sp_run_id sp := None)) (sp_run_id t) = Some (sp_token t)"
      if "t \<in> set T" "sp_token t \<notin> S \<union> sp_token ` {t \<in> set T. sp_run_id t = sp_run_id sp}" for t
      using that assms unfolding regs_ok_def by auto
    show "P (sp_run_id t) = Some (sp_pause t)" if "t \<in> set T" "sp_token t \<notin> D" for t
      using that assms unfolding regs_ok_def by blast
  qed
qed

lemma regs_ok_unpause:
  assumes "regs_ok T R P L U S D"
  shows "regs_ok T R (P(sp_run_id sp := None)) L (remove1 sp U)
    S (D \<union> sp_token ` {t \<in> set T. sp_run_id t = sp_run_id sp})"
proof -
  have registered: "P r = Some k \<Longrightarrow> \<exists>t \<in> set T \<union> set L \<union> set U. sp_run_id t = r \<and> sp_pause t = k" for r k
    using assms unfolding regs_ok_def by blast
  show ?thesis
    unfolding regs_ok_def
  proof (intro conjI allI impI ballI)
    show "\<exists>t \<in> set T \<union> set L. sp_run_id t = r \<and> sp_token t = k" if "R r = Some k" for r k
      using that assms unfolding regs_ok_def by blast
    show "\<exists>t \<in> set T \<union> set L \<union> set (remove1 sp U). sp_run_id t = r \<and> sp_pause t = k"
      if upd: "(P(sp_run_id sp := None)) r = Some k" for r k
    proof -
      obtain t where "t \<in> set T \<union> set L \<union> set U" "sp_run_id t = r" "sp_pause t = k" "r \<noteq> sp_run_id sp"
        using registered [of r k] upd by (auto split: if_splits)
      then have "t \<in> set T \<union> set L \<union> set (remove1 sp U)" by (cases "t = sp") auto
      then show ?thesis using \<open>sp_run_id t = r\<close> \<open>sp_pause t = k\<close> by blast
    qed
    show "R (sp_run_id t) = Some (sp_token t)" if "t \<in> set T" "sp_token t \<notin> S" for t
      using that assms unfolding regs_ok_def by blast
    show "(P(sp_run_id sp := None)) (sp_run_id t) = Some (sp_pause t)"
      if "t \<in> set T" "sp_token t \<notin> D \<union> sp_token ` {t \<in> set T. sp_run_id t = sp_run_id sp}" for t
      using that assms unfolding regs_ok_def by auto
  qed
qed

lemma regs_ok_map:
  assumes "regs_ok T R P L U S D"
    and "\<And>t. sp_run_id (f t) = sp_run_id t" "\<And>t. sp_token (f t) = sp_token t" "\<And>t. sp_pause (f t) = sp_pause t"
  shows "regs_ok (map f T) R P L U S D"
  using assms unfolding regs_ok_def by (simp add: bex_Un)

subsection \<open>The index of suspended runs\<close>

definition index_wf :: "suspended_index \<Rightarrow> bool" where
  "index_wf I \<longleftrightarrow> distinct (ix_order I) \<and> set (ix_order I) = dom (ix_entries I) \<and>
     length (ix_order I) \<le> completed_run_retention"

lemma index_insert_ok:
  assumes "index_wf I" "index_insert r e I = (evicted, I')"
  shows "index_wf I'" "ix_entries I' r = Some e"
    "j \<noteq> r \<Longrightarrow> ix_entries I' j = (case evicted of Some (v, _) \<Rightarrow> if j = v then None else ix_entries I j | None \<Rightarrow> ix_entries I j)"
    "evicted = Some (v, x) \<Longrightarrow> v \<noteq> r \<and> ix_entries I v = Some x"
proof -
  let ?ord = "if ix_entries I r = None then ix_order I @ [r] else ix_order I"
  have ord: "distinct ?ord" "set ?ord = insert r (dom (ix_entries I))" "length ?ord \<le> Suc completed_run_retention"
    using assms(1) by (auto simp: index_wf_def domIff)
  have pos: "0 < completed_run_retention" by (simp add: completed_run_retention_def)
  have first: "oldest \<noteq> r" if "?ord = oldest # rest" "length ?ord > completed_run_retention" for oldest rest
    using that assms(1) pos by (cases "ix_order I") (auto simp: index_wf_def split: if_splits)
  have all: "index_wf I' \<and> ix_entries I' r = Some e \<and>
    (j \<noteq> r \<longrightarrow> ix_entries I' j = (case evicted of Some (v, _) \<Rightarrow> if j = v then None else ix_entries I j | None \<Rightarrow> ix_entries I j)) \<and>
    (evicted = Some (v, x) \<longrightarrow> v \<noteq> r \<and> ix_entries I v = Some x)"
  proof (cases "length ?ord > completed_run_retention")
    case False
    with assms(2) ord show ?thesis by (auto simp: index_insert_def index_wf_def Let_def split: if_splits)
  next
    case True
    then obtain oldest rest where o: "?ord = oldest # rest" by (cases ?ord) auto
    note f = first [OF o True]
    obtain y where y: "ix_entries I oldest = Some y" using ord(2) o f by (auto simp: dom_def)
    have "evicted = Some (oldest, y) \<and> I' = \<lparr>ix_entries = (ix_entries I)(r \<mapsto> e, oldest := None), ix_order = rest\<rparr>"
      using assms(2) True o f y by (auto simp: index_insert_def Let_def fun_upd_twist)
    moreover have "set rest = insert r (dom (ix_entries I)) - {oldest}" using ord(1,2) o by auto
    ultimately show ?thesis using ord o f y by (auto simp: index_wf_def)
  qed
  show "index_wf I'" "ix_entries I' r = Some e"
    "j \<noteq> r \<Longrightarrow> ix_entries I' j = (case evicted of Some (v, _) \<Rightarrow> if j = v then None else ix_entries I j | None \<Rightarrow> ix_entries I j)"
    "evicted = Some (v, x) \<Longrightarrow> v \<noteq> r \<and> ix_entries I v = Some x"
    using all by blast+
qed

lemma index_insert_entries:
  assumes "index_wf I" "index_insert r e I = (evicted, I')" "ix_entries I' j = Some x"
  shows "j = r \<and> x = e \<or> j \<noteq> r \<and> ix_entries I j = Some x"
  using index_insert_ok(2,3) [OF assms(1,2)] assms(3)
  by (cases "j = r"; cases evicted) (auto split: if_splits)

lemma remove1_keys:
  "distinct (map fst l) \<Longrightarrow> (r, e) \<in> set l \<Longrightarrow>
     fst ` set (remove1 (r, e) l) = fst ` set l - {r} \<and> distinct (map fst (remove1 (r, e) l))"
proof (induction l)
  case (Cons a l)
  show ?case
  proof (cases "a = (r, e)")
    case True
    with Cons.prems(1) show ?thesis by auto
  next
    case False
    with Cons.prems(2) have l: "(r, e) \<in> set l" by auto
    then have "r \<in> fst ` set l" by (auto intro: image_eqI [of _ _ "(r, e)"])
    then have "fst a \<noteq> r" using Cons.prems(1) by auto
    moreover have "set (remove1 (r, e) l) \<subseteq> set l" by (rule set_remove1_subset)
    ultimately show ?thesis using False l Cons.IH Cons.prems(1) by auto
  qed
qed simp

lemma index_wf_others:
  assumes "index_wf I"
  shows "index_wf (snd (take_entry r I))" "index_wf (clear_resuming r I)" "index_wf (snd (remove_suspended r I))"
proof -
  show "index_wf (snd (remove_suspended r I))"
  proof (cases "ix_entries I r")
    case (Some e)
    have "length (filter (\<lambda>j. j \<noteq> r) (ix_order I)) \<le> completed_run_retention"
      using assms le_trans [OF length_filter_le] by (auto simp: index_wf_def)
    with Some assms show ?thesis by (auto simp: index_wf_def remove_suspended_def)
  qed (use assms in \<open>simp add: remove_suspended_def\<close>)
qed (use assms in \<open>auto simp: index_wf_def take_entry_def clear_resuming_def Let_def insert_absorb domIff split: option.split\<close>)

subsection \<open>One driver per run\<close>

text \<open>
  Who holds a run, over the set \<open>D\<close> of driven runs, the set \<open>F\<close> of runs being resumed, the suspended
  entries and the set \<open>U\<close> of runs ever started.
\<close>

definition holds_ok :: "uuid set \<Rightarrow> uuid set \<Rightarrow> (uuid \<rightharpoonup> suspended_entry) \<Rightarrow> uuid set \<Rightarrow> bool" where
  "holds_ok D F es U \<longleftrightarrow> D \<inter> F = {} \<and> D \<union> F \<union> dom es \<subseteq> U \<and>
     (\<forall>r e. es r = Some e \<longrightarrow> r \<notin> D \<and> (su_resuming e \<longleftrightarrow> r \<in> F))"

lemma holds_ok_start: "holds_ok D F es U \<Longrightarrow> r \<notin> U \<Longrightarrow> holds_ok (insert r D) F es (insert r U)"
  by (auto simp: holds_ok_def)

lemma holds_ok_used: "holds_ok D F es U \<Longrightarrow> holds_ok D F es (insert r U)"
  by (auto simp: holds_ok_def)

lemma holds_ok_finish:
  assumes "holds_ok D F es U" "r \<in> D"
    "\<forall>j e. es' j = Some e \<longrightarrow> j = r \<and> \<not> su_resuming e \<or> j \<noteq> r \<and> es j = Some e"
  shows "holds_ok (D - {r}) F es' U"
  using assms unfolding holds_ok_def dom_def by blast

lemma holds_ok_take:
  "holds_ok D F es U \<Longrightarrow> es r = Some e \<Longrightarrow> holds_ok D (insert r F) (es(r \<mapsto> e\<lparr>su_resuming := True\<rparr>)) U"
  unfolding holds_ok_def dom_def by auto

lemma holds_ok_commit: "holds_ok D F es U \<Longrightarrow> r \<in> F \<Longrightarrow> holds_ok (insert r D) (F - {r}) (es(r := None)) U"
  unfolding holds_ok_def dom_def by (auto split: if_splits)

lemma holds_ok_refuse: "holds_ok D F es U \<Longrightarrow> r \<in> F \<Longrightarrow>
    holds_ok D (F - {r}) (case es r of None \<Rightarrow> es | Some e \<Rightarrow> es(r \<mapsto> e\<lparr>su_resuming := False\<rparr>)) U"
  unfolding holds_ok_def dom_def by (auto split: option.splits if_splits)

lemma holds_ok_remove: "holds_ok D F es U \<Longrightarrow> holds_ok D F (es(r := None)) U"
  unfolding holds_ok_def dom_def by (auto split: if_splits)

definition serving_ok :: "serving \<Rightarrow> bool" where
  "serving_ok G \<longleftrightarrow> (let V = sg_server G in
     sv_pool V = None \<and> tasks_ok V \<and> index_wf (sv_index V) \<and> distinct (map fst (sg_inflight G)) \<and>
     holds_ok (set (drivers V)) (fst ` set (sg_inflight G)) (ix_entries (sv_index V)) (sg_used G) \<and>
     regs_ok (sv_tasks V) (sv_runs V) (sv_pauses V) (sg_leaving G) (sg_unpausing G) (sg_unregistered G) (sg_deaf G))"

lemma regs_ok_spawned_for:
  assumes "regs_ok (sv_tasks V) (sv_runs V) (sv_pauses V) L U S D" "spawned_for r V W" "r \<notin> set (drivers V)"
  shows "regs_ok (sv_tasks W) (sv_runs W) (sv_pauses W) L U S D"
  using assms regs_ok_spawn [OF assms(1)] by (auto simp: spawned_for_def drivers_def)

lemma serving_ok_cong:
  assumes "serving_ok G" "sv_tasks V = sv_tasks (sg_server G)" "sv_runs V = sv_runs (sg_server G)"
    "sv_pauses V = sv_pauses (sg_server G)" "sv_pending V = sv_pending (sg_server G)"
    "sv_next_flag V = sv_next_flag (sg_server G)" "sv_index V = sv_index (sg_server G)" "sv_pool V = None"
  shows "serving_ok (G\<lparr>sg_server := V\<rparr>)"
  using assms tasks_ok_cong [of V "sg_server G"] by (simp add: serving_ok_def Let_def)

lemma posted_ok:
  assumes "serving_ok G" "r \<notin> sg_used G" "post_events H th now r key wt data (sg_server G) = (res, V)"
  shows "serving_ok (G\<lparr>sg_server := V, sg_used := insert r (sg_used G)\<rparr>)"
proof -
  let ?V = "sg_server G"
  have ok: "tasks_ok ?V" "r \<notin> set (drivers ?V)" "sv_pool ?V = None"
    using assms(1,2) by (auto simp: serving_ok_def Let_def holds_ok_def)
  have regs: "regs_ok (sv_tasks ?V) (sv_runs ?V) (sv_pauses ?V) (sg_leaving G) (sg_unpausing G) (sg_unregistered G) (sg_deaf G)"
    using assms(1) by (simp add: serving_ok_def Let_def)
  obtain out V1 where f: "call_factory H th wt data ?V = (out, V1)" by fastforce
  note keep = call_factory_keeps [OF f]
  have "V = ?V \<or> V = V1 \<or> (tasks_ok V \<and> spawned_for r ?V V \<and>
      sv_index V = sv_index ?V \<and> sv_pool V = None)"
  proof (cases "check_api_key key (he_api_key H) \<and> preflight H wt data = None \<and> (\<exists>w. out = Inr w)")
    case False
    with assms(3) f show ?thesis
      by (auto simp: post_events_def split: if_splits sum.splits dispatch_error.splits option.splits)
  next
    case True
    then obtain w where w: "out = Inr w" by blast
    define V3 where "V3 = V1\<lparr>sv_runs := (sv_runs V1)(r \<mapsto> sv_next_flag V1), sv_next_flag := Suc (Suc (sv_next_flag V1)),
      sv_pauses := (sv_pauses V1)(r \<mapsto> Suc (sv_next_flag V1)), sv_started := (sv_started V1)(r \<mapsto> (wt, now))\<rparr>"
    define sp where "sp = \<lparr>sp_run_id = r, sp_workflow = w, sp_workflow_type = wt, sp_data = data, sp_created_at = now,
      sp_start = FreshStart data, sp_token = sv_next_flag V1, sp_pause = Suc (sv_next_flag V1), sp_budget = he_budget H,
      sp_campaign = None, sp_sent = 0\<rparr>"
    have V: "V = spawn_run th sp V3"
      using assms(3) f w True by (auto simp: post_events_def new_flag_def V3_def sp_def)
    have "tasks_ok V" "spawned_for r V1 V" "sv_index V = sv_index V3" "sv_pool V = sv_pool V3"
      unfolding V using spawn_run_ok [of V1 r V3 "Suc (sv_next_flag V1)" sp th] keep ok by (simp_all add: V3_def sp_def)
    with keep ok show ?thesis by (auto simp: V3_def spawned_for_def)
  qed
  then show ?thesis
    using assms(1,2) keep ok(2) regs_ok_spawned_for [OF regs, of r V] spawned_for_drivers [of r ?V V]
    by (elim disjE conjE) (simp_all add: serving_ok_def Let_def holds_ok_used holds_ok_start)
qed

lemma left_ok:
  assumes "serving_ok G" "sp \<in> set (sv_tasks (sg_server G))"
  shows "serving_ok (G\<lparr>sg_server := leave_run H now msg res sp (sg_server G), sg_leaving := sg_leaving G @ [sp]\<rparr>)"
proof -
  let ?V = "sg_server G" and ?W = "leave_run H now msg res sp (sg_server G)" and ?r = "sp_run_id sp"
  have ok: "tasks_ok ?V" "index_wf (sv_index ?V)" "sv_pool ?V = None" using assms(1) by (auto simp: serving_ok_def Let_def)
  note fin = leave_run_ok [OF ok(1) assms(2), of H now msg res]
  have r: "?r \<in> set (drivers ?V)" using assms(2) by (simp add: drivers_def)
  obtain c why where out: "run_outcome (sv_live ?V) ?r msg res = (c, why)" by fastforce
  have idx: "index_wf (sv_index ?W) \<and> (\<forall>j e. ix_entries (sv_index ?W) j = Some e \<longrightarrow>
      (j = ?r \<and> \<not> su_resuming e) \<or> (j \<noteq> ?r \<and> ix_entries (sv_index ?V) j = Some e))"
  proof (cases "ends_suspended c")
    case False
    have "ix_entries (sv_index ?V) ?r = None"
      using assms(1) r by (cases "ix_entries (sv_index ?V) ?r") (auto simp: serving_ok_def Let_def holds_ok_def)
    moreover have "sv_index ?W = sv_index ?V"
      using False by (simp add: leave_run_def out Let_def exit_keeps)
    ultimately show ?thesis using ok(2) by (metis option.distinct(1))
  next
    case True
    then have "sv_index ?W = snd (index_insert ?r (entry_of_run now sp c) (sv_index ?V))"
      by (simp add: leave_run_def out Let_def exit_keeps)
    then obtain e ev where e: "index_insert ?r e (sv_index ?V) = (ev, sv_index ?W)" "\<not> su_resuming e"
      using prod.collapse by (metis entry_of_run_def suspended_entry.select_convs(8))
    show ?thesis
      using index_insert_ok(1) [OF ok(2) e(1)] index_insert_entries [OF ok(2) e(1)] e(2) by blast
  qed
  moreover have "regs_ok (sv_tasks ?W) (sv_runs ?W) (sv_pauses ?W) (sg_leaving G @ [sp]) (sg_unpausing G)
      (sg_unregistered G) (sg_deaf G)"
    using assms(1) regs_ok_leave unfolding leave_run_fields leave_run_drops [OF ok(1) assms(2)]
    by (simp add: serving_ok_def Let_def)
  ultimately show ?thesis
    using assms(1) fin r holds_ok_finish [OF _ r, of _ "ix_entries (sv_index ?V)" _ "ix_entries (sv_index ?W)"]
    by (simp add: serving_ok_def Let_def leave_run_fields(6))
qed

lemma deregistered_ok:
  assumes "serving_ok G"
  shows "serving_ok (G\<lparr>sg_server := deregister_run sp (sg_server G), sg_leaving := remove1 sp (sg_leaving G),
      sg_unpausing := sg_unpausing G @ [sp],
      sg_unregistered := sg_unregistered G \<union> tokens_of (sp_run_id sp) (sg_server G)\<rparr>)"
    "serving_ok (G\<lparr>sg_server := remove_pause_signal (sp_run_id sp) (sg_server G),
      sg_unpausing := remove1 sp (sg_unpausing G), sg_deaf := sg_deaf G \<union> tokens_of (sp_run_id sp) (sg_server G)\<rparr>)"
  using assms tasks_ok_cong [of "deregister_run sp (sg_server G)" "sg_server G"]
    tasks_ok_cong [of "remove_pause_signal (sp_run_id sp) (sg_server G)" "sg_server G"]
  by (simp_all add: serving_ok_def Let_def deregister_run_def remove_pause_signal_def tokens_of_def
      regs_ok_deregister regs_ok_unpause)

lemma took_ok:
  assumes "serving_ok G" "resume_take H ok key r (sg_server G) = (Inr e, V)"
  shows "serving_ok (G\<lparr>sg_server := V, sg_inflight := sg_inflight G @ [(r, e)]\<rparr>)"
proof -
  let ?V = "sg_server G" and ?I = "sv_index (sg_server G)"
  obtain e0 where e0: "ix_entries ?I r = Some e0" "\<not> su_resuming e0"
    "V = ?V\<lparr>sv_index := ?I\<lparr>ix_entries := (ix_entries ?I)(r \<mapsto> e0\<lparr>su_resuming := True\<rparr>)\<rparr>\<rparr>"
    using assms by (auto simp: resume_take_def take_entry_def rehydrate_from_store_def serving_ok_def Let_def
        split: if_splits option.splits)
  moreover have "tasks_ok V = tasks_ok ?V" "drivers V = drivers ?V" by (rule tasks_ok_cong; simp add: e0(3))+
  moreover have "index_wf (sv_index V)" using index_wf_others(1) [of ?I r] assms(1) e0
    by (simp add: take_entry_def Let_def serving_ok_def)
  moreover have "r \<notin> fst ` set (sg_inflight G)" using assms(1) e0(1,2) by (auto simp: serving_ok_def Let_def holds_ok_def)
  ultimately show ?thesis using assms(1) holds_ok_take [of _ _ "ix_entries ?I" _ r e0] by (simp add: serving_ok_def Let_def)
qed

lemma committed_ok:
  assumes "serving_ok G" "(r, e) \<in> set (sg_inflight G)" "resume_commit H th r e (sg_server G) = (out, V)"
  shows "serving_ok (G\<lparr>sg_server := V, sg_inflight := remove1 (r, e) (sg_inflight G)\<rparr>)"
proof -
  let ?V = "sg_server G" and ?F = "fst ` set (sg_inflight G)" and ?L = "remove1 (r, e) (sg_inflight G)"
  have ok: "tasks_ok ?V" "sv_pool ?V = None" "index_wf (sv_index ?V)" "distinct (map fst (sg_inflight G))"
    and holds: "holds_ok (set (drivers ?V)) ?F (ix_entries (sv_index ?V)) (sg_used G)"
    and regs: "regs_ok (sv_tasks ?V) (sv_runs ?V) (sv_pauses ?V) (sg_leaving G) (sg_unpausing G) (sg_unregistered G) (sg_deaf G)"
    using assms(1) by (simp_all add: serving_ok_def Let_def)
  have r: "r \<in> ?F" using assms(2) by force
  then have d: "r \<notin> set (drivers ?V)" using holds by (auto simp: holds_ok_def)
  have L: "fst ` set ?L = ?F - {r}" "distinct (map fst ?L)"
    using remove1_keys [OF ok(4) assms(2)] by blast+
  obtain res V1 where f: "call_factory H th (su_workflow_type e) (su_data e) ?V = (res, V1)" by fastforce
  note keep = call_factory_keeps [OF f]
  have ref: "serving_ok (G\<lparr>sg_server := U\<lparr>sv_index := clear_resuming r (sv_index U)\<rparr>, sg_inflight := ?L\<rparr>)"
    if "tasks_ok U" "sv_tasks U = sv_tasks ?V" "sv_runs U = sv_runs ?V" "sv_pauses U = sv_pauses ?V"
      "sv_index U = sv_index ?V" "sv_pool U = None" for U
  proof -
    let ?U = "U\<lparr>sv_index := clear_resuming r (sv_index U)\<rparr>"
    have "tasks_ok ?U" "drivers ?U = drivers ?V" using that(1,2) tasks_ok_cong [of ?U U] by (simp_all add: drivers_def)
    moreover have "ix_entries (clear_resuming r I) = (case ix_entries I r of None \<Rightarrow> ix_entries I
        | Some e \<Rightarrow> (ix_entries I)(r \<mapsto> e\<lparr>su_resuming := False\<rparr>))" for I
      by (simp add: clear_resuming_def split: option.split)
    ultimately show ?thesis
      using that holds_ok_refuse [OF holds r] index_wf_others(2) [OF ok(3)] L regs by (simp add: serving_ok_def Let_def)
  qed
  show ?thesis
  proof (cases "Option.bind (read_suspension (metadata (su_snapshot e))) ss_reason \<noteq> Some HeavyWorkQueue \<and>
      (\<exists>w. res = Inr w \<and> has_node (without_seeded_nodes w) (su_resume_at e))")
    case False
    then consider "V = ?V\<lparr>sv_index := clear_resuming r (sv_index ?V)\<rparr>" | "V = V1\<lparr>sv_index := clear_resuming r (sv_index V1)\<rparr>"
      using assms(3) f by (auto simp: resume_commit_def Let_def split: if_splits sum.splits dispatch_error.splits)
    then show ?thesis
      using ref [of ?V] ref [of V1] ok keep by cases simp_all
  next
    case True
    then obtain w where w: "res = Inr w" "has_node (without_seeded_nodes w) (su_resume_at e)" by blast
    obtain sp V3 where V: "V = spawn_run th sp V3" "sp_run_id sp = r" "sp_token sp = sv_next_flag V1"
        "sp_pause sp = Suc (sv_next_flag V1)" "sv_tasks V3 = sv_tasks V1" "sv_runs V3 = (sv_runs V1)(r \<mapsto> sv_next_flag V1)"
        "sv_pauses V3 = (sv_pauses V1)(r \<mapsto> Suc (sv_next_flag V1))" "sv_pending V3 = sv_pending V1"
        "sv_next_flag V3 = Suc (Suc (sv_next_flag V1))" "sv_index V3 = snd (remove_suspended r (sv_index V1))"
        "sv_pool V3 = sv_pool V1"
      using assms(3) f w True by (auto simp: resume_commit_def new_flag_def Let_def)
    have "tasks_ok V" "spawned_for r V1 V" "sv_index V = snd (remove_suspended r (sv_index ?V))" "sv_pool V = None"
      using spawn_run_ok [of V1 r V3 "Suc (sv_next_flag V1)" sp th] keep ok d V by simp_all
    moreover from this(2) have "spawned_for r ?V V" using keep by (simp add: spawned_for_def)
    moreover have "ix_entries (snd (remove_suspended r I)) = (ix_entries I)(r := None)" for I
      by (auto simp: remove_suspended_def fun_upd_idem split: option.split)
    ultimately show ?thesis
      using holds_ok_commit [OF holds r] index_wf_others(3) [OF ok(3)] L regs_ok_spawned_for [OF regs _ d, of V]
        spawned_for_drivers [of r ?V V]
      by (simp add: serving_ok_def Let_def)
  qed
qed

lemma aborted_ok:
  assumes "serving_ok G" "abort_run H now key r (sg_server G) = (ans, V)"
  shows "serving_ok (G\<lparr>sg_server := V\<rparr>)"
proof -
  let ?V = "sg_server G"
  have same: "sv_tasks V = sv_tasks ?V \<and> sv_runs V = sv_runs ?V \<and> sv_pauses V = sv_pauses ?V \<and>
      sv_pending V = sv_pending ?V \<and> sv_next_flag V = sv_next_flag ?V"
    using assms(2) by (auto simp: abort_run_def Let_def split: if_splits option.splits prod.splits)
  then have "tasks_ok V = tasks_ok ?V" "drivers V = drivers ?V" using tasks_ok_cong [of V ?V] by simp_all
  moreover have "sv_pool V = sv_pool ?V" "sv_index V = sv_index ?V \<or> sv_index V = snd (remove_suspended r (sv_index ?V))"
    using assms(2) by (auto simp: abort_run_def Let_def split: if_splits option.splits prod.splits)
  moreover have "ix_entries (snd (remove_suspended r I)) = (ix_entries I)(r := None)" for I
    by (auto simp: remove_suspended_def fun_upd_idem split: option.split)
  ultimately show ?thesis
    using assms(1) index_wf_others(3) [of "sv_index ?V" r] same by (auto simp: serving_ok_def Let_def holds_ok_remove)
qed

lemma progressed_ok:
  assumes "serving_ok G" "progress_fanout H now c sp (sg_server G) = (sp', V)"
  shows "serving_ok (G\<lparr>sg_server := V\<lparr>sv_tasks := map (\<lambda>t. if t = sp then sp' else t) (sv_tasks V)\<rparr>\<rparr>)"
proof -
  let ?V = "sg_server G" and ?f = "\<lambda>t. if t = sp then sp' else t"
  let ?W = "V\<lparr>sv_tasks := map ?f (sv_tasks V)\<rparr>"
  have same: "sv_runs ?W = sv_runs ?V" "sv_pauses ?W = sv_pauses ?V" "sv_pending ?W = sv_pending ?V"
    "sv_next_flag ?W = sv_next_flag ?V" "sv_index ?W = sv_index ?V" "sv_pool ?W = sv_pool ?V" "sv_tasks ?W = map ?f (sv_tasks ?V)"
    and f: "sp_run_id (?f t) = sp_run_id t" "sp_token (?f t) = sp_token t" "sp_pause (?f t) = sp_pause t" for t
    using assms(2) by (auto simp: progress_fanout_def split: prod.splits)
  have m: "map (sp_token \<circ> ?f) ts = map sp_token ts" "map (sp_run_id \<circ> ?f) ts = map sp_run_id ts"
    "sp_token ` ?f ` set ts = sp_token ` set ts" for ts
    unfolding image_image using f by (simp_all add: comp_def)
  have "tasks_ok ?W = tasks_ok ?V" "drivers ?W = drivers ?V"
    unfolding tasks_ok_def flags_ok_def drivers_def same list.map_comp m set_map ball_simps f by (rule refl)+
  moreover have "regs_ok (map ?f T) R P L U S D" if "regs_ok T R P L U S D" for T R P L U S D
    using regs_ok_map [OF that, of ?f] f by simp
  ultimately show ?thesis using assms(1) same by (simp add: serving_ok_def Let_def)
qed

lemma serving_ok_step: "serve_step H G G' \<Longrightarrow> serving_ok G \<Longrightarrow> serving_ok G'"
proof (induction rule: serve_step.induct)
  case (stepped sp G now p)
  then show ?case
    by (intro serving_ok_cong) (auto simp: publish_step_progress_def progress_fanout_def serving_ok_def Let_def split: prod.splits)
next
  case (paused key r G ans V)
  then show ?case
    by (intro serving_ok_cong) (auto simp: pause_run_def serving_ok_def Let_def split: if_splits option.splits)
next
  case (refused ok key r G err V)
  then have "V = sg_server G"
    by (auto simp: resume_take_def split: if_splits option.splits prod.splits take_for_resume.splits)
  with refused.prems show ?case by simp
next
  case (campaign_aborted key raw G ans V)
  then show ?case
    by (intro serving_ok_cong) (auto simp: abort_campaign_def serving_ok_def Let_def split: if_splits option.splits)
next
  case (streamed key raw G rcv V)
  then show ?case
    by (intro serving_ok_cong) (auto simp: stream_event_def serving_ok_def Let_def split: if_splits option.splits prod.splits)
next
  case (written G item rest ok now)
  then show ?case
    by (intro serving_ok_cong) (auto simp: serving_ok_def Let_def write_item_def split: option.splits durable_item.splits)
qed (auto intro: posted_ok progressed_ok left_ok deregistered_ok took_ok committed_ok aborted_ok)

lemma serving_ok_new: "serving_ok (serving_new None)"
  by (simp add: serving_ok_def serving_new_def server_new_def tasks_ok_def flags_ok_def drivers_def index_wf_def holds_ok_def
      regs_ok_def)

lemma serving_ok_reached: "serves H (serving_new None) G \<Longrightarrow> serving_ok G"
  by (induction rule: rtranclp_induct) (auto intro: serving_ok_new serving_ok_step)

end
