(* ===== verification/ServeRuns.thy ===== *)
theory ServeRuns
  imports ServeLaws
begin

text \<open>
  What the serving layer promises of a run: one driver, an exit that leaves exactly one kind of trace, a
  resume that continues the suspended run, and where these promises end.
\<close>

subsection \<open>One driver\<close>

lemma list_suspended_entries: "(r, e) \<in> set (list_suspended I) \<Longrightarrow> ix_entries I r = Some e"
  by (auto simp: list_suspended_def set_map_filter_iff)

lemma length_list_suspended: "length (list_suspended I) \<le> length (ix_order I)"
proof -
  have "length (List.map_filter f xs) \<le> length xs" for f :: "uuid \<Rightarrow> (uuid \<times> suspended_entry) option" and xs
    by (induction xs) (auto simp: List.map_filter_simps split: option.split)
  from this [of _ "rev (ix_order I)"] show ?thesis by (simp add: list_suspended_def)
qed

text \<open>
  C8. Without a database, in every state that requests, tasks and the writer can reach, in any order, and with
  anything coming in between the three steps in which a task ends: no run is driven by two tasks, and at
  most a hundred runs are listed as suspended, none of them driven. A token that is registered is that of a task
  which drives the run or has yet to deregister it, and the same holds of a pause signal. A task that
  drives a run has its token registered unless an older task of the same run deregistered the run after it
  had started, and its pause signal unless an older task of the run removed it.
\<close>

theorem single_driver:
  assumes "serves H (serving_new None) G"
  shows "(let V = sg_server G in
    distinct (drivers V) \<and> length (list_suspended (sv_index V)) \<le> 100 \<and>
    list_all (\<lambda>(r, e). r \<notin> set (drivers V)) (list_suspended (sv_index V)) \<and>
    (\<forall>r k. sv_runs V r = Some k \<longrightarrow>
       list_ex (\<lambda>t. sp_run_id t = r \<and> sp_token t = k) (sv_tasks V @ sg_leaving G)) \<and>
    (\<forall>r k. sv_pauses V r = Some k \<longrightarrow>
       list_ex (\<lambda>t. sp_run_id t = r \<and> sp_pause t = k) (sv_tasks V @ sg_leaving G @ sg_unpausing G)) \<and>
    list_all (\<lambda>t. sv_runs V (sp_run_id t) = Some (sp_token t) \<or> sp_token t \<in> sg_unregistered G) (sv_tasks V) \<and>
    list_all (\<lambda>t. sv_pauses V (sp_run_id t) = Some (sp_pause t) \<or> sp_token t \<in> sg_deaf G) (sv_tasks V))"
proof -
  have ok: "serving_ok G" by (rule serving_ok_reached [OF assms])
  let ?V = "sg_server G"
  have "length (list_suspended (sv_index ?V)) \<le> 100"
    using ok length_list_suspended [of "sv_index ?V"]
    by (simp add: serving_ok_def Let_def index_wf_def completed_run_retention_def)
  moreover have "list_all (\<lambda>(r, e). r \<notin> set (drivers ?V)) (list_suspended (sv_index ?V))"
    using ok by (auto simp: list_all_iff serving_ok_def Let_def holds_ok_def dest!: list_suspended_entries)
  moreover have "regs_ok (sv_tasks ?V) (sv_runs ?V) (sv_pauses ?V) (sg_leaving G) (sg_unpausing G)
      (sg_unregistered G) (sg_deaf G)" "distinct (drivers ?V)"
    using ok by (simp_all add: serving_ok_def tasks_ok_def Let_def)
  ultimately show ?thesis
    unfolding regs_ok_def Let_def list_ex_iff list_all_iff set_append Un_assoc by blast
qed

definition example_http :: http_env where
  "example_http = \<lparr>he_serve = example_env, he_api_key = ''k'',
     he_dispatcher = dispatcher_register (w_schema chain_workflow) (\<lambda>_. Inr chain_workflow) dispatcher_new,
     he_publishes = (\<lambda>_ _. None), he_budget = \<lparr>max_total_tokens = None, max_cost_usd = None\<rparr>,
     he_registry = None, he_current_dir = Inr ''/'', he_is_dir = (\<lambda>_. True)\<rparr>"

abbreviation chain_type :: string where
  "chain_type \<equiv> workflow_type (w_schema chain_workflow)"

lemma example_dispatch: "dispatch_with_event (he_dispatcher example_http) chain_type d = Inr chain_workflow"
  by (simp add: example_http_def dispatcher_register_def dispatch_with_event_def dispatcher_new_def Let_def)

lemma example_factory: "call_factory example_http th chain_type d V = (Inr chain_workflow, V)"
proof -
  have "he_publishes example_http t d = None" for t by (simp add: example_http_def)
  then show ?thesis by (simp add: call_factory_def example_dispatch)
qed

lemma example_post:
  "\<exists>sp V. post_events example_http th now r (Some ''k'') chain_type d (server_new pool) = (Inr r, V) \<and>
     sv_tasks V = [sp] \<and> sp_run_id sp = r \<and> sp_workflow_type sp = chain_type \<and> sp_data sp = d"
proof -
  have "preflight example_http chain_type d = None"
    by (simp add: preflight_def sdlc_flow_type_def sdlc_task_type_def chain_workflow_def workflow_new_def sample_schema_def)
  moreover have "check_api_key (Some ''k'') (he_api_key example_http)" by (simp add: check_api_key_def example_http_def)
  ultimately show ?thesis
    by (simp add: post_events_def example_factory new_flag_def spawn_run_def take_pending_run_token_def server_new_def)
qed

lemma example_served:
  "\<exists>G sp. serves example_http (serving_new pool) G \<and> sv_tasks (sg_server G) = [sp] \<and> sp_run_id sp = 7 \<and>
     sp_workflow_type sp = chain_type \<and> sp_data sp = JNull \<and> sg_server G =
       snd (post_events example_http 0 1 7 (Some ''k'') chain_type JNull (server_new pool)) \<and>
     sg_leaving G = [] \<and> sg_unregistered G = {}"
proof -
  obtain sp V where V: "post_events example_http 0 1 7 (Some ''k'') chain_type JNull (server_new pool) = (Inr 7, V)"
    "sv_tasks V = [sp]" "sp_run_id sp = 7" "sp_workflow_type sp = chain_type" "sp_data sp = JNull" using example_post by blast
  have "serve_step example_http (serving_new pool)
      ((serving_new pool)\<lparr>sg_server := V, sg_used := insert 7 (sg_used (serving_new pool))\<rparr>)"
    by (rule serve_step.posted [where r = 7]) (use V(1) in \<open>simp_all add: serving_new_def\<close>)
  with V show ?thesis
    by (intro exI [of _ "(serving_new pool)\<lparr>sg_server := V, sg_used := insert 7 (sg_used (serving_new pool))\<rparr>"] exI [of _ sp])
      (auto simp: serving_new_def)
qed

theorem single_driver_witness:
  "\<exists>G t. serves example_http (serving_new None) G \<and> sv_tasks (sg_server G) = [t] \<and> sp_run_id t = 7 \<and>
     sv_runs (sg_server G) 7 = Some (sp_token t) \<and> sv_runs (sg_server G) 8 = None"
proof -
  obtain G sp where G: "serves example_http (serving_new None) G" "sv_tasks (sg_server G) = [sp]" "sp_run_id sp = 7"
    "sg_leaving G = []" "sg_unregistered G = {}"
    using example_served by blast
  note driver = single_driver [OF G(1), unfolded Let_def G(2,4,5)]
  have "sv_runs (sg_server G) 7 = Some (sp_token sp)" using driver G(3) by simp
  moreover have "sv_runs (sg_server G) 8 = None"
  proof (rule ccontr)
    assume "sv_runs (sg_server G) 8 \<noteq> None"
    then obtain k where "sv_runs (sg_server G) 8 = Some k" by blast
    with driver have "list_ex (\<lambda>t. sp_run_id t = 8 \<and> sp_token t = k) ([sp] @ [])" by blast
    with G(3) show False by simp
  qed
  ultimately show ?thesis using G by blast
qed

subsection \<open>What the exits leave behind\<close>

text \<open>The bounded stores of a server, in every state it reaches with or without a database.\<close>

definition bounded_ok :: "server \<Rightarrow> bool" where
  "bounded_ok V \<longleftrightarrow> ring_inv (completed (sv_live V)) \<and> ring_inv (rg_terminal (sv_streams V)) \<and> index_wf (sv_index V)"

lemma ring_inv_cache_delete:
  assumes "ring_inv C"
  shows "ring_inv \<lparr>entries = AList.delete r (entries C), ring_order = filter (\<lambda>j. j \<noteq> r) (ring_order C)\<rparr>"
proof -
  have "fst ` set (AList.delete r l) = fst ` set l - {r}" for l :: "(uuid \<times> 'a) list" by (induction l) auto
  moreover have "length (filter (\<lambda>j. j \<noteq> r) (ring_order C)) \<le> completed_run_retention"
    using assms le_trans [OF length_filter_le] by (auto simp: ring_inv_def)
  ultimately show ?thesis using assms by (auto simp: ring_inv_def distinct_delete)
qed

lemma stream_rings:
  "rg_terminal (publish r c S) = rg_terminal S"
  "rg_terminal (publish_terminal r c S) = ring_insert r (terminal_frame r c) (rg_terminal S)"
  "rg_terminal (publish_suspended r c S) = ring_insert r (suspended_frame r c) (rg_terminal S)"
  "rg_terminal (snd (subscribe r S)) = rg_terminal S" "rg_terminal (snd (subscribe_progress r S)) = rg_terminal S"
  by (auto simp: stream_defs cache_insert_eq split: option.split)

lemma bounded_factory: "bounded_ok V \<Longrightarrow> bounded_ok (snd (call_factory H th wt d V))"
  by (simp add: call_factory_def new_flag_def bounded_ok_def split: option.split)

lemma bounded_spawn: "bounded_ok V \<Longrightarrow> bounded_ok (spawn_run th sp V)"
  by (simp add: spawn_run_def take_pending_run_token_def bounded_ok_def split: option.split)

lemma bounded_leave: "bounded_ok V \<Longrightarrow> bounded_ok (leave_run H now msg res sp V)"
  by (auto simp: bounded_ok_def leave_run_def Let_def suspended_exit_def terminal_exit_def mark_terminal_fields
      stream_rings ring.inv_ins store_record_def split: prod.split option.split intro: index_insert_ok(1))

lemma bounded_step: "serve_step H G G' \<Longrightarrow> bounded_ok (sg_server G) \<Longrightarrow> bounded_ok (sg_server G')"
proof (induction rule: serve_step.induct)
  case (posted r G th now key wt data res V)
  obtain out V1 where f: "call_factory H th wt data (sg_server G) = (out, V1)" by fastforce
  with bounded_factory [OF posted.prems, of H th wt data] have "bounded_ok V1" by simp
  then have "bounded_ok (spawn_run th sp (V1\<lparr>sv_runs := a, sv_next_flag := b, sv_pauses := c, sv_started := d\<rparr>))" for sp a b c d
    by (intro bounded_spawn) (simp add: bounded_ok_def)
  with posted \<open>bounded_ok V1\<close> f show ?case
    by (auto simp: post_events_def new_flag_def split: if_splits sum.splits dispatch_error.splits option.splits)
next
  case (committed r e G th out V)
  let ?V = "sg_server G"
  obtain res V1 where f: "call_factory H th (su_workflow_type e) (su_data e) ?V = (res, V1)" by fastforce
  with bounded_factory [OF committed.prems, of H th "su_workflow_type e" "su_data e"] have V1: "bounded_ok V1" by simp
  have ref: "bounded_ok (U\<lparr>sv_index := clear_resuming r (sv_index U)\<rparr>)" if "bounded_ok U" for U
    using that index_wf_others(2) by (simp add: bounded_ok_def)
  have "bounded_ok (spawn_run th sp (V1\<lparr>sv_runs := a, sv_next_flag := b, sv_pauses := c, sv_started := d,
      sv_streams := clear_terminal r (sv_streams V1), sv_index := snd (remove_suspended r (sv_index V1))\<rparr>))" for sp a b c d
    using V1 index_wf_others(3) ring_inv_cache_delete [of "rg_terminal (sv_streams V1)" r]
    by (intro bounded_spawn) (simp add: bounded_ok_def clear_terminal_def)
  with committed f V1 ref [OF V1] ref [OF committed.prems] show ?case
    by (auto simp: resume_commit_def new_flag_def Let_def split: if_splits sum.splits dispatch_error.splits)
next
  case (took ok key r G e V)
  then show ?case using index_wf_others(1) [of "sv_index (sg_server G)" r]
    by (auto simp: resume_take_def bounded_ok_def split: if_splits option.splits prod.splits take_for_resume.splits)
next
  case (aborted now key r G ans V)
  then show ?case using index_wf_others(3) [of "sv_index (sg_server G)" r]
    by (auto simp: abort_run_def bounded_ok_def Let_def stream_rings ring.inv_ins mark_terminal_fields
        split: if_splits option.splits prod.splits)
next
  case (streamed key raw G rcv V)
  then have "V = sg_server G \<or> (\<exists>r. V = (sg_server G)\<lparr>sv_streams := snd (subscribe_progress r (snd (subscribe r (sv_streams (sg_server G)))))\<rparr>)"
    by (auto simp: stream_event_def case_prod_beta split: if_splits option.splits)
  with streamed.prems show ?case by (auto simp: bounded_ok_def stream_rings)
next
  case (stepped sp G now p)
  then show ?case
    by (auto simp: publish_step_progress_def progress_fanout_def bounded_ok_def stream_rings store_record_def split: prod.splits)
next
  case (progressed sp G now c sp' V)
  then show ?case by (auto simp: progress_fanout_def bounded_ok_def stream_rings store_record_def split: prod.splits)
next
  case (refused ok key r G err V)
  then show ?case by (auto simp: resume_take_def split: if_splits option.splits prod.splits take_for_resume.splits)
next
  case (paused key r G ans V)
  then show ?case by (auto simp: pause_run_def bounded_ok_def split: if_splits option.splits)
next
  case (campaign_aborted key raw G ans V)
  then show ?case by (auto simp: abort_campaign_def bounded_ok_def split: if_splits option.splits)
next
  case (left sp G now msg res)
  then show ?case by (simp add: bounded_leave)
qed (simp_all add: bounded_ok_def deregister_run_def remove_pause_signal_def)

lemma bounded_reached: "serves H (serving_new pool) G \<Longrightarrow> bounded_ok (sg_server G)"
proof (induction rule: rtranclp_induct)
  case base
  have "ring_inv (empty_ring :: run_record completed_ring)" "ring_inv (empty_ring :: stream_frame completed_ring)"
    by (rule ring.nil)+
  then show ?case
    by (simp add: serving_new_def server_new_def bounded_ok_def live_store_new_def registry_empty_def index_wf_def)
qed (rule bounded_step)

text \<open>
  C10. A run that ends for good leaves one trace everywhere at once: the last snapshot, stamped as completed,
  is queued for the database, is the record of the run in the ring, is what a client that connects is
  sent before the stream ends, and is what a read answers; the run is live, started, cancellable
  and pausable no longer, and a workflow of the SDLC family that failed has its state file written.
\<close>

theorem terminal_exit_exact:
  assumes "serves H (serving_new pool) G" "V = sg_server G"
    and "run_outcome (sv_live V) (sp_run_id sp) msg res = (ctx, why)" "\<not> ends_suspended ctx"
    and "final = stamp_terminal_completion (he_formats H) now ctx" "V' = finish_run H now msg res sp V"
    and "uuid_parse (he_formats H) raw = Some (sp_run_id sp)"
  shows "sv_channel V' = sv_channel V @ [durable_record (sp_run_id sp) (sp_workflow_type sp) (sp_data sp) final] \<and>
    get_event H later (Some (he_api_key H)) raw V' = Inr \<lparr>rb_workflow_type = sp_workflow_type sp,
      rb_status = derive_terminal_status final, rb_created_at = sp_created_at sp, rb_updated_at = now, rb_context = final\<rparr> \<and>
    (case stream_event H (Some (he_api_key H)) raw V' of (got, _) \<Rightarrow>
       got = Inr (OneShot [terminal_frame (sp_run_id sp) final], OneShot [])) \<and>
    map_of (live (sv_live V')) (sp_run_id sp) = None \<and> sv_started V' (sp_run_id sp) = None \<and>
    sv_runs V' (sp_run_id sp) = None \<and> sv_pauses V' (sp_run_id sp) = None \<and>
    sv_effects V' = sv_effects V @ terminal_effects sp ctx why \<and> sv_index V' = sv_index V"
proof -
  have ok: "bounded_ok V" using bounded_reached [OF assms(1)] assms(2) by simp
  have V': "sv_live V' = mark_terminal (he_serve H) now (sp_run_id sp) final (sp_workflow_type sp) (sp_created_at sp) now (sv_live V)"
    "sv_streams V' = publish_terminal (sp_run_id sp) final (sv_streams V)"
    "sv_channel V' = sv_channel V @ [durable_record (sp_run_id sp) (sp_workflow_type sp) (sp_data sp) final]"
    "sv_started V' = (sv_started V)(sp_run_id sp := None)" "sv_effects V' = sv_effects V @ terminal_effects sp ctx why"
    "sv_index V' = sv_index V"
    using assms(3,4) by (simp_all add: assms(5,6) finish_run_fields leave_run_def terminal_exit_def Let_def)
  have rec: "get_record (sv_live V') (sp_run_id sp) = Some (terminal_record (he_formats H) final (sp_workflow_type sp) (sp_created_at sp) now)"
    using ok by (simp add: V' get_record_def mark_terminal_fields ring_insert_found bounded_ok_def)
  have frame: "map_of (entries (rg_terminal (sv_streams V'))) (sp_run_id sp) = Some (terminal_frame (sp_run_id sp) final)"
    using ok by (simp add: V' stream_rings ring_insert_found bounded_ok_def)
  have key: "check_api_key (Some (he_api_key H)) (he_api_key H)" by (simp add: check_api_key_def)
  have "stream_event H (Some (he_api_key H)) raw V' = (Inr (OneShot [terminal_frame (sp_run_id sp) final], OneShot []), V')"
    using rec frame by (simp add: stream_event_def key assms(7) stream_known_def subscribe_def cache_get_def subscribe_progress_def)
  moreover have "get_event H later (Some (he_api_key H)) raw V' = Inr \<lparr>rb_workflow_type = sp_workflow_type sp,
      rb_status = derive_terminal_status final, rb_created_at = sp_created_at sp, rb_updated_at = now, rb_context = final\<rparr>"
    using rec by (simp add: get_event_def key assms(7) terminal_record_def)
  moreover have "map_of (live (sv_live V')) (sp_run_id sp) = None" by (simp add: V' mark_terminal_fields delete_conv')
  moreover have "sv_runs V' (sp_run_id sp) = None" "sv_pauses V' (sp_run_id sp) = None"
    by (simp_all add: assms(6) finish_run_fields)
  ultimately show ?thesis using V' by simp
qed

theorem terminal_exit_exact_witness:
  "\<exists>G sp. serves example_http (serving_new None) G \<and> sv_tasks (sg_server G) = [sp] \<and>
     (let V' = finish_run example_http 5 [] (DriveOk empty_task_context) sp (sg_server G) in
       (\<exists>c. sv_channel V' = sv_channel (sg_server G) @ [c]) \<and> sv_started V' 7 = None \<and> sv_runs V' 7 = None)"
proof -
  obtain G sp where G: "serves example_http (serving_new None) G" "sv_tasks (sg_server G) = [sp]" "sp_run_id sp = 7"
    using example_served by blast
  have raw: "uuid_parse (he_formats example_http) ''7'' = Some (sp_run_id sp)" unfolding G(3) by code_simp
  have ends: "\<not> ends_suspended empty_task_context" by code_simp
  have out: "run_outcome L r [] (DriveOk empty_task_context) = (empty_task_context, None)" for L r
    by (simp add: run_outcome_def failed_node_reason_def empty_task_context_def)
  show ?thesis
    using terminal_exit_exact [OF G(1) refl out ends refl refl raw, of 5 0] G(2)
    unfolding Let_def G(3) by (intro exI [of _ G] exI [of _ sp] conjI G(1,2)) blast+
qed

subsection \<open>Resuming\<close>

text \<open>What is needed of an entry for a resume to be committed.\<close>

definition resumable :: "http_env \<Rightarrow> suspended_entry \<Rightarrow> workflow \<Rightarrow> bool" where
  "resumable H e w \<longleftrightarrow> dispatch_with_event (he_dispatcher H) (su_workflow_type e) (su_data e) = Inr w \<and>
     Option.bind (read_suspension (metadata (su_snapshot e))) ss_reason \<noteq> Some HeavyWorkQueue \<and>
     has_node (without_seeded_nodes w) (su_resume_at e)"

definition resumed_task :: "uuid \<Rightarrow> suspended_entry \<Rightarrow> workflow \<Rightarrow> spawned_run \<Rightarrow> bool" where
  "resumed_task r e w sp \<longleftrightarrow> sp_run_id sp = r \<and> sp_workflow sp = without_seeded_nodes w \<and>
     sp_workflow_type sp = su_workflow_type e \<and> sp_data sp = su_data e \<and> sp_created_at sp = su_created_at e \<and>
     sp_start sp = ResumeStart \<lparr>rs_ctx = su_snapshot e, rs_at_identity = su_resume_at e, rs_ledger = resume_ledger (su_snapshot e)\<rparr>"

lemma resume_commit_ok:
  assumes "resumable H e w" "sv_pending V th = None"
  shows "\<exists>sp V'. resume_commit H th r e V = (Inr (su_resume_at e), V') \<and> resumed_task r e w sp \<and>
    sv_tasks V' = sv_tasks V @ [sp] \<and> sv_runs V' = (sv_runs V)(r \<mapsto> sp_token sp) \<and> sp_token sp = sv_next_flag V \<and>
    sv_pending V' th = None \<and> sv_next_flag V < sv_next_flag V' \<and> sv_pool V' = sv_pool V \<and>
    sv_index V' = snd (remove_suspended r (sv_index V)) \<and> sv_cancelled V' = sv_cancelled V \<and>
    sv_live V' = sv_live V \<and> cache_get (rg_terminal (sv_streams V')) r = None"
proof -
  have reg: "map_of (workflow_registry (he_dispatcher H)) (su_workflow_type e) \<noteq> None"
    using assms(1) by (cases "map_of (workflow_registry (he_dispatcher H)) (su_workflow_type e)")
      (simp_all add: resumable_def dispatch_with_event_def)
  obtain V1 where f: "call_factory H th (su_workflow_type e) (su_data e) V = (Inr w, V1)"
    using assms(1) by (simp add: call_factory_def resumable_def)
  have V1: "sv_tasks V1 = sv_tasks V" "sv_runs V1 = sv_runs V" "sv_pool V1 = sv_pool V" "sv_index V1 = sv_index V"
    "sv_cancelled V1 = sv_cancelled V" "sv_live V1 = sv_live V"
    "case sv_pending V1 th of None \<Rightarrow> sv_next_flag V1 = sv_next_flag V
      | Some pt \<Rightarrow> pt_token pt = sv_next_flag V \<and> sv_next_flag V1 = Suc (sv_next_flag V)"
    using f assms(2) by (auto simp: call_factory_def new_flag_def split: option.splits if_splits)
  obtain sp V3 where c: "resume_commit H th r e V = (Inr (su_resume_at e), spawn_run th sp V3)" "resumed_task r e w sp"
    "sp_token sp = sv_next_flag V1" "sv_tasks V3 = sv_tasks V1" "sv_runs V3 = (sv_runs V1)(r \<mapsto> sv_next_flag V1)"
    "sv_pool V3 = sv_pool V1" "sv_pending V3 = sv_pending V1" "sv_next_flag V3 = Suc (Suc (sv_next_flag V1))"
    "sv_index V3 = snd (remove_suspended r (sv_index V1))" "sv_cancelled V3 = sv_cancelled V1" "sv_live V3 = sv_live V1"
    "sv_streams V3 = clear_terminal r (sv_streams V1)"
    using assms(1) by (simp add: resume_commit_def f new_flag_def Let_def resumable_def resumed_task_def)
  have "cache_get (rg_terminal (clear_terminal r S)) r = None" for S
    by (simp add: clear_terminal_def cache_get_def delete_conv')
  with c V1 show ?thesis
    by (cases "sv_pending V1 th")
      (simp_all add: spawn_run_def take_pending_run_token_def resumed_task_def)
qed

text \<open>A run that has just been listed can be resumed, whatever of its old task is still to come.\<close>

lemma listed_resumes:
  assumes "index_wf I" "sv_index V1 = snd (index_insert r e I)" "sv_pending V1 th = None" "\<not> su_resuming e"
    and "resumable H e w" "key = Some (he_api_key H)"
  shows "index_wf (sv_index V1)" "ix_entries (sv_index V1) r = Some e"
    "\<exists>t V2. resume_run H th ok key r V1 = (Inr (su_resume_at e), V2) \<and> resumed_task r e w t \<and>
       sv_tasks V2 = sv_tasks V1 @ [t] \<and> ix_entries (sv_index V2) r = None \<and> sv_pool V2 = sv_pool V1 \<and>
       cache_get (rg_terminal (sv_streams V2)) r = None"
proof -
  obtain ev where "index_insert r e I = (ev, sv_index V1)" using assms(2) by (metis prod.collapse)
  then show "index_wf (sv_index V1)" and entry: "ix_entries (sv_index V1) r = Some e"
    using index_insert_ok(1,2) [OF assms(1)] by simp_all
  let ?e = "e\<lparr>su_resuming := True\<rparr>"
  let ?T = "V1\<lparr>sv_index := (sv_index V1)\<lparr>ix_entries := (ix_entries (sv_index V1))(r \<mapsto> ?e)\<rparr>\<rparr>"
  have take: "resume_take H ok key r V1 = (Inr ?e, ?T)"
    using entry assms(4,6) by (simp add: resume_take_def check_api_key_def take_entry_def Let_def)
  have "resumable H ?e w" using assms(5) by (simp add: resumable_def)
  from resume_commit_ok [OF this, of ?T th r] assms(3) obtain t V2 where
    "resume_commit H th r ?e ?T = (Inr (su_resume_at e), V2)" "resumed_task r ?e w t" "sv_tasks V2 = sv_tasks V1 @ [t]"
    "sv_index V2 = snd (remove_suspended r (sv_index ?T))" "sv_pool V2 = sv_pool V1"
    "cache_get (rg_terminal (sv_streams V2)) r = None" by auto
  with take show "\<exists>t V2. resume_run H th ok key r V1 = (Inr (su_resume_at e), V2) \<and> resumed_task r e w t \<and>
       sv_tasks V2 = sv_tasks V1 @ [t] \<and> ix_entries (sv_index V2) r = None \<and> sv_pool V2 = sv_pool V1 \<and>
       cache_get (rg_terminal (sv_streams V2)) r = None"
    by (intro exI [of _ t] exI [of _ V2])
      (simp add: resume_run_def resumed_task_def remove_suspended_def split: option.split)
qed

lemma entry_of_run_fields:
  "su_workflow_type (entry_of_run now sp ctx) = sp_workflow_type sp" "su_data (entry_of_run now sp ctx) = sp_data sp"
  "su_snapshot (entry_of_run now sp ctx) = ctx" "su_created_at (entry_of_run now sp ctx) = sp_created_at sp"
  "su_resume_at (entry_of_run now sp ctx) = marker_resume_at (metadata ctx)" "\<not> su_resuming (entry_of_run now sp ctx)"
  by (simp_all add: entry_of_run_def)

lemma leave_suspended:
  assumes "run_outcome (sv_live V) (sp_run_id sp) msg res = (ctx, why)" "ends_suspended ctx"
  shows "sv_index (leave_run H now msg res sp V) = snd (index_insert (sp_run_id sp) (entry_of_run now sp ctx) (sv_index V))"
    "rg_terminal (sv_streams (leave_run H now msg res sp V)) =
       ring_insert (sp_run_id sp) (suspended_frame (sp_run_id sp) ctx) (rg_terminal (sv_streams V))"
  using assms by (simp_all add: leave_run_def suspended_exit_def Let_def stream_rings split: prod.split option.split)

text \<open>
  C9. Suspending and resuming is a round trip. A run that ends suspended leaves no durable record of its own,
  is listed with the pointer of its marker, and its stream ends with a last frame; a resume then starts
  exactly one task, for the same run and event, on the graph the factory builds now, from the context the
  run was suspended with, at that pointer and with the ledger of the marker; the run is no longer
  listed, its stream is open again, and without a database a second resume finds nothing.
\<close>

theorem suspend_then_resume:
  assumes "serves H (serving_new pool) G" "V = sg_server G" "V1 = finish_run H now msg res sp V"
    and "run_outcome (sv_live V) (sp_run_id sp) msg res = (ctx, why)" "ends_suspended ctx"
    and "read_suspension (metadata ctx) = Some st" "ss_resume_at st = Some i" "ss_reason st \<noteq> Some HeavyWorkQueue" "ss_ledger st = Some l"
    and "dispatch_with_event (he_dispatcher H) (sp_workflow_type sp) (sp_data sp) = Inr w"
    and "has_node (without_seeded_nodes w) i" "sv_pending V th = None"
  shows "(case resume_run H th ok (Some (he_api_key H)) (sp_run_id sp) V1 of (out, V2) \<Rightarrow>
    out = Inr i \<and> cache_get (rg_terminal (sv_streams V1)) (sp_run_id sp) = Some (suspended_frame (sp_run_id sp) ctx) \<and>
    (sp_run_id sp, entry_of_run now sp ctx) \<in> set (list_suspended (sv_index V1)) \<and>
    (\<exists>t. sv_tasks V2 = sv_tasks V1 @ [t] \<and> sp_run_id t = sp_run_id sp \<and> sp_data t = sp_data sp \<and>
       sp_workflow_type t = sp_workflow_type sp \<and> sp_created_at t = sp_created_at sp \<and>
       sp_workflow t = without_seeded_nodes w \<and> sp_start t = ResumeStart \<lparr>rs_ctx = ctx, rs_at_identity = i,
         rs_ledger = from_parts (ls_total_tokens l) (ls_total_cost_usd l)\<rparr>) \<and>
    ix_entries (sv_index V2) (sp_run_id sp) = None \<and> cache_get (rg_terminal (sv_streams V2)) (sp_run_id sp) = None \<and>
    (case pool of None \<Rightarrow> fst (resume_run H th ok' (Some (he_api_key H)) (sp_run_id sp) V2) = Inl NotFound | Some _ \<Rightarrow> True))"
proof -
  let ?r = "sp_run_id sp" and ?e = "entry_of_run now sp ctx" and ?key = "Some (he_api_key H)"
  have ok: "bounded_ok V" using bounded_reached [OF assms(1)] assms(2) by simp
  have V1: "sv_index V1 = snd (index_insert ?r ?e (sv_index V))" "sv_pending V1 = sv_pending V" "sv_pool V1 = sv_pool V"
    "rg_terminal (sv_streams V1) = ring_insert ?r (suspended_frame ?r ctx) (rg_terminal (sv_streams V))"
    using leave_suspended [OF assms(4,5)] by (simp_all add: assms(3) finish_run_fields)
  have at: "su_resume_at ?e = i" using assms(6,7) by (simp add: entry_of_run_fields marker_resume_at_def)
  have res: "resumable H ?e w" using assms(6-11) at by (simp add: resumable_def entry_of_run_fields)
  have wf: "index_wf (sv_index V)" using ok by (simp add: bounded_ok_def)
  have pend: "sv_pending V1 th = None" using assms(12) V1(2) by simp
  note resumes = listed_resumes [OF wf V1(1) pend entry_of_run_fields(6) res refl]
  have listed: "(?r, ?e) \<in> set (list_suspended (sv_index V1))"
    using resumes(1,2) by (auto simp: list_suspended_def set_map_filter_iff index_wf_def dom_def)
  have frame: "cache_get (rg_terminal (sv_streams V1)) ?r = Some (suspended_frame ?r ctx)"
    using ok by (simp add: V1 cache_get_def ring_insert_found bounded_ok_def)
  obtain t V2 where c: "resume_run H th ok ?key ?r V1 = (Inr i, V2)" "resumed_task ?r ?e w t"
    "sv_tasks V2 = sv_tasks V1 @ [t]" "ix_entries (sv_index V2) ?r = None" "sv_pool V2 = sv_pool V1"
    "cache_get (rg_terminal (sv_streams V2)) ?r = None"
    using resumes(3) unfolding at by blast
  have pool: "sv_pool V = pool" if "pool = None"
  proof -
    have "sv_pool (sg_server G) = None" if "serves H (serving_new None) G" using serving_ok_reached [OF that] by (simp add: serving_ok_def Let_def)
    with assms(1,2) that show ?thesis by simp
  qed
  have "resume_ledger ctx = from_parts (ls_total_tokens l) (ls_total_cost_usd l)" using assms(6,9) by (simp add: resume_ledger_def)
  then have t: "sp_run_id t = ?r \<and> sp_data t = sp_data sp \<and> sp_workflow_type t = sp_workflow_type sp \<and>
      sp_created_at t = sp_created_at sp \<and> sp_workflow t = without_seeded_nodes w \<and>
      sp_start t = ResumeStart \<lparr>rs_ctx = ctx, rs_at_identity = i, rs_ledger = from_parts (ls_total_tokens l) (ls_total_cost_usd l)\<rparr>"
    using c(2) at by (simp add: resumed_task_def entry_of_run_fields)
  have again: "case pool of None \<Rightarrow> fst (resume_run H th ok' ?key ?r V2) = Inl NotFound | Some _ \<Rightarrow> True"
    using pool c(4,5) V1(3)
    by (simp add: resume_run_def resume_take_def check_api_key_def take_entry_def rehydrate_from_store_def split: option.split)
  show ?thesis using listed frame c(1,3,4,6) t again by (simp only: prod.case) blast
qed

definition paused_context :: task_context where
  "paused_context = \<lparr>event = JNull, nodes = [(''a'', JNull)],
     metadata = stamp_suspended sample_ext 0
       \<lparr>sp_resume_at = ''b'', sp_reason = OperatorPause, sp_origin_identity = None, sp_ledger = from_parts 42 (Fin False 7)\<rparr>
       (JObj []), node_runs = []\<rparr>"

lemma paused_state:
  "\<exists>st. read_suspension (metadata paused_context) = Some st \<and> ss_suspended st \<and> ss_resume_at st = Some ''b'' \<and>
     ss_reason st = Some OperatorPause \<and> ss_ledger st = Some \<lparr>ls_total_tokens = 42, ls_total_cost_usd = Fin False 7\<rparr>"
proof -
  have "f64_is_finite (bl_total_cost_usd (from_parts 42 (Fin False 7)))" by code_simp
  then show ?thesis by (simp add: paused_context_def read_stamp_suspended from_parts_def)
qed

lemma paused_suspends: "ends_suspended paused_context"
proof -
  obtain st where "read_suspension (metadata paused_context) = Some st" "ss_suspended st" using paused_state by blast
  moreover have "\<not> flag_at (metadata paused_context) ''cancellation'' ''cancelled''" by code_simp
  ultimately show ?thesis by (simp add: ends_suspended_def is_suspended_def)
qed

lemma chain_has_b: "has_node (without_seeded_nodes chain_workflow) ''b''"
  by code_simp

lemma example_pending:
  assumes "V = snd (post_events example_http 0 1 7 (Some ''k'') chain_type JNull (server_new None))"
  shows "sv_pending V 0 = None"
  unfolding assms by (auto simp: post_events_def example_factory server_new_def new_flag_def spawn_run_def
      take_pending_run_token_def split: option.split)

lemma example_outcome: "run_outcome L r [] (DriveOk paused_context) = (paused_context, None)"
  by (simp add: run_outcome_def failed_node_reason_def paused_context_def)

theorem suspend_then_resume_witness:
  "\<exists>G sp. serves example_http (serving_new None) G \<and> sv_tasks (sg_server G) = [sp] \<and>
     (case resume_run example_http 0 True (Some ''k'') 7
        (finish_run example_http 5 [] (DriveOk paused_context) sp (sg_server G)) of (out, V2) \<Rightarrow>
      out = Inr ''b'' \<and> ix_entries (sv_index V2) 7 = None)"
proof -
  obtain G sp where G: "serves example_http (serving_new None) G" "sv_tasks (sg_server G) = [sp]" "sp_run_id sp = 7"
    "sp_workflow_type sp = chain_type" "sg_server G = snd (post_events example_http 0 1 7 (Some ''k'') chain_type JNull (server_new None))"
    using example_served by blast
  note pend = example_pending [OF G(5)]
  obtain st where st: "read_suspension (metadata paused_context) = Some st" "ss_resume_at st = Some ''b''"
    "ss_reason st = Some OperatorPause" "ss_ledger st = Some \<lparr>ls_total_tokens = 42, ls_total_cost_usd = Fin False 7\<rparr>"
    using paused_state by blast
  have disp: "dispatch_with_event (he_dispatcher example_http) (sp_workflow_type sp) (sp_data sp) = Inr chain_workflow"
    unfolding G(4) by (rule example_dispatch)
  have key: "he_api_key example_http = ''k''" by (simp add: example_http_def)
  have reason: "ss_reason st \<noteq> Some HeavyWorkQueue" by (simp add: st(3))
  note out = example_outcome
  show ?thesis
    using suspend_then_resume [OF G(1) refl refl out paused_suspends st(1,2) reason st(4) disp chain_has_b pend, of 5 True True]
    unfolding G(3) key by (intro exI [of _ G] exI [of _ sp] conjI G(1,2)) (auto split: prod.splits)
qed

subsection \<open>Where the promises end\<close>

definition paused_entry :: suspended_entry where
  "paused_entry = \<lparr>su_workflow_type = chain_type, su_data = JNull, su_snapshot = paused_context, su_created_at = 0,
     su_suspended_at = 1, su_resume_at = ''b'', su_reason = ''operator_pause'', su_resuming = False\<rparr>"

definition paused_row :: events_row where
  "paused_row = \<lparr>er_id = 7, er_workflow_type = chain_type, er_data = JNull, er_task_context = paused_context,
     er_created_at = 0, er_updated_at = 1\<rparr>"

definition paused_server :: server where
  "paused_server = (server_new (Some \<lparr>db_events = [paused_row], db_invocations = []\<rparr>))
     \<lparr>sv_index := \<lparr>ix_entries = [7 \<mapsto> paused_entry], ix_order = [7]\<rparr>\<rparr>"

lemma example_key: "he_api_key example_http = ''k''"
  by (simp add: example_http_def)

lemma paused_resumable: "resumable example_http paused_entry chain_workflow"
proof -
  obtain st where "read_suspension (metadata paused_context) = Some st" "ss_reason st = Some OperatorPause"
    using paused_state by blast
  then show ?thesis using chain_has_b by (simp add: resumable_def paused_entry_def example_dispatch)
qed

lemma paused_take:
  "\<exists>V. resume_take example_http True (Some (he_api_key example_http)) 7 paused_server =
     (Inr (paused_entry\<lparr>su_resuming := True\<rparr>), V)"
  by (simp add: resume_take_def check_api_key_def take_entry_def paused_server_def paused_entry_def Let_def)

lemma paused_resume_at: "marker_resume_at (metadata paused_context) = ''b''"
  using paused_state by (auto simp: marker_resume_at_def)

definition paused_rebuilt :: suspended_entry where
  "paused_rebuilt = \<lparr>su_workflow_type = chain_type, su_data = JNull, su_snapshot = paused_context, su_created_at = 0,
     su_suspended_at = 1, su_resume_at = marker_resume_at (metadata paused_context),
     su_reason = marker_reason (metadata paused_context), su_resuming = True\<rparr>"

lemma paused_rehydrates: "rehydrate_from_store True (sv_pool paused_server) 7 = Some paused_rebuilt"
proof -
  have "is_suspended (metadata paused_context)" using paused_suspends by (simp add: ends_suspended_def)
  then show ?thesis
    by (simp add: rehydrate_from_store_def paused_server_def server_new_def store_get_event_def paused_row_def paused_rebuilt_def Let_def)
qed

lemma paused_fields:
  "sv_tasks paused_server = []" "sv_pending paused_server th = None" "sv_next_flag paused_server = 0"
  "sv_cancelled paused_server = {}" "sv_runs paused_server r = None" "sv_channel paused_server = []"
  "ix_entries (sv_index paused_server) 7 = Some paused_entry" "ring_inv (completed (sv_live paused_server))"
  "su_resume_at paused_rebuilt = ''b''" "su_resume_at paused_entry = ''b''"
proof -
  have "ring_inv (empty_ring :: run_record completed_ring)" by (rule ring.nil)
  then show "ring_inv (completed (sv_live paused_server))" by (simp add: paused_server_def server_new_def live_store_new_def)
qed (simp_all add: paused_server_def server_new_def paused_rebuilt_def paused_resume_at, simp_all add: paused_entry_def)

lemma paused_row_resumable: "resumable example_http paused_rebuilt chain_workflow"
  using paused_resumable by (simp add: resumable_def paused_rebuilt_def paused_entry_def paused_resume_at)

lemma rehydrated:
  assumes "rehydrate_from_store ok (sv_pool V) r = Some e" "ix_entries (sv_index V) r = None"
  shows "resume_take H ok (Some (he_api_key H)) r V = (Inr e, V)"
  using assms by (simp add: resume_take_def check_api_key_def take_entry_def)

lemma remove_suspended_at: "ix_entries (snd (remove_suspended r I)) r = None"
  by (simp add: remove_suspended_def split: option.split)

text \<open>
  C36. With a database a run can be resumed twice. The row of a suspended run keeps its marker until a later
  snapshot is written, and a resume that finds no entry trusts the row: after one resume has been
  answered and its task started, a second one is answered too and starts another task for the
  same run. Only the second task can be cancelled from then on: an abort of the run does not raise the
  token of the first.
\<close>

theorem double_resume:
  assumes "resume_take H ok (Some (he_api_key H)) r V = (Inr e, V1)" "resumable H e w"
    and "rehydrate_from_store True (sv_pool V) r = Some x" "resumable H x w'"
    and "sv_pending V th = None" "\<forall>n \<ge> sv_next_flag V. n \<notin> sv_cancelled V"
  shows "(case resume_run H th ok (Some (he_api_key H)) r V of (first, V2) \<Rightarrow>
     case resume_run H th True (Some (he_api_key H)) r V2 of (second, V3) \<Rightarrow>
     case abort_run H now (Some (he_api_key H)) r V3 of (stopped, V4) \<Rightarrow>
       first = Inr (su_resume_at e) \<and> second = Inr (su_resume_at x) \<and> stopped = Inr () \<and>
       (\<exists>a b. sv_tasks V4 = sv_tasks V @ [a, b] \<and> sp_run_id a = r \<and> sp_run_id b = r \<and>
          sp_token a \<notin> sv_cancelled V4 \<and> sp_token b \<in> sv_cancelled V4))"
proof -
  let ?k = "Some (he_api_key H)"
  have key: "check_api_key ?k (he_api_key H)" by (simp add: check_api_key_def)
  have same: "sv_pool V1 = sv_pool V" "sv_pending V1 = sv_pending V" "sv_next_flag V1 = sv_next_flag V"
    "sv_cancelled V1 = sv_cancelled V" "sv_tasks V1 = sv_tasks V"
    using assms(1) by (auto simp: resume_take_def split: if_splits prod.splits take_for_resume.splits option.splits)
  obtain a V2 where a: "resume_commit H th r e V1 = (Inr (su_resume_at e), V2)" "resumed_task r e w a"
    "sv_tasks V2 = sv_tasks V @ [a]" "sp_token a = sv_next_flag V" "sv_pending V2 th = None" "sv_next_flag V < sv_next_flag V2"
    "sv_pool V2 = sv_pool V" "ix_entries (sv_index V2) r = None" "sv_cancelled V2 = sv_cancelled V"
    using resume_commit_ok [OF assms(2), of V1 th r] assms(5) by (auto simp: same remove_suspended_at)
  have x: "resume_take H True ?k r V2 = (Inr x, V2)" using rehydrated a(7,8) assms(3) by simp
  from resume_commit_ok [OF assms(4) a(5), of r] obtain b V3 where
    b: "resume_commit H th r x V2 = (Inr (su_resume_at x), V3)" "resumed_task r x w' b" "sv_tasks V3 = sv_tasks V2 @ [b]"
    "sv_runs V3 r = Some (sp_token b)" "sp_token b = sv_next_flag V2" "sv_cancelled V3 = sv_cancelled V2" by auto
  have "resume_run H th ok ?k r V = (Inr (su_resume_at e), V2)" "resume_run H th True ?k r V2 = (Inr (su_resume_at x), V3)"
    using assms(1) a(1) x b(1) by (simp_all add: resume_run_def)
  moreover have "abort_run H now ?k r V3 = (Inr (), V3\<lparr>sv_cancelled := insert (sp_token b) (sv_cancelled V3)\<rparr>)"
    using b(4) by (simp add: abort_run_def key)
  moreover have "sp_token a \<notin> insert (sp_token b) (sv_cancelled V3)"
    using a(4,6,9) b(5,6) assms(6) by auto
  moreover have "sp_run_id a = r" "sp_run_id b = r" using a(2) b(2) by (simp_all add: resumed_task_def)
  ultimately show ?thesis using a(3) b(3) by (simp only: prod.case) auto
qed

theorem double_resume_witness:
  "(case resume_run example_http 0 True (Some ''k'') 7 paused_server of (first, V2) \<Rightarrow>
     case resume_run example_http 0 True (Some ''k'') 7 V2 of (second, V3) \<Rightarrow>
     case abort_run example_http 5 (Some ''k'') 7 V3 of (stopped, V4) \<Rightarrow>
       first = Inr ''b'' \<and> second = Inr ''b'' \<and> stopped = Inr () \<and> drivers V4 = [7, 7])"
proof -
  obtain V1 where t: "resume_take example_http True (Some (he_api_key example_http)) 7 paused_server =
      (Inr (paused_entry\<lparr>su_resuming := True\<rparr>), V1)"
    using paused_take by blast
  have r: "resumable example_http (paused_entry\<lparr>su_resuming := True\<rparr>) chain_workflow"
    using paused_resumable by (simp add: resumable_def)
  show ?thesis
    using double_resume [OF t r paused_rehydrates paused_row_resumable, of 0 5]
    by (simp add: example_key paused_fields) (auto simp: drivers_def split: prod.splits)
qed

text \<open>
  A resume that comes between the moment a run is listed and the moment its old task deregisters it leaves the
  resumed run beyond reach. The old task removes the token and the pause signal of the run by the number of the run,
  and by then they are those of the new task: the run is driven, and both an abort and a pause answer that there is
  no such run.
\<close>

theorem late_exit_silences_resumed_run:
  assumes "index_wf (sv_index V)" "run_outcome (sv_live V) (sp_run_id sp) msg res = (ctx, why)" "ends_suspended ctx"
    and "resumable H (entry_of_run now sp ctx) w" "sv_pending V th = None"
  shows "(case resume_run H th ok (Some (he_api_key H)) (sp_run_id sp) (leave_run H now msg res sp V) of (out, V2) \<Rightarrow>
     let V3 = remove_pause_signal (sp_run_id sp) (deregister_run sp V2) in
       out = Inr (marker_resume_at (metadata ctx)) \<and> sp_run_id sp \<in> set (drivers V3) \<and>
       fst (abort_run H later (Some (he_api_key H)) (sp_run_id sp) V3) = Inl NotFound \<and>
       fst (pause_run H (Some (he_api_key H)) (sp_run_id sp) V3) = Inl NotFound)"
proof -
  let ?r = "sp_run_id sp" and ?V1 = "leave_run H now msg res sp V" and ?key = "Some (he_api_key H)"
  have pend: "sv_pending ?V1 th = None" using assms(5) by (simp add: leave_run_fields)
  from listed_resumes(3) [OF assms(1) leave_suspended(1) [OF assms(2,3)] pend entry_of_run_fields(6) assms(4) refl]
  obtain t V2 where c: "resume_run H th ok ?key ?r ?V1 = (Inr (marker_resume_at (metadata ctx)), V2)"
    "resumed_task ?r (entry_of_run now sp ctx) w t" "sv_tasks V2 = sv_tasks ?V1 @ [t]" "ix_entries (sv_index V2) ?r = None"
    unfolding entry_of_run_fields by blast
  let ?V3 = "remove_pause_signal ?r (deregister_run sp V2)"
  have V3: "sv_tasks ?V3 = sv_tasks V2" "sv_runs ?V3 ?r = None" "sv_pauses ?V3 ?r = None" "sv_index ?V3 = sv_index V2"
    by (simp_all add: remove_pause_signal_def deregister_run_def)
  have key: "check_api_key ?key (he_api_key H)" by (simp add: check_api_key_def)
  have "fst (abort_run H later ?key ?r ?V3) = Inl NotFound"
    using c(4) V3 by (simp add: abort_run_def key remove_suspended_def)
  moreover have "\<not> list_ex (\<lambda>(j, _). j = ?r) (list_suspended (sv_index V2))"
    using c(4) by (auto simp: list_ex_iff dest!: list_suspended_entries)
  then have "fst (pause_run H ?key ?r ?V3) = Inl NotFound"
    using V3 by (simp add: pause_run_def key)
  moreover have "?r \<in> set (drivers ?V3)" using c(2,3) V3(1) by (simp add: drivers_def resumed_task_def)
  ultimately show ?thesis using c(1) by (simp add: Let_def)
qed

theorem late_exit_silences_resumed_run_witness:
  "\<exists>G sp. serves example_http (serving_new None) G \<and> sv_tasks (sg_server G) = [sp] \<and> sp_run_id sp = 7 \<and>
     (case resume_run example_http 0 True (Some ''k'') 7
        (leave_run example_http 5 [] (DriveOk paused_context) sp (sg_server G)) of (out, V2) \<Rightarrow>
      let V3 = remove_pause_signal 7 (deregister_run sp V2) in
        out = Inr ''b'' \<and> 7 \<in> set (drivers V3) \<and> fst (abort_run example_http 9 (Some ''k'') 7 V3) = Inl NotFound)"
proof -
  obtain G sp where G: "serves example_http (serving_new None) G" "sv_tasks (sg_server G) = [sp]" "sp_run_id sp = 7"
    "sp_workflow_type sp = chain_type" "sg_server G = snd (post_events example_http 0 1 7 (Some ''k'') chain_type JNull (server_new None))"
    "sp_data sp = JNull"
    using example_served by blast
  have wf: "index_wf (sv_index (sg_server G))"
    using bounded_reached [OF G(1)] by (simp add: bounded_ok_def)
  have res: "resumable example_http (entry_of_run 5 sp paused_context) chain_workflow"
    using paused_resumable G(4,6) by (simp add: resumable_def entry_of_run_fields paused_entry_def paused_resume_at)
  show ?thesis
    using late_exit_silences_resumed_run [OF wf example_outcome paused_suspends res example_pending [OF G(5)], of 9 True]
    unfolding G(3) example_key paused_resume_at
    by (intro exI [of _ G] exI [of _ sp] conjI G(1-3)) (auto simp: Let_def split: prod.splits)
qed

text \<open>
  The abort of a suspended run does not last. It is acknowledged, and the run is recorded as cancelled and
  leaves the index, but nothing is queued for the database: the row still carries the marker,
  and a resume that comes later is answered and drives the cancelled run on.
\<close>

theorem aborted_run_resumes:
  assumes "ix_entries (sv_index V) r = Some e" "sv_runs V r = None" "sv_pending V th = None"
    and "rehydrate_from_store True (sv_pool V) r = Some x" "resumable H x w"
    and "sv_next_flag V \<notin> sv_cancelled V" "ring_inv (completed (sv_live V))"
  shows "(case abort_run H now (Some (he_api_key H)) r V of (stopped, V1) \<Rightarrow>
     case resume_run H th True (Some (he_api_key H)) r V1 of (resumed, V2) \<Rightarrow>
       stopped = Inr () \<and> resumed = Inr (su_resume_at x) \<and> sv_channel V1 = sv_channel V \<and>
       map_option (metadata \<circ> rr_snapshot) (get_record (sv_live V1) r) = Some (stamp_cancelled (he_formats H) now (metadata (su_snapshot e))) \<and>
       (\<exists>t. sv_tasks V2 = sv_tasks V @ [t] \<and> sp_run_id t = r \<and> sp_token t \<notin> sv_cancelled V2))"
proof -
  let ?k = "Some (he_api_key H)"
  have key: "check_api_key ?k (he_api_key H)" by (simp add: check_api_key_def)
  obtain V1 where V1: "abort_run H now ?k r V = (Inr (), V1)" "sv_index V1 = snd (remove_suspended r (sv_index V))"
    "sv_channel V1 = sv_channel V" "sv_pool V1 = sv_pool V" "sv_pending V1 = sv_pending V" "sv_tasks V1 = sv_tasks V"
    "sv_next_flag V1 = sv_next_flag V" "sv_cancelled V1 = sv_cancelled V"
    "sv_live V1 = mark_terminal (he_serve H) now r ((su_snapshot e)\<lparr>metadata := stamp_cancelled (he_formats H) now (metadata (su_snapshot e))\<rparr>)
       (su_workflow_type e) (su_created_at e) now (sv_live V)"
    using assms(1,2) by (simp add: abort_run_def key remove_suspended_def Let_def)
  have rec: "map_option (metadata \<circ> rr_snapshot) (get_record (sv_live V1) r) =
      Some (stamp_cancelled (he_formats H) now (metadata (su_snapshot e)))"
    using assms(7) by (simp add: V1(9) get_record_def mark_terminal_fields ring_insert_found terminal_record_def)
  have gone: "ix_entries (sv_index V1) r = None" by (simp add: V1(2) remove_suspended_at)
  have x: "resume_take H True ?k r V1 = (Inr x, V1)" using rehydrated assms(4) V1(4) gone by simp
  from resume_commit_ok [OF assms(5), of V1 th r] obtain t V2 where
    t: "resume_commit H th r x V1 = (Inr (su_resume_at x), V2)" "resumed_task r x w t" "sv_tasks V2 = sv_tasks V1 @ [t]"
    "sp_token t = sv_next_flag V1" "sv_cancelled V2 = sv_cancelled V1" using assms(3) by (auto simp: V1(5))
  have "resume_run H th True ?k r V1 = (Inr (su_resume_at x), V2)" using x t(1) by (simp add: resume_run_def)
  with V1 rec t assms(6) show ?thesis by (simp only: prod.case) (auto simp: resumed_task_def)
qed

theorem aborted_run_resumes_witness:
  "(case abort_run example_http 5 (Some ''k'') 7 paused_server of (stopped, V1) \<Rightarrow>
     case resume_run example_http 0 True (Some ''k'') 7 V1 of (resumed, V2) \<Rightarrow>
       stopped = Inr () \<and> resumed = Inr ''b'' \<and> sv_channel V1 = [] \<and> drivers V2 = [7])"
  using aborted_run_resumes [OF _ _ _ paused_rehydrates paused_row_resumable, of paused_entry 0 5]
  by (simp add: example_key paused_fields) (auto simp: drivers_def split: prod.splits)

text \<open>
  An abort that comes between the two halves of a resume is lost. It finds no token and removes the entry,
  records the run as cancelled and acknowledges; the resume commits all the same, and the task
  it starts reads a token nobody raised, while a read of the run answers with the cancelled record.
\<close>

theorem abort_lost_in_resume:
  assumes "resume_take H ok (Some (he_api_key H)) r V = (Inr e, V1)" "resumable H e w"
    and "ix_entries (sv_index V) r \<noteq> None" "sv_runs V r = None" "sv_pending V th = None"
    and "sv_next_flag V \<notin> sv_cancelled V" "ring_inv (completed (sv_live V))"
    and "uuid_parse (he_formats H) raw = Some r"
  shows "(case abort_run H now (Some (he_api_key H)) r V1 of (stopped, V2) \<Rightarrow>
     case resume_commit H th r e V2 of (resumed, V3) \<Rightarrow>
       stopped = Inr () \<and> resumed = Inr (su_resume_at e) \<and>
       (\<exists>t. sv_tasks V3 = sv_tasks V @ [t] \<and> sp_run_id t = r \<and> sp_token t \<notin> sv_cancelled V3) \<and>
       (case get_event H later (Some (he_api_key H)) raw V3 of
          Inl _ \<Rightarrow> False
        | Inr rb \<Rightarrow> metadata (rb_context rb) = stamp_cancelled (he_formats H) now (metadata (su_snapshot e))))"
proof -
  let ?k = "Some (he_api_key H)"
  have key: "check_api_key ?k (he_api_key H)" by (simp add: check_api_key_def)
  obtain e0 where e0: "ix_entries (sv_index V) r = Some e0" "\<not> su_resuming e0" "e = e0\<lparr>su_resuming := True\<rparr>"
    "V1 = V\<lparr>sv_index := (sv_index V)\<lparr>ix_entries := (ix_entries (sv_index V))(r \<mapsto> e)\<rparr>\<rparr>"
    using assms(1,3) by (auto simp: resume_take_def key take_entry_def Let_def split: if_splits)
  obtain V2 where V2: "abort_run H now ?k r V1 = (Inr (), V2)" "sv_pending V2 = sv_pending V" "sv_tasks V2 = sv_tasks V"
    "sv_next_flag V2 = sv_next_flag V" "sv_cancelled V2 = sv_cancelled V"
    "sv_live V2 = mark_terminal (he_serve H) now r ((su_snapshot e)\<lparr>metadata := stamp_cancelled (he_formats H) now (metadata (su_snapshot e))\<rparr>)
       (su_workflow_type e) (su_created_at e) now (sv_live V)"
    using assms(4) by (simp add: abort_run_def key remove_suspended_def Let_def e0(4))
  from resume_commit_ok [OF assms(2), of V2 th r] assms(5) V2(2) obtain t V3 where
    t: "resume_commit H th r e V2 = (Inr (su_resume_at e), V3)" "resumed_task r e w t" "sv_tasks V3 = sv_tasks V @ [t]"
    "sp_token t = sv_next_flag V" "sv_cancelled V3 = sv_cancelled V" "sv_live V3 = sv_live V2" by (auto simp: V2(3-5))
  have "case get_event H later ?k raw V3 of Inl _ \<Rightarrow> False
      | Inr rb \<Rightarrow> metadata (rb_context rb) = stamp_cancelled (he_formats H) now (metadata (su_snapshot e))"
    using assms(7) by (simp add: get_event_def key assms(8) t(6) V2(6) get_record_def mark_terminal_fields
        ring_insert_found terminal_record_def)
  with V2(1) t assms(6) show ?thesis by (simp only: prod.case) (auto simp: resumed_task_def)
qed

theorem abort_lost_in_resume_witness:
  "(case resume_take example_http True (Some ''k'') 7 paused_server of
      (Inl _, _) \<Rightarrow> False
    | (Inr e, V1) \<Rightarrow>
        (case abort_run example_http 5 (Some ''k'') 7 V1 of (stopped, V2) \<Rightarrow>
         case resume_commit example_http 0 7 e V2 of (resumed, V3) \<Rightarrow>
           stopped = Inr () \<and> resumed = Inr ''b'' \<and> drivers V3 = [7]))"
proof -
  obtain V1 where t: "resume_take example_http True (Some (he_api_key example_http)) 7 paused_server =
      (Inr (paused_entry\<lparr>su_resuming := True\<rparr>), V1)"
    using paused_take by blast
  have r: "resumable example_http (paused_entry\<lparr>su_resuming := True\<rparr>) chain_workflow"
    using paused_resumable by (simp add: resumable_def)
  have raw: "uuid_parse (he_formats example_http) ''7'' = Some 7" by code_simp
  show ?thesis
    using abort_lost_in_resume [OF t r _ _ _ _ _ raw, of 0 5 0] unfolding example_key t [unfolded example_key]
    by (simp add: paused_fields) (auto simp: drivers_def split: prod.splits)
qed

end
