(* ===== verification/HeavyLaws.thy ===== *)
theory HeavyLaws
  imports HeavyWork LiveState
begin

text \<open>
  Laws of the heavy-work queue: what one admission attempt does, that it is the sequence of its reads and writes, the
  bound on running jobs when processes take turns after every read and write, a run that breaks it, the verdict a
  parked walk reads back, and two ways in which a waiter waits for ever.
\<close>

subsection \<open>One scan of the directory\<close>

definition dir_ok :: "job_dir \<Rightarrow> bool" where
  "dir_ok D \<longleftrightarrow> distinct (map fst D) \<and> (\<forall>j job. map_of D j = Some (Some job) \<longrightarrow> hj_id job = j)"

definition lapsed :: "(u32 \<Rightarrow> bool) \<Rightarrow> u64 \<Rightarrow> timestamp \<Rightarrow> heavy_job \<Rightarrow> bool" where
  "lapsed alive stale now job = is_reclaimable alive (hj_holder_pid job) (hj_heartbeat_at job) stale now"

definition in_state :: "string \<Rightarrow> job_state \<Rightarrow> job_dir \<Rightarrow> uuid \<Rightarrow> bool" where
  "in_state c st D j = (case map_of D j of Some (Some job) \<Rightarrow> hj_class job = c \<and> hj_state job = st | _ \<Rightarrow> False)"

definition swept_job :: "(u32 \<Rightarrow> bool) \<Rightarrow> u64 \<Rightarrow> timestamp \<Rightarrow> string \<Rightarrow> heavy_job \<Rightarrow> heavy_job" where
  "swept_job alive stale now c job =
     (if hj_class job = c \<and> hj_state job = JobRunning \<and> lapsed alive stale now job
      then job\<lparr>hj_state := Abandoned, hj_finished_at := Some now\<rparr> else job)"

definition queued_among :: "string \<Rightarrow> job_dir \<Rightarrow> uuid list \<Rightarrow> heavy_job list" where
  "queued_among c D js = List.map_filter (\<lambda>j. if in_state c Queued D j then the (map_of D j) else None) js"

definition live_among :: "(u32 \<Rightarrow> bool) \<Rightarrow> u64 \<Rightarrow> timestamp \<Rightarrow> string \<Rightarrow> job_dir \<Rightarrow> uuid list \<Rightarrow> uuid list" where
  "live_among alive stale now c D js =
     filter (\<lambda>j. in_state c JobRunning D j \<and> \<not> lapsed alive stale now (the (the (map_of D j)))) js"

lemma among_cong:
  assumes "\<forall>j \<in> set js. map_of D j = map_of D' j"
  shows "queued_among c D js = queued_among c D' js" "live_among alive stale now c D js = live_among alive stale now c D' js"
proof -
  have st: "in_state c s D j = in_state c s D' j" if "j \<in> set js" for s j using assms that by (simp add: in_state_def)
  show "live_among alive stale now c D js = live_among alive stale now c D' js"
    unfolding live_among_def using assms st by (intro filter_cong) simp_all
  have "List.map_filter f js = List.map_filter g js" if "\<forall>j \<in> set js. f j = g j" for f g :: "uuid \<Rightarrow> heavy_job option"
    using that by (induction js) (simp_all split: option.split)
  then show "queued_among c D js = queued_among c D' js"
    unfolding queued_among_def using assms st by simp
qed

lemma dir_ok_update:
  assumes "dir_ok D" "hj_id job = j"
  shows "dir_ok (AList.update j (Some job) D)"
  using assms by (auto simp: dir_ok_def keys_update split: if_splits)

lemma read_job_Inr: "read_job D j = Inr job \<longleftrightarrow> map_of D j = Some (Some job)"
  by (auto simp: read_job_def split: option.splits)

lemma write_job_eq: "write_job ok job D = (res, D') \<longleftrightarrow>
    (if ok (hj_id job) then res = Inr () \<and> D' = AList.update (hj_id job) (Some job) D else res = Inl StoreIo \<and> D' = D)"
  by (auto simp: write_job_def)

lemma scan_spec:
  assumes "scan_jobs ok alive stale now c js q n D = (res, D')" "distinct js" "dir_ok D"
  shows "dir_ok D' \<and> map fst D' = map fst D \<and>
    (\<forall>j. map_of D' j = map_of D j \<or> map_of D' j = map_option (map_option (swept_job alive stale now c)) (map_of D j)) \<and>
    (\<forall>j. j \<notin> set js \<longrightarrow> map_of D' j = map_of D j) \<and>
    (\<forall>q' n'. res = Inr (q', n') \<longrightarrow> q' = q @ queued_among c D js \<and> n' = n + length (live_among alive stale now c D js) \<and>
      (\<forall>j \<in> set js. map_of D' j = map_option (map_option (swept_job alive stale now c)) (map_of D j)))"
  using assms
proof (induction js arbitrary: q n D)
  case Nil
  then show ?case by (auto simp: queued_among_def live_among_def List.map_filter_simps)
next
  case (Cons j js)
  let ?sw = "\<lambda>f. map_option (map_option (swept_job alive stale now c)) f"
  have js: "j \<notin> set js" "distinct js" using Cons.prems(2) by simp_all
  have skip: ?case if scan: "scan_jobs ok alive stale now c js (q @ qs) (n + m) D = (res, D')"
    and qs: "queued_among c D (j # js) = qs @ queued_among c D js"
    and m: "length (live_among alive stale now c D (j # js)) = m + length (live_among alive stale now c D js)"
    and same: "?sw (map_of D j) = map_of D j" for qs m
    using Cons.IH [OF scan js(2) Cons.prems(3)] qs m same js(1) by auto
  show ?case
  proof (cases "read_job D j")
    case (Inl e)
    then have "\<not> in_state c st D j" "?sw (map_of D j) = map_of D j" for st
      by (auto simp: read_job_def in_state_def split: option.splits)
    then show ?thesis
      using skip [of "[]" 0] Cons.prems(1) Inl by (simp add: queued_among_def live_among_def List.map_filter_simps)
  next
    case (Inr job)
    then have D: "map_of D j = Some (Some job)" by (simp add: read_job_Inr)
    have st: "in_state c s D j \<longleftrightarrow> hj_class job = c \<and> hj_state job = s" for s by (simp add: in_state_def D)
    show ?thesis
    proof (cases "hj_class job = c \<and> hj_state job = JobRunning \<and> lapsed alive stale now job")
      case False
      have same: "?sw (map_of D j) = map_of D j" using False by (auto simp: D swept_job_def)
      consider "hj_class job = c" "hj_state job = Queued" | "hj_class job = c" "hj_state job = JobRunning" "\<not> lapsed alive stale now job"
        | "hj_class job \<noteq> c \<or> hj_state job \<notin> {Queued, JobRunning}"
        using False by blast
      then show ?thesis
      proof cases
        case 1
        show ?thesis
          by (rule skip [of "[job]" 0]) (use Cons.prems(1) Inr D 1 same st in
            \<open>simp_all add: queued_among_def live_among_def List.map_filter_simps note_job_def\<close>)
      next
        case 2
        show ?thesis
          by (rule skip [of "[]" 1]) (use Cons.prems(1) Inr D 2 same st in
            \<open>simp_all add: queued_among_def live_among_def List.map_filter_simps lapsed_def note_job_def\<close>)
      next
        case 3
        then have "\<not> in_state c Queued D j" "\<not> in_state c JobRunning D j" using st by auto
        moreover have "note_job alive stale now c job = NotePassed"
          using 3 by (cases "hj_state job") (auto simp: note_job_def)
        then have "scan_jobs ok alive stale now c (j # js) q n D = scan_jobs ok alive stale now c js q n D"
          using Inr by simp
        ultimately show ?thesis
          using skip [of "[]" 0] same Cons.prems(1) by (simp add: queued_among_def live_among_def)
      qed
    next
      case True
      let ?job = "job\<lparr>hj_state := Abandoned, hj_finished_at := Some now\<rparr>"
      have id: "hj_id job = j" using Cons.prems(3) D by (simp add: dir_ok_def)
      have sw: "?sw (map_of D j) = Some (Some ?job)" using True by (simp add: D swept_job_def)
      have none: "queued_among c D (j # js) = queued_among c D js"
        "live_among alive stale now c D (j # js) = live_among alive stale now c D js"
        using True st D by (simp_all add: queued_among_def live_among_def List.map_filter_simps)
      show ?thesis
      proof (cases "ok j")
        case False
        then have "res = Inl StoreIo" "D' = D"
          using Cons.prems(1) Inr True id by (simp_all add: write_job_def lapsed_def note_job_def abandoned_job_def)
        then show ?thesis using Cons.prems(3) by simp
      next
        case okj: True
        let ?D = "AList.update j (Some ?job) D"
        have scan: "scan_jobs ok alive stale now c js q n ?D = (res, D')"
          using Cons.prems(1) Inr True id okj by (simp add: write_job_def lapsed_def note_job_def abandoned_job_def)
        have D1: "dir_ok ?D" using dir_ok_update [OF Cons.prems(3), of ?job j] id by simp
        have keys: "map fst ?D = map fst D" using D by (auto simp: keys_update dest: map_of_SomeD intro: rev_image_eqI)
        have cong: "queued_among c ?D js = queued_among c D js" "live_among alive stale now c ?D js = live_among alive stale now c D js"
          using js(1) by (auto intro!: among_cong)
        note IH = Cons.IH [OF scan js(2) D1, unfolded cong keys]
        have atj: "map_of D' j = ?sw (map_of D j)" unfolding sw using IH js(1) by simp
        have other: "map_of ?D k = map_of D k" if "k \<noteq> j" for k using that by simp
        have "map_of D' k = map_of D k \<or> map_of D' k = ?sw (map_of D k)" for k
          using IH atj other [of k] by (cases "k = j") (blast, metis)
        moreover have "map_of D' k = map_of D k" if "k \<notin> set (j # js)" for k
          using IH other [of k] that by simp
        moreover have "map_of D' k = ?sw (map_of D k)" if "res = Inr (q', n')" "k \<in> set (j # js)" for k q' n'
          using IH atj other [of k] that by (cases "k = j") (blast, metis set_ConsD)
        ultimately show ?thesis using IH none by (simp only:) blast
      qed
    qed
  qed
qed

lemma scan_ok: "\<exists>q' n' D'. scan_jobs (\<lambda>_. True) alive stale now c js q n D = (Inr (q', n'), D')"
  by (induction js arbitrary: q n D) (auto simp: write_job_def split: sum.split scan_note.split)

lemma head_iff:
  "(case sort_key fifo_key q of job # _ \<Rightarrow> hj_id job = j | [] \<Rightarrow> False) \<longleftrightarrow>
     (\<exists>job \<in> set q. hj_id job = j \<and> (\<forall>other \<in> set q. fifo_key job \<le> fifo_key other))"
proof (cases "sort_key fifo_key q")
  case Nil
  then have "set q = {}" by (metis set_empty set_sort)
  with Nil show ?thesis by simp
next
  case (Cons x xs)
  have mem: "set q = insert x (set xs)" using Cons by (metis list.simps(15) set_sort)
  have "sorted (map fifo_key (x # xs))" using sorted_sort_key [of fifo_key q] Cons by simp
  then have min: "\<forall>y \<in> set q. fifo_key x \<le> fifo_key y" using mem by auto
  have "hj_id job = hj_id x" if "job \<in> set q" "\<forall>y \<in> set q. fifo_key job \<le> fifo_key y" for job
  proof -
    have "x \<in> set q" using mem by simp
    then have "fifo_key job = fifo_key x" using that min by (intro antisym) blast+
    then show ?thesis by (simp add: fifo_key_def)
  qed
  moreover have "x \<in> set q" using mem by simp
  ultimately show ?thesis unfolding Cons list.case using min by metis
qed

lemma set_queued_among:
  "dir_ok D \<Longrightarrow> set (queued_among c D (map fst D)) =
     {job. map_of D (hj_id job) = Some (Some job) \<and> hj_class job = c \<and> hj_state job = Queued}"
proof -
  assume ok: "dir_ok D"
  have "job \<in> set (queued_among c D js) \<longleftrightarrow> (\<exists>j \<in> set js. map_of D j = Some (Some job) \<and> hj_class job = c \<and> hj_state job = Queued)" for job js
    by (induction js) (auto simp: queued_among_def in_state_def split: option.splits if_splits)
  moreover have "map_of D j = Some f \<Longrightarrow> j \<in> set (map fst D)" for j f by (force dest: map_of_SomeD)
  ultimately show ?thesis using ok unfolding dir_ok_def by blast
qed

lemma set_live_among:
  "set (live_among alive stale now c D (map fst D)) =
     {k. in_state c JobRunning D k \<and> \<not> lapsed alive stale now (the (the (map_of D k)))}"
proof -
  have "in_state c JobRunning D k \<Longrightarrow> k \<in> set (map fst D)" for k
    by (force simp: in_state_def split: option.splits dest: map_of_SomeD)
  then show ?thesis by (auto simp: live_among_def)
qed

text \<open>
  C33. One admission attempt, when the store can be written. The job is admitted exactly if it is queued, no
  queued job of its class was enqueued earlier (ties by identifier), fewer jobs of its class than
  the limit are running and alive, and the free memory reaches the floor. Every running job of the class
  whose holder is gone or whose heartbeat is too old is abandoned by the way, admitted or not, and no other
  record changes.
\<close>

theorem admission_exact:
  assumes "dir_ok D" "try_admit (\<lambda>_. True) alive pid free stale now c l j D = (res, D')"
  shows "(let queued = {job. map_of D (hj_id job) = Some (Some job) \<and> hj_class job = c \<and> hj_state job = Queued};
      live = {k. in_state c JobRunning D k \<and> \<not> lapsed alive stale now (the (the (map_of D k)))};
      admitted = ((\<exists>job \<in> queued. hj_id job = j \<and> (\<forall>other \<in> queued. fifo_key job \<le> fifo_key other)) \<and>
        card live < cl_limit l \<and> cl_min_free_mb l \<le> free)
    in res = Inr (if admitted then Some now else None) \<and>
       (\<forall>k. map_of D' k = map_option (map_option (\<lambda>job. if admitted \<and> k = j
          then job\<lparr>hj_state := JobRunning, hj_admitted_at := Some now, hj_heartbeat_at := Some now, hj_holder_pid := Some pid\<rparr>
          else swept_job alive stale now c job)) (map_of D k)))"
proof -
  obtain q n D1 where scan: "scan_jobs (\<lambda>_. True) alive stale now c (map fst D) [] 0 D = (Inr (q, n), D1)"
    using scan_ok by blast
  have dist: "distinct (map fst D)" using assms(1) by (simp add: dir_ok_def)
  note spec = scan_spec [OF scan dist assms(1)]
  let ?queued = "{job. map_of D (hj_id job) = Some (Some job) \<and> hj_class job = c \<and> hj_state job = Queued}"
  let ?live = "{k. in_state c JobRunning D k \<and> \<not> lapsed alive stale now (the (the (map_of D k)))}"
  define admitted where "admitted \<longleftrightarrow> (\<exists>job \<in> ?queued. hj_id job = j \<and> (\<forall>other \<in> ?queued. fifo_key job \<le> fifo_key other)) \<and>
      card ?live < cl_limit l \<and> cl_min_free_mb l \<le> free"
  have q: "set q = ?queued" using spec set_queued_among [OF assms(1)] by simp
  have n: "n = card ?live"
    using spec distinct_card [of "live_among alive stale now c D (map fst D)"] dist set_live_among
    by (simp add: live_among_def)
  have all: "map_of D1 k = map_option (map_option (swept_job alive stale now c)) (map_of D k)" for k
  proof (cases "k \<in> set (map fst D)")
    case False
    then have "map_of D k = None" by (simp add: map_of_eq_None_iff)
    with spec False show ?thesis by simp
  qed (use spec in blast)
  have gate: "admits l free j q n \<longleftrightarrow> admitted"
    unfolding admits_def Let_def head_iff q n admitted_def by auto
  show ?thesis
  proof (cases admitted)
    case False
    then have "res = Inr None" "D' = D1" using assms(2) gate by (simp_all add: try_admit_def scan)
    with False all show ?thesis unfolding Let_def admitted_def [symmetric] by simp
  next
    case True
    then obtain job where job: "map_of D j = Some (Some job)" "hj_class job = c" "hj_state job = Queued" "hj_id job = j"
      unfolding admitted_def by blast
    then have "map_of D1 j = Some (Some job)" using all [of j] by (simp add: swept_job_def)
    then have "res = Inr (Some now)" "D' = AList.update j (Some (job\<lparr>hj_state := JobRunning, hj_admitted_at := Some now,
        hj_heartbeat_at := Some now, hj_holder_pid := Some pid\<rparr>)) D1"
      using assms(2) gate True job(4) by (simp_all add: try_admit_def scan read_job_def write_job_def admitted_job_def)
    with True all job show ?thesis unfolding Let_def admitted_def [symmetric] by simp
  qed
qed

lemma try_admit_frame:
  assumes "try_admit ok alive pid free stale now c l j D = (res, D')" "dir_ok D"
  shows "dir_ok D' \<and>
    (if res = Inr (Some now) then
       (\<exists>job. map_of D j = Some (Some job) \<and> hj_class job = c \<and> hj_state job = Queued \<and>
          (\<forall>k other. map_of D k = Some (Some other) \<and> hj_class other = c \<and> hj_state other = Queued \<longrightarrow> fifo_key job \<le> fifo_key other) \<and>
          map_of D' j = Some (Some (job\<lparr>hj_state := JobRunning, hj_admitted_at := Some now,
            hj_heartbeat_at := Some now, hj_holder_pid := Some pid\<rparr>)) \<and>
          (\<forall>k. k \<noteq> j \<longrightarrow> map_of D' k = map_option (map_option (swept_job alive stale now c)) (map_of D k)) \<and>
          card {k. in_state c JobRunning D k \<and> \<not> lapsed alive stale now (the (the (map_of D k)))} < cl_limit l)
     else \<forall>k. map_of D' k = map_of D k \<or> map_of D' k = map_option (map_option (swept_job alive stale now c)) (map_of D k))"
proof -
  have dist: "distinct (map fst D)" using assms(2) by (simp add: dir_ok_def)
  obtain sres D1 where scan: "scan_jobs ok alive stale now c (map fst D) [] 0 D = (sres, D1)" by fastforce
  note spec = scan_spec [OF scan dist assms(2)]
  have kept: "dir_ok D1" "map_of D1 k = map_of D k \<or> map_of D1 k = map_option (map_option (swept_job alive stale now c)) (map_of D k)" for k
    using spec by blast+
  show ?thesis
  proof (cases "res = Inr (Some now)")
    case False
    have "D' = D1"
      using assms(1) False by (auto simp: try_admit_def scan Let_def write_job_def split: sum.splits prod.splits if_splits)
    with kept False show ?thesis by simp
  next
    case True
    then obtain q n where q: "sres = Inr (q, n)"
      and admit: "admits l free j q n"
      using assms(1) by (auto simp: try_admit_def scan split: sum.splits prod.splits if_splits)
    then have head: "case sort_key fifo_key q of job # _ \<Rightarrow> hj_id job = j | [] \<Rightarrow> False" and n: "n < cl_limit l"
      by (simp_all add: admits_def Let_def)
    have all: "map_of D1 k = map_option (map_option (swept_job alive stale now c)) (map_of D k)" for k
    proof (cases "k \<in> set (map fst D)")
      case False
      then have "map_of D k = None" by (simp add: map_of_eq_None_iff)
      with spec False show ?thesis by simp
    qed (use spec q in blast)
    have setq: "set q = {job. map_of D (hj_id job) = Some (Some job) \<and> hj_class job = c \<and> hj_state job = Queued}"
      using spec q set_queued_among [OF assms(2)] by simp
    obtain job where job: "map_of D j = Some (Some job)" "hj_class job = c" "hj_state job = Queued" "hj_id job = j"
      "\<forall>other \<in> set q. fifo_key job \<le> fifo_key other"
      using head unfolding head_iff setq by blast
    have least: "fifo_key job \<le> fifo_key other"
      if "map_of D k = Some (Some other)" "hj_class other = c" "hj_state other = Queued" for k other
    proof -
      have "hj_id other = k" using assms(2) that(1) by (simp add: dir_ok_def)
      then show ?thesis using job(5) that setq by simp
    qed
    have D1j: "map_of D1 j = Some (Some job)" using all [of j] job by (simp add: swept_job_def)
    let ?run = "job\<lparr>hj_state := JobRunning, hj_admitted_at := Some now, hj_heartbeat_at := Some now, hj_holder_pid := Some pid\<rparr>"
    have D': "D' = AList.update j (Some ?run) D1"
      using assms(1) True job(4) D1j admit
      by (auto simp: try_admit_def scan q write_job_def read_job_def admitted_job_def split: if_splits)
    have "n = card {k. in_state c JobRunning D k \<and> \<not> lapsed alive stale now (the (the (map_of D k)))}"
      using spec q distinct_card [of "live_among alive stale now c D (map fst D)"] dist set_live_among [of alive stale now c D]
      by (simp add: live_among_def)
    moreover have "dir_ok D'" unfolding D' using kept(1) job(4) by (intro dir_ok_update) simp_all
    moreover have "map_of D' k = map_option (map_option (swept_job alive stale now c)) (map_of D k)" if "k \<noteq> j" for k
      using all that by (simp add: D')
    moreover have "map_of D' j = Some (Some ?run)" by (simp add: D')
    ultimately show ?thesis using True job(1-3) least n by (intro conjI) (assumption, simp, blast)
  qed
qed

subsection \<open>An attempt is its reads and writes\<close>

text \<open>The steps of one attempt with nothing in between, as far as the fuel goes.\<close>

fun attempt_alone ::
  "(uuid \<Rightarrow> bool) \<Rightarrow> (u32 \<Rightarrow> bool) \<Rightarrow> u32 \<Rightarrow> u64 \<Rightarrow> u64 \<Rightarrow> nat \<Rightarrow> attempt \<Rightarrow> job_dir \<Rightarrow> (bool \<times> job_dir) option" where
  "attempt_alone ok alive pid free stale 0 a D = None"
| "attempt_alone ok alive pid free stale (Suc n) a D =
     (case attempt_step ok alive pid free stale a D of
        (_, D', Some a', _) \<Rightarrow> attempt_alone ok alive pid free stale n a' D'
      | (_, D', None, admitted) \<Rightarrow> Some (admitted, D'))"

lemma attempt_alone_scans:
  assumes "2 * length js + 3 \<le> n"
  shows "attempt_alone ok alive pid free stale n
      \<lparr>at_job = j, at_class = c, at_limit = l, at_now = now, at_phase = Scanning js q m\<rparr> D =
    Some (case scan_jobs ok alive stale now c js q m D of
      (Inl e, D1) \<Rightarrow> (False, D1)
    | (Inr (queued, lives), D1) \<Rightarrow>
        if \<not> admits l free j queued lives then (False, D1)
        else (case read_job D1 j of
           Inl e \<Rightarrow> (False, D1)
         | Inr job \<Rightarrow> (case write_job ok (admitted_job now pid job) D1 of
             (Inl e, D2) \<Rightarrow> (False, D2) | (Inr _, D2) \<Rightarrow> (True, D2))))"
  using assms
proof (induction js arbitrary: q m D n)
  case Nil
  then obtain k where "n = Suc (Suc (Suc k))" by (auto dest!: le_Suc_ex simp: numeral_3_eq_3)
  then show ?case by (simp add: attempt_step_def split: sum.split prod.split)
next
  case (Cons k ks)
  obtain i where n: "n = Suc (Suc i)" "2 * length ks + 3 \<le> i" using Cons.prems by (cases n rule: nat.exhaust; cases "n - 1") auto
  show ?case
  proof (cases "read_job D k")
    case (Inl e)
    then show ?thesis using Cons.IH [of "Suc i"] n by (simp add: attempt_step_def noted_def)
  next
    case (Inr job)
    then show ?thesis
      using Cons.IH [of "Suc i"] Cons.IH [of i] n
      by (cases "note_job alive stale now c job") (simp_all add: attempt_step_def noted_def split: sum.split prod.split)
  qed
qed

theorem attempt_is_try_admit:
  assumes "try_admit ok alive pid free stale now c l j D = (res, D')" and "2 * length D + 3 \<le> n"
  shows "attempt_alone ok alive pid free stale n
      \<lparr>at_job = j, at_class = c, at_limit = l, at_now = now, at_phase = Scanning (map fst D) [] 0\<rparr> D =
    Some (res = Inr (Some now), D')"
  using assms attempt_alone_scans [of "map fst D" n]
  by (auto simp: try_admit_def split: sum.splits prod.splits if_splits)

theorem attempt_is_try_admit_witness:
  "attempt_alone (\<lambda>_. True) (\<lambda>_. True) 7 0 300 3
     \<lparr>at_job = 1, at_class = ''test'', at_limit = \<lparr>cl_limit = 1, cl_min_free_mb = 0\<rparr>, at_now = 30, at_phase = Scanning [] [] 0\<rparr> [] =
   Some (False, [])"
  using attempt_is_try_admit [of "\<lambda>_. True" "\<lambda>_. True" 7 0 300 30 "''test''" "\<lparr>cl_limit = 1, cl_min_free_mb = 0\<rparr>" 1 "[]" "Inr None" "[]" 3]
  by (simp add: try_admit_def admits_def Let_def)

subsection \<open>The bound on running jobs\<close>

definition running :: "string \<Rightarrow> job_dir \<Rightarrow> uuid set" where
  "running c D = {k. in_state c JobRunning D k}"

lemma finite_running: "finite (running c D)"
proof -
  have "running c D \<subseteq> set (map fst D)"
    by (force simp: running_def in_state_def split: option.splits dest: map_of_SomeD)
  then show ?thesis by (rule finite_subset) simp
qed

definition classed :: "job_dir \<Rightarrow> uuid \<Rightarrow> string \<Rightarrow> bool" where
  "classed D j c \<longleftrightarrow> (\<exists>job. map_of D j = Some (Some job) \<and> hj_class job = c)"

text \<open>
  What an attempt knows of the running jobs of its class: each is still to be looked at or was counted, and once it
  has decided there is room for one more.
\<close>

definition covered :: "string \<Rightarrow> job_dir \<Rightarrow> uuid set \<Rightarrow> nat \<Rightarrow> bool" where
  "covered c D rest n \<longleftrightarrow> (\<exists>S. finite S \<and> card S \<le> n \<and> running c D \<subseteq> rest \<union> S)"

fun phase_ok :: "string \<Rightarrow> class_limit \<Rightarrow> uuid \<Rightarrow> job_dir \<Rightarrow> attempt_phase \<Rightarrow> bool" where
  "phase_ok c l j D (Scanning js q n) \<longleftrightarrow> covered c D (set js) n"
| "phase_ok c l j D (Sweeping job js q n) \<longleftrightarrow> covered c D (insert (hj_id job) (set js)) n"
| "phase_ok c l j D (Admitting x) \<longleftrightarrow> card (running c D) < cl_limit l \<and>
     (\<forall>job. x = Some job \<longrightarrow> hj_id job = j \<and> hj_class job = c)"

lemma covered_mono: "covered c D rest n \<Longrightarrow> running c D' \<subseteq> running c D \<Longrightarrow> covered c D' rest n"
  unfolding covered_def by blast

lemma phase_ok_mono: "phase_ok c l j D p \<Longrightarrow> running c D' \<subseteq> running c D \<Longrightarrow> phase_ok c l j D' p"
  by (cases p) (auto intro: covered_mono le_less_trans [OF card_mono [OF finite_running]])

lemma covered_drop:
  assumes "covered c D (insert k rest) n" "k \<notin> running c D"
  shows "covered c D rest n"
  using assms unfolding covered_def by blast

lemma covered_count:
  assumes "covered c D (insert k rest) n"
  shows "covered c D rest (Suc n)"
proof -
  obtain S where S: "finite S" "card S \<le> n" "running c D \<subseteq> insert k rest \<union> S" using assms unfolding covered_def by blast
  then have "card (insert k S) \<le> Suc n" by (metis card_insert_le_m1 card_insert_if le_SucI Suc_le_mono)
  with S show ?thesis unfolding covered_def by (intro exI [of _ "insert k S"]) auto
qed

definition attempt_ok :: "heavy_config \<Rightarrow> job_dir \<Rightarrow> attempt \<Rightarrow> bool" where
  "attempt_ok C D a \<longleftrightarrow> config_class C (at_class a) = Some (at_limit a) \<and> classed D (at_job a) (at_class a) \<and>
     phase_ok (at_class a) (at_limit a) (at_job a) D (at_phase a) \<and>
     (case at_phase a of Sweeping job _ _ _ \<Rightarrow> map_of D (hj_id job) \<noteq> None | _ \<Rightarrow> True)"

definition keeps_job :: "heavy_job \<times> heavy_job \<Rightarrow> bool" where
  "keeps_job w \<longleftrightarrow> (case w of (old, new) \<Rightarrow> hj_id new = hj_id old \<and> hj_class new = hj_class old \<and>
     (hj_state new = JobRunning \<longrightarrow> hj_state old = JobRunning))"

definition heavy_ok :: "heavy_config \<Rightarrow> heavy_world \<Rightarrow> bool" where
  "heavy_ok C K \<longleftrightarrow> dir_ok (hw_dir K) \<and> length (hw_attempts K) \<le> 1 \<and>
     (\<forall>a \<in> set (hw_attempts K). attempt_ok C (hw_dir K) a) \<and>
     (\<forall>(j, c) \<in> set (hw_waiters K). classed (hw_dir K) j c) \<and> (\<forall>w \<in> set (hw_writes K). keeps_job w) \<and>
     (\<forall>c l. config_class C c = Some l \<longrightarrow> card (running c (hw_dir K)) \<le> cl_limit l)"

text \<open>A file that is overwritten as it was read, by a record that does not start to run, changes little.\<close>

lemma in_state_update:
  "in_state c s (AList.update j (Some job) D) k = (if k = j then hj_class job = c \<and> hj_state job = s else in_state c s D k)"
  by (simp add: in_state_def)

lemma calm_write:
  assumes "dir_ok D" "map_of D (hj_id old) = Some (Some old)" "keeps_job (old, new)"
    and "D' = AList.update (hj_id new) (Some new) D"
  shows "dir_ok D'" "running c D' \<subseteq> running c D" "classed D j c \<Longrightarrow> classed D' j c" "map_of D j \<noteq> None \<Longrightarrow> map_of D' j \<noteq> None"
proof -
  show "dir_ok D'" unfolding assms(4) by (rule dir_ok_update [OF assms(1) refl])
  show "running c D' \<subseteq> running c D"
    using assms(2,3) by (auto simp: assms(4) running_def in_state_update keeps_job_def in_state_def split: if_splits)
  show "classed D j c \<Longrightarrow> classed D' j c" using assms(2,3) by (auto simp: assms(4) classed_def keeps_job_def)
  show "map_of D j \<noteq> None \<Longrightarrow> map_of D' j \<noteq> None" by (auto simp: assms(4))
qed

lemma attempt_ok_mono:
  assumes "attempt_ok C D a" "\<And>c. running c D' \<subseteq> running c D" "\<And>j c. classed D j c \<Longrightarrow> classed D' j c"
    and "\<And>j. map_of D j \<noteq> None \<Longrightarrow> map_of D' j \<noteq> None"
  shows "attempt_ok C D' a"
  using assms phase_ok_mono [OF _ assms(2)] unfolding attempt_ok_def by (auto split: attempt_phase.splits)

lemma heavy_ok_dir:
  assumes "heavy_ok C K" "dir_ok D'" "\<And>c. running c D' \<subseteq> running c (hw_dir K)"
    and "\<And>j c. classed (hw_dir K) j c \<Longrightarrow> classed D' j c" "\<And>j. map_of (hw_dir K) j \<noteq> None \<Longrightarrow> map_of D' j \<noteq> None"
  shows "heavy_ok C (K\<lparr>hw_dir := D'\<rparr>)"
proof -
  have "card (running c D') \<le> cl_limit l" if "config_class C c = Some l" for c l
    using assms(1) that card_mono [OF finite_running assms(3), of c] unfolding heavy_ok_def by (blast intro: le_trans)
  then show ?thesis
    using assms(1,2) attempt_ok_mono [OF _ assms(3-5)] assms(4) unfolding heavy_ok_def by (auto; blast)
qed
text \<open>One read or write of an attempt.\<close>

definition step_keeps :: "job_dir \<Rightarrow> job_dir \<Rightarrow> bool" where
  "step_keeps D D' \<longleftrightarrow> dir_ok D' \<and> (\<forall>j c. classed D j c \<longrightarrow> classed D' j c) \<and> (\<forall>j. map_of D j \<noteq> None \<longrightarrow> map_of D' j \<noteq> None)"

lemma step_keeps_refl: "dir_ok D \<Longrightarrow> step_keeps D D"
  by (simp add: step_keeps_def)

lemma note_job_running:
  "map_of D k = Some (Some job) \<Longrightarrow> note_job alive stale now c job \<in> {NoteQueued, NotePassed} \<Longrightarrow> k \<notin> running c D"
  by (auto simp: note_job_def running_def in_state_def split: if_splits job_state.splits)

lemma noted_ok:
  assumes "dir_ok D" "attempt_ok C D a" "at_phase a = Scanning (k # ks) q n"
  shows "attempt_ok C D (a\<lparr>at_phase := noted alive stale a ks q n (read_job D k)\<rparr>)"
proof -
  have cov: "covered (at_class a) D (insert k (set ks)) n" using assms(2,3) by (simp add: attempt_ok_def)
  show ?thesis
  proof (cases "read_job D k")
    case (Inl e)
    then have "k \<notin> running (at_class a) D" by (auto simp: read_job_def running_def in_state_def split: option.splits)
    from covered_drop [OF cov this] Inl assms(2) show ?thesis by (simp add: attempt_ok_def noted_def)
  next
    case (Inr job)
    then have D: "map_of D k = Some (Some job)" by (simp add: read_job_Inr)
    then have id: "hj_id job = k" using assms(1) by (simp add: dir_ok_def)
    show ?thesis
    proof (cases "note_job alive stale (at_now a) (at_class a) job")
      case NoteLive
      with covered_count [OF cov] Inr assms(2) show ?thesis by (simp add: attempt_ok_def noted_def)
    next
      case NoteLapsed
      with cov Inr D id assms(2) show ?thesis by (simp add: attempt_ok_def noted_def)
    next
      case NoteQueued
      with covered_drop [OF cov] note_job_running [OF D, of alive stale "at_now a" "at_class a"] Inr assms(2) show ?thesis by (simp add: attempt_ok_def noted_def)
    next
      case NotePassed
      with covered_drop [OF cov] note_job_running [OF D, of alive stale "at_now a" "at_class a"] Inr assms(2) show ?thesis by (simp add: attempt_ok_def noted_def)
    qed
  qed
qed

lemma decided_ok:
  assumes "attempt_ok C D a" "at_phase a = Scanning [] q n" "admits (at_limit a) free (at_job a) q n"
  shows "attempt_ok C D (a\<lparr>at_phase := Admitting None\<rparr>)"
proof -
  obtain S where S: "finite S" "card S \<le> n" "running (at_class a) D \<subseteq> S"
    using assms(1,2) by (auto simp: attempt_ok_def covered_def)
  then have "card (running (at_class a) D) \<le> n" by (meson card_mono le_trans)
  moreover have "n < cl_limit (at_limit a)" using assms(3) by (simp add: admits_def Let_def)
  ultimately show ?thesis using assms(1) by (simp add: attempt_ok_def)
qed

lemma swept_ok:
  assumes "dir_ok D" "attempt_ok C D a" "at_phase a = Sweeping job ks q n" "map_of D (hj_id job) = Some (Some job)"
    and "D' = AList.update (hj_id job) (Some (abandoned_job now job)) D"
  shows "step_keeps D D'" "running c D' \<subseteq> running c D" "attempt_ok C D' (a\<lparr>at_phase := Scanning ks q n\<rparr>)"
proof -
  have id: "hj_id (abandoned_job now job) = hj_id job" by (simp add: abandoned_job_def)
  have keep: "keeps_job (job, abandoned_job now job)" by (simp add: keeps_job_def abandoned_job_def)
  note calm1 = calm_write [OF assms(1,4) keep, unfolded id, OF assms(5)]
  show "step_keeps D D'" "running c D' \<subseteq> running c D" using calm1 by (auto simp: step_keeps_def)
  have "hj_id job \<notin> running (at_class a) D'" by (simp add: assms(5) running_def in_state_update abandoned_job_def)
  moreover have "covered (at_class a) D' (insert (hj_id job) (set ks)) n"
    using assms(2,3) covered_mono [OF _ calm1(2)] by (simp add: attempt_ok_def)
  ultimately show "attempt_ok C D' (a\<lparr>at_phase := Scanning ks q n\<rparr>)"
    using covered_drop calm1(3) assms(2) by (simp add: attempt_ok_def)
qed

lemma admitted_ok:
  assumes "dir_ok D" "attempt_ok C D a" "at_phase a = Admitting (Some job)" "map_of D (hj_id job) = Some (Some job)"
    and "D' = AList.update (hj_id job) (Some (admitted_job now pid job)) D"
    and "config_class C c = Some l" "card (running c D) \<le> cl_limit l"
  shows "step_keeps D D'" "card (running c D') \<le> cl_limit l"
proof -
  have new: "hj_id (admitted_job now pid job) = hj_id job" "hj_class (admitted_job now pid job) = hj_class job"
    by (simp_all add: admitted_job_def)
  have "dir_ok D'" unfolding assms(5) by (rule dir_ok_update [OF assms(1) new(1)])
  then show "step_keeps D D'" using assms(4) new(2) by (auto simp: step_keeps_def classed_def assms(5))
  have a: "hj_class job = at_class a" "config_class C (at_class a) = Some (at_limit a)"
    "card (running (at_class a) D) < cl_limit (at_limit a)"
    using assms(2,3) by (simp_all add: attempt_ok_def)
  show "card (running c D') \<le> cl_limit l"
  proof (cases "c = at_class a")
    case True
    have "running c D' \<subseteq> insert (hj_id job) (running c D)"
      by (auto simp: assms(5) running_def in_state_update split: if_splits)
    then have "card (running c D') \<le> card (insert (hj_id job) (running c D))"
      by (intro card_mono) (simp_all add: finite_running)
    also have "\<dots> \<le> Suc (card (running c D))" by (simp add: card_insert_if finite_running)
    finally show ?thesis using True a assms(6) by simp
  next
    case False
    then have "running c D' \<subseteq> running c D" using a(1) new(2) by (auto simp: assms(5) running_def in_state_update split: if_splits)
    then show ?thesis using card_mono [OF finite_running] assms(7) le_trans by blast
  qed
qed

lemma attempt_step_ok:
  assumes "dir_ok D" "attempt_ok C D a" "attempt_step ok alive pid free stale a D = (Calm, D', x, adm)"
    and "\<And>c l. config_class C c = Some l \<Longrightarrow> card (running c D) \<le> cl_limit l"
  shows "step_keeps D D' \<and> (\<forall>c l. config_class C c = Some l \<longrightarrow> card (running c D') \<le> cl_limit l) \<and>
    (\<forall>a'. x = Some a' \<longrightarrow> attempt_ok C D' a')"
proof (cases "at_phase a")
  case (Scanning js q n)
  show ?thesis
  proof (cases js)
    case Nil
    then show ?thesis
      using assms Scanning decided_ok [OF assms(2)] step_keeps_refl by (auto simp: attempt_step_def split: if_splits)
  next
    case (Cons k ks)
    then show ?thesis
      using assms Scanning noted_ok [OF assms(1,2)] step_keeps_refl by (auto simp: attempt_step_def)
  qed
next
  case (Sweeping job ks q n)
  show ?thesis
  proof (cases "ok (hj_id job)")
    case False
    then show ?thesis
      using assms Sweeping step_keeps_refl by (auto simp: attempt_step_def write_job_def abandoned_job_def)
  next
    case True
    then have calm: "map_of D (hj_id job) = Some (Some job)"
      and D': "D' = AList.update (hj_id job) (Some (abandoned_job (at_now a) job)) D"
      and x: "x = Some (a\<lparr>at_phase := Scanning ks q n\<rparr>)"
      using assms(3) Sweeping by (auto simp: attempt_step_def write_job_def abandoned_job_def written_over_def split: if_splits)
    note swept = swept_ok [OF assms(1,2) Sweeping calm D']
    have "card (running c D') \<le> cl_limit l" if "config_class C c = Some l" for c l
      using card_mono [OF finite_running swept(2)] assms(4) [OF that] le_trans by blast
    with swept x show ?thesis by simp
  qed
next
  case (Admitting y)
  show ?thesis
  proof (cases y)
    case None
    have "attempt_ok C D (a\<lparr>at_phase := Admitting (Some job)\<rparr>)" if "read_job D (at_job a) = Inr job" for job
      using that assms(1,2) Admitting None by (auto simp: attempt_ok_def classed_def read_job_Inr dir_ok_def)
    then show ?thesis
      using assms Admitting None step_keeps_refl by (auto simp: attempt_step_def split: sum.splits)
  next
    case (Some job)
    show ?thesis
    proof (cases "ok (hj_id job)")
      case False
      then show ?thesis
        using assms Admitting Some step_keeps_refl by (auto simp: attempt_step_def write_job_def admitted_job_def)
    next
      case True
      then have calm: "map_of D (hj_id job) = Some (Some job)"
        and D': "D' = AList.update (hj_id job) (Some (admitted_job (at_now a) pid job)) D" and x: "x = None"
        using assms(3) Admitting Some by (auto simp: attempt_step_def write_job_def admitted_job_def written_over_def split: if_splits)
      note adm = admitted_ok [OF assms(1,2) Admitting [unfolded Some] calm D']
      have "config_class C (at_class a) = Some (at_limit a)" using assms(2) by (simp add: attempt_ok_def)
      from adm(1) [OF this assms(4) [OF this]] adm(2) assms(4) x show ?thesis by blast
    qed
  qed
qed

text \<open>One turn.\<close>

lemma set_drop_nth: "set (drop_nth i xs) \<subseteq> set xs"
  by (auto simp: drop_nth_def dest: in_set_takeD in_set_dropD)

lemma length_drop_nth: "length (drop_nth i xs) \<le> length xs"
  by (simp add: drop_nth_def)

lemma read_to_write_ok:
  assumes "heavy_ok C K" "\<And>job job'. f job = Some job' \<Longrightarrow> keeps_job (job, job')"
  shows "heavy_ok C (read_to_write j f K)"
  using assms by (auto simp: read_to_write_def heavy_ok_def split: sum.split option.split)

lemma heavy_step_ok:
  assumes "heavy_step C m K = Some (Calm, K')" "heavy_ok C K"
  shows "heavy_ok C K'"
proof -
  have D: "dir_ok (hw_dir K)" and bound: "\<And>c l. config_class C c = Some l \<Longrightarrow> card (running c (hw_dir K)) \<le> cl_limit l"
    using assms(2) by (auto simp: heavy_ok_def)
  show ?thesis
  proof (cases m)
    case (Submit j now spec ok)
    show ?thesis
    proof (cases "submit_with_id C (\<lambda>_. ok) now j spec (hw_dir K)")
      case (Pair sub D')
      show ?thesis
      proof (cases sub)
        case (RunInline h)
        then have "D' = hw_dir K"
          using Pair by (auto simp: submit_with_id_def enqueue_with_id_def write_job_def split: if_splits option.splits prod.splits sum.splits)
        then show ?thesis using assms Submit Pair RunInline by (auto split: if_splits)
      next
        case (WaitForAdmission job l)
        let ?job = "queued_job now j spec"
        have fresh: "map_of (hw_dir K) j = None" using assms(1) Submit by (auto split: if_splits)
        have D': "D' = AList.update j (Some ?job) (hw_dir K)"
          using Pair WaitForAdmission by (auto simp: submit_with_id_def enqueue_with_id_def write_job_def queued_job_def
              split: if_splits option.splits prod.splits sum.splits)
        have classed: "classed D' i c" if "classed (hw_dir K) i c" for i c
          using that fresh by (auto simp: D' classed_def)
        have "heavy_ok C (K\<lparr>hw_dir := D'\<rparr>)"
        proof (rule heavy_ok_dir [OF assms(2)])
          show "dir_ok D'" unfolding D' by (rule dir_ok_update [OF D]) (simp add: queued_job_def)
          show "running c D' \<subseteq> running c (hw_dir K)" for c
            by (auto simp: D' running_def in_state_update queued_job_def split: if_splits)
        qed (use classed in \<open>auto simp: D'\<close>)
        moreover have "classed D' j (hs_class spec)" by (simp add: D' classed_def queued_job_def)
        moreover have "K' = K\<lparr>hw_dir := D', hw_waiters := (j, hs_class spec) # hw_waiters K\<rparr>"
          using assms(1) Submit Pair WaitForAdmission fresh by simp
        ultimately show ?thesis by (simp add: heavy_ok_def)
      qed
    qed
  next
    case (Start j c now js)
    then obtain l where l: "config_class C c = Some l" "(j, c) \<in> set (hw_waiters K)" "set js = fst ` set (hw_dir K)"
      "hw_attempts K = []"
      "K' = K\<lparr>hw_attempts := [\<lparr>at_job = j, at_class = c, at_limit = l, at_now = now, at_phase = Scanning js [] 0\<rparr>]\<rparr>"
      using assms(1) by (auto split: option.splits if_splits)
    have "running c (hw_dir K) \<subseteq> set js"
      unfolding l(3) by (force simp: running_def in_state_def split: option.splits dest: map_of_SomeD)
    then have "covered c (hw_dir K) (set js) 0" by (auto simp: covered_def intro: exI [of _ "{}"])
    then show ?thesis using assms(2) l(1,2,5) by (auto simp: heavy_ok_def attempt_ok_def)
  next
    case (Advance i ok alive pid free)
    let ?a = "hw_attempts K ! i"
    have i: "i < length (hw_attempts K)" using assms(1) Advance by (auto split: if_splits)
    then have a: "attempt_ok C (hw_dir K) ?a" using assms(2) by (simp add: heavy_ok_def)
    have one: "hw_attempts K = [?a]" "i = 0" using i assms(2) by (cases "hw_attempts K"; auto simp: heavy_ok_def)+
    obtain e D' x adm where st: "attempt_step (\<lambda>_. ok) alive pid free (hc_stale_after_secs C) ?a (hw_dir K) = (e, D', x, adm)"
      by (metis prod_cases4)
    then have e: "e = Calm" using assms(1) Advance i by (cases x; cases adm) (auto simp: Let_def)
    note step = attempt_step_ok [OF D a st [unfolded e] bound]
    have "heavy_ok C (K\<lparr>hw_dir := D', hw_attempts := (case x of None \<Rightarrow> [] | Some a' \<Rightarrow> [a'])\<rparr>)"
      using step assms(2) by (auto simp: heavy_ok_def step_keeps_def split: option.splits)
    moreover have "drop_nth i (hw_attempts K) = []" "(hw_attempts K)[i := a'] = [a']" for a'
      unfolding one(2) by (subst one(1), simp add: drop_nth_def one(2))+
    then have "K' = K\<lparr>hw_dir := D', hw_attempts := (case x of None \<Rightarrow> [] | Some a' \<Rightarrow> [a'])\<rparr> \<or>
      x = None \<and> K' = K\<lparr>hw_dir := D', hw_attempts := [], hw_waiters := removeAll (at_job ?a, at_class ?a) (hw_waiters K),
        hw_workers := at_job ?a # hw_workers K\<rparr>"
      using assms(1) Advance i st by (cases x; cases adm) (auto simp: Let_def)
    ultimately show ?thesis by (auto simp: heavy_ok_def)
  next
    case (ReadBeat j now)
    have "heavy_ok C (read_to_write j (beaten_job now) K)"
      by (rule read_to_write_ok [OF assms(2)]) (auto simp: beaten_job_def keeps_job_def split: if_splits)
    then show ?thesis using assms(1) ReadBeat by (auto split: if_splits)
  next
    case (ReadEnd j now finished r)
    have "heavy_ok C (read_to_write j (\<lambda>job. Some (ended_job now (if finished then Done else Abandoned) r job)) K)"
      by (rule read_to_write_ok [OF assms(2)]) (auto simp: ended_job_def keeps_job_def Let_def split: option.splits if_splits)
    then show ?thesis using assms(1) ReadEnd by (auto simp: heavy_ok_def split: if_splits)
  next
    case (ReadCancel j now)
    have "heavy_ok C (read_to_write j (withdrawn_job now) K)"
      by (rule read_to_write_ok [OF assms(2)]) (auto simp: withdrawn_job_def keeps_job_def split: if_splits)
    then show ?thesis using assms(1) ReadCancel by auto
  next
    case (Write i ok)
    obtain old new where w: "hw_writes K ! i = (old, new)" by fastforce
    have i: "i < length (hw_writes K)" using assms(1) Write by (auto split: if_splits)
    then have keep: "keeps_job (old, new)" using assms(2) w by (metis heavy_ok_def nth_mem)
    have rest: "heavy_ok C (K1\<lparr>hw_writes := drop_nth i (hw_writes K)\<rparr>)" if "heavy_ok C K1" "hw_writes K1 = hw_writes K" for K1
      using that set_drop_nth [of i "hw_writes K"] unfolding heavy_ok_def by auto
    show ?thesis
    proof (cases ok)
      case False
      then have "K' = K\<lparr>hw_writes := drop_nth i (hw_writes K)\<rparr>" using assms(1) Write w i by (simp add: write_job_def)
      with rest [OF assms(2)] show ?thesis by simp
    next
      case True
      let ?D = "AList.update (hj_id new) (Some new) (hw_dir K)"
      have K': "K' = K\<lparr>hw_dir := ?D, hw_writes := drop_nth i (hw_writes K)\<rparr>"
        and calm: "map_of (hw_dir K) (hj_id old) = Some (Some old)"
        using assms(1) Write w i True by (auto simp: write_job_def written_over_def split: if_splits)
      note calm1 = calm_write [OF D calm keep refl]
      have "heavy_ok C (K\<lparr>hw_dir := ?D\<rparr>)"
        by (rule heavy_ok_dir [OF assms(2) calm1(1-3)]) (use calm1(4) in auto)
      from rest [OF this] show ?thesis by (simp add: K')
    qed
  next
    case (CrashTo W R A P)
    then have sub: "set W \<subseteq> set (hw_waiters K)" "set A \<subseteq> set (hw_attempts K)" "length A \<le> length (hw_attempts K)"
      "set P \<subseteq> set (hw_writes K)" "K' = K\<lparr>hw_waiters := W, hw_workers := R, hw_attempts := A, hw_writes := P\<rparr>"
      using assms(1) by (auto split: if_splits)
    then show ?thesis using assms(2) by (simp add: heavy_ok_def) (blast intro: le_trans)
  qed
qed

lemma heavy_run_ok:
  "heavy_run C ms K = Some (es, K') \<Longrightarrow> set es \<subseteq> {Calm} \<Longrightarrow> heavy_ok C K \<Longrightarrow> heavy_ok C K'"
proof (induction ms arbitrary: K es)
  case (Cons m ms)
  then obtain e K1 es1 where run: "heavy_step C m K = Some (e, K1)" "heavy_run C ms K1 = Some (es1, K')" "es = e # es1"
    by (auto split: option.splits)
  with Cons.prems have "heavy_ok C K1" by (auto intro: heavy_step_ok)
  with Cons.IH run Cons.prems(2) show ?case by simp
qed simp

lemma heavy_ok_empty: "heavy_ok C heavy_world_empty"
  by (simp add: heavy_ok_def heavy_world_empty_def dir_ok_def running_def in_state_def)

text \<open>
  C34. Submissions, admission attempts, heartbeats, ends, cancellations and crashes, on any number of processes,
  may take turns after every read and every write, and any write may fail. As long as no attempt starts while
  another is under way, and no file is overwritten that changed after the writer had read it, the job files never
  show more running jobs of a class than its limit.
\<close>

theorem running_bounded:
  assumes "heavy_run C ms heavy_world_empty = Some (es, K)" "set es \<subseteq> {Calm}" "config_class C c = Some l"
  shows "card {j. in_state c JobRunning (hw_dir K) j} \<le> cl_limit l"
  using heavy_run_ok [OF assms(1,2) heavy_ok_empty] assms(3) by (simp add: heavy_ok_def running_def)

subsection \<open>Waiting for ever\<close>

lemma swept_other:
  assumes "map_of D' k = map_of D k \<or> map_of D' k = map_option (map_option (swept_job alive stale now c)) (map_of D k)"
    "map_of D k = Some (Some job)" "hj_state job \<noteq> JobRunning"
  shows "map_of D' k = Some (Some job)"
  using assms by (auto simp: swept_job_def)

text \<open>
  A queued job whose waiting task is gone is never reclaimed, since only running jobs have a liveness test. As long
  as it is the oldest of its class, no attempt of another job of the class succeeds, and none touches its file.
\<close>

theorem orphaned_head_blocks:
  assumes "try_admit ok alive pid free stale now c l k D = (res, D')" "dir_ok D" "k \<noteq> j"
    and "map_of D j = Some (Some job)" "hj_class job = c" "hj_state job = Queued"
    and "\<And>i other. map_of D i = Some (Some other) \<Longrightarrow> hj_class other = c \<Longrightarrow> hj_state other = Queued \<Longrightarrow> fifo_key job \<le> fifo_key other"
  shows "res \<noteq> Inr (Some now) \<and> map_of D' j = Some (Some job)"
proof -
  note frame = try_admit_frame [OF assms(1,2)]
  have refused: "res \<noteq> Inr (Some now)"
  proof
    assume "res = Inr (Some now)"
    with frame obtain x where x: "map_of D k = Some (Some x)" "hj_class x = c" "hj_state x = Queued"
      "\<forall>i other. map_of D i = Some (Some other) \<and> hj_class other = c \<and> hj_state other = Queued \<longrightarrow> fifo_key x \<le> fifo_key other"
      unfolding if_P [OF \<open>res = _\<close>] by blast
    then have "fifo_key x = fifo_key job" using assms(4-7) by (intro antisym) blast+
    then show False using assms(2-4) x(1) by (simp add: fifo_key_def dir_ok_def)
  qed
  moreover have "map_of D' j = map_of D j \<or> map_of D' j = map_option (map_option (swept_job alive stale now c)) (map_of D j)"
    using frame refused by simp
  from swept_other [OF this assms(4)] assms(6) have "map_of D' j = Some (Some job)" by simp
  ultimately show ?thesis by blast
qed

text \<open>
  Cancelling a queued job does not wake its waiting task: a cancelled job is never the head of the queue, so every
  attempt of the task is refused and leaves the file as it is.
\<close>

theorem cancelled_waiter_polls_for_ever:
  assumes "try_admit ok alive pid free stale now c l j D = (res, D')" "dir_ok D"
    and "map_of D j = Some (Some job)" "hj_state job = JobCancelled"
  shows "res \<noteq> Inr (Some now) \<and> map_of D' j = Some (Some job)"
proof -
  note frame = try_admit_frame [OF assms(1,2)]
  have refused: "res \<noteq> Inr (Some now)" using frame assms(3,4) by (auto split: if_splits)
  then have "map_of D' j = map_of D j \<or> map_of D' j = map_option (map_option (swept_job alive stale now c)) (map_of D j)"
    using frame by simp
  from swept_other [OF this assms(3)] assms(4) refused show ?thesis by simp
qed

subsection \<open>The verdict of a parked job\<close>

lemma await_eq:
  "await_outcome X D j = (case map_of D j of
     Some (Some job) \<Rightarrow> if hj_state job \<in> {Done, JobCancelled, Abandoned} then await_outcome X [(j, Some job)] j else None
   | _ \<Rightarrow> None)"
  by (auto simp: await_outcome_def read_job_def Let_def split: option.split)

text \<open>
  A parked walk reads nothing while its job is queued or running. Once the admitted work has ended
  it reads the verdict and the check results the work returned, as they were recorded, and for work that
  panicked or a cancelled job the verdict is a failure without results, as long as nothing was
  recorded before.
\<close>

theorem parked_verdict:
  assumes "map_of D j = Some (Some job)" "hj_id job = j"
  shows "(hj_state job \<in> {Queued, JobRunning} \<longrightarrow> await_outcome X D j = None) \<and>
    (\<exists>v. await_outcome X (end_work (\<lambda>_. True) now j (Some y) (Some extract) D) j = Some v \<and>
       json_get v ''all_passed'' = Some (JBool (jr_passed (extract y))) \<and>
       json_get v ''check_results'' = Some (jr_check_results (extract y))) \<and>
    (hj_passed job = None \<and> hj_check_results job = None \<longrightarrow>
      (\<exists>v. await_outcome X (end_work (\<lambda>_. True) now j None (Some extract) D) j = Some v \<and>
         json_get v ''all_passed'' = Some (JBool False) \<and> json_get v ''check_results'' = Some (JArr [])) \<and>
      (hj_state job = Queued \<longrightarrow> (\<exists>v. await_outcome X (cancel_if_queued (\<lambda>_. True) now j D) j = Some v \<and>
         json_get v ''all_passed'' = Some (JBool False) \<and> json_get v ''check_results'' = Some (JArr []))))"
  using assms by (auto simp: await_outcome_def read_job_def end_work_def finish_job_def cancel_if_queued_def rewrite_job_def ended_job_def
      withdrawn_job_def write_job_def Let_def)

subsection \<open>The admission lock\<close>

definition lock_ok :: "lock_world \<Rightarrow> bool" where
  "lock_ok W \<longleftrightarrow> (\<forall>p. lk_phase W p = Holding \<longrightarrow> lk_made W \<noteq> None \<and> (\<forall>q. lk_phase W q = Holding \<longrightarrow> q = p))"

lemma lock_ok_step:
  "lock_step now p e W = Some W' \<Longrightarrow> e \<noteq> LockBroken \<Longrightarrow> lock_ok W \<Longrightarrow> lock_ok W'"
  by (cases e) (auto simp: lock_step_def lock_ok_def split: if_splits option.splits)

text \<open>
  As long as no process breaks a lock it takes for stale, at most one process is in its admission
  decision, crashes included.
\<close>

theorem lock_excludes:
  assumes "lock_run es lock_free = Some W" "\<forall>(now, p, e) \<in> set es. e \<noteq> LockBroken"
    "lk_phase W p = Holding" "lk_phase W q = Holding"
  shows "p = q"
proof -
  have "lock_ok W'" if "lock_run es W0 = Some W'" "\<forall>(now, p, e) \<in> set es. e \<noteq> LockBroken" "lock_ok W0" for es W0 W'
    using that by (induction es W0 rule: lock_run.induct) (auto split: option.splits dest: lock_ok_step)
  moreover have "lock_ok lock_free" by (simp add: lock_ok_def lock_free_def)
  ultimately show ?thesis using assms unfolding lock_ok_def by blast
qed

text \<open>
  Breaking a stale lock is not atomic. After a crash in the decision two processes can both find the
  same lock stale, the second then removes the one the first has just made, and both decide at the
  same time, although neither has held the lock for longer than an instant.
\<close>

theorem stale_lock_broken_twice:
  "\<exists>es W. lock_run es lock_free = Some W \<and> sorted (map fst es) \<and> lk_phase W 2 = Holding \<and> lk_phase W 3 = Holding \<and>
     (\<forall>(now, p, e) \<in> set es. e = LockMade \<and> p \<noteq> 1 \<longrightarrow> now = fst (last es))"
proof -
  let ?t = "31 * 10 ^ 9 :: int"
  let ?es = "[(0, 1, LockAsked), (0, 1, LockMade), (0, 1, LockCrash), (?t, 2, LockAsked), (?t, 3, LockAsked),
    (?t, 2, LockStale), (?t, 3, LockStale), (?t, 2, LockBroken), (?t, 2, LockMade), (?t, 3, LockBroken),
    (?t, 3, LockMade)] :: (timestamp \<times> u32 \<times> lock_event) list"
  have "lock_run ?es lock_free = Some \<lparr>lk_made = Some ?t, lk_phase = (\<lambda>_. Outside)(1 := Outside, 2 := Holding, 3 := Holding)\<rparr>"
    by (simp add: lock_step_def lock_free_def admission_lock_stale_after_def fun_upd_twist)
  then show ?thesis by (intro exI [of _ ?es] exI conjI) (assumption, simp_all)
qed

subsection \<open>Examples\<close>

definition example_heavy_config :: heavy_config where
  "example_heavy_config = \<lparr>hc_enabled = True, hc_heartbeat_interval_secs = 30, hc_stale_after_secs = 300,
     hc_poll_interval_ms = 50, hc_classes = [(''test'', \<lparr>cl_limit = 1, cl_min_free_mb = 0\<rparr>)]\<rparr>"

definition example_spec :: heavy_spec where
  "example_spec = \<lparr>hs_class = ''test'', hs_repo = ''engine'', hs_cwd = ''/work'', hs_commands = [], hs_run_id = None\<rparr>"

definition example_dir :: job_dir where
  "example_dir = [(1, Some (queued_job 10 1 example_spec)), (2, Some (queued_job 20 2 example_spec))]"

lemmas example_heavy_simps = example_heavy_config_def example_spec_def example_dir_def queued_job_def config_class_def
  submit_with_id_def enqueue_with_id_def write_job_def read_job_def try_admit_def heavy_world_empty_def fifo_key_def

lemma example_dir_ok: "dir_ok example_dir"
  by (auto simp: dir_ok_def example_dir_def queued_job_def split: if_splits)

theorem admission_exact_witness:
  "fst (try_admit (\<lambda>_. True) (\<lambda>_. True) 7 0 300 30 ''test'' \<lparr>cl_limit = 1, cl_min_free_mb = 0\<rparr> 2 example_dir) = Inr None"
proof -
  obtain res D' where t: "try_admit (\<lambda>_. True) (\<lambda>_. True) 7 0 300 30 ''test'' \<lparr>cl_limit = 1, cl_min_free_mb = 0\<rparr> 2 example_dir = (res, D')"
    by fastforce
  have "map_of example_dir 1 = Some (Some (queued_job 10 1 example_spec))" "map_of example_dir 2 = Some (Some (queued_job 20 2 example_spec))"
    by (simp_all add: example_dir_def)
  then have "\<not> (\<exists>job \<in> {job. map_of example_dir (hj_id job) = Some (Some job) \<and> hj_class job = ''test'' \<and> hj_state job = Queued}.
      hj_id job = 2 \<and> (\<forall>other \<in> {job. map_of example_dir (hj_id job) = Some (Some job) \<and> hj_class job = ''test'' \<and> hj_state job = Queued}.
        fifo_key job \<le> fifo_key other))"
    by (auto simp: queued_job_def fifo_key_def example_spec_def less_eq_prod_def intro!: exI [of _ "queued_job 10 1 example_spec"])
  with admission_exact [OF example_dir_ok t] t show ?thesis by (simp add: Let_def)
qed

text \<open>Two jobs, the second of which is admitted when the first has been abandoned.\<close>

definition admit_moves :: "uuid \<Rightarrow> timestamp \<Rightarrow> uuid list \<Rightarrow> nat \<Rightarrow> heavy_move list" where
  "admit_moves j now js n = Start j ''test'' now js # replicate n (Advance 0 True (\<lambda>_. True) 7 0)"

definition calm_moves :: "heavy_move list" where
  "calm_moves = [Submit 1 0 example_spec True] @ admit_moves 1 0 [1] 4 @ [ReadBeat 1 (30 * 10 ^ 9), Write 0 True]"

theorem running_bounded_witness:
  "(case heavy_run example_heavy_config calm_moves heavy_world_empty of
      None \<Rightarrow> False
    | Some (es, K) \<Rightarrow> in_state ''test'' JobRunning (hw_dir K) 1 \<and> card {j. in_state ''test'' JobRunning (hw_dir K) j} \<le> 1)"
proof -
  have "case heavy_run example_heavy_config calm_moves heavy_world_empty of
      None \<Rightarrow> False | Some (es, K) \<Rightarrow> list_all (\<lambda>e. e = Calm) es \<and> in_state ''test'' JobRunning (hw_dir K) 1"
    by code_simp
  then obtain es K where run: "heavy_run example_heavy_config calm_moves heavy_world_empty = Some (es, K)"
    "set es \<subseteq> {Calm}" "in_state ''test'' JobRunning (hw_dir K) 1"
    by (auto simp: list_all_iff split: option.splits)
  have "config_class example_heavy_config ''test'' = Some \<lparr>cl_limit = 1, cl_min_free_mb = 0\<rparr>"
    by (simp add: config_class_def example_heavy_config_def)
  from running_bounded [OF run(1,2) this] run show ?thesis by simp
qed

text \<open>
  The write of a heartbeat can raise the dead. A heartbeat reads its running job and is held up until the job has
  lapsed; an attempt abandons the job and admits the next one; the heartbeat then writes what it had read, and more
  jobs run than the limit allows, although no two attempts overlap and one write alone came late.
\<close>

definition late_moves :: "heavy_move list" where
  "late_moves = [Submit 1 0 example_spec True] @ admit_moves 1 0 [1] 4 @
     [ReadBeat 1 (30 * 10 ^ 9), Submit 2 (40 * 10 ^ 9) example_spec True] @ admit_moves 2 (400 * 10 ^ 9) [1, 2] 6 @
     [Write 0 True]"

theorem late_heartbeat_exceeds_limit:
  "\<exists>es K l. heavy_run example_heavy_config late_moves heavy_world_empty = Some (es, K) \<and>
     filter (\<lambda>e. e \<noteq> Calm) es = [StaleWrite] \<and> config_class example_heavy_config ''test'' = Some l \<and>
     cl_limit l < card {j. in_state ''test'' JobRunning (hw_dir K) j}"
proof -
  have "case heavy_run example_heavy_config late_moves heavy_world_empty of
      None \<Rightarrow> False | Some (es, K) \<Rightarrow> filter (\<lambda>e. e \<noteq> Calm) es = [StaleWrite] \<and>
        in_state ''test'' JobRunning (hw_dir K) 1 \<and> in_state ''test'' JobRunning (hw_dir K) 2"
    by code_simp
  then obtain es K where run: "heavy_run example_heavy_config late_moves heavy_world_empty = Some (es, K)"
    "filter (\<lambda>e. e \<noteq> Calm) es = [StaleWrite]" "{1, 2} \<subseteq> running ''test'' (hw_dir K)"
    by (auto simp: running_def split: option.splits)
  have "card {1, 2 :: uuid} \<le> card (running ''test'' (hw_dir K))" by (rule card_mono [OF finite_running run(3)])
  then have "1 < card {j. in_state ''test'' JobRunning (hw_dir K) j}" by (simp add: running_def)
  with run(1,2) show ?thesis by (simp add: config_class_def example_heavy_config_def)
qed

lemma example_head:
  "map_of example_dir k = Some (Some other) \<Longrightarrow> fifo_key (queued_job 10 1 example_spec) \<le> fifo_key other"
  by (auto simp: example_dir_def fifo_key_def queued_job_def less_eq_prod_def split: if_splits)

theorem orphaned_head_blocks_witness:
  "fst (try_admit (\<lambda>_. True) (\<lambda>_. True) 7 0 300 30 ''test'' \<lparr>cl_limit = 1, cl_min_free_mb = 0\<rparr> 2 example_dir) \<noteq> Inr (Some 30)"
proof -
  obtain res D' where t: "try_admit (\<lambda>_. True) (\<lambda>_. True) 7 0 300 30 ''test'' \<lparr>cl_limit = 1, cl_min_free_mb = 0\<rparr> 2 example_dir = (res, D')"
    by fastforce
  have job: "map_of example_dir 1 = Some (Some (queued_job 10 1 example_spec))" by (simp add: example_dir_def)
  have ne: "(2::uuid) \<noteq> 1" by simp
  have "hj_class (queued_job 10 1 example_spec) = ''test''" "hj_state (queued_job 10 1 example_spec) = Queued"
    by (simp_all add: queued_job_def example_spec_def)
  from orphaned_head_blocks [OF t example_dir_ok ne job this example_head] t show ?thesis by simp
qed

theorem cancelled_waiter_polls_for_ever_witness:
  "fst (try_admit (\<lambda>_. True) (\<lambda>_. True) 7 0 300 30 ''test'' \<lparr>cl_limit = 1, cl_min_free_mb = 0\<rparr> 1
     (cancel_if_queued (\<lambda>_. True) 15 1 example_dir)) \<noteq> Inr (Some 30)"
proof -
  let ?D = "cancel_if_queued (\<lambda>_. True) 15 1 example_dir"
  let ?job = "(queued_job 10 1 example_spec)\<lparr>hj_state := JobCancelled, hj_finished_at := Some 15\<rparr>"
  obtain res D' where t: "try_admit (\<lambda>_. True) (\<lambda>_. True) 7 0 300 30 ''test'' \<lparr>cl_limit = 1, cl_min_free_mb = 0\<rparr> 1 ?D = (res, D')"
    by fastforce
  have d: "dir_ok ?D" "map_of ?D 1 = Some (Some ?job)"
    by (auto simp: dir_ok_def cancel_if_queued_def rewrite_job_def withdrawn_job_def example_heavy_simps split: if_splits)
  from cancelled_waiter_polls_for_ever [OF t d] t show ?thesis by simp
qed

theorem parked_verdict_witness:
  "\<forall>X. \<exists>v. await_outcome X (end_work (\<lambda>_. True) 30 2 (Some True) (Some (\<lambda>b. \<lparr>jr_passed = b, jr_check_results = JNull\<rparr>)) example_dir) 2 = Some v
    \<and> json_get v ''all_passed'' = Some (JBool True)"
  using parked_verdict [of example_dir 2 "queued_job 20 2 example_spec" _ 30 True "\<lambda>b. \<lparr>jr_passed = b, jr_check_results = JNull\<rparr>"]
  by (auto simp: example_dir_def queued_job_def)

theorem lock_excludes_witness:
  "\<exists>W. lock_run [(0, 1, LockAsked), (5, 1, LockMade), (6, 2, LockAsked)] lock_free = Some W \<and>
     lk_phase W 1 = Holding \<and> lk_phase W 2 \<noteq> Holding"
proof -
  let ?W = "\<lparr>lk_made = Some 5, lk_phase = (\<lambda>_. Outside)(1 := Holding, 2 := Acquiring)\<rparr> :: lock_world"
  have r: "lock_run [(0, 1, LockAsked), (5, 1, LockMade), (6, 2, LockAsked)] lock_free = Some ?W"
    by (simp add: lock_step_def lock_free_def)
  have ne: "(1::u32) \<noteq> 2" by simp
  have b: "\<forall>(now, p, e) \<in> set [(0, 1, LockAsked), (5, 1, LockMade), (6, 2, LockAsked)]. e \<noteq> LockBroken" by simp
  have h: "lk_phase ?W 1 = Holding" by simp
  have "lk_phase ?W 2 \<noteq> Holding" using lock_excludes [OF r b h, of 2] ne by blast
  with r h show ?thesis by blast
qed

end
