(* ===== verification/SdlcPolicy.thy ===== *)
theory SdlcPolicy
  imports Policy
begin

text \<open>
  The policy of the SDLC flow (\<open>workflows/sdlc_flow/policy.rs\<close>): its knobs, the layers that override them
  and the named profiles (\<open>profiles.rs\<close>), resolved as in \<open>policy/resolve.rs\<close>, and the wire form under
  which the resolved policy is stamped into a run and committed with its state.
\<close>

subsection \<open>Knobs\<close>

datatype review_mode = PerTask | TrivialSkip | EndOnly

datatype test_depth = DepthFull | DepthFast

datatype test_dispatch = DispatchInline | DispatchQueuePark

record model_tiers =
  mt_implement :: model_tier
  mt_implement_simple :: model_tier
  mt_review :: model_tier
  mt_triage :: model_tier
  mt_generate :: model_tier
  mt_docs :: model_tier
  mt_implement_final_attempt :: "model_tier option"

definition model_tiers_default :: model_tiers where
  "model_tiers_default = \<lparr>mt_implement = Sonnet, mt_implement_simple = Sonnet, mt_review = Sonnet,
     mt_triage = Sonnet, mt_generate = Opus, mt_docs = Sonnet, mt_implement_final_attempt = None\<rparr>"

record call_timeouts =
  ct_implement :: "u64 option"
  ct_triage :: "u64 option"
  ct_review :: "u64 option"
  ct_generate :: "u64 option"
  ct_docs :: "u64 option"

definition call_timeouts_default :: call_timeouts where
  "call_timeouts_default = \<lparr>ct_implement = None, ct_triage = None, ct_review = None, ct_generate = None, ct_docs = None\<rparr>"

record stage_turn_ceilings =
  tc_implement :: "u32 option"
  tc_review :: "u32 option"
  tc_triage :: "u32 option"
  tc_generate :: "u32 option"
  tc_docs :: "u32 option"

definition stage_turn_ceilings_default :: stage_turn_ceilings where
  "stage_turn_ceilings_default = \<lparr>tc_implement = None, tc_review = None, tc_triage = None, tc_generate = None, tc_docs = None\<rparr>"

record retry_feedback =
  rf_enabled :: bool
  rf_max_chars :: u32

definition retry_feedback_default :: retry_feedback where
  "retry_feedback_default = \<lparr>rf_enabled = True, rf_max_chars = 4000\<rparr>"

record transport_retry =
  tr_max_attempts :: u32
  tr_initial_backoff_ms :: u64

definition transport_retry_default :: transport_retry where
  "transport_retry_default = \<lparr>tr_max_attempts = 3, tr_initial_backoff_ms = 200\<rparr>"

record sdlc_policy =
  sy_output_verbosity :: output_verbosity
  sy_prompt_cache :: bool
  sy_review_mode :: review_mode
  sy_review_skip_max_files :: u32
  sy_review_skip_max_diff_lines :: u32
  sy_test_depth :: test_depth
  sy_test_dispatch :: test_dispatch
  sy_model_tiers :: model_tiers
  sy_timeouts :: call_timeouts
  sy_max_turns :: stage_turn_ceilings
  sy_local :: local_config
  sy_pi :: pi_config
  sy_llm_triage :: bool
  sy_max_attempts :: u32
  sy_max_review_attempts :: u32
  sy_retry_feedback :: retry_feedback
  sy_transport_retry :: transport_retry
  sy_review_diff_max_chars :: u32
  sy_node_invocation_payload_cap_bytes :: u64
  sy_generate_context_max_bytes :: "u64 option"
  sy_agent_backend :: agent_backend
  sy_isolated :: bool

definition sdlc_policy_default :: sdlc_policy where
  "sdlc_policy_default =
     \<lparr>sy_output_verbosity = Normal, sy_prompt_cache = False, sy_review_mode = PerTask,
      sy_review_skip_max_files = 2, sy_review_skip_max_diff_lines = 40, sy_test_depth = DepthFull,
      sy_test_dispatch = DispatchInline, sy_model_tiers = model_tiers_default,
      sy_timeouts = call_timeouts_default, sy_max_turns = stage_turn_ceilings_default,
      sy_local = local_config_default, sy_pi = pi_config_default, sy_llm_triage = False,
      sy_max_attempts = 3, sy_max_review_attempts = 3, sy_retry_feedback = retry_feedback_default,
      sy_transport_retry = transport_retry_default, sy_review_diff_max_chars = 120000,
      sy_node_invocation_payload_cap_bytes = default_payload_cap_bytes,
      sy_generate_context_max_bytes = None, sy_agent_backend = ClaudeCli, sy_isolated = True\<rparr>"

subsection \<open>Overrides\<close>

record partial_model_tiers =
  pmt_implement :: "model_tier option"
  pmt_implement_simple :: "model_tier option"
  pmt_review :: "model_tier option"
  pmt_triage :: "model_tier option"
  pmt_generate :: "model_tier option"
  pmt_docs :: "model_tier option"
  pmt_implement_final_attempt :: "model_tier option option"

definition partial_model_tiers_default :: partial_model_tiers where
  "partial_model_tiers_default = \<lparr>pmt_implement = None, pmt_implement_simple = None, pmt_review = None,
     pmt_triage = None, pmt_generate = None, pmt_docs = None, pmt_implement_final_attempt = None\<rparr>"

definition merge_model_tiers :: "model_tiers \<Rightarrow> partial_model_tiers \<Rightarrow> model_tiers" where
  "merge_model_tiers base ov =
     \<lparr>mt_implement = merge_opt (mt_implement base) (pmt_implement ov),
      mt_implement_simple = merge_opt (mt_implement_simple base) (pmt_implement_simple ov),
      mt_review = merge_opt (mt_review base) (pmt_review ov),
      mt_triage = merge_opt (mt_triage base) (pmt_triage ov),
      mt_generate = merge_opt (mt_generate base) (pmt_generate ov),
      mt_docs = merge_opt (mt_docs base) (pmt_docs ov),
      mt_implement_final_attempt =
        merge_opt (mt_implement_final_attempt base) (pmt_implement_final_attempt ov)\<rparr>"

text \<open>A timeout or ceiling can be set by an override but never unset.\<close>

definition set_some :: "'a option \<Rightarrow> 'a option \<Rightarrow> 'a option" where
  "set_some base ov = (case ov of Some v \<Rightarrow> Some v | None \<Rightarrow> base)"

type_synonym partial_call_timeouts = call_timeouts

definition merge_call_timeouts :: "call_timeouts \<Rightarrow> partial_call_timeouts \<Rightarrow> call_timeouts" where
  "merge_call_timeouts base ov =
     \<lparr>ct_implement = set_some (ct_implement base) (ct_implement ov),
      ct_triage = set_some (ct_triage base) (ct_triage ov),
      ct_review = set_some (ct_review base) (ct_review ov),
      ct_generate = set_some (ct_generate base) (ct_generate ov),
      ct_docs = set_some (ct_docs base) (ct_docs ov)\<rparr>"

type_synonym partial_stage_turn_ceilings = stage_turn_ceilings

definition merge_stage_turn_ceilings ::
  "stage_turn_ceilings \<Rightarrow> partial_stage_turn_ceilings \<Rightarrow> stage_turn_ceilings" where
  "merge_stage_turn_ceilings base ov =
     \<lparr>tc_implement = set_some (tc_implement base) (tc_implement ov),
      tc_review = set_some (tc_review base) (tc_review ov),
      tc_triage = set_some (tc_triage base) (tc_triage ov),
      tc_generate = set_some (tc_generate base) (tc_generate ov),
      tc_docs = set_some (tc_docs base) (tc_docs ov)\<rparr>"

record partial_retry_feedback =
  prf_enabled :: "bool option"
  prf_max_chars :: "u32 option"

definition merge_retry_feedback :: "retry_feedback \<Rightarrow> partial_retry_feedback \<Rightarrow> retry_feedback" where
  "merge_retry_feedback base ov =
     \<lparr>rf_enabled = merge_opt (rf_enabled base) (prf_enabled ov),
      rf_max_chars = merge_opt (rf_max_chars base) (prf_max_chars ov)\<rparr>"

record partial_transport_retry =
  ptr_max_attempts :: "u32 option"
  ptr_initial_backoff_ms :: "u64 option"

definition merge_transport_retry :: "transport_retry \<Rightarrow> partial_transport_retry \<Rightarrow> transport_retry" where
  "merge_transport_retry base ov =
     \<lparr>tr_max_attempts = merge_opt (tr_max_attempts base) (ptr_max_attempts ov),
      tr_initial_backoff_ms = merge_opt (tr_initial_backoff_ms base) (ptr_initial_backoff_ms ov)\<rparr>"

record partial_sdlc_policy =
  py_output_verbosity :: "output_verbosity option"
  py_prompt_cache :: "bool option"
  py_review_mode :: "review_mode option"
  py_review_skip_max_files :: "u32 option"
  py_review_skip_max_diff_lines :: "u32 option"
  py_test_depth :: "test_depth option"
  py_test_dispatch :: "test_dispatch option"
  py_model_tiers :: "partial_model_tiers option"
  py_timeouts :: "partial_call_timeouts option"
  py_max_turns :: "partial_stage_turn_ceilings option"
  py_local :: "partial_local_config option"
  py_pi :: "partial_pi_config option"
  py_llm_triage :: "bool option"
  py_max_attempts :: "u32 option"
  py_max_review_attempts :: "u32 option"
  py_retry_feedback :: "partial_retry_feedback option"
  py_transport_retry :: "partial_transport_retry option"
  py_review_diff_max_chars :: "u32 option"
  py_node_invocation_payload_cap_bytes :: "u64 option"
  py_generate_context_max_bytes :: "(u64 option) option"
  py_agent_backend :: "agent_backend option"
  py_isolated :: "bool option"

definition partial_sdlc_policy_default :: partial_sdlc_policy where
  "partial_sdlc_policy_default =
     \<lparr>py_output_verbosity = None, py_prompt_cache = None, py_review_mode = None,
      py_review_skip_max_files = None, py_review_skip_max_diff_lines = None, py_test_depth = None,
      py_test_dispatch = None, py_model_tiers = None, py_timeouts = None, py_max_turns = None,
      py_local = None, py_pi = None, py_llm_triage = None, py_max_attempts = None,
      py_max_review_attempts = None, py_retry_feedback = None, py_transport_retry = None,
      py_review_diff_max_chars = None, py_node_invocation_payload_cap_bytes = None,
      py_generate_context_max_bytes = None, py_agent_backend = None, py_isolated = None\<rparr>"

definition merge_with :: "('a \<Rightarrow> 'b \<Rightarrow> 'a) \<Rightarrow> 'a \<Rightarrow> 'b option \<Rightarrow> 'a" where
  "merge_with m base ov = (case ov of Some v \<Rightarrow> m base v | None \<Rightarrow> base)"

definition sdlc_policy_apply :: "sdlc_policy \<Rightarrow> partial_sdlc_policy \<Rightarrow> sdlc_policy" where
  "sdlc_policy_apply base over =
     \<lparr>sy_output_verbosity = merge_opt (sy_output_verbosity base) (py_output_verbosity over),
      sy_prompt_cache = merge_opt (sy_prompt_cache base) (py_prompt_cache over),
      sy_review_mode = merge_opt (sy_review_mode base) (py_review_mode over),
      sy_review_skip_max_files = merge_opt (sy_review_skip_max_files base) (py_review_skip_max_files over),
      sy_review_skip_max_diff_lines = merge_opt (sy_review_skip_max_diff_lines base) (py_review_skip_max_diff_lines over),
      sy_test_depth = merge_opt (sy_test_depth base) (py_test_depth over),
      sy_test_dispatch = merge_opt (sy_test_dispatch base) (py_test_dispatch over),
      sy_model_tiers = merge_with merge_model_tiers (sy_model_tiers base) (py_model_tiers over),
      sy_timeouts = merge_with merge_call_timeouts (sy_timeouts base) (py_timeouts over),
      sy_max_turns = merge_with merge_stage_turn_ceilings (sy_max_turns base) (py_max_turns over),
      sy_local = merge_with merge_local (sy_local base) (py_local over),
      sy_pi = merge_with merge_pi_config (sy_pi base) (py_pi over),
      sy_llm_triage = merge_opt (sy_llm_triage base) (py_llm_triage over),
      sy_max_attempts = merge_opt (sy_max_attempts base) (py_max_attempts over),
      sy_max_review_attempts = merge_opt (sy_max_review_attempts base) (py_max_review_attempts over),
      sy_retry_feedback = merge_with merge_retry_feedback (sy_retry_feedback base) (py_retry_feedback over),
      sy_transport_retry = merge_with merge_transport_retry (sy_transport_retry base) (py_transport_retry over),
      sy_review_diff_max_chars = merge_opt (sy_review_diff_max_chars base) (py_review_diff_max_chars over),
      sy_node_invocation_payload_cap_bytes = merge_opt (sy_node_invocation_payload_cap_bytes base) (py_node_invocation_payload_cap_bytes over),
      sy_generate_context_max_bytes = merge_opt (sy_generate_context_max_bytes base) (py_generate_context_max_bytes over),
      sy_agent_backend = merge_opt (sy_agent_backend base) (py_agent_backend over),
      sy_isolated = merge_opt (sy_isolated base) (py_isolated over)\<rparr>"

lemmas sdlc_apply_simps = sdlc_policy_apply_def merge_opt_def merge_with_def

interpretation sdlc_review_mode: policy_knob sdlc_policy_apply sy_review_mode py_review_mode
  by unfold_locales (simp add: sdlc_apply_simps)

interpretation sdlc_llm_triage: policy_knob sdlc_policy_apply sy_llm_triage py_llm_triage
  by unfold_locales (simp add: sdlc_apply_simps)

interpretation sdlc_attempts: policy_knob sdlc_policy_apply sy_max_attempts py_max_attempts
  by unfold_locales (simp add: sdlc_apply_simps)

interpretation sdlc_review_attempts: policy_knob sdlc_policy_apply sy_max_review_attempts py_max_review_attempts
  by unfold_locales (simp add: sdlc_apply_simps)

interpretation sdlc_isolation: policy_knob sdlc_policy_apply sy_isolated py_isolated
  by unfold_locales (simp add: sdlc_apply_simps)

subsection \<open>Profiles\<close>

definition sdlc_baseline :: partial_sdlc_policy where
  "sdlc_baseline = partial_sdlc_policy_default\<lparr>
     py_model_tiers := Some \<lparr>pmt_implement = Some Sonnet, pmt_implement_simple = Some Sonnet, pmt_review = Some Sonnet,
       pmt_triage = Some Sonnet, pmt_generate = Some Opus, pmt_docs = Some Sonnet,
       pmt_implement_final_attempt = Some None\<rparr>,
     py_review_mode := Some PerTask, py_llm_triage := Some False, py_test_depth := Some DepthFull,
     py_test_dispatch := Some DispatchInline, py_review_diff_max_chars := Some 120000,
     py_max_review_attempts := Some 3,
     py_node_invocation_payload_cap_bytes := Some default_payload_cap_bytes, py_isolated := Some True\<rparr>"

definition sdlc_cheap_fast :: partial_sdlc_policy where
  "sdlc_cheap_fast = partial_sdlc_policy_default\<lparr>
     py_model_tiers := Some (partial_model_tiers_default\<lparr>pmt_implement := Some Haiku, pmt_triage := Some Haiku,
       pmt_review := Some Haiku, pmt_generate := Some Haiku, pmt_docs := Some Haiku\<rparr>),
     py_output_verbosity := Some Terse, py_review_mode := Some TrivialSkip, py_test_depth := Some DepthFast,
     py_test_dispatch := Some DispatchQueuePark, py_review_diff_max_chars := Some 20000,
     py_max_review_attempts := Some 2, py_node_invocation_payload_cap_bytes := Some 8192,
     py_isolated := Some True\<rparr>"

definition sdlc_pragmatist :: partial_sdlc_policy where
  "sdlc_pragmatist = partial_sdlc_policy_default\<lparr>
     py_model_tiers := Some (partial_model_tiers_default\<lparr>pmt_implement := Some Sonnet, pmt_review := Some Sonnet,
       pmt_generate := Some Opus, pmt_docs := Some Sonnet\<rparr>),
     py_prompt_cache := Some True, py_review_mode := Some TrivialSkip, py_llm_triage := Some True,
     py_test_depth := Some DepthFast, py_test_dispatch := Some DispatchQueuePark,
     py_review_diff_max_chars := Some 40000, py_max_review_attempts := Some 3, py_isolated := Some True\<rparr>"

definition sdlc_batch_reviewer :: partial_sdlc_policy where
  "sdlc_batch_reviewer = partial_sdlc_policy_default\<lparr>
     py_model_tiers := Some (partial_model_tiers_default\<lparr>pmt_implement := Some Sonnet, pmt_generate := Some Opus,
       pmt_docs := Some Sonnet\<rparr>),
     py_review_mode := Some EndOnly, py_test_depth := Some DepthFast, py_test_dispatch := Some DispatchQueuePark,
     py_review_diff_max_chars := Some 200000, py_max_review_attempts := Some 3, py_isolated := Some True\<rparr>"

definition sdlc_thorough :: partial_sdlc_policy where
  "sdlc_thorough =
     \<lparr>py_output_verbosity = Some Verbose, py_prompt_cache = Some True, py_review_mode = Some PerTask,
      py_review_skip_max_files = Some 2, py_review_skip_max_diff_lines = Some 40, py_test_depth = Some DepthFull,
      py_test_dispatch = Some DispatchQueuePark,
      py_model_tiers = Some \<lparr>pmt_implement = Some Opus, pmt_implement_simple = Some Opus, pmt_review = Some Opus,
        pmt_triage = Some Opus, pmt_generate = Some Opus, pmt_docs = Some Opus,
        pmt_implement_final_attempt = Some (Some Opus)\<rparr>,
      py_timeouts = Some \<lparr>ct_implement = Some 900, ct_triage = Some 900, ct_review = Some 900,
        ct_generate = None, ct_docs = None\<rparr>,
      py_max_turns = Some \<lparr>tc_implement = Some 80, tc_review = Some 80, tc_triage = Some 80,
        tc_generate = None, tc_docs = None\<rparr>,
      py_local = Some \<lparr>plc_endpoint = Some ''http://localhost:11434'', plc_model = Some ''qwen2.5:7b-instruct'',
        plc_constrained_json = Some False\<rparr>,
      py_pi = None, py_llm_triage = Some True, py_max_attempts = Some 5, py_max_review_attempts = Some 5,
      py_retry_feedback = Some \<lparr>prf_enabled = Some True, prf_max_chars = Some 8000\<rparr>,
      py_transport_retry = Some \<lparr>ptr_max_attempts = Some 5, ptr_initial_backoff_ms = Some 200\<rparr>,
      py_review_diff_max_chars = Some 400000, py_node_invocation_payload_cap_bytes = Some 262144,
      py_generate_context_max_bytes = Some None, py_agent_backend = None, py_isolated = Some True\<rparr>"

definition sdlc_profile_by_name :: "string \<Rightarrow> partial_sdlc_policy option" where
  "sdlc_profile_by_name n =
     (if n = ''baseline'' then Some sdlc_baseline
      else if n = ''cheap-fast'' then Some sdlc_cheap_fast
      else if n = ''thorough'' then Some sdlc_thorough
      else if n = ''pragmatist'' then Some sdlc_pragmatist
      else if n = ''batch-reviewer'' then Some sdlc_batch_reviewer else None)"

text \<open>The policy of a run, from the fields of its event that were decoded.\<close>

definition sdlc_policy_for_run ::
  "policy_ext \<Rightarrow> (json \<Rightarrow> partial_sdlc_policy option) \<Rightarrow> policy_config_source \<Rightarrow>
   string option \<Rightarrow> partial_sdlc_policy option \<Rightarrow> policy_error + sdlc_policy" where
  "sdlc_policy_for_run =
     resolve_policy_for_run sdlc_policy_apply sdlc_policy_default ''sdlc'' sdlc_profile_by_name"

subsection \<open>The wire form\<close>

definition enum_of_str :: "('a \<Rightarrow> string) \<Rightarrow> 'a list \<Rightarrow> string \<Rightarrow> 'a option" where
  "enum_of_str f xs s = List.find (\<lambda>x. f x = s) xs"

definition dec_list :: "(json \<Rightarrow> 'a option) \<Rightarrow> json \<Rightarrow> 'a list option" where
  "dec_list d v = Option.bind (as_array v) (\<lambda>xs. those (map d xs))"

definition json_strs :: "string list \<Rightarrow> json" where
  "json_strs ss = JArr (map JStr ss)"

definition json_u32 :: "u32 \<Rightarrow> json" where
  "json_u32 n = json_u64 (ucast n)"

lemma dec_list_back: "(\<And>x. x \<in> set xs \<Longrightarrow> d (f x) = Some x) \<Longrightarrow> dec_list d (JArr (map f xs)) = Some xs"
  by (induction xs) (simp_all add: dec_list_def)

lemma dec_strs [simp]: "dec_list as_str (json_strs ss) = Some ss"
  unfolding json_strs_def by (rule dec_list_back) simp

lemma dec_u32_json [simp]: "dec_u32 (json_u32 n) = Some n"
  unfolding json_u32_def by (rule dec_u32_of)

lemma json_u32_neq [simp]: "json_u32 n \<noteq> JNull"
  by (simp add: json_u32_def)

lemma dec_opt_u32 [simp]: "dec_opt dec_u32 (json_of_opt json_u32 x) = Some x"
  by (rule dec_opt_json_of_opt) simp

lemma dec_opt_u64 [simp]: "dec_opt as_u64 (json_of_opt json_u64 x) = Some x"
  by (rule dec_opt_json_of_opt) simp

fun output_verbosity_str :: "output_verbosity \<Rightarrow> string" where
  "output_verbosity_str Terse = ''terse''"
| "output_verbosity_str Normal = ''normal''"
| "output_verbosity_str Verbose = ''verbose''"

fun model_tier_str :: "model_tier \<Rightarrow> string" where
  "model_tier_str Sonnet = ''sonnet''"
| "model_tier_str Haiku = ''haiku''"
| "model_tier_str Opus = ''opus''"
| "model_tier_str LocalTier = ''local''"

fun agent_backend_str :: "agent_backend \<Rightarrow> string" where
  "agent_backend_str ClaudeCli = ''claude_cli''"
| "agent_backend_str Pi = ''pi''"
| "agent_backend_str Aider = ''aider''"

fun review_mode_str :: "review_mode \<Rightarrow> string" where
  "review_mode_str PerTask = ''per_task''"
| "review_mode_str TrivialSkip = ''trivial_skip''"
| "review_mode_str EndOnly = ''end_only''"

fun test_depth_str :: "test_depth \<Rightarrow> string" where
  "test_depth_str DepthFull = ''full''"
| "test_depth_str DepthFast = ''fast''"

fun test_dispatch_str :: "test_dispatch \<Rightarrow> string" where
  "test_dispatch_str DispatchInline = ''inline''"
| "test_dispatch_str DispatchQueuePark = ''queue_park''"

definition output_verbosity_of_json :: "json \<Rightarrow> output_verbosity option" where
  "output_verbosity_of_json = dec_unit_enum (enum_of_str output_verbosity_str [Terse, Normal, Verbose])"

definition model_tier_of_json :: "json \<Rightarrow> model_tier option" where
  "model_tier_of_json = dec_unit_enum (enum_of_str model_tier_str [Sonnet, Haiku, Opus, LocalTier])"

definition agent_backend_of_json :: "json \<Rightarrow> agent_backend option" where
  "agent_backend_of_json = dec_unit_enum (enum_of_str agent_backend_str [ClaudeCli, Pi, Aider])"

definition review_mode_of_json :: "json \<Rightarrow> review_mode option" where
  "review_mode_of_json = dec_unit_enum (enum_of_str review_mode_str [PerTask, TrivialSkip, EndOnly])"

definition test_depth_of_json :: "json \<Rightarrow> test_depth option" where
  "test_depth_of_json = dec_unit_enum (enum_of_str test_depth_str [DepthFull, DepthFast])"

definition test_dispatch_of_json :: "json \<Rightarrow> test_dispatch option" where
  "test_dispatch_of_json = dec_unit_enum (enum_of_str test_dispatch_str [DispatchInline, DispatchQueuePark])"

lemma enum_back [simp]:
  "output_verbosity_of_json (JStr (output_verbosity_str v)) = Some v"
  "model_tier_of_json (JStr (model_tier_str m)) = Some m"
  "agent_backend_of_json (JStr (agent_backend_str b)) = Some b"
  "review_mode_of_json (JStr (review_mode_str r)) = Some r"
  "test_depth_of_json (JStr (test_depth_str d)) = Some d"
  "test_dispatch_of_json (JStr (test_dispatch_str s)) = Some s"
proof -
  show "output_verbosity_of_json (JStr (output_verbosity_str v)) = Some v" by (cases v) (simp_all add: output_verbosity_of_json_def enum_of_str_def)
  show "model_tier_of_json (JStr (model_tier_str m)) = Some m" by (cases m) (simp_all add: model_tier_of_json_def enum_of_str_def)
  show "agent_backend_of_json (JStr (agent_backend_str b)) = Some b" by (cases b) (simp_all add: agent_backend_of_json_def enum_of_str_def)
  show "review_mode_of_json (JStr (review_mode_str r)) = Some r" by (cases r) (simp_all add: review_mode_of_json_def enum_of_str_def)
  show "test_depth_of_json (JStr (test_depth_str d)) = Some d" by (cases d) (simp_all add: test_depth_of_json_def enum_of_str_def)
  show "test_dispatch_of_json (JStr (test_dispatch_str s)) = Some s" by (cases s) (simp_all add: test_dispatch_of_json_def enum_of_str_def)
qed

definition json_tier :: "model_tier \<Rightarrow> json" where
  "json_tier m = JStr (model_tier_str m)"

lemma tier_back [simp]: "model_tier_of_json (json_tier m) = Some m" "json_tier m \<noteq> JNull"
  by (simp_all add: json_tier_def)

lemma dec_opt_tier [simp]: "dec_opt model_tier_of_json (json_of_opt json_tier x) = Some x"
  by (rule dec_opt_json_of_opt) simp

definition model_tiers_to_json :: "model_tiers \<Rightarrow> json" where
  "model_tiers_to_json r = JObj
     [(''implement'', json_tier (mt_implement r)),
      (''implement_simple'', json_tier (mt_implement_simple r)),
      (''review'', json_tier (mt_review r)),
      (''triage'', json_tier (mt_triage r)),
      (''generate'', json_tier (mt_generate r)),
      (''docs'', json_tier (mt_docs r)),
      (''implement_final_attempt'', json_of_opt json_tier (mt_implement_final_attempt r))]"

definition model_tiers_of_json :: "json \<Rightarrow> model_tiers option" where
  "model_tiers_of_json v = do {
     a0 \<leftarrow> field_req model_tier_of_json v ''implement'';
     a1 \<leftarrow> field_req model_tier_of_json v ''implement_simple'';
     a2 \<leftarrow> field_req model_tier_of_json v ''review'';
     a3 \<leftarrow> field_req model_tier_of_json v ''triage'';
     a4 \<leftarrow> field_req model_tier_of_json v ''generate'';
     a5 \<leftarrow> field_req model_tier_of_json v ''docs'';
     a6 \<leftarrow> field_opt model_tier_of_json v ''implement_final_attempt'';
     Some \<lparr>mt_implement = a0, mt_implement_simple = a1, mt_review = a2, mt_triage = a3,
       mt_generate = a4, mt_docs = a5, mt_implement_final_attempt = a6\<rparr>
   }"

lemma model_tiers_back [simp]: "model_tiers_of_json (model_tiers_to_json r) = Some r"
  by (simp add: model_tiers_of_json_def model_tiers_to_json_def field_req_def field_default_def)

definition call_timeouts_to_json :: "call_timeouts \<Rightarrow> json" where
  "call_timeouts_to_json r = JObj
     [(''implement'', json_of_opt json_u64 (ct_implement r)),
      (''triage'', json_of_opt json_u64 (ct_triage r)),
      (''review'', json_of_opt json_u64 (ct_review r)),
      (''generate'', json_of_opt json_u64 (ct_generate r)),
      (''docs'', json_of_opt json_u64 (ct_docs r))]"

definition call_timeouts_of_json :: "json \<Rightarrow> call_timeouts option" where
  "call_timeouts_of_json v = do {
     a0 \<leftarrow> field_opt as_u64 v ''implement'';
     a1 \<leftarrow> field_opt as_u64 v ''triage'';
     a2 \<leftarrow> field_opt as_u64 v ''review'';
     a3 \<leftarrow> field_opt as_u64 v ''generate'';
     a4 \<leftarrow> field_opt as_u64 v ''docs'';
     Some \<lparr>ct_implement = a0, ct_triage = a1, ct_review = a2, ct_generate = a3, ct_docs = a4\<rparr>
   }"

lemma call_timeouts_back [simp]: "call_timeouts_of_json (call_timeouts_to_json r) = Some r"
  by (simp add: call_timeouts_of_json_def call_timeouts_to_json_def field_req_def field_default_def)

definition stage_turn_ceilings_to_json :: "stage_turn_ceilings \<Rightarrow> json" where
  "stage_turn_ceilings_to_json r = JObj
     [(''implement'', json_of_opt json_u32 (tc_implement r)),
      (''review'', json_of_opt json_u32 (tc_review r)),
      (''triage'', json_of_opt json_u32 (tc_triage r)),
      (''generate'', json_of_opt json_u32 (tc_generate r)),
      (''docs'', json_of_opt json_u32 (tc_docs r))]"

definition stage_turn_ceilings_of_json :: "json \<Rightarrow> stage_turn_ceilings option" where
  "stage_turn_ceilings_of_json v = do {
     a0 \<leftarrow> field_opt dec_u32 v ''implement'';
     a1 \<leftarrow> field_opt dec_u32 v ''review'';
     a2 \<leftarrow> field_opt dec_u32 v ''triage'';
     a3 \<leftarrow> field_opt dec_u32 v ''generate'';
     a4 \<leftarrow> field_opt dec_u32 v ''docs'';
     Some \<lparr>tc_implement = a0, tc_review = a1, tc_triage = a2, tc_generate = a3, tc_docs = a4\<rparr>
   }"

lemma stage_turn_ceilings_back [simp]: "stage_turn_ceilings_of_json (stage_turn_ceilings_to_json r) = Some r"
  by (simp add: stage_turn_ceilings_of_json_def stage_turn_ceilings_to_json_def field_req_def field_default_def)

definition retry_feedback_to_json :: "retry_feedback \<Rightarrow> json" where
  "retry_feedback_to_json r = JObj
     [(''enabled'', JBool (rf_enabled r)),
      (''max_chars'', json_u32 (rf_max_chars r))]"

definition retry_feedback_of_json :: "json \<Rightarrow> retry_feedback option" where
  "retry_feedback_of_json v = do {
     a0 \<leftarrow> field_req as_bool v ''enabled'';
     a1 \<leftarrow> field_req dec_u32 v ''max_chars'';
     Some \<lparr>rf_enabled = a0, rf_max_chars = a1\<rparr>
   }"

lemma retry_feedback_back [simp]: "retry_feedback_of_json (retry_feedback_to_json r) = Some r"
  by (simp add: retry_feedback_of_json_def retry_feedback_to_json_def field_req_def field_default_def)

definition transport_retry_to_json :: "transport_retry \<Rightarrow> json" where
  "transport_retry_to_json r = JObj
     [(''max_attempts'', json_u32 (tr_max_attempts r)),
      (''initial_backoff_ms'', json_u64 (tr_initial_backoff_ms r))]"

definition transport_retry_of_json :: "json \<Rightarrow> transport_retry option" where
  "transport_retry_of_json v = do {
     a0 \<leftarrow> field_req dec_u32 v ''max_attempts'';
     a1 \<leftarrow> field_req as_u64 v ''initial_backoff_ms'';
     Some \<lparr>tr_max_attempts = a0, tr_initial_backoff_ms = a1\<rparr>
   }"

lemma transport_retry_back [simp]: "transport_retry_of_json (transport_retry_to_json r) = Some r"
  by (simp add: transport_retry_of_json_def transport_retry_to_json_def field_req_def field_default_def)

definition local_config_to_json :: "local_config \<Rightarrow> json" where
  "local_config_to_json r = JObj
     [(''endpoint'', JStr (lc_endpoint r)),
      (''model'', JStr (lc_model r)),
      (''constrained_json'', JBool (lc_constrained_json r))]"

definition local_config_of_json :: "json \<Rightarrow> local_config option" where
  "local_config_of_json v = do {
     a0 \<leftarrow> field_req as_str v ''endpoint'';
     a1 \<leftarrow> field_req as_str v ''model'';
     a2 \<leftarrow> field_req as_bool v ''constrained_json'';
     Some \<lparr>lc_endpoint = a0, lc_model = a1, lc_constrained_json = a2\<rparr>
   }"

lemma local_config_back [simp]: "local_config_of_json (local_config_to_json r) = Some r"
  by (simp add: local_config_of_json_def local_config_to_json_def field_req_def field_default_def)

definition pi_config_to_json :: "pi_config \<Rightarrow> json" where
  "pi_config_to_json r = JObj
     [(''no_context_files'', JBool (pi_no_context_files r)),
      (''no_session'', JBool (pi_no_session r)),
      (''tools'', json_strs (pi_tools r))]"

definition pi_config_of_json :: "json \<Rightarrow> pi_config option" where
  "pi_config_of_json v = do {
     a0 \<leftarrow> field_req as_bool v ''no_context_files'';
     a1 \<leftarrow> field_req as_bool v ''no_session'';
     a2 \<leftarrow> field_req (dec_list as_str) v ''tools'';
     Some \<lparr>pi_no_context_files = a0, pi_no_session = a1, pi_tools = a2\<rparr>
   }"

lemma pi_config_back [simp]: "pi_config_of_json (pi_config_to_json r) = Some r"
  by (simp add: pi_config_of_json_def pi_config_to_json_def field_req_def field_default_def)

definition sdlc_policy_to_json :: "sdlc_policy \<Rightarrow> json" where
  "sdlc_policy_to_json r = JObj
     [(''output_verbosity'', JStr (output_verbosity_str (sy_output_verbosity r))),
      (''prompt_cache'', JBool (sy_prompt_cache r)),
      (''review_mode'', JStr (review_mode_str (sy_review_mode r))),
      (''review_skip_max_files'', json_u32 (sy_review_skip_max_files r)),
      (''review_skip_max_diff_lines'', json_u32 (sy_review_skip_max_diff_lines r)),
      (''test_depth'', JStr (test_depth_str (sy_test_depth r))),
      (''test_dispatch'', JStr (test_dispatch_str (sy_test_dispatch r))),
      (''model_tiers'', model_tiers_to_json (sy_model_tiers r)),
      (''timeouts'', call_timeouts_to_json (sy_timeouts r)),
      (''max_turns'', stage_turn_ceilings_to_json (sy_max_turns r)),
      (''local'', local_config_to_json (sy_local r)),
      (''pi'', pi_config_to_json (sy_pi r)),
      (''llm_triage'', JBool (sy_llm_triage r)),
      (''max_attempts'', json_u32 (sy_max_attempts r)),
      (''max_review_attempts'', json_u32 (sy_max_review_attempts r)),
      (''retry_feedback'', retry_feedback_to_json (sy_retry_feedback r)),
      (''transport_retry'', transport_retry_to_json (sy_transport_retry r)),
      (''review_diff_max_chars'', json_u32 (sy_review_diff_max_chars r)),
      (''node_invocation_payload_cap_bytes'', json_u64 (sy_node_invocation_payload_cap_bytes r)),
      (''generate_context_max_bytes'', json_of_opt json_u64 (sy_generate_context_max_bytes r)),
      (''agent_backend'', JStr (agent_backend_str (sy_agent_backend r))),
      (''isolated'', JBool (sy_isolated r))]"

definition sdlc_policy_of_json :: "json \<Rightarrow> sdlc_policy option" where
  "sdlc_policy_of_json v = do {
     a0 \<leftarrow> field_req output_verbosity_of_json v ''output_verbosity'';
     a1 \<leftarrow> field_req as_bool v ''prompt_cache'';
     a2 \<leftarrow> field_req review_mode_of_json v ''review_mode'';
     a3 \<leftarrow> field_req dec_u32 v ''review_skip_max_files'';
     a4 \<leftarrow> field_req dec_u32 v ''review_skip_max_diff_lines'';
     a5 \<leftarrow> field_req test_depth_of_json v ''test_depth'';
     a6 \<leftarrow> field_default test_dispatch_of_json DispatchInline v ''test_dispatch'';
     a7 \<leftarrow> field_req model_tiers_of_json v ''model_tiers'';
     a8 \<leftarrow> field_req call_timeouts_of_json v ''timeouts'';
     a9 \<leftarrow> field_req stage_turn_ceilings_of_json v ''max_turns'';
     a10 \<leftarrow> field_req local_config_of_json v ''local'';
     a11 \<leftarrow> field_req pi_config_of_json v ''pi'';
     a12 \<leftarrow> field_req as_bool v ''llm_triage'';
     a13 \<leftarrow> field_req dec_u32 v ''max_attempts'';
     a14 \<leftarrow> field_req dec_u32 v ''max_review_attempts'';
     a15 \<leftarrow> field_req retry_feedback_of_json v ''retry_feedback'';
     a16 \<leftarrow> field_req transport_retry_of_json v ''transport_retry'';
     a17 \<leftarrow> field_req dec_u32 v ''review_diff_max_chars'';
     a18 \<leftarrow> field_req as_u64 v ''node_invocation_payload_cap_bytes'';
     a19 \<leftarrow> field_opt as_u64 v ''generate_context_max_bytes'';
     a20 \<leftarrow> field_req agent_backend_of_json v ''agent_backend'';
     a21 \<leftarrow> field_req as_bool v ''isolated'';
     Some \<lparr>sy_output_verbosity = a0, sy_prompt_cache = a1, sy_review_mode = a2,
       sy_review_skip_max_files = a3, sy_review_skip_max_diff_lines = a4, sy_test_depth = a5,
       sy_test_dispatch = a6, sy_model_tiers = a7, sy_timeouts = a8, sy_max_turns = a9,
       sy_local = a10, sy_pi = a11, sy_llm_triage = a12, sy_max_attempts = a13,
       sy_max_review_attempts = a14, sy_retry_feedback = a15, sy_transport_retry = a16,
       sy_review_diff_max_chars = a17, sy_node_invocation_payload_cap_bytes = a18,
       sy_generate_context_max_bytes = a19, sy_agent_backend = a20, sy_isolated = a21\<rparr>
   }"

lemma sdlc_policy_back [simp]: "sdlc_policy_of_json (sdlc_policy_to_json r) = Some r"
  by (simp add: sdlc_policy_of_json_def sdlc_policy_to_json_def field_req_def field_default_def)

lemma sdlc_policy_not_null [simp]: "sdlc_policy_to_json p \<noteq> JNull" "sdlc_policy_of_json JNull = None"
  by (simp_all add: sdlc_policy_to_json_def sdlc_policy_of_json_def field_req_def)

definition resolved_policy :: "task_context \<Rightarrow> policy_error + sdlc_policy" where
  "resolved_policy ctx = resolved_policy_strict sdlc_policy_of_json ctx"

datatype stage = StImplement | StTriage | StReview | StGenerate | StDocs

definition stage_model_tier :: "sdlc_policy \<Rightarrow> stage \<Rightarrow> model_tier" where
  "stage_model_tier p st =
     (case st of StImplement \<Rightarrow> mt_implement (sy_model_tiers p) | StTriage \<Rightarrow> mt_triage (sy_model_tiers p)
      | StReview \<Rightarrow> mt_review (sy_model_tiers p) | StGenerate \<Rightarrow> mt_generate (sy_model_tiers p)
      | StDocs \<Rightarrow> mt_docs (sy_model_tiers p))"

definition stage_call_timeout :: "sdlc_policy \<Rightarrow> stage \<Rightarrow> u64 option" where
  "stage_call_timeout p st =
     (case st of StImplement \<Rightarrow> ct_implement (sy_timeouts p) | StTriage \<Rightarrow> ct_triage (sy_timeouts p)
      | StReview \<Rightarrow> ct_review (sy_timeouts p) | StGenerate \<Rightarrow> ct_generate (sy_timeouts p)
      | StDocs \<Rightarrow> ct_docs (sy_timeouts p))"

definition stage_turn_ceiling :: "sdlc_policy \<Rightarrow> stage \<Rightarrow> u32 option" where
  "stage_turn_ceiling p st =
     (case st of StImplement \<Rightarrow> tc_implement (sy_max_turns p) | StTriage \<Rightarrow> tc_triage (sy_max_turns p)
      | StReview \<Rightarrow> tc_review (sy_max_turns p) | StGenerate \<Rightarrow> tc_generate (sy_max_turns p)
      | StDocs \<Rightarrow> tc_docs (sy_max_turns p))"

subsection \<open>Laws\<close>

text \<open>
  The profile \<open>baseline\<close> changes nothing on the built-in policy, and each profile leaves every call
  isolated.
\<close>

lemma baseline_is_neutral: "sdlc_policy_apply sdlc_policy_default sdlc_baseline = sdlc_policy_default"
  by (simp add: sdlc_apply_simps sdlc_baseline_def sdlc_policy_default_def partial_sdlc_policy_default_def
      merge_model_tiers_def model_tiers_default_def)

lemma profiles_isolate:
  "sdlc_profile_by_name n = Some p \<Longrightarrow> sy_isolated (sdlc_policy_apply base p)"
  by (auto simp: sdlc_profile_by_name_def sdlc_apply_simps sdlc_baseline_def sdlc_cheap_fast_def sdlc_thorough_def
      sdlc_pragmatist_def sdlc_batch_reviewer_def split: if_splits)

end
