(* ===== verification/SdlcSchema.thy ===== *)
theory SdlcSchema
  imports SdlcPolicy Telemetry
begin

text \<open>
  The durable state of an SDLC run (\<open>workflows/sdlc_flow/schema.rs\<close>): tasks, telemetry and outcomes with
  their derived wire forms, the committed file that a run leaves in its worktree and reads back on a
  resume, and what is derived from the two (status, current task, bail reason, staleness).

  The build stamp of the writing binary is an argument.
\<close>

subsection \<open>Wire helpers\<close>

definition parse_u32 :: "string \<Rightarrow> u32 option" where
  "parse_u32 s =
     (let d = (case s of c # cs \<Rightarrow> if c = CHR ''+'' then cs else s | [] \<Rightarrow> [])
      in if d \<noteq> [] \<and> list_all is_digit d \<and> undecimal d 0 < 2 ^ 32 then Some (of_nat (undecimal d 0))
         else None)"

lemma parse_u32_decimal [simp]: "parse_u32 (decimal (unat (w :: u32))) = Some w"
proof -
  have "unat w < 2 ^ 32" using unsigned_less [of w, where 'a = nat] by simp
  moreover have "(case decimal (unat w) of c # cs \<Rightarrow> if c = CHR ''+'' then cs else decimal (unat w) | [] \<Rightarrow> [])
      = decimal (unat w)"
    using decimal_digits(1) [of "unat w"] decimal_digits(2) [of "unat w"] by (cases "decimal (unat w)") auto
  ultimately show ?thesis by (simp add: parse_u32_def Let_def)
qed

text \<open>\<open>{:?}\<close> of a text: the quotes and the escapes of ASCII; letters beyond ASCII stand as they are.\<close>

definition hex_digit :: "nat \<Rightarrow> char" where
  "hex_digit n = ''0123456789abcdef'' ! (n mod 16)"

definition debug_char :: "char \<Rightarrow> string" where
  "debug_char c =
     (if c = CHR 0x22 then [CHR 0x5C, CHR 0x22] else if c = CHR 0x5C then [CHR 0x5C, CHR 0x5C]
      else if c = CHR 0x0A then CHR 0x5C # ''n'' else if c = CHR 0x0D then CHR 0x5C # ''r''
      else if c = CHR 0x09 then CHR 0x5C # ''t'' else if c = CHR 0x00 then CHR 0x5C # ''0''
      else if of_char c < (0x20 :: nat) \<or> c = CHR 0x7F then
        CHR 0x5C # ''u{'' @ (if of_char c < (16 :: nat) then [] else [hex_digit (of_char c div 16)]) @
          [hex_digit (of_char c)] @ ''}''
      else [c])"

definition debug_str :: "string \<Rightarrow> string" where
  "debug_str s = CHR 0x22 # concat (map debug_char s) @ [CHR 0x22]"

subsection \<open>Tasks\<close>

datatype sdlc_task_status = TaskPending | TaskInProgress | TaskDone | TaskFailed | TaskSkipped

fun sdlc_task_status_str :: "sdlc_task_status \<Rightarrow> string" where
  "sdlc_task_status_str TaskPending = ''pending''"
| "sdlc_task_status_str TaskInProgress = ''in_progress''"
| "sdlc_task_status_str TaskDone = ''done''"
| "sdlc_task_status_str TaskFailed = ''failed''"
| "sdlc_task_status_str TaskSkipped = ''skipped''"

definition sdlc_task_status_of_str :: "string \<Rightarrow> sdlc_task_status option" where
  "sdlc_task_status_of_str s = List.find (\<lambda>st. sdlc_task_status_str st = s)
     [TaskPending, TaskInProgress, TaskDone, TaskFailed, TaskSkipped]"

record sdlc_task =
  tk_task_id :: u32
  tk_title :: string
  tk_description :: string
  tk_acceptance_criteria :: "string list"
  tk_status :: sdlc_task_status
  tk_validation_commands :: "string list"
  tk_attempt_count :: u32
  tk_max_attempts :: u32
  tk_review_attempt_count :: u32
  tk_expects_writes :: bool
  tk_files :: "string list"

definition default_max_attempts :: u32 where "default_max_attempts = 3"

definition default_expects_writes :: bool where "default_expects_writes = True"

definition sdlc_task_new :: "u32 \<Rightarrow> string \<Rightarrow> string \<Rightarrow> sdlc_task" where
  "sdlc_task_new i title descr = \<lparr>tk_task_id = i, tk_title = title, tk_description = descr,
     tk_acceptance_criteria = [], tk_status = TaskPending, tk_validation_commands = [], tk_attempt_count = 0,
     tk_max_attempts = default_max_attempts, tk_review_attempt_count = 0,
     tk_expects_writes = default_expects_writes, tk_files = []\<rparr>"

definition sdlc_task_to_json :: "sdlc_task \<Rightarrow> json" where
  "sdlc_task_to_json t = JObj
     [(''task_id'', json_u32 (tk_task_id t)), (''title'', JStr (tk_title t)),
      (''description'', JStr (tk_description t)),
      (''acceptance_criteria'', json_strs (tk_acceptance_criteria t)),
      (''status'', JStr (sdlc_task_status_str (tk_status t))),
      (''validation_commands'', json_strs (tk_validation_commands t)),
      (''attempt_count'', json_u32 (tk_attempt_count t)), (''max_attempts'', json_u32 (tk_max_attempts t)),
      (''review_attempt_count'', json_u32 (tk_review_attempt_count t)),
      (''expects_writes'', JBool (tk_expects_writes t)), (''files'', json_strs (tk_files t))]"

definition sdlc_task_of_json :: "json \<Rightarrow> sdlc_task option" where
  "sdlc_task_of_json v = do {
     i \<leftarrow> field_req dec_u32 v ''task_id'';
     title \<leftarrow> field_req as_str v ''title'';
     descr \<leftarrow> field_req as_str v ''description'';
     acc \<leftarrow> field_default (dec_list as_str) [] v ''acceptance_criteria'';
     st \<leftarrow> field_default (dec_unit_enum sdlc_task_status_of_str) TaskPending v ''status'';
     val \<leftarrow> field_default (dec_list as_str) [] v ''validation_commands'';
     att \<leftarrow> field_default dec_u32 0 v ''attempt_count'';
     mx \<leftarrow> field_default dec_u32 default_max_attempts v ''max_attempts'';
     rev \<leftarrow> field_default dec_u32 0 v ''review_attempt_count'';
     wr \<leftarrow> field_default as_bool default_expects_writes v ''expects_writes'';
     fs \<leftarrow> field_default (dec_list as_str) [] v ''files'';
     Some \<lparr>tk_task_id = i, tk_title = title, tk_description = descr, tk_acceptance_criteria = acc,
       tk_status = st, tk_validation_commands = val, tk_attempt_count = att, tk_max_attempts = mx,
       tk_review_attempt_count = rev, tk_expects_writes = wr, tk_files = fs\<rparr>
   }"

lemma sdlc_task_status_back [simp]: "sdlc_task_status_of_str (sdlc_task_status_str s) = Some s"
  by (cases s) (simp_all add: sdlc_task_status_of_str_def)

lemma sdlc_task_back [simp]: "sdlc_task_of_json (sdlc_task_to_json t) = Some t"
  by (simp add: sdlc_task_of_json_def sdlc_task_to_json_def field_req_def field_default_def)

subsection \<open>Telemetry and outcomes\<close>

record sdlc_telemetry =
  te_total_attempts :: u32
  te_budget_spent :: f64
  te_tasks_passed :: u32
  te_tasks_failed :: u32
  te_review_attempts :: u32

definition sdlc_telemetry_default :: sdlc_telemetry where
  "sdlc_telemetry_default = \<lparr>te_total_attempts = 0, te_budget_spent = f64_zero, te_tasks_passed = 0,
     te_tasks_failed = 0, te_review_attempts = 0\<rparr>"

definition sdlc_telemetry_to_json :: "sdlc_telemetry \<Rightarrow> json" where
  "sdlc_telemetry_to_json t = JObj
     [(''total_attempts'', json_u32 (te_total_attempts t)), (''budget_spent'', json_of_f64 (te_budget_spent t)),
      (''tasks_passed'', json_u32 (te_tasks_passed t)), (''tasks_failed'', json_u32 (te_tasks_failed t)),
      (''review_attempts'', json_u32 (te_review_attempts t))]"

definition sdlc_telemetry_of_json :: "json \<Rightarrow> sdlc_telemetry option" where
  "sdlc_telemetry_of_json v = do {
     _ \<leftarrow> as_object v;
     att \<leftarrow> field_default dec_u32 0 v ''total_attempts'';
     bud \<leftarrow> field_default as_f64 f64_zero v ''budget_spent'';
     ps \<leftarrow> field_default dec_u32 0 v ''tasks_passed'';
     fl \<leftarrow> field_default dec_u32 0 v ''tasks_failed'';
     rev \<leftarrow> field_default dec_u32 0 v ''review_attempts'';
     Some \<lparr>te_total_attempts = att, te_budget_spent = bud, te_tasks_passed = ps, te_tasks_failed = fl,
       te_review_attempts = rev\<rparr>
   }"

lemma sdlc_telemetry_back:
  "sdlc_telemetry_of_json (sdlc_telemetry_to_json t) = (if f64_is_finite (te_budget_spent t) then Some t else None)"
  by (simp add: sdlc_telemetry_of_json_def sdlc_telemetry_to_json_def field_default_def json_of_f64_def
      del: dec_u32.simps)

text \<open>\<open>RunOutcomes\<close> has the fields and the wire form of \<open>RunTelemetry\<close>; the conversions copy.\<close>

type_synonym run_outcomes = run_telemetry

definition run_outcomes_of_json :: "json \<Rightarrow> run_outcomes option" where
  "run_outcomes_of_json v = do {
     _ \<leftarrow> as_object v;
     wall \<leftarrow> field_default as_f64 f64_zero v ''wall_clock_secs'';
     att \<leftarrow> field_default dec_u32 0 v ''total_attempts'';
     ret \<leftarrow> field_default dec_u32 0 v ''total_retries'';
     ps \<leftarrow> field_default dec_u32 0 v ''tasks_passed'';
     fl \<leftarrow> field_default dec_u32 0 v ''tasks_failed'';
     vs \<leftarrow> field_default (dec_list as_str) [] v ''review_verdicts'';
     i \<leftarrow> field_default as_u64 0 v ''total_input_tokens'';
     out \<leftarrow> field_default as_u64 0 v ''total_output_tokens'';
     cost \<leftarrow> field_default as_f64 f64_zero v ''total_cost_usd'';
     rd \<leftarrow> field_default as_u64 0 v ''total_cache_read_tokens'';
     cr \<leftarrow> field_default as_u64 0 v ''total_cache_creation_tokens'';
     unk \<leftarrow> field_default dec_u32 0 v ''unknown_cost_invocations'';
     tiers \<leftarrow> field_default (dec_hmap as_str) [] v ''model_tier_used'';
     backs \<leftarrow> field_default (dec_hmap as_str) [] v ''backend_used'';
     Some \<lparr>rt_wall_clock_secs = wall, rt_total_attempts = att, rt_total_retries = ret, rt_tasks_passed = ps,
       rt_tasks_failed = fl, rt_review_verdicts = vs, rt_total_input_tokens = i, rt_total_output_tokens = out,
       rt_total_cost_usd = cost, rt_total_cache_read_tokens = rd, rt_total_cache_creation_tokens = cr,
       rt_unknown_cost_invocations = unk, rt_model_tier_used = tiers, rt_backend_used = backs\<rparr>
   }"

definition outcomes_finite :: "run_outcomes \<Rightarrow> bool" where
  "outcomes_finite r \<longleftrightarrow> f64_is_finite (rt_wall_clock_secs r) \<and> f64_is_finite (rt_total_cost_usd r)"

lemma dec_hmap_back: "dec_hmap as_str (json_of_map m) = Some m"
proof -
  have "dec_entries as_str (map (\<lambda>(k, v). (k, JStr v)) m) = Some m" by (induction m) auto
  then show ?thesis by (simp add: dec_hmap_def json_of_map_def)
qed

lemma run_outcomes_back:
  "run_outcomes_of_json (run_telemetry_to_json r) = (if outcomes_finite r then Some r else None)"
  using dec_list_back [of "rt_review_verdicts r" as_str JStr]
  by (simp add: run_outcomes_of_json_def run_telemetry_to_json_def field_default_def json_of_f64_def
      outcomes_finite_def dec_hmap_back del: dec_u32.simps)

subsection \<open>The state\<close>

record sdlc_state =
  ss_spec_slug :: string
  ss_phase_id :: "string option"
  ss_block_id :: "string option"
  ss_global_status :: string
  ss_tasks :: "sdlc_task list"
  ss_telemetry :: sdlc_telemetry
  ss_policy :: "sdlc_policy option"
  ss_outcomes :: "run_outcomes option"
  ss_branch :: "string option"
  ss_worktree_path :: "string option"
  ss_started_at :: "string option"
  ss_updated_at :: "string option"
  ss_bail_reason :: "string option"
  ss_run_id :: "string option"
  ss_claude_sessions :: "claude_session list"

definition default_global_status :: string where
  "default_global_status = sdlc_task_status_str TaskPending"

definition sdlc_state_new :: "string \<Rightarrow> sdlc_state" where
  "sdlc_state_new slug = \<lparr>ss_spec_slug = slug, ss_phase_id = None, ss_block_id = None,
     ss_global_status = default_global_status, ss_tasks = [], ss_telemetry = sdlc_telemetry_default,
     ss_policy = None, ss_outcomes = None, ss_branch = None, ss_worktree_path = None, ss_started_at = None,
     ss_updated_at = None, ss_bail_reason = None, ss_run_id = None, ss_claude_sessions = []\<rparr>"

definition sdlc_state_to_json :: "sdlc_state \<Rightarrow> json" where
  "sdlc_state_to_json s = JObj
     [(''spec_slug'', JStr (ss_spec_slug s)), (''phase_id'', json_of_opt JStr (ss_phase_id s)),
      (''block_id'', json_of_opt JStr (ss_block_id s)), (''global_status'', JStr (ss_global_status s)),
      (''tasks'', JArr (map sdlc_task_to_json (ss_tasks s))),
      (''telemetry'', sdlc_telemetry_to_json (ss_telemetry s)),
      (''policy'', json_of_opt (sdlc_policy_to_json) (ss_policy s)),
      (''outcomes'', json_of_opt run_telemetry_to_json (ss_outcomes s)),
      (''branch'', json_of_opt JStr (ss_branch s)), (''worktree_path'', json_of_opt JStr (ss_worktree_path s)),
      (''started_at'', json_of_opt JStr (ss_started_at s)), (''updated_at'', json_of_opt JStr (ss_updated_at s)),
      (''bail_reason'', json_of_opt JStr (ss_bail_reason s)), (''run_id'', json_of_opt JStr (ss_run_id s)),
      (''claude_sessions'', JArr (map claude_session_to_json (ss_claude_sessions s)))]"

definition sdlc_state_of_json :: "json \<Rightarrow> sdlc_state option" where
  "sdlc_state_of_json v = do {
     slug \<leftarrow> field_req as_str v ''spec_slug'';
     phase \<leftarrow> field_opt as_str v ''phase_id'';
     block \<leftarrow> field_opt as_str v ''block_id'';
     st \<leftarrow> field_default as_str default_global_status v ''global_status'';
     ts \<leftarrow> field_default (dec_list sdlc_task_of_json) [] v ''tasks'';
     te \<leftarrow> field_default sdlc_telemetry_of_json sdlc_telemetry_default v ''telemetry'';
     pol \<leftarrow> field_opt (sdlc_policy_of_json) v ''policy'';
     outc \<leftarrow> field_opt run_outcomes_of_json v ''outcomes'';
     br \<leftarrow> field_opt as_str v ''branch'';
     wt \<leftarrow> field_opt as_str v ''worktree_path'';
     sa \<leftarrow> field_opt as_str v ''started_at'';
     ua \<leftarrow> field_opt as_str v ''updated_at'';
     bail \<leftarrow> field_opt as_str v ''bail_reason'';
     run \<leftarrow> field_opt as_str v ''run_id'';
     ses \<leftarrow> field_default (dec_list claude_session_of_json) [] v ''claude_sessions'';
     Some \<lparr>ss_spec_slug = slug, ss_phase_id = phase, ss_block_id = block, ss_global_status = st,
       ss_tasks = ts, ss_telemetry = te, ss_policy = pol, ss_outcomes = outc, ss_branch = br,
       ss_worktree_path = wt, ss_started_at = sa, ss_updated_at = ua, ss_bail_reason = bail,
       ss_run_id = run, ss_claude_sessions = ses\<rparr>
   }"

text \<open>The numbers JSON can carry.\<close>

definition state_finite :: "sdlc_state \<Rightarrow> bool" where
  "state_finite s \<longleftrightarrow> f64_is_finite (te_budget_spent (ss_telemetry s)) \<and>
     (case ss_outcomes s of Some r \<Rightarrow> outcomes_finite r | None \<Rightarrow> True) \<and>
     list_all (\<lambda>c. f64_is_finite (cs_cost_usd c)) (ss_claude_sessions s)"

lemma dec_tasks [simp]: "dec_list sdlc_task_of_json (JArr (map sdlc_task_to_json ts)) = Some ts"
  by (rule dec_list_back) simp

lemma those_None: "None \<in> set xs \<Longrightarrow> those xs = None"
  by (induction xs) (auto split: option.split)

lemma dec_sessions:
  "dec_list claude_session_of_json (JArr (map claude_session_to_json cs)) =
     (if list_all (\<lambda>c. f64_is_finite (cs_cost_usd c)) cs then Some cs else None)"
proof (cases "list_all (\<lambda>c. f64_is_finite (cs_cost_usd c)) cs")
  case True
  then show ?thesis by (simp add: dec_list_back claude_session_round_trip list_all_iff)
next
  case False
  then obtain c where "c \<in> set cs" "\<not> f64_is_finite (cs_cost_usd c)" by (auto simp: list_all_iff)
  then have "None \<in> set (map claude_session_of_json (map claude_session_to_json cs))"
    by (force simp: claude_session_nonfinite)
  from those_None [OF this] False show ?thesis by (simp add: dec_list_def)
qed

lemma dec_policy_opt: "dec_opt (sdlc_policy_of_json) (json_of_opt (sdlc_policy_to_json) p) = Some p"
  by (rule dec_opt_json_of_opt) simp

lemma run_telemetry_to_json_object [simp]: "run_telemetry_to_json r \<noteq> JNull"
  by (simp add: run_telemetry_to_json_def)

lemma dec_outcomes_opt:
  "dec_opt run_outcomes_of_json (json_of_opt run_telemetry_to_json p) =
     (if (case p of Some r \<Rightarrow> outcomes_finite r | None \<Rightarrow> True) then Some p else None)"
  by (cases p) (simp_all add: dec_opt_def json_of_opt_def run_outcomes_back)

lemma sdlc_state_back:
  "sdlc_state_of_json (sdlc_state_to_json s) = (if state_finite s then Some s else None)"
  by (simp add: sdlc_state_of_json_def sdlc_state_to_json_def field_req_def field_default_def
      sdlc_telemetry_back dec_sessions dec_policy_opt dec_outcomes_opt state_finite_def)

subsection \<open>What ended a run\<close>

datatype terminal_signal =
    MajorBail string
  | ReviewFail string
  | StructuralFail string
  | FinalValidationFailed string
  | EndReviewFail string
  | ReviewExhausted string
  | ReconcileFailed string

fun terminal_message :: "terminal_signal \<Rightarrow> string" where
  "terminal_message (MajorBail m) = m"
| "terminal_message (ReviewFail m) = m"
| "terminal_message (StructuralFail m) = m"
| "terminal_message (FinalValidationFailed m) = m"
| "terminal_message (EndReviewFail m) = m"
| "terminal_message (ReviewExhausted m) = m"
| "terminal_message (ReconcileFailed m) = m"

definition task_settled :: "sdlc_task \<Rightarrow> bool" where
  "task_settled t \<longleftrightarrow> tk_status t \<in> {TaskDone, TaskSkipped}"

definition derive_committed_status :: "sdlc_state \<Rightarrow> terminal_signal option \<Rightarrow> string" where
  "derive_committed_status s sig =
     (case sig of
        Some (ReconcileFailed _) \<Rightarrow> ''reconcile_failed''
      | Some (EndReviewFail _) \<Rightarrow> ''criteria_refused''
      | Some _ \<Rightarrow> ''blocked''
      | None \<Rightarrow> if ss_tasks s \<noteq> [] \<and> list_all task_settled (ss_tasks s) then ''done'' else ''running'')"

definition derive_current_task :: "sdlc_task list \<Rightarrow> u32" where
  "derive_current_task ts =
     (case filter (\<lambda>t. \<not> task_settled t) ts of
        t # rest \<Rightarrow> fold min (map tk_task_id rest) (tk_task_id t)
      | [] \<Rightarrow> (case ts of t # rest \<Rightarrow> fold max (map tk_task_id rest) (tk_task_id t) | [] \<Rightarrow> 0))"

definition derive_bail_reason :: "terminal_signal option \<Rightarrow> string option" where
  "derive_bail_reason sig = map_option (\<lambda>sg. case sg of
       FinalValidationFailed m \<Rightarrow> ''Final validation gate FAILED: '' @ m
     | ReviewExhausted m \<Rightarrow> ''Review attempts exhausted: '' @ m
     | other \<Rightarrow> terminal_message other) sig"

subsection \<open>The committed file\<close>

record run_meta =
  rm_branch :: string
  rm_worktree_path :: string
  rm_started_at :: string
  rm_updated_at :: string
  rm_run_id :: "string option"
  rm_claude_sessions :: "claude_session list"

record committed_review =
  cr_verdict :: string
  cr_findings :: "string list"
  cr_attempts :: u32

definition committed_review_to_json :: "committed_review \<Rightarrow> json" where
  "committed_review_to_json r = JObj [(''verdict'', JStr (cr_verdict r)), (''findings'', json_strs (cr_findings r)),
     (''attempts'', json_u32 (cr_attempts r))]"

record committed_docs =
  cd_changed :: "string list"
  cd_created :: "string list"

definition committed_docs_to_json :: "committed_docs \<Rightarrow> json" where
  "committed_docs_to_json d = JObj [(''changed'', json_strs (cd_changed d)), (''created'', json_strs (cd_created d))]"

record committed_pr =
  cp_url :: string
  cp_number :: u64

definition committed_pr_to_json :: "committed_pr \<Rightarrow> json" where
  "committed_pr_to_json p = JObj [(''url'', JStr (cp_url p)), (''number'', json_u64 (cp_number p))]"

text \<open>The check results are the rows \<open>TestTaskNode\<close> writes, as values.\<close>

record committed_final_validation =
  cf_all_passed :: bool
  cf_failure_summary :: string
  cf_check_results :: "json list"

definition committed_final_validation_to_json :: "committed_final_validation \<Rightarrow> json" where
  "committed_final_validation_to_json v = JObj [(''all_passed'', JBool (cf_all_passed v)),
     (''failure_summary'', JStr (cf_failure_summary v)), (''check_results'', JArr (cf_check_results v))]"

record build_stamp =
  bs_git_sha :: string
  bs_built_at :: string
  bs_engine_build_sha :: string
  bs_writer :: string
  bs_hostname :: string
  bs_pid :: u32

definition tasks_object :: "sdlc_task list \<Rightarrow> (string \<times> json) list" where
  "tasks_object ts = foldl (\<lambda>m t. AList.update (decimal (unat (tk_task_id t))) (sdlc_task_to_json t) m) [] ts"

definition to_committed_state_json ::
  "build_stamp \<Rightarrow> sdlc_state \<Rightarrow> run_meta \<Rightarrow> committed_review option \<Rightarrow> committed_docs option \<Rightarrow>
   committed_pr option \<Rightarrow> committed_final_validation option \<Rightarrow> terminal_signal option \<Rightarrow> json" where
  "to_committed_state_json B s m review docs pr final sig = JObj
     [(''spec_slug'', JStr (ss_spec_slug s)), (''branch'', JStr (rm_branch m)),
      (''worktree_path'', JStr (rm_worktree_path m)), (''started_at'', JStr (rm_started_at m)),
      (''updated_at'', JStr (rm_updated_at m)), (''run_id'', json_of_opt JStr (rm_run_id m)),
      (''claude_sessions'', JArr (map claude_session_to_json (rm_claude_sessions m))),
      (''status'', JStr (derive_committed_status s sig)),
      (''current_task'', json_u32 (derive_current_task (ss_tasks s))),
      (''tasks'', JObj (tasks_object (ss_tasks s))),
      (''review'', json_of_opt committed_review_to_json review), (''docs'', json_of_opt committed_docs_to_json docs),
      (''bail_reason'', json_of_opt JStr (derive_bail_reason sig)), (''pr'', json_of_opt committed_pr_to_json pr),
      (''telemetry'', sdlc_telemetry_to_json (ss_telemetry s)),
      (''policy'', json_of_opt (sdlc_policy_to_json) (ss_policy s)),
      (''outcomes'', json_of_opt run_telemetry_to_json (ss_outcomes s)),
      (''phase_id'', json_of_opt JStr (ss_phase_id s)), (''block_id'', json_of_opt JStr (ss_block_id s)),
      (''final_validation'', json_of_opt committed_final_validation_to_json final),
      (''build'', JObj [(''git_sha'', JStr (bs_git_sha B)), (''built_at'', JStr (bs_built_at B))]),
      (''engine_build_sha'', JStr (bs_engine_build_sha B)), (''writer'', JStr (bs_writer B)),
      (''host'', JObj [(''hostname'', JStr (bs_hostname B)), (''pid'', json_u32 (bs_pid B))])]"

definition committed_entry :: "string \<times> json \<Rightarrow> node_error + u32 \<times> sdlc_task" where
  "committed_entry kv =
     (case kv of (key, v) \<Rightarrow>
        bind_result (ok_or (parse_u32 key) (node_error_new (''committed state JSON: invalid task id key '' @ debug_str key)))
          (\<lambda>i. bind_result (ok_or (sdlc_task_of_json v)
                 (node_error_new (''committed state JSON: failed to parse task '' @ debug_str key))) (\<lambda>t. Inr (i, t))))"

fun collect_results :: "('e + 'a) list \<Rightarrow> 'e + 'a list" where
  "collect_results [] = Inr []"
| "collect_results (r # rs) = bind_result r (\<lambda>a. bind_result (collect_results rs) (\<lambda>as. Inr (a # as)))"

definition str_field :: "json \<Rightarrow> string \<Rightarrow> string option" where
  "str_field v k = Option.bind (json_get v k) as_str"

definition lax_field :: "(json \<Rightarrow> 'a option) \<Rightarrow> json \<Rightarrow> string \<Rightarrow> 'a option" where
  "lax_field d v k = Option.bind (json_get v k) d"

definition from_committed_state_json :: "json \<Rightarrow> node_error + sdlc_state" where
  "from_committed_state_json v =
     bind_result (ok_or (str_field v ''spec_slug'') (node_error_new ''committed state JSON missing spec_slug''))
     (\<lambda>slug. bind_result
       (case json_get v ''tasks'' of
          Some (JObj entries) \<Rightarrow> collect_results (map committed_entry entries)
        | _ \<Rightarrow> Inr [])
       (\<lambda>entries. Inr \<lparr>
          ss_spec_slug = slug, ss_phase_id = str_field v ''phase_id'', ss_block_id = str_field v ''block_id'',
          ss_global_status = (case str_field v ''status'' of Some st \<Rightarrow> st | None \<Rightarrow> default_global_status),
          ss_tasks = map snd (sort_key fst entries),
          ss_telemetry = (case lax_field sdlc_telemetry_of_json v ''telemetry'' of
             Some te \<Rightarrow> te | None \<Rightarrow> sdlc_telemetry_default),
          ss_policy = lax_field (sdlc_policy_of_json) v ''policy'',
          ss_outcomes = lax_field run_outcomes_of_json v ''outcomes'',
          ss_branch = str_field v ''branch'', ss_worktree_path = str_field v ''worktree_path'',
          ss_started_at = str_field v ''started_at'', ss_updated_at = str_field v ''updated_at'',
          ss_bail_reason = str_field v ''bail_reason'', ss_run_id = str_field v ''run_id'',
          ss_claude_sessions = (case Option.bind (json_get v ''claude_sessions'') as_array of
             Some cs \<Rightarrow> List.map_filter claude_session_of_json cs | None \<Rightarrow> [])\<rparr>))"

definition committed_artifact_is_stale :: "json \<Rightarrow> string option \<Rightarrow> bool" where
  "committed_artifact_is_stale v current_run_id =
     (case (str_field v ''run_id'', current_run_id) of
        (None, None) \<Rightarrow> False
      | (artifact, current) \<Rightarrow> artifact \<noteq> current)"

subsection \<open>Task ranges\<close>

fun split_once :: "char \<Rightarrow> string \<Rightarrow> (string \<times> string) option" where
  "split_once c [] = None"
| "split_once c (x # xs) =
     (if x = c then Some ([], xs) else map_option (\<lambda>(a, b). (x # a, b)) (split_once c xs))"

definition range_error :: "string \<Rightarrow> string" where
  "range_error chunk = ''Invalid task range chunk: '' @ debug_str chunk"

definition parse_range_chunk :: "string \<Rightarrow> string + u32 list" where
  "parse_range_chunk raw =
     (let chunk = trim raw
      in if chunk = [] then Inr []
         else case split_once (CHR ''-'') chunk of
           Some (a, b) \<Rightarrow>
             bind_result (ok_or (parse_u32 (trim a)) (range_error chunk)) (\<lambda>start.
             bind_result (ok_or (parse_u32 (trim b)) (range_error chunk)) (\<lambda>stop.
               if stop < start then Inl (''Invalid task range chunk (end < start): '' @ debug_str chunk)
               else Inr (map of_nat [unat start..<Suc (unat stop)])))
         | None \<Rightarrow> bind_result (ok_or (parse_u32 chunk) (range_error chunk)) (\<lambda>i. Inr [i]))"

definition parse_task_range :: "string option \<Rightarrow> string + u32 list option" where
  "parse_task_range r =
     (case r of
        None \<Rightarrow> Inr None
      | Some text \<Rightarrow>
          bind_result (collect_results (map parse_range_chunk (split_on (CHR '','') text)))
            (\<lambda>ids. Inr (Some (sort (remdups (concat ids))))))"

subsection \<open>Resuming from the committed file\<close>

lemma decimal_inj: "decimal m = decimal n \<Longrightarrow> m = n"
  by (metis undecimal_decimal)

lemma update_fresh: "k \<notin> fst ` set m \<Longrightarrow> AList.update k v m = m @ [(k, v)]"
  by (induction m) auto

lemma tasks_object_distinct:
  assumes "distinct (map tk_task_id ts)"
  shows "tasks_object ts = map (\<lambda>t. (decimal (unat (tk_task_id t)), sdlc_task_to_json t)) ts"
  unfolding tasks_object_def using assms
proof (induction ts rule: rev_induct)
  case (snoc t ts)
  have "decimal (unat (tk_task_id t)) \<notin> fst ` set (map (\<lambda>t. (decimal (unat (tk_task_id t)), sdlc_task_to_json t)) ts)"
    using snoc.prems by (auto dest!: decimal_inj simp: word_unat_eq_iff [symmetric])
  with snoc show ?case by (simp add: update_fresh)
qed simp

lemma collect_entries:
  "collect_results (map committed_entry (map (\<lambda>t. (decimal (unat (tk_task_id t)), sdlc_task_to_json t)) ts)) =
     Inr (map (\<lambda>t. (tk_task_id t, t)) ts)"
  by (induction ts) (simp_all add: committed_entry_def)

lemma sort_key_pairs: "map snd (sort_key fst (map (\<lambda>t. (f t, t)) ts)) = sort_key f ts"
proof -
  have "insort_key fst (f t, t) (map (\<lambda>t. (f t, t)) xs) = map (\<lambda>t. (f t, t)) (insort_key f t xs)" for t xs
    by (induction xs) simp_all
  then have "sort_key fst (map (\<lambda>t. (f t, t)) ts) = map (\<lambda>t. (f t, t)) (sort_key f ts)"
    by (induction ts) simp_all
  then show ?thesis by (simp add: comp_def)
qed

lemma map_filter_sessions:
  "List.map_filter claude_session_of_json (map claude_session_to_json cs) = filter (\<lambda>c. f64_is_finite (cs_cost_usd c)) cs"
  by (induction cs) (simp_all add: claude_session_round_trip claude_session_nonfinite)

text \<open>
  C19. A run that is resumed from the file an earlier run committed continues from the state that was
  written: tasks with their statuses and counters, telemetry, policy and outcomes come back, ordered by
  task, as long as no two tasks share a number. The status and the reason are the derived ones, branch,
  worktree and times the ones of the write, and session rows whose cost has no JSON form are dropped.
\<close>

theorem committed_round_trip:
  assumes "state_finite s" "distinct (map tk_task_id (ss_tasks s))"
  shows "from_committed_state_json (to_committed_state_json B s m review docs pr final sig) =
    Inr (s\<lparr>ss_global_status := derive_committed_status s sig, ss_tasks := sort_key tk_task_id (ss_tasks s),
      ss_branch := Some (rm_branch m), ss_worktree_path := Some (rm_worktree_path m),
      ss_started_at := Some (rm_started_at m), ss_updated_at := Some (rm_updated_at m),
      ss_bail_reason := derive_bail_reason sig, ss_run_id := rm_run_id m,
      ss_claude_sessions := filter (\<lambda>c. f64_is_finite (cs_cost_usd c)) (rm_claude_sessions m)\<rparr>)"
proof -
  let ?v = "to_committed_state_json B s m review docs pr final sig"
  have strs: "as_str (json_of_opt JStr x) = x" for x by (cases x) (simp_all add: json_of_opt_def)
  have pol: "lax_field (sdlc_policy_of_json) ?v ''policy'' = ss_policy s"
    by (cases "ss_policy s") (simp_all add: lax_field_def to_committed_state_json_def json_of_opt_def)
  have outc: "lax_field run_outcomes_of_json ?v ''outcomes'' = ss_outcomes s"
    using assms(1) by (cases "ss_outcomes s")
      (simp_all add: lax_field_def to_committed_state_json_def json_of_opt_def run_outcomes_back state_finite_def,
       simp add: run_outcomes_of_json_def)
  have tel: "lax_field sdlc_telemetry_of_json ?v ''telemetry'' = Some (ss_telemetry s)"
    using assms(1) by (simp add: lax_field_def to_committed_state_json_def sdlc_telemetry_back state_finite_def)
  show ?thesis
    unfolding from_committed_state_json_def pol outc tel
    by (simp add: to_committed_state_json_def str_field_def strs map_filter_sessions
        tasks_object_distinct [OF assms(2)] collect_entries [unfolded map_map] sort_key_pairs)
qed

definition example_state :: sdlc_state where
  "example_state = (sdlc_state_new ''feature'')\<lparr>ss_tasks :=
     [(sdlc_task_new 2 ''second'' ''b'')\<lparr>tk_attempt_count := 1\<rparr>,
      (sdlc_task_new 1 ''first'' ''a'')\<lparr>tk_status := TaskDone\<rparr>]\<rparr>"

definition example_meta :: run_meta where
  "example_meta = \<lparr>rm_branch = ''sdlc/feature'', rm_worktree_path = ''trees/sdlc/feature'', rm_started_at = ''t0'',
     rm_updated_at = ''t1'', rm_run_id = None, rm_claude_sessions = []\<rparr>"

definition example_build :: build_stamp where
  "example_build = \<lparr>bs_git_sha = ''abc'', bs_built_at = ''t'', bs_engine_build_sha = ''abc'', bs_writer = ''engine'',
     bs_hostname = ''host'', bs_pid = 7\<rparr>"

lemmas example_state_simps = example_state_def sdlc_state_new_def sdlc_task_new_def

theorem committed_round_trip_witness:
  "\<exists>s. from_committed_state_json (to_committed_state_json example_build example_state example_meta None None None None None) = Inr s \<and>
     map tk_task_id (ss_tasks s) = [1, 2] \<and> ss_global_status s = ''running''"
proof -
  have fin: "state_finite example_state"
    by (simp add: state_finite_def example_state_simps sdlc_telemetry_default_def f64_is_finite_def)
  have dist: "distinct (map tk_task_id (ss_tasks example_state))" by (simp add: example_state_simps)
  show ?thesis
    by (rule exI, rule conjI, rule committed_round_trip [OF fin dist])
      (simp add: example_state_simps derive_committed_status_def task_settled_def word_le_nat_alt)
qed

text \<open>
  Two tasks with one number do not survive a commit: the file keys tasks by number, so only the last of
  them is read back.
\<close>

theorem committed_drops_duplicates:
  assumes "state_finite s" "ss_tasks s = [a, b]" "tk_task_id a = tk_task_id b"
  shows "\<exists>s'. from_committed_state_json (to_committed_state_json B s m review docs pr final sig) = Inr s' \<and> ss_tasks s' = [b]"
  using assms
  by (auto simp: from_committed_state_json_def to_committed_state_json_def str_field_def tasks_object_def
      committed_entry_def)

end
