(* ===== verification/AgentStep.thy ===== *)
theory AgentStep
  imports SdlcPolicy
begin

text \<open>
  The node that calls a coding agent (\<open>nodes/agent_code_step.rs\<close>) with its bounded transport retry, the
  slot that chooses its transport (\<open>workflows/transport_slot.rs\<close>) and the shaping of its configuration
  by a policy (\<open>policy/shaping.rs\<close>, \<open>apply_policy\<close> of \<open>task_loop.rs\<close>).

  The agent's SDK is not part of the repository: a transport is a parameter, a function from the
  configuration, the prompt and the number of the attempt to what the SDK returned. Of the SDK's types
  only the fields and cases that the code reads or sets are there; an error carries its displayed text.
  A call environment says when each attempt starts, and when a cancellation wins against the attempt or
  against the wait after it; it has no effect on a step without a cancellation token.
\<close>

subsection \<open>What the SDK takes and returns\<close>

record sdk_config =
  cf_model :: "string option"
  cf_system_prompt :: "string option"
  cf_timeout_secs :: "u64 option"
  cf_max_turns :: "u32 option"
  cf_isolated :: bool
  cf_cwd :: "string option"
  cf_json_schema :: "json option"
  cf_env :: "(string \<times> string) list"

record sdk_usage =
  su_input_tokens :: u64
  su_output_tokens :: u64
  su_cache_read_input_tokens :: u64
  su_cache_creation_input_tokens :: u64

datatype sdk_error =
    SpawnError string
  | TimeoutError string
  | CliError string
  | ApiError "string option" f64 sdk_usage string
  | BinaryNotFound string
  | ParseError string
  | IsolationError string

fun sdk_error_text :: "sdk_error \<Rightarrow> string" where
  "sdk_error_text (SpawnError m) = m"
| "sdk_error_text (TimeoutError m) = m"
| "sdk_error_text (CliError m) = m"
| "sdk_error_text (ApiError _ _ _ m) = m"
| "sdk_error_text (BinaryNotFound m) = m"
| "sdk_error_text (ParseError m) = m"
| "sdk_error_text (IsolationError m) = m"

record outcome =
  oc_text :: string
  oc_cost_usd :: f64
  oc_usage :: sdk_usage
  oc_primary_model :: "string option"
  oc_session_id :: "string option"
  oc_structured_output :: "json option"

record transport_info =
  ti_tier :: string
  ti_model :: string
  ti_endpoint :: "string option"
  ti_backend :: string
  ti_cost_known :: bool
  ti_extra :: "string hmap"

type_synonym model_transport = "sdk_config \<Rightarrow> string \<Rightarrow> nat \<Rightarrow> sdk_error + outcome"
type_synonym meta_transport = "sdk_config \<Rightarrow> string \<Rightarrow> nat \<Rightarrow> sdk_error + outcome \<times> transport_info"

record call_env =
  ce_started :: "nat \<Rightarrow> string"
  ce_cancels_attempt :: "nat \<Rightarrow> bool"
  ce_cancels_wait :: "nat \<Rightarrow> bool"

subsection \<open>Policy shaping\<close>

definition apply_model_tier :: "sdk_config \<Rightarrow> model_tier \<Rightarrow> string \<Rightarrow> sdk_config" where
  "apply_model_tier c tier local_model = c\<lparr>cf_model := Some (model_tier_to_model_string tier local_model)\<rparr>"

definition apply_prompt_cache :: "sdk_config \<Rightarrow> bool \<Rightarrow> string \<Rightarrow> sdk_config" where
  "apply_prompt_cache c enabled stable_prompt = (if enabled then c\<lparr>cf_system_prompt := Some stable_prompt\<rparr> else c)"

definition apply_call_timeout :: "sdk_config \<Rightarrow> u64 option \<Rightarrow> sdk_config" where
  "apply_call_timeout c timeout =
     (case timeout of Some secs \<Rightarrow> c\<lparr>cf_timeout_secs := Some secs\<rparr> | None \<Rightarrow> c)"

text \<open>\<open>stable_prompt\<close> is the text of the bundled prompt file \<open>prompts/implement.md\<close>.\<close>

definition apply_policy_config :: "string \<Rightarrow> sdk_config \<Rightarrow> sdlc_policy \<Rightarrow> stage \<Rightarrow> sdk_config" where
  "apply_policy_config stable_prompt c p st =
     (let c1 = apply_model_tier c (stage_model_tier p st) (lc_model (sy_local p));
          c2 = apply_prompt_cache c1 (sy_prompt_cache p) stable_prompt;
          c3 = apply_call_timeout c2 (stage_call_timeout p st);
          c4 = (case stage_turn_ceiling p st of Some n \<Rightarrow> c3\<lparr>cf_max_turns := Some n\<rparr> | None \<Rightarrow> c3)
      in c4\<lparr>cf_isolated := sy_isolated p\<rparr>)"

definition apply_policy :: "string \<Rightarrow> sdk_config \<Rightarrow> string \<Rightarrow> sdlc_policy \<Rightarrow> stage \<Rightarrow> sdk_config \<times> string" where
  "apply_policy stable_prompt c prompt p st =
     (apply_policy_config stable_prompt c p st, apply_verbosity_directive prompt (sy_output_verbosity p))"

subsection \<open>Errors and billing\<close>

definition unknown_model :: string where
  "unknown_model = ''unknown''"

definition max_transport_backoff_ms :: u64 where
  "max_transport_backoff_ms = 5000"

fun is_retryable_transport_error :: "sdk_error \<Rightarrow> bool" where
  "is_retryable_transport_error (SpawnError _) = True"
| "is_retryable_transport_error (TimeoutError _) = True"
| "is_retryable_transport_error (CliError _) = True"
| "is_retryable_transport_error (ApiError _ _ _ _) = True"
| "is_retryable_transport_error (BinaryNotFound _) = False"
| "is_retryable_transport_error (ParseError _) = False"
| "is_retryable_transport_error (IsolationError _) = False"

definition record_sessions :: "task_context \<Rightarrow> claude_session list \<Rightarrow> task_context" where
  "record_sessions ctx ss = ctx\<lparr>metadata := fold append_session ss (metadata ctx)\<rparr>"

fun billed_failure :: "sdk_error \<Rightarrow> string \<Rightarrow> string \<Rightarrow> string \<Rightarrow> claude_session option" where
  "billed_failure (ApiError sid cost u _) node_id mdl started = Some
     \<lparr>cs_node = node_id, cs_session_id = sid, cs_ok = False, cs_cost_usd = cost,
      cs_input_tokens = su_input_tokens u, cs_output_tokens = su_output_tokens u,
      cs_cache_read_input_tokens = su_cache_read_input_tokens u,
      cs_cache_creation_input_tokens = su_cache_creation_input_tokens u,
      cs_model = mdl, cs_started_at = Some started, cs_cost_known = True\<rparr>"
| "billed_failure _ node_id mdl started = None"

subsection \<open>The retry loop\<close>

datatype 'a retried_call = CallOk 'a | CallCancelled | CallErr node_error

text \<open>What a call leaves: its result, the failed sessions, the start of the last attempt, and the waits
  in milliseconds that were begun.\<close>

record 'a call_trace =
  ct_result :: "'a retried_call"
  ct_failed_sessions :: "claude_session list"
  ct_last_started_at :: string
  ct_waits :: "u64 list"

definition race_one_attempt :: "bool \<Rightarrow> bool \<Rightarrow> 'r \<Rightarrow> 'r option" where
  "race_one_attempt has_token cancel_wins r = (if has_token \<and> cancel_wins then None else Some r)"

definition saturating_mul_u64 :: "u64 \<Rightarrow> u64 \<Rightarrow> u64" where
  "saturating_mul_u64 a b = (if unat a * unat b < 2 ^ 64 then a * b else - 1)"

definition next_backoff :: "u64 \<Rightarrow> u64" where
  "next_backoff b = min (saturating_mul_u64 b 2) max_transport_backoff_ms"

function retry_loop ::
  "call_env \<Rightarrow> bool \<Rightarrow> (nat \<Rightarrow> sdk_error + 'a) \<Rightarrow> string \<Rightarrow> string \<Rightarrow> nat \<Rightarrow> nat \<Rightarrow> u64 \<Rightarrow>
   claude_session list \<Rightarrow> u64 list \<Rightarrow> 'a call_trace" where
  "retry_loop env tok mk node_id mdl limit attempt backoff failed waits =
     (let started = ce_started env attempt;
          stop = (\<lambda>r fs ws. \<lparr>ct_result = r, ct_failed_sessions = fs, ct_last_started_at = started, ct_waits = ws\<rparr>)
      in case race_one_attempt tok (ce_cancels_attempt env attempt) (mk attempt) of
           None \<Rightarrow> stop CallCancelled failed waits
         | Some (Inr v) \<Rightarrow> stop (CallOk v) failed waits
         | Some (Inl err) \<Rightarrow>
             (let failed' = (case billed_failure err node_id mdl started of
                               Some s \<Rightarrow> failed @ [s] | None \<Rightarrow> failed)
              in if limit \<le> attempt \<or> \<not> is_retryable_transport_error err
                 then stop (CallErr (node_error_new (sdk_error_text err))) failed' waits
                 else if tok \<and> ce_cancels_wait env attempt
                 then stop CallCancelled failed' (waits @ [backoff])
                 else retry_loop env tok mk node_id mdl limit (Suc attempt) (next_backoff backoff)
                        failed' (waits @ [backoff])))"
  by pat_completeness auto

termination
  by (relation "measure (\<lambda>(_, _, _, _, _, limit, attempt, _). limit - attempt)") auto

declare retry_loop.simps [simp del]

definition call_with_retry ::
  "call_env \<Rightarrow> bool \<Rightarrow> (nat \<Rightarrow> sdk_error + 'a) \<Rightarrow> transport_retry \<Rightarrow> string \<Rightarrow> string \<Rightarrow> 'a call_trace" where
  "call_with_retry env tok mk retry node_id mdl =
     retry_loop env tok mk node_id mdl (unat (max (tr_max_attempts retry) 1)) 1
       (tr_initial_backoff_ms retry) [] []"

subsection \<open>The node\<close>

datatype prompt_source = FixedPrompt string | PromptBuilder "task_context \<Rightarrow> string"

fun build_prompt :: "prompt_source \<Rightarrow> task_context \<Rightarrow> string" where
  "build_prompt (FixedPrompt p) ctx = p"
| "build_prompt (PromptBuilder f) ctx = f ctx"

record agent_code_step =
  ac_name :: string
  ac_config :: sdk_config
  ac_prompt :: prompt_source
  ac_transport :: model_transport
  ac_meta_transport :: "meta_transport option"
  ac_has_token :: bool
  ac_retry :: transport_retry

text \<open>\<open>execute\<close> is the SDK's own entry point, the transport of a step that no slot overrides.\<close>

definition agent_code_step_new ::
  "model_transport \<Rightarrow> string \<Rightarrow> sdk_config \<Rightarrow> string \<Rightarrow> agent_code_step" where
  "agent_code_step_new execute name c prompt = \<lparr>ac_name = name, ac_config = c, ac_prompt = FixedPrompt prompt,
     ac_transport = execute, ac_meta_transport = None, ac_has_token = False,
     ac_retry = transport_retry_default\<rparr>"

definition with_prompt_builder ::
  "model_transport \<Rightarrow> string \<Rightarrow> sdk_config \<Rightarrow> (task_context \<Rightarrow> string) \<Rightarrow> agent_code_step" where
  "with_prompt_builder execute name c builder = \<lparr>ac_name = name, ac_config = c,
     ac_prompt = PromptBuilder builder, ac_transport = execute, ac_meta_transport = None,
     ac_has_token = False, ac_retry = transport_retry_default\<rparr>"

definition with_transport :: "model_transport \<Rightarrow> agent_code_step \<Rightarrow> agent_code_step" where
  "with_transport t s = s\<lparr>ac_transport := t\<rparr>"

definition with_meta_transport :: "meta_transport \<Rightarrow> agent_code_step \<Rightarrow> agent_code_step" where
  "with_meta_transport t s = s\<lparr>ac_meta_transport := Some t\<rparr>"

definition with_cancellation_token :: "agent_code_step \<Rightarrow> agent_code_step" where
  "with_cancellation_token s = s\<lparr>ac_has_token := True\<rparr>"

definition with_retry_policy :: "transport_retry \<Rightarrow> agent_code_step \<Rightarrow> agent_code_step" where
  "with_retry_policy r s = s\<lparr>ac_retry := r\<rparr>"

record transport_slot =
  sl_plain :: "model_transport option"
  sl_meta :: "meta_transport option"

definition slot_set_plain :: "model_transport \<Rightarrow> transport_slot \<Rightarrow> transport_slot" where
  "slot_set_plain t sl = sl\<lparr>sl_plain := Some t\<rparr>"

definition slot_set_meta :: "meta_transport \<Rightarrow> transport_slot \<Rightarrow> transport_slot" where
  "slot_set_meta t sl = sl\<lparr>sl_meta := Some t\<rparr>"

definition slot_apply :: "transport_slot \<Rightarrow> agent_code_step \<Rightarrow> agent_code_step" where
  "slot_apply sl s =
     (case sl_meta sl of
        Some m \<Rightarrow> with_meta_transport m s
      | None \<Rightarrow> (case sl_plain sl of Some t \<Rightarrow> with_transport t s | None \<Rightarrow> s))"

definition outcome_model :: "outcome \<Rightarrow> string" where
  "outcome_model oc = (case oc_primary_model oc of Some m \<Rightarrow> m | None \<Rightarrow> unknown_model)"

definition cloud_info :: "outcome \<Rightarrow> transport_info" where
  "cloud_info oc = \<lparr>ti_tier = ''cloud'', ti_model = outcome_model oc, ti_endpoint = None,
     ti_backend = ''claude_cli'', ti_cost_known = True, ti_extra = []\<rparr>"

text \<open>A plain transport reports no more than its outcome; both kinds run through the same loop.\<close>

definition attempt_call :: "agent_code_step \<Rightarrow> string \<Rightarrow> nat \<Rightarrow> sdk_error + outcome \<times> transport_info" where
  "attempt_call s prompt k =
     (case ac_meta_transport s of
        Some m \<Rightarrow> m (ac_config s) prompt k
      | None \<Rightarrow> bind_result (ac_transport s (ac_config s) prompt k) (\<lambda>oc. Inr (oc, cloud_info oc)))"

definition step_output :: "outcome \<Rightarrow> transport_info \<Rightarrow> json" where
  "step_output oc info =
     JObj ([(''content'', JStr (oc_text oc))] @
       (if ti_cost_known info then [(''cost_usd'', json_of_f64 (oc_cost_usd oc))] else []) @
       [(''model'', JStr (outcome_model oc)),
        (''structured'', json_of_opt (\<lambda>v. v) (oc_structured_output oc)),
        (''transport'', JObj
           [(''tier'', JStr (ti_tier info)), (''model'', JStr (ti_model info)),
            (''endpoint'', json_of_opt JStr (ti_endpoint info)), (''backend'', JStr (ti_backend info)),
            (''extra'', JObj (map (\<lambda>(k, v). (k, JStr v)) (ti_extra info)))]),
        (''cache_read_input_tokens'', json_u64 (su_cache_read_input_tokens (oc_usage oc))),
        (''cache_creation_input_tokens'', json_u64 (su_cache_creation_input_tokens (oc_usage oc))),
        (''session_id'', json_of_opt JStr (oc_session_id oc))])"

definition ok_session :: "string \<Rightarrow> outcome \<Rightarrow> transport_info \<Rightarrow> string \<Rightarrow> claude_session" where
  "ok_session node_id oc info started =
     \<lparr>cs_node = node_id, cs_session_id = oc_session_id oc, cs_ok = True, cs_cost_usd = oc_cost_usd oc,
      cs_input_tokens = su_input_tokens (oc_usage oc), cs_output_tokens = su_output_tokens (oc_usage oc),
      cs_cache_read_input_tokens = su_cache_read_input_tokens (oc_usage oc),
      cs_cache_creation_input_tokens = su_cache_creation_input_tokens (oc_usage oc),
      cs_model = outcome_model oc, cs_started_at = Some started, cs_cost_known = ti_cost_known info\<rparr>"

definition stamp_outcome ::
  "string \<Rightarrow> claude_session list \<Rightarrow> string \<Rightarrow> outcome \<Rightarrow> transport_info \<Rightarrow> task_context \<Rightarrow> task_context" where
  "stamp_outcome node_id failed started oc info ctx =
     (let c1 = ctx\<lparr>nodes := AList.update node_id (step_output oc info) (nodes ctx)\<rparr>;
          c2 = record_sessions c1 failed;
          c3 = c2\<lparr>metadata := append_session (ok_session node_id oc info started) (metadata c2)\<rparr>;
          u = \<lparr>input_tokens = Some (su_input_tokens (oc_usage oc)),
               output_tokens = Some (su_output_tokens (oc_usage oc)), model = outcome_model oc\<rparr>
      in c3\<lparr>node_runs := hm_modify_or_insert node_id (\<lambda>r. r\<lparr>nr_usage := Some u\<rparr>)
           \<lparr>nr_status = Running, nr_started_at = None, nr_completed_at = None, nr_error = None,
            nr_input = None, nr_usage = Some u\<rparr> (node_runs c3)\<rparr>)"

definition agent_process :: "call_env \<Rightarrow> agent_code_step \<Rightarrow> task_context \<Rightarrow> node_error + task_context" where
  "agent_process env s ctx =
     (let prompt = build_prompt (ac_prompt s) ctx;
          mdl = (case cf_model (ac_config s) of Some m \<Rightarrow> m | None \<Rightarrow> unknown_model);
          tr = call_with_retry env (ac_has_token s) (attempt_call s prompt) (ac_retry s) (ac_name s) mdl
      in case ct_result tr of
           CallCancelled \<Rightarrow> Inr (record_sessions ctx (ct_failed_sessions tr))
         | CallErr err \<Rightarrow> Inl (with_sessions err (ct_failed_sessions tr))
         | CallOk (oc, info) \<Rightarrow>
             Inr (stamp_outcome (ac_name s) (ct_failed_sessions tr) (ct_last_started_at tr) oc info ctx))"

subsection \<open>What a call does\<close>

text \<open>The failed sessions of the attempts \<open>ks\<close>.\<close>

definition bills_of ::
  "call_env \<Rightarrow> (nat \<Rightarrow> sdk_error + 'a) \<Rightarrow> string \<Rightarrow> string \<Rightarrow> nat list \<Rightarrow> claude_session list" where
  "bills_of env mk node_id mdl ks = List.map_filter (\<lambda>k. case mk k of
     Inl e \<Rightarrow> billed_failure e node_id mdl (ce_started env k) | Inr _ \<Rightarrow> None) ks"

lemma bills_of_append: "bills_of env mk i m (ks @ ls) = bills_of env mk i m ks @ bills_of env mk i m ls"
  by (simp add: bills_of_def map_filter_append)

definition retryable_attempt :: "(nat \<Rightarrow> sdk_error + 'a) \<Rightarrow> nat \<Rightarrow> bool" where
  "retryable_attempt mk k = (case mk k of Inl e \<Rightarrow> is_retryable_transport_error e | Inr _ \<Rightarrow> False)"

text \<open>
  How a call that goes from attempt \<open>first\<close> to attempt \<open>n\<close>, with the sessions \<open>failed\<close> before it and at
  most \<open>limit\<close> attempts, has ended.
\<close>

definition call_ended ::
  "call_env \<Rightarrow> bool \<Rightarrow> (nat \<Rightarrow> sdk_error + 'a) \<Rightarrow> string \<Rightarrow> string \<Rightarrow> nat \<Rightarrow> nat \<Rightarrow> nat \<Rightarrow>
   claude_session list \<Rightarrow> 'a call_trace \<Rightarrow> bool" where
  "call_ended env tok mk i m limit first n failed tr \<longleftrightarrow>
     ct_last_started_at tr = ce_started env n \<and>
     (if tok \<and> ce_cancels_attempt env n
      then ct_result tr = CallCancelled \<and> ct_failed_sessions tr = failed @ bills_of env mk i m [first..<n]
      else ct_failed_sessions tr = failed @ bills_of env mk i m [first..<Suc n] \<and>
        (case mk n of
           Inr v \<Rightarrow> ct_result tr = CallOk v
         | Inl e \<Rightarrow> if limit \<le> n \<or> \<not> is_retryable_transport_error e
             then ct_result tr = CallErr (node_error_new (sdk_error_text e))
             else tok \<and> ce_cancels_wait env n \<and> ct_result tr = CallCancelled))"

definition goes_on :: "call_env \<Rightarrow> bool \<Rightarrow> (nat \<Rightarrow> sdk_error + 'a) \<Rightarrow> nat \<Rightarrow> bool" where
  "goes_on env tok mk k \<longleftrightarrow> retryable_attempt mk k \<and>
     \<not> (tok \<and> (ce_cancels_attempt env k \<or> ce_cancels_wait env k))"

lemma call_ended_later:
  assumes "call_ended env tok mk i m limit (Suc a) n (failed @ bills_of env mk i m [a]) tr" and "a < n"
  shows "call_ended env tok mk i m limit a n failed tr"
proof -
  have "bills_of env mk i m [a..<k] = bills_of env mk i m [a] @ bills_of env mk i m [Suc a..<k]"
    if "a < k" for k
    using that by (simp add: upt_conv_Cons bills_of_append [symmetric])
  from this [of n] this [of "Suc n"] assms show ?thesis by (simp add: call_ended_def del: upt_Suc)
qed

lemma retry_loop_ends:
  assumes "attempt \<le> limit"
  shows "\<exists>n. attempt \<le> n \<and> n \<le> limit \<and> (\<forall>k \<in> {attempt..<n}. goes_on env tok mk k) \<and>
      call_ended env tok mk i m limit attempt n failed
        (retry_loop env tok mk i m limit attempt backoff failed waits)"
  using assms
proof (induction "limit - attempt" arbitrary: attempt backoff failed waits rule: less_induct)
  case less
  show ?case
  proof (cases "goes_on env tok mk attempt \<and> attempt < limit")
    case True
    then obtain e where e: "mk attempt = Inl e" "is_retryable_transport_error e"
      by (auto simp: goes_on_def retryable_attempt_def split: sum.splits)
    let ?f = "failed @ bills_of env mk i m [attempt]"
    have step: "retry_loop env tok mk i m limit attempt backoff failed waits =
        retry_loop env tok mk i m limit (Suc attempt) (next_backoff backoff) ?f (waits @ [backoff])"
      using True e by (subst retry_loop.simps) (auto simp: goes_on_def race_one_attempt_def bills_of_def
          List.map_filter_simps Let_def split: option.split)
    have "limit - Suc attempt < limit - attempt" and "Suc attempt \<le> limit" using True by auto
    from less.hyps [OF this, of ?f "next_backoff backoff" "waits @ [backoff]"]
    obtain n where n: "Suc attempt \<le> n" "n \<le> limit" "\<forall>k \<in> {Suc attempt..<n}. goes_on env tok mk k"
        "call_ended env tok mk i m limit (Suc attempt) n ?f
           (retry_loop env tok mk i m limit attempt backoff failed waits)"
      unfolding step by blast
    moreover have "goes_on env tok mk k" if "k \<in> {attempt..<n}" for k
      using that True n(3) by (cases "k = attempt") auto
    ultimately show ?thesis
      by (intro exI [of _ n]) (auto intro: call_ended_later)
  next
    case False
    have "call_ended env tok mk i m limit attempt attempt failed
        (retry_loop env tok mk i m limit attempt backoff failed waits)"
      using False less.prems
      by (subst retry_loop.simps) (auto simp: goes_on_def retryable_attempt_def race_one_attempt_def
          call_ended_def bills_of_def List.map_filter_simps Let_def split: option.split sum.splits)
    with less.prems show ?thesis by (intro exI [of _ attempt]) auto
  qed
qed

text \<open>
  A call makes between one attempt and the configured maximum (a maximum of zero counts as one). It goes
  on past an attempt only after a retryable failure, ends with the answer of its last attempt, that
  attempt's own error or a cancellation, which only a step with a token can see, and records one session
  for each attempt that was billed and failed.
\<close>

lemma call_with_retry_ends:
  "\<exists>n. 1 \<le> n \<and> n \<le> max 1 (unat (tr_max_attempts retry)) \<and> (\<forall>k \<in> {1..<n}. goes_on env tok mk k) \<and>
     call_ended env tok mk i m (max 1 (unat (tr_max_attempts retry))) 1 n []
       (call_with_retry env tok mk retry i m)"
proof -
  have "unat (max (tr_max_attempts retry) 1) = max 1 (unat (tr_max_attempts retry))"
    by (simp add: max_def word_le_nat_alt)
  with retry_loop_ends [of 1 "max 1 (unat (tr_max_attempts retry))" env tok mk i m "[]"
      "tr_initial_backoff_ms retry" "[]"]
  show ?thesis by (simp add: call_with_retry_def)
qed

text \<open>No wait is longer than the larger of the cap and the configured first wait, which nothing bounds.\<close>

lemma next_backoff_le: "next_backoff b \<le> max_transport_backoff_ms"
  by (simp add: next_backoff_def)

lemma retry_loop_waits:
  assumes "backoff \<le> B" and "max_transport_backoff_ms \<le> B" and "\<forall>w \<in> set waits. w \<le> B"
  shows "\<forall>w \<in> set (ct_waits (retry_loop env tok mk i m limit attempt backoff failed waits)). w \<le> B"
  using assms
proof (induction "limit - attempt" arbitrary: attempt backoff failed waits rule: less_induct)
  case less
  let ?r = "retry_loop env tok mk i m limit attempt backoff failed waits"
  have ok: "\<forall>w \<in> set (waits @ [backoff]). w \<le> B" using less.prems by simp
  have "set (ct_waits ?r) \<subseteq> set (waits @ [backoff]) \<or> (attempt < limit \<and> (\<exists>f'. ?r =
      retry_loop env tok mk i m limit (Suc attempt) (next_backoff backoff) f' (waits @ [backoff])))"
    by (auto simp: retry_loop.simps [of env tok mk i m limit attempt backoff failed waits]
        race_one_attempt_def Let_def split: sum.split)
  then consider "set (ct_waits ?r) \<subseteq> set (waits @ [backoff])"
    | f' where "attempt < limit"
        "?r = retry_loop env tok mk i m limit (Suc attempt) (next_backoff backoff) f' (waits @ [backoff])"
    by blast
  then show ?case
  proof cases
    case 1
    with ok show ?thesis by blast
  next
    case 2
    have next_ok: "next_backoff backoff \<le> B"
      using next_backoff_le less.prems(2) by (rule order_trans)
    have "limit - Suc attempt < limit - attempt" using 2 by simp
    from less.hyps [OF this next_ok less.prems(2) ok] show ?thesis by (simp add: 2)
  qed
qed

end
