(* ===== verification/TaskState.thy ===== *)
theory TaskState
  imports SdlcSchema AgentStep
begin

text \<open>
  The state of the SDLC task loop and the nodes that move it without calling a model
  (\<open>workflows/sdlc_flow/task_loop.rs\<close>, with the helpers of \<open>workflows/mod.rs\<close> and \<open>graph.rs\<close>): where the
  latest state is found, the queue of tasks, the three routers, the counting of attempts, and the graph.

  There is no single owner of the state: five nodes leave a copy in their results, two of them nested
  under \<open>state\<close>, and a reader takes the copy with the highest logical clock. A counter is a \<open>u32\<close> and
  wraps, as in a release build. The text of an error is the code's up to the quoting of \<open>{:?}\<close> and the
  reason that \<open>serde_json\<close> gives.
\<close>

subsection \<open>Results and sessions\<close>

definition put_result :: "string \<Rightarrow> json \<Rightarrow> task_context \<Rightarrow> task_context" where
  "put_result i v ctx = ctx\<lparr>nodes := AList.update i v (nodes ctx)\<rparr>"

definition get_result :: "task_context \<Rightarrow> string \<Rightarrow> json option" where
  "get_result ctx i = map_of (nodes ctx) i"

definition session_baseline :: "task_context \<Rightarrow> nat" where
  "session_baseline ctx = length (read_sessions (metadata ctx))"

definition sessions_since :: "task_context \<Rightarrow> nat \<Rightarrow> claude_session list" where
  "sessions_since ctx baseline =
     (let everything = read_sessions (metadata ctx)
      in if length everything \<le> baseline then [] else drop baseline everything)"

text \<open>The result under construction is an object, given by its fields.\<close>

definition carry_forward_billing :: "task_context \<Rightarrow> string \<Rightarrow> (string \<times> json) list \<Rightarrow> (string \<times> json) list" where
  "carry_forward_billing ctx i result =
     (case get_result ctx i of
        None \<Rightarrow> result
      | Some prior \<Rightarrow> fold (\<lambda>key r. case json_get prior key of
            Some v \<Rightarrow> if v = JNull then r else AList.update key v r | None \<Rightarrow> r)
          [''transport'', ''cost_usd'', ''cache_creation_input_tokens'', ''cache_read_input_tokens''] result)"

subsection \<open>The latest state\<close>

definition logical_clock :: "sdlc_state \<Rightarrow> u64" where
  "logical_clock s = ucast (te_total_attempts (ss_telemetry s)) + ucast (te_review_attempts (ss_telemetry s)) +
     ucast (te_tasks_passed (ss_telemetry s)) + sum_list (map (\<lambda>t. ucast (tk_attempt_count t)) (ss_tasks s))"

definition state_nested_identities :: "string list" where
  "state_nested_identities = [''ConsolidatedReviewNode'', ''ImplementTaskNode'']"

definition state_identities :: "string list" where
  "state_identities = [''IncrementAttemptNode'', ''UpdateTaskStatusNode'', ''ConsolidatedReviewNode'',
     ''ImplementTaskNode'', ''LoadTaskStateNode'']"

definition state_value :: "task_context \<Rightarrow> string \<Rightarrow> json option" where
  "state_value ctx i =
     (case get_result ctx i of
        None \<Rightarrow> None
      | Some v \<Rightarrow> if i \<in> set state_nested_identities then json_get v ''state'' else Some v)"

fun newest_state :: "task_context \<Rightarrow> string list \<Rightarrow> sdlc_state option \<Rightarrow> node_error + sdlc_state option" where
  "newest_state ctx [] best = Inr best"
| "newest_state ctx (i # is) best =
     (case state_value ctx i of
        None \<Rightarrow> newest_state ctx is best
      | Some v \<Rightarrow> (case sdlc_state_of_json v of
            None \<Rightarrow> Inl (node_error_new ''failed to parse SDLCState'')
          | Some s \<Rightarrow>
              (let newer = (case best of None \<Rightarrow> True | Some b \<Rightarrow> logical_clock b < logical_clock s)
               in newest_state ctx is (if newer then Some s else best))))"

definition latest_state :: "task_context \<Rightarrow> node_error + sdlc_state" where
  "latest_state ctx = bind_result (newest_state ctx state_identities None) (\<lambda>best. ok_or best
     (node_error_new (''no SDLCState found: none of IncrementAttemptNode, UpdateTaskStatusNode, LoadTaskStateNode '' @
       ''has run'')))"

subsection \<open>The current task\<close>

definition worktree_path :: "task_context \<Rightarrow> node_error + string" where
  "worktree_path ctx = ok_or
     (Option.bind (Option.bind (get_result ctx ''SetupWorktreeNode'') (\<lambda>v. json_get v ''worktree_path'')) as_str)
     (node_error_new ''SetupWorktreeNode output missing worktree_path'')"

definition current_task_fields :: "task_context \<Rightarrow> node_error + json" where
  "current_task_fields ctx = ok_or (get_result ctx ''TaskQueueRouterNode'')
     (node_error_new ''TaskQueueRouterNode has not run yet'')"

text \<open>The lookup that four functions repeat; \<open>as u32\<close> truncates.\<close>

definition current_task_id :: "task_context \<Rightarrow> node_error + u32" where
  "current_task_id ctx = bind_result (current_task_fields ctx) (\<lambda>fields.
     map_sum id ucast (ok_or (Option.bind (json_get fields ''current_task_id'') as_u64)
       (node_error_new ''TaskQueueRouterNode output missing current_task_id'')))"

definition find_task :: "sdlc_state \<Rightarrow> u32 \<Rightarrow> sdlc_task option" where
  "find_task s i = find (\<lambda>t. tk_task_id t = i) (ss_tasks s)"

definition current_task_state :: "task_context \<Rightarrow> string \<Rightarrow> node_error + sdlc_task" where
  "current_task_state ctx caller =
     bind_result (current_task_id ctx) (\<lambda>i.
     bind_result (latest_state ctx) (\<lambda>s.
       ok_or (find_task s i) (node_error_new
         (caller @ '': no task with task_id='' @ decimal (unat i) @ '' found in state''))))"

subsection \<open>The queue\<close>

definition allowed_task_ids :: "task_context \<Rightarrow> u32 list option" where
  "allowed_task_ids ctx =
     (case parse_task_range (Option.bind (json_get (event ctx) ''task_range'') as_str) of
        Inl _ \<Rightarrow> None | Inr ids \<Rightarrow> ids)"

definition task_allowed :: "u32 list option \<Rightarrow> sdlc_task \<Rightarrow> bool" where
  "task_allowed allowed t = (case allowed of None \<Rightarrow> True | Some ids \<Rightarrow> tk_task_id t \<in> set ids)"

definition next_pending :: "sdlc_state \<Rightarrow> u32 list option \<Rightarrow> sdlc_task option" where
  "next_pending s allowed = find (\<lambda>t. tk_status t = TaskPending \<and> task_allowed allowed t) (ss_tasks s)"

definition queue_entry :: "sdlc_task \<Rightarrow> json" where
  "queue_entry t = JObj [(''current_task_id'', json_u32 (tk_task_id t)), (''title'', JStr (tk_title t)),
     (''description'', JStr (tk_description t)), (''acceptance_criteria'', json_strs (tk_acceptance_criteria t)),
     (''attempt_count'', json_u32 (tk_attempt_count t)), (''max_attempts'', json_u32 (tk_max_attempts t))]"

definition task_queue_process :: "task_context \<Rightarrow> node_error + task_context" where
  "task_queue_process ctx = bind_result (latest_state ctx) (\<lambda>s.
     Inr (case next_pending s (allowed_task_ids ctx) of
            Some t \<Rightarrow> put_result ''TaskQueueRouterNode'' (queue_entry t) ctx
          | None \<Rightarrow> ctx))"

definition task_queue_route :: "task_context \<Rightarrow> string option" where
  "task_queue_route ctx =
     (case latest_state ctx of
        Inl _ \<Rightarrow> None
      | Inr s \<Rightarrow> Some (if next_pending s (allowed_task_ids ctx) \<noteq> None
                       then ''ImplementTaskNode'' else ''FinalValidationNode''))"

subsection \<open>The routers after triage and review\<close>

definition triage_route :: "task_context \<Rightarrow> string option" where
  "triage_route ctx = do {
     triage \<leftarrow> get_result ctx ''TriageTaskNode'';
     v \<leftarrow> json_get triage ''verdict'';
     verdict \<leftarrow> as_str v;
     if verdict = ''PASS'' then
       (case resolved_policy ctx of
          Inl _ \<Rightarrow> None
        | Inr p \<Rightarrow> (case sy_review_mode p of
              PerTask \<Rightarrow> Some ''ConsolidatedReviewNode''
            | EndOnly \<Rightarrow> Some ''UpdateTaskStatusNode''
            | TrivialSkip \<Rightarrow>
                (if Option.bind (json_get triage ''trivial'') as_bool = Some True
                 then Some ''UpdateTaskStatusNode'' else Some ''ConsolidatedReviewNode'')))
     else if verdict = ''RETRYABLE'' then Some ''IncrementAttemptNode''
     else Some ''WrapUpNode''
   }"

definition structural_issue_threshold :: nat where
  "structural_issue_threshold = 5"

definition task_review_attempts :: "sdlc_state \<Rightarrow> u32 \<Rightarrow> u32" where
  "task_review_attempts s i = (case find_task s i of Some t \<Rightarrow> tk_review_attempt_count t | None \<Rightarrow> 0)"

definition bounded_review_attempts :: "task_context \<Rightarrow> json \<Rightarrow> u32" where
  "bounded_review_attempts ctx review =
     (case Option.bind (json_get review ''task_review_attempts'') as_u64 of
        Some stamped \<Rightarrow> ucast stamped
      | None \<Rightarrow>
          (case latest_state ctx of
             Inl _ \<Rightarrow> 0
           | Inr s \<Rightarrow>
               (case current_task_id ctx of
                  Inl _ \<Rightarrow> 0 | Inr i \<Rightarrow> task_review_attempts s i)))"

definition bounded_review_retry_route :: "task_context \<Rightarrow> json \<Rightarrow> string option" where
  "bounded_review_retry_route ctx review =
     (case resolved_policy ctx of
        Inr p \<Rightarrow> if sy_max_review_attempts p \<le> bounded_review_attempts ctx review
                then Some ''WrapUpNode'' else Some ''IncrementAttemptNode''
      | Inl _ \<Rightarrow> Some ''IncrementAttemptNode'')"

definition review_route :: "task_context \<Rightarrow> string option" where
  "review_route ctx = do {
     review \<leftarrow> get_result ctx ''ConsolidatedReviewNode'';
     v \<leftarrow> json_get review ''verdict'';
     verdict \<leftarrow> as_str v;
     let issues = (case Option.bind (json_get review ''issues'') as_array of Some xs \<Rightarrow> length xs | None \<Rightarrow> 0);
     if verdict = ''PASS'' then Some ''UpdateTaskStatusNode''
     else if verdict \<in> {''FAIL'', ''PARTIAL''} \<and> (issues = 0 \<or> structural_issue_threshold < issues)
     then Some ''WrapUpNode''
     else bounded_review_retry_route ctx review
   }"

subsection \<open>Counting\<close>

fun modify_task :: "(sdlc_task \<Rightarrow> sdlc_task) \<Rightarrow> u32 \<Rightarrow> sdlc_task list \<Rightarrow> sdlc_task list" where
  "modify_task f i [] = []"
| "modify_task f i (t # ts) = (if tk_task_id t = i then f t # ts else t # modify_task f i ts)"

definition no_task_error :: "sdlc_state \<Rightarrow> u32 \<Rightarrow> node_error" where
  "no_task_error s i = node_error_new (''no task with task_id='' @ decimal (unat i) @ '' found in state for spec '' @
     debug_str (ss_spec_slug s))"

definition bump_task_review_attempt :: "sdlc_state \<Rightarrow> u32 \<Rightarrow> node_error + sdlc_state \<times> u32" where
  "bump_task_review_attempt s i =
     (case find_task s i of
        None \<Rightarrow> Inl (no_task_error s i)
      | Some t \<Rightarrow> Inr (s\<lparr>ss_tasks := modify_task (\<lambda>t. t\<lparr>tk_review_attempt_count := tk_review_attempt_count t + 1\<rparr>)
            i (ss_tasks s)\<rparr>, tk_review_attempt_count t + 1))"

definition bump_task_attempt :: "sdlc_state \<Rightarrow> u32 \<Rightarrow> node_error + sdlc_state" where
  "bump_task_attempt s i =
     (case find_task s i of
        None \<Rightarrow> Inl (no_task_error s i)
      | Some t \<Rightarrow> Inr (s\<lparr>ss_tasks := modify_task (\<lambda>t. t\<lparr>tk_attempt_count := tk_attempt_count t + 1\<rparr>)
            i (ss_tasks s)\<rparr>))"

definition set_queue_attempts :: "u32 \<Rightarrow> task_context \<Rightarrow> task_context" where
  "set_queue_attempts n ctx = ctx\<lparr>nodes := hm_modify ''TaskQueueRouterNode''
     (\<lambda>v. case v of JObj fs \<Rightarrow> JObj (AList.update ''attempt_count'' (json_u32 n) fs) | _ \<Rightarrow> v) (nodes ctx)\<rparr>"

definition increment_attempt_process :: "task_context \<Rightarrow> node_error + task_context" where
  "increment_attempt_process ctx =
     bind_result (current_task_id ctx) (\<lambda>i.
     bind_result (latest_state ctx) (\<lambda>s.
     bind_result (bump_task_attempt s i) (\<lambda>s'.
       (let c1 = (case find_task s' i of
                    Some t \<Rightarrow> set_queue_attempts (tk_attempt_count t) ctx | None \<Rightarrow> ctx)
        in Inr (put_result ''IncrementAttemptNode'' (sdlc_state_to_json s') c1)))))"

definition update_task_status_process :: "task_context \<Rightarrow> node_error + task_context" where
  "update_task_status_process ctx =
     bind_result (current_task_id ctx) (\<lambda>i.
     bind_result (ok_or (Option.bind (Option.bind (get_result ctx ''TriageTaskNode'')
         (\<lambda>v. json_get v ''verdict'')) as_str) (node_error_new ''TriageTaskNode has not run yet'')) (\<lambda>verdict.
       if verdict \<noteq> ''PASS''
       then Inl (node_error_new (''UpdateTaskStatusNode: reached with a non-PASS triage verdict '' @ debug_str verdict @
         ''; every route into this node in both SDLC_FLOW and SDLC_TASK carries PASS (see this node'' @ [CHR 0x27] @
         ''s doc comment)''))
       else bind_result (latest_state ctx) (\<lambda>s.
         case find_task s i of
           None \<Rightarrow> Inl (node_error_new (''UpdateTaskStatusNode: no task with task_id='' @ decimal (unat i) @
             '' found in state for spec '' @ debug_str (ss_spec_slug s)))
         | Some t \<Rightarrow>
             (let te = ss_telemetry s;
                  s' = s\<lparr>ss_tasks := modify_task (\<lambda>t. t\<lparr>tk_status := TaskDone\<rparr>) i (ss_tasks s),
                         ss_telemetry := te\<lparr>te_tasks_passed := te_tasks_passed te + 1\<rparr>\<rparr>
              in Inr (put_result ''UpdateTaskStatusNode'' (sdlc_state_to_json s') ctx)))))"

subsection \<open>The graph\<close>

definition sdlc_schema :: workflow_schema where
  "sdlc_schema = workflow_schema_new ''SDLC_FLOW'' ''SetupWorktreeNode''
     (map (\<lambda>(i, cs). (i, node_config_new i cs))
       [(''SetupWorktreeNode'', [''SpecExistsRouterNode'']),
        (''SpecExistsRouterNode'', [''GenerateTasksNode'', ''LoadTaskStateNode'']),
        (''GenerateTasksNode'', [''LoadTaskStateNode'']),
        (''LoadTaskStateNode'', [''TaskQueueRouterNode'']),
        (''TaskQueueRouterNode'', [''ImplementTaskNode'', ''FinalValidationNode'']),
        (''ImplementTaskNode'', [''TestTaskNode'']),
        (''TestTaskNode'', [''TriageTaskNode'']),
        (''TriageTaskNode'', [''TriageRouterNode'']),
        (''TriageRouterNode'',
           [''ConsolidatedReviewNode'', ''UpdateTaskStatusNode'', ''IncrementAttemptNode'', ''WrapUpNode'']),
        (''ConsolidatedReviewNode'', [''ReviewRouterNode'']),
        (''ReviewRouterNode'', [''UpdateTaskStatusNode'', ''IncrementAttemptNode'', ''WrapUpNode'']),
        (''UpdateTaskStatusNode'', [''SaveStateNode'']),
        (''SaveStateNode'', [''TaskQueueRouterNode'']),
        (''IncrementAttemptNode'', [''ImplementTaskNode'']),
        (''FinalValidationNode'', [''EndReviewNode'']),
        (''EndReviewNode'', [''EndReviewRouterNode'']),
        (''EndReviewRouterNode'', [''PatchDocsNode'', ''WrapUpNode'']),
        (''PatchDocsNode'', [''WrapUpNode'']),
        (''WrapUpNode'', [''CloseBlockNode'']),
        (''CloseBlockNode'', [''PullRequestNode'']),
        (''PullRequestNode'', [''EmitStateNode'']),
        (''EmitStateNode'', [])])"

end
