(* ===== verification/TaskText.thy ===== *)
theory TaskText
  imports TaskState TaskPrompts Loop
begin

text \<open>
  The texts of the task loop: the readers of a model's reply (\<open>workflows/mod.rs\<close>), the compaction of a
  check's output, the feedback blocks that a retry and a triage call are given, and the readers of git's
  output (\<open>workflows/sdlc_flow/task_loop.rs\<close>). A text is the list of its UTF-8 bytes. The Unicode case
  mappings of the standard library are arguments, as are the JSON parser and printer.
\<close>

subsection \<open>Text helpers\<close>

definition newline :: char where
  "newline = CHR 0x0A"

text \<open>\<open>str::contains\<close>, \<open>str::find\<close> and \<open>str::rfind\<close> for a pattern that is not empty.\<close>

fun str_find :: "string \<Rightarrow> string \<Rightarrow> nat option" where
  "str_find pat [] = None"
| "str_find pat (c # cs) = (if prefix pat (c # cs) then Some 0 else map_option Suc (str_find pat cs))"

fun str_rfind :: "string \<Rightarrow> string \<Rightarrow> nat option" where
  "str_rfind pat [] = None"
| "str_rfind pat (c # cs) =
     (case str_rfind pat cs of
        Some n \<Rightarrow> Some (Suc n) | None \<Rightarrow> if prefix pat (c # cs) then Some 0 else None)"

definition str_contains :: "string \<Rightarrow> string \<Rightarrow> bool" where
  "str_contains pat s = (str_find pat s \<noteq> None)"

text \<open>\<open>str::lines\<close>: a line ends in a line feed, or in a carriage return and a line feed.\<close>

definition strip_cr :: "string \<Rightarrow> string" where
  "strip_cr l = (if l \<noteq> [] \<and> last l = CHR 0x0D then butlast l else l)"

definition str_lines :: "string \<Rightarrow> string list" where
  "str_lines s =
     (let ls = split_on newline s
      in map strip_cr (butlast ls) @ (if last ls = [] then [] else [last ls]))"

definition trim_matches :: "char \<Rightarrow> string \<Rightarrow> string" where
  "trim_matches c s = rev (dropWhile (\<lambda>x. x = c) (rev (dropWhile (\<lambda>x. x = c) s)))"

fun take_word :: "string \<Rightarrow> string \<times> string" where
  "take_word [] = ([], [])"
| "take_word (c # cs) =
     (if \<exists>w \<in> set whitespace. prefix w (c # cs) then ([], c # cs)
      else (case take_word cs of (a, b) \<Rightarrow> (c # a, b)))"

text \<open>The first two words of a line, as \<open>split_whitespace\<close> gives them; a missing word is empty.\<close>

definition two_words :: "string \<Rightarrow> string \<times> string" where
  "two_words l =
     (case take_word (trim_start l) of (a, rest) \<Rightarrow> (a, fst (take_word (trim_start rest))))"

subsection \<open>A model's reply\<close>

definition code_fence :: string where
  "code_fence = [CHR 0x60, CHR 0x60, CHR 0x60]"

definition strip_json_fence :: "string \<Rightarrow> string" where
  "strip_json_fence text =
     (let trimmed = trim text
      in if \<not> prefix code_fence trimmed then trimmed
         else (let after_open = drop (length code_fence) trimmed;
                   after_lang = (case split_once newline after_open of
                      Some (_, rest) \<Rightarrow> rest | None \<Rightarrow> after_open)
               in case str_rfind code_fence after_lang of
                    Some i \<Rightarrow> trim (take i after_lang) | None \<Rightarrow> trimmed))"

text \<open>The bytes up to the one that closes the region: depth, inside a string, after a backslash.\<close>

fun balanced_prefix :: "int \<Rightarrow> bool \<Rightarrow> bool \<Rightarrow> string \<Rightarrow> string option" where
  "balanced_prefix depth in_string escaped [] = None"
| "balanced_prefix depth in_string escaped (b # bs) =
     map_option (Cons b)
      (if in_string then
         (if escaped then balanced_prefix depth True False bs
          else if b = CHR 0x5C then balanced_prefix depth True True bs
          else if b = CHR 0x22 then balanced_prefix depth False escaped bs
          else balanced_prefix depth True escaped bs)
       else if b = CHR 0x22 then balanced_prefix depth True escaped bs
       else if b = CHR ''{'' \<or> b = CHR ''['' then balanced_prefix (depth + 1) False escaped bs
       else if b = CHR ''}'' \<or> b = CHR '']'' then
         (if depth - 1 = 0 then Some [] else if depth - 1 < 0 then None
          else balanced_prefix (depth - 1) False escaped bs)
       else balanced_prefix depth False escaped bs)"

definition extract_balanced_json :: "string \<Rightarrow> string option" where
  "extract_balanced_json text =
     (let rest = dropWhile (\<lambda>b. b \<noteq> CHR ''{'' \<and> b \<noteq> CHR ''['') text
      in if rest = [] then None else balanced_prefix 0 False False rest)"

text \<open>
  The JSON parser \<open>jx_parse\<close> gives a value or its error text, \<open>jx_decode_error\<close> the text for a value of
  the wrong shape, and \<open>jx_print\<close> the compact rendering.
\<close>

record json_text =
  jx_parse :: "string \<Rightarrow> string + json"
  jx_decode_error :: "json \<Rightarrow> string"
  jx_print :: "json \<Rightarrow> string"

definition decode_value :: "json_text \<Rightarrow> (json \<Rightarrow> 'a option) \<Rightarrow> json \<Rightarrow> string + 'a" where
  "decode_value J d v = ok_or (d v) (jx_decode_error J v)"

definition decode_text :: "json_text \<Rightarrow> (json \<Rightarrow> 'a option) \<Rightarrow> string \<Rightarrow> string + 'a" where
  "decode_text J d s = bind_result (jx_parse J s) (decode_value J d)"

definition parse_structured_or_fenced ::
  "json_text \<Rightarrow> (json \<Rightarrow> 'a option) \<Rightarrow> task_context \<Rightarrow> string \<Rightarrow> string \<Rightarrow> string + 'a" where
  "parse_structured_or_fenced J d ctx node_id content =
     (let structured = Option.bind (get_result ctx node_id) (\<lambda>v. json_get v ''structured'')
      in if structured \<noteq> None \<and> structured \<noteq> Some JNull then decode_value J d (the structured)
         else (let stripped = strip_json_fence content
               in case decode_text J d stripped of
                    Inr v \<Rightarrow> Inr v
                  | Inl strict_err \<Rightarrow>
                      (case extract_balanced_json stripped of
                         Some candidate \<Rightarrow>
                           (if candidate = stripped then Inl strict_err
                            else case decode_text J d candidate of Inr v \<Rightarrow> Inr v | Inl _ \<Rightarrow> Inl strict_err)
                       | None \<Rightarrow> Inl strict_err)))"

definition raw_output_preview_max_chars :: nat where
  "raw_output_preview_max_chars = 2000"

definition truncate_for_diagnostics :: "string \<Rightarrow> string" where
  "truncate_for_diagnostics text =
     (if chars_count text \<le> raw_output_preview_max_chars then text
      else chars_take raw_output_preview_max_chars text @ ''... [truncated]'')"

datatype 'a model_verdict = Parsed 'a | Unparseable string string

definition parse_model_verdict ::
  "json_text \<Rightarrow> (json \<Rightarrow> 'a option) \<Rightarrow> task_context \<Rightarrow> string \<Rightarrow> string \<Rightarrow> 'a model_verdict" where
  "parse_model_verdict J d ctx node_id content =
     (case parse_structured_or_fenced J d ctx node_id content of
        Inr v \<Rightarrow> Parsed v
      | Inl reason \<Rightarrow> Unparseable (truncate_for_diagnostics content) reason)"

definition normalize_pass_fail_partial_synonym :: "string \<Rightarrow> string" where
  "normalize_pass_fail_partial_synonym v =
     (if v = ''MET'' then ''PASS''
      else if v = ''NOT_MET'' \<or> v = ''UNMET'' then ''FAIL''
      else if v = ''PARTIAL_MET'' \<or> v = ''PARTIALLY_MET'' then ''PARTIAL''
      else v)"

subsection \<open>Check output\<close>

definition truncate_chars :: "string \<Rightarrow> nat \<Rightarrow> string" where
  "truncate_chars text n =
     (if chars_count text \<le> n then text
      else (let marker_len = chars_count retry_feedback_truncated
            in if n \<le> marker_len then chars_take n text
               else chars_take (n - marker_len) text @ retry_feedback_truncated))"

definition bound_review_diff :: "string \<Rightarrow> nat \<Rightarrow> string \<times> bool" where
  "bound_review_diff diff budget =
     (if chars_count diff \<le> budget then (diff, False)
      else (truncate_chars diff (budget - chars_count review_diff_truncated_notice) @
              review_diff_truncated_notice, True))"

definition compact_line_threshold :: nat where
  "compact_line_threshold = 200"

definition compact_context_lines :: nat where
  "compact_context_lines = 4"

definition elision_marker :: "nat \<Rightarrow> string" where
  "elision_marker n = ''... ['' @ decimal n @ '' line'' @ (if n = 1 then [] else ''s'') @ '' omitted] ...''"

definition is_failure_signal_line :: "(string \<Rightarrow> string) \<Rightarrow> string \<Rightarrow> bool" where
  "is_failure_signal_line lower line =
     (let trimmed = trim_start line
      in if prefix ''FAIL '' trimmed \<or> prefix ''FAILED '' trimmed then True
         else (let l = lower line
               in str_contains ''fail'' l \<or> str_contains ''error'' l \<or> str_contains ''panicked'' l \<or>
                  str_contains ''assertion'' l \<or> prefix ''left:'' trimmed \<or> prefix ''right:'' trimmed \<or>
                  str_contains ''summary'' l))"

text \<open>The lines kept: a failure signal and the \<open>compact_context_lines\<close> lines after it.\<close>

definition kept_lines :: "(string \<Rightarrow> string) \<Rightarrow> string list \<Rightarrow> bool list" where
  "kept_lines lower ls = map (\<lambda>j. \<exists>i \<in> {j - compact_context_lines..j}.
     is_failure_signal_line lower (ls ! i)) [0..<length ls]"

function render_kept :: "(bool \<times> string) list \<Rightarrow> string" where
  "render_kept [] = []"
| "render_kept ((True, l) # rest) = l @ newline # render_kept rest"
| "render_kept ((False, l) # rest) =
     (let run = takeWhile (Not \<circ> fst) ((False, l) # rest)
      in elision_marker (length run) @ newline # render_kept (drop (length run) ((False, l) # rest)))"
  by pat_completeness auto
termination by (relation "measure length") auto

definition compact_check_output :: "(string \<Rightarrow> string) \<Rightarrow> string \<Rightarrow> string" where
  "compact_check_output lower output =
     (let ls = str_lines output
      in if length ls \<le> compact_line_threshold then output else render_kept (zip (kept_lines lower ls) ls))"

definition check_str :: "json \<Rightarrow> string \<Rightarrow> string \<Rightarrow> string" where
  "check_str check key dflt = (case Option.bind (json_get check key) as_str of Some s \<Rightarrow> s | None \<Rightarrow> dflt)"

definition check_passed :: "json \<Rightarrow> bool option" where
  "check_passed check = Option.bind (json_get check ''passed'') as_bool"

definition failure_line :: "(string \<Rightarrow> string) \<Rightarrow> string \<Rightarrow> string option" where
  "failure_line lower output =
     (case find (\<lambda>l. prefix ''FAIL '' (trim_start l) \<or> prefix ''FAILED '' (trim_start l)) (str_lines output) of
        Some l \<Rightarrow> Some l
      | None \<Rightarrow> find (\<lambda>l. trim l \<noteq> [] \<and> \<not> prefix ''... ['' (trim l) \<and> is_failure_signal_line lower l)
          (str_lines output))"

fun first_failure_detail :: "(string \<Rightarrow> string) \<Rightarrow> json list \<Rightarrow> string option" where
  "first_failure_detail lower [] = None"
| "first_failure_detail lower (check # checks) =
     (if check_passed check = Some True then first_failure_detail lower checks
      else case failure_line lower (check_str check ''output'' []) of
             Some l \<Rightarrow> Some (trim l) | None \<Rightarrow> first_failure_detail lower checks)"

subsection \<open>Feedback\<close>

record feedback_entry =
  fe_label :: string
  fe_detail :: string

definition join_with :: "string \<Rightarrow> string list \<Rightarrow> string" where
  "join_with sep parts = (case parts of [] \<Rightarrow> [] | p # ps \<Rightarrow> p @ concat (map (\<lambda>q. sep @ q) ps))"

definition failed_check_entry :: "json \<Rightarrow> feedback_entry" where
  "failed_check_entry check =
     \<lparr>fe_label = ''FAILED CHECK: '' @ check_str check ''name'' ''unnamed check'',
      fe_detail = join_with [newline]
        (filter (\<lambda>p. trim p \<noteq> []) [check_str check ''message'' [], check_str check ''output'' []])\<rparr>"

definition test_failure_entries :: "task_context \<Rightarrow> feedback_entry list option" where
  "test_failure_entries ctx = do {
     result \<leftarrow> get_result ctx ''TestTaskNode'';
     if Option.bind (json_get result ''all_passed'') as_bool \<noteq> Some False then None
     else do {
       v \<leftarrow> json_get result ''check_results'';
       checks \<leftarrow> as_array v;
       let entries = map failed_check_entry (filter (\<lambda>c. check_passed c \<noteq> Some True) checks);
       if entries = [] then None else Some entries
     }
   }"

definition review_failure_entries :: "json_text \<Rightarrow> task_context \<Rightarrow> feedback_entry list option" where
  "review_failure_entries J ctx = do {
     result \<leftarrow> get_result ctx ''ConsolidatedReviewNode'';
     let verdict = check_str result ''verdict'' [];
     if verdict = [] \<or> verdict = ''PASS'' then None
     else Some (\<lparr>fe_label = ''REVIEW VERDICT: '' @ verdict, fe_detail = check_str result ''summary'' []\<rparr> #
       (case Option.bind (json_get result ''issues'') as_array of
          None \<Rightarrow> []
        | Some issues \<Rightarrow> map (\<lambda>(k, issue). \<lparr>fe_label = ''REVIEW ISSUE '' @ decimal (Suc k) @ '':'',
            fe_detail = (case as_str issue of Some s \<Rightarrow> s | None \<Rightarrow> jx_print J issue)\<rparr>)
            (zip [0..<length issues] issues)))
   }"

definition render_entry :: "nat \<Rightarrow> feedback_entry \<Rightarrow> string" where
  "render_entry per_entry e = fe_label e @ [newline] @
     (if 0 < per_entry \<and> fe_detail e \<noteq> [] then truncate_chars (fe_detail e) per_entry @ [newline] else [])"

definition render_feedback_block :: "string \<Rightarrow> feedback_entry list \<Rightarrow> nat \<Rightarrow> string option" where
  "render_feedback_block header entries budget =
     (if budget = 0 \<or> entries = [] then None
      else (let fixed = chars_count header + sum_list (map (\<lambda>e. chars_count (fe_label e) + 1) entries);
                per_entry = (budget - fixed) div length entries;
                block = header @ concat (map (render_entry per_entry) entries);
                bounded = (if fixed \<le> budget then truncate_chars block budget else block)
            in if trim bounded = [] then None else Some bounded))"

definition prior_attempt_feedback :: "json_text \<Rightarrow> task_context \<Rightarrow> retry_feedback \<Rightarrow> string option" where
  "prior_attempt_feedback J ctx cfg =
     (if \<not> rf_enabled cfg then None
      else Option.bind (case test_failure_entries ctx of Some es \<Rightarrow> Some es | None \<Rightarrow> review_failure_entries J ctx)
        (\<lambda>es. render_feedback_block retry_feedback_header es (unat (rf_max_chars cfg))))"

definition triage_failure_feedback :: "task_context \<Rightarrow> retry_feedback \<Rightarrow> string option" where
  "triage_failure_feedback ctx cfg =
     (if \<not> rf_enabled cfg then None
      else Option.bind (test_failure_entries ctx)
        (\<lambda>es. render_feedback_block triage_failure_header es (unat (rf_max_chars cfg))))"

subsection \<open>Git\<close>

record command_output =
  co_status :: int
  co_stdout :: string
  co_stderr :: string

text \<open>A runner takes the program, its arguments and the working directory; an error is its text.\<close>

type_synonym command_runner = "string \<Rightarrow> string list \<Rightarrow> string \<Rightarrow> string + command_output"

definition stdout_or_empty :: "string + command_output \<Rightarrow> string" where
  "stdout_or_empty r = (case r of Inr o' \<Rightarrow> co_stdout o' | Inl _ \<Rightarrow> [])"

definition task_diff_base :: "task_context \<Rightarrow> string" where
  "task_diff_base ctx =
     (case Option.bind (Option.bind (get_result ctx ''ImplementTaskNode'') (\<lambda>v. json_get v ''task_base_sha'')) as_str of
        Some sha \<Rightarrow> sha | None \<Rightarrow> ''HEAD'')"

fun count_numstat :: "string list \<Rightarrow> u32 \<Rightarrow> u32 \<Rightarrow> (u32 \<times> u32) option" where
  "count_numstat [] files changed = Some (files, changed)"
| "count_numstat (l # ls) files changed =
     (let line = trim l
      in if line = [] then count_numstat ls files changed
         else case two_words line of (a, d) \<Rightarrow>
           (case (parse_u32 a, parse_u32 d) of
              (Some x, Some y) \<Rightarrow>
                count_numstat ls (files + 1) (saturating_add_u32 (saturating_add_u32 changed x) y)
            | _ \<Rightarrow> None))"

definition classify_trivial :: "task_context \<Rightarrow> command_runner \<Rightarrow> sdlc_policy \<Rightarrow> bool" where
  "classify_trivial ctx runner p =
     (case worktree_path ctx of
        Inl _ \<Rightarrow> False
      | Inr worktree \<Rightarrow>
          (case runner ''git'' [''diff'', ''--numstat'', task_diff_base ctx] worktree of
             Inl _ \<Rightarrow> False
           | Inr out \<Rightarrow>
               (case count_numstat (str_lines (co_stdout out)) 0 0 of
                  None \<Rightarrow> False
                | Some (files, changed) \<Rightarrow>
                    files \<le> sy_review_skip_max_files p \<and> changed \<le> sy_review_skip_max_diff_lines p)))"

definition porcelain_path :: "string \<Rightarrow> string option" where
  "porcelain_path line =
     (if length line \<le> 3 then None
      else (let rest = trim (drop 3 line)
            in if rest = [] then None
               else (let path = trim (case str_rfind '' -> '' rest of Some i \<Rightarrow> drop (i + 4) rest | None \<Rightarrow> rest)
                     in if path = [] then None else Some (trim_matches (CHR 0x22) path))))"

definition git_worktree_changed_files :: "command_runner \<Rightarrow> string \<Rightarrow> string list" where
  "git_worktree_changed_files runner worktree = List.map_filter porcelain_path
     (str_lines (stdout_or_empty (runner ''git'' [''status'', ''--porcelain''] worktree)))"

definition git_worktree_head_sha :: "command_runner \<Rightarrow> string \<Rightarrow> string option" where
  "git_worktree_head_sha runner worktree =
     (case runner ''git'' [''rev-parse'', ''HEAD''] worktree of
        Inl _ \<Rightarrow> None
      | Inr out \<Rightarrow>
          (if co_status out \<noteq> 0 then None
           else let sha = trim (co_stdout out) in if sha = [] then None else Some sha))"

definition git_files_changed_since :: "command_runner \<Rightarrow> string \<Rightarrow> string option \<Rightarrow> string list" where
  "git_files_changed_since runner worktree pre =
     (case pre of
        None \<Rightarrow> []
      | Some sha \<Rightarrow> filter (\<lambda>l. l \<noteq> []) (map trim (str_lines (stdout_or_empty
          (runner ''git'' [''diff'', ''--name-only'', sha, ''HEAD''] worktree)))))"

definition is_noop_commit :: "(string \<Rightarrow> string) \<Rightarrow> string \<Rightarrow> string \<Rightarrow> bool" where
  "is_noop_commit lower err_text out_text =
     (let haystack = lower (out_text @ [newline] @ err_text)
      in str_contains ''nothing to commit'' haystack \<or> str_contains ''working tree clean'' haystack \<or>
         str_contains ''no changes added to commit'' haystack)"

datatype commit_outcome = Committed | NoOp | CommitFailed string

definition commit_all :: "(string \<Rightarrow> string) \<Rightarrow> command_runner \<Rightarrow> string \<Rightarrow> string \<Rightarrow> commit_outcome" where
  "commit_all lower runner worktree message =
     (case runner ''git'' [''commit'', ''-m'', message] worktree of
        Inr out \<Rightarrow>
          (if co_status out = 0 then Committed
           else if is_noop_commit lower (co_stderr out) (co_stdout out) then NoOp
           else CommitFailed (trim (co_stderr out)))
      | Inl err \<Rightarrow> CommitFailed (''git commit could not be run: '' @ err))"

fun is_committed :: "commit_outcome \<Rightarrow> bool" where
  "is_committed Committed = True"
| "is_committed NoOp = False"
| "is_committed (CommitFailed _) = False"

fun failure_detail :: "commit_outcome \<Rightarrow> string option" where
  "failure_detail Committed = None"
| "failure_detail NoOp = None"
| "failure_detail (CommitFailed d) = Some d"

end
