(* ===== verification/TaskLoop.thy ===== *)
theory TaskLoop
  imports TaskText Runner
begin

text \<open>
  The nodes of the SDLC task loop that call a model or git (\<open>workflows/sdlc_flow/task_loop.rs\<close>):
  \<open>ImplementTaskNode\<close>, \<open>TriageTaskNode\<close>, \<open>ConsolidatedReviewNode\<close> and \<open>SaveStateNode\<close>, and the registry
  of the loop's nodes for the workflow runner.

  What a node's dispatch meets is an environment: the agent's call environment, the SDK's entry point,
  the node's transport slot and configuration, the command runner, and the text functions. The calls
  \<open>git add\<close>, whose outcome the code drops, are not shown: the runner's answers may depend on them.
\<close>

record task_env =
  tx_call :: call_env
  tx_execute :: model_transport
  tx_slot :: transport_slot
  tx_has_token :: bool
  tx_config :: sdk_config
  tx_runner :: command_runner
  tx_json :: json_text
  tx_upper :: "string \<Rightarrow> string"
  tx_lower :: "string \<Rightarrow> string"

definition ok_part :: "'e + 'a \<Rightarrow> 'a option" where
  "ok_part r = (case r of Inl _ \<Rightarrow> None | Inr a \<Rightarrow> Some a)"

definition task_step :: "task_env \<Rightarrow> string \<Rightarrow> sdk_config \<Rightarrow> string \<Rightarrow> sdlc_policy \<Rightarrow> agent_code_step" where
  "task_step E node_id c prompt p =
     (let s = slot_apply (tx_slot E)
        (with_retry_policy (sy_transport_retry p) (agent_code_step_new (tx_execute E) node_id c prompt))
      in if tx_has_token E then with_cancellation_token s else s)"

definition node_content :: "task_context \<Rightarrow> string \<Rightarrow> string option" where
  "node_content ctx i = Option.bind (Option.bind (get_result ctx i) (\<lambda>v. json_get v ''content'')) as_str"

definition value_or :: "json \<Rightarrow> string \<Rightarrow> json \<Rightarrow> json" where
  "value_or v key dflt = (case json_get v key of Some w \<Rightarrow> w | None \<Rightarrow> dflt)"

text \<open>The strict read of the stamped policy raises only these two errors.\<close>

fun policy_node_error :: "policy_error \<Rightarrow> node_error" where
  "policy_node_error NoPolicyStamped = node_error_new (''no resolved policy stamped under ctx.nodes['' @
     resolved_policy_identity @ '']'')"
| "policy_node_error e = node_error_new (''failed to parse resolved policy stamped under '' @ resolved_policy_identity)"

definition policy_or_error :: "task_context \<Rightarrow> node_error + sdlc_policy" where
  "policy_or_error ctx = map_err policy_node_error (resolved_policy ctx)"

subsection \<open>ImplementTaskNode\<close>

record implement_output =
  io_summary :: string
  io_modified_files :: "string list"
  io_tests_added :: "string list"

definition implement_output_of_json :: "json \<Rightarrow> implement_output option" where
  "implement_output_of_json v = do {
     s \<leftarrow> field_req as_str v ''summary'';
     m \<leftarrow> field_default (dec_list as_str) [] v ''modified_files'';
     t \<leftarrow> field_default (dec_list as_str) [] v ''tests_added'';
     Some \<lparr>io_summary = s, io_modified_files = m, io_tests_added = t\<rparr>
   }"

definition schema_type :: "string \<Rightarrow> json" where
  "schema_type t = JObj [(''type'', JStr t)]"

definition schema_strings :: json where
  "schema_strings = JObj [(''type'', JStr ''array''), (''items'', schema_type ''string'')]"

definition implement_output_schema :: json where
  "implement_output_schema = JObj [(''type'', JStr ''object''),
     (''properties'', JObj [(''summary'', schema_type ''string''), (''modified_files'', schema_strings),
        (''tests_added'', schema_strings)]),
     (''required'', json_strs [''summary''])]"

definition response_contract :: "agent_backend \<Rightarrow> string" where
  "response_contract b =
     (case b of
        Aider \<Rightarrow> (''Implement the following SDLC task by making the actual file/code changes in this repository '' @
       ''now. Do not reply with a JSON summary or any other description of the change '' @
       [CHR 0xE2, CHR 0x80, CHR 0x94] @
       '' apply the edit directly; it will be committed automatically afterward.'')
      | Pi \<Rightarrow> (''Implement the following SDLC task by calling your file-writing and editing tools to make '' @
       ''the actual changes in this repository now. A reply that only describes or summarizes a change '' @
       ''does nothing '' @ [CHR 0xE2, CHR 0x80, CHR 0x94] @
       '' only tool calls that write files count, and the repository is checked afterward.'')
      | ClaudeCli \<Rightarrow> (''Implement the following SDLC task. Respond with strict JSON of the shape {'' @ [CHR 0x22] @
       ''summary'' @ [CHR 0x22] @ '': str, '' @ [CHR 0x22] @ ''modified_files'' @ [CHR 0x22] @ '': [str], '' @
       [CHR 0x22] @ ''tests_added'' @ [CHR 0x22] @ '': [str]}.''))"

definition files_directive :: "sdlc_policy \<Rightarrow> sdlc_task \<Rightarrow> string" where
  "files_directive p t =
     (if sy_agent_backend p \<noteq> ClaudeCli \<and> tk_files t \<noteq> []
      then ('' Files to create or edit, as exact paths relative to the repository root '' @
       [CHR 0xE2, CHR 0x80, CHR 0x94] @
       '' use these names verbatim, never a placeholder directory such as path/to/: '') @
        join_with '', '' (tk_files t) @ ''.''
      else [])"

definition implement_prompt :: "task_env \<Rightarrow> task_context \<Rightarrow> json \<Rightarrow> sdlc_policy \<Rightarrow> sdlc_task \<Rightarrow> string" where
  "implement_prompt E ctx current p t =
     path_discipline_preamble @ implement_standards_preamble @
     (case worktree_path ctx of
        Inr w \<Rightarrow> ''Your working tree root is '' @ w @ ('' '' @ [CHR 0xE2, CHR 0x80, CHR 0x94] @ '' '' @ [CHR 0x60] @ ''git rev-parse --show-toplevel'' @
       [CHR 0x60] @ '' must resolve there before you write.'' @ [CHR 0x0A, CHR 0x0A])
      | Inl _ \<Rightarrow> []) @
     response_contract (sy_agent_backend p) @
     ('' When an acceptance criterion specifies exact literal text or content, reproduce it byte '' @
       ''for byte '' @ [CHR 0xE2, CHR 0x80, CHR 0x94] @
       '' no paraphrasing, no placeholder or translated text, and add nothing else to the file beyond '' @
       ''what is asked.'') @
     files_directive p t @ ([CHR 0x0A, CHR 0x0A] @ ''Title: '') @ check_str current ''title'' [] @
     ([CHR 0x0A] @ ''Description: '') @ check_str current ''description'' [] @
     ([CHR 0x0A] @ ''Acceptance criteria: '') @
     jx_print (tx_json E) (value_or current ''acceptance_criteria'' (JArr [])) @
     (case prior_attempt_feedback (tx_json E) ctx (sy_retry_feedback p) of Some f \<Rightarrow> f | None \<Rightarrow> [])"

definition is_final_attempt :: "sdlc_task \<Rightarrow> bool" where
  "is_final_attempt t \<longleftrightarrow> unat (tk_max_attempts t) \<le> unat (tk_attempt_count t) + 1"

definition escalated_policy :: "sdlc_policy \<Rightarrow> sdlc_task \<Rightarrow> sdlc_policy" where
  "escalated_policy p t =
     (case (is_final_attempt t, mt_implement_final_attempt (sy_model_tiers p)) of
        (True, Some tier) \<Rightarrow> p\<lparr>sy_model_tiers := (sy_model_tiers p)\<lparr>mt_implement := tier\<rparr>\<rparr>
      | _ \<Rightarrow> p)"

definition implement_config :: "task_env \<Rightarrow> task_context \<Rightarrow> sdlc_policy \<Rightarrow> sdlc_task \<Rightarrow> sdk_config" where
  "implement_config E ctx p t =
     (let c = apply_policy_config stable_system_prompt (tx_config E) (escalated_policy p t) StImplement;
          c1 = (case worktree_path ctx of Inr w \<Rightarrow> c\<lparr>cf_cwd := Some w\<rparr> | Inl _ \<Rightarrow> c);
          c2 = c1\<lparr>cf_json_schema := Some implement_output_schema\<rparr>
      in if sy_agent_backend p = Aider \<and> tk_files t \<noteq> []
         then c2\<lparr>cf_env := cf_env c2 @ [(''ENGINE_AIDER_FILES'', join_with [newline] (tk_files t))]\<rparr>
         else c2)"

definition pre_call_sha :: "task_env \<Rightarrow> task_context \<Rightarrow> sdlc_policy \<Rightarrow> string option" where
  "pre_call_sha E ctx p =
     (if sy_agent_backend p = Aider
      then Option.bind (ok_part (worktree_path ctx)) (git_worktree_head_sha (tx_runner E)) else None)"

definition task_base_sha :: "task_env \<Rightarrow> task_context \<Rightarrow> sdlc_policy \<Rightarrow> sdlc_task \<Rightarrow> string option" where
  "task_base_sha E ctx p t =
     (if sy_agent_backend p \<noteq> Aider then None
      else case get_result ctx ''ImplementTaskNode'' of
             None \<Rightarrow> pre_call_sha E ctx p
           | Some prior \<Rightarrow>
               (if Option.bind (json_get prior ''task_id'') as_u64 = Some (ucast (tk_task_id t))
                then (case Option.bind (json_get prior ''task_base_sha'') as_str of
                        Some sha \<Rightarrow> Some sha | None \<Rightarrow> pre_call_sha E ctx p)
                else pre_call_sha E ctx p))"

definition attempt_files :: "task_env \<Rightarrow> task_context \<Rightarrow> sdlc_policy \<Rightarrow> implement_output \<Rightarrow> string list" where
  "attempt_files E ctx p out =
     (case sy_agent_backend p of
        ClaudeCli \<Rightarrow> io_modified_files out
      | Aider \<Rightarrow> (case worktree_path ctx of
            Inr w \<Rightarrow> git_files_changed_since (tx_runner E) w (pre_call_sha E ctx p) | Inl _ \<Rightarrow> [])
      | Pi \<Rightarrow> (case worktree_path ctx of
            Inr w \<Rightarrow> git_worktree_changed_files (tx_runner E) w | Inl _ \<Rightarrow> []))"

definition count_attempt :: "sdlc_state \<Rightarrow> sdlc_state" where
  "count_attempt s = s\<lparr>ss_telemetry := (ss_telemetry s)
     \<lparr>te_total_attempts := te_total_attempts (ss_telemetry s) + 1\<rparr>\<rparr>"

definition implement_result ::
  "task_env \<Rightarrow> task_context \<Rightarrow> task_context \<Rightarrow> sdlc_policy \<Rightarrow> sdlc_task \<Rightarrow> sdlc_state \<Rightarrow> (string \<times> json) list" where
  "implement_result E ctx ctx1 p t counted =
     (let content = (case node_content ctx1 ''ImplementTaskNode'' of Some c \<Rightarrow> c | None \<Rightarrow> []);
          out = (case parse_structured_or_fenced (tx_json E) implement_output_of_json ctx1 ''ImplementTaskNode'' content of
             Inr v \<Rightarrow> v | Inl _ \<Rightarrow> \<lparr>io_summary = content, io_modified_files = [], io_tests_added = []\<rparr>)
      in carry_forward_billing ctx1 ''ImplementTaskNode''
        [(''summary'', JStr (io_summary out)),
         (''modified_files'', json_strs (attempt_files E ctx p out)),
         (''tests_added'', json_strs (io_tests_added out)),
         (''model_tier'', json_tier (mt_implement (sy_model_tiers (escalated_policy p t)))),
         (''pre_call_sha'', json_of_opt JStr (pre_call_sha E ctx p)),
         (''task_id'', json_u32 (tk_task_id t)),
         (''task_base_sha'', json_of_opt JStr (task_base_sha E ctx p t)),
         (''state'', sdlc_state_to_json counted)])"

definition implement_process :: "task_env \<Rightarrow> task_context \<Rightarrow> node_error + task_context" where
  "implement_process E ctx =
     bind_result (current_task_fields ctx) (\<lambda>current.
     bind_result (policy_or_error ctx) (\<lambda>p.
     bind_result (current_task_state ctx ''ImplementTaskNode'') (\<lambda>t.
     bind_result (latest_state ctx) (\<lambda>s.
       (let prompt = apply_verbosity_directive (implement_prompt E ctx current p t)
              (sy_output_verbosity (escalated_policy p t))
        in bind_result (agent_process (tx_call E)
             (task_step E ''ImplementTaskNode'' (implement_config E ctx p t) prompt p) ctx)
             (\<lambda>ctx1. Inr (put_result ''ImplementTaskNode''
                (JObj (implement_result E ctx ctx1 p t (count_attempt s))) ctx1)))))))"

subsection \<open>TriageTaskNode\<close>

record triage_output =
  to_verdict :: string
  to_reason :: string
  to_evidence :: string
  to_base_state_checked :: bool
  to_same_failure_as_before :: bool

definition triage_output_of_json :: "json \<Rightarrow> triage_output option" where
  "triage_output_of_json v = do {
     vd \<leftarrow> field_req as_str v ''verdict'';
     r \<leftarrow> field_req as_str v ''reason'';
     e \<leftarrow> field_default as_str [] v ''evidence'';
     b \<leftarrow> field_default as_bool False v ''base_state_checked'';
     sf \<leftarrow> field_default as_bool False v ''same_failure_as_before'';
     Some \<lparr>to_verdict = vd, to_reason = r, to_evidence = e, to_base_state_checked = b,
           to_same_failure_as_before = sf\<rparr>
   }"

definition triage_output_schema :: json where
  "triage_output_schema = JObj [(''type'', JStr ''object''),
     (''properties'', JObj [(''verdict'', schema_type ''string''), (''reason'', schema_type ''string''),
        (''evidence'', schema_type ''string''), (''base_state_checked'', schema_type ''boolean''),
        (''same_failure_as_before'', schema_type ''boolean'')]),
     (''required'', json_strs [''verdict'', ''reason''])]"

definition triage_verdict_json :: "string \<Rightarrow> string \<Rightarrow> json" where
  "triage_verdict_json verdict reason = JObj [(''verdict'', JStr verdict), (''reason'', JStr reason)]"

definition check_results :: "json \<Rightarrow> json list" where
  "check_results result = (case Option.bind (json_get result ''check_results'') as_array of Some cs \<Rightarrow> cs | None \<Rightarrow> [])"

definition escalating_check :: "json \<Rightarrow> json option" where
  "escalating_check result = find (\<lambda>c. check_passed c = Some False \<and>
     Option.bind (json_get c ''failure_class'') as_str = Some ''escalate'') (check_results result)"

definition escalate_reason :: "json \<Rightarrow> string" where
  "escalate_reason check = ''Check '' @ [CHR 0x27] @ check_str check ''name'' ''<unnamed check>'' @ [CHR 0x27] @
     '' declared failureClass: escalate and failed; bailing without retry.''"

definition exhausted_reason :: "(string \<Rightarrow> string) \<Rightarrow> sdlc_task \<Rightarrow> json \<Rightarrow> string" where
  "exhausted_reason lower t result =
     ''Max attempts ('' @ decimal (unat (tk_max_attempts t)) @
     ('') reached without a passing run. To recover: re-run just this task with '' @ [CHR 0x60] @
       ''retry_task: '') @ decimal (unat (tk_task_id t)) @
     ([CHR 0x60] @ '' (keeps every other task'' @ [CHR 0x27] @
       ''s status, attempt count and commits), or restart the whole spec with '' @ [CHR 0x60] @
       ''resume: false'' @ [CHR 0x60] @ '' (archives the current state and reruns from scratch).'') @
     (case first_failure_detail lower (check_results result) of
        Some d \<Rightarrow> ([CHR 0x0A] @ ''Failing check detail: '') @ d | None \<Rightarrow> [])"

definition retry_reason :: "sdlc_task \<Rightarrow> string" where
  "retry_reason t = ''Checks failed; retrying (attempt '' @ decimal (unat (tk_attempt_count t) + 1) @ '' of '' @
     decimal (unat (tk_max_attempts t)) @ '').''"

definition triage_prompt :: "task_context \<Rightarrow> json \<Rightarrow> json \<Rightarrow> sdlc_policy \<Rightarrow> sdlc_task \<Rightarrow> string" where
  "triage_prompt ctx test_result current p t =
     triage_stable_prompt @
     (''Classify this task'' @ [CHR 0x27] @
       ''s test failure as RETRYABLE or MAJOR_BAIL. Respond with strict JSON of the shape {'' @ [CHR 0x22] @
       ''verdict'' @ [CHR 0x22] @ '': str, '' @ [CHR 0x22] @ ''reason'' @ [CHR 0x22] @ '': str, '' @
       [CHR 0x22] @ ''evidence'' @ [CHR 0x22] @ '': str, '' @ [CHR 0x22] @ ''base_state_checked'' @ [CHR 0x22] @
       '': bool, '' @ [CHR 0x22] @ ''same_failure_as_before'' @ [CHR 0x22] @ '': bool}.'' @
       [CHR 0x0A, CHR 0x0A] @ ''Task: '') @ check_str current ''title'' [] @
     ([CHR 0x0A] @ ''Attempt '') @ decimal (unat (tk_attempt_count t) + 1) @ '' of '' @ decimal (unat (tk_max_attempts t)) @
     (''.'' @ [CHR 0x0A] @ ''Failure summary: '') @ check_str test_result ''failure_summary'' [] @
     (case triage_failure_feedback ctx (sy_retry_feedback p) of Some f \<Rightarrow> f | None \<Rightarrow> [])"

definition unparseable_verdict :: string where
  "unparseable_verdict = ''UNPARSEABLE''"

definition triage_result :: "task_env \<Rightarrow> task_context \<Rightarrow> string \<Rightarrow> (string \<times> json) list" where
  "triage_result E ctx1 content =
     (let (out, preview) =
        (case parse_model_verdict (tx_json E) triage_output_of_json ctx1 ''TriageTaskNode'' content of
           Parsed out \<Rightarrow> (out, None)
         | Unparseable raw reason \<Rightarrow>
             (\<lparr>to_verdict = unparseable_verdict,
               to_reason = ''TriageTaskNode: model output could not be parsed as JSON: '' @ reason,
               to_evidence = [], to_base_state_checked = False, to_same_failure_as_before = False\<rparr>, Some raw));
          verdict = tx_upper E (trim (to_verdict out))
      in carry_forward_billing ctx1 ''TriageTaskNode''
        ([(''verdict'', JStr verdict), (''reason'', JStr (to_reason out)), (''evidence'', JStr (to_evidence out)),
          (''base_state_checked'', JBool (to_base_state_checked out)),
          (''same_failure_as_before'', JBool (to_same_failure_as_before out))] @
         (if verdict \<in> {''PASS'', ''RETRYABLE'', ''MAJOR_BAIL''} then []
          else [(''unrecognized_verdict'', JStr verdict)]) @
         (case preview of Some raw \<Rightarrow> [(''raw_output_preview'', JStr raw)] | None \<Rightarrow> [])))"

definition wants_llm_triage :: "task_context \<Rightarrow> node_error + bool" where
  "wants_llm_triage ctx =
     (case Option.bind (json_get (event ctx) ''llm_triage'') as_bool of
        Some bare \<Rightarrow> Inr bare
      | None \<Rightarrow> bind_result (policy_or_error ctx) (\<lambda>p. Inr (sy_llm_triage p)))"

definition triage_call ::
  "task_env \<Rightarrow> task_context \<Rightarrow> json \<Rightarrow> json \<Rightarrow> sdlc_task \<Rightarrow> node_error + task_context" where
  "triage_call E ctx test_result current t =
     bind_result (policy_or_error ctx) (\<lambda>p.
       (let prompt = apply_verbosity_directive (triage_prompt ctx test_result current p t) (sy_output_verbosity p);
            c = (apply_policy_config stable_system_prompt (tx_config E) p StTriage)
                  \<lparr>cf_json_schema := Some triage_output_schema\<rparr>;
            baseline = session_baseline ctx
        in bind_result (agent_process (tx_call E) (task_step E ''TriageTaskNode'' c prompt p) ctx) (\<lambda>ctx1.
           bind_result (ok_or (node_content ctx1 ''TriageTaskNode'')
             (with_sessions (node_error_new ''TriageTaskNode: model returned no content'')
               (sessions_since ctx1 baseline))) (\<lambda>content.
           Inr (put_result ''TriageTaskNode'' (JObj (triage_result E ctx1 content)) ctx1)))))"

definition triage_process :: "task_env \<Rightarrow> task_context \<Rightarrow> node_error + task_context" where
  "triage_process E ctx =
     bind_result (ok_or (get_result ctx ''TestTaskNode'') (node_error_new ''TestTaskNode has not run yet'')) (\<lambda>test_result.
     bind_result (current_task_fields ctx) (\<lambda>current.
     bind_result (current_task_state ctx ''TriageTaskNode'') (\<lambda>t.
       if Option.bind (json_get test_result ''all_passed'') as_bool = Some True
       then bind_result (policy_or_error ctx) (\<lambda>p. Inr (put_result ''TriageTaskNode''
              (JObj [(''verdict'', JStr ''PASS''), (''reason'', JStr ''All harness checks passed.''),
                     (''trivial'', JBool (classify_trivial ctx (tx_runner E) p))]) ctx))
       else case escalating_check test_result of
         Some check \<Rightarrow> Inr (put_result ''TriageTaskNode''
           (triage_verdict_json ''MAJOR_BAIL'' (escalate_reason check)) ctx)
       | None \<Rightarrow>
           (if tk_max_attempts t \<le> tk_attempt_count t
            then Inr (put_result ''TriageTaskNode''
              (triage_verdict_json ''MAJOR_BAIL'' (exhausted_reason (tx_lower E) t test_result)) ctx)
            else bind_result (wants_llm_triage ctx) (\<lambda>llm.
              if \<not> llm
              then Inr (put_result ''TriageTaskNode'' (triage_verdict_json ''RETRYABLE'' (retry_reason t)) ctx)
              else triage_call E ctx test_result current t)))))"

subsection \<open>ConsolidatedReviewNode\<close>

record review_output =
  ro_verdict :: string
  ro_summary :: string
  ro_issues :: "string list"
  ro_localized :: bool

definition review_output_of_json :: "json \<Rightarrow> review_output option" where
  "review_output_of_json v = do {
     vd \<leftarrow> field_req as_str v ''verdict'';
     s \<leftarrow> field_req as_str v ''summary'';
     is \<leftarrow> field_default (dec_list as_str) [] v ''issues'';
     l \<leftarrow> field_default as_bool False v ''localized'';
     Some \<lparr>ro_verdict = vd, ro_summary = s, ro_issues = is, ro_localized = l\<rparr>
   }"

definition review_output_schema :: json where
  "review_output_schema = JObj [(''type'', JStr ''object''),
     (''properties'', JObj
       [(''verdict'', JObj [(''type'', JStr ''string''), (''enum'', json_strs [''PASS'', ''PARTIAL'', ''FAIL''])]),
        (''summary'', schema_type ''string''), (''issues'', schema_strings),
        (''localized'', JObj [(''type'', JStr ''boolean''), (''description'', JStr
          (''True if the FAIL/PARTIAL issues are small and bounded (a few files, clear cause, a targeted '' @
       ''fix can close them); false if broad or structural (cross-cutting, ambiguous, or needing '' @
       ''a human re-plan). Irrelevant on PASS.''))])]),
     (''required'', json_strs [''verdict'', ''summary''])]"

definition review_prompt :: "task_env \<Rightarrow> json \<Rightarrow> string \<Rightarrow> string" where
  "review_prompt E current diff =
     review_stable_prompt @
     (''Review this task'' @ [CHR 0x27] @
       ''s diff against its acceptance criteria. Respond with strict JSON of the shape {'' @ [CHR 0x22] @
       ''verdict'' @ [CHR 0x22] @ '': str, '' @ [CHR 0x22] @ ''summary'' @ [CHR 0x22] @ '': str, '' @
       [CHR 0x22] @ ''issues'' @ [CHR 0x22] @ '': [str], '' @ [CHR 0x22] @ ''localized'' @ [CHR 0x22] @
       '': bool}. '' @ [CHR 0x22] @ ''verdict'' @ [CHR 0x22] @ '' must be exactly one of '' @ [CHR 0x22] @
       ''PASS'' @ [CHR 0x22] @ '', '' @ [CHR 0x22] @ ''PARTIAL'' @ [CHR 0x22] @ '', or '' @ [CHR 0x22] @
       ''FAIL'' @ [CHR 0x22] @ '' '' @ [CHR 0xE2, CHR 0x80, CHR 0x94] @ '' no other value is accepted.'' @
       [CHR 0x0A, CHR 0x0A] @ ''Acceptance criteria: '') @
     jx_print (tx_json E) (value_or current ''acceptance_criteria'' (JArr [])) @ ([CHR 0x0A, CHR 0x0A] @ ''Diff:'' @ [CHR 0x0A]) @ diff"

definition count_review :: "sdlc_state \<Rightarrow> sdlc_state" where
  "count_review s = s\<lparr>ss_telemetry := (ss_telemetry s)
     \<lparr>te_review_attempts := te_review_attempts (ss_telemetry s) + 1\<rparr>\<rparr>"

definition charge_review :: "sdlc_state \<Rightarrow> u32 \<Rightarrow> string \<Rightarrow> node_error + sdlc_state \<times> u32" where
  "charge_review counted i verdict =
     (if verdict = ''PASS'' then Inr (counted, task_review_attempts counted i)
      else bump_task_review_attempt counted i)"

definition review_verdict :: "task_env \<Rightarrow> task_context \<Rightarrow> string \<Rightarrow> review_output \<times> string option" where
  "review_verdict E ctx1 content =
     (case parse_model_verdict (tx_json E) review_output_of_json ctx1 ''ConsolidatedReviewNode'' content of
        Parsed out \<Rightarrow> (out, None)
      | Unparseable raw reason \<Rightarrow>
          (\<lparr>ro_verdict = unparseable_verdict,
            ro_summary = ''ConsolidatedReviewNode: model output could not be parsed as JSON: '' @ reason,
            ro_issues = [], ro_localized = False\<rparr>, Some raw))"

definition normal_verdict :: "task_env \<Rightarrow> review_output \<Rightarrow> string" where
  "normal_verdict E out = normalize_pass_fail_partial_synonym (tx_upper E (trim (ro_verdict out)))"

definition review_result ::
  "task_env \<Rightarrow> task_context \<Rightarrow> sdlc_policy \<Rightarrow> bool \<Rightarrow> review_output \<Rightarrow> string option \<Rightarrow> sdlc_state \<Rightarrow> u32 \<Rightarrow>
   (string \<times> json) list" where
  "review_result E ctx1 p truncated out preview s attempts =
     (let verdict = normal_verdict E out
      in carry_forward_billing ctx1 ''ConsolidatedReviewNode''
        ([(''verdict'', JStr verdict), (''summary'', JStr (ro_summary out)), (''issues'', json_strs (ro_issues out)),
          (''localized'', JBool (ro_localized out)),
          (''review_diff_max_chars'', json_u32 (sy_review_diff_max_chars p)),
          (''review_diff_truncated'', JBool truncated)] @
         (if verdict \<in> {''PASS'', ''FAIL'', ''PARTIAL''} then [] else [(''unrecognized_verdict'', JStr verdict)]) @
         (case preview of Some raw \<Rightarrow> [(''raw_output_preview'', JStr raw)] | None \<Rightarrow> []) @
         [(''task_review_attempts'', json_u32 attempts), (''state'', sdlc_state_to_json s)]))"

definition review_process :: "task_env \<Rightarrow> task_context \<Rightarrow> node_error + task_context" where
  "review_process E ctx =
     bind_result (worktree_path ctx) (\<lambda>worktree.
     bind_result (current_task_fields ctx) (\<lambda>current.
     bind_result (latest_state ctx) (\<lambda>s.
     bind_result (policy_or_error ctx) (\<lambda>p.
       (let diff = stdout_or_empty (tx_runner E ''git'' [''diff'', task_diff_base ctx] worktree);
            (shown, truncated) = bound_review_diff diff (unat (sy_review_diff_max_chars p));
            prompt = apply_verbosity_directive (review_prompt E current shown) (sy_output_verbosity p);
            c = (apply_policy_config stable_system_prompt (tx_config E) p StReview)
                  \<lparr>cf_cwd := Some worktree, cf_json_schema := Some review_output_schema\<rparr>;
            baseline = session_baseline ctx
        in bind_result (agent_process (tx_call E) (task_step E ''ConsolidatedReviewNode'' c prompt p) ctx) (\<lambda>ctx1.
           bind_result (ok_or (node_content ctx1 ''ConsolidatedReviewNode'')
             (with_sessions (node_error_new ''ConsolidatedReviewNode: model returned no content'')
               (sessions_since ctx1 baseline))) (\<lambda>content.
           (let (out, preview) = review_verdict E ctx1 content
            in bind_result (map_err (\<lambda>e. with_sessions e (sessions_since ctx1 baseline)) (current_task_id ctx1)) (\<lambda>i.
               bind_result (map_err (\<lambda>e. with_sessions e (sessions_since ctx1 baseline))
                 (charge_review (count_review s) i (normal_verdict E out))) (\<lambda>(s', attempts).
               Inr (put_result ''ConsolidatedReviewNode''
                 (JObj (review_result E ctx1 p truncated out preview s' attempts)) ctx1)))))))))))"

subsection \<open>SaveStateNode\<close>

definition as_i64 :: "json \<Rightarrow> int option" where
  "as_i64 v =
     (case v of
        JNum (PosInt n) \<Rightarrow> (if unat n < 2 ^ 63 then Some (uint n) else None)
      | JNum (NegInt i) \<Rightarrow> Some i
      | _ \<Rightarrow> None)"

definition decimal_int :: "int \<Rightarrow> string" where
  "decimal_int i = (if i < 0 then ''-'' @ decimal (nat (- i)) else decimal (nat i))"

definition save_state_fallback_message :: string where
  "save_state_fallback_message = ''chore: flow state update''"

definition save_state_commit_message :: "task_context \<Rightarrow> string" where
  "save_state_commit_message ctx =
     (case get_result ctx ''TaskQueueRouterNode'' of
        None \<Rightarrow> save_state_fallback_message
      | Some current \<Rightarrow>
          (case Option.bind (json_get current ''current_task_id'') as_i64 of
             None \<Rightarrow> save_state_fallback_message
           | Some i \<Rightarrow> ''feat(sdlc): '' @ decimal_int i @ ('' '' @ [CHR 0xE2, CHR 0x80, CHR 0x94] @ '' '') @ check_str current ''title'' ''untitled''))"

definition branch_name :: "task_context \<Rightarrow> string option" where
  "branch_name ctx =
     Option.bind (Option.bind (get_result ctx ''SetupWorktreeNode'') (\<lambda>v. json_get v ''branch_name'')) as_str"

text \<open>
  The disk as \<open>SaveStateNode\<close> sees it: the text of the existing file, whether the directory can be made
  and the file written, the current time and the build's stamp.
\<close>

record save_env =
  se_existing :: "string option"
  se_mkdir_error :: "string option"
  se_write_error :: "string option"
  se_now :: string
  se_build :: build_stamp
  se_filename :: string

definition existing_started_at :: "json_text \<Rightarrow> save_env \<Rightarrow> string option" where
  "existing_started_at J D =
     Option.bind (Option.bind (se_existing D) (\<lambda>text. ok_part (jx_parse J text)))
       (\<lambda>v. Option.bind (ok_part (from_committed_state_json v)) ss_started_at)"

definition build_run_meta :: "json_text \<Rightarrow> save_env \<Rightarrow> task_context \<Rightarrow> string \<Rightarrow> run_meta" where
  "build_run_meta J D ctx worktree =
     \<lparr>rm_branch = (case branch_name ctx of Some b \<Rightarrow> b | None \<Rightarrow> []), rm_worktree_path = worktree,
      rm_started_at = (case existing_started_at J D of Some t \<Rightarrow> t | None \<Rightarrow> se_now D),
      rm_updated_at = se_now D, rm_run_id = read_run_id (metadata ctx),
      rm_claude_sessions = read_sessions (metadata ctx)\<rparr>"

definition state_path :: "save_env \<Rightarrow> string \<Rightarrow> sdlc_state \<Rightarrow> string" where
  "state_path D worktree s =
     path_join (path_join (path_join (path_join worktree ''planning'') (ss_spec_slug s)) ''sdlc'') (se_filename D)"

text \<open>The node's result, and the value it wrote to the file when it came that far.\<close>

definition save_state ::
  "task_env \<Rightarrow> save_env \<Rightarrow> task_context \<Rightarrow> (node_error + task_context) \<times> json option" where
  "save_state E D ctx =
     (case bind_result (worktree_path ctx) (\<lambda>w. bind_result (latest_state ctx) (\<lambda>s. Inr (w, s))) of
        Inl e \<Rightarrow> (Inl e, None)
      | Inr (worktree, s) \<Rightarrow>
          (case se_mkdir_error D of
             Some err \<Rightarrow> (Inl (node_error_new (''failed to create '' @
                 path_join (path_join (path_join worktree ''planning'') (ss_spec_slug s)) ''sdlc'' @ '': '' @ err)), None)
           | None \<Rightarrow>
               (let path = state_path D worktree s;
                    committed = to_committed_state_json (se_build D) s
                      (build_run_meta (tx_json E) D ctx worktree) None None None None None
                in case se_write_error D of
                     Some err \<Rightarrow> (Inl (node_error_new (''failed to write '' @ path @ '': '' @ err)), None)
                   | None \<Rightarrow>
                       (let outcome = commit_all (tx_lower E) (tx_runner E) worktree (save_state_commit_message ctx)
                        in (case failure_detail outcome of
                              Some d \<Rightarrow> Inl (node_error_new (''git commit failed while saving '' @ path @
                                ''; refusing to record the task as done with its work uncommitted: '' @ d))
                            | None \<Rightarrow> Inr (put_result ''SaveStateNode''
                                (JObj [(''saved_to'', JStr path), (''committed'', JBool (is_committed outcome))]) ctx),
                            Some committed)))))"

subsection \<open>The loop's nodes in the registry\<close>

text \<open>
  \<open>E i t\<close> is the environment of node \<open>i\<close> at dispatch \<open>t\<close>, \<open>D t\<close> the disk then. \<open>test\<close> is the body of
  \<open>TestTaskNode\<close>, which runs the repository's checks.
\<close>

definition plain_node :: "string \<Rightarrow> (nat \<Rightarrow> task_context \<Rightarrow> node_error + task_context) \<Rightarrow> node" where
  "plain_node i f = \<lparr>node_name = i, process = f, as_router = None, agent = None\<rparr>"

definition router_node ::
  "string \<Rightarrow> (task_context \<Rightarrow> node_error + task_context) \<Rightarrow> (task_context \<Rightarrow> string option) \<Rightarrow> node" where
  "router_node i f r = \<lparr>node_name = i, process = (\<lambda>_. f), as_router = Some r, agent = None\<rparr>"

definition task_loop_nodes ::
  "(string \<Rightarrow> nat \<Rightarrow> task_env) \<Rightarrow> (nat \<Rightarrow> save_env) \<Rightarrow> (nat \<Rightarrow> task_context \<Rightarrow> node_error + task_context) \<Rightarrow>
   node list" where
  "task_loop_nodes E D test =
     [router_node ''TaskQueueRouterNode'' task_queue_process task_queue_route,
      plain_node ''ImplementTaskNode'' (\<lambda>t. implement_process (E ''ImplementTaskNode'' t)),
      plain_node ''TestTaskNode'' test,
      plain_node ''TriageTaskNode'' (\<lambda>t. triage_process (E ''TriageTaskNode'' t)),
      router_node ''TriageRouterNode'' Inr triage_route,
      plain_node ''ConsolidatedReviewNode'' (\<lambda>t. review_process (E ''ConsolidatedReviewNode'' t)),
      router_node ''ReviewRouterNode'' Inr review_route,
      plain_node ''UpdateTaskStatusNode'' (\<lambda>_. update_task_status_process),
      plain_node ''SaveStateNode'' (\<lambda>t ctx. fst (save_state (E ''SaveStateNode'' t) (D t) ctx)),
      plain_node ''IncrementAttemptNode'' (\<lambda>_. increment_attempt_process)]"

end
