(* ===== verification/TaskQueueLaws.thy ===== *)
theory TaskQueueLaws
  imports TaskState
begin

text \<open>
  Laws of the loop's state: the counters of a state and what is left to do in it, which of its five
  copies a reader sees, and what one write does to both.
\<close>

subsection \<open>Counters and potential\<close>

text \<open>The logical clock as a number, with the review counts of the tasks.\<close>

definition clock_count :: "sdlc_state \<Rightarrow> nat" where
  "clock_count s = unat (te_total_attempts (ss_telemetry s)) + unat (te_review_attempts (ss_telemetry s)) +
     unat (te_tasks_passed (ss_telemetry s)) + sum_list (map (\<lambda>t. unat (tk_attempt_count t)) (ss_tasks s))"

definition counters :: "sdlc_state \<Rightarrow> nat" where
  "counters s = clock_count s + sum_list (map (\<lambda>t. unat (tk_review_attempt_count t)) (ss_tasks s))"

text \<open>
  What is left to do: for each pending task one pass, its triage retries and its review retries, with at
  most \<open>cap\<close> reviews that do not pass.
\<close>

definition task_potential :: "u32 \<Rightarrow> sdlc_task \<Rightarrow> nat" where
  "task_potential cap t =
     (if tk_status t = TaskPending
      then 1 + (unat (tk_max_attempts t) - unat (tk_attempt_count t)) +
           (unat cap - unat (tk_review_attempt_count t))
      else 0)"

definition potential :: "u32 \<Rightarrow> sdlc_state \<Rightarrow> nat" where
  "potential cap s = sum_list (map (task_potential cap) (ss_tasks s))"

lemma unat_ucast_u64: "unat (ucast (w :: u32) :: u64) = unat w"
proof -
  have "unat w < 2 ^ 32" using unsigned_less [of w, where 'a = nat] by simp
  then have "unat w < 2 ^ 64" by simp
  then show ?thesis by (simp add: unsigned_ucast_eq take_bit_nat_eq_self)
qed

lemma unat_sum_ucast:
  "sum_list (map (\<lambda>t. unat (f t)) ts) < 2 ^ 64 \<Longrightarrow>
     unat (sum_list (map (\<lambda>t. ucast (f t :: u32) :: u64) ts)) = sum_list (map (\<lambda>t. unat (f t)) ts)"
proof (induction ts)
  case (Cons t ts)
  then have "unat (sum_list (map (\<lambda>t. ucast (f t) :: u64) ts)) = sum_list (map (\<lambda>t. unat (f t)) ts)"
    by simp
  with Cons.prems show ?case by (simp add: unat_add_no_wrap unat_ucast_u64)
qed simp

lemma unat_logical_clock:
  assumes "clock_count s < 2 ^ 64"
  shows "unat (logical_clock s) = clock_count s"
proof -
  let ?sum = "sum_list (map (\<lambda>t. ucast (tk_attempt_count t) :: u64) (ss_tasks s))"
  have "unat ?sum = sum_list (map (\<lambda>t. unat (tk_attempt_count t)) (ss_tasks s))"
    using assms by (intro unat_sum_ucast) (simp add: clock_count_def)
  with assms show ?thesis
    by (simp add: logical_clock_def clock_count_def unat_add_no_wrap unat_ucast_u64)
qed

lemma clock_less:
  "clock_count s < 2 ^ 64 \<Longrightarrow> clock_count s' < 2 ^ 64 \<Longrightarrow>
     (logical_clock s < logical_clock s') = (clock_count s < clock_count s')"
  by (simp add: word_less_nat_alt unat_logical_clock)

subsection \<open>The copy a reader sees\<close>

lemma newest_state_bound:
  assumes "newest_state ctx is best = Inr (Some s)"
  shows "(\<forall>i v. i \<in> set is \<longrightarrow> state_value ctx i = Some v \<longrightarrow>
      (\<exists>x. sdlc_state_of_json v = Some x \<and> logical_clock x \<le> logical_clock s)) \<and>
    (\<forall>b. best = Some b \<longrightarrow> logical_clock b \<le> logical_clock s)"
  using assms
proof (induction "is" arbitrary: best)
  case (Cons i "is")
  show ?case
  proof (cases "state_value ctx i")
    case None
    with Cons show ?thesis by auto
  next
    case (Some v)
    with Cons.prems obtain x where x: "sdlc_state_of_json v = Some x"
        "newest_state ctx is (if (case best of None \<Rightarrow> True | Some b \<Rightarrow> logical_clock b < logical_clock x)
           then Some x else best) = Inr (Some s)"
      by (auto simp: Let_def split: option.splits)
    from Cons.IH [OF x(2)] Some x(1) show ?thesis
      by (auto split: option.splits if_splits)
  qed
qed simp

lemma newest_state_wins:
  assumes "\<And>i v. i \<in> set is \<Longrightarrow> state_value ctx i = Some v \<Longrightarrow>
      \<exists>x. sdlc_state_of_json v = Some x \<and> (x = s \<or> logical_clock x < logical_clock s)"
    and "case best of None \<Rightarrow> True | Some b \<Rightarrow> b = s \<or> logical_clock b < logical_clock s"
    and "best = Some s \<or> (\<exists>i \<in> set is. \<exists>v. state_value ctx i = Some v \<and> sdlc_state_of_json v = Some s)"
  shows "newest_state ctx is best = Inr (Some s)"
  using assms
proof (induction "is" arbitrary: best)
  case (Cons i "is")
  show ?case
  proof (cases "state_value ctx i")
    case None
    with Cons.prems(3) have "best = Some s \<or>
        (\<exists>i \<in> set is. \<exists>v. state_value ctx i = Some v \<and> sdlc_state_of_json v = Some s)" by auto
    then have "newest_state ctx is best = Inr (Some s)"
      using Cons.prems(1,2) by (intro Cons.IH) auto
    with None show ?thesis by simp
  next
    case (Some v)
    with Cons.prems(1) [of i v] obtain x where x: "sdlc_state_of_json v = Some x"
        "x = s \<or> logical_clock x < logical_clock s" by auto
    let ?b = "if (case best of None \<Rightarrow> True | Some b \<Rightarrow> logical_clock b < logical_clock x) then Some x else best"
    have "case ?b of None \<Rightarrow> True | Some b \<Rightarrow> b = s \<or> logical_clock b < logical_clock s"
      using Cons.prems(2) x(2) by (auto split: option.splits)
    moreover have "?b = Some s \<or> (\<exists>i \<in> set is. \<exists>v. state_value ctx i = Some v \<and> sdlc_state_of_json v = Some s)"
    proof (cases "x = s")
      case True
      with Cons.prems(2) show ?thesis by (auto split: option.splits)
    next
      case False
      with Cons.prems(3) Some x show ?thesis by (auto split: option.splits)
    qed
    ultimately have "newest_state ctx is ?b = Inr (Some s)"
      using Cons.prems(1) by (intro Cons.IH) auto
    with Some x(1) show ?thesis by (simp add: Let_def)
  qed
qed simp

lemma latest_state_Inr: "latest_state ctx = Inr s \<longleftrightarrow> newest_state ctx state_identities None = Inr (Some s)"
  by (auto simp: latest_state_def ok_or_def bind_result_def split: sum.splits option.splits)

lemma newest_state_cong:
  "(\<And>i. i \<in> set is \<Longrightarrow> state_value ctx i = state_value ctx' i) \<Longrightarrow>
     newest_state ctx is best = newest_state ctx' is best"
  by (induction "is" arbitrary: best) (auto split: option.splits)

lemma latest_state_cong:
  assumes "\<And>i. i \<in> set state_identities \<Longrightarrow> state_value ctx i = state_value ctx' i"
  shows "latest_state ctx = latest_state ctx'"
  using newest_state_cong [OF assms] by (simp add: latest_state_def)

text \<open>A write with a later clock is what every reader sees next, wherever it is left.\<close>

lemma written_state_is_latest:
  assumes "latest_state ctx = Inr s" and "i \<in> set state_identities"
    and "\<And>j. j \<in> set state_identities \<Longrightarrow> j \<noteq> i \<Longrightarrow> state_value ctx' j = state_value ctx j"
    and "state_value ctx' i = Some v" and "sdlc_state_of_json v = Some s'"
    and "logical_clock s < logical_clock s'"
  shows "latest_state ctx' = Inr s'"
  unfolding latest_state_Inr
proof (rule newest_state_wins)
  fix j w assume j: "j \<in> set state_identities" "state_value ctx' j = Some w"
  show "\<exists>x. sdlc_state_of_json w = Some x \<and> (x = s' \<or> logical_clock x < logical_clock s')"
  proof (cases "j = i")
    case True
    with j assms(4,5) show ?thesis by simp
  next
    case False
    with j assms(3) have "state_value ctx j = Some w" by simp
    with newest_state_bound [OF assms(1) [unfolded latest_state_Inr]] j(1) obtain x where
      "sdlc_state_of_json w = Some x" "logical_clock x \<le> logical_clock s" by blast
    with assms(6) show ?thesis by auto
  qed
qed (use assms(2,4,5) in auto)

subsection \<open>Changing one task\<close>

lemma find_modify_task:
  assumes "\<And>t. tk_task_id (f t) = tk_task_id t"
  shows "find (\<lambda>t. tk_task_id t = i) (modify_task f i ts) = map_option f (find (\<lambda>t. tk_task_id t = i) ts)"
  using assms by (induction ts) auto

lemma modify_task_ids [simp]:
  "(\<And>t. tk_task_id (f t) = tk_task_id t) \<Longrightarrow> map tk_task_id (modify_task f i ts) = map tk_task_id ts"
  by (induction ts) auto

lemma length_modify_task [simp]: "length (modify_task f i ts) = length ts"
  by (induction ts) auto

lemma sum_modify_task:
  "find (\<lambda>t. tk_task_id t = i) ts = Some t \<Longrightarrow>
     sum_list (map g (modify_task f i ts)) + g t = sum_list (map g ts) + (g (f t) :: nat)"
  by (induction ts) (auto split: if_splits)

lemma find_task_in: "find_task s i = Some t \<Longrightarrow> t \<in> set (ss_tasks s) \<and> tk_task_id t = i"
  by (auto simp: find_task_def find_Some_iff)

lemma potential_pos:
  "t \<in> set (ss_tasks s) \<Longrightarrow> tk_status t = TaskPending \<Longrightarrow> task_potential cap t \<le> potential cap s"
  unfolding potential_def by (rule member_le_sum_list) auto

subsection \<open>What one write does to the counters and to what is left\<close>

text \<open>The states the loop can carry: task numbers that are distinct, and numbers that JSON can hold.\<close>

definition good_state :: "sdlc_state \<Rightarrow> bool" where
  "good_state s \<longleftrightarrow> distinct (map tk_task_id (ss_tasks s)) \<and> state_finite s"

lemma unat_Suc_u32: "unat (w :: u32) + 1 < 2 ^ 32 \<Longrightarrow> unat (w + 1) = unat w + 1"
  by (simp add: unat_word_ariths)

lemma counters_parts:
  "unat (te_total_attempts (ss_telemetry s)) \<le> counters s"
  "unat (te_review_attempts (ss_telemetry s)) \<le> counters s"
  "unat (te_tasks_passed (ss_telemetry s)) \<le> counters s"
  "clock_count s \<le> counters s"
  by (simp_all add: counters_def clock_count_def)

lemma counters_task:
  assumes "t \<in> set (ss_tasks s)"
  shows "unat (tk_attempt_count t) \<le> counters s" and "unat (tk_review_attempt_count t) \<le> counters s"
proof -
  have "unat (tk_attempt_count t) \<le> sum_list (map (\<lambda>t. unat (tk_attempt_count t)) (ss_tasks s))"
    "unat (tk_review_attempt_count t) \<le> sum_list (map (\<lambda>t. unat (tk_review_attempt_count t)) (ss_tasks s))"
    using assms by (auto intro!: member_le_sum_list)
  then show "unat (tk_attempt_count t) \<le> counters s" and "unat (tk_review_attempt_count t) \<le> counters s"
    by (simp_all add: counters_def clock_count_def)
qed

text \<open>A telemetry change that adds one to one of its clock counters.\<close>

lemma bump_telemetry:
  assumes "good_state s" and "te_budget_spent te = te_budget_spent (ss_telemetry s)"
    and "unat (te_total_attempts te) + unat (te_review_attempts te) + unat (te_tasks_passed te) =
      Suc (unat (te_total_attempts (ss_telemetry s)) + unat (te_review_attempts (ss_telemetry s)) +
        unat (te_tasks_passed (ss_telemetry s)))"
  shows "good_state (s\<lparr>ss_telemetry := te\<rparr>)" and "clock_count (s\<lparr>ss_telemetry := te\<rparr>) = Suc (clock_count s)"
    and "counters (s\<lparr>ss_telemetry := te\<rparr>) = Suc (counters s)"
    and "potential cap (s\<lparr>ss_telemetry := te\<rparr>) = potential cap s"
    and "find_task (s\<lparr>ss_telemetry := te\<rparr>) i = find_task s i"
  using assms by (simp_all add: good_state_def state_finite_def clock_count_def counters_def potential_def
      find_task_def)

text \<open>A change of one task that keeps its number.\<close>

lemma change_task:
  fixes s i f defines "s' \<equiv> s\<lparr>ss_tasks := modify_task f i (ss_tasks s)\<rparr>"
  assumes "good_state s" and "find_task s i = Some t" and ids: "\<And>t. tk_task_id (f t) = tk_task_id t"
  shows "good_state s'" and "find_task s' i = Some (f t)"
    and "clock_count s' + unat (tk_attempt_count t) = clock_count s + unat (tk_attempt_count (f t))"
    and "counters s' + (unat (tk_attempt_count t) + unat (tk_review_attempt_count t)) =
      counters s + (unat (tk_attempt_count (f t)) + unat (tk_review_attempt_count (f t)))"
    and "potential cap s' + task_potential cap t = potential cap s + task_potential cap (f t)"
proof -
  have find: "find (\<lambda>t. tk_task_id t = i) (ss_tasks s) = Some t"
    using assms(3) by (simp add: find_task_def)
  note sums = sum_modify_task [OF find, where f = f]
  show "good_state s'" using assms by (simp add: s'_def good_state_def state_finite_def)
  show "find_task s' i = Some (f t)"
    using find find_modify_task [where f = f and i = i and ts = "ss_tasks s"] ids
    by (simp add: s'_def find_task_def)
  show "clock_count s' + unat (tk_attempt_count t) = clock_count s + unat (tk_attempt_count (f t))"
    using sums [of "\<lambda>t. unat (tk_attempt_count t)"] by (simp add: s'_def clock_count_def)
  then show "counters s' + (unat (tk_attempt_count t) + unat (tk_review_attempt_count t)) =
      counters s + (unat (tk_attempt_count (f t)) + unat (tk_review_attempt_count (f t)))"
    using sums [of "\<lambda>t. unat (tk_review_attempt_count t)"] by (simp add: s'_def counters_def)
  show "potential cap s' + task_potential cap t = potential cap s + task_potential cap (f t)"
    using sums [of "task_potential cap"] by (simp add: s'_def potential_def)
qed

text \<open>\<open>IncrementAttemptNode\<close>: an attempt more, and strictly less left when the task had attempts left.\<close>

lemma bump_task_attempt_effect:
  assumes "good_state s" and "bump_task_attempt s i = Inr s'" and "find_task s i = Some t"
    and "counters s + 1 < 2 ^ 32"
  shows "good_state s' \<and> clock_count s' = Suc (clock_count s) \<and> counters s' = Suc (counters s) \<and>
    find_task s' i = Some (t\<lparr>tk_attempt_count := tk_attempt_count t + 1\<rparr>) \<and>
    potential cap s' \<le> potential cap s \<and>
    (tk_status t = TaskPending \<and> tk_attempt_count t < tk_max_attempts t \<longrightarrow> potential cap s' < potential cap s)"
proof -
  let ?f = "\<lambda>t. t\<lparr>tk_attempt_count := tk_attempt_count t + 1\<rparr>"
  have s': "s' = s\<lparr>ss_tasks := modify_task ?f i (ss_tasks s)\<rparr>"
    using assms(2,3) by (simp add: bump_task_attempt_def)
  have "t \<in> set (ss_tasks s)" using find_task_in [OF assms(3)] by simp
  then have u: "unat (tk_attempt_count t + 1) = unat (tk_attempt_count t) + 1"
    using counters_task(1) [of t s] assms(4) by (intro unat_Suc_u32) simp
  note eff = change_task [where f = ?f, OF assms(1,3), folded s']
  have pot: "potential cap s' + task_potential cap t = potential cap s + task_potential cap (?f t)"
    by (rule eff(5)) simp
  have "task_potential cap (?f t) \<le> task_potential cap t"
    using u by (simp add: task_potential_def diff_le_mono2)
  moreover have "tk_status t = TaskPending \<and> tk_attempt_count t < tk_max_attempts t \<Longrightarrow>
      task_potential cap (?f t) < task_potential cap t"
    using u by (simp add: task_potential_def word_less_nat_alt) arith
  ultimately show ?thesis
    using eff(1-4) pot u by (auto simp: s')
qed

text \<open>A review that does not pass: strictly less left when the task had reviews left.\<close>

lemma bump_review_effect:
  assumes "good_state s" and "bump_task_review_attempt s i = Inr (s', n)" and "find_task s i = Some t"
    and "counters s + 1 < 2 ^ 32"
  shows "good_state s' \<and> clock_count s' = clock_count s \<and> counters s' = Suc (counters s) \<and>
    find_task s' i = Some (t\<lparr>tk_review_attempt_count := n\<rparr>) \<and> n = tk_review_attempt_count t + 1 \<and>
    potential cap s' \<le> potential cap s \<and>
    (tk_status t = TaskPending \<and> n < cap \<longrightarrow> potential cap s' < potential cap s)"
proof -
  let ?f = "\<lambda>t. t\<lparr>tk_review_attempt_count := tk_review_attempt_count t + 1\<rparr>"
  have s': "s' = s\<lparr>ss_tasks := modify_task ?f i (ss_tasks s)\<rparr>" and n: "n = tk_review_attempt_count t + 1"
    using assms(2,3) by (simp_all add: bump_task_review_attempt_def)
  have "t \<in> set (ss_tasks s)" using find_task_in [OF assms(3)] by simp
  then have u: "unat (tk_review_attempt_count t + 1) = unat (tk_review_attempt_count t) + 1"
    using counters_task(2) [of t s] assms(4) by (intro unat_Suc_u32) simp
  note eff = change_task [where f = ?f, OF assms(1,3), folded s']
  have pot: "potential cap s' + task_potential cap t = potential cap s + task_potential cap (?f t)"
    by (rule eff(5)) simp
  have "task_potential cap (?f t) \<le> task_potential cap t"
    using u by (simp add: task_potential_def diff_le_mono2)
  moreover have "tk_status t = TaskPending \<and> n < cap \<Longrightarrow> task_potential cap (?f t) < task_potential cap t"
    using u by (simp add: task_potential_def word_less_nat_alt n) arith
  ultimately show ?thesis
    using eff(1-4) pot u by (auto simp: s' n)
qed

text \<open>The write of \<open>UpdateTaskStatusNode\<close>: a pending task leaves what is left.\<close>

definition pass_task :: "u32 \<Rightarrow> sdlc_state \<Rightarrow> sdlc_state" where
  "pass_task i s = s\<lparr>ss_tasks := modify_task (\<lambda>t. t\<lparr>tk_status := TaskDone\<rparr>) i (ss_tasks s),
     ss_telemetry := (ss_telemetry s)\<lparr>te_tasks_passed := te_tasks_passed (ss_telemetry s) + 1\<rparr>\<rparr>"

lemma pass_task_effect:
  assumes "good_state s" and "find_task s i = Some t" and "counters s + 1 < 2 ^ 32"
    and "tk_status t = TaskPending"
  shows "good_state (pass_task i s) \<and> clock_count (pass_task i s) = Suc (clock_count s) \<and>
    counters (pass_task i s) = Suc (counters s) \<and> potential cap (pass_task i s) < potential cap s"
proof -
  let ?f = "\<lambda>t. t\<lparr>tk_status := TaskDone\<rparr>"
  let ?s1 = "s\<lparr>ss_tasks := modify_task ?f i (ss_tasks s)\<rparr>"
  let ?te = "(ss_telemetry s)\<lparr>te_tasks_passed := te_tasks_passed (ss_telemetry s) + 1\<rparr>"
  have u: "unat (te_tasks_passed (ss_telemetry s) + 1) = unat (te_tasks_passed (ss_telemetry s)) + 1"
    using counters_parts(3) [of s] assms(3) by (intro unat_Suc_u32) simp
  have eff: "good_state ?s1" "clock_count ?s1 = clock_count s" "counters ?s1 = counters s"
      "potential cap ?s1 + task_potential cap t = potential cap s"
    using change_task [where f = ?f, OF assms(1,2)] by (simp_all add: task_potential_def)
  have "pass_task i s = ?s1\<lparr>ss_telemetry := ?te\<rparr>" by (simp add: pass_task_def)
  moreover have "0 < task_potential cap t" using assms(4) by (simp add: task_potential_def)
  ultimately show ?thesis
    using bump_telemetry [where te = ?te, OF eff(1)] eff u by simp
qed

text \<open>
  With a number used twice the second task stays pending for ever: the write that should settle it
  settles the first task again.
\<close>

lemma duplicate_stays_pending:
  assumes "ss_tasks s = a @ t # b @ u # c" and "tk_task_id t = tk_task_id u" and "tk_status u = TaskPending"
  shows "\<exists>a' t' b'. ss_tasks (pass_task (tk_task_id u) s) = a' @ t' # b' @ u # c \<and> tk_task_id t' = tk_task_id u"
proof -
  have "\<exists>a' t' b'. modify_task f i (a @ t # b @ u # c) = a' @ t' # b' @ u # c \<and> tk_task_id t' = i"
    if "tk_task_id t = i" and "\<And>t. tk_task_id (f t) = tk_task_id t" for f i
    using that(1)
  proof (induction a)
    case Nil
    then show ?case
      by (intro exI [of _ "[]"] exI [of _ "f t"] exI [of _ b]) (simp add: that(2))
  next
    case (Cons x xs)
    then obtain a' t' b' where IH: "modify_task f i (xs @ t # b @ u # c) = a' @ t' # b' @ u # c"
        "tk_task_id t' = i" by blast
    show ?case
    proof (cases "tk_task_id x = i")
      case True
      then show ?thesis using Cons.prems
        by (intro exI [of _ "f x # xs"] exI [of _ t] exI [of _ b]) simp
    next
      case False
      with IH show ?thesis by (intro exI [of _ "x # a'"] exI [of _ t'] exI [of _ b']) simp
    qed
  qed
  from this [where i = "tk_task_id u" and f = "\<lambda>t. t\<lparr>tk_status := TaskDone\<rparr>"] assms show ?thesis
    by (simp add: pass_task_def)
qed

end
