(* ===== verification/TaskNodeLaws.thy ===== *)
theory TaskNodeLaws
  imports TaskLoop TaskQueueLaws
begin

text \<open>
  What each node of the task loop leaves behind when it succeeds: the results it may have changed, and
  the state, queue entry or verdict that the nodes and routers after it read.
\<close>

subsection \<open>Contexts that differ in a few results\<close>

definition keeps_except :: "string set \<Rightarrow> task_context \<Rightarrow> task_context \<Rightarrow> bool" where
  "keeps_except I c c' \<longleftrightarrow> event c' = event c \<and> (\<forall>j. j \<notin> I \<longrightarrow> get_result c' j = get_result c j)"

lemma keeps_except_refl [simp]: "keeps_except I c c"
  by (simp add: keeps_except_def)

lemma keeps_except_trans:
  "keeps_except I c c' \<Longrightarrow> keeps_except J c' c'' \<Longrightarrow> I \<union> J \<subseteq> K \<Longrightarrow> keeps_except K c c''"
  unfolding keeps_except_def by (metis Un_subset_iff subsetD)

lemma keeps_except_put: "i \<in> I \<Longrightarrow> keeps_except I c (put_result i v c)"
  by (auto simp: keeps_except_def put_result_def get_result_def)

lemma get_put_result [simp]: "get_result (put_result i v c) j = (if j = i then Some v else get_result c j)"
  by (simp add: put_result_def get_result_def)

lemma keeps_except_get: "keeps_except I c c' \<Longrightarrow> j \<notin> I \<Longrightarrow> get_result c' j = get_result c j"
  by (simp add: keeps_except_def)

lemma keeps_except_event: "keeps_except I c c' \<Longrightarrow> event c' = event c"
  by (simp add: keeps_except_def)

lemma state_value_keeps:
  "keeps_except I c c' \<Longrightarrow> j \<notin> I \<Longrightarrow> state_value c' j = state_value c j"
  by (simp add: state_value_def keeps_except_def)

lemma latest_state_keeps:
  "keeps_except I c c' \<Longrightarrow> I \<inter> set state_identities = {} \<Longrightarrow> latest_state c' = latest_state c"
  by (rule latest_state_cong) (auto intro: state_value_keeps)

lemma current_task_id_keeps:
  "keeps_except I c c' \<Longrightarrow> ''TaskQueueRouterNode'' \<notin> I \<Longrightarrow> current_task_id c' = current_task_id c"
  by (simp add: current_task_id_def current_task_fields_def keeps_except_get)

lemma resolved_policy_keeps:
  "keeps_except I c c' \<Longrightarrow> resolved_policy_identity \<notin> I \<Longrightarrow> resolved_policy c' = resolved_policy c"
  by (simp add: resolved_policy_def resolved_policy_strict_def keeps_except_def get_result_def)

lemma same_view: "nodes c' = nodes c \<Longrightarrow> event c' = event c \<Longrightarrow> keeps_except {} c c'"
  by (simp add: keeps_except_def get_result_def)

lemma identities [simp]:
  "''TestTaskNode'' \<notin> set state_identities" "''TriageTaskNode'' \<notin> set state_identities"
  "''SaveStateNode'' \<notin> set state_identities" "''TaskQueueRouterNode'' \<notin> set state_identities"
  "''ImplementTaskNode'' \<in> set state_identities" "''ConsolidatedReviewNode'' \<in> set state_identities"
  "''IncrementAttemptNode'' \<in> set state_identities" "''UpdateTaskStatusNode'' \<in> set state_identities"
  by (simp_all add: state_identities_def)

subsection \<open>The state after a write\<close>

text \<open>The state that a loop carries: the latest one, well-formed, with counters well below their limit.\<close>

lemma write_count:
  assumes "latest_state c = Inr s" and "keeps_except I c c'" and "I \<inter> set state_identities = {i}"
    and "state_value c' i = Some (sdlc_state_to_json s')" and "state_finite s'"
    and "clock_count s' = Suc (clock_count s)" and "clock_count s + 1 < 2 ^ 32"
  shows "latest_state c' = Inr s'"
proof (rule written_state_is_latest [OF assms(1)])
  show "i \<in> set state_identities" using assms(3) by auto
  show "state_value c' j = state_value c j" if "j \<in> set state_identities" "j \<noteq> i" for j
    using that assms(2,3) by (intro state_value_keeps [OF assms(2)]) auto
  show "state_value c' i = Some (sdlc_state_to_json s')" by (rule assms(4))
  show "sdlc_state_of_json (sdlc_state_to_json s') = Some s'"
    using assms(5) by (simp add: sdlc_state_back)
  show "logical_clock s < logical_clock s'"
    using assms(6,7) by (subst clock_less) auto
qed

lemma write_state:
  assumes "latest_state c = Inr s" and "keeps_except I c c'" and "I \<inter> set state_identities = {i}"
    and "state_value c' i = Some (sdlc_state_to_json s')" and "good_state s'"
    and "clock_count s' = Suc (clock_count s)" and "counters s + 1 < 2 ^ 32"
  shows "latest_state c' = Inr s'"
  using assms counters_parts(4) [of s] by (intro write_count [OF assms(1-4)]) (auto simp: good_state_def)

subsection \<open>Model calls\<close>

lemma agent_process_keeps:
  assumes "agent_process env st c = Inr c'"
  shows "keeps_except {ac_name st} c c'"
  using assms
  by (auto simp: agent_process_def Let_def record_sessions_def stamp_outcome_def keeps_except_def get_result_def
      split: retried_call.splits prod.splits)

lemma task_step_name [simp]: "ac_name (task_step E i c prompt p) = i"
  by (auto simp: task_step_def slot_apply_def with_meta_transport_def with_transport_def with_retry_policy_def
      agent_code_step_new_def with_cancellation_token_def Let_def split: option.splits)

lemma carry_forward_billing_other:
  assumes "k \<notin> {''transport'', ''cost_usd'', ''cache_creation_input_tokens'', ''cache_read_input_tokens''}"
  shows "map_of (carry_forward_billing c i r) k = map_of r k"
  using assms by (auto simp: carry_forward_billing_def update_conv split: option.splits)

lemma map_err_Inr: "map_err f r = Inr a \<longleftrightarrow> r = Inr a"
  by (cases r) (simp_all add: map_err_def)

lemma policy_or_error_Inr [simp]: "policy_or_error c = Inr p \<longleftrightarrow> resolved_policy c = Inr p"
  by (cases "resolved_policy c") (auto simp: policy_or_error_def map_err_def)

subsection \<open>ImplementTaskNode\<close>

lemma count_attempt_effect:
  assumes "good_state s" and "counters s + 1 < 2 ^ 32"
  shows "good_state (count_attempt s) \<and> clock_count (count_attempt s) = Suc (clock_count s) \<and>
    counters (count_attempt s) = Suc (counters s) \<and> potential cap (count_attempt s) = potential cap s \<and>
    find_task (count_attempt s) i = find_task s i"
proof -
  have "unat (te_total_attempts (ss_telemetry s) + 1) = unat (te_total_attempts (ss_telemetry s)) + 1"
    using counters_parts(1) [of s] assms(2) by (intro unat_Suc_u32) simp
  with bump_telemetry [OF assms(1)] show ?thesis unfolding count_attempt_def by simp
qed

lemma implement_effect:
  assumes "implement_process E c = Inr ok" and "latest_state c = Inr s" and "good_state s"
    and "counters s + 1 < 2 ^ 32"
  shows "keeps_except {''ImplementTaskNode''} c ok \<and> latest_state ok = Inr (count_attempt s) \<and>
    (\<exists>p. resolved_policy c = Inr p)"
proof -
  from assms(1,2) obtain current p t c1 prompt where
      p: "resolved_policy c = Inr p"
      and call: "agent_process (tx_call E) (task_step E ''ImplementTaskNode'' (implement_config E c p t) prompt p) c = Inr c1"
      and ok: "ok = put_result ''ImplementTaskNode'' (JObj (implement_result E c c1 p t (count_attempt s))) c1"
    by (auto simp: implement_process_def bind_result_eq_Inr Let_def)
  have "keeps_except {''ImplementTaskNode''} c c1" using agent_process_keeps [OF call] by simp
  then have keeps: "keeps_except {''ImplementTaskNode''} c ok"
    unfolding ok by (rule keeps_except_trans [OF _ keeps_except_put]) auto
  have "map_of (implement_result E c c1 p t (count_attempt s)) ''state'' = Some (sdlc_state_to_json (count_attempt s))"
    by (simp add: implement_result_def Let_def carry_forward_billing_other)
  then have "state_value ok ''ImplementTaskNode'' = Some (sdlc_state_to_json (count_attempt s))"
    by (simp add: ok state_value_def state_nested_identities_def)
  then have "latest_state ok = Inr (count_attempt s)"
    using count_attempt_effect [OF assms(3,4)] assms(4)
    by (intro write_state [OF assms(2) keeps]) (auto simp: state_identities_def)
  with keeps p show ?thesis by blast
qed

subsection \<open>TriageTaskNode\<close>

lemma triage_route_verdict:
  assumes "get_result c ''TriageTaskNode'' = Some (JObj fs)" and "map_of fs ''verdict'' = Some (JStr v)"
    and "v \<noteq> ''RETRYABLE''"
  shows "triage_route c \<noteq> Some ''IncrementAttemptNode''"
  using assms by (auto simp: triage_route_def split: sum.splits review_mode.splits)

lemma triage_effect:
  assumes "triage_process E c = Inr ok" and "current_task_state c ''TriageTaskNode'' = Inr t"
  shows "keeps_except {''TriageTaskNode''} c ok \<and>
    (triage_route ok = Some ''IncrementAttemptNode'' \<longrightarrow> tk_attempt_count t < tk_max_attempts t)"
proof -
  from assms(1,2) consider
      (pass) v where "ok = put_result ''TriageTaskNode'' (JObj v) c" "map_of v ''verdict'' = Some (JStr ''PASS'')"
    | (bail) r where "ok = put_result ''TriageTaskNode'' (triage_verdict_json ''MAJOR_BAIL'' r) c"
    | (retry) r where "ok = put_result ''TriageTaskNode'' (triage_verdict_json ''RETRYABLE'' r) c"
        "tk_attempt_count t < tk_max_attempts t"
    | (call) tr cu where "triage_call E c tr cu t = Inr ok" "tk_attempt_count t < tk_max_attempts t"
    by (auto simp: triage_process_def bind_result_eq_Inr not_le split: if_splits option.splits)
  then show ?thesis
  proof cases
    case pass
    then have "get_result ok ''TriageTaskNode'' = Some (JObj v)" by simp
    from triage_route_verdict [OF this pass(2)] pass(1) show ?thesis by (auto intro: keeps_except_put)
  next
    case bail
    then have "get_result ok ''TriageTaskNode'' = Some (JObj [(''verdict'', JStr ''MAJOR_BAIL''), (''reason'', JStr r)])"
      by (simp add: triage_verdict_json_def)
    from triage_route_verdict [OF this] bail show ?thesis by (auto intro: keeps_except_put)
  next
    case retry
    then show ?thesis by (auto intro: keeps_except_put)
  next
    case call
    then obtain cf prompt p c1 v where
        a: "agent_process (tx_call E) (task_step E ''TriageTaskNode'' cf prompt p) c = Inr c1"
        and ok: "ok = put_result ''TriageTaskNode'' v c1"
      by (auto simp: triage_call_def bind_result_eq_Inr Let_def)
    have "keeps_except {''TriageTaskNode''} c c1" using agent_process_keeps [OF a] by simp
    then have "keeps_except {''TriageTaskNode''} c ok"
      unfolding ok by (rule keeps_except_trans [OF _ keeps_except_put]) auto
    with call(2) show ?thesis by simp
  qed
qed

subsection \<open>ConsolidatedReviewNode\<close>

lemma count_review_effect:
  assumes "good_state s" and "counters s + 1 < 2 ^ 32"
  shows "good_state (count_review s) \<and> clock_count (count_review s) = Suc (clock_count s) \<and>
    counters (count_review s) = Suc (counters s) \<and> potential cap (count_review s) = potential cap s \<and>
    find_task (count_review s) i = find_task s i"
proof -
  have "unat (te_review_attempts (ss_telemetry s) + 1) = unat (te_review_attempts (ss_telemetry s)) + 1"
    using counters_parts(2) [of s] assms(2) by (intro unat_Suc_u32) simp
  with bump_telemetry [OF assms(1)] show ?thesis unfolding count_review_def by simp
qed

text \<open>What a review leaves: its fields, with the state it counted.\<close>

lemma review_process_result:
  assumes "review_process E c = Inr ok" and "latest_state c = Inr s" and "current_task_id c = Inr i"
  obtains fs v s' n where "keeps_except {''ConsolidatedReviewNode''} c ok"
    "get_result ok ''ConsolidatedReviewNode'' = Some (JObj fs)" "map_of fs ''verdict'' = Some (JStr v)"
    "map_of fs ''task_review_attempts'' = Some (json_u32 n)" "map_of fs ''state'' = Some (sdlc_state_to_json s')"
    "charge_review (count_review s) i v = Inr (s', n)"
proof -
  from assms(1,2) obtain cf prompt p tr c1 out preview i' s' n where
      a: "agent_process (tx_call E) (task_step E ''ConsolidatedReviewNode'' cf prompt p) c = Inr c1"
      and i': "current_task_id c1 = Inr i'"
      and charge: "charge_review (count_review s) i' (normal_verdict E out) = Inr (s', n)"
      and ok: "ok = put_result ''ConsolidatedReviewNode'' (JObj (review_result E c1 p tr out preview s' n)) c1"
    by (auto simp: review_process_def bind_result_eq_Inr Let_def case_prod_beta map_err_Inr)
  have k1: "keeps_except {''ConsolidatedReviewNode''} c c1" using agent_process_keeps [OF a] by simp
  then have k: "keeps_except {''ConsolidatedReviewNode''} c ok"
    unfolding ok by (rule keeps_except_trans [OF _ keeps_except_put]) auto
  have i: "i' = i" using current_task_id_keeps [OF k1] i' assms(3) by simp
  show thesis
    by (rule that [OF k, of "review_result E c1 p tr out preview s' n" "normal_verdict E out" n s'])
      (use charge i in \<open>simp_all add: ok review_result_def Let_def carry_forward_billing_other map_add_def split: option.split\<close>)
qed

lemma ucast_back [simp]: "ucast (ucast (n :: u32) :: u64) = n"
  by (rule bit_word_eqI) (simp add: bit_ucast_iff)

lemma review_route_retries:
  assumes "get_result c ''ConsolidatedReviewNode'' = Some (JObj fs)" and "map_of fs ''verdict'' = Some (JStr v)"
    and "map_of fs ''task_review_attempts'' = Some (json_u32 n)" and "resolved_policy c = Inr p"
    and "review_route c = Some ''IncrementAttemptNode''"
  shows "v \<noteq> ''PASS'' \<and> n < sy_max_review_attempts p"
proof -
  have "bounded_review_attempts c (JObj fs) = n"
    using assms(3) by (simp add: bounded_review_attempts_def json_u32_def)
  with assms show ?thesis
    by (auto simp: review_route_def bounded_review_retry_route_def not_le Let_def split: if_splits)
qed

lemma review_effect:
  assumes "review_process E c = Inr ok" and "latest_state c = Inr s" and "good_state s"
    and "current_task_id c = Inr i" and "find_task s i = Some t" and "tk_status t = TaskPending"
    and "counters s + 2 < 2 ^ 32" and "resolved_policy c = Inr p"
  shows "keeps_except {''ConsolidatedReviewNode''} c ok \<and> (\<exists>s' t'. latest_state ok = Inr s' \<and> good_state s' \<and>
    counters s' \<le> counters s + 2 \<and> find_task s' i = Some t' \<and> tk_status t' = TaskPending \<and>
    potential (sy_max_review_attempts p) s' \<le> potential (sy_max_review_attempts p) s \<and>
    (review_route ok = Some ''IncrementAttemptNode'' \<longrightarrow>
       potential (sy_max_review_attempts p) s' < potential (sy_max_review_attempts p) s))"
proof (rule review_process_result [OF assms(1,2,4)])
  let ?cap = "sy_max_review_attempts p"
  fix fs v s' n
  assume keeps: "keeps_except {''ConsolidatedReviewNode''} c ok"
    and fs: "get_result ok ''ConsolidatedReviewNode'' = Some (JObj fs)" "map_of fs ''verdict'' = Some (JStr v)"
      "map_of fs ''task_review_attempts'' = Some (json_u32 n)" "map_of fs ''state'' = Some (sdlc_state_to_json s')"
    and charge: "charge_review (count_review s) i v = Inr (s', n)"
  have counted: "good_state (count_review s)" "clock_count (count_review s) = Suc (clock_count s)"
      "counters (count_review s) = Suc (counters s)" "potential ?cap (count_review s) = potential ?cap s"
      "find_task (count_review s) i = Some t"
    using count_review_effect [OF assms(3)] assms(5,7) by simp_all
  have eff: "good_state s' \<and> clock_count s' = Suc (clock_count s) \<and> counters s' \<le> counters s + 2 \<and>
      (\<exists>t'. find_task s' i = Some t' \<and> tk_status t' = TaskPending) \<and> potential ?cap s' \<le> potential ?cap s \<and>
      (v \<noteq> ''PASS'' \<and> n < ?cap \<longrightarrow> potential ?cap s' < potential ?cap s)"
  proof (cases "v = ''PASS''")
    case True
    then have "s' = count_review s" using charge by (simp add: charge_review_def)
    with counted True assms(6) show ?thesis by simp
  next
    case False
    then have "bump_task_review_attempt (count_review s) i = Inr (s', n)"
      using charge by (simp add: charge_review_def)
    from bump_review_effect [OF counted(1) this counted(5), of ?cap] counted(2-4) assms(6,7)
    show ?thesis by auto
  qed
  have "state_value ok ''ConsolidatedReviewNode'' = Some (sdlc_state_to_json s')"
    using fs(1,4) by (simp add: state_value_def state_nested_identities_def)
  then have latest: "latest_state ok = Inr s'"
    using eff assms(7) by (intro write_state [OF assms(2) keeps]) (auto simp: state_identities_def)
  have "resolved_policy ok = Inr p"
    using resolved_policy_keeps [OF keeps] assms(8) by (simp add: resolved_policy_identity_def)
  from review_route_retries [OF fs(1-3) this] keeps latest eff show ?thesis by auto
qed

subsection \<open>The counting nodes\<close>

lemma update_effect:
  assumes "update_task_status_process c = Inr ok" and "latest_state c = Inr s" and "good_state s"
    and "current_task_id c = Inr i" and "find_task s i = Some t" and "tk_status t = TaskPending"
    and "counters s + 1 < 2 ^ 32"
  shows "keeps_except {''UpdateTaskStatusNode''} c ok \<and> latest_state ok = Inr (pass_task i s)"
proof -
  have ok: "ok = put_result ''UpdateTaskStatusNode'' (sdlc_state_to_json (pass_task i s)) c"
    using assms(1,2,4,5)
    by (auto simp: update_task_status_process_def bind_result_eq_Inr pass_task_def Let_def split: if_splits)
  then have keeps: "keeps_except {''UpdateTaskStatusNode''} c ok" by (auto intro: keeps_except_put)
  have "state_value ok ''UpdateTaskStatusNode'' = Some (sdlc_state_to_json (pass_task i s))"
    by (simp add: ok state_value_def state_nested_identities_def)
  then have "latest_state ok = Inr (pass_task i s)"
    using pass_task_effect [OF assms(3,5,7,6)] assms(7)
    by (intro write_state [OF assms(2) keeps]) (auto simp: state_identities_def)
  with keeps show ?thesis by blast
qed

lemma set_queue_attempts_keeps:
  "keeps_except {''TaskQueueRouterNode''} c (set_queue_attempts n c)"
  "current_task_id (set_queue_attempts n c) = current_task_id c"
proof -
  show "keeps_except {''TaskQueueRouterNode''} c (set_queue_attempts n c)"
    by (simp add: keeps_except_def set_queue_attempts_def get_result_def map_of_modify)
  show "current_task_id (set_queue_attempts n c) = current_task_id c"
    by (cases "map_of (nodes c) ''TaskQueueRouterNode''")
      (auto simp: current_task_id_def current_task_fields_def set_queue_attempts_def get_result_def map_of_modify
        update_conv ok_or_def bind_result_def split: json.splits)
qed

lemma increment_effect:
  assumes "increment_attempt_process c = Inr ok" and "latest_state c = Inr s" and "good_state s"
    and "current_task_id c = Inr i" and "find_task s i = Some t" and "counters s + 1 < 2 ^ 32"
  shows "keeps_except {''IncrementAttemptNode'', ''TaskQueueRouterNode''} c ok \<and> current_task_id ok = Inr i \<and>
    (\<exists>s'. bump_task_attempt s i = Inr s' \<and> latest_state ok = Inr s')"
proof -
  from assms(1,2,4) obtain s' where s': "bump_task_attempt s i = Inr s'"
      and ok: "ok = put_result ''IncrementAttemptNode'' (sdlc_state_to_json s') (case find_task s' i of
        Some t \<Rightarrow> set_queue_attempts (tk_attempt_count t) c | None \<Rightarrow> c)"
    by (auto simp: increment_attempt_process_def bind_result_eq_Inr Let_def)
  have b: "good_state s' \<and> clock_count s' = Suc (clock_count s) \<and>
      find_task s' i = Some (t\<lparr>tk_attempt_count := tk_attempt_count t + 1\<rparr>)"
    using bump_task_attempt_effect [OF assms(3) s' assms(5,6), of 0] by blast
  then have ok: "ok = put_result ''IncrementAttemptNode'' (sdlc_state_to_json s')
      (set_queue_attempts (tk_attempt_count t + 1) c)"
    by (simp add: ok)
  have keeps: "keeps_except {''IncrementAttemptNode'', ''TaskQueueRouterNode''} c ok"
    unfolding ok by (rule keeps_except_trans [OF set_queue_attempts_keeps(1) keeps_except_put]) auto
  have "current_task_id ok = Inr i"
    using current_task_id_keeps [OF keeps_except_put, of "''IncrementAttemptNode''" "{''IncrementAttemptNode''}"]
      assms(4) by (simp add: ok set_queue_attempts_keeps)
  moreover have "state_value ok ''IncrementAttemptNode'' = Some (sdlc_state_to_json s')"
    by (simp add: ok state_value_def state_nested_identities_def)
  then have "latest_state ok = Inr s'"
    using b assms(6) by (intro write_state [OF assms(2) keeps]) (auto simp: state_identities_def)
  ultimately show ?thesis using keeps s' by blast
qed

subsection \<open>The queue and the save\<close>

lemma find_distinct:
  "distinct (map tk_task_id ts) \<Longrightarrow> t \<in> set ts \<Longrightarrow> find (\<lambda>u. tk_task_id u = tk_task_id t) ts = Some t"
  by (induction ts) auto

lemma queue_effect:
  assumes "task_queue_process c = Inr ok" and "latest_state c = Inr s" and "good_state s"
  shows "keeps_except {''TaskQueueRouterNode''} c ok \<and>
    (case next_pending s (allowed_task_ids c) of
       None \<Rightarrow> task_queue_route ok = Some ''FinalValidationNode''
     | Some t \<Rightarrow> task_queue_route ok = Some ''ImplementTaskNode'' \<and> current_task_id ok = Inr (tk_task_id t) \<and>
         find_task s (tk_task_id t) = Some t \<and> tk_status t = TaskPending)"
proof -
  have ok: "ok = (case next_pending s (allowed_task_ids c) of
      Some t \<Rightarrow> put_result ''TaskQueueRouterNode'' (queue_entry t) c | None \<Rightarrow> c)"
    using assms(1,2) by (simp add: task_queue_process_def bind_result_def)
  then have keeps: "keeps_except {''TaskQueueRouterNode''} c ok"
    by (auto intro: keeps_except_put split: option.split)
  have "latest_state ok = Inr s" using latest_state_keeps [OF keeps] assms(2) by simp
  moreover have "allowed_task_ids ok = allowed_task_ids c"
    using keeps_except_event [OF keeps] by (simp add: allowed_task_ids_def)
  ultimately have route: "task_queue_route ok = Some (if next_pending s (allowed_task_ids c) \<noteq> None
      then ''ImplementTaskNode'' else ''FinalValidationNode'')"
    by (simp add: task_queue_route_def)
  show ?thesis
  proof (cases "next_pending s (allowed_task_ids c)")
    case None
    with keeps route show ?thesis by simp
  next
    case (Some t)
    then have t: "t \<in> set (ss_tasks s)" "tk_status t = TaskPending"
      by (auto simp: next_pending_def find_Some_iff)
    then have "find_task s (tk_task_id t) = Some t"
      using assms(3) by (simp add: find_task_def good_state_def find_distinct)
    moreover have "current_task_id ok = Inr (tk_task_id t)"
      by (simp add: ok Some current_task_id_def current_task_fields_def queue_entry_def json_u32_def ok_or_def
          bind_result_def)
    ultimately show ?thesis using keeps route t(2) Some by simp
  qed
qed

lemma save_effect:
  assumes "fst (save_state E D c) = Inr ok"
  shows "keeps_except {''SaveStateNode''} c ok"
  using assms
  by (auto simp: save_state_def Let_def intro!: keeps_except_put split: sum.splits option.splits)

end
