(* ===== verification/TaskChecks.thy ===== *)
theory TaskChecks
  imports TaskLoop HeavyWork
begin

text \<open>
  The checks of an attempt: \<open>TestTaskNode\<close> (\<open>workflows/sdlc_flow/task_loop.rs\<close>) and the run-level
  \<open>FinalValidationNode\<close> (\<open>final_validation.rs\<close>), which share one executor. What a dispatch meets is the
  environment \<open>check_env\<close>: the command runner, the files, the regular expressions (a compiled pattern gives
  the first match in a text), and the heavy-work queue with the job files as they are at that moment.

  A runner is a function of the command: two runs of one command within one dispatch answer alike.
\<close>

record check_env =
  ck_runner :: command_runner
  ck_json :: json_text
  ck_lower :: "string \<Rightarrow> string"
  ck_regex :: "string \<Rightarrow> (string \<Rightarrow> string option) option"
  ck_file :: "string \<Rightarrow> file_content"
  ck_read_error :: "string \<Rightarrow> string"
  ck_formats :: ext
  ck_heavy :: heavy_config
  ck_store_ok :: "uuid \<Rightarrow> bool"
  ck_now :: timestamp
  ck_admitted_at :: timestamp
  ck_job_id :: uuid
  ck_jobs :: job_dir

subsection \<open>Results of checks\<close>

datatype failure_class = Fixable | Escalate

definition failure_class_str :: "failure_class \<Rightarrow> string" where
  "failure_class_str c = (case c of Fixable \<Rightarrow> ''fixable'' | Escalate \<Rightarrow> ''escalate'')"

definition failure_class_of :: "json \<Rightarrow> failure_class" where
  "failure_class_of check =
     (if Option.bind (json_get check ''failureClass'') as_str = Some ''escalate'' then Escalate else Fixable)"

record check_result =
  cr_name :: string
  cr_kind :: string
  cr_passed :: bool
  cr_output :: string
  cr_message :: string
  cr_failure_class :: failure_class

definition check_result_to_json :: "check_result \<Rightarrow> json" where
  "check_result_to_json r = JObj [(''name'', JStr (cr_name r)), (''kind'', JStr (cr_kind r)),
     (''passed'', JBool (cr_passed r)), (''output'', JStr (cr_output r)), (''message'', JStr (cr_message r)),
     (''failure_class'', JStr (failure_class_str (cr_failure_class r)))]"

definition check_run_heavy_work_result :: "check_result list \<times> string list \<Rightarrow> job_result" where
  "check_run_heavy_work_result out =
     \<lparr>jr_passed = (snd out = []), jr_check_results = JArr (map check_result_to_json (fst out))\<rparr>"

definition check_name :: "json \<Rightarrow> string" where
  "check_name check = check_str check ''name'' ''unnamed''"

definition array_or_empty :: "json \<Rightarrow> string \<Rightarrow> json list" where
  "array_or_empty v key = (case Option.bind (json_get v key) as_array of Some xs \<Rightarrow> xs | None \<Rightarrow> [])"

definition silent_output :: command_output where
  "silent_output = \<lparr>co_status = - 1, co_stdout = [], co_stderr = []\<rparr>"

definition shell_out :: "check_env \<Rightarrow> string \<Rightarrow> string \<Rightarrow> command_output" where
  "shell_out K command worktree =
     (case ck_runner K ''sh'' [''-c'', command] worktree of Inr out \<Rightarrow> out | Inl _ \<Rightarrow> silent_output)"

subsection \<open>The kinds of checks\<close>

definition failure_message :: "(string \<Rightarrow> string) \<Rightarrow> int \<Rightarrow> string \<Rightarrow> string" where
  "failure_message lower status output =
     ''exit code '' @ decimal_int status @
     (case find (is_failure_signal_line lower) (str_lines output) of
        Some excerpt \<Rightarrow> '': '' @ trim excerpt | None \<Rightarrow> [])"

definition run_command_check :: "check_env \<Rightarrow> json \<Rightarrow> string \<Rightarrow> check_result" where
  "run_command_check K check worktree =
     (let name = check_name check; kind = check_str check ''kind'' ''command'';
          command = check_str check ''command'' []
      in case ck_runner K ''sh'' [''-c'', command] worktree of
           Inr out \<Rightarrow>
             (let passed = (co_status out = 0);
                  output = compact_check_output (ck_lower K) (co_stdout out @ co_stderr out)
              in \<lparr>cr_name = name, cr_kind = kind, cr_passed = passed, cr_output = output,
                  cr_message = (if passed then [] else failure_message (ck_lower K) (co_status out) output),
                  cr_failure_class = failure_class_of check\<rparr>)
         | Inl err \<Rightarrow>
             \<lparr>cr_name = name, cr_kind = kind, cr_passed = False, cr_output = [],
              cr_message = ''failed to spawn check: '' @ err, cr_failure_class = failure_class_of check\<rparr>)"

text \<open>\<open>str::split_whitespace\<close>.\<close>

lemma take_word_length: "length (fst (take_word s)) + length (snd (take_word s)) = length s"
  by (induction s rule: take_word.induct) (auto split: prod.split)

lemma strip_prefixes_length: "length (strip_prefixes ws s) \<le> length s"
proof (induction ws s rule: strip_prefixes.induct)
  case (1 ws s)
  then show ?case
    by (subst strip_prefixes.simps) (auto split: option.split intro: le_trans)
qed

lemma trim_start_length: "length (trim_start s) \<le> length s"
  by (simp add: trim_start_def strip_prefixes_length)

function words :: "string \<Rightarrow> string list" where
  "words s = (let (w, rest) = take_word (trim_start s) in if w = [] then [] else w # words rest)"
  by pat_completeness auto
termination
proof (relation "measure length", simp, clarsimp)
  fix s w rest assume w: "(w, rest) = take_word (trim_start s)" and "w \<noteq> []"
  have "length w + length rest \<le> length s"
    using take_word_length [of "trim_start s"] trim_start_length [of s] unfolding w [symmetric] by simp
  with \<open>w \<noteq> []\<close> show "length rest < length s" by (cases w) auto
qed

declare words.simps [simp del]

definition is_glob :: "string \<Rightarrow> bool" where
  "is_glob p \<longleftrightarrow> CHR ''*'' \<in> set p \<or> CHR ''?'' \<in> set p \<or> CHR ''['' \<in> set p"

text \<open>Each quote of the pattern becomes a closing quote, an escaped quote and an opening quote.\<close>

definition escape_quotes :: "string \<Rightarrow> string" where
  "escape_quotes s = concat (map (\<lambda>c. if c = CHR 0x27 then [CHR 0x27, CHR 0x5C, CHR 0x27, CHR 0x27] else [c]) s)"

definition scan_stdout :: "check_env \<Rightarrow> string \<Rightarrow> string \<Rightarrow> string \<Rightarrow> string" where
  "scan_stdout K pattern paths worktree =
     (if list_ex is_glob (words paths)
      then co_stdout (shell_out K (''grep -rnE '' @ [CHR 0x27] @ escape_quotes pattern @ [CHR 0x27] @ '' '' @ paths)
        worktree)
      else stdout_or_empty (ck_runner K ''grep'' (''-rnE'' # pattern # words paths) worktree))"

definition scan_matches :: "check_env \<Rightarrow> json \<Rightarrow> string \<Rightarrow> string list" where
  "scan_matches K rule out =
     (let ms = filter (\<lambda>l. trim l \<noteq> []) (str_lines out)
      in case Option.bind (Option.bind (json_get rule ''allowlistPattern'') as_str) (ck_regex K) of
           None \<Rightarrow> ms
         | Some re \<Rightarrow> filter (\<lambda>l. re l = None) ms)"

definition run_forbidden_pattern_scan :: "check_env \<Rightarrow> json \<Rightarrow> string \<Rightarrow> check_result" where
  "run_forbidden_pattern_scan K check worktree =
     (let scans = List.map_filter (\<lambda>rule.
            let pattern = check_str rule ''pattern'' []; paths = check_str rule ''paths'' []
            in if words paths = [] then None
               else Some (rule, scan_stdout K pattern paths worktree)) (array_or_empty check ''rules'');
          violations = concat (map (\<lambda>(rule, out). scan_matches K rule out) scans)
      in \<lparr>cr_name = check_name check, cr_kind = ''forbidden-pattern-scan'', cr_passed = (violations = []),
          cr_output = join_with [newline] (map snd scans),
          cr_message = (if violations = [] then [] else decimal (length violations) @ '' forbidden-pattern match(es)''),
          cr_failure_class = failure_class_of check\<rparr>)"

definition sanitize_path_component :: "string \<Rightarrow> string" where
  "sanitize_path_component raw =
     (let cleaned = concat (map (\<lambda>c.
            if is_digit c \<or> (CHR ''a'' \<le> c \<and> c \<le> CHR ''z'') \<or> (CHR ''A'' \<le> c \<and> c \<le> CHR ''Z'') \<or>
               c = CHR ''-'' \<or> c = CHR ''_'' then [c]
            else if of_char c div 64 = (2 :: nat) then [] else ''-'') raw)
      in if cleaned = [] then ''unknown'' else cleaned)"

definition baseline_snapshot_path :: "string \<Rightarrow> string \<Rightarrow> string" where
  "baseline_snapshot_path spec_dir name =
     path_join (path_join spec_dir ''sdlc'') (''baseline-'' @ sanitize_path_component name @ ''.txt'')"

definition post_implementation_fallback_note :: string where
  "post_implementation_fallback_note = ''baseline taken post-implementation (no pre-run snapshot found)''"

definition baseline_stdout :: "check_env \<Rightarrow> json \<Rightarrow> string \<Rightarrow> string \<Rightarrow> string \<times> bool" where
  "baseline_stdout K check worktree spec_dir =
     (case ck_file K (baseline_snapshot_path spec_dir (check_name check)) of
        FileText contents \<Rightarrow> (contents, False)
      | _ \<Rightarrow> (co_stdout (shell_out K (check_str check ''baselineCommand'' []) worktree), True))"

definition json_entries :: "json_text \<Rightarrow> string \<Rightarrow> json list" where
  "json_entries J text = (case jx_parse J text of Inr (JArr xs) \<Rightarrow> xs | _ \<Rightarrow> [])"

definition entry_key :: "json_text \<Rightarrow> string list \<Rightarrow> json \<Rightarrow> string option list" where
  "entry_key J keys entry = map (\<lambda>k. map_option (jx_print J) (json_get entry k)) keys"

definition new_entries :: "json_text \<Rightarrow> string list \<Rightarrow> json list \<Rightarrow> json list \<Rightarrow> json list" where
  "new_entries J keys baseline current =
     filter (\<lambda>e. entry_key J keys e \<notin> set (map (entry_key J keys) baseline)) current"

definition run_baseline_diff :: "check_env \<Rightarrow> json \<Rightarrow> string \<Rightarrow> string \<Rightarrow> check_result" where
  "run_baseline_diff K check worktree spec_dir =
     (let keys = List.map_filter as_str (array_or_empty check ''compareKeys'');
          (baseline, fallback) = baseline_stdout K check worktree spec_dir;
          current = co_stdout (shell_out K (check_str check ''command'' []) worktree);
          n = length (new_entries (ck_json K) keys (json_entries (ck_json K) baseline)
            (json_entries (ck_json K) current));
          count = decimal n @ '' net-new violation(s)''
      in \<lparr>cr_name = check_name check, cr_kind = ''baseline-diff'', cr_passed = (n = 0), cr_output = current,
          cr_message =
            (if n = 0 then (if fallback then post_implementation_fallback_note else [])
             else if fallback then count @ ''; '' @ post_implementation_fallback_note else count),
          cr_failure_class = failure_class_of check\<rparr>)"

definition parse_i64 :: "string \<Rightarrow> int option" where
  "parse_i64 s =
     (let neg = (s \<noteq> [] \<and> hd s = CHR ''-'');
          d = (if s \<noteq> [] \<and> (hd s = CHR ''-'' \<or> hd s = CHR ''+'') then tl s else s);
          n = (if neg then - int (undecimal d 0) else int (undecimal d 0))
      in if d \<noteq> [] \<and> list_all is_digit d \<and> - (2 ^ 63) \<le> n \<and> n < 2 ^ 63 then Some n else None)"

definition count_in :: "check_env \<Rightarrow> string \<Rightarrow> string \<Rightarrow> int" where
  "count_in K pattern text =
     (case Option.bind (Option.bind (ck_regex K pattern) (\<lambda>re. re text)) (\<lambda>m. case words m of [] \<Rightarrow> None | w # _ \<Rightarrow> parse_i64 w) of
        Some n \<Rightarrow> n | None \<Rightarrow> 0)"

definition run_count_delta :: "check_env \<Rightarrow> json \<Rightarrow> string \<Rightarrow> check_result" where
  "run_count_delta K check worktree =
     (let baseline = (case Option.bind (json_get check ''baseline'') as_i64 of Some n \<Rightarrow> n | None \<Rightarrow> 0);
          stdout = co_stdout (shell_out K (check_str check ''command'' []) worktree);
          current = count_in K (check_str check ''countPattern'' []) stdout;
          fail_on = check_str check ''failOn'' ''decrease'';
          passed = (if fail_on = ''decrease'' then baseline \<le> current else current \<le> baseline)
      in \<lparr>cr_name = check_name check, cr_kind = ''count-delta'', cr_passed = passed, cr_output = stdout,
          cr_message = (if passed then [] else ''count '' @ decimal_int current @ '' vs baseline '' @
            decimal_int baseline @ '' ('' @ fail_on @ '')''),
          cr_failure_class = failure_class_of check\<rparr>)"

text \<open>\<open>{:?}\<close> of a list of texts.\<close>

definition debug_strs :: "string list \<Rightarrow> string" where
  "debug_strs ss = ''['' @ join_with '', '' (map debug_str ss) @ '']''"

definition run_warning_scan :: "check_env \<Rightarrow> json \<Rightarrow> string \<Rightarrow> check_result" where
  "run_warning_scan K check worktree =
     (let out = shell_out K (check_str check ''command'' []) worktree;
          combined = co_stdout out @ co_stderr out;
          found = filter (\<lambda>p. Option.bind (ck_regex K p) (\<lambda>re. re combined) \<noteq> None)
            (List.map_filter as_str (array_or_empty check ''warningPatterns''));
          gates = (Option.bind (json_get check ''gates'') as_bool = Some True)
      in \<lparr>cr_name = check_name check, cr_kind = ''warning-scan'', cr_passed = (\<not> gates \<or> found = []),
          cr_output = combined,
          cr_message = (if found = [] then [] else ''warning pattern(s) matched: '' @ debug_strs found),
          cr_failure_class = failure_class_of check\<rparr>)"

definition run_unsupported_kind :: "json \<Rightarrow> string \<Rightarrow> check_result" where
  "run_unsupported_kind check kind =
     \<lparr>cr_name = check_name check, cr_kind = kind, cr_passed = False, cr_output = [],
      cr_message = ''check kind '' @ debug_str kind @ '' is not yet supported by TestTaskNode (TODO(EN.3.B+): richer harness kinds)'',
      cr_failure_class = failure_class_of check\<rparr>"

subsection \<open>The executor\<close>

definition check_enabled :: "json \<Rightarrow> bool" where
  "check_enabled check \<longleftrightarrow> Option.bind (json_get check ''enabled'') as_bool \<noteq> Some False"

definition check_gates :: "json \<Rightarrow> bool" where
  "check_gates check \<longleftrightarrow> Option.bind (json_get check ''gates'') as_bool \<noteq> Some False"

definition run_check :: "check_env \<Rightarrow> string \<Rightarrow> string \<Rightarrow> json \<Rightarrow> check_result" where
  "run_check K worktree spec_dir check =
     (let kind = check_str check ''kind'' ''command''
      in if kind = ''command'' then run_command_check K check worktree
         else if kind = ''forbidden-pattern-scan'' then run_forbidden_pattern_scan K check worktree
         else if kind = ''baseline-diff'' then run_baseline_diff K check worktree spec_dir
         else if kind = ''count-delta'' then run_count_delta K check worktree
         else if kind = ''warning-scan'' then run_warning_scan K check worktree
         else run_unsupported_kind check kind)"

fun run_checks ::
  "check_env \<Rightarrow> json list \<Rightarrow> string \<Rightarrow> string \<Rightarrow> check_result list \<Rightarrow> string list \<Rightarrow> check_result list \<times> string list" where
  "run_checks K [] worktree spec_dir results failed = (results, failed)"
| "run_checks K (check # checks) worktree spec_dir results failed =
     (if \<not> check_enabled check then run_checks K checks worktree spec_dir results failed
      else (let r = run_check K worktree spec_dir check
            in run_checks K checks worktree spec_dir (results @ [r])
                 (if check_gates check \<and> \<not> cr_passed r then failed @ [cr_name r] else failed)))"

subsection \<open>Which checks run\<close>

record check_selection =
  se_source :: string
  se_depth :: test_depth
  se_excluded :: "string list"

definition task_validation_check :: "nat \<Rightarrow> string \<Rightarrow> json" where
  "task_validation_check i command = JObj [(''name'', JStr (''task-validation-'' @ decimal (Suc i))),
     (''kind'', JStr ''command''), (''command'', JStr command), (''gates'', JBool True)]"

definition check_dropped :: "bool \<Rightarrow> json \<Rightarrow> bool" where
  "check_dropped per_task check \<longleftrightarrow> \<not> check_enabled check \<or>
     per_task \<and> Option.bind (json_get check ''perTask'') as_bool = Some False"

definition fast_form :: "test_depth \<Rightarrow> json \<Rightarrow> json" where
  "fast_form depth check =
     (if depth = DepthFast then
        (case Option.bind (json_get check ''fastCommand'') as_str of
           None \<Rightarrow> check
         | Some fast \<Rightarrow> if fast = [] then check
             else (case check of JObj fs \<Rightarrow> JObj (AList.update ''command'' (JStr fast) fs) | _ \<Rightarrow> check))
      else check)"

definition select_task_checks ::
  "json list \<Rightarrow> string list \<Rightarrow> test_depth \<Rightarrow> bool \<Rightarrow> json list \<times> check_selection" where
  "select_task_checks harness commands depth per_task =
     (if commands \<noteq> []
      then (map (\<lambda>(i, c). task_validation_check i c) (zip [0..<length commands] commands),
            \<lparr>se_source = ''task_validation_commands'', se_depth = depth, se_excluded = []\<rparr>)
      else (map (fast_form depth) (filter (\<lambda>c. \<not> check_dropped per_task c) harness),
            \<lparr>se_source = ''harness'', se_depth = depth,
             se_excluded = map (\<lambda>c. check_str c ''name'' []) (filter (check_dropped per_task) harness)\<rparr>))"

subsection \<open>The write guard\<close>

definition porcelain_entry :: "string \<Rightarrow> (string \<times> string) option" where
  "porcelain_entry line = map_option (\<lambda>path. (take 2 line, path)) (porcelain_path line)"

definition changed_files_with_status :: "check_env \<Rightarrow> string \<Rightarrow> (string \<times> string) list" where
  "changed_files_with_status K worktree = List.map_filter porcelain_entry
     (str_lines (stdout_or_empty (ck_runner K ''git'' [''status'', ''--porcelain''] worktree)))"

definition name_status_entry :: "string \<Rightarrow> (string \<times> string) option" where
  "name_status_entry line =
     (case split_on (CHR 0x09) line of
        raw # rest \<Rightarrow>
          (if trim raw = [] \<or> rest = [] then None
           else (let path = trim (last rest) in if path = [] then None else Some (chars_take 1 (trim raw), path)))
      | [] \<Rightarrow> None)"

definition git_files_changed_since_with_status ::
  "command_runner \<Rightarrow> string \<Rightarrow> string option \<Rightarrow> (string \<times> string) list" where
  "git_files_changed_since_with_status runner worktree pre =
     (case pre of
        None \<Rightarrow> []
      | Some sha \<Rightarrow> List.map_filter name_status_entry (str_lines (stdout_or_empty
          (runner ''git'' [''diff'', ''--name-status'', sha, ''HEAD''] worktree))))"

definition guard_result :: "string \<Rightarrow> check_result" where
  "guard_result message = \<lparr>cr_name = ''write-verification'', cr_kind = ''write-verification'', cr_passed = False,
     cr_output = [], cr_message = message, cr_failure_class = Fixable\<rparr>"

definition guard_base :: "task_context \<Rightarrow> string option" where
  "guard_base ctx =
     (let field = (\<lambda>k. Option.bind (Option.bind (get_result ctx ''ImplementTaskNode'') (\<lambda>v. json_get v k)) as_str)
      in case field ''task_base_sha'' of Some sha \<Rightarrow> Some sha | None \<Rightarrow> field ''pre_call_sha'')"

definition guard_changes :: "check_env \<Rightarrow> task_context \<Rightarrow> string \<Rightarrow> (string \<times> string) list" where
  "guard_changes K ctx worktree =
     (case guard_base ctx of
        Some sha \<Rightarrow> git_files_changed_since_with_status (ck_runner K) worktree (Some sha)
      | None \<Rightarrow> changed_files_with_status K worktree)"

definition unchanged_message :: "task_context \<Rightarrow> sdlc_task \<Rightarrow> string" where
  "unchanged_message ctx t =
     (let claimed = (case Option.bind (Option.bind (get_result ctx ''ImplementTaskNode'')
            (\<lambda>v. json_get v ''modified_files'')) as_array of Some es \<Rightarrow> List.map_filter as_str es | None \<Rightarrow> [])
      in (if claimed = [] then ''ImplementTaskNode claimed no modified_files''
          else ''ImplementTaskNode claimed modified_files '' @ debug_strs claimed) @
         '' and the worktree shows no changes at all ('' @
         (if guard_base ctx \<noteq> None then ''git diff --name-status against the pre-call HEAD''
          else ''git status --porcelain'') @
         ('' reported nothing) '' @ [CHR 0xE2, CHR 0x80, CHR 0x94] @ '' task '') @ decimal (unat (tk_task_id t)) @
         ('' is expected to write, so an unchanged worktree means the implement work never reached this '' @
       ''tree. Harness checks passing against an untouched checkout say nothing about this task. '' @
       ''If this task is genuinely investigation-only, declare '' @ [CHR 0x22] @ ''expects_writes'' @
       [CHR 0x22] @ '': false on it in tasks.json.''))"

definition deletion_message :: "sdlc_task \<Rightarrow> string \<Rightarrow> string" where
  "deletion_message t path =
     ''task '' @ decimal (unat (tk_task_id t)) @ ('' deleted '' @ [CHR 0x27]) @ path @ ([CHR 0x27] @ '', a path it never declared in tasks.json'' @ [CHR 0x27] @ ''s files[] ('') @ debug_strs (tk_files t) @
     ('') '' @ [CHR 0xE2, CHR 0x80, CHR 0x94] @
       '' a task deleting a file it did not declare is the shape of one task destroying another'' @ [CHR 0x27] @
       ''s work. If this deletion is intentional, add '' @ [CHR 0x27]) @ path @ ([CHR 0x27] @ '' to this task'' @ [CHR 0x27] @ ''s files[].'')"

definition missed_message :: "sdlc_task \<Rightarrow> string list \<Rightarrow> string" where
  "missed_message t changed =
     ''task '' @ decimal (unat (tk_task_id t)) @ '' declared files[] '' @ debug_strs (tk_files t) @
     ('' but the worktree'' @ [CHR 0x27] @ ''s changed paths are '') @ debug_strs changed @
     ('' '' @ [CHR 0xE2, CHR 0x80, CHR 0x94] @
       '' none of the declared files were touched. A non-empty diff is not enough; the diff must '' @
       ''intersect what this task said it would do.'')"

definition verify_claimed_writes :: "check_env \<Rightarrow> task_context \<Rightarrow> sdlc_task \<Rightarrow> string \<Rightarrow> check_result option" where
  "verify_claimed_writes K ctx t worktree =
     (if \<not> tk_expects_writes t then None
      else (let changes = guard_changes K ctx worktree; changed = map snd changes
            in if changed = [] then Some (guard_result (unchanged_message ctx t))
               else case find (\<lambda>(status, path). CHR ''D'' \<in> set status \<and> path \<notin> set (tk_files t)) changes of
                      Some (_, path) \<Rightarrow> Some (guard_result (deletion_message t path))
                    | None \<Rightarrow>
                        (if tk_files t \<noteq> [] \<and> set changed \<inter> set (tk_files t) = {}
                         then Some (guard_result (missed_message t changed)) else None)))"

subsection \<open>TestTaskNode\<close>

definition default_repo_slug :: string where
  "default_repo_slug = ''engine-rs''"

definition resolve_harness_path :: "check_env \<Rightarrow> task_context \<Rightarrow> string \<Rightarrow> string" where
  "resolve_harness_path K ctx worktree =
     (let repo_path = path_join (path_join worktree ''planning'') ''harness.json''
      in case Option.bind (json_get (event ctx) ''spec_slug'') as_str of
           None \<Rightarrow> repo_path
         | Some slug \<Rightarrow>
             (let p = path_join (path_join (path_join worktree ''planning'') slug) ''harness.json''
              in if ck_file K p \<noteq> NoFile then p else repo_path))"

definition spec_dir_for_baseline :: "task_context \<Rightarrow> string \<Rightarrow> string" where
  "spec_dir_for_baseline ctx worktree =
     (case Option.bind (json_get (event ctx) ''spec_slug'') as_str of
        Some slug \<Rightarrow> if slug = [] then path_join worktree ''planning''
                     else path_join (path_join worktree ''planning'') slug
      | None \<Rightarrow> path_join worktree ''planning'')"

definition harness_checks :: "check_env \<Rightarrow> string \<Rightarrow> node_error + json list" where
  "harness_checks K path =
     (case ck_file K path of
        NoFile \<Rightarrow> Inr []
      | Unreadable \<Rightarrow> Inl (node_error_new (''failed to read '' @ path @ '': '' @ ck_read_error K path))
      | FileText raw \<Rightarrow>
          (case jx_parse (ck_json K) raw of
             Inl err \<Rightarrow> Inl (node_error_new (''failed to parse '' @ path @ '': '' @ err))
           | Inr harness \<Rightarrow> Inr (case Option.bind (Option.bind (json_get harness ''validation'')
                (\<lambda>v. json_get v ''checks'')) as_array of Some cs \<Rightarrow> cs | None \<Rightarrow> [])))"

definition check_job_spec :: "string \<Rightarrow> task_context \<Rightarrow> string \<Rightarrow> json list \<Rightarrow> heavy_spec" where
  "check_job_spec cls ctx worktree checks =
     \<lparr>hs_class = cls, hs_repo = (case Option.bind (json_get (event ctx) ''repo'') as_str of
        Some r \<Rightarrow> r | None \<Rightarrow> default_repo_slug),
      hs_cwd = worktree,
      hs_commands = List.map_filter (\<lambda>c. Option.bind (json_get c ''command'') as_str) checks,
      hs_run_id = None\<rparr>"

text \<open>The admission facts of work that the node waits for.\<close>

definition heavy_run_outcome :: "check_env \<Rightarrow> heavy_spec \<Rightarrow> heavy_outcome" where
  "heavy_run_outcome K spec =
     (case fst (submit_with_id (ck_heavy K) (ck_store_ok K) (ck_now K) (ck_job_id K) spec (ck_jobs K)) of
        RunInline m \<Rightarrow> inline_outcome m spec
      | WaitForAdmission job _ \<Rightarrow> admitted_outcome job (ck_admitted_at K))"

definition heavy_mode_str :: "heavy_mode \<Rightarrow> string" where
  "heavy_mode_str m = (case m of ModeDisabled \<Rightarrow> ''disabled'' | ModeEnabled \<Rightarrow> ''enabled'')"

definition heavy_outcome_json :: "check_env \<Rightarrow> heavy_outcome \<Rightarrow> json" where
  "heavy_outcome_json K h = JObj [(''mode'', JStr (heavy_mode_str (ho_mode h))),
     (''job_id'', json_of_opt (\<lambda>u. JStr (uuid_str (ck_formats K) u)) (ho_job_id h)),
     (''class'', JStr (ho_class h)), (''waited_ms'', json_u64 (ho_waited_ms h)), (''degraded'', JBool (ho_degraded h))]"

definition idle_heavy_json :: "string \<Rightarrow> json" where
  "idle_heavy_json cls = JObj [(''mode'', JStr ''disabled''), (''job_id'', JNull), (''class'', JStr cls),
     (''waited_ms'', json_u64 0), (''degraded'', JBool False)]"

definition queue_park_active :: "check_env \<Rightarrow> sdlc_policy \<Rightarrow> bool" where
  "queue_park_active K p \<longleftrightarrow> sy_test_dispatch p = DispatchQueuePark \<and> hc_enabled (ck_heavy K) \<and>
     config_class (ck_heavy K) ''test'' \<noteq> None"

text \<open>\<open>None\<close> is the panic of the suspension request on a stored marker of the wrong shape.\<close>

definition park_test :: "check_env \<Rightarrow> check_result option \<Rightarrow> task_context \<Rightarrow> task_context option" where
  "park_test K guard ctx =
     (let job = JStr (uuid_str (ck_formats K) (ck_job_id K));
          c1 = put_result ''TestTaskNode'' (JObj [(''queued'', JBool True), (''job_id'', job),
            (''guard_result'', json_of_opt check_result_to_json guard), (''test_dispatch'', JStr ''queue_park'')]) ctx
      in do {
        m \<leftarrow> json_index_set (metadata c1) ''heavy_work'' (JObj [(''job_id'', job), (''class'', JStr ''test''),
          (''state'', JStr ''queued'')]);
        m' \<leftarrow> request_suspension_with_reason HeavyWorkQueue m;
        Some (c1\<lparr>metadata := m'\<rparr>)
      })"

definition failure_summary_of :: "string list \<Rightarrow> string" where
  "failure_summary_of failed = (if failed = [] then [] else ''Failed checks: '' @ join_with '', '' failed)"

definition test_result ::
  "check_result option \<Rightarrow> check_result list \<Rightarrow> string list \<Rightarrow> check_selection \<Rightarrow> json \<Rightarrow> json" where
  "test_result guard results failed sel heavy =
     (let rs = (case guard of Some g \<Rightarrow> g # results | None \<Rightarrow> results);
          fs = (case guard of Some g \<Rightarrow> cr_name g # failed | None \<Rightarrow> failed)
      in JObj [(''all_passed'', JBool (fs = [])), (''check_results'', JArr (map check_result_to_json rs)),
           (''failure_summary'', JStr (failure_summary_of fs)),
           (''test_depth'', JStr (test_depth_str (se_depth sel))), (''check_source'', JStr (se_source sel)),
           (''excluded_checks'', json_strs (se_excluded sel)), (''heavy_work'', heavy)])"

definition harness_missing :: "string \<Rightarrow> u32 \<Rightarrow> check_result" where
  "harness_missing path i = \<lparr>cr_name = ''harness-missing'', cr_kind = ''harness-missing'', cr_passed = False,
     cr_output = [], cr_message = ''no planning/harness.json found at '' @ path @ '' and task '' @ decimal (unat i) @
       ('' declares no validation_commands: nothing to validate against, so this is a gating failure '' @
       ''rather than a silent pass''),
     cr_failure_class = Fixable\<rparr>"

text \<open>The part of \<open>process\<close> after the reads that can fail.\<close>

definition test_run ::
  "check_env \<Rightarrow> task_context \<Rightarrow> string \<Rightarrow> sdlc_policy \<Rightarrow> u32 \<Rightarrow> sdlc_task \<Rightarrow> json list \<Rightarrow> task_context option" where
  "test_run K ctx worktree p i t harness =
     (let guard = verify_claimed_writes K ctx t worktree; path = resolve_harness_path K ctx worktree;
          commands = tk_validation_commands t; depth = sy_test_depth p
      in if ck_file K path = NoFile \<and> commands = []
         then (let r = harness_missing path i
               in Some (put_result ''TestTaskNode'' (test_result guard [r] [cr_name r]
                    \<lparr>se_source = ''harness'', se_depth = depth, se_excluded = []\<rparr> (idle_heavy_json ''test'')) ctx))
         else (let (checks, sel) = select_task_checks harness commands depth True
               in if queue_park_active K p then park_test K guard ctx
                  else (let (results, failed) = run_checks K checks worktree (spec_dir_for_baseline ctx worktree) [] [];
                            h = heavy_run_outcome K (check_job_spec ''test'' ctx worktree checks)
                        in Some (put_result ''TestTaskNode''
                             (test_result guard results failed sel (heavy_outcome_json K h)) ctx))))"

definition test_process :: "check_env \<Rightarrow> task_context \<Rightarrow> (node_error + task_context) option" where
  "test_process K ctx =
     (case bind_result (worktree_path ctx) (\<lambda>worktree.
           bind_result (policy_or_error ctx) (\<lambda>p.
           bind_result (current_task_id ctx) (\<lambda>i.
           bind_result (current_task_state ctx ''TestTaskNode'') (\<lambda>t.
           bind_result (harness_checks K (resolve_harness_path K ctx worktree)) (\<lambda>harness.
             Inr (worktree, p, i, t, harness)))))) of
        Inl e \<Rightarrow> Some (Inl e)
      | Inr (worktree, p, i, t, harness) \<Rightarrow> map_option Inr (test_run K ctx worktree p i t harness))"

text \<open>The node in the registry; the panic, which unwinds the walk, is shown as an error.\<close>

definition test_node :: "(nat \<Rightarrow> check_env) \<Rightarrow> nat \<Rightarrow> task_context \<Rightarrow> node_error + task_context" where
  "test_node K t ctx = (case test_process (K t) ctx of
     Some r \<Rightarrow> r | None \<Rightarrow> Inl (node_error_new ''panicked: cannot access key in JSON''))"

text \<open>The job that a parked attempt leaves on the queue: its work and what the work records.\<close>

definition parked_checks :: "check_env \<Rightarrow> task_context \<Rightarrow> string \<Rightarrow> sdlc_policy \<Rightarrow> sdlc_task \<Rightarrow> json list \<Rightarrow> job_result" where
  "parked_checks K ctx worktree p t harness = check_run_heavy_work_result
     (run_checks K (fst (select_task_checks harness (tk_validation_commands t) (sy_test_depth p) True))
       worktree (spec_dir_for_baseline ctx worktree) [] [])"

subsection \<open>FinalValidationNode\<close>

datatype validation_scope = ScopeFull | ScopeReconcile

definition needs_reconcile :: "json \<Rightarrow> bool" where
  "needs_reconcile check \<longleftrightarrow> Option.bind (json_get check ''gates'') as_bool = Some True \<and>
     ((case Option.bind (json_get check ''fastCommand'') as_str of
         None \<Rightarrow> False
       | Some fast \<Rightarrow> fast \<noteq> [] \<and> Some fast \<noteq> Option.bind (json_get check ''command'') as_str) \<or>
      Option.bind (json_get check ''perTask'') as_bool = Some False)"

definition select_reconcile_checks :: "json list \<Rightarrow> json list" where
  "select_reconcile_checks = filter needs_reconcile"

definition validation_result :: "check_result list \<Rightarrow> string list \<Rightarrow> bool \<Rightarrow> string \<Rightarrow> json \<Rightarrow> json" where
  "validation_result results failed skipped reason heavy =
     JObj [(''all_passed'', JBool (failed = [])), (''check_results'', JArr (map check_result_to_json results)),
       (''failure_summary'', JStr (failure_summary_of failed)), (''skipped'', JBool skipped),
       (''skip_reason'', JStr reason), (''heavy_work'', heavy)]"

definition skip_and_stamp :: "string \<Rightarrow> task_context \<Rightarrow> task_context" where
  "skip_and_stamp reason ctx =
     put_result ''FinalValidationNode'' (validation_result [] [] True reason (idle_heavy_json ''build'')) ctx"

definition run_and_stamp :: "check_env \<Rightarrow> json list \<Rightarrow> string \<Rightarrow> task_context \<Rightarrow> task_context" where
  "run_and_stamp K checks worktree ctx =
     (let (results, failed) = run_checks K checks worktree (spec_dir_for_baseline ctx worktree) [] [];
          h = heavy_run_outcome K (check_job_spec ''build'' ctx worktree checks)
      in put_result ''FinalValidationNode'' (validation_result results failed False [] (heavy_outcome_json K h)) ctx)"

definition full_depth_reason :: string where
  "full_depth_reason = (''test_depth=full: every check already ran authoritative on every per-task pass; reconciling '' @
       ''again would be a pure double-run'')"

definition nothing_to_reconcile_reason :: string where
  "nothing_to_reconcile_reason = (''no gating check needed reconciling (no fastCommand substitutions, no perTask:false checks) '' @
       ''- skipped, zero added cost'')"

definition final_validation_process :: "validation_scope \<Rightarrow> check_env \<Rightarrow> task_context \<Rightarrow> node_error + task_context" where
  "final_validation_process scope K ctx =
     bind_result (worktree_path ctx) (\<lambda>worktree.
     bind_result (harness_checks K (resolve_harness_path K ctx worktree)) (\<lambda>harness.
       case scope of
         ScopeFull \<Rightarrow> Inr (run_and_stamp K (fst (select_task_checks harness [] DepthFull False)) worktree ctx)
       | ScopeReconcile \<Rightarrow>
           bind_result (policy_or_error ctx) (\<lambda>p.
             if sy_test_depth p = DepthFull then Inr (skip_and_stamp full_depth_reason ctx)
             else (let checks = select_reconcile_checks harness
                   in if checks = [] then Inr (skip_and_stamp nothing_to_reconcile_reason ctx)
                      else Inr (run_and_stamp K checks worktree ctx)))))"

end
