(* ===== verification/TaskCheckLaws.thy ===== *)
theory TaskCheckLaws
  imports TaskChecks TaskNodeLaws QueuePark HeavyLaws
begin

text \<open>
  Laws of the checks of an attempt: what a pass means, what the test node leaves alone, what a parked attempt
  forgets, and which checks no node of the short flow ever runs.
\<close>

subsection \<open>The executor\<close>

text \<open>One result for each enabled check, in order; the failed names are those of the gating ones.\<close>

lemma run_checks_exact:
  "run_checks K checks w d rs fs =
     (rs @ map (run_check K w d) (filter check_enabled checks),
      fs @ map cr_name (filter (\<lambda>r. \<not> cr_passed r)
        (map (run_check K w d) (filter (\<lambda>c. check_enabled c \<and> check_gates c) checks))))"
  by (induction K checks w d rs fs rule: run_checks.induct) (auto simp: Let_def)

definition gating_checks_pass :: "check_env \<Rightarrow> string \<Rightarrow> string \<Rightarrow> json list \<Rightarrow> bool" where
  "gating_checks_pass K w d checks \<longleftrightarrow>
     list_all (\<lambda>c. cr_passed (run_check K w d c)) (filter (\<lambda>c. check_enabled c \<and> check_gates c) checks)"

lemma failed_names_empty: "snd (run_checks K checks w d [] []) = [] \<longleftrightarrow> gating_checks_pass K w d checks"
  by (auto simp: run_checks_exact gating_checks_pass_def list_all_iff filter_empty_conv)

subsection \<open>The write guard\<close>

definition writes_as_declared :: "check_env \<Rightarrow> task_context \<Rightarrow> sdlc_task \<Rightarrow> string \<Rightarrow> bool" where
  "writes_as_declared K ctx t w \<longleftrightarrow>
     (let changes = guard_changes K ctx w
      in changes \<noteq> [] \<and> list_all (\<lambda>(status, path). CHR ''D'' \<in> set status \<longrightarrow> path \<in> set (tk_files t)) changes \<and>
         (tk_files t = [] \<or> set (map snd changes) \<inter> set (tk_files t) \<noteq> {}))"

lemma guard_passes:
  "verify_claimed_writes K ctx t w = None \<longleftrightarrow> \<not> tk_expects_writes t \<or> writes_as_declared K ctx t w"
proof -
  let ?P = "\<lambda>(status, path). CHR ''D'' \<in> set status \<and> path \<notin> set (tk_files t)"
  let ?c = "guard_changes K ctx w"
  have none: "find ?P ?c = None \<longleftrightarrow>
      list_all (\<lambda>(status, path). CHR ''D'' \<in> set status \<longrightarrow> path \<in> set (tk_files t)) ?c"
    by (auto simp: find_None_iff list_all_iff)
  show ?thesis
    unfolding verify_claimed_writes_def writes_as_declared_def Let_def none [symmetric]
    by (cases "find ?P ?c") (auto split: prod.split)
qed

lemma guard_fails_kind: "verify_claimed_writes K ctx t w = Some g \<Longrightarrow> \<not> cr_passed g"
  by (auto simp: verify_claimed_writes_def Let_def guard_result_def split: option.splits if_splits)

subsection \<open>TestTaskNode\<close>

lemma put_result_other [simp]: "event (put_result i v c) = event c" "metadata (put_result i v c) = metadata c"
  by (simp_all add: put_result_def)

lemma park_test_keeps: "park_test K g c = Some c' \<Longrightarrow> keeps_except {''TestTaskNode''} c c'"
  by (auto simp: park_test_def Let_def keeps_except_def get_result_def put_result_def bind_eq_Some_conv)

lemma test_run_keeps: "test_run K c w p i t H = Some c' \<Longrightarrow> keeps_except {''TestTaskNode''} c c'"
  by (auto simp: test_run_def Let_def case_prod_beta intro: park_test_keeps keeps_except_put split: if_splits)

lemma test_process_keeps: "test_process K c = Some (Inr ok) \<Longrightarrow> keeps_except {''TestTaskNode''} c ok"
  by (auto simp: test_process_def intro: test_run_keeps split: sum.splits)

lemma test_node_keeps: "test_node K t c = Inr ok \<Longrightarrow> keeps_except {''TestTaskNode''} c ok"
  by (auto simp: test_node_def intro: test_process_keeps split: option.splits)

definition test_reads ::
  "check_env \<Rightarrow> task_context \<Rightarrow> string \<Rightarrow> sdlc_policy \<Rightarrow> sdlc_task \<Rightarrow> json list \<Rightarrow> bool" where
  "test_reads K ctx w p t H \<longleftrightarrow> worktree_path ctx = Inr w \<and> resolved_policy ctx = Inr p \<and>
     current_task_state ctx ''TestTaskNode'' = Inr t \<and> harness_checks K (resolve_harness_path K ctx w) = Inr H"

lemma current_task_state_id: "current_task_state c caller = Inr t \<Longrightarrow> current_task_id c = Inr (tk_task_id t)"
  using find_task_in by (fastforce simp: current_task_state_def bind_result_eq_Inr ok_or_def split: option.splits)

lemma test_process_runs:
  assumes "test_reads K ctx w p t H"
  shows "test_process K ctx = map_option Inr (test_run K ctx w p (tk_task_id t) t H)"
proof -
  have "current_task_id ctx = Inr (tk_task_id t)"
    using assms by (auto simp: test_reads_def intro: current_task_state_id)
  with assms show ?thesis
    by (simp add: test_process_def test_reads_def bind_result_def policy_or_error_def map_err_def)
qed

definition selected_checks :: "sdlc_policy \<Rightarrow> sdlc_task \<Rightarrow> json list \<Rightarrow> json list" where
  "selected_checks p t H = fst (select_task_checks H (tk_validation_commands t) (sy_test_depth p) True)"

definition verdict_field :: "task_context \<Rightarrow> string \<Rightarrow> json option" where
  "verdict_field ctx i = Option.bind (get_result ctx i) (\<lambda>v. json_get v ''all_passed'')"

lemma test_result_all_passed:
  "json_get (test_result g rs fs sel h) ''all_passed'' = Some (JBool (g = None \<and> fs = []))"
  by (auto simp: test_result_def Let_def split: option.splits)

text \<open>
  C17. A pass is earned. Where the checks run at once, the test node stamps \<open>all_passed\<close> exactly when the task
  declares that it writes nothing, or the worktree changed as the task's files allow, and there is something to
  check it against, and every enabled gating check that was selected passed.
\<close>

theorem test_verdict_exact:
  assumes "test_reads K ctx w p t H" and "\<not> queue_park_active K p"
  shows "\<exists>ok. test_process K ctx = Some (Inr ok) \<and> verdict_field ok ''TestTaskNode'' = Some (JBool
    ((\<not> tk_expects_writes t \<or> writes_as_declared K ctx t w) \<and>
     (ck_file K (resolve_harness_path K ctx w) \<noteq> NoFile \<or> tk_validation_commands t \<noteq> []) \<and>
     gating_checks_pass K w (spec_dir_for_baseline ctx w) (selected_checks p t H)))"
proof (cases "ck_file K (resolve_harness_path K ctx w) = NoFile \<and> tk_validation_commands t = []")
  case True
  then show ?thesis
    using assms(2)
    by (simp add: test_process_runs [OF assms(1)] test_run_def Let_def verdict_field_def test_result_all_passed)
next
  case False
  let ?checks = "select_task_checks H (tk_validation_commands t) (sy_test_depth p) True"
  let ?run = "run_checks K (fst ?checks) w (spec_dir_for_baseline ctx w) [] []"
  have run: "test_run K ctx w p (tk_task_id t) t H = Some (put_result ''TestTaskNode''
      (test_result (verify_claimed_writes K ctx t w) (fst ?run) (snd ?run) (snd ?checks)
        (heavy_outcome_json K (heavy_run_outcome K (check_job_spec ''test'' ctx w (fst ?checks))))) ctx)"
    using False assms(2) by (auto simp: test_run_def Let_def case_prod_beta)
  have "verify_claimed_writes K ctx t w = None \<and> snd ?run = [] \<longleftrightarrow>
      (\<not> tk_expects_writes t \<or> writes_as_declared K ctx t w) \<and>
      gating_checks_pass K w (spec_dir_for_baseline ctx w) (selected_checks p t H)"
    by (simp add: guard_passes failed_names_empty selected_checks_def)
  with False run show ?thesis
    by (auto simp: test_process_runs [OF assms(1)] verdict_field_def test_result_all_passed)
qed

subsection \<open>A parked attempt\<close>

lemma current_task_state_Inr:
  "current_task_state c caller = Inr t \<longleftrightarrow>
     (\<exists>i s. current_task_id c = Inr i \<and> latest_state c = Inr s \<and> find_task s i = Some t)"
  by (cases "current_task_id c"; cases "latest_state c")
    (auto simp: current_task_state_def bind_result_def ok_or_def split: option.splits)

lemma current_task_state_keeps:
  assumes "keeps_except {''TestTaskNode''} c c'" and "current_task_state c caller = Inr t"
  shows "current_task_state c' i = Inr t"
  using assms(2) current_task_id_keeps [OF assms(1)] latest_state_keeps [OF assms(1)]
  by (simp add: current_task_state_Inr)

lemma inject_outcome_view:
  assumes "inject_outcome v c = Some c'"
  shows "keeps_except {''TestTaskNode''} c c'" and "get_result c' ''TestTaskNode'' = Some v"
  using assms
  by (auto simp: inject_outcome_def bind_eq_Some_conv keeps_except_def get_result_def update_conv
      test_task_node_identity_def)

text \<open>
  C18. A parked attempt forgets the write guard. Where the checks go to the heavy-work queue, the verdict of the
  guard stays in the output that the job's outcome then replaces: a task that left its worktree as it was, or
  deleted a file it never declared, passes its triage when the checks of the untouched tree pass.
\<close>

theorem parked_attempt_forgets_guard:
  assumes "test_reads K ctx w p t H" and "queue_park_active K p"
    and "verify_claimed_writes K ctx t w = Some g"
    and "ck_file K (resolve_harness_path K ctx w) \<noteq> NoFile \<or> tk_validation_commands t \<noteq> []"
    and "test_process K ctx = Some (Inr parked)" and "keeps_except {} parked seen"
    and "map_of D (ck_job_id K) = Some (Some job)" and "hj_id job = ck_job_id K"
    and "gating_checks_pass K w (spec_dir_for_baseline ctx w) (selected_checks p t H)"
    and "await_outcome X (end_work (\<lambda>_. True) now (ck_job_id K)
      (Some (run_checks K (selected_checks p t H) w (spec_dir_for_baseline ctx w) [] []))
      (Some check_run_heavy_work_result) D) (ck_job_id K) = Some outcome"
    and "inject_outcome outcome seen = Some resumed"
  shows "verdict_field resumed ''TestTaskNode'' = Some (JBool True) \<and>
    (\<exists>c. triage_process E resumed = Inr c \<and>
       Option.bind (get_result c ''TriageTaskNode'') (\<lambda>v. json_get v ''verdict'') = Some (JStr ''PASS''))"
proof -
  let ?out = "run_checks K (selected_checks p t H) w (spec_dir_for_baseline ctx w) [] []"
  have keeps: "keeps_except {''TestTaskNode''} ctx resumed"
    using test_process_keeps [OF assms(5)] assms(6) inject_outcome_view(1) [OF assms(11)]
    by (auto simp: keeps_except_def)
  have "jr_passed (check_run_heavy_work_result ?out)"
    using assms(9) failed_names_empty by (simp add: check_run_heavy_work_result_def)
  moreover obtain v where "await_outcome X (end_work (\<lambda>_. True) now (ck_job_id K) (Some ?out)
        (Some check_run_heavy_work_result) D) (ck_job_id K) = Some v"
      "json_get v ''all_passed'' = Some (JBool (jr_passed (check_run_heavy_work_result ?out)))"
    using parked_verdict [OF assms(7,8), of X now ?out check_run_heavy_work_result] by blast
  ultimately have passed: "json_get outcome ''all_passed'' = Some (JBool True)" using assms(10) by simp
  note result = inject_outcome_view(2) [OF assms(11)]
  have t: "current_task_state ctx ''TestTaskNode'' = Inr t" and p: "resolved_policy ctx = Inr p"
    using assms(1) by (simp_all add: test_reads_def)
  have t': "current_task_state resumed ''TriageTaskNode'' = Inr t" by (rule current_task_state_keeps [OF keeps t])
  obtain fields where "current_task_fields resumed = Inr fields"
    using t' by (auto simp: current_task_state_Inr current_task_id_def bind_result_eq_Inr)
  moreover have "resolved_policy resumed = Inr p"
    using resolved_policy_keeps [OF keeps] p by (simp add: resolved_policy_identity_def)
  ultimately show ?thesis
    using t' result passed
    by (simp add: triage_process_def verdict_field_def ok_or_def bind_result_def policy_or_error_def map_err_def)
qed

subsection \<open>Checks that no node runs\<close>

text \<open>
  In the short flow at full depth, the built-in default, a check declared \<open>perTask: false\<close> never runs. The test
  node drops it at every attempt, and the reconcile at the end, which was to run such checks, skips all of them
  because every check is said to have run on the attempts, and reports a pass.
\<close>

theorem per_task_false_never_runs:
  assumes "worktree_path ctx = Inr w" and "resolved_policy ctx = Inr p" and "sy_test_depth p = DepthFull"
    and "harness_checks K (resolve_harness_path K ctx w) = Inr H"
    and "Option.bind (json_get check ''perTask'') as_bool = Some False"
  shows "check \<notin> set (fst (select_task_checks H [] DepthFull True)) \<and>
    (\<exists>c. final_validation_process ScopeReconcile K ctx = Inr c \<and>
       verdict_field c ''FinalValidationNode'' = Some (JBool True) \<and>
       Option.bind (get_result c ''FinalValidationNode'') (\<lambda>v. json_get v ''check_results'') = Some (JArr []))"
  using assms
  by (auto simp: select_task_checks_def check_dropped_def fast_form_def final_validation_process_def
      bind_result_def policy_or_error_def map_err_def skip_and_stamp_def verdict_field_def validation_result_def)

subsection \<open>A small setting\<close>

text \<open>
  Every command ends well and prints nothing, so the worktree never changes; the task has one validation
  command, and the heavy-work queue holds a job of another run before its own.
\<close>

definition sample_harness_check :: json where
  "sample_harness_check = JObj [(''name'', JStr ''slow''), (''kind'', JStr ''command''),
     (''command'', JStr ''make all''), (''perTask'', JBool False)]"

definition sample_check_env :: "file_content \<Rightarrow> check_env" where
  "sample_check_env file =
     \<lparr>ck_runner = (\<lambda>p args cwd. Inr \<lparr>co_status = 0, co_stdout = [], co_stderr = []\<rparr>),
      ck_json = \<lparr>jx_parse = (\<lambda>s. Inr (JObj [(''validation'', JObj [(''checks'', JArr [sample_harness_check])])])),
        jx_decode_error = (\<lambda>v. ''wrong shape''), jx_print = (\<lambda>v. [])\<rparr>,
      ck_lower = (\<lambda>s. s), ck_regex = (\<lambda>p. None), ck_file = (\<lambda>p. file), ck_read_error = (\<lambda>p. ''no access''),
      ck_formats = sample_ext, ck_heavy = example_heavy_config, ck_store_ok = (\<lambda>_. True), ck_now = 30,
      ck_admitted_at = 31, ck_job_id = 2, ck_jobs = example_dir\<rparr>"

definition sample_checked_task :: "bool \<Rightarrow> sdlc_task" where
  "sample_checked_task writes = (sdlc_task_new 1 ''a'' ''b'')\<lparr>tk_validation_commands := [''make test''],
     tk_expects_writes := writes\<rparr>"

definition sample_checked_state :: "bool \<Rightarrow> sdlc_state" where
  "sample_checked_state writes = (sdlc_state_new ''feature'')\<lparr>ss_tasks := [sample_checked_task writes]\<rparr>"

definition sample_checked_context :: "bool \<Rightarrow> test_dispatch \<Rightarrow> task_context" where
  "sample_checked_context writes d = \<lparr>event = JNull,
     nodes = [(''SetupWorktreeNode'', JObj [(''worktree_path'', JStr ''/work'')]),
       (''TaskQueueRouterNode'', queue_entry (sample_checked_task writes)),
       (''LoadTaskStateNode'', sdlc_state_to_json (sample_checked_state writes)),
       (resolved_policy_identity, sdlc_policy_to_json (sdlc_policy_default\<lparr>sy_test_dispatch := d\<rparr>))],
     metadata = JObj [], node_runs = []\<rparr>"

lemma sample_check_reads:
  "test_reads (sample_check_env NoFile) (sample_checked_context writes d) ''/work''
     (sdlc_policy_default\<lparr>sy_test_dispatch := d\<rparr>) (sample_checked_task writes) []"
proof -
  let ?c = "sample_checked_context writes d"
  have fin: "state_finite (sample_checked_state writes)"
    by (simp add: state_finite_def sample_checked_state_def sdlc_state_new_def sdlc_telemetry_default_def
        f64_is_finite_def sample_checked_task_def sdlc_task_new_def)
  have p: "resolved_policy ?c = Inr (sdlc_policy_default\<lparr>sy_test_dispatch := d\<rparr>)"
    by (simp add: resolved_policy_def resolved_policy_strict_def sample_checked_context_def
        resolved_policy_identity_def ok_or_def bind_result_def sdlc_policy_default_def)
  have "latest_state ?c = Inr (sample_checked_state writes)"
    using fin
    by (simp add: latest_state_def state_identities_def state_value_def get_result_def sample_checked_context_def
        resolved_policy_identity_def state_nested_identities_def sdlc_state_back ok_or_def bind_result_def)
  moreover have "current_task_id ?c = Inr 1"
    by (simp add: current_task_id_def current_task_fields_def get_result_def sample_checked_context_def queue_entry_def
        json_u32_def sdlc_task_new_def sample_checked_task_def ok_or_def bind_result_def)
  ultimately have t: "current_task_state ?c ''TestTaskNode'' = Inr (sample_checked_task writes)"
    by (simp add: current_task_state_Inr find_task_def sample_checked_state_def sample_checked_task_def sdlc_task_new_def)
  have w: "worktree_path ?c = Inr ''/work''"
    by (simp add: worktree_path_def sample_checked_context_def get_result_def ok_or_def)
  show ?thesis
    using p t w by (simp add: test_reads_def harness_checks_def sample_check_env_def)
qed

lemma sample_checks:
  "selected_checks p (sample_checked_task writes) H = [task_validation_check 0 ''make test'']"
  "tk_validation_commands (sample_checked_task writes) \<noteq> []"
  "tk_expects_writes (sample_checked_task writes) = writes"
  by (simp_all add: selected_checks_def select_task_checks_def sample_checked_task_def)

lemma sample_checks_pass:
  "gating_checks_pass (sample_check_env file) w d [task_validation_check 0 ''make test'']"
  by (simp add: gating_checks_pass_def task_validation_check_def check_enabled_def check_gates_def run_check_def
      check_str_def run_command_check_def sample_check_env_def Let_def)

theorem test_verdict_exact_witness:
  "\<exists>ok. test_process (sample_check_env NoFile) (sample_checked_context False DispatchInline) = Some (Inr ok) \<and>
     verdict_field ok ''TestTaskNode'' = Some (JBool True)"
proof -
  have "\<not> queue_park_active (sample_check_env NoFile) (sdlc_policy_default\<lparr>sy_test_dispatch := DispatchInline\<rparr>)"
    by (simp add: queue_park_active_def)
  from test_verdict_exact [OF sample_check_reads [of False] this] show ?thesis
    by (simp add: sample_checks sample_checks_pass)
qed

lemma sample_park:
  "\<exists>c r. test_process (sample_check_env NoFile) (sample_checked_context True DispatchQueuePark) = Some (Inr c) \<and>
     inject_outcome v c = Some r"
proof -
  let ?K = "sample_check_env NoFile" and ?c = "sample_checked_context True DispatchQueuePark"
  have "queue_park_active ?K (sdlc_policy_default\<lparr>sy_test_dispatch := DispatchQueuePark\<rparr>)"
    by (simp add: queue_park_active_def sample_check_env_def example_heavy_config_def config_class_def)
  then have "test_process ?K ?c = map_option Inr (park_test ?K
      (verify_claimed_writes ?K ?c (sample_checked_task True) ''/work'') ?c)"
    using sample_checks(2) [of True]
    by (simp add: test_process_runs [OF sample_check_reads] test_run_def Let_def case_prod_beta)
  moreover have "\<exists>c r. park_test ?K g ?c = Some c \<and> inject_outcome v c = Some r" for g
    by (simp add: park_test_def Let_def sample_checked_context_def put_result_def request_suspension_with_reason_def
        request_with_pending_def inject_outcome_def mark_job_done_def stamp_resumed_def heavy_work_metadata_key_def
        stamp_key_def fresh_request_def ensure_object_def)
  ultimately show ?thesis by auto
qed

theorem parked_attempt_forgets_guard_witness:
  "\<exists>parked outcome resumed.
     test_process (sample_check_env NoFile) (sample_checked_context True DispatchQueuePark) = Some (Inr parked) \<and>
     inject_outcome outcome parked = Some resumed \<and>
     verdict_field resumed ''TestTaskNode'' = Some (JBool True)"
proof -
  let ?K = "sample_check_env NoFile" and ?c = "sample_checked_context True DispatchQueuePark"
    and ?t = "sample_checked_task True" and ?p = "sdlc_policy_default\<lparr>sy_test_dispatch := DispatchQueuePark\<rparr>"
  let ?out = "run_checks ?K (selected_checks ?p ?t []) ''/work'' (spec_dir_for_baseline ?c ''/work'') [] []"
  let ?D = "end_work (\<lambda>_. True) 40 (ck_job_id ?K) (Some ?out) (Some check_run_heavy_work_result) example_dir"
  have job: "map_of example_dir (ck_job_id ?K) = Some (Some (queued_job 20 2 example_spec))"
      "hj_id (queued_job 20 2 example_spec) = ck_job_id ?K"
    by (simp_all add: sample_check_env_def example_dir_def queued_job_def)
  obtain outcome where outcome: "await_outcome sample_ext ?D (ck_job_id ?K) = Some outcome"
    using parked_verdict [OF job, of sample_ext 40 ?out check_run_heavy_work_result] by blast
  obtain parked resumed where parked: "test_process ?K ?c = Some (Inr parked)"
      "inject_outcome outcome parked = Some resumed" using sample_park [of outcome] by blast
  have active: "queue_park_active ?K ?p"
    by (simp add: queue_park_active_def sample_check_env_def example_heavy_config_def config_class_def)
  have "guard_changes ?K ?c ''/work'' = []"
    by (simp add: guard_changes_def guard_base_def get_result_def sample_checked_context_def
        resolved_policy_identity_def changed_files_with_status_def sample_check_env_def stdout_or_empty_def str_lines_def)
  then obtain g where g: "verify_claimed_writes ?K ?c ?t ''/work'' = Some g"
    by (simp add: verify_claimed_writes_def sample_checks)
  have ready: "ck_file ?K (resolve_harness_path ?K ?c ''/work'') \<noteq> NoFile \<or> tk_validation_commands ?t \<noteq> []"
    by (simp add: sample_checks)
  have pass: "gating_checks_pass ?K ''/work'' (spec_dir_for_baseline ?c ''/work'') (selected_checks ?p ?t [])"
    by (simp add: sample_checks sample_checks_pass)
  have "verdict_field resumed ''TestTaskNode'' = Some (JBool True)"
    using parked_attempt_forgets_guard [OF sample_check_reads active g ready parked(1) keeps_except_refl job pass
      outcome parked(2)] by blast
  with parked show ?thesis by blast
qed

lemma per_task_sample:
  "harness_checks (sample_check_env (FileText [])) path = Inr [sample_harness_check]"
  by (simp add: harness_checks_def sample_check_env_def)

theorem per_task_false_never_runs_witness:
  "\<exists>c. final_validation_process ScopeReconcile (sample_check_env (FileText [])) (sample_checked_context True DispatchInline) = Inr c \<and>
     verdict_field c ''FinalValidationNode'' = Some (JBool True)"
proof -
  let ?c = "sample_checked_context True DispatchInline"
  have reads: "worktree_path ?c = Inr ''/work''" "resolved_policy ?c = Inr (sdlc_policy_default\<lparr>sy_test_dispatch := DispatchInline\<rparr>)"
    using sample_check_reads [of True DispatchInline] by (simp_all add: test_reads_def)
  have depth: "sy_test_depth (sdlc_policy_default\<lparr>sy_test_dispatch := DispatchInline\<rparr>) = DepthFull"
    by (simp add: sdlc_policy_default_def)
  have check: "Option.bind (json_get sample_harness_check ''perTask'') as_bool = Some False"
    by (simp add: sample_harness_check_def)
  show ?thesis using per_task_false_never_runs [OF reads depth per_task_sample check] by blast
qed

end
