(* ===== verification/TaskLaws.thy ===== *)
theory TaskLaws
  imports TaskNodeLaws RunLaws TaskCheckLaws
begin

text \<open>
  Laws of the SDLC task loop over \<open>TaskLoop\<close> and the runner: what an agent call bills, what an abort does
  to a review, which copy of the state a reader sees, and that the loop ends.
\<close>

subsection \<open>Agent calls\<close>

text \<open>The record of a step's call, as \<open>agent_process\<close> makes it.\<close>

definition step_trace :: "call_env \<Rightarrow> agent_code_step \<Rightarrow> task_context \<Rightarrow> (outcome \<times> transport_info) call_trace" where
  "step_trace env st ctx = call_with_retry env (ac_has_token st) (attempt_call st (build_prompt (ac_prompt st) ctx))
     (ac_retry st) (ac_name st) (case cf_model (ac_config st) of Some m \<Rightarrow> m | None \<Rightarrow> unknown_model)"

lemma agent_process_trace:
  "agent_process env st ctx =
     (case ct_result (step_trace env st ctx) of
        CallCancelled \<Rightarrow> Inr (record_sessions ctx (ct_failed_sessions (step_trace env st ctx)))
      | CallErr err \<Rightarrow> Inl (with_sessions err (ct_failed_sessions (step_trace env st ctx)))
      | CallOk (oc, info) \<Rightarrow> Inr (stamp_outcome (ac_name st) (ct_failed_sessions (step_trace env st ctx))
          (ct_last_started_at (step_trace env st ctx)) oc info ctx))"
  unfolding agent_process_def step_trace_def Let_def by (rule refl)

text \<open>A cancellation that wins against the first attempt leaves the context as it was.\<close>

lemma cancelled_first_attempt:
  assumes "ac_has_token st" and "ce_cancels_attempt env 1"
  shows "agent_process env st ctx = Inr ctx"
  using assms
  by (simp add: agent_process_def call_with_retry_def retry_loop.simps race_one_attempt_def
      record_sessions_def Let_def)

lemma task_step_simps [simp]:
  "ac_name (task_step E i c prompt p) = i"
  "ac_config (task_step E i c prompt p) = c"
  "ac_has_token (task_step E i c prompt p) = tx_has_token E"
  by (auto simp: task_step_def slot_apply_def with_meta_transport_def with_transport_def with_retry_policy_def
      agent_code_step_new_def with_cancellation_token_def Let_def split: option.splits)

lemma aborted_review_errs:
  assumes "tx_has_token E" and "ce_cancels_attempt (tx_call E) 1"
    and "node_content ctx ''ConsolidatedReviewNode'' = None"
  shows "\<exists>e. review_process E ctx = Inl e"
proof (cases "review_process E ctx")
  case (Inr ok)
  have "agent_process (tx_call E) (task_step E ''ConsolidatedReviewNode'' c prompt p) ctx = Inr ctx" for c prompt p
    using assms(1,2) by (intro cancelled_first_attempt) simp_all
  with Inr assms(3) show ?thesis
    by (auto simp: review_process_def bind_result_eq_Inr Let_def ok_or_def split: prod.splits)
qed blast

lemma failure_context_flags:
  assumes "k \<noteq> ''claude_sessions''" and "k \<noteq> ''node_invocations''"
  shows "flag_at (metadata (failure_context W t i pre err)) k f = flag_at (metadata pre) k f"
  using assms
  by (simp add: failure_context_def Let_def flag_at_def invocation_rows.append_other session_rows.fold_append_other
      split: option.splits)

lemma derive_terminal_status_telemetry [simp]:
  "derive_terminal_status (stamp_run_telemetry now st c) = derive_terminal_status c"
  by (simp add: derive_terminal_status_def flag_at_def Let_def)

lemma failed_dispatch_status:
  assumes "\<not> flag_at (metadata c) ''cancellation'' ''cancelled''" and "\<not> flag_at (metadata c) ''budget'' ''halted''"
  shows "derive_terminal_status (failure_context W t i (stamp_running W t i c) err) = ''failed''"
proof -
  obtain nr where nr: "map_of (node_runs (failure_context W t i (stamp_running W t i c) err)) i = Some nr"
      "nr_status nr = Failed"
    using failure_context_run by blast
  from map_of_SomeD [OF nr(1)] nr(2)
  have "list_ex (\<lambda>r. nr_status r = Failed)
      (map snd (node_runs (failure_context W t i (stamp_running W t i c) err)))"
    by (force simp: list_ex_iff)
  moreover have "metadata (stamp_running W t i c) = metadata c" by (simp add: stamp_running_def)
  ultimately show ?thesis
    using assms by (simp add: derive_terminal_status_def Let_def failure_context_flags)
qed

text \<open>
  C16. An abort that interrupts the model call of a review does not end the run as cancelled: the call
  hands the context back unchanged, as it should, but the node then misses the reply and fails, so the
  walk stops before it reaches the boundary where the abort would be seen, and the run reads as failed.
\<close>

theorem aborted_review_reads_failed:
  assumes "ws_current s = Some ''ConsolidatedReviewNode''" and "\<not> flag_raised (ro_cancelled opts) (ws_tick s)"
    and "ledger_check (ws_ledger s) (ro_budget opts) = budget_decision.Allow"
    and "\<not> flag_raised (ro_paused opts) (ws_tick s)"
    and "registry_get (w_registry w) ''ConsolidatedReviewNode'' =
      Some (plain_node ''ConsolidatedReviewNode'' (\<lambda>t. review_process (E t)))"
    and "tx_has_token (E (ws_tick s))" and "ce_cancels_attempt (tx_call (E (ws_tick s))) 1"
    and "flag_raised (ro_cancelled opts) (Suc (ws_tick s))"
    and "node_content (ws_ctx s) ''ConsolidatedReviewNode'' = None"
    and "\<not> flag_at (metadata (ws_ctx s)) ''cancellation'' ''cancelled''"
    and "\<not> flag_at (metadata (ws_ctx s)) ''budget'' ''halted''"
  shows "\<exists>c snaps. walk W w opts s = Some (Inr c, snaps) \<and> derive_terminal_status c = ''failed''"
proof -
  let ?i = "''ConsolidatedReviewNode''"
  let ?pre = "stamp_running W (ws_tick s) ?i (ws_ctx s)"
  have "node_content ?pre ?i = None"
    using assms(9) by (simp add: node_content_def get_result_def stamp_running_def)
  from aborted_review_errs [OF assms(6,7) this] obtain e where e: "review_process (E (ws_tick s)) ?pre = Inl e" ..
  let ?c = "failure_context W (ws_tick s) ?i ?pre e"
  have walk: "walk W w opts s = Some (Inr (stamp_run_telemetry (clock W (Suc (ws_tick s)) 9)
      (start_node (w_schema w)) ?c), ws_snaps s @ [?pre, ?c])"
    using failed_dispatch [OF assms(1-5)] e by (simp add: plain_node_def Let_def)
  have "derive_terminal_status ?c = ''failed''" by (rule failed_dispatch_status) (rule assms(10,11))+
  with walk show ?thesis by (metis derive_terminal_status_telemetry)
qed

text \<open>A small setting: a model whose calls fail, no git, a context that holds one state and the default policy.\<close>

definition sample_env :: "bool \<Rightarrow> task_env" where
  "sample_env cancels =
     \<lparr>tx_call = \<lparr>ce_started = (\<lambda>n. ''t''), ce_cancels_attempt = (\<lambda>n. cancels), ce_cancels_wait = (\<lambda>n. cancels)\<rparr>,
      tx_execute = (\<lambda>c p n. Inl (CliError ''no model'')), tx_slot = \<lparr>sl_plain = None, sl_meta = None\<rparr>,
      tx_has_token = True,
      tx_config = \<lparr>cf_model = None, cf_system_prompt = None, cf_timeout_secs = None, cf_max_turns = None,
        cf_isolated = True, cf_cwd = None, cf_json_schema = None, cf_env = []\<rparr>,
      tx_runner = (\<lambda>p args cwd. Inl ''no git''),
      tx_json = \<lparr>jx_parse = (\<lambda>s. Inl ''not JSON''), jx_decode_error = (\<lambda>v. ''wrong shape''), jx_print = (\<lambda>v. [])\<rparr>,
      tx_upper = (\<lambda>s. s), tx_lower = (\<lambda>s. s)\<rparr>"

definition sample_save_env :: save_env where
  "sample_save_env = \<lparr>se_existing = None, se_mkdir_error = None, se_write_error = None, se_now = ''t'',
     se_build = example_build, se_filename = ''state.json''\<rparr>"

definition sample_sdlc :: "bool \<Rightarrow> workflow" where
  "sample_sdlc cancels = chain_workflow\<lparr>w_schema := sdlc_schema,
     w_registry := map (\<lambda>n. (node_name n, n))
       (task_loop_nodes (\<lambda>i t. sample_env cancels) (\<lambda>t. sample_save_env)
         (test_node (\<lambda>t. sample_check_env NoFile)))\<rparr>"

definition sample_task_context :: task_context where
  "sample_task_context = \<lparr>event = JNull,
     nodes = [(''LoadTaskStateNode'', sdlc_state_to_json example_state),
       (resolved_policy_identity, sdlc_policy_to_json sdlc_policy_default)],
     metadata = JObj [], node_runs = []\<rparr>"

definition sample_task_walk :: "string \<Rightarrow> walk_state" where
  "sample_task_walk i = \<lparr>ws_ctx = sample_task_context, ws_current = Some i, ws_ledger = budget_ledger_new,
     ws_tick = 0, ws_snaps = []\<rparr>"

theorem aborted_review_reads_failed_witness:
  "\<exists>c snaps. walk sample_world (sample_sdlc True) (run_options_default\<lparr>ro_cancelled := Some (\<lambda>t. 1 \<le> t)\<rparr>)
     (sample_task_walk ''ConsolidatedReviewNode'') = Some (Inr c, snaps) \<and> derive_terminal_status c = ''failed''"
  by (rule aborted_review_reads_failed [where E = "\<lambda>t. sample_env True"])
    (simp_all add: sample_task_walk_def flag_raised_def run_options_default_def ledger_check_def sample_sdlc_def
      registry_get_def task_loop_nodes_def plain_node_def router_node_def sample_env_def node_content_def
      get_result_def sample_task_context_def resolved_policy_identity_def flag_at_def)

subsection \<open>Walks that return\<close>

text \<open>Every walk that stands at \<open>j\<close> with the results and the event of \<open>c\<close> returns.\<close>

definition returns_from :: "world \<Rightarrow> workflow \<Rightarrow> run_options \<Rightarrow> string option \<Rightarrow> task_context \<Rightarrow> bool" where
  "returns_from W w opts j c \<longleftrightarrow> (\<forall>s. ws_current s = j \<longrightarrow> keeps_except {} c (ws_ctx s) \<longrightarrow>
     (\<exists>r. walk W w opts s = Some r))"

lemma returns_None: "returns_from W w opts None c"
  unfolding returns_from_def by (blast intro: walk_end)

definition successor_of :: "workflow \<Rightarrow> node \<Rightarrow> string \<Rightarrow> task_context \<Rightarrow> string option" where
  "successor_of w nd i c = (case as_router nd of Some r \<Rightarrow> r c | None \<Rightarrow> next_after (w_schema w) i)"

text \<open>
  A dispatch: the walk returns when it returns from the successor after every success of the node; a
  gate, a failure, a missing node and a suspension end it at once.
\<close>

lemma keeps_success_context:
  "keeps_except {} ok (success_context W t i pre ok)"
  by (simp add: keeps_except_def success_context_def Let_def get_result_def)

lemma returns_dispatch:
  assumes "\<And>nd t pre ok c'. registry_get (w_registry w) i = Some nd \<Longrightarrow> keeps_except {} c pre \<Longrightarrow>
      process nd t pre = Inr ok \<Longrightarrow> keeps_except {} ok c' \<Longrightarrow>
      returns_from W w opts (successor_of w nd i c') c'"
  shows "returns_from W w opts (Some i) c"
  unfolding returns_from_def
proof (intro allI impI)
  fix s :: walk_state assume cur: "ws_current s = Some i" and same: "keeps_except {} c (ws_ctx s)"
  show "\<exists>r. walk W w opts s = Some r"
  proof (cases "walk_step W w opts s i")
    case (Return r)
    with cur show ?thesis by (simp add: walk_return)
  next
    case (Continue s')
    then obtain nd where nd: "registry_get (w_registry w) i = Some nd"
        "case node_context W (ws_tick s) nd (ws_ctx s) of (c, failed, snaps) \<Rightarrow>
           if failed then s' = s\<lparr>ws_snaps := ws_snaps s @ snaps, ws_ctx := c, ws_current := None,
             ws_tick := Suc (ws_tick s)\<rparr>
           else after_dispatch W w (s\<lparr>ws_snaps := ws_snaps s @ snaps\<rparr>) i nd c = Continue s'"
      by (rule walk_step_Continue)
    let ?pre = "stamp_running W (ws_tick s) (node_name nd) (ws_ctx s)"
    have pre: "keeps_except {} c ?pre"
      using same by (simp add: keeps_except_def stamp_running_def get_result_def)
    have "\<exists>r. walk W w opts s' = Some r"
    proof (cases "process nd (ws_tick s) ?pre")
      case (Inl e)
      with nd(2) have "ws_current s' = None" by (simp add: node_context_def Let_def)
      then show ?thesis by (rule walk_end)
    next
      case (Inr ok)
      let ?c = "success_context W (ws_tick s) (node_name nd) ?pre ok"
      from Inr nd(2) have "after_dispatch W w (s\<lparr>ws_snaps := ws_snaps s @ [?pre, ?c]\<rparr>) i nd ?c = Continue s'"
        by (simp add: node_context_def Let_def)
      then have s': "ws_current s' = successor_of w nd i ?c" "ws_ctx s' = ?c"
        by (auto simp: after_dispatch_def Let_def dispatch_route_def successor_of_def
            split: if_splits option.splits)
      from assms [OF nd(1) pre Inr keeps_success_context] s' show ?thesis
        unfolding returns_from_def by simp
    qed
    with cur Continue show ?thesis by (simp add: walk_continue)
  qed
qed

subsection \<open>The way out of the loop\<close>

text \<open>\<open>EndReviewRouterNode\<close> (\<open>end_review.rs\<close>).\<close>

definition end_review_route :: "task_context \<Rightarrow> string option" where
  "end_review_route c =
     (case get_result c ''EndReviewNode'' of
        None \<Rightarrow> Some ''PatchDocsNode''
      | Some review \<Rightarrow>
          (if Option.bind (json_get review ''verdict'') as_str = Some ''PASS''
           then Some ''PatchDocsNode'' else Some ''WrapUpNode''))"

text \<open>
  The nodes after the loop may do anything; all but \<open>EndReviewRouterNode\<close> are plain nodes, as in the
  code's registry.
\<close>

definition drain_nodes :: "string set" where
  "drain_nodes = {''FinalValidationNode'', ''EndReviewNode'', ''PatchDocsNode'', ''WrapUpNode'', ''CloseBlockNode'',
     ''PullRequestNode'', ''EmitStateNode''}"

definition drain_registered :: "node_registry \<Rightarrow> bool" where
  "drain_registered R \<longleftrightarrow>
     (\<forall>i \<in> drain_nodes. \<forall>nd. registry_get R i = Some nd \<longrightarrow> as_router nd = None) \<and>
     (\<forall>nd. registry_get R ''EndReviewRouterNode'' = Some nd \<longrightarrow> as_router nd = Some end_review_route)"

lemma sdlc_next_cases:
  "next_after sdlc_schema i =
    (if i = ''SetupWorktreeNode'' then Some ''SpecExistsRouterNode'' else
     if i = ''SpecExistsRouterNode'' then Some ''GenerateTasksNode'' else
     if i = ''GenerateTasksNode'' then Some ''LoadTaskStateNode'' else
     if i = ''LoadTaskStateNode'' then Some ''TaskQueueRouterNode'' else
     if i = ''TaskQueueRouterNode'' then Some ''ImplementTaskNode'' else
     if i = ''ImplementTaskNode'' then Some ''TestTaskNode'' else
     if i = ''TestTaskNode'' then Some ''TriageTaskNode'' else
     if i = ''TriageTaskNode'' then Some ''TriageRouterNode'' else
     if i = ''TriageRouterNode'' then Some ''ConsolidatedReviewNode'' else
     if i = ''ConsolidatedReviewNode'' then Some ''ReviewRouterNode'' else
     if i = ''ReviewRouterNode'' then Some ''UpdateTaskStatusNode'' else
     if i = ''UpdateTaskStatusNode'' then Some ''SaveStateNode'' else
     if i = ''SaveStateNode'' then Some ''TaskQueueRouterNode'' else
     if i = ''IncrementAttemptNode'' then Some ''ImplementTaskNode'' else
     if i = ''FinalValidationNode'' then Some ''EndReviewNode'' else
     if i = ''EndReviewNode'' then Some ''EndReviewRouterNode'' else
     if i = ''EndReviewRouterNode'' then Some ''PatchDocsNode'' else
     if i = ''PatchDocsNode'' then Some ''WrapUpNode'' else
     if i = ''WrapUpNode'' then Some ''CloseBlockNode'' else
     if i = ''CloseBlockNode'' then Some ''PullRequestNode'' else
     if i = ''PullRequestNode'' then Some ''EmitStateNode'' else None)"
  by (simp add: next_after_def sdlc_schema_def workflow_schema_new_def node_config_new_def node_config_next_def)

lemma sdlc_next:
  "next_after sdlc_schema ''FinalValidationNode'' = Some ''EndReviewNode''"
  "next_after sdlc_schema ''EndReviewNode'' = Some ''EndReviewRouterNode''"
  "next_after sdlc_schema ''PatchDocsNode'' = Some ''WrapUpNode''"
  "next_after sdlc_schema ''WrapUpNode'' = Some ''CloseBlockNode''"
  "next_after sdlc_schema ''CloseBlockNode'' = Some ''PullRequestNode''"
  "next_after sdlc_schema ''PullRequestNode'' = Some ''EmitStateNode''"
  "next_after sdlc_schema ''EmitStateNode'' = None"
  "next_after sdlc_schema ''ImplementTaskNode'' = Some ''TestTaskNode''"
  "next_after sdlc_schema ''TestTaskNode'' = Some ''TriageTaskNode''"
  "next_after sdlc_schema ''TriageTaskNode'' = Some ''TriageRouterNode''"
  "next_after sdlc_schema ''ConsolidatedReviewNode'' = Some ''ReviewRouterNode''"
  "next_after sdlc_schema ''UpdateTaskStatusNode'' = Some ''SaveStateNode''"
  "next_after sdlc_schema ''SaveStateNode'' = Some ''TaskQueueRouterNode''"
  "next_after sdlc_schema ''IncrementAttemptNode'' = Some ''ImplementTaskNode''"
  by (simp_all add: drain_nodes_def sdlc_next_cases)

lemma drain_plain:
  assumes "drain_registered (w_registry w)" and "w_schema w = sdlc_schema"
    and "i \<in> drain_nodes"
    and "\<And>c. returns_from W w opts (next_after sdlc_schema i) c"
  shows "returns_from W w opts (Some i) c"
proof (rule returns_dispatch)
  fix nd c' assume "registry_get (w_registry w) i = Some nd"
  with assms(1,3) have "as_router nd = None" unfolding drain_registered_def by blast
  with assms(2,4) show "returns_from W w opts (successor_of w nd i c') c'" by (simp add: successor_of_def)
qed

lemma wrap_up_returns:
  assumes "drain_registered (w_registry w)" and "w_schema w = sdlc_schema"
  shows "returns_from W w opts (Some ''WrapUpNode'') c"
proof -
  note plain = drain_plain [OF assms, where W = W and opts = opts]
  have "returns_from W w opts (Some ''EmitStateNode'') c" for c
    by (rule plain) (simp_all add: drain_nodes_def sdlc_next returns_None)
  then have "returns_from W w opts (Some ''PullRequestNode'') c" for c
    by (intro plain) (simp_all add: drain_nodes_def sdlc_next)
  then have "returns_from W w opts (Some ''CloseBlockNode'') c" for c
    by (intro plain) (simp_all add: drain_nodes_def sdlc_next)
  then show ?thesis by (intro plain) (simp_all add: drain_nodes_def sdlc_next)
qed

lemma final_validation_returns:
  assumes "drain_registered (w_registry w)" and "w_schema w = sdlc_schema"
  shows "returns_from W w opts (Some ''FinalValidationNode'') c"
proof -
  note plain = drain_plain [OF assms, where W = W and opts = opts]
  have patch: "returns_from W w opts (Some ''PatchDocsNode'') c" for c
    by (rule plain) (simp_all add: drain_nodes_def sdlc_next wrap_up_returns [OF assms])
  have "returns_from W w opts (Some ''EndReviewRouterNode'') c" for c
  proof (rule returns_dispatch)
    fix nd c' assume "registry_get (w_registry w) ''EndReviewRouterNode'' = Some nd"
    then have "as_router nd = Some end_review_route" using assms(1) by (simp add: drain_registered_def)
    then show "returns_from W w opts (successor_of w nd ''EndReviewRouterNode'' c') c'"
      by (simp add: successor_of_def end_review_route_def patch wrap_up_returns [OF assms] split: option.split)
  qed
  then have "returns_from W w opts (Some ''EndReviewNode'') c" for c
    by (intro plain) (simp_all add: drain_nodes_def sdlc_next)
  then show ?thesis by (intro plain) (simp_all add: drain_nodes_def sdlc_next)
qed

end
