(* ===== verification/TaskEnd.thy ===== *)
theory TaskEnd
  imports TaskLaws
begin

text \<open>
  The SDLC task loop ends: what is left to do (\<open>potential\<close>) falls on every way round the loop, so the walk
  over the real graph and the real nodes returns from the queue.
\<close>

subsection \<open>The setting\<close>

definition loop_registered ::
  "node_registry \<Rightarrow> (string \<Rightarrow> nat \<Rightarrow> task_env) \<Rightarrow> (nat \<Rightarrow> save_env) \<Rightarrow>
   (nat \<Rightarrow> task_context \<Rightarrow> node_error + task_context) \<Rightarrow> bool" where
  "loop_registered R E D test \<longleftrightarrow> (\<forall>n \<in> set (task_loop_nodes E D test). registry_get R (node_name n) = Some n)"

lemma loop_registered_nodes:
  assumes "loop_registered R E D test"
  shows "registry_get R ''TaskQueueRouterNode'' =
      Some (router_node ''TaskQueueRouterNode'' task_queue_process task_queue_route)"
    and "registry_get R ''ImplementTaskNode'' =
      Some (plain_node ''ImplementTaskNode'' (\<lambda>t. implement_process (E ''ImplementTaskNode'' t)))"
    and "registry_get R ''TestTaskNode'' = Some (plain_node ''TestTaskNode'' test)"
    and "registry_get R ''TriageTaskNode'' =
      Some (plain_node ''TriageTaskNode'' (\<lambda>t. triage_process (E ''TriageTaskNode'' t)))"
    and "registry_get R ''TriageRouterNode'' = Some (router_node ''TriageRouterNode'' Inr triage_route)"
    and "registry_get R ''ConsolidatedReviewNode'' =
      Some (plain_node ''ConsolidatedReviewNode'' (\<lambda>t. review_process (E ''ConsolidatedReviewNode'' t)))"
    and "registry_get R ''ReviewRouterNode'' = Some (router_node ''ReviewRouterNode'' Inr review_route)"
    and "registry_get R ''UpdateTaskStatusNode'' =
      Some (plain_node ''UpdateTaskStatusNode'' (\<lambda>_. update_task_status_process))"
    and "registry_get R ''SaveStateNode'' = Some (plain_node ''SaveStateNode''
      (\<lambda>t ctx. fst (save_state (E ''SaveStateNode'' t) (D t) ctx)))"
    and "registry_get R ''IncrementAttemptNode'' =
      Some (plain_node ''IncrementAttemptNode'' (\<lambda>_. increment_attempt_process))"
  using assms by (simp_all add: loop_registered_def task_loop_nodes_def plain_node_def router_node_def)

text \<open>The SDLC workflow: its graph, the loop's nodes, and the nodes after it.\<close>

definition sdlc_workflow ::
  "workflow \<Rightarrow> (string \<Rightarrow> nat \<Rightarrow> task_env) \<Rightarrow> (nat \<Rightarrow> save_env) \<Rightarrow> (nat \<Rightarrow> check_env) \<Rightarrow> bool" where
  "sdlc_workflow w E D K \<longleftrightarrow> w_schema w = sdlc_schema \<and> loop_registered (w_registry w) E D (test_node K) \<and>
     drain_registered (w_registry w)"

text \<open>The most reviews the policy in force allows a task; a policy that does not read stops every node.\<close>

definition policy_cap :: "task_context \<Rightarrow> u32" where
  "policy_cap c = (case resolved_policy c of Inr p \<Rightarrow> sy_max_review_attempts p | Inl _ \<Rightarrow> 0)"

subsection \<open>A context in the middle of a task\<close>

definition on_task :: "u32 \<Rightarrow> task_context \<Rightarrow> sdlc_state \<Rightarrow> u32 \<Rightarrow> sdlc_task \<Rightarrow> bool" where
  "on_task cap c s i t \<longleftrightarrow> latest_state c = Inr s \<and> good_state s \<and> current_task_id c = Inr i \<and>
     find_task s i = Some t \<and> tk_status t = TaskPending \<and> policy_cap c = cap"

definition quiet_nodes :: "string set \<Rightarrow> bool" where
  "quiet_nodes I \<longleftrightarrow> I \<inter> set state_identities = {} \<and> resolved_policy_identity \<notin> I"

lemma quiet_simps [simp]:
  "quiet_nodes {}" "quiet_nodes {''TestTaskNode''}" "quiet_nodes {''TriageTaskNode''}"
  "quiet_nodes {''SaveStateNode''}" "quiet_nodes {''TaskQueueRouterNode''}"
  by (simp_all add: quiet_nodes_def resolved_policy_identity_def)

lemma policy_cap_keeps:
  "keeps_except I c c' \<Longrightarrow> resolved_policy_identity \<notin> I \<Longrightarrow> policy_cap c' = policy_cap c"
  by (simp add: policy_cap_def resolved_policy_keeps)

lemma on_task_keeps:
  assumes "on_task cap c s i t" and "keeps_except I c c'" and "quiet_nodes I" and "''TaskQueueRouterNode'' \<notin> I"
  shows "on_task cap c' s i t"
  using assms latest_state_keeps [OF assms(2)] current_task_id_keeps [OF assms(2)] policy_cap_keeps [OF assms(2)]
  by (simp add: on_task_def quiet_nodes_def)

lemma keeps_around:
  "keeps_except {} a b \<Longrightarrow> keeps_except I b c \<Longrightarrow> keeps_except {} c d \<Longrightarrow> keeps_except I a d"
  by (simp add: keeps_except_def)

lemmas on_task_same = on_task_keeps [where I = "{}", simplified]

lemma routes_same:
  assumes "keeps_except {} c c'"
  shows "triage_route c' = triage_route c" and "review_route c' = review_route c"
    and "task_queue_route c' = task_queue_route c"
proof -
  have g: "get_result c' j = get_result c j" for j using assms by (simp add: keeps_except_def)
  have e: "event c' = event c" using assms by (simp add: keeps_except_def)
  have p: "resolved_policy c' = resolved_policy c" using assms by (rule resolved_policy_keeps) simp
  have l: "latest_state c' = latest_state c" using assms by (rule latest_state_keeps) simp
  have i: "current_task_id c' = current_task_id c" using assms by (rule current_task_id_keeps) simp
  show "triage_route c' = triage_route c" unfolding triage_route_def g p by (rule refl)
  show "review_route c' = review_route c"
    unfolding review_route_def bounded_review_retry_route_def bounded_review_attempts_def g p l i by (rule refl)
  show "task_queue_route c' = task_queue_route c" unfolding task_queue_route_def allowed_task_ids_def l e by (rule refl)
qed

lemma triage_route_cases:
  "triage_route c \<in> {None, Some ''ConsolidatedReviewNode'', Some ''UpdateTaskStatusNode'',
     Some ''IncrementAttemptNode'', Some ''WrapUpNode''}"
  by (auto simp: triage_route_def bind_eq_None_conv split: sum.splits review_mode.splits Option.bind_splits)

lemma review_route_cases:
  "review_route c \<in> {None, Some ''UpdateTaskStatusNode'', Some ''IncrementAttemptNode'', Some ''WrapUpNode''}"
  by (auto simp: review_route_def bounded_review_retry_route_def Let_def split: sum.splits Option.bind_splits)

subsection \<open>Once round the loop\<close>

text \<open>
  Two claims, by the size \<open>q\<close> of what is left: the walk returns from a pending task's attempt, and from the
  queue. Each unit of what is left pays for four steps of the counters.
\<close>

definition attempts_return :: "world \<Rightarrow> workflow \<Rightarrow> run_options \<Rightarrow> u32 \<Rightarrow> nat \<Rightarrow> bool" where
  "attempts_return W w opts cap q \<longleftrightarrow> (\<forall>c s i t. on_task cap c s i t \<longrightarrow> potential cap s \<le> q \<longrightarrow>
     counters s + 4 * potential cap s < 2 ^ 32 \<longrightarrow> returns_from W w opts (Some ''ImplementTaskNode'') c)"

definition queue_returns :: "world \<Rightarrow> workflow \<Rightarrow> run_options \<Rightarrow> u32 \<Rightarrow> nat \<Rightarrow> bool" where
  "queue_returns W w opts cap q \<longleftrightarrow> (\<forall>c s. latest_state c = Inr s \<longrightarrow> good_state s \<longrightarrow> policy_cap c = cap \<longrightarrow>
     potential cap s \<le> q \<longrightarrow> counters s + 4 * potential cap s < 2 ^ 32 \<longrightarrow>
     returns_from W w opts (Some ''TaskQueueRouterNode'') c)"

lemma plain_dispatch:
  assumes "sdlc_workflow w E D K" and "registry_get (w_registry w) i = Some (plain_node i f)"
    and "\<And>t pre ok c'. keeps_except {} c pre \<Longrightarrow> f t pre = Inr ok \<Longrightarrow> keeps_except {} ok c' \<Longrightarrow>
      returns_from W w opts (next_after sdlc_schema i) c'"
  shows "returns_from W w opts (Some i) c"
proof (rule returns_dispatch)
  fix nd t pre ok c'
  assume "registry_get (w_registry w) i = Some nd" "keeps_except {} c pre" "process nd t pre = Inr ok"
    "keeps_except {} ok c'"
  with assms(1,2) assms(3) [of pre t ok c'] show "returns_from W w opts (successor_of w nd i c') c'"
    by (auto simp: successor_of_def sdlc_workflow_def plain_node_def)
qed

lemma router_dispatch:
  assumes "registry_get (w_registry w) i = Some (router_node i f r)"
    and "\<And>pre ok c'. keeps_except {} c pre \<Longrightarrow> f pre = Inr ok \<Longrightarrow> keeps_except {} ok c' \<Longrightarrow>
      returns_from W w opts (r c') c'"
  shows "returns_from W w opts (Some i) c"
proof (rule returns_dispatch)
  fix nd t pre ok c'
  assume "registry_get (w_registry w) i = Some nd" "keeps_except {} c pre" "process nd t pre = Inr ok"
    "keeps_except {} ok c'"
  with assms show "returns_from W w opts (successor_of w nd i c') c'"
    by (auto simp: successor_of_def router_node_def)
qed

lemmas sdlc_nodes = loop_registered_nodes [OF sdlc_workflow_def [THEN iffD1, THEN conjunct2, THEN conjunct1]]

lemma exits_return:
  assumes "sdlc_workflow w E D K"
  shows "returns_from W w opts (Some ''WrapUpNode'') c" and "returns_from W w opts (Some ''FinalValidationNode'') c"
  using assms by (auto simp: sdlc_workflow_def intro: wrap_up_returns final_validation_returns)

lemma queue_step:
  assumes wf: "sdlc_workflow w E D K" and "attempts_return W w opts cap q"
  shows "queue_returns W w opts cap q"
  unfolding queue_returns_def
proof (intro allI impI)
  fix c s assume c: "latest_state c = Inr s" "good_state s" "policy_cap c = cap" "potential cap s \<le> q"
    "counters s + 4 * potential cap s < 2 ^ 32"
  show "returns_from W w opts (Some ''TaskQueueRouterNode'') c"
  proof (rule router_dispatch [OF sdlc_nodes(1) [OF wf]])
    fix pre ok c' assume pre: "keeps_except {} c pre" and ok: "task_queue_process pre = Inr ok"
      and same: "keeps_except {} ok c'"
    have "latest_state pre = Inr s" using latest_state_keeps [OF pre] c(1) by simp
    note eff = queue_effect [OF ok this c(2)]
    from eff have keeps: "keeps_except {''TaskQueueRouterNode''} pre ok" by blast
    show "returns_from W w opts (task_queue_route c') c'"
    proof (cases "next_pending s (allowed_task_ids pre)")
      case None
      with eff routes_same(3) [OF same] exits_return(2) [OF wf] show ?thesis by simp
    next
      case (Some t)
      have "latest_state ok = Inr s" "policy_cap ok = cap"
        using latest_state_keeps [OF keeps] policy_cap_keeps [OF keeps] latest_state_keeps [OF pre]
          policy_cap_keeps [OF pre] c by (simp_all add: resolved_policy_identity_def)
      with eff Some c(2) have "on_task cap ok s (tk_task_id t) t" by (simp add: on_task_def)
      then have "on_task cap c' s (tk_task_id t) t" using same by (rule on_task_same)
      with assms(2) c(4,5) have "returns_from W w opts (Some ''ImplementTaskNode'') c'"
        unfolding attempts_return_def by blast
      with eff Some routes_same(3) [OF same] show ?thesis by simp
    qed
  qed
qed

lemma update_returns:
  assumes wf: "sdlc_workflow w E D K" and "queue_returns W w opts cap q" and "on_task cap c s i t"
    and "potential cap s \<le> P" and "P \<le> Suc q" and "counters s + 4 * P < 2 ^ 32 + 3"
  shows "returns_from W w opts (Some ''UpdateTaskStatusNode'') c"
proof (rule plain_dispatch [OF wf sdlc_nodes(8) [OF wf]], simp add: sdlc_next)
  fix pre ok c' assume pre: "keeps_except {} c pre" and ok: "update_task_status_process pre = Inr ok"
    and same: "keeps_except {} ok c'"
  have at: "on_task cap pre s i t" using assms(3) pre by (rule on_task_same)
  have pos: "1 \<le> potential cap s"
    using potential_pos [of t s cap] find_task_in [of s i t] at by (auto simp: on_task_def task_potential_def)
  have eff: "keeps_except {''UpdateTaskStatusNode''} pre ok \<and> latest_state ok = Inr (pass_task i s)"
    using at pos assms(4,6) ok by (intro update_effect) (auto simp: on_task_def)
  have pass: "good_state (pass_task i s) \<and> counters (pass_task i s) = Suc (counters s) \<and>
      potential cap (pass_task i s) < potential cap s"
    using pass_task_effect [of s i t cap] at pos assms(4,6) by (auto simp: on_task_def)
  have cap: "policy_cap c' = cap"
    using eff at policy_cap_keeps [OF same] policy_cap_keeps [of _ pre ok]
    by (auto simp: on_task_def resolved_policy_identity_def)
  have "latest_state c' = Inr (pass_task i s)" using eff latest_state_keeps [OF same] by simp
  note after = this cap pass
  show "returns_from W w opts (Some ''SaveStateNode'') c'"
  proof (rule plain_dispatch [OF wf sdlc_nodes(9) [OF wf]], simp add: sdlc_next)
    fix t2 pre2 ok2 c2 assume "keeps_except {} c' pre2"
      and "fst (save_state (E ''SaveStateNode'' t2) (D t2) pre2) = Inr ok2" and "keeps_except {} ok2 c2"
    then have "keeps_except {''SaveStateNode''} c' c2"
      by (blast intro: keeps_around save_effect)
    then have "latest_state c2 = Inr (pass_task i s)" "policy_cap c2 = cap"
      using after latest_state_keeps [of _ c' c2] policy_cap_keeps [of _ c' c2]
      by (auto simp: resolved_policy_identity_def)
    with pass assms(2,4,5,6) show "returns_from W w opts (Some ''TaskQueueRouterNode'') c2"
      unfolding queue_returns_def by simp
  qed
qed

lemma increment_returns:
  assumes wf: "sdlc_workflow w E D K" and "attempts_return W w opts cap q" and "on_task cap c s i t"
    and "potential cap s < P \<or> potential cap s \<le> P \<and> tk_attempt_count t < tk_max_attempts t"
    and "P \<le> Suc q" and "counters s + 4 * P < 2 ^ 32 + 3"
  shows "returns_from W w opts (Some ''IncrementAttemptNode'') c"
proof (rule plain_dispatch [OF wf sdlc_nodes(10) [OF wf]], simp add: sdlc_next)
  fix pre ok c' assume pre: "keeps_except {} c pre" and ok: "increment_attempt_process pre = Inr ok"
    and same: "keeps_except {} ok c'"
  have at: "on_task cap pre s i t" using assms(3) pre by (rule on_task_same)
  have pos: "1 \<le> potential cap s"
    using potential_pos [of t s cap] find_task_in [of s i t] at by (auto simp: on_task_def task_potential_def)
  with assms(4,6) have room: "counters s + 1 < 2 ^ 32" by auto
  have "keeps_except {''IncrementAttemptNode'', ''TaskQueueRouterNode''} pre ok \<and> current_task_id ok = Inr i \<and>
      (\<exists>s'. bump_task_attempt s i = Inr s' \<and> latest_state ok = Inr s')"
    by (rule increment_effect [OF ok]) (use at room in \<open>auto simp: on_task_def\<close>)
  then obtain s' where s': "bump_task_attempt s i = Inr s'" "latest_state ok = Inr s'"
      and keeps: "keeps_except {''IncrementAttemptNode'', ''TaskQueueRouterNode''} pre ok"
      and i: "current_task_id ok = Inr i" by blast
  note bump = bump_task_attempt_effect [OF _ s'(1), of t cap]
  have eff: "good_state s'" "counters s' = Suc (counters s)"
      "find_task s' i = Some (t\<lparr>tk_attempt_count := tk_attempt_count t + 1\<rparr>)" "potential cap s' < P"
    using bump at room assms(4) by (auto simp: on_task_def)
  have "policy_cap ok = cap"
    using at policy_cap_keeps [OF keeps] by (simp add: on_task_def resolved_policy_identity_def)
  then have "on_task cap ok s' i (t\<lparr>tk_attempt_count := tk_attempt_count t + 1\<rparr>)"
    using at s'(2) i eff by (simp add: on_task_def)
  then have "on_task cap c' s' i (t\<lparr>tk_attempt_count := tk_attempt_count t + 1\<rparr>)" using same by (rule on_task_same)
  moreover have "potential cap s' \<le> q" "counters s' + 4 * potential cap s' < 2 ^ 32"
    using eff assms(5,6) by auto
  ultimately show "returns_from W w opts (Some ''ImplementTaskNode'') c'"
    using assms(2) unfolding attempts_return_def by blast
qed

lemma review_needs_policy:
  assumes "review_process E c = Inr ok" and "latest_state c = Inr s"
  shows "\<exists>p. resolved_policy c = Inr p"
  using assms by (auto simp: review_process_def bind_result_eq_Inr Let_def case_prod_beta map_err_Inr)

lemma review_returns:
  assumes wf: "sdlc_workflow w E D K" and "queue_returns W w opts cap q" and "attempts_return W w opts cap q"
    and "on_task cap c s i t" and "potential cap s \<le> P" and "P \<le> Suc q" and "counters s + 4 * P < 2 ^ 32 + 1"
  shows "returns_from W w opts (Some ''ConsolidatedReviewNode'') c"
proof (rule plain_dispatch [OF wf sdlc_nodes(6) [OF wf]], simp add: sdlc_next)
  fix T pre ok c'
  assume pre: "keeps_except {} c pre" and ok: "review_process (E ''ConsolidatedReviewNode'' T) pre = Inr ok"
    and same: "keeps_except {} ok c'"
  have at: "on_task cap pre s i t" using assms(4) pre by (rule on_task_same)
  have pos: "1 \<le> potential cap s"
    using potential_pos [of t s cap] find_task_in [of s i t] at by (auto simp: on_task_def task_potential_def)
  obtain p where p: "resolved_policy pre = Inr p"
    using review_needs_policy [OF ok, of s] at by (auto simp: on_task_def)
  then have cap: "cap = sy_max_review_attempts p" using at by (simp add: on_task_def policy_cap_def)
  have "keeps_except {''ConsolidatedReviewNode''} pre ok \<and> (\<exists>s' t'. latest_state ok = Inr s' \<and> good_state s' \<and>
      counters s' \<le> counters s + 2 \<and> find_task s' i = Some t' \<and> tk_status t' = TaskPending \<and>
      potential cap s' \<le> potential cap s \<and>
      (review_route ok = Some ''IncrementAttemptNode'' \<longrightarrow> potential cap s' < potential cap s))"
    unfolding cap by (rule review_effect [OF ok]) (use at p pos assms(5,7) in \<open>auto simp: on_task_def\<close>)
  then obtain s' t' where keeps: "keeps_except {''ConsolidatedReviewNode''} pre ok"
      and s': "latest_state ok = Inr s'" "good_state s'" "counters s' \<le> counters s + 2"
        "find_task s' i = Some t'" "tk_status t' = TaskPending" "potential cap s' \<le> potential cap s"
        "review_route ok = Some ''IncrementAttemptNode'' \<longrightarrow> potential cap s' < potential cap s"
    by blast
  have "policy_cap ok = cap" "current_task_id ok = Inr i"
    using at policy_cap_keeps [OF keeps] current_task_id_keeps [OF keeps]
    by (simp_all add: on_task_def resolved_policy_identity_def)
  then have "on_task cap ok s' i t'" using s' by (simp add: on_task_def)
  then have at1: "on_task cap c' s' i t'" using same by (rule on_task_same)
  show "returns_from W w opts (Some ''ReviewRouterNode'') c'"
  proof (rule router_dispatch [OF sdlc_nodes(7) [OF wf]])
    fix pre2 ok2 c2 assume "keeps_except {} c' pre2" and "Inr pre2 = Inr ok2" and "keeps_except {} ok2 c2"
    then have same2: "keeps_except {} c' c2" by (auto intro: keeps_except_trans)
    have at2: "on_task cap c2 s' i t'" using at1 same2 by (rule on_task_same)
    have room: "counters s' + 4 * P < 2 ^ 32 + 3" "potential cap s' \<le> P" using s'(3,6) assms(5,7) by auto
    have route: "review_route c2 = review_route ok" using routes_same(2) [OF same2] routes_same(2) [OF same] by simp
    consider "review_route c2 = None" | "review_route c2 = Some ''UpdateTaskStatusNode''"
      | "review_route c2 = Some ''IncrementAttemptNode''" | "review_route c2 = Some ''WrapUpNode''"
      using review_route_cases [of c2] by auto
    then show "returns_from W w opts (review_route c2) c2"
    proof cases
      case 1
      then show ?thesis by (simp add: returns_None)
    next
      case 2
      with update_returns [OF wf assms(2) at2 room(2) assms(6) room(1)] show ?thesis by simp
    next
      case 3
      then have "potential cap s' < P" using route s'(7) assms(5) by simp
      with increment_returns [OF wf assms(3) at2 _ assms(6) room(1)] 3 show ?thesis by simp
    next
      case 4
      with exits_return(1) [OF wf] show ?thesis by simp
    qed
  qed
qed

lemma triage_returns:
  assumes wf: "sdlc_workflow w E D K" and "queue_returns W w opts cap q" and "attempts_return W w opts cap q"
    and "on_task cap c s i t" and "potential cap s \<le> P" and "P \<le> Suc q" and "counters s + 4 * P < 2 ^ 32 + 1"
  shows "returns_from W w opts (Some ''TriageTaskNode'') c"
proof (rule plain_dispatch [OF wf sdlc_nodes(4) [OF wf]], simp add: sdlc_next)
  fix T pre ok c'
  assume pre: "keeps_except {} c pre" and ok: "triage_process (E ''TriageTaskNode'' T) pre = Inr ok"
    and same: "keeps_except {} ok c'"
  have at: "on_task cap pre s i t" using assms(4) pre by (rule on_task_same)
  then have "current_task_state pre ''TriageTaskNode'' = Inr t"
    by (simp add: on_task_def current_task_state_def ok_or_def bind_result_def)
  from triage_effect [OF ok this] have keeps: "keeps_except {''TriageTaskNode''} pre ok"
      and retry: "triage_route ok = Some ''IncrementAttemptNode'' \<longrightarrow> tk_attempt_count t < tk_max_attempts t"
    by blast+
  have "on_task cap ok s i t" using at keeps by (rule on_task_keeps) simp_all
  then have at1: "on_task cap c' s i t" using same by (rule on_task_same)
  show "returns_from W w opts (Some ''TriageRouterNode'') c'"
  proof (rule router_dispatch [OF sdlc_nodes(5) [OF wf]])
    fix pre2 ok2 c2 assume "keeps_except {} c' pre2" and "Inr pre2 = Inr ok2" and "keeps_except {} ok2 c2"
    then have same2: "keeps_except {} c' c2" by (auto intro: keeps_except_trans)
    have at2: "on_task cap c2 s i t" using at1 same2 by (rule on_task_same)
    have room: "counters s + 4 * P < 2 ^ 32 + 3" using assms(7) by simp
    have route: "triage_route c2 = triage_route ok" using routes_same(1) [OF same2] routes_same(1) [OF same] by simp
    consider "triage_route c2 = None" | "triage_route c2 = Some ''ConsolidatedReviewNode''"
      | "triage_route c2 = Some ''UpdateTaskStatusNode''"
      | "triage_route c2 = Some ''IncrementAttemptNode''" | "triage_route c2 = Some ''WrapUpNode''"
      using triage_route_cases [of c2] by auto
    then show "returns_from W w opts (triage_route c2) c2"
    proof cases
      case 1
      then show ?thesis by (simp add: returns_None)
    next
      case 2
      with review_returns [OF wf assms(2,3) at2 assms(5-7)] show ?thesis by simp
    next
      case 3
      with update_returns [OF wf assms(2) at2 assms(5,6) room] show ?thesis by simp
    next
      case 4
      with increment_returns [OF wf assms(3) at2 _ assms(6) room] assms(5) retry route show ?thesis by simp
    next
      case 5
      with exits_return(1) [OF wf] show ?thesis by simp
    qed
  qed
qed

lemma attempt_step:
  assumes wf: "sdlc_workflow w E D K" and "queue_returns W w opts cap q" and "attempts_return W w opts cap q"
  shows "attempts_return W w opts cap (Suc q)"
  unfolding attempts_return_def
proof (intro allI impI)
  fix c s i t assume at: "on_task cap c s i t" and bound: "potential cap s \<le> Suc q"
    and room: "counters s + 4 * potential cap s < 2 ^ 32"
  have pos: "1 \<le> potential cap s"
    using potential_pos [of t s cap] find_task_in [of s i t] at by (auto simp: on_task_def task_potential_def)
  show "returns_from W w opts (Some ''ImplementTaskNode'') c"
  proof (rule plain_dispatch [OF wf sdlc_nodes(2) [OF wf]], simp add: sdlc_next)
    fix T pre ok c'
    assume pre: "keeps_except {} c pre" and ok: "implement_process (E ''ImplementTaskNode'' T) pre = Inr ok"
      and same: "keeps_except {} ok c'"
    have at1: "on_task cap pre s i t" using at pre by (rule on_task_same)
    have eff: "keeps_except {''ImplementTaskNode''} pre ok \<and> latest_state ok = Inr (count_attempt s) \<and>
        (\<exists>p. resolved_policy pre = Inr p)"
      by (rule implement_effect [OF ok]) (use at1 room pos in \<open>auto simp: on_task_def\<close>)
    have count: "good_state (count_attempt s)" "counters (count_attempt s) = Suc (counters s)"
        "potential cap (count_attempt s) = potential cap s" "find_task (count_attempt s) i = Some t"
      using count_attempt_effect [of s cap i] at1 room pos by (auto simp: on_task_def)
    have "policy_cap ok = cap" "current_task_id ok = Inr i"
      using eff at1 policy_cap_keeps [of _ pre ok] current_task_id_keeps [of _ pre ok]
      by (auto simp: on_task_def resolved_policy_identity_def)
    then have "on_task cap ok (count_attempt s) i t" using at1 eff count by (simp add: on_task_def)
    then have at2: "on_task cap c' (count_attempt s) i t" using same by (rule on_task_same)
    show "returns_from W w opts (Some ''TestTaskNode'') c'"
    proof (rule plain_dispatch [OF wf sdlc_nodes(3) [OF wf]], simp add: sdlc_next)
      fix T2 pre2 ok2 c2
      assume "keeps_except {} c' pre2" and "test_node K T2 pre2 = Inr ok2" and "keeps_except {} ok2 c2"
      then have "keeps_except {''TestTaskNode''} c' c2"
        by (blast intro: keeps_around test_node_keeps)
      then have "on_task cap c2 (count_attempt s) i t" by (rule on_task_keeps [OF at2]) simp_all
      from triage_returns [OF wf assms(2,3) this, of "potential cap s"] count room bound
      show "returns_from W w opts (Some ''TriageTaskNode'') c2" by simp
    qed
  qed
qed

lemma attempts_always_return:
  assumes "sdlc_workflow w E D K"
  shows "attempts_return W w opts cap q"
proof (induction q)
  case 0
  show ?case
    unfolding attempts_return_def on_task_def
    by (metis find_task_in potential_pos task_potential_def add_is_0 le_zero_eq one_neq_zero)
next
  case (Suc q)
  with queue_step [OF assms Suc] show ?case by (intro attempt_step [OF assms])
qed

text \<open>
  C5. The task loop ends. From the queue, with the graph and the nodes of the code, any answers of the
  models, of git, of the commands that the checks run and of the heavy-work queue, any policy that reads, any abort, budget or pause: the walk returns.
  What bounds it are the states' own counters: a task's attempts, its reviews, and its one pass.
\<close>

theorem sdlc_loop_terminates:
  assumes "sdlc_workflow w E D K" and "ws_current st = Some ''TaskQueueRouterNode''"
    and "latest_state (ws_ctx st) = Inr s" and "good_state s"
    and "counters s + 4 * potential (policy_cap (ws_ctx st)) s < 2 ^ 32"
  shows "\<exists>r. walk W w opts st = Some r"
proof -
  let ?cap = "policy_cap (ws_ctx st)"
  have "queue_returns W w opts ?cap (potential ?cap s)"
    by (rule queue_step [OF assms(1) attempts_always_return [OF assms(1)]])
  then have "returns_from W w opts (Some ''TaskQueueRouterNode'') (ws_ctx st)"
    using assms(3-5) unfolding queue_returns_def by blast
  with assms(2) show ?thesis unfolding returns_from_def by simp
qed

lemma sample_sdlc_workflow:
  "sdlc_workflow (sample_sdlc b) (\<lambda>i t. sample_env b) (\<lambda>t. sample_save_env) (\<lambda>t. sample_check_env NoFile)"
proof -
  have "loop_registered (w_registry (sample_sdlc b)) (\<lambda>i t. sample_env b) (\<lambda>t. sample_save_env)
      (test_node (\<lambda>t. sample_check_env NoFile))"
    by (simp add: loop_registered_def sample_sdlc_def registry_get_def task_loop_nodes_def plain_node_def
        router_node_def)
  moreover have "drain_registered (w_registry (sample_sdlc b))"
    by (simp add: drain_registered_def drain_nodes_def sample_sdlc_def registry_get_def task_loop_nodes_def
        plain_node_def router_node_def)
  ultimately show ?thesis by (simp add: sdlc_workflow_def sample_sdlc_def)
qed

theorem sdlc_loop_terminates_witness:
  "\<exists>r. walk sample_world (sample_sdlc False) run_options_default (sample_task_walk ''TaskQueueRouterNode'') = Some r"
proof -
  have good: "good_state example_state"
    by (simp add: good_state_def state_finite_def example_state_simps sdlc_telemetry_default_def f64_is_finite_def)
  have "latest_state sample_task_context = Inr example_state"
    using good
    by (simp add: latest_state_def state_identities_def state_value_def get_result_def sample_task_context_def
        resolved_policy_identity_def state_nested_identities_def sdlc_state_back good_state_def ok_or_def
        bind_result_def)
  moreover have "policy_cap sample_task_context = 3"
    by (simp add: policy_cap_def resolved_policy_def resolved_policy_strict_def sample_task_context_def
        resolved_policy_identity_def ok_or_def bind_result_def sdlc_policy_default_def)
  moreover have "counters example_state + 4 * potential 3 example_state < 2 ^ 32"
    by (simp add: counters_def clock_count_def potential_def task_potential_def example_state_simps
        sdlc_telemetry_default_def default_max_attempts_def)
  ultimately show ?thesis
    using good
    by (intro sdlc_loop_terminates [OF sample_sdlc_workflow, where s = example_state])
      (simp_all add: sample_task_walk_def)
qed

end
