(* ===== verification/TaskProps.thy ===== *)
theory TaskProps
  imports TaskEnd
begin

text \<open>
  Properties of the SDLC task loop beside its end: what a model call bills, which task the queue hands out
  after a pass, and what a task number used twice does to the queue.
\<close>

subsection \<open>Model calls\<close>

text \<open>The call that attempt \<open>k\<close> of a step makes, the model its failed attempts are billed to, and its limit.\<close>

definition step_call :: "agent_code_step \<Rightarrow> task_context \<Rightarrow> nat \<Rightarrow> sdk_error + outcome \<times> transport_info" where
  "step_call st ctx = attempt_call st (build_prompt (ac_prompt st) ctx)"

definition step_limit :: "agent_code_step \<Rightarrow> nat" where
  "step_limit st = max 1 (unat (tr_max_attempts (ac_retry st)))"

text \<open>What the failed attempts \<open>ks\<close> were billed: a session for each error of the model's interface.\<close>

definition attempt_bill :: "call_env \<Rightarrow> agent_code_step \<Rightarrow> nat \<Rightarrow> sdk_error \<Rightarrow> claude_session option" where
  "attempt_bill env st k e = (case e of
     ApiError sid cost u msg \<Rightarrow> Some \<lparr>cs_node = ac_name st, cs_session_id = sid, cs_ok = False, cs_cost_usd = cost,
       cs_input_tokens = su_input_tokens u, cs_output_tokens = su_output_tokens u,
       cs_cache_read_input_tokens = su_cache_read_input_tokens u,
       cs_cache_creation_input_tokens = su_cache_creation_input_tokens u,
       cs_model = (case cf_model (ac_config st) of Some m \<Rightarrow> m | None \<Rightarrow> ''unknown''),
       cs_started_at = Some (ce_started env k), cs_cost_known = True\<rparr>
   | _ \<Rightarrow> None)"

definition step_bills :: "call_env \<Rightarrow> agent_code_step \<Rightarrow> task_context \<Rightarrow> nat list \<Rightarrow> claude_session list" where
  "step_bills env st ctx = List.map_filter (\<lambda>k. case step_call st ctx k of
     Inl e \<Rightarrow> attempt_bill env st k e | Inr ok \<Rightarrow> None)"

lemma step_bills_of:
  "bills_of env (step_call st ctx) (ac_name st) (case cf_model (ac_config st) of Some m \<Rightarrow> m | None \<Rightarrow> unknown_model) =
     step_bills env st ctx"
proof -
  have "billed_failure e (ac_name st) (case cf_model (ac_config st) of Some m \<Rightarrow> m | None \<Rightarrow> unknown_model)
      (ce_started env k) = attempt_bill env st k e" for e k
    by (cases e) (simp_all add: attempt_bill_def unknown_model_def split: option.split)
  then show ?thesis by (simp add: fun_eq_iff bills_of_def step_bills_def cong: sum.case_cong)
qed

lemma read_record_sessions:
  "read_sessions (metadata (record_sessions ctx ss)) =
     read_sessions (metadata ctx) @ filter (\<lambda>x. f64_is_finite (cs_cost_usd x)) ss"
  by (simp add: record_sessions_def session_rows.read_fold_append session_back map_filter_if)

lemma stamp_outcome_rows:
  "read_sessions (metadata (stamp_outcome i failed started oc info ctx)) =
     read_sessions (metadata ctx) @ filter (\<lambda>x. f64_is_finite (cs_cost_usd x)) (failed @ [ok_session i oc info started])"
  "get_result (stamp_outcome i failed started oc info ctx) i = Some (step_output oc info)"
  by (simp_all add: stamp_outcome_def Let_def get_result_def record_sessions_def session_rows.read_append
      session_rows.read_fold_append session_back map_filter_if)

text \<open>
  C6. A model call makes between one attempt and the policy's maximum. It goes on past an attempt only
  after a transport error that may be retried, with no abort in between, and ends with the answer of its
  last attempt, with that attempt's error, or with an abort. Every failed attempt that was billed reaches the
  run once and in order: it is read back from the run's session ledger, after the sessions that were there and
  before that of the answer, when the call ends well or is aborted, and is carried by the error otherwise. (A
  session whose cost is no finite number cannot be read back from a ledger.)
\<close>

theorem model_call_bills_every_attempt:
  "\<exists>n. 1 \<le> n \<and> n \<le> step_limit st \<and> list_all (goes_on env (ac_has_token st) (step_call st ctx)) [1..<n] \<and>
    (let before = read_sessions (metadata ctx);
         readable = filter (\<lambda>x. f64_is_finite (cs_cost_usd x));
         bills = step_bills env st ctx
     in if ac_has_token st \<and> ce_cancels_attempt env n
        then \<exists>c. agent_process env st ctx = Inr c \<and>
          read_sessions (metadata c) = before @ readable (bills [1..<n])
        else case step_call st ctx n of
          Inr (oc, info) \<Rightarrow> \<exists>c. agent_process env st ctx = Inr c \<and>
            get_result c (ac_name st) = Some (step_output oc info) \<and>
            read_sessions (metadata c) =
              before @ readable (bills [1..<n] @ [ok_session (ac_name st) oc info (ce_started env n)])
        | Inl e \<Rightarrow> if n < step_limit st \<and> is_retryable_transport_error e
            then \<exists>c. agent_process env st ctx = Inr c \<and>
              read_sessions (metadata c) = before @ readable (bills [1..<Suc n])
            else \<exists>err. agent_process env st ctx = Inl err \<and> ne_message err = sdk_error_text e \<and>
              ne_sessions err = bills [1..<Suc n])"
proof -
  let ?mdl = "case cf_model (ac_config st) of Some m \<Rightarrow> m | None \<Rightarrow> unknown_model"
  obtain n where n: "1 \<le> n" "n \<le> step_limit st"
        "\<forall>k \<in> {1..<n}. goes_on env (ac_has_token st) (step_call st ctx) k"
      and ended: "call_ended env (ac_has_token st) (step_call st ctx) (ac_name st) ?mdl (step_limit st) 1 n []
        (step_trace env st ctx)"
    using call_with_retry_ends [of "ac_retry st" env "ac_has_token st" "step_call st ctx" "ac_name st" ?mdl]
    unfolding step_trace_def step_call_def step_limit_def by blast
  have last: "step_bills env st ctx [Suc 0..<Suc n] = step_bills env st ctx [Suc 0..<n]"
    if "step_call st ctx n = Inr ok" for ok
    using n(1) that by (simp add: step_bills_def map_filter_append List.map_filter_simps)
  show ?thesis
    using n ended unfolding agent_process_trace call_ended_def step_bills_of
    by (intro exI [of _ n])
      (auto simp: list_all_iff read_record_sessions stamp_outcome_rows last with_sessions_def node_error_new_def Let_def
        simp del: upt_Suc split: if_splits sum.splits)
qed

subsection \<open>The queue after a pass\<close>

lemma passed_or_other:
  assumes "distinct (map tk_task_id ts)" and "u \<in> set (modify_task (\<lambda>t. t\<lparr>tk_status := TaskDone\<rparr>) i ts)"
    and "tk_status u = TaskPending"
  shows "u \<in> set ts \<and> tk_task_id u \<noteq> i"
  using assms by (induction ts) (auto 4 4 simp: image_iff split: if_splits)

text \<open>
  C15. A task that passed is never handed out again. After its status is written, whatever the save leaves
  behind, the queue picks the first task of the range that is still pending, which is another one, and
  names it to the nodes after it, or sends the run on to its final validation.
\<close>

theorem passed_task_not_handed_out_again:
  assumes "update_task_status_process c = Inr ok" and "latest_state c = Inr s" and "good_state s"
    and "current_task_id c = Inr i" and "find_task s i = Some t" and "tk_status t = TaskPending"
    and "counters s + 1 < 2 ^ 32" and "keeps_except {''SaveStateNode''} ok saved"
    and "task_queue_process saved = Inr queued"
  shows "case next_pending (pass_task i s) (allowed_task_ids c) of
      None \<Rightarrow> task_queue_route queued = Some ''FinalValidationNode''
    | Some u \<Rightarrow> tk_task_id u \<noteq> i \<and> tk_status u = TaskPending \<and> u \<in> set (ss_tasks s) \<and>
        task_queue_route queued = Some ''ImplementTaskNode'' \<and> current_task_id queued = Inr (tk_task_id u)"
proof -
  have up: "keeps_except {''UpdateTaskStatusNode''} c ok" "latest_state ok = Inr (pass_task i s)"
    using update_effect [OF assms(1-7)] by blast+
  have good: "good_state (pass_task i s)" using pass_task_effect [OF assms(3,5,7,6), of 0] by blast
  have "latest_state saved = Inr (pass_task i s)" using latest_state_keeps [OF assms(8)] up(2) by simp
  note q = queue_effect [OF assms(9) this good]
  have allowed: "allowed_task_ids saved = allowed_task_ids c"
    using keeps_except_event [OF assms(8)] keeps_except_event [OF up(1)] by (simp add: allowed_task_ids_def)
  show ?thesis
  proof (cases "next_pending (pass_task i s) (allowed_task_ids c)")
    case None
    with q allowed show ?thesis by simp
  next
    case (Some u)
    then have u: "u \<in> set (ss_tasks (pass_task i s))" "tk_status u = TaskPending"
      by (auto simp: next_pending_def find_Some_iff)
    have "u \<in> set (ss_tasks s) \<and> tk_task_id u \<noteq> i"
      using u assms(3) passed_or_other [of "ss_tasks s" u i] by (simp add: pass_task_def good_state_def)
    with q allowed Some u(2) show ?thesis by simp
  qed
qed

definition passing_state :: sdlc_state where
  "passing_state = example_state\<lparr>ss_tasks := ss_tasks example_state @ [sdlc_task_new 3 ''third'' ''c'']\<rparr>"

definition passing_context :: "sdlc_state \<Rightarrow> task_context" where
  "passing_context s = sample_task_context\<lparr>nodes :=
     [(''TaskQueueRouterNode'', queue_entry (sdlc_task_new 2 ''second'' ''b'')),
      (''TriageTaskNode'', JObj [(''verdict'', JStr ''PASS'')]),
      (''LoadTaskStateNode'', sdlc_state_to_json s)]\<rparr>"

lemma passing_context_reads:
  assumes "state_finite s"
  shows "latest_state (passing_context s) = Inr s" and "current_task_id (passing_context s) = Inr 2"
    and "allowed_task_ids (passing_context s) = None"
    and "find_task s 2 = Some t \<Longrightarrow> update_task_status_process (passing_context s) =
      Inr (put_result ''UpdateTaskStatusNode'' (sdlc_state_to_json (pass_task 2 s)) (passing_context s))"
proof -
  show latest: "latest_state (passing_context s) = Inr s"
    using assms
    by (simp add: latest_state_def state_identities_def state_value_def get_result_def passing_context_def
        state_nested_identities_def sdlc_state_back ok_or_def bind_result_def)
  show id: "current_task_id (passing_context s) = Inr 2"
    by (simp add: current_task_id_def current_task_fields_def get_result_def passing_context_def queue_entry_def
        json_u32_def sdlc_task_new_def ok_or_def bind_result_def)
  have triage: "get_result (passing_context s) ''TriageTaskNode'' = Some (JObj [(''verdict'', JStr ''PASS'')])"
    by (simp add: get_result_def passing_context_def)
  show "allowed_task_ids (passing_context s) = None"
    by (simp add: allowed_task_ids_def passing_context_def sample_task_context_def parse_task_range_def)
  show "update_task_status_process (passing_context s) =
      Inr (put_result ''UpdateTaskStatusNode'' (sdlc_state_to_json (pass_task 2 s)) (passing_context s))"
    if "find_task s 2 = Some t"
    using that
    by (simp add: update_task_status_process_def latest id triage ok_or_def bind_result_def pass_task_def Let_def)
qed

theorem passed_task_not_handed_out_again_witness:
  "\<exists>ok queued. update_task_status_process (passing_context passing_state) = Inr ok \<and>
     task_queue_process ok = Inr queued \<and> task_queue_route queued = Some ''ImplementTaskNode'' \<and>
     current_task_id queued = Inr 3"
proof -
  let ?t = "(sdlc_task_new 2 ''second'' ''b'')\<lparr>tk_attempt_count := 1\<rparr>"
  have fin: "state_finite passing_state"
    by (simp add: passing_state_def state_finite_def example_state_simps sdlc_telemetry_default_def f64_is_finite_def)
  then have good: "good_state passing_state"
    by (simp add: good_state_def passing_state_def example_state_simps)
  have t: "find_task passing_state 2 = Some ?t" by (simp add: find_task_def passing_state_def example_state_simps)
  have room: "counters passing_state + 1 < 2 ^ 32"
    by (simp add: counters_def clock_count_def passing_state_def example_state_simps sdlc_telemetry_default_def)
  obtain ok where ok: "update_task_status_process (passing_context passing_state) = Inr ok"
    using passing_context_reads(4) [OF fin t] by blast
  have pend: "tk_status ?t = TaskPending" by (simp add: sdlc_task_new_def)
  note reads = passing_context_reads(1,2) [OF fin]
  have "latest_state ok = Inr (pass_task 2 passing_state)"
    using update_effect [OF ok reads(1) good reads(2) t pend room] by blast
  then obtain queued where queued: "task_queue_process ok = Inr queued"
    by (auto simp: task_queue_process_def bind_result_def)
  have "next_pending (pass_task 2 passing_state) None = Some (sdlc_task_new 3 ''third'' ''c'')"
    by (simp add: next_pending_def pass_task_def passing_state_def example_state_simps task_allowed_def)
  with passed_task_not_handed_out_again [OF ok reads(1) good reads(2) t pend room keeps_except_refl queued]
  have "task_queue_route queued = Some ''ImplementTaskNode'' \<and> current_task_id queued = Inr 3"
    by (simp add: passing_context_reads(3) [OF fin] sdlc_task_new_def)
  with ok queued show ?thesis by blast
qed

subsection \<open>A number used twice\<close>

definition twice_pending :: "u32 \<Rightarrow> sdlc_state \<Rightarrow> bool" where
  "twice_pending i s \<longleftrightarrow> (\<exists>a t b u d. ss_tasks s = a @ t # b @ u # d \<and> tk_task_id t = i \<and> tk_task_id u = i \<and>
     tk_status u = TaskPending)"

text \<open>
  C37. Nothing checks that the tasks of a spec have different numbers, and with a number used twice the queue
  never drains: a pass of that number settles the first of its tasks again, the other one stays pending, and the
  queue sends the run round once more. The state is as it was for the next pass, but for its counters.
\<close>

theorem number_used_twice_never_drains:
  assumes "update_task_status_process c = Inr ok" and "latest_state c = Inr s" and "state_finite s"
    and "current_task_id c = Inr i" and "twice_pending i s" and "clock_count s + 1 < 2 ^ 32"
    and "allowed_task_ids c = None"
  shows "task_queue_route ok = Some ''ImplementTaskNode'' \<and>
    (\<exists>s'. latest_state ok = Inr s' \<and> state_finite s' \<and> twice_pending i s' \<and> clock_count s' = clock_count s + 1)"
proof -
  obtain a t b u d where ts: "ss_tasks s = a @ t # b @ u # d" "tk_task_id t = i" "tk_task_id u = i"
      "tk_status u = TaskPending"
    using assms(5) unfolding twice_pending_def by blast
  have ok: "ok = put_result ''UpdateTaskStatusNode'' (sdlc_state_to_json (pass_task i s)) c"
    using assms(1,2,4)
    by (auto simp: update_task_status_process_def bind_result_eq_Inr pass_task_def Let_def split: if_splits option.splits)
  then have keeps: "keeps_except {''UpdateTaskStatusNode''} c ok" by (auto intro: keeps_except_put)
  have twice: "twice_pending i (pass_task i s)"
    using duplicate_stays_pending [OF ts(1)] ts unfolding twice_pending_def by metis
  have fin: "state_finite (pass_task i s)" using assms(3) by (simp add: state_finite_def pass_task_def)
  have "unat (te_tasks_passed (ss_telemetry s) + 1) = unat (te_tasks_passed (ss_telemetry s)) + 1"
    using assms(6) by (intro unat_Suc_u32) (simp add: clock_count_def)
  moreover obtain t0 where "find (\<lambda>t. tk_task_id t = i) (ss_tasks s) = Some t0"
    using ts by (cases "find (\<lambda>t. tk_task_id t = i) (ss_tasks s)") (auto simp: find_None_iff)
  from sum_modify_task [OF this, of "\<lambda>t. unat (tk_attempt_count t)" "\<lambda>t. t\<lparr>tk_status := TaskDone\<rparr>"]
  have "sum_list (map (\<lambda>t. unat (tk_attempt_count t)) (ss_tasks (pass_task i s))) =
      sum_list (map (\<lambda>t. unat (tk_attempt_count t)) (ss_tasks s))" by (simp add: pass_task_def)
  ultimately have clock: "clock_count (pass_task i s) = clock_count s + 1"
    by (simp add: clock_count_def pass_task_def)
  have "state_value ok ''UpdateTaskStatusNode'' = Some (sdlc_state_to_json (pass_task i s))"
    by (simp add: ok state_value_def state_nested_identities_def)
  then have latest: "latest_state ok = Inr (pass_task i s)"
    using fin clock assms(6) by (intro write_count [OF assms(2) keeps]) (auto simp: state_identities_def)
  have "next_pending (pass_task i s) None \<noteq> None"
    using twice unfolding twice_pending_def next_pending_def
    by (auto simp: find_None_iff task_allowed_def)
  moreover have "allowed_task_ids ok = None"
    using assms(7) keeps_except_event [OF keeps] by (simp add: allowed_task_ids_def)
  ultimately show ?thesis using latest twice fin clock by (simp add: task_queue_route_def)
qed

definition twice_state :: sdlc_state where
  "twice_state = (sdlc_state_new ''feature'')\<lparr>ss_tasks := [sdlc_task_new 2 ''a'' ''b'', sdlc_task_new 2 ''c'' ''d'']\<rparr>"

theorem number_used_twice_never_drains_witness:
  "\<exists>ok. update_task_status_process (passing_context twice_state) = Inr ok \<and>
     task_queue_route ok = Some ''ImplementTaskNode''"
proof -
  have fin: "state_finite twice_state"
    by (simp add: twice_state_def state_finite_def sdlc_state_new_def sdlc_telemetry_default_def f64_is_finite_def)
  have "find_task twice_state 2 = Some (sdlc_task_new 2 ''a'' ''b'')"
    by (simp add: find_task_def twice_state_def sdlc_task_new_def)
  from passing_context_reads(4) [OF fin this]
  obtain ok where ok: "update_task_status_process (passing_context twice_state) = Inr ok" by blast
  have "twice_pending 2 twice_state"
    unfolding twice_pending_def
    by (intro exI [of _ "[]"] exI [of _ "sdlc_task_new 2 ''a'' ''b''"] exI [of _ "sdlc_task_new 2 ''c'' ''d''"])
      (simp add: twice_state_def sdlc_task_new_def)
  moreover have "clock_count twice_state + 1 < 2 ^ 32"
    by (simp add: clock_count_def twice_state_def sdlc_state_new_def sdlc_task_new_def sdlc_telemetry_default_def)
  ultimately show ?thesis
    using number_used_twice_never_drains [OF ok passing_context_reads(1) [OF fin] fin
      passing_context_reads(2) [OF fin] _ _ passing_context_reads(3) [OF fin]] ok by blast
qed

end
