(* ===== verification/ChainModel.thy ===== *)
theory ChainModel
  imports TaskChecks Dispatch "HOL-Library.Product_Lexorder"
begin

text \<open>
  The parts a chain of blocks is driven with (\<open>workflows/orchestration\<close>): resolving a lane into steps
  (\<open>chain.rs\<close>), the dependency and permission gates (\<open>gates.rs\<close>), one step's run (\<open>execute.rs\<close>,
  \<open>dispatch.rs\<close>, \<open>engine_kind.rs\<close>), the checkpoint (\<open>checkpoint.rs\<close>) and the plan a crashed campaign is
  resumed by (\<open>engine-serve/src/resume.rs\<close>). What the code parses with serde is given as the parsed value or
  the error; a run of a workflow is a parameter.
\<close>

subsection \<open>Chains\<close>

datatype step_kind = BlockStep | DispatchStep | CommandStep

record lane_budget =
  lb_heavy :: bool
  lb_not_with :: "string list"

record lane_directives =
  ld_held_until :: "string option"
  ld_budget :: "lane_budget option"
  ld_exclusive_repos :: "string list option"

record chain_step =
  cs_repo :: string
  cs_block_id :: string
  cs_directives :: "lane_directives option"
  cs_roadmap :: "string option"
  cs_lane :: "string option"
  cs_segment :: "nat option"
  cs_kind :: step_kind

record block_position =
  bp_roadmap :: string
  bp_lane :: string
  bp_repo :: string
  bp_id :: string
  bp_kind :: step_kind
  bp_segment :: nat
  bp_position :: nat
  bp_directives :: "lane_directives option"

datatype chain_error =
    ChainReadFailed string string
  | ChainParseFailed string string
  | LaneNotFound string string
  | ChainHeld string string string string
  \<comment> \<open>path and cause; path and cause; roadmap and lane; roadmap, lane, repo and token\<close>

definition chain_error_text :: "chain_error \<Rightarrow> string" where
  "chain_error_text e = (case e of
     ChainReadFailed path source \<Rightarrow> ''failed to read '' @ path @ '': '' @ source
   | ChainParseFailed path source \<Rightarrow> ''malformed lane-segments artifact at '' @ path @ '': '' @ source
   | LaneNotFound roadmap lane \<Rightarrow> (''no lane '' @ [CHR 0x27]) @ lane @ ([CHR 0x27] @ '' found for roadmap '' @ [CHR 0x27]) @ roadmap @
       ([CHR 0x27] @ '' in the lane-segments artifact'')
   | ChainHeld roadmap lane repo token \<Rightarrow> (''lane '' @ [CHR 0x27]) @ lane @ ([CHR 0x27] @ '' of roadmap '' @ [CHR 0x27]) @ roadmap @ ([CHR 0x27] @ '' (repo '' @ [CHR 0x27]) @ repo @
       ([CHR 0x27] @ '') refuses to start: HELD-UNTIL '' @ [CHR 0x27]) @ token @ ([CHR 0x27] @ '' is still open''))"

definition step_of_position :: "block_position \<Rightarrow> chain_step" where
  "step_of_position b = \<lparr>cs_repo = bp_repo b, cs_block_id = bp_id b, cs_directives = bp_directives b,
     cs_roadmap = Some (bp_roadmap b), cs_lane = Some (bp_lane b), cs_segment = Some (bp_segment b),
     cs_kind = bp_kind b\<rparr>"

definition lane_positions :: "block_position list \<Rightarrow> string \<Rightarrow> string \<Rightarrow> block_position list" where
  "lane_positions blocks roadmap lane =
     sort_key (\<lambda>b. (bp_segment b, bp_position b)) (filter (\<lambda>b. bp_roadmap b = roadmap \<and> bp_lane b = lane) blocks)"

definition first_held_until :: "block_position list \<Rightarrow> string option" where
  "first_held_until bs = (case List.map_filter (\<lambda>b. Option.bind (bp_directives b) ld_held_until) bs of
     [] \<Rightarrow> None | t # _ \<Rightarrow> Some t)"

definition resolve_lane_chain ::
  "(chain_error + block_position list) \<Rightarrow> string \<Rightarrow> string \<Rightarrow> (string \<Rightarrow> bool) \<Rightarrow> chain_error + chain_step list" where
  "resolve_lane_chain artifact roadmap lane is_open =
     bind_result artifact (\<lambda>blocks.
       let matching = lane_positions blocks roadmap lane
       in if matching = [] then Inl (LaneNotFound roadmap lane)
          else case first_held_until matching of
            Some token \<Rightarrow> if is_open token then Inl (ChainHeld roadmap lane (bp_repo (hd matching)) token)
                          else Inr (map step_of_position matching)
          | None \<Rightarrow> Inr (map step_of_position matching))"

definition explicit_step :: "string \<times> string \<Rightarrow> chain_step" where
  "explicit_step p = \<lparr>cs_repo = fst p, cs_block_id = snd p, cs_directives = None, cs_roadmap = None, cs_lane = None,
     cs_segment = None, cs_kind = BlockStep\<rparr>"

definition resolve_explicit_chain :: "(string \<times> string) list \<Rightarrow> chain_step list" where
  "resolve_explicit_chain = map explicit_step"

definition step_key :: "chain_step \<Rightarrow> string \<times> string" where
  "step_key st = (cs_repo st, cs_block_id st)"

definition step_label :: "chain_step \<Rightarrow> string" where
  "step_label st = cs_repo st @ '':'' @ cs_block_id st"

subsection \<open>The dependency gate\<close>

datatype dependency_edge =
    EdgeBlock string string
  | EdgeOperator string
  | EdgeApproval string
  | EdgeExternal string

datatype gate_error = UnmetDependency string string dependency_edge

definition gate_error_text :: "gate_error \<Rightarrow> string" where
  "gate_error_text e = (case e of UnmetDependency repo block edge \<Rightarrow>
     (''block '' @ [CHR 0x27]) @ block @ ([CHR 0x27] @ '' (repo '' @ [CHR 0x27]) @ repo @ ([CHR 0x27] @ '') cannot start: '') @
     (case edge of
        EdgeBlock r b \<Rightarrow> (''dependency '' @ [CHR 0x27]) @ b @ ([CHR 0x27] @ '' (repo '' @ [CHR 0x27]) @ r @ ([CHR 0x27] @ '') is not yet met'')
      | EdgeOperator slug \<Rightarrow> (''operator gate '' @ [CHR 0x27]) @ slug @ ([CHR 0x27] @ '' is not yet cleared'')
      | EdgeApproval slug \<Rightarrow> (''approval gate '' @ [CHR 0x27]) @ slug @ ([CHR 0x27] @ '' is not yet granted'')
      | EdgeExternal what \<Rightarrow> (''external dependency '' @ [CHR 0x27]) @ what @ ([CHR 0x27] @ '' is not yet met'')))"

definition edge_is_met :: "(string \<Rightarrow> string \<Rightarrow> bool) \<Rightarrow> dependency_edge \<Rightarrow> bool" where
  "edge_is_met met e = (case e of EdgeBlock r b \<Rightarrow> met r b | _ \<Rightarrow> False)"

definition check_dependencies ::
  "chain_step \<Rightarrow> (string \<Rightarrow> string \<Rightarrow> dependency_edge list) \<Rightarrow> (string \<Rightarrow> string \<Rightarrow> bool) \<Rightarrow> gate_error option" where
  "check_dependencies st depends met =
     map_option (UnmetDependency (cs_repo st) (cs_block_id st))
       (find (\<lambda>e. \<not> edge_is_met met e) (depends (cs_repo st) (cs_block_id st)))"

definition dependency_edge_to_json :: "dependency_edge \<Rightarrow> json" where
  "dependency_edge_to_json e = (case e of
     EdgeBlock r b \<Rightarrow> JObj [(''type'', JStr ''block''), (''repo'', JStr r), (''id'', JStr b)]
   | EdgeOperator s \<Rightarrow> JObj [(''type'', JStr ''operator''), (''slug'', JStr s)]
   | EdgeApproval s \<Rightarrow> JObj [(''type'', JStr ''approval''), (''slug'', JStr s)]
   | EdgeExternal w \<Rightarrow> JObj [(''type'', JStr ''external''), (''what'', JStr w)])"

subsection \<open>The permission gate\<close>

record operator_gate_request =
  og_slug :: string
  og_exit :: string
  og_start :: string

definition gated_action_wire :: "gated_action \<Rightarrow> string" where
  "gated_action_wire a = (case a of
     ClearOperatorGate \<Rightarrow> ''clear_operator_gate'' | InstallOnMini \<Rightarrow> ''install_on_mini'' | PushToMain \<Rightarrow> ''push_to_main''
   | CrossRepoWrite \<Rightarrow> ''cross_repo_write'' | Notify \<Rightarrow> ''notify'' | WakeLane \<Rightarrow> ''wake_lane'' | RunDrain \<Rightarrow> ''run_drain'')"

definition gated_action_debug :: "gated_action \<Rightarrow> string" where
  "gated_action_debug a = (case a of
     ClearOperatorGate \<Rightarrow> ''ClearOperatorGate'' | InstallOnMini \<Rightarrow> ''InstallOnMini'' | PushToMain \<Rightarrow> ''PushToMain''
   | CrossRepoWrite \<Rightarrow> ''CrossRepoWrite'' | Notify \<Rightarrow> ''Notify'' | WakeLane \<Rightarrow> ''WakeLane'' | RunDrain \<Rightarrow> ''RunDrain'')"

definition profile_debug :: "permission_profile \<Rightarrow> string" where
  "profile_debug p = (case p of Locked \<Rightarrow> ''Locked'' | Standard \<Rightarrow> ''Standard'' | Unrestricted \<Rightarrow> ''Unrestricted'')"

definition profile_wire :: "permission_profile \<Rightarrow> string" where
  "profile_wire p = (case p of Locked \<Rightarrow> ''locked'' | Standard \<Rightarrow> ''standard'' | Unrestricted \<Rightarrow> ''unrestricted'')"

definition permission_gate_slug :: "gated_action \<Rightarrow> string" where
  "permission_gate_slug a = ''permission-'' @ gated_action_wire a"

definition build_operator_gate_request :: "gated_action \<Rightarrow> permission_profile \<Rightarrow> operator_gate_request" where
  "build_operator_gate_request a p = \<lparr>og_slug = permission_gate_slug a,
     og_exit = ''planning/decisions/'' @ permission_gate_slug a @
       (''.md exists and records the operator'' @ [CHR 0x27] @ ''s decision to authorize '') @ gated_action_debug a @
       '' under permission profile '' @ profile_debug p,
     og_start = ''/begin-session '' @ permission_gate_slug a\<rparr>"

datatype permission_gate_error =
    GateDenied string string gated_action permission_profile operator_gate_request
  | EdgeAuthorFailed string string gated_action permission_profile string

definition permission_gate_error_text :: "permission_gate_error \<Rightarrow> string" where
  "permission_gate_error_text e = (case e of
     GateDenied repo block a p edge \<Rightarrow> (''block '' @ [CHR 0x27]) @ block @ ([CHR 0x27] @ '' (repo '' @ [CHR 0x27]) @ repo @ ([CHR 0x27] @ '') cannot proceed: '') @
       gated_action_debug a @ '' is denied at permission profile '' @ profile_debug p @ (''; operator gate '' @ [CHR 0x27]) @ og_slug edge @
       ([CHR 0x27] @ '' raised, blocking the chain'')
   | EdgeAuthorFailed repo block a p reason \<Rightarrow> (''block '' @ [CHR 0x27]) @ block @ ([CHR 0x27] @ '' (repo '' @ [CHR 0x27]) @ repo @ ([CHR 0x27] @ '') cannot proceed: '') @
       gated_action_debug a @ '' is denied at permission profile '' @ profile_debug p @
       '', and authoring the operator-gate edge failed: '' @ reason)"

text \<open>The answer of \<open>author\<close> is \<open>None\<close> where the edge was written, else the reason it was not.\<close>

definition check_permission_gate ::
  "chain_step \<Rightarrow> gated_action \<Rightarrow> permission_profile \<Rightarrow> (operator_gate_request \<Rightarrow> string option) \<Rightarrow>
   permission_gate_error option" where
  "check_permission_gate st a p author =
     (case decide p a of
        Permit \<Rightarrow> None
      | Deny \<Rightarrow>
          (let edge = build_operator_gate_request a p
           in case author edge of
                Some reason \<Rightarrow> Some (EdgeAuthorFailed (cs_repo st) (cs_block_id st) a p reason)
              | None \<Rightarrow> Some (GateDenied (cs_repo st) (cs_block_id st) a p edge)))"

subsection \<open>One step's run\<close>

datatype engine_kind = EngineTask | EngineFlow

definition engine_kind_str :: "engine_kind \<Rightarrow> string" where
  "engine_kind_str k = (case k of EngineTask \<Rightarrow> ''task'' | EngineFlow \<Rightarrow> ''flow'')"

definition from_sdlc_workflow :: "string option \<Rightarrow> string option + engine_kind" where
  "from_sdlc_workflow v =
     (if v = Some ''task'' then Inr EngineTask else if v = Some ''flow'' then Inr EngineFlow else Inl v)"

definition permission_profile_rank :: "permission_profile \<Rightarrow> nat" where
  "permission_profile_rank p = (case p of Locked \<Rightarrow> 0 | Standard \<Rightarrow> 1 | Unrestricted \<Rightarrow> 2)"

text \<open>The error names the parent's and the requested profile.\<close>

definition resolve_child_permission_profile ::
  "permission_profile \<Rightarrow> permission_profile option \<Rightarrow> permission_profile \<times> permission_profile + permission_profile" where
  "resolve_child_permission_profile parent requested =
     (case requested of
        None \<Rightarrow> Inr parent
      | Some p \<Rightarrow> if permission_profile_rank parent < permission_profile_rank p then Inl (parent, p) else Inr p)"

definition resolve_isolation :: "(string \<Rightarrow> string option) \<Rightarrow> string \<Rightarrow> string \<Rightarrow> string \<Rightarrow> bool \<Rightarrow> bool" where
  "resolve_isolation canonical slug path brain_root otherwise =
     (if slug = ''base-template'' then True
      else case (canonical path, canonical brain_root) of
             (Some p, Some r) \<Rightarrow> if p = r then False else otherwise
           | _ \<Rightarrow> otherwise)"

record flow_invocation =
  fi_repo :: string
  fi_repo_path :: string
  fi_block_id :: string
  fi_use_worktree :: bool
  fi_auto_pr :: bool
  fi_campaign_id :: uuid
  fi_engine :: engine_kind
  fi_profile :: permission_profile
  fi_flow_policy :: "json option"
  fi_task_policy :: "json option"

definition sdlc_flow_event :: "ext \<Rightarrow> flow_invocation \<Rightarrow> json" where
  "sdlc_flow_event X i = JObj ([(''repo'', JStr (fi_repo i)), (''spec_slug'', JStr (fi_block_id i)),
     (''use_worktree'', JBool (fi_use_worktree i)), (''auto_pr'', JBool (fi_auto_pr i)),
     (''campaign_id'', JStr (uuid_str X (fi_campaign_id i))), (''permission_profile'', JStr (profile_wire (fi_profile i)))] @
     (case fi_flow_policy i of Some p \<Rightarrow> [(''policy'', p)] | None \<Rightarrow> []))"

definition sdlc_task_event :: "ext \<Rightarrow> flow_invocation \<Rightarrow> json" where
  "sdlc_task_event X i = JObj ([(''repo'', JStr (fi_repo i)), (''spec_slug'', JStr (fi_block_id i)),
     (''use_worktree'', JBool (fi_use_worktree i)),
     (''campaign_id'', JStr (uuid_str X (fi_campaign_id i))), (''permission_profile'', JStr (profile_wire (fi_profile i)))] @
     (case fi_task_policy i of Some p \<Rightarrow> [(''policy'', p)] | None \<Rightarrow> []))"

datatype execute_error =
    WrongStepKind string string step_kind
  | RepoResolutionFailed string string string
  | StepFailed string string string
  | ChildFailed string string string
  | ProfileWidening string string permission_profile permission_profile

definition step_kind_debug :: "step_kind \<Rightarrow> string" where
  "step_kind_debug k = (case k of BlockStep \<Rightarrow> ''Block'' | DispatchStep \<Rightarrow> ''Dispatch'' | CommandStep \<Rightarrow> ''Command'')"

definition execute_error_text :: "execute_error \<Rightarrow> string" where
  "execute_error_text e = (case e of
     WrongStepKind repo block k \<Rightarrow> (''step '' @ [CHR 0x27]) @ block @ ([CHR 0x27] @ '' (repo '' @ [CHR 0x27]) @ repo @ ([CHR 0x27] @ '') has kind '') @ step_kind_debug k @
       ('', not Block '' @ [CHR 0xE2, CHR 0x80, CHR 0x94] @
       '' execute_step only runs block steps; a dispatch step must be routed to the dispatch node '' @
       ''instead'')
   | RepoResolutionFailed repo block source \<Rightarrow> (''block '' @ [CHR 0x27]) @ block @ ([CHR 0x27] @ '' cannot start: repo '' @ [CHR 0x27]) @ repo @
       ([CHR 0x27] @ '' did not resolve: '') @ source
   | StepFailed repo block source \<Rightarrow> (''block '' @ [CHR 0x27]) @ block @ ([CHR 0x27] @ '' (repo '' @ [CHR 0x27]) @ repo @ ([CHR 0x27] @ '') failed: '') @ source
   | ChildFailed repo block failing \<Rightarrow> (''block '' @ [CHR 0x27]) @ block @ ([CHR 0x27] @ '' (repo '' @ [CHR 0x27]) @ repo @ ([CHR 0x27] @ '') failed: node '' @ [CHR 0x27]) @ failing @
       ([CHR 0x27] @ '' did not succeed'')
   | ProfileWidening repo block parent requested \<Rightarrow> (''block '' @ [CHR 0x27]) @ block @ ([CHR 0x27] @ '' (repo '' @ [CHR 0x27]) @ repo @ ([CHR 0x27] @ '') cannot start: '') @
       ''requested permission profile '' @ profile_debug requested @ '' is wider than parent profile '' @
       profile_debug parent @
       ('' '' @ [CHR 0xE2, CHR 0x80, CHR 0x94] @ '' a step may narrow its parent'' @ [CHR 0x27] @
       ''s permission profile, never widen it''))"

record execution_outcome =
  eo_repo :: string
  eo_repo_path :: string
  eo_block_id :: string
  eo_engine :: engine_kind
  eo_ctx :: task_context
  eo_use_worktree :: bool
  eo_auto_pr :: bool
  eo_campaign_id :: uuid
  eo_cost_usd :: "f64 option"
  eo_total_tokens :: u64

definition step_spend :: "task_context \<Rightarrow> f64 option \<times> u64" where
  "step_spend ctx =
     (let l = ledger_from_context ctx
      in (if list_ex (\<lambda>i. node_cost_usd ctx i \<noteq> None) (map fst (nodes ctx)) then Some (bl_total_cost_usd l) else None,
          bl_total_tokens l))"

definition first_failed_node :: "task_context \<Rightarrow> string option" where
  "first_failed_node ctx = map_option fst (find (\<lambda>(i, r). nr_status r = Failed) (node_runs ctx))"

definition failing_node_text :: "task_context \<Rightarrow> string" where
  "failing_node_text ctx =
     (case first_failed_node ctx of
        Some i \<Rightarrow> i
      | None \<Rightarrow>
          (case Option.bind (Option.bind (json_get (metadata ctx) ''failure'') (\<lambda>v. json_get v ''error'')) as_str of
             Some reason \<Rightarrow> ''<no failing node -- '' @ reason @ ''>''
           | None \<Rightarrow> ''<unknown>''))"

record step_config =
  sc_engine :: "string \<Rightarrow> string \<Rightarrow> engine_kind"
  sc_repo_path :: "string \<Rightarrow> string + string"
  sc_brain_root :: string
  sc_canonical :: "string \<Rightarrow> string option"
  sc_use_worktree :: bool
  sc_auto_pr :: bool
  sc_campaign_id :: uuid
  sc_flow_policy :: "json option"
  sc_task_policy :: "json option"

definition invocation_of ::
  "step_config \<Rightarrow> chain_step \<Rightarrow> string \<Rightarrow> permission_profile \<Rightarrow> flow_invocation" where
  "invocation_of C st path profile =
     \<lparr>fi_repo = cs_repo st, fi_repo_path = path, fi_block_id = cs_block_id st,
      fi_use_worktree = resolve_isolation (sc_canonical C) (cs_repo st) path (sc_brain_root C) (sc_use_worktree C),
      fi_auto_pr = sc_auto_pr C, fi_campaign_id = sc_campaign_id C, fi_engine = sc_engine C (cs_repo st) (cs_block_id st),
      fi_profile = profile, fi_flow_policy = sc_flow_policy C, fi_task_policy = sc_task_policy C\<rparr>"

definition execute_step ::
  "step_config \<Rightarrow> (flow_invocation \<Rightarrow> string + task_context) \<Rightarrow> permission_profile \<Rightarrow> permission_profile option \<Rightarrow>
   chain_step \<Rightarrow> execute_error + execution_outcome" where
  "execute_step C run_flow parent requested st =
     (if cs_kind st \<noteq> BlockStep then Inl (WrongStepKind (cs_repo st) (cs_block_id st) (cs_kind st))
      else bind_result (case resolve_child_permission_profile parent requested of
             Inl (a, b) \<Rightarrow> Inl (ProfileWidening (cs_repo st) (cs_block_id st) a b) | Inr p \<Rightarrow> Inr p) (\<lambda>profile.
           bind_result (map_err (RepoResolutionFailed (cs_repo st) (cs_block_id st)) (sc_repo_path C (cs_repo st))) (\<lambda>path.
           let i = invocation_of C st path profile
           in bind_result (map_err (StepFailed (cs_repo st) (cs_block_id st)) (run_flow i)) (\<lambda>ctx.
             if derive_terminal_status ctx = ''failed''
             then Inl (ChildFailed (cs_repo st) (cs_block_id st) (failing_node_text ctx))
             else Inr \<lparr>eo_repo = cs_repo st, eo_repo_path = path, eo_block_id = cs_block_id st, eo_engine = fi_engine i,
               eo_ctx = ctx, eo_use_worktree = fi_use_worktree i, eo_auto_pr = fi_auto_pr i,
               eo_campaign_id = fi_campaign_id i, eo_cost_usd = fst (step_spend ctx),
               eo_total_tokens = snd (step_spend ctx)\<rparr>))))"

record dispatch_outcome =
  do_workflow_key :: string
  do_block_id :: string
  do_ctx :: task_context

datatype dispatch_step_error =
    UnknownWorkflowKey string string
  | DispatchPolicyFailed string string string
  | DispatchStepFailed string string string
  | DispatchChildFailed string string string

definition dispatch_step_error_text :: "dispatch_step_error \<Rightarrow> string" where
  "dispatch_step_error_text e = (case e of
     UnknownWorkflowKey block key \<Rightarrow> (''dispatch step '' @ [CHR 0x27]) @ block @ ([CHR 0x27] @ '' names workflow key '' @ [CHR 0x27]) @ key @
       ([CHR 0x27] @ '', which is not registered '' @ [CHR 0xE2, CHR 0x80, CHR 0x94] @
       '' stopping the chain rather than falling through to a block invocation'')
   | DispatchPolicyFailed block key message \<Rightarrow> (''dispatch step '' @ [CHR 0x27]) @ block @ ([CHR 0x27] @ '' (workflow key '' @ [CHR 0x27]) @ key @
       ([CHR 0x27] @ '') failed to resolve policy: '') @ message
   | DispatchStepFailed block key source \<Rightarrow> (''dispatch step '' @ [CHR 0x27]) @ block @ ([CHR 0x27] @ '' (workflow key '' @ [CHR 0x27]) @ key @ ([CHR 0x27] @ '') failed: '') @ source
   | DispatchChildFailed block key failing \<Rightarrow> (''dispatch step '' @ [CHR 0x27]) @ block @ ([CHR 0x27] @ '' (workflow key '' @ [CHR 0x27]) @ key @
       ([CHR 0x27] @ '') failed: node '' @ [CHR 0x27]) @ failing @ ([CHR 0x27] @ '' did not succeed''))"

text \<open>\<open>launch\<close> resolves a key and, where that succeeds, gives the outcome of the workflow's run.\<close>

definition execute_dispatch_step ::
  "(string \<Rightarrow> dispatch_error + (string + task_context)) \<Rightarrow> chain_step \<Rightarrow> dispatch_step_error + dispatch_outcome" where
  "execute_dispatch_step launch st =
     (let key = cs_block_id st
      in case launch key of
           Inl (UnknownWorkflowType k) \<Rightarrow> Inl (UnknownWorkflowKey (cs_block_id st) k)
         | Inl (PolicyResolutionFailed m) \<Rightarrow> Inl (DispatchPolicyFailed (cs_block_id st) key m)
         | Inr (Inl source) \<Rightarrow> Inl (DispatchStepFailed (cs_block_id st) key source)
         | Inr (Inr ctx) \<Rightarrow>
             (if derive_terminal_status ctx = ''failed''
              then Inl (DispatchChildFailed (cs_block_id st) key
                (case first_failed_node ctx of Some i \<Rightarrow> i | None \<Rightarrow> ''<unknown>''))
              else Inr \<lparr>do_workflow_key = key, do_block_id = cs_block_id st, do_ctx = ctx\<rparr>))"

subsection \<open>The checkpoint and the lane log\<close>

record checkpoint_step =
  kp_repo :: string
  kp_block_id :: string
  kp_index :: u32
  kp_integrated :: bool
  kp_branch :: "string option"

record checkpoint =
  kp_campaign_id :: uuid
  kp_steps :: "checkpoint_step list"

definition checkpoint_new :: "uuid \<Rightarrow> checkpoint" where
  "checkpoint_new c = \<lparr>kp_campaign_id = c, kp_steps = []\<rparr>"

datatype lane_log_status = LaneClosed | LaneBailed | LaneHeld | LaneCancelled | LaneBudgetHalted | LaneSkipped

record lane_log_entry =
  ll_ts :: timestamp
  ll_lane :: string
  ll_repo :: string
  ll_block :: string
  ll_status :: lane_log_status
  ll_note :: string
  ll_run_id :: "string option"
  ll_writer :: "string option"
  ll_build_sha :: "string option"
  ll_profile :: "string option"
  ll_blocked_by :: "json option"

text \<open>The constructors differ in the status; only a skipped line names what blocks it.\<close>

definition lane_log_line ::
  "timestamp \<Rightarrow> lane_log_status \<Rightarrow> string \<Rightarrow> string \<Rightarrow> string \<Rightarrow> string \<Rightarrow> json option \<Rightarrow> lane_log_entry" where
  "lane_log_line now status repo block lane note blocked_by =
     \<lparr>ll_ts = now, ll_lane = lane, ll_repo = repo, ll_block = block, ll_status = status, ll_note = note, ll_run_id = None,
      ll_writer = None, ll_build_sha = None, ll_profile = None, ll_blocked_by = blocked_by\<rparr>"

definition line_with_identity :: "string \<Rightarrow> string option \<Rightarrow> lane_log_entry \<Rightarrow> lane_log_entry" where
  "line_with_identity sha rid e = e\<lparr>ll_run_id := rid, ll_writer := Some ''engine-rs'', ll_build_sha := Some sha\<rparr>"

definition line_with_profile :: "string option \<Rightarrow> lane_log_entry \<Rightarrow> lane_log_entry" where
  "line_with_profile p e = e\<lparr>ll_profile := p\<rparr>"

subsection \<open>Resuming a campaign\<close>

datatype campaign_resume =
    NoCheckpoint
  | AlreadyComplete
  | CampaignAborted string
  | ResumePlan u32 "chain_step list"

definition last_status_for_block :: "lane_log_entry list \<Rightarrow> string \<Rightarrow> lane_log_status option" where
  "last_status_for_block lines block = map_option ll_status (find (\<lambda>e. ll_block e = block) (rev lines))"

text \<open>\<open>None\<close> is a checkpoint that was never written; the log is the list of the lines that parse.\<close>

definition plan_campaign_resume :: "checkpoint option \<Rightarrow> lane_log_entry list \<Rightarrow> chain_step list \<Rightarrow> campaign_resume" where
  "plan_campaign_resume saved lines chain =
     (case saved of
        None \<Rightarrow> NoCheckpoint
      | Some kp \<Rightarrow>
          (let finished = length (filter kp_integrated (kp_steps kp))
           in if length chain \<le> finished then AlreadyComplete
              else if last_status_for_block lines (cs_block_id (chain ! finished)) \<in> {Some LaneCancelled, Some LaneBudgetHalted}
                   then CampaignAborted (cs_block_id (chain ! finished))
              else ResumePlan (of_nat finished + 1) (drop finished chain)))"

end
