(* ===== verification/Integrate.thy ===== *)
theory Integrate
  imports ChainModel
begin

text \<open>
  The chain driver (\<open>workflows/orchestration/integrate.rs\<close>): one pass of its loop as a sequence of gates, each
  of which lets the step through with the new state (\<open>Inr\<close>) or ends the pass (\<open>Inl\<close>), the wait for an operator's
  hold, the run of the step and its integration, and the loop itself over a queue that messages may extend.

  What a pass meets outside is the environment, indexed by the number of the pass: the corpus behind the
  dependency gate, the checkpoint and the log as they accept a write, the clock, git, the runs. Within one pass two
  reads of the same question answer alike. What the driver does outside is the trace of its effects.
\<close>

subsection \<open>Errors\<close>

datatype coord_op = CoordRegister | CoordHeartbeat | CoordLease

definition coord_op_str :: "coord_op \<Rightarrow> string" where
  "coord_op_str op = (case op of CoordRegister \<Rightarrow> ''register'' | CoordHeartbeat \<Rightarrow> ''heartbeat'' | CoordLease \<Rightarrow> ''lease'')"

text \<open>Repository and block come first; then the path or the branch, then the cause.\<close>

datatype integrate_error =
    GateRefused gate_error
  | PermissionRefused permission_gate_error
  | ExecuteFailed execute_error
  | StateWriteUnreadable string string string string
  | StateWriteMalformed string string string string
  | StateWriteMismatch string string string "string option"
  | FinalValidationGateFailed string string string string
  | BlockIdMismatch string string string string
  | ReconcileFailed string string string string
  | LaneLogWriteFailed string string
  | HoldDeadlineExceeded string string int
  | CheckpointWriteFailed string
  | DispatchFailed dispatch_step_error
  | NoDispatcherConfigured string string
  | StepMergeFailed string string string string
  | MissingPermissionProfileStamp string string
  | CoordRefused coord_op string "string option" string
  | PreflightPremiseFailed string string string "string list"
  | PreflightUnjudged string string string

definition debug_opt :: "string option \<Rightarrow> string" where
  "debug_opt v = (case v of None \<Rightarrow> ''None'' | Some s \<Rightarrow> ''Some('' @ debug_str s @ '')'')"

definition state_write_text :: "string \<Rightarrow> string \<Rightarrow> string" where
  "state_write_text repo block = (''block '' @ [CHR 0x27]) @ block @ ([CHR 0x27] @ '' (repo '' @ [CHR 0x27]) @ repo @ ([CHR 0x27] @ '') state write verification failed: '')"

definition block_of_repo :: "string \<Rightarrow> string \<Rightarrow> string" where
  "block_of_repo repo block = (''block '' @ [CHR 0x27]) @ block @ ([CHR 0x27] @ '' (repo '' @ [CHR 0x27]) @ repo @ ([CHR 0x27] @ '') '')"

text \<open>A duration's \<open>{:?}\<close> is a parameter.\<close>

fun integrate_error_text :: "(int \<Rightarrow> string) \<Rightarrow> integrate_error \<Rightarrow> string" where
  "integrate_error_text dur (GateRefused e) = gate_error_text e"
| "integrate_error_text dur (PermissionRefused e) = permission_gate_error_text e"
| "integrate_error_text dur (ExecuteFailed e) = execute_error_text e"
| "integrate_error_text dur (StateWriteUnreadable repo block path source) = state_write_text repo block @
     ''could not read '' @ path @ '': '' @ source"
| "integrate_error_text dur (StateWriteMalformed repo block path source) = state_write_text repo block @
     ''malformed JSON at '' @ path @ '': '' @ source"
| "integrate_error_text dur (StateWriteMismatch repo block path found) = state_write_text repo block @
     (''expected '' @ [CHR 0x22] @ ''status'' @ [CHR 0x22] @ '': '' @ [CHR 0x22] @ ''done'' @ [CHR 0x22] @
       '' at '') @ path @ '', found '' @ debug_opt found"
| "integrate_error_text dur (FinalValidationGateFailed repo block path summary) = state_write_text repo block @
     ([CHR 0x22] @ ''status'' @ [CHR 0x22] @ '': '' @ [CHR 0x22] @ ''done'' @ [CHR 0x22] @ '' at '') @ path @ '' but final_validation.all_passed was false: '' @ summary"
| "integrate_error_text dur (BlockIdMismatch repo block path found) = state_write_text repo block @
     ''state file at '' @ path @ ('' carries block_id '' @ [CHR 0x27]) @ found @ ([CHR 0x27] @ '', which disagrees with the executed block '' @ [CHR 0x27]) @
     block @ [CHR 0x27]"
| "integrate_error_text dur (ReconcileFailed repo block path summary) = block_of_repo repo block @
     ''reconcile failed and is NOT closed (state file at '' @ path @
     ('' reads '' @ [CHR 0x22] @ ''status'' @ [CHR 0x22] @ '': '' @ [CHR 0x22] @ ''reconcile_failed'' @
       [CHR 0x22] @ ''): '') @ summary"
| "integrate_error_text dur (LaneLogWriteFailed path source) = ''failed to append to '' @ path @ '': '' @ source"
| "integrate_error_text dur (HoldDeadlineExceeded repo block d) = block_of_repo repo block @
     ''operator hold deadline exceeded: still held after '' @ dur d @
     ('' with no clearance '' @ [CHR 0xE2, CHR 0x80, CHR 0x94] @ '' check the operator queue for this block'')"
| "integrate_error_text dur (CheckpointWriteFailed source) = ''failed to write checkpoint: '' @ source"
| "integrate_error_text dur (DispatchFailed e) = dispatch_step_error_text e"
| "integrate_error_text dur (NoDispatcherConfigured repo block) = (''dispatch step '' @ [CHR 0x27]) @ block @ ([CHR 0x27] @ '' (repo '' @ [CHR 0x27]) @ repo @
     ([CHR 0x27] @ '') has no Dispatcher configured for this chain run '' @ [CHR 0xE2, CHR 0x80, CHR 0x94] @
       '' cannot resolve its workflow key'')"
| "integrate_error_text dur (StepMergeFailed repo block branch err) = block_of_repo repo block @
     (''integrated but its branch '' @ [CHR 0x27]) @ branch @ ([CHR 0x27] @ '' could not be merged into main and pushed: '') @ err"
| "integrate_error_text dur (MissingPermissionProfileStamp repo block) = block_of_repo repo block @
     (''refused: its about-to-be-written closed lane-log record carries no resolved permission-profile '' @
       ''stamp (docs/permission-profiles.md invariant 1)'')"
| "integrate_error_text dur (CoordRefused op repo block reason) =
     (case block of
        Some b \<Rightarrow> block_of_repo repo b @ ''coordination '' @ coord_op_str op @ '' refused: '' @ reason
      | None \<Rightarrow> (''chain registration (repo '' @ [CHR 0x27]) @ repo @ ([CHR 0x27] @ '') coordination '') @ coord_op_str op @ '' refused: '' @ reason)"
| "integrate_error_text dur (PreflightPremiseFailed repo block claim argv) = block_of_repo repo block @
     (''refused: preflight'' @ [CHR 0x27] @ ''s load-bearing claim '' @ [CHR 0x27]) @ claim @ ([CHR 0x27] @ '' (argv '') @ debug_strs argv @ '') did not hold''"
| "integrate_error_text dur (PreflightUnjudged repo block kind) = block_of_repo repo block @
     ''refused: preflight was unjudged ('' @ kind @ ('') and preflight_on_unjudged is '' @ [CHR 0x27] @ ''bail'' @ [CHR 0x27])"

subsection \<open>The operator's hold\<close>

text \<open>
  One poll: whether the block is held, the time of the check, and whether an abort ended the sleep after it. A
  wait that never ends is \<open>None\<close>.
\<close>

record hold_poll =
  hp_held :: bool
  hp_time :: timestamp
  hp_aborted :: bool

partial_function (option) wait_for_clearance ::
  "(nat \<Rightarrow> hold_poll) \<Rightarrow> integrate_error \<Rightarrow> timestamp option \<Rightarrow> nat \<Rightarrow> integrate_error option option" where
  "wait_for_clearance polls late deadline_at k =
     (if \<not> hp_held (polls k) then Some None
      else if (case deadline_at of Some d \<Rightarrow> d \<le> hp_time (polls k) | None \<Rightarrow> False) then Some (Some late)
      else if hp_aborted (polls k) then Some None
      else wait_for_clearance polls late deadline_at (Suc k))"

declare wait_for_clearance.simps [code]

subsection \<open>The state write and the merge\<close>

definition state_filename :: "engine_kind \<Rightarrow> string" where
  "state_filename k = (case k of EngineFlow \<Rightarrow> ''sdlc-flow-state.json'' | EngineTask \<Rightarrow> ''sdlc-task-state.json'')"

definition state_path_for :: "string \<Rightarrow> string \<Rightarrow> engine_kind \<Rightarrow> string" where
  "state_path_for path block k =
     path_join (path_join (path_join (path_join path ''planning'') block) ''sdlc'') (state_filename k)"

definition str_field :: "json \<Rightarrow> string \<Rightarrow> string option" where
  "str_field v k = Option.bind (json_get v k) as_str"

definition str_field_or :: "json \<Rightarrow> string \<Rightarrow> string \<Rightarrow> string" where
  "str_field_or v k dflt = (case str_field v k of Some s \<Rightarrow> s | None \<Rightarrow> dflt)"

definition verify_state_value :: "execution_outcome \<Rightarrow> string \<Rightarrow> json \<Rightarrow> integrate_error option" where
  "verify_state_value out path v =
     (let repo = eo_repo out; block = eo_block_id out
      in if str_field v ''status'' = Some ''reconcile_failed''
         then Some (ReconcileFailed repo block path (str_field_or v ''bail_reason'' ''(no bail_reason in state file)''))
         else if str_field v ''status'' \<noteq> Some ''done''
         then Some (StateWriteMismatch repo block path (str_field v ''status''))
         else if str_field v ''block_id'' \<noteq> None \<and> str_field v ''block_id'' \<noteq> Some block
         then Some (BlockIdMismatch repo block path (the (str_field v ''block_id'')))
         else case json_get v ''final_validation'' of
                None \<Rightarrow> None
              | Some fv \<Rightarrow>
                  (if fv \<noteq> JNull \<and> Option.bind (json_get fv ''all_passed'') as_bool = Some False
                   then Some (FinalValidationGateFailed repo block path
                     (str_field_or fv ''failure_summary'' ''(no failure_summary in state file)''))
                   else None))"

definition verify_state_write ::
  "(string \<Rightarrow> file_content) \<Rightarrow> (string \<Rightarrow> string) \<Rightarrow> json_text \<Rightarrow> execution_outcome \<Rightarrow> integrate_error option" where
  "verify_state_write file read_error J out =
     (let path = state_path_for (eo_repo_path out) (eo_block_id out) (eo_engine out)
      in case file path of
           FileText raw \<Rightarrow>
             (case jx_parse J raw of
                Inl e \<Rightarrow> Some (StateWriteMalformed (eo_repo out) (eo_block_id out) path e)
              | Inr v \<Rightarrow> verify_state_value out path v)
         | _ \<Rightarrow> Some (StateWriteUnreadable (eo_repo out) (eo_block_id out) path (read_error path)))"

definition branch_stamp :: "task_context \<Rightarrow> string \<Rightarrow> string option" where
  "branch_stamp ctx i = Option.bind (get_result ctx i) (\<lambda>v. str_field v ''branch_name'')"

definition step_branch_name :: "task_context \<Rightarrow> string option" where
  "step_branch_name ctx = branch_stamp ctx ''SetupWorktreeNode''"

definition resolve_merge_branch :: "task_context \<Rightarrow> string option" where
  "resolve_merge_branch ctx =
     (case branch_stamp ctx ''PullRequestNode'' of Some b \<Rightarrow> Some b | None \<Rightarrow> step_branch_name ctx)"

record merge_push_policy =
  mp_auto_merge :: bool
  mp_auto_push :: bool

fun merge_commands ::
  "command_runner \<Rightarrow> string \<Rightarrow> (string \<Rightarrow> integrate_error) \<Rightarrow> string list list \<Rightarrow> integrate_error option" where
  "merge_commands git path fail [] = None"
| "merge_commands git path fail (args # rest) =
     (case git ''git'' args path of
        Inl source \<Rightarrow> Some (fail ((''failed to spawn '' @ [CHR 0x60] @ ''git '') @ join_with '' '' args @ ([CHR 0x60] @ '': '') @ source))
      | Inr out \<Rightarrow>
          (if co_status out \<noteq> 0 then Some (fail (co_stderr out)) else merge_commands git path fail rest))"

definition merge_step_branch ::
  "command_runner \<Rightarrow> string \<Rightarrow> string \<Rightarrow> string \<Rightarrow> string \<Rightarrow> merge_push_policy \<Rightarrow> integrate_error option" where
  "merge_step_branch git path repo block branch p =
     (if \<not> mp_auto_merge p then None
      else merge_commands git path (StepMergeFailed repo block branch)
        ([[''checkout'', ''main''], [''merge'', ''--no-ff'', branch]] @
         (if mp_auto_push p then [[''push'', ''origin'', ''main'']] else [])))"

subsection \<open>What the driver keeps and does\<close>

datatype on_bail = StopChain | SkipDependents

datatype on_unjudged = UnjudgedProceed | UnjudgedBail

datatype block_presence = BlockRow string | NotInTracks

datatype claim_verdict = ClaimHeld | ClaimFalse | ClaimUnverifiable

record claim_result =
  cm_claim :: string
  cm_argv :: "string list"
  cm_load_bearing :: bool
  cm_exit_code :: "int option"
  cm_stdout_bytes :: nat
  cm_verdict :: claim_verdict
  cm_reason :: "string option"

datatype preflight_outcome =
    PreflightJudged "claim_result list"
  | Unjudged string
  | SkippedNoRecord
  | PreflightDisabled

record block_preflight =
  pf_repo :: string
  pf_block_id :: string
  pf_outcome :: preflight_outcome
  pf_claims :: "claim_result list"
  pf_claims_dropped :: nat

datatype message_kind = LeaseRelease | Rendezvous | EdgeReleased | FindingMessage | QueryMessage

record chain_message =
  mg_id :: string
  mg_kind :: message_kind
  mg_sender_repo :: string
  mg_sender_lane :: string
  mg_subject_repo :: string
  mg_subject_block :: "string option"

datatype inbox_verdict = VerdictAccepted | VerifiedFalse | VerdictDeferred | NotMine

datatype triage_action = TriageNone | TriageEscalate

record processed_message =
  pm_message_id :: string
  pm_kind :: message_kind
  pm_sender_repo :: string
  pm_sender_lane :: string
  pm_verdict :: "inbox_verdict option"
  pm_action :: "triage_action option"
  pm_error_kind :: "string option"
  pm_reply_path :: "string option"

datatype journal_kind =
    StepIntegrated
  | StepBailed
  | JournalGateRefused
  | StateWriteVerificationFailed
  | JournalBudgetHalted
  | ResolvedPolicy
  | RecallConsulted

record journal_item =
  ji_run_id :: uuid
  ji_step :: string
  ji_kind :: journal_kind
  ji_reason :: string
  ji_detail :: json

record skipped_step =
  sk_block :: string
  sk_reason :: string
  sk_blocked_by :: "json option"

record chain_report =
  rp_closed :: "string list"
  rp_bailed :: "string list"
  rp_skipped :: "skipped_step list"

datatype chain_effect =
    LineAppended lane_log_entry
  | LineLost lane_log_entry
  | CheckpointWritten checkpoint
  | CheckpointLost
  | JournalRow journal_item
  | BailRecorded chain_step string string engine_kind string
  | GateAuthored operator_gate_request
  | LeaseTaken string
  | LeaseReleased
  | RendezvousAnswered string
  | EscalationLine json
  | BlockClosed string string
  | StepObserved string string nat nat

text \<open>A bail record has the step, its lane, the check that failed, the engine and the error.\<close>

record coord_env =
  cd_register :: "string \<Rightarrow> string + bool \<times> string option"
  cd_heartbeat :: "nat \<Rightarrow> string option"
  cd_lease :: "nat \<Rightarrow> string option"
  cd_messages :: "nat \<Rightarrow> chain_message option list"

record chain_env =
  ie_depends :: "nat \<Rightarrow> string \<Rightarrow> string \<Rightarrow> dependency_edge list"
  ie_edge_met :: "nat \<Rightarrow> string \<Rightarrow> string \<Rightarrow> bool"
  ie_block_status :: "nat \<Rightarrow> string \<Rightarrow> string \<Rightarrow> block_presence"
  ie_cancelled :: "nat \<Rightarrow> bool"
  ie_cancelled_after_hold :: "nat \<Rightarrow> bool"
  ie_hold :: "nat \<Rightarrow> nat \<Rightarrow> hold_poll"
  ie_hold_start :: "nat \<Rightarrow> timestamp"
  ie_hold_deadline :: "int option"
  ie_duration_str :: "int \<Rightarrow> string"
  ie_budget :: "budget option"
  ie_config :: step_config
  ie_run_flow :: "nat \<Rightarrow> flow_invocation \<Rightarrow> string + task_context"
  ie_launch :: "(nat \<Rightarrow> string \<Rightarrow> dispatch_error + (string + task_context)) option"
  ie_profile :: "nat \<Rightarrow> permission_profile"
  ie_action :: "string \<Rightarrow> string \<Rightarrow> gated_action option"
  ie_author :: "nat \<Rightarrow> operator_gate_request \<Rightarrow> string option"
  ie_coord :: "coord_env option"
  ie_triage :: "(nat \<Rightarrow> chain_message \<Rightarrow> processed_message \<times> json option) option"
  ie_reply_path :: "nat \<Rightarrow> chain_message \<Rightarrow> string option"
  ie_preflight :: "nat \<Rightarrow> string \<Rightarrow> string \<Rightarrow> preflight_outcome"
  ie_on_unjudged :: on_unjudged
  ie_on_bail :: on_bail
  ie_state_file :: "nat \<Rightarrow> string \<Rightarrow> file_content"
  ie_read_error :: "string \<Rightarrow> string"
  ie_json :: json_text
  ie_git :: "nat \<Rightarrow> command_runner"
  ie_merge :: merge_push_policy
  ie_composed :: "nat \<Rightarrow> execution_outcome \<Rightarrow> journal_item list"
  ie_lane :: "string option"
  ie_log_path :: string
  ie_append_error :: "nat \<Rightarrow> string option"
  ie_checkpoint_error :: "nat \<Rightarrow> string option"
  ie_now :: "nat \<Rightarrow> timestamp"
  ie_fresh :: "nat \<Rightarrow> uuid"
  ie_build_sha :: string
  ie_formats :: ext

record chain_state =
  ch_queue :: "chain_step list"
  ch_pass :: nat
  ch_outcomes :: "execution_outcome list"
  ch_blocked :: "(string \<times> string) list"
  ch_skipped :: "chain_step list"
  ch_requeued :: "(string \<times> string) list"
  ch_ledger :: campaign_ledger
  ch_checkpoint :: checkpoint
  ch_pending_skip :: bool
  ch_report :: chain_report
  ch_preflight :: "block_preflight list"
  ch_inbox :: "processed_message list"
  ch_effects :: "chain_effect list"

text \<open>The end of a pass: on to the next step, or out of the loop, with an error or without.\<close>

datatype chain_flow = GoOn chain_state | Leave "integrate_error option" chain_state

type_synonym gate = "chain_state \<Rightarrow> chain_flow + chain_state"

subsection \<open>Writing down\<close>

definition did :: "chain_effect list \<Rightarrow> chain_state \<Rightarrow> chain_state" where
  "did es s = s\<lparr>ch_effects := ch_effects s @ es\<rparr>"

definition step_lane :: "chain_env \<Rightarrow> chain_step \<Rightarrow> string" where
  "step_lane K st = (case ie_lane K of Some l \<Rightarrow> l | None \<Rightarrow> cs_repo st)"

definition pass_line ::
  "chain_env \<Rightarrow> nat \<Rightarrow> lane_log_status \<Rightarrow> chain_step \<Rightarrow> string \<Rightarrow> string option \<Rightarrow> json option \<Rightarrow> lane_log_entry" where
  "pass_line K n status st note rid blocked_by =
     line_with_profile (Some (profile_wire (ie_profile K n))) (line_with_identity (ie_build_sha K) rid
       (lane_log_line (ie_now K n) status (cs_repo st) (cs_block_id st) (step_lane K st) note blocked_by))"

definition append_line :: "chain_env \<Rightarrow> lane_log_entry \<Rightarrow> chain_state \<Rightarrow> chain_state" where
  "append_line K l s = did [if ie_append_error K (ch_pass s) = None then LineAppended l else LineLost l] s"

definition save_checkpoint :: "chain_env \<Rightarrow> chain_state \<Rightarrow> chain_state" where
  "save_checkpoint K s =
     did [if ie_checkpoint_error K (ch_pass s) = None then CheckpointWritten (ch_checkpoint s) else CheckpointLost] s"

definition emit_journal ::
  "uuid \<Rightarrow> chain_step \<Rightarrow> journal_kind \<Rightarrow> string \<Rightarrow> json \<Rightarrow> chain_state \<Rightarrow> chain_state" where
  "emit_journal rid st kind reason detail = did [JournalRow \<lparr>ji_run_id = rid, ji_step = cs_block_id st, ji_kind = kind,
     ji_reason = reason, ji_detail = detail\<rparr>]"

definition error_text :: "chain_env \<Rightarrow> integrate_error \<Rightarrow> string" where
  "error_text K = integrate_error_text (ie_duration_str K)"

definition record_bail :: "chain_env \<Rightarrow> chain_step \<Rightarrow> string \<Rightarrow> string \<Rightarrow> chain_state \<Rightarrow> chain_state" where
  "record_bail K st check_id reason = did [BailRecorded st (step_lane K st) check_id
     (sc_engine (ie_config K) (cs_repo st) (cs_block_id st)) reason]"

definition journal_run_id :: "ext \<Rightarrow> uuid \<Rightarrow> task_context option \<Rightarrow> uuid" where
  "journal_run_id X fresh ctx =
     (case Option.bind (Option.bind ctx (\<lambda>c. read_run_id (metadata c))) (uuid_parse X) of Some u \<Rightarrow> u | None \<Rightarrow> fresh)"

definition collect_new :: "string list \<Rightarrow> string list" where
  "collect_new xs = fold (\<lambda>x acc. if x \<in> set acc then acc else acc @ [x]) xs []"

definition single_or_list :: "string list \<Rightarrow> json" where
  "single_or_list vs = (case vs of [] \<Rightarrow> JNull | [v] \<Rightarrow> JStr v | _ \<Rightarrow> json_strs vs)"

definition resolved_policy_detail :: "task_context \<Rightarrow> engine_kind \<Rightarrow> json" where
  "resolved_policy_detail ctx k =
     JObj [(''profile'', case json_get (event ctx) ''profile'' of Some v \<Rightarrow> v | None \<Rightarrow> JNull),
       (''model_tier'', single_or_list (collect_new (filter (\<lambda>m. m \<noteq> [])
          (List.map_filter (\<lambda>(i, r). map_option model (nr_usage r)) (node_runs ctx))))),
       (''transport'', single_or_list (collect_new
          (List.map_filter (\<lambda>(i, v). Option.bind (json_get v ''transport'') (\<lambda>t. str_field t ''tier'')) (nodes ctx)))),
       (''executor'', JStr (engine_kind_str k))]"

subsection \<open>Leaving a step behind\<close>

definition bail_or_skip :: "chain_env \<Rightarrow> chain_step \<Rightarrow> integrate_error \<Rightarrow> chain_state \<Rightarrow> chain_flow" where
  "bail_or_skip K st e s =
     (let s' = s\<lparr>ch_blocked := step_key st # ch_blocked s,
            ch_report := (ch_report s)\<lparr>rp_bailed := rp_bailed (ch_report s) @ [step_label st]\<rparr>\<rparr>
      in case ie_on_bail K of StopChain \<Rightarrow> Leave (Some e) s' | SkipDependents \<Rightarrow> GoOn s')"

definition skip_step :: "chain_env \<Rightarrow> chain_step \<Rightarrow> string \<Rightarrow> json option \<Rightarrow> chain_state \<Rightarrow> chain_flow" where
  "skip_step K st reason blocked_by s =
     (let s1 = append_line K (pass_line K (ch_pass s) LaneSkipped st reason None blocked_by) s
      in GoOn (s1\<lparr>ch_blocked := step_key st # ch_blocked s1,
           ch_report := (ch_report s1)\<lparr>rp_skipped := rp_skipped (ch_report s1) @
             [\<lparr>sk_block = step_label st, sk_reason = reason, sk_blocked_by = blocked_by\<rparr>]\<rparr>,
           ch_skipped := ch_skipped s1 @ [st]\<rparr>))"

text \<open>The line and the checkpoint of a step that failed, both best-effort.\<close>

definition log_bail :: "chain_env \<Rightarrow> chain_step \<Rightarrow> string \<Rightarrow> string option \<Rightarrow> chain_state \<Rightarrow> chain_state" where
  "log_bail K st note rid s =
     save_checkpoint K (append_line K (pass_line K (ch_pass s) LaneBailed st note rid None) s)"

definition stop_at_boundary :: "chain_env \<Rightarrow> lane_log_status \<Rightarrow> chain_step \<Rightarrow> string \<Rightarrow> chain_state \<Rightarrow> chain_state" where
  "stop_at_boundary K status st note s =
     save_checkpoint K (append_line K (pass_line K (ch_pass s) status st note None None) s)"

subsection \<open>The inbox\<close>

definition handle_edge_released ::
  "chain_message \<Rightarrow> chain_step list \<Rightarrow> (string \<Rightarrow> string \<Rightarrow> dependency_edge list) \<Rightarrow> (string \<Rightarrow> string \<Rightarrow> bool) \<Rightarrow>
   inbox_verdict \<times> chain_step option" where
  "handle_edge_released m skipped depends met =
     (case mg_subject_block m of
        None \<Rightarrow> (NotMine, None)
      | Some released \<Rightarrow>
          (case find (\<lambda>st. EdgeBlock (mg_subject_repo m) released \<in> set (depends (cs_repo st) (cs_block_id st))) skipped of
             None \<Rightarrow> (NotMine, None)
           | Some st \<Rightarrow> (case check_dependencies st depends met of
                 None \<Rightarrow> (VerdictAccepted, Some st) | Some _ \<Rightarrow> (VerifiedFalse, None))))"

text \<open>At most one requeue for a step.\<close>

definition requeue :: "chain_step \<Rightarrow> chain_state \<Rightarrow> chain_state" where
  "requeue st s =
     (if step_key st \<in> set (ch_requeued s) then s
      else s\<lparr>ch_requeued := step_key st # ch_requeued s,
             ch_skipped := filter (\<lambda>t. step_key t \<noteq> step_key st) (ch_skipped s), ch_queue := ch_queue s @ [st]\<rparr>)"

definition drain_message :: "chain_env \<Rightarrow> chain_message \<Rightarrow> chain_state \<Rightarrow> chain_state" where
  "drain_message K m s =
     (case mg_kind m of
        LeaseRelease \<Rightarrow> did [LeaseReleased] s
      | Rendezvous \<Rightarrow> did [RendezvousAnswered (mg_id m)] s
      | EdgeReleased \<Rightarrow>
          (if ie_triage K = None then s
           else case handle_edge_released m (ch_skipped s) (ie_depends K (ch_pass s)) (ie_edge_met K (ch_pass s)) of
             (verdict, again) \<Rightarrow>
               (let s1 = (case again of Some st \<Rightarrow> requeue st s | None \<Rightarrow> s)
                in s1\<lparr>ch_inbox := ch_inbox s1 @ [\<lparr>pm_message_id = mg_id m, pm_kind = mg_kind m,
                     pm_sender_repo = mg_sender_repo m, pm_sender_lane = mg_sender_lane m, pm_verdict = Some verdict,
                     pm_action = None, pm_error_kind = None, pm_reply_path = ie_reply_path K (ch_pass s) m\<rparr>]\<rparr>))
      | _ \<Rightarrow> (case ie_triage K of None \<Rightarrow> s
             | Some judge \<Rightarrow>
                 (case judge (ch_pass s) m of
                    (processed, escalation) \<Rightarrow>
                      did (case escalation of Some j \<Rightarrow> [EscalationLine j] | None \<Rightarrow> [])
                        (s\<lparr>ch_inbox := ch_inbox s @ [processed]\<rparr>))))"

definition drain_inbox :: "chain_env \<Rightarrow> chain_state \<Rightarrow> chain_state" where
  "drain_inbox K s =
     (case ie_coord K of
        None \<Rightarrow> s
      | Some c \<Rightarrow> fold (\<lambda>m s. case m of Some msg \<Rightarrow> drain_message K msg s | None \<Rightarrow> s) (cd_messages c (ch_pass s)) s)"

subsection \<open>The boundary\<close>

definition recall_gate :: gate where
  "recall_gate s = (if ch_pending_skip s then Inl (GoOn (s\<lparr>ch_pending_skip := False\<rparr>)) else Inr s)"

definition cancel_gate :: "chain_env \<Rightarrow> chain_step \<Rightarrow> gate" where
  "cancel_gate K st s =
     (if ie_cancelled K (ch_pass s)
      then Inl (Leave None (stop_at_boundary K LaneCancelled st (''campaign cancelled at the block boundary before '' @
        cs_block_id st @ '' started; every earlier block in this chain already finished and committed'') s))
      else Inr s)"

definition budget_gate :: "chain_env \<Rightarrow> chain_step \<Rightarrow> gate" where
  "budget_gate K st s =
     (case campaign_check (ch_ledger s) (ie_budget K) of
        budget_decision.Allow \<Rightarrow> Inr s
      | Halt reason \<Rightarrow>
          (let before = ''campaign budget ceiling tripped before block '' @ cs_block_id st @ '' started'';
               s1 = stop_at_boundary K LaneBudgetHalted st (before @ '': '' @ jx_print (ie_json K) (halt_reason_to_json reason)) s
           in Inl (Leave None (emit_journal (ie_fresh K (ch_pass s)) st JournalBudgetHalted before
                (halt_reason_to_json reason) s1))))"

definition status_skip_reason :: "block_presence \<Rightarrow> string option" where
  "status_skip_reason p = (case p of
     BlockRow status \<Rightarrow>
       (if status \<in> {''closed'', ''wontfix'', ''superseded'', ''deferred''}
        then Some ((''block status is '' @ [CHR 0x27]) @ status @ ([CHR 0x27] @ ''; not dispatched'')) else None)
   | NotInTracks \<Rightarrow> Some ''block id is not in tracks[]; not dispatched'')"

definition status_gate :: "chain_env \<Rightarrow> chain_step \<Rightarrow> gate" where
  "status_gate K st s =
     (case status_skip_reason (ie_block_status K (ch_pass s) (cs_repo st) (cs_block_id st)) of
        Some reason \<Rightarrow> Inl (skip_step K st reason None s) | None \<Rightarrow> Inr s)"

definition blocking_edge :: "(string \<times> string) list \<Rightarrow> dependency_edge list \<Rightarrow> dependency_edge option" where
  "blocking_edge blocked = find (\<lambda>e. case e of EdgeBlock r b \<Rightarrow> (r, b) \<in> set blocked | _ \<Rightarrow> False)"

definition chain_edge_gate :: "chain_env \<Rightarrow> chain_step \<Rightarrow> gate" where
  "chain_edge_gate K st s =
     (case blocking_edge (ch_blocked s) (ie_depends K (ch_pass s) (cs_repo st) (cs_block_id st)) of
        None \<Rightarrow> Inr s
      | Some e \<Rightarrow>
          (let j = dependency_edge_to_json e
           in Inl (skip_step K st (''skipped: blocked by an earlier bailed or skipped step in this chain ('' @
                jx_print (ie_json K) j @ '')'') (Some j) s)))"

definition refuse_or_skip :: "chain_env \<Rightarrow> chain_step \<Rightarrow> integrate_error \<Rightarrow> json \<Rightarrow> dependency_edge \<Rightarrow> chain_state \<Rightarrow> chain_flow" where
  "refuse_or_skip K st e detail edge s =
     (let s1 = emit_journal (ie_fresh K (ch_pass s)) st JournalGateRefused (error_text K e) detail s
      in case ie_on_bail K of
           StopChain \<Rightarrow> Leave (Some e) s1
         | SkipDependents \<Rightarrow> skip_step K st (error_text K e) (Some (dependency_edge_to_json edge)) s1)"

definition dependency_gate :: "chain_env \<Rightarrow> chain_step \<Rightarrow> gate" where
  "dependency_gate K st s =
     (case check_dependencies st (ie_depends K (ch_pass s)) (ie_edge_met K (ch_pass s)) of
        None \<Rightarrow> Inr s
      | Some err \<Rightarrow> Inl (refuse_or_skip K st (GateRefused err) (JObj [])
          (case err of UnmetDependency r b edge \<Rightarrow> edge) s))"

definition permission_gate :: "chain_env \<Rightarrow> chain_step \<Rightarrow> gate" where
  "permission_gate K st s =
     (case ie_action K (cs_repo st) (cs_block_id st) of
        None \<Rightarrow> Inr s
      | Some a \<Rightarrow>
          (let p = ie_profile K (ch_pass s)
           in case check_permission_gate st a p (ie_author K (ch_pass s)) of
                None \<Rightarrow> Inr s
              | Some err \<Rightarrow> Inl (refuse_or_skip K st (PermissionRefused err)
                  (JObj [(''action'', JStr (gated_action_wire a)), (''profile'', JStr (profile_wire p))])
                  (EdgeOperator (permission_gate_slug a)) (did [GateAuthored (build_operator_gate_request a p)] s))))"

definition boundary_gates :: "chain_env \<Rightarrow> chain_step \<Rightarrow> gate" where
  "boundary_gates K st s =
     bind_result (recall_gate s) (\<lambda>s.
     bind_result (cancel_gate K st s) (\<lambda>s.
     bind_result (budget_gate K st s) (\<lambda>s.
     bind_result (status_gate K st s) (\<lambda>s.
     bind_result (chain_edge_gate K st s) (\<lambda>s.
     bind_result (dependency_gate K st s) (permission_gate K st))))))"

definition hold_gate :: "chain_env \<Rightarrow> chain_step \<Rightarrow> integrate_error option \<Rightarrow> gate" where
  "hold_gate K st waited s =
     (case waited of
        Some e \<Rightarrow> Inl (bail_or_skip K st e (record_bail K st ''operator-hold'' (error_text K e)
          (log_bail K st (error_text K e) None s)))
      | None \<Rightarrow>
          (if ie_cancelled_after_hold K (ch_pass s)
           then Inl (Leave None (stop_at_boundary K LaneCancelled st (''campaign cancelled while '' @ cs_block_id st @
             ('' was parked on an operator hold; every earlier block in this chain already finished and '' @
       ''committed'')) s))
           else Inr s))"

definition refuse_coord :: "chain_env \<Rightarrow> chain_step \<Rightarrow> string \<Rightarrow> string \<Rightarrow> chain_state \<Rightarrow> chain_state" where
  "refuse_coord K st check_id reason s =
     record_bail K st check_id reason (append_line K (pass_line K (ch_pass s) LaneHeld st reason None None) s)"

definition coord_refused :: "coord_op \<Rightarrow> chain_step \<Rightarrow> string \<Rightarrow> integrate_error" where
  "coord_refused op st reason = CoordRefused op (cs_repo st) (Some (cs_block_id st)) reason"

definition coord_gate :: "chain_env \<Rightarrow> chain_step \<Rightarrow> gate" where
  "coord_gate K st s =
     (case ie_coord K of
        None \<Rightarrow> Inr s
      | Some c \<Rightarrow>
          (case cd_heartbeat c (ch_pass s) of
             Some reason \<Rightarrow> Inl (Leave (Some (coord_refused CoordHeartbeat st reason))
               (refuse_coord K st ''coord-heartbeat-failed'' reason s))
           | None \<Rightarrow>
               (case cd_lease c (ch_pass s) of
                  Some reason \<Rightarrow> Inl (bail_or_skip K st (coord_refused CoordLease st reason)
                    (refuse_coord K st ''coord-lease-refused'' reason s))
                | None \<Rightarrow> Inr (did [LeaseTaken (cs_block_id st)] s))))"

subsection \<open>Dispatch steps\<close>

definition f64_max :: "f64 \<Rightarrow> f64 \<Rightarrow> f64" where
  "f64_max a b = (if a = NaN then b else if b = NaN then a else if f64_le a b then b else a)"

definition best_score :: "json list \<Rightarrow> f64 option" where
  "best_score results = fold (\<lambda>x m. Some (case m of None \<Rightarrow> x | Some y \<Rightarrow> f64_max y x))
     (List.map_filter (\<lambda>r. Option.bind (json_get r ''score'') as_f64) results) None"

record recall_result =
  rc_query :: string
  rc_count :: u64
  rc_top_score :: "f64 option"

definition read_recall :: "task_context \<Rightarrow> recall_result" where
  "read_recall ctx =
     (let r = get_result ctx ''RecallNode''
      in \<lparr>rc_query = (case Option.bind r (\<lambda>v. str_field v ''query'') of Some q \<Rightarrow> q | None \<Rightarrow> []),
          rc_count = (case Option.bind (Option.bind r (\<lambda>v. json_get v ''count'')) as_u64 of Some n \<Rightarrow> n | None \<Rightarrow> 0),
          rc_top_score = Option.bind (Option.bind (Option.bind r (\<lambda>v. json_get v ''results'')) as_array) best_score\<rparr>)"

definition consult_recall :: "uuid \<Rightarrow> chain_step \<Rightarrow> task_context \<Rightarrow> chain_state \<Rightarrow> chain_state" where
  "consult_recall rid st ctx s =
     (let r = read_recall ctx; skip = (rc_count r = 0)
      in emit_journal rid st RecallConsulted
           ((''recall step '' @ [CHR 0x27]) @ cs_block_id st @ ([CHR 0x27] @ '' returned '') @ decimal (unat (rc_count r)) @
            '' result(s); next step '' @ (if skip then ''skipped'' else ''runs''))
           (JObj [(''query'', JStr (rc_query r)), (''count'', JNum (PosInt (rc_count r))),
              (''top_score'', json_of_opt json_of_f64 (rc_top_score r)),
              (''branch'', JStr (if skip then ''skipped-next'' else ''ran-next''))])
           (s\<lparr>ch_pending_skip := skip\<rparr>))"

definition stop_dispatch :: "chain_env \<Rightarrow> chain_step \<Rightarrow> integrate_error \<Rightarrow> chain_state \<Rightarrow> chain_flow" where
  "stop_dispatch K st e s =
     Leave (Some e) (emit_journal (ie_fresh K (ch_pass s)) st StepBailed (error_text K e) (JObj []) s)"

definition dispatch_branch :: "chain_env \<Rightarrow> chain_step \<Rightarrow> chain_state \<Rightarrow> chain_flow" where
  "dispatch_branch K st s =
     (case ie_launch K of
        None \<Rightarrow> stop_dispatch K st (NoDispatcherConfigured (cs_repo st) (cs_block_id st)) s
      | Some launch \<Rightarrow>
          (case execute_dispatch_step (launch (ch_pass s)) st of
             Inl err \<Rightarrow> stop_dispatch K st (DispatchFailed err) s
           | Inr out \<Rightarrow>
               (let rid = journal_run_id (ie_formats K) (ie_fresh K (ch_pass s)) (Some (do_ctx out))
                in GoOn (if do_workflow_key out = ''RECALL'' then consult_recall rid st (do_ctx out) s
                     else emit_journal rid st StepIntegrated
                       ((''dispatch step '' @ [CHR 0x27]) @ cs_block_id st @ ([CHR 0x27] @ '' completed via workflow key '' @ [CHR 0x27]) @
                        do_workflow_key out @ [CHR 0x27])
                       (JObj [(''workflow_key'', JStr (do_workflow_key out))]) s))))"

subsection \<open>Block steps\<close>

definition false_premise :: "preflight_outcome \<Rightarrow> claim_result option" where
  "false_premise p = (case p of
     PreflightJudged claims \<Rightarrow> find (\<lambda>c. cm_load_bearing c \<and> cm_verdict c = ClaimFalse) claims | _ \<Rightarrow> None)"

definition outcome_claims :: "preflight_outcome \<Rightarrow> claim_result list" where
  "outcome_claims p = (case p of PreflightJudged claims \<Rightarrow> claims | _ \<Rightarrow> [])"

definition note_preflight :: "chain_step \<Rightarrow> preflight_outcome \<Rightarrow> chain_state \<Rightarrow> chain_state" where
  "note_preflight st p s = s\<lparr>ch_preflight := ch_preflight s @ [\<lparr>pf_repo = cs_repo st, pf_block_id = cs_block_id st,
     pf_outcome = p, pf_claims = outcome_claims p, pf_claims_dropped = 0\<rparr>]\<rparr>"

definition preflight_bail ::
  "chain_env \<Rightarrow> chain_step \<Rightarrow> string \<Rightarrow> string \<Rightarrow> integrate_error \<Rightarrow> preflight_outcome \<Rightarrow> chain_state \<Rightarrow> chain_flow" where
  "preflight_bail K st check_id reason e p s =
     bail_or_skip K st e (note_preflight st p (record_bail K st check_id reason (log_bail K st reason None s)))"

definition unjudged_note :: "preflight_outcome \<Rightarrow> string option" where
  "unjudged_note p = (case p of Unjudged kind \<Rightarrow> Some (''preflight: unjudged('' @ kind @ '')'') | _ \<Rightarrow> None)"

definition preflight_gate :: "chain_env \<Rightarrow> chain_step \<Rightarrow> gate" where
  "preflight_gate K st s =
     (let p = ie_preflight K (ch_pass s) (cs_repo st) (cs_block_id st)
      in case false_premise p of
           Some c \<Rightarrow> Inl (preflight_bail K st ''preflight-premise''
             ((''preflight: load-bearing claim '' @ [CHR 0x27]) @ cm_claim c @ ([CHR 0x27] @ '' (argv '') @ debug_strs (cm_argv c) @
              '') did not hold its expectation'')
             (PreflightPremiseFailed (cs_repo st) (cs_block_id st) (cm_claim c) (cm_argv c)) p s)
         | None \<Rightarrow>
             (case p of
                Unjudged kind \<Rightarrow>
                  (if ie_on_unjudged K = UnjudgedBail
                   then Inl (preflight_bail K st ''preflight-unjudged'' (''preflight: unjudged('' @ kind @ '')'')
                     (PreflightUnjudged (cs_repo st) (cs_block_id st) kind) p s)
                   else Inr (note_preflight st p s))
              | _ \<Rightarrow> Inr (note_preflight st p s)))"

definition pass_execute :: "chain_env \<Rightarrow> chain_step \<Rightarrow> nat \<Rightarrow> execute_error + execution_outcome" where
  "pass_execute K st n = execute_step (ie_config K) (ie_run_flow K n) (ie_profile K n) None st"

definition execute_failed :: "chain_env \<Rightarrow> chain_step \<Rightarrow> integrate_error \<Rightarrow> chain_state \<Rightarrow> chain_flow" where
  "execute_failed K st e s =
     bail_or_skip K st e (emit_journal (ie_fresh K (ch_pass s)) st StepBailed (error_text K e) (JObj [])
       (record_bail K st ''orchestration-step'' (error_text K e) (log_bail K st (error_text K e) None s)))"

definition step_run_id :: "chain_env \<Rightarrow> nat \<Rightarrow> execution_outcome \<Rightarrow> uuid" where
  "step_run_id K n out = journal_run_id (ie_formats K) (ie_fresh K n) (Some (eo_ctx out))"

definition run_id_text :: "chain_env \<Rightarrow> nat \<Rightarrow> execution_outcome \<Rightarrow> string" where
  "run_id_text K n out = uuid_str (ie_formats K) (step_run_id K n out)"

definition outcome_failed ::
  "chain_env \<Rightarrow> chain_step \<Rightarrow> execution_outcome \<Rightarrow> journal_kind \<Rightarrow> integrate_error \<Rightarrow> chain_state \<Rightarrow> chain_flow" where
  "outcome_failed K st out kind e s =
     bail_or_skip K st e (emit_journal (step_run_id K (ch_pass s) out) st kind (error_text K e) (JObj [])
       (log_bail K st (error_text K e) (Some (run_id_text K (ch_pass s) out)) s))"

definition journal_policy :: "chain_env \<Rightarrow> chain_step \<Rightarrow> execution_outcome \<Rightarrow> chain_state \<Rightarrow> chain_state" where
  "journal_policy K st out s = emit_journal (step_run_id K (ch_pass s) out) st ResolvedPolicy
     ''resolved policy for this step, read after execution'' (resolved_policy_detail (eo_ctx out) (eo_engine out)) s"

definition pass_verify :: "chain_env \<Rightarrow> nat \<Rightarrow> execution_outcome \<Rightarrow> integrate_error option" where
  "pass_verify K n = verify_state_write (ie_state_file K n) (ie_read_error K) (ie_json K)"

definition verify_gate :: "chain_env \<Rightarrow> chain_step \<Rightarrow> execution_outcome \<Rightarrow> gate" where
  "verify_gate K st out s =
     (case pass_verify K (ch_pass s) out of
        Some e \<Rightarrow> Inl (outcome_failed K st out StateWriteVerificationFailed e s) | None \<Rightarrow> Inr s)"

definition pass_merge :: "chain_env \<Rightarrow> chain_step \<Rightarrow> nat \<Rightarrow> execution_outcome \<Rightarrow> integrate_error option" where
  "pass_merge K st n out = Option.bind (resolve_merge_branch (eo_ctx out)) (\<lambda>branch.
     merge_step_branch (ie_git K n) (eo_repo_path out) (cs_repo st) (cs_block_id st) branch (ie_merge K))"

definition merge_gate :: "chain_env \<Rightarrow> chain_step \<Rightarrow> execution_outcome \<Rightarrow> gate" where
  "merge_gate K st out s =
     (case pass_merge K st (ch_pass s) out of
        Some e \<Rightarrow> Inl (outcome_failed K st out StepBailed e s) | None \<Rightarrow> Inr s)"

subsection \<open>Integrating a step\<close>

text \<open>The line of an integrated step comes first; a failure to write it, or the checkpoint after it, ends the chain.\<close>

definition closed_note :: "chain_env \<Rightarrow> nat \<Rightarrow> chain_step \<Rightarrow> string" where
  "closed_note K n st = ''block '' @ cs_block_id st @ '' closed via SDLC_FLOW'' @
     (case unjudged_note (ie_preflight K n (cs_repo st) (cs_block_id st)) of Some note \<Rightarrow> ''; '' @ note | None \<Rightarrow> [])"

definition closed_line :: "chain_env \<Rightarrow> nat \<Rightarrow> chain_step \<Rightarrow> execution_outcome \<Rightarrow> lane_log_entry" where
  "closed_line K n st out =
     line_with_profile (Some (profile_wire (ie_profile K n)))
       (line_with_identity (ie_build_sha K) (Some (run_id_text K n out))
         (lane_log_line (ie_now K n) LaneClosed (eo_repo out) (eo_block_id out) (step_lane K st) (closed_note K n st)
           None))"

definition integrated_entry :: "nat \<Rightarrow> chain_step \<Rightarrow> execution_outcome \<Rightarrow> checkpoint_step" where
  "integrated_entry before st out = \<lparr>kp_repo = cs_repo st, kp_block_id = cs_block_id st, kp_index = of_nat before + 1,
     kp_integrated = True, kp_branch = step_branch_name (eo_ctx out)\<rparr>"

definition after_line :: "chain_env \<Rightarrow> chain_step \<Rightarrow> execution_outcome \<Rightarrow> chain_state \<Rightarrow> chain_state" where
  "after_line K st out s =
     emit_journal (step_run_id K (ch_pass s) out) st StepIntegrated
       (''block '' @ cs_block_id st @ '' closed via SDLC_FLOW'') (JObj [])
       (did [BlockClosed (cs_repo st) (cs_block_id st)] (did (map JournalRow (ie_composed K (ch_pass s) out)) s))"

definition extend_checkpoint :: "chain_step \<Rightarrow> execution_outcome \<Rightarrow> chain_state \<Rightarrow> chain_state" where
  "extend_checkpoint st out s = s\<lparr>ch_checkpoint := (ch_checkpoint s)\<lparr>kp_steps := kp_steps (ch_checkpoint s) @
     [integrated_entry (length (ch_outcomes s)) st out]\<rparr>\<rparr>"

definition count_step :: "nat \<Rightarrow> chain_step \<Rightarrow> execution_outcome \<Rightarrow> chain_state \<Rightarrow> chain_state" where
  "count_step steps st out s =
     did [StepObserved (cs_repo st) (cs_block_id st) (Suc (length (ch_outcomes s))) steps]
       (s\<lparr>ch_ledger := record_step (eo_cost_usd out) (eo_total_tokens out) (ch_ledger s),
          ch_report := (ch_report s)\<lparr>rp_closed := rp_closed (ch_report s) @ [step_label st]\<rparr>,
          ch_outcomes := ch_outcomes s @ [out]\<rparr>)"

definition integrate_step :: "chain_env \<Rightarrow> nat \<Rightarrow> chain_step \<Rightarrow> execution_outcome \<Rightarrow> chain_state \<Rightarrow> chain_flow" where
  "integrate_step K steps st out s =
     (let line = closed_line K (ch_pass s) st out; s1 = append_line K line s
      in if ll_profile line = None then Leave (Some (MissingPermissionProfileStamp (cs_repo st) (cs_block_id st))) s
         else case ie_append_error K (ch_pass s) of
           Some source \<Rightarrow> Leave (Some (LaneLogWriteFailed (ie_log_path K) source)) s1
         | None \<Rightarrow>
             (let s2 = save_checkpoint K (extend_checkpoint st out (after_line K st out s1))
              in case ie_checkpoint_error K (ch_pass s) of
                   Some source \<Rightarrow> Leave (Some (CheckpointWriteFailed source)) s2
                 | None \<Rightarrow> GoOn (count_step steps st out s2)))"

definition block_branch :: "chain_env \<Rightarrow> nat \<Rightarrow> chain_step \<Rightarrow> chain_state \<Rightarrow> chain_flow" where
  "block_branch K steps st s =
     (case preflight_gate K st s of
        Inl f \<Rightarrow> f
      | Inr s \<Rightarrow>
          (case pass_execute K st (ch_pass s) of
             Inl err \<Rightarrow> execute_failed K st (ExecuteFailed err) s
           | Inr out \<Rightarrow>
               (case bind_result (verify_gate K st out (journal_policy K st out s)) (merge_gate K st out) of
                  Inl f \<Rightarrow> f | Inr s \<Rightarrow> integrate_step K steps st out s)))"

subsection \<open>The loop\<close>

definition flow_map :: "(chain_state \<Rightarrow> chain_state) \<Rightarrow> chain_flow \<Rightarrow> chain_flow" where
  "flow_map g f = (case f of GoOn s \<Rightarrow> GoOn (g s) | Leave e s \<Rightarrow> Leave e (g s))"

text \<open>The lease is given back on every way out of a pass that took one.\<close>

definition release_lease :: "chain_env \<Rightarrow> chain_state \<Rightarrow> chain_state" where
  "release_lease K = did (if ie_coord K = None then [] else [LeaseReleased])"

definition leased_branch :: "chain_env \<Rightarrow> nat \<Rightarrow> chain_step \<Rightarrow> chain_state \<Rightarrow> chain_flow" where
  "leased_branch K steps st s = flow_map (release_lease K)
     (if cs_kind st = DispatchStep then dispatch_branch K st s else block_branch K steps st s)"

definition pass_wait :: "chain_env \<Rightarrow> nat \<Rightarrow> chain_step \<Rightarrow> integrate_error option option" where
  "pass_wait K n st =
     wait_for_clearance (ie_hold K n)
       (HoldDeadlineExceeded (cs_repo st) (cs_block_id st) (case ie_hold_deadline K of Some d \<Rightarrow> d | None \<Rightarrow> 0))
       (map_option (\<lambda>d. ie_hold_start K n + d) (ie_hold_deadline K)) 0"

definition after_wait :: "chain_env \<Rightarrow> nat \<Rightarrow> chain_step \<Rightarrow> chain_state \<Rightarrow> integrate_error option \<Rightarrow> chain_flow" where
  "after_wait K steps st s waited =
     (case bind_result (hold_gate K st waited s) (coord_gate K st) of
        Inl f \<Rightarrow> f | Inr s \<Rightarrow> leased_branch K steps st s)"

definition chain_iteration :: "chain_env \<Rightarrow> nat \<Rightarrow> chain_step \<Rightarrow> chain_state \<Rightarrow> chain_flow option" where
  "chain_iteration K steps st s =
     (case boundary_gates K st (drain_inbox K s) of
        Inl f \<Rightarrow> Some f
      | Inr s \<Rightarrow> map_option (after_wait K steps st s) (pass_wait K (ch_pass s) st))"

partial_function (option) chain_loop :: "chain_env \<Rightarrow> nat \<Rightarrow> chain_state \<Rightarrow> (integrate_error option \<times> chain_state) option"
  where
  "chain_loop K steps s =
     (case ch_queue s of
        [] \<Rightarrow> Some (None, s)
      | st # rest \<Rightarrow>
          Option.bind (chain_iteration K steps st (s\<lparr>ch_queue := rest\<rparr>)) (\<lambda>f.
            case f of GoOn s \<Rightarrow> chain_loop K steps (s\<lparr>ch_pass := Suc (ch_pass s)\<rparr>) | Leave e s \<Rightarrow> Some (e, s)))"

declare chain_loop.simps [code]

definition chain_start :: "chain_env \<Rightarrow> checkpoint option \<Rightarrow> chain_step list \<Rightarrow> chain_state" where
  "chain_start K saved chain =
     \<lparr>ch_queue = chain, ch_pass = 0, ch_outcomes = [], ch_blocked = [], ch_skipped = [], ch_requeued = [],
      ch_ledger = campaign_ledger_new,
      ch_checkpoint = (case saved of Some c \<Rightarrow> c | None \<Rightarrow> checkpoint_new (sc_campaign_id (ie_config K))),
      ch_pending_skip = False, ch_report = \<lparr>rp_closed = [], rp_bailed = [], rp_skipped = []\<rparr>,
      ch_preflight = [], ch_inbox = [], ch_effects = []\<rparr>"

definition register_chain :: "coord_env \<Rightarrow> chain_step list \<Rightarrow> integrate_error option" where
  "register_chain c chain =
     (let repo = (case chain of st # _ \<Rightarrow> cs_repo st | [] \<Rightarrow> []);
          roadmap = (case chain of st # _ \<Rightarrow> (case cs_roadmap st of Some r \<Rightarrow> r | None \<Rightarrow> []) | [] \<Rightarrow> [])
      in case cd_register c roadmap of
           Inl err \<Rightarrow> Some (CoordRefused CoordRegister repo None err)
         | Inr (allowed, reason) \<Rightarrow>
             (if allowed then None
              else Some (CoordRefused CoordRegister repo None (case reason of Some r \<Rightarrow> r | None \<Rightarrow> []))))"

definition integrate_chain ::
  "chain_env \<Rightarrow> checkpoint option \<Rightarrow> chain_step list \<Rightarrow> (integrate_error option \<times> chain_state) option" where
  "integrate_chain K saved chain =
     (let s = chain_start K saved chain
      in case Option.bind (ie_coord K) (\<lambda>c. register_chain c chain) of
           Some e \<Rightarrow> Some (Some e, s) | None \<Rightarrow> chain_loop K (length chain) s)"

end
