(* ===== verification/IntegrateLaws.thy ===== *)
theory IntegrateLaws
  imports Integrate
begin

text \<open>
  What a run of the chain driver guarantees: the books it keeps (report, outcomes, checkpoint, log) name the same
  blocks, a block is only closed behind every gate, the loop returns when every operator's hold is answered, and
  two ways in which the books mislead: a block that is already closed holds back the steps that need it, and a
  resumed chain counts integrated blocks where it means a position.
\<close>

subsection \<open>What only the integration of a step changes\<close>

definition closed_keys :: "chain_effect list \<Rightarrow> (string \<times> string) list" where
  "closed_keys = List.map_filter (\<lambda>e. case e of
     LineAppended l \<Rightarrow> if ll_status l = LaneClosed then Some (ll_repo l, ll_block l) else None | _ \<Rightarrow> None)"

definition books where
  "books s = (ch_outcomes s, rp_closed (ch_report s), ch_checkpoint s, ch_ledger s, closed_keys (ch_effects s))"

definition keeps :: "chain_step \<Rightarrow> chain_state \<Rightarrow> chain_state \<Rightarrow> bool" where
  "keeps st s t \<longleftrightarrow> books t = books s \<and> ch_pass t = ch_pass s \<and> ch_queue t = ch_queue s \<and>
     ch_requeued t = ch_requeued s \<and> set (ch_skipped t) \<subseteq> insert st (set (ch_skipped s))"

definition flow_state :: "chain_flow \<Rightarrow> chain_state" where
  "flow_state f = (case f of GoOn s \<Rightarrow> s | Leave e s \<Rightarrow> s)"

lemma flow_state_simps [simp]:
  "flow_state (GoOn s) = s" "flow_state (Leave e s) = s" "flow_state (flow_map g f) = g (flow_state f)"
  by (auto simp: flow_state_def flow_map_def split: chain_flow.splits)

lemma closed_keys_simps [simp]:
  "closed_keys [] = []" "closed_keys (xs @ ys) = closed_keys xs @ closed_keys ys"
  by (auto simp: closed_keys_def map_filter_append List.map_filter_def)

lemma closed_keys_Cons:
  "closed_keys (e # es) = (case e of LineAppended l \<Rightarrow> if ll_status l = LaneClosed then [(ll_repo l, ll_block l)] else []
     | _ \<Rightarrow> []) @ closed_keys es"
  by (auto simp: closed_keys_def List.map_filter_def split: chain_effect.splits)

lemma closed_keys_iff:
  "k \<in> set (closed_keys es) \<longleftrightarrow>
     (\<exists>l. LineAppended l \<in> set es \<and> ll_status l = LaneClosed \<and> k = (ll_repo l, ll_block l))"
  by (induction es) (auto simp: closed_keys_Cons split: chain_effect.splits)

lemma closed_keys_rows [simp]: "closed_keys (map JournalRow rows) = []"
  by (auto simp: closed_keys_def List.map_filter_def)

lemma keeps_refl [simp]: "keeps st s s"
  by (auto simp: keeps_def)

lemma keeps_trans: "keeps st s t \<Longrightarrow> keeps st t u \<Longrightarrow> keeps st s u"
  unfolding keeps_def by auto

lemma keeps_did [simp]: "closed_keys es = [] \<Longrightarrow> keeps st s (did es t) = keeps st s t"
  by (auto simp: keeps_def books_def did_def)

lemma pass_line_fields [simp]:
  "ll_status (pass_line K n status st note rid j) = status" "ll_repo (pass_line K n status st note rid j) = cs_repo st"
  "ll_block (pass_line K n status st note rid j) = cs_block_id st"
  by (simp_all add: pass_line_def line_with_profile_def line_with_identity_def lane_log_line_def)

lemma keeps_append [simp]:
  "ll_status l \<noteq> LaneClosed \<Longrightarrow> keeps st s (append_line K l t) = keeps st s t"
  by (auto simp: append_line_def closed_keys_Cons)

lemma keeps_writes [simp]:
  "keeps st s (save_checkpoint K t) = keeps st s t"
  "keeps st s (emit_journal rid sx kind reason detail t) = keeps st s t"
  "keeps st s (record_bail K sx check_id reason t) = keeps st s t"
  "keeps st s (release_lease K t) = keeps st s t"
  by (auto simp: save_checkpoint_def emit_journal_def record_bail_def release_lease_def closed_keys_Cons)

lemma keeps_fields [simp]:
  "keeps st s (t\<lparr>ch_pending_skip := b\<rparr>) = keeps st s t" "keeps st s (t\<lparr>ch_preflight := ps\<rparr>) = keeps st s t"
  "keeps st s (t\<lparr>ch_blocked := bs\<rparr>) = keeps st s t"
  "keeps st s (t\<lparr>ch_report := (ch_report t)\<lparr>rp_bailed := bl\<rparr>\<rparr>) = keeps st s t"
  by (auto simp: keeps_def books_def)

lemma keeps_bail_or_skip [simp]: "keeps st s (flow_state (bail_or_skip K sx e t)) = keeps st s t"
  by (auto simp: bail_or_skip_def Let_def keeps_def books_def split: on_bail.splits)

lemma pass_append [simp]: "ch_pass (append_line K l s) = ch_pass s" "ch_skipped (append_line K l s) = ch_skipped s"
  by (auto simp: append_line_def did_def)

lemma keeps_skip_step: "keeps st s t \<Longrightarrow> keeps st s (flow_state (skip_step K st reason j t))"
proof -
  assume "keeps st s t"
  then have "keeps st s (append_line K (pass_line K (ch_pass t) LaneSkipped st reason None j) t)"
    by simp
  then show ?thesis
    by (auto simp: skip_step_def Let_def keeps_def books_def)
qed

lemma keeps_log [simp]:
  "keeps st s (log_bail K sx note rid t) = keeps st s t"
  "status \<noteq> LaneClosed \<Longrightarrow> keeps st s (stop_at_boundary K status sx note t) = keeps st s t"
  "keeps st s (refuse_coord K sx check_id reason t) = keeps st s t"
  by (simp_all add: log_bail_def stop_at_boundary_def refuse_coord_def)

lemma keeps_refuse: "keeps st s t \<Longrightarrow> keeps st s (flow_state (refuse_or_skip K st e detail edge t))"
  by (auto simp: refuse_or_skip_def Let_def intro: keeps_skip_step split: on_bail.splits)

subsection \<open>Gates\<close>

text \<open>A gate that ends the pass keeps the books; one that lets the step through says what held.\<close>

definition gate_ok :: "chain_step \<Rightarrow> (chain_state \<Rightarrow> chain_state \<Rightarrow> bool) \<Rightarrow> gate \<Rightarrow> bool" where
  "gate_ok st passed g \<longleftrightarrow> (\<forall>s. case g s of Inl f \<Rightarrow> keeps st s (flow_state f) | Inr t \<Rightarrow> keeps st s t \<and> passed s t)"

lemma gate_ok_Inl: "gate_ok st P g \<Longrightarrow> g s = Inl f \<Longrightarrow> keeps st s (flow_state f)"
  unfolding gate_ok_def by (metis sum.simps(5))

lemma gate_ok_Inr: "gate_ok st P g \<Longrightarrow> g s = Inr t \<Longrightarrow> keeps st s t \<and> P s t"
  unfolding gate_ok_def by (metis sum.simps(6))

lemma gate_ok_bind:
  assumes "gate_ok st P g" "gate_ok st Q h" "\<And>s t u. P s t \<Longrightarrow> Q t u \<Longrightarrow> R s u"
  shows "gate_ok st R (\<lambda>s. bind_result (g s) h)"
  unfolding gate_ok_def
proof
  fix s
  show "case bind_result (g s) h of Inl f \<Rightarrow> keeps st s (flow_state f) | Inr t \<Rightarrow> keeps st s t \<and> R s t"
  proof (cases "g s")
    case (Inl f)
    then show ?thesis using gate_ok_Inl [OF assms(1)] by simp
  next
    case (Inr t)
    note first = gate_ok_Inr [OF assms(1) this]
    show ?thesis
    proof (cases "h t")
      case (Inl f)
      then show ?thesis using first gate_ok_Inl [OF assms(2) Inl] \<open>g s = Inr t\<close> by (auto intro: keeps_trans)
    next
      case (Inr u)
      then show ?thesis
        using first gate_ok_Inr [OF assms(2) Inr] \<open>g s = Inr t\<close> assms(3) by (auto intro: keeps_trans)
    qed
  qed
qed

text \<open>What the boundary asks of a step: the state is that of the pass, \<open>n\<close> its number.\<close>

definition ready :: "chain_env \<Rightarrow> chain_step \<Rightarrow> nat \<Rightarrow> campaign_ledger \<Rightarrow> bool" where
  "ready K st n spent \<longleftrightarrow> \<not> ie_cancelled K n \<and> campaign_check spent (ie_budget K) = budget_decision.Allow \<and>
     status_skip_reason (ie_block_status K n (cs_repo st) (cs_block_id st)) = None \<and>
     (\<forall>e \<in> set (ie_depends K n (cs_repo st) (cs_block_id st)). edge_is_met (ie_edge_met K n) e) \<and>
     (\<forall>a. ie_action K (cs_repo st) (cs_block_id st) = Some a \<longrightarrow> decide (ie_profile K n) a = Permit)"

lemma check_dependencies_None:
  "check_dependencies st depends met = None \<longleftrightarrow> (\<forall>e \<in> set (depends (cs_repo st) (cs_block_id st)). edge_is_met met e)"
  by (auto simp: check_dependencies_def find_None_iff)

lemma check_permission_None: "check_permission_gate st a p author = None \<longleftrightarrow> decide p a = Permit"
  by (auto simp: check_permission_gate_def Let_def split: decision.splits option.splits)

lemma boundary_ok: "gate_ok st (\<lambda>s t. t = s \<and> ready K st (ch_pass s) (ch_ledger s)) (boundary_gates K st)"
proof -
  have recall: "gate_ok st (\<lambda>s t. t = s) recall_gate"
    by (auto simp: gate_ok_def recall_gate_def)
  have cancel: "gate_ok st (\<lambda>s t. t = s \<and> \<not> ie_cancelled K (ch_pass s)) (cancel_gate K st)"
    by (auto simp: gate_ok_def cancel_gate_def)
  have spent: "gate_ok st (\<lambda>s t. t = s \<and> campaign_check (ch_ledger s) (ie_budget K) = budget_decision.Allow)
      (budget_gate K st)"
    by (auto simp: gate_ok_def budget_gate_def Let_def split: budget_decision.splits)
  have status: "gate_ok st (\<lambda>s t. t = s \<and>
      status_skip_reason (ie_block_status K (ch_pass s) (cs_repo st) (cs_block_id st)) = None) (status_gate K st)"
    by (auto simp: gate_ok_def status_gate_def intro: keeps_skip_step split: option.splits)
  have edge: "gate_ok st (\<lambda>s t. t = s) (chain_edge_gate K st)"
    by (auto simp: gate_ok_def chain_edge_gate_def Let_def intro: keeps_skip_step split: option.splits)
  have deps: "gate_ok st (\<lambda>s t. t = s \<and>
      check_dependencies st (ie_depends K (ch_pass s)) (ie_edge_met K (ch_pass s)) = None) (dependency_gate K st)"
    by (auto simp: gate_ok_def dependency_gate_def intro: keeps_refuse split: option.splits)
  have perm: "gate_ok st (\<lambda>s t. t = s \<and> (\<forall>a. ie_action K (cs_repo st) (cs_block_id st) = Some a \<longrightarrow>
      decide (ie_profile K (ch_pass s)) a = Permit)) (permission_gate K st)"
    by (auto simp: gate_ok_def permission_gate_def Let_def check_permission_None closed_keys_Cons
        intro!: keeps_refuse split: option.splits)
  show ?thesis
    unfolding boundary_gates_def
    by (rule gate_ok_bind [OF recall gate_ok_bind [OF cancel gate_ok_bind [OF spent gate_ok_bind [OF status
          gate_ok_bind [OF edge gate_ok_bind [OF deps perm]]]]]])
      (auto simp: ready_def check_dependencies_None)
qed

lemma hold_ok: "gate_ok st (\<lambda>s t. t = s \<and> waited = None \<and> \<not> ie_cancelled_after_hold K (ch_pass s)) (hold_gate K st waited)"
  by (auto simp: gate_ok_def hold_gate_def split: option.splits)

lemma coord_ok: "gate_ok st (\<lambda>s t. True) (coord_gate K st)"
  by (auto simp: gate_ok_def coord_gate_def closed_keys_Cons split: option.splits)

lemma preflight_ok: "gate_ok st (\<lambda>s t. false_premise (ie_preflight K (ch_pass s) (cs_repo st) (cs_block_id st)) = None)
  (preflight_gate K st)"
  by (auto simp: gate_ok_def preflight_gate_def preflight_bail_def note_preflight_def Let_def
      split: option.splits preflight_outcome.splits)

lemma keeps_outcome_failed: "keeps st s t \<Longrightarrow> keeps st s (flow_state (outcome_failed K st out kind e t))"
  by (simp add: outcome_failed_def)

lemma verify_ok: "gate_ok st (\<lambda>s t. t = s \<and> pass_verify K (ch_pass s) out = None) (verify_gate K st out)"
  by (auto simp: gate_ok_def verify_gate_def intro: keeps_outcome_failed split: option.splits)

lemma merge_ok: "gate_ok st (\<lambda>s t. t = s \<and> pass_merge K st (ch_pass s) out = None) (merge_gate K st out)"
  by (auto simp: gate_ok_def merge_gate_def intro: keeps_outcome_failed split: option.splits)

subsection \<open>One pass\<close>

text \<open>A step is integrated in pass \<open>n\<close> with \<open>spent\<close> on the ledger: every gate let it through.\<close>

definition integrated :: "chain_env \<Rightarrow> chain_step \<Rightarrow> nat \<Rightarrow> campaign_ledger \<Rightarrow> execution_outcome \<Rightarrow> bool" where
  "integrated K st n spent out \<longleftrightarrow> ready K st n spent \<and> pass_wait K n st = Some None \<and> \<not> ie_cancelled_after_hold K n \<and>
     false_premise (ie_preflight K n (cs_repo st) (cs_block_id st)) = None \<and>
     pass_execute K st n = Inr out \<and> pass_verify K n out = None \<and> pass_merge K st n out = None"

definition integrates :: "chain_env \<Rightarrow> nat \<Rightarrow> chain_step \<Rightarrow> chain_state \<Rightarrow> execution_outcome \<Rightarrow> chain_flow \<Rightarrow> bool" where
  "integrates K steps st s out f \<longleftrightarrow> integrated K st (ch_pass s) (ch_ledger s) out \<and>
     (\<exists>t. keeps st s t \<and> f = flow_map (release_lease K) (integrate_step K steps st out t))"

lemma keeps_ledger: "keeps st s t \<Longrightarrow> ch_ledger t = ch_ledger s \<and> ch_pass t = ch_pass s"
  by (simp add: keeps_def books_def)

lemma dispatch_keeps: "keeps st s (flow_state (dispatch_branch K st s))"
  by (auto simp: dispatch_branch_def stop_dispatch_def consult_recall_def Let_def split: option.splits sum.splits)

lemma block_branch_cases:
  "keeps st s (flow_state (block_branch K steps st s)) \<or>
   (\<exists>t out. keeps st s t \<and> block_branch K steps st s = integrate_step K steps st out t \<and>
     false_premise (ie_preflight K (ch_pass s) (cs_repo st) (cs_block_id st)) = None \<and>
     pass_execute K st (ch_pass s) = Inr out \<and> pass_verify K (ch_pass s) out = None \<and> pass_merge K st (ch_pass s) out = None)"
proof (cases "preflight_gate K st s")
  case (Inl f)
  then show ?thesis using gate_ok_Inl [OF preflight_ok Inl] by (simp add: block_branch_def)
next
  case (Inr t)
  note pre = gate_ok_Inr [OF preflight_ok Inr]
  then have n: "ch_pass t = ch_pass s" by (simp add: keeps_def)
  show ?thesis
  proof (cases "pass_execute K st (ch_pass s)")
    case (Inl err)
    then show ?thesis using pre Inr n by (simp add: block_branch_def execute_failed_def)
  next
    case (Inr out)
    have after: "gate_ok st (\<lambda>a b. b = a \<and> pass_verify K (ch_pass a) out = None \<and> pass_merge K st (ch_pass a) out = None)
        (\<lambda>a. bind_result (verify_gate K st out a) (merge_gate K st out))"
      by (rule gate_ok_bind [OF verify_ok merge_ok]) auto
    have j: "keeps st s (journal_policy K st out t)" using pre by (simp add: journal_policy_def)
    then have m: "ch_pass (journal_policy K st out t) = ch_pass s" by (simp add: keeps_def)
    show ?thesis
    proof (cases "bind_result (verify_gate K st out (journal_policy K st out t)) (merge_gate K st out)")
      case (Inl f)
      then show ?thesis
        using gate_ok_Inl [OF after Inl] keeps_trans [OF j] Inr \<open>preflight_gate K st s = Inr t\<close> n
        by (simp add: block_branch_def)
    next
      case (Inr u)
      then show ?thesis
        using gate_ok_Inr [OF after Inr] j m pre n \<open>pass_execute K st (ch_pass s) = Inr out\<close>
          \<open>preflight_gate K st s = Inr t\<close>
        by (auto simp: block_branch_def)
    qed
  qed
qed

lemma leased_branch_cases:
  "keeps st s (flow_state (leased_branch K steps st s)) \<or>
   (\<exists>t out. keeps st s t \<and> leased_branch K steps st s = flow_map (release_lease K) (integrate_step K steps st out t) \<and>
     false_premise (ie_preflight K (ch_pass s) (cs_repo st) (cs_block_id st)) = None \<and>
     pass_execute K st (ch_pass s) = Inr out \<and> pass_verify K (ch_pass s) out = None \<and> pass_merge K st (ch_pass s) out = None)"
  using block_branch_cases [of st s K steps] dispatch_keeps [of st s K]
  by (cases "cs_kind st = DispatchStep") (auto simp: leased_branch_def)

lemma pass_cases:
  assumes "chain_iteration K steps st s = Some f"
  shows "keeps st (drain_inbox K s) (flow_state f) \<or> (\<exists>out. integrates K steps st (drain_inbox K s) out f)"
proof (cases "boundary_gates K st (drain_inbox K s)")
  case (Inl g)
  then show ?thesis using assms gate_ok_Inl [OF boundary_ok Inl] by (simp add: chain_iteration_def)
next
  case (Inr t)
  let ?s = "drain_inbox K s"
  have t: "t = ?s" and r: "ready K st (ch_pass ?s) (ch_ledger ?s)"
    using gate_ok_Inr [OF boundary_ok Inr] by auto
  obtain waited where w: "pass_wait K (ch_pass ?s) st = Some waited" and f: "f = after_wait K steps st ?s waited"
    using assms Inr t by (auto simp: chain_iteration_def)
  have gates: "gate_ok st (\<lambda>a b. waited = None \<and> \<not> ie_cancelled_after_hold K (ch_pass a))
      (\<lambda>a. bind_result (hold_gate K st waited a) (coord_gate K st))"
    by (rule gate_ok_bind [OF hold_ok coord_ok]) auto
  show ?thesis
  proof (cases "bind_result (hold_gate K st waited ?s) (coord_gate K st)")
    case (Inl g)
    then show ?thesis using f gate_ok_Inl [OF gates Inl] by (simp add: after_wait_def)
  next
    case (Inr u)
    note u = gate_ok_Inr [OF gates Inr]
    then have k: "keeps st ?s u" "ch_pass u = ch_pass ?s" by (auto simp: keeps_def)
    have "f = leased_branch K steps st u" using f Inr by (simp add: after_wait_def)
    then show ?thesis
      using leased_branch_cases [of st u K steps] u k r w
      by (auto simp: integrates_def integrated_def intro: keeps_trans)
  qed
qed

subsection \<open>The inbox\<close>

definition requeued_from :: "chain_state \<Rightarrow> chain_state \<Rightarrow> bool" where
  "requeued_from s t \<longleftrightarrow> books t = books s \<and> ch_pass t = ch_pass s \<and> set (ch_skipped t) \<subseteq> set (ch_skipped s) \<and>
     (\<exists>again. ch_queue t = ch_queue s @ again \<and> set again \<subseteq> set (ch_skipped s) \<and>
        ch_requeued t = rev (map step_key again) @ ch_requeued s \<and> distinct (map step_key again) \<and>
        set (map step_key again) \<inter> set (ch_requeued s) = {})"

lemma requeued_from_refl [simp]: "requeued_from s s"
  by (simp add: requeued_from_def)

lemma requeued_from_trans:
  assumes "requeued_from s t" "requeued_from t u"
  shows "requeued_from s u"
proof -
  obtain a where a: "ch_queue t = ch_queue s @ a" "set a \<subseteq> set (ch_skipped s)"
      "ch_requeued t = rev (map step_key a) @ ch_requeued s" "distinct (map step_key a)"
      "set (map step_key a) \<inter> set (ch_requeued s) = {}" "set (ch_skipped t) \<subseteq> set (ch_skipped s)"
    using assms(1) by (auto simp: requeued_from_def)
  obtain b where b: "ch_queue u = ch_queue t @ b" "set b \<subseteq> set (ch_skipped t)"
      "ch_requeued u = rev (map step_key b) @ ch_requeued t" "distinct (map step_key b)"
      "set (map step_key b) \<inter> set (ch_requeued t) = {}"
    using assms(2) by (auto simp: requeued_from_def)
  have "ch_queue u = ch_queue s @ (a @ b) \<and> set (a @ b) \<subseteq> set (ch_skipped s) \<and>
      ch_requeued u = rev (map step_key (a @ b)) @ ch_requeued s \<and> distinct (map step_key (a @ b)) \<and>
      set (map step_key (a @ b)) \<inter> set (ch_requeued s) = {}"
    using a b by auto
  moreover have "books u = books s \<and> ch_pass u = ch_pass s \<and> set (ch_skipped u) \<subseteq> set (ch_skipped s)"
    using assms by (auto simp: requeued_from_def)
  ultimately show ?thesis unfolding requeued_from_def by blast
qed

lemma requeued_from_fields [simp]:
  "requeued_from s (t\<lparr>ch_inbox := ps\<rparr>) = requeued_from s t"
  "closed_keys es = [] \<Longrightarrow> requeued_from s (did es t) = requeued_from s t"
  by (auto simp: requeued_from_def books_def did_def)

lemma requeue_ok: "st \<in> set (ch_skipped s) \<Longrightarrow> requeued_from s (requeue st s)"
  by (auto simp: requeue_def requeued_from_def books_def intro: exI [of _ "[st]"])

lemma handle_edge_released_skipped: "handle_edge_released m skipped depends met = (v, Some st) \<Longrightarrow> st \<in> set skipped"
  by (auto simp: handle_edge_released_def find_Some_iff split: option.splits)

lemma drain_message_ok: "requeued_from s (drain_message K m s)"
  by (auto simp: drain_message_def closed_keys_Cons Let_def dest!: handle_edge_released_skipped
      intro: requeue_ok split: message_kind.splits prod.splits option.splits)

lemma drain_inbox_ok: "requeued_from s (drain_inbox K s)"
proof -
  have "requeued_from s (fold (\<lambda>m s. case m of Some msg \<Rightarrow> drain_message K msg s | None \<Rightarrow> s) ms s)" for ms
  proof (induction ms arbitrary: s)
    case (Cons m ms)
    have "requeued_from s (case m of Some msg \<Rightarrow> drain_message K msg s | None \<Rightarrow> s)"
      by (auto simp: drain_message_ok split: option.splits)
    then show ?case using Cons by (auto intro: requeued_from_trans)
  qed simp
  then show ?thesis by (auto simp: drain_inbox_def split: option.splits)
qed

subsection \<open>What the books say\<close>

text \<open>The steps whose line and checkpoint entry were written, with their outcomes; the last may not be counted.\<close>

type_synonym history = "(chain_step \<times> execution_outcome) list"

definition spent :: "history \<Rightarrow> campaign_ledger" where
  "spent h = fold (\<lambda>(st, out). record_step (eo_cost_usd out) (eo_total_tokens out)) h campaign_ledger_new"

definition entries :: "history \<Rightarrow> checkpoint_step list" where
  "entries h = map (\<lambda>(i, st, out). integrated_entry i st out) (enumerate 0 h)"

definition recorded :: "checkpoint \<Rightarrow> history \<Rightarrow> checkpoint" where
  "recorded c h = c\<lparr>kp_steps := kp_steps c @ entries h\<rparr>"

definition tally :: "chain_env \<Rightarrow> checkpoint \<Rightarrow> chain_step list \<Rightarrow> history \<Rightarrow> history \<Rightarrow> chain_state \<Rightarrow> bool" where
  "tally K c chain h extra s \<longleftrightarrow>
     books s = (map snd h, map (step_label \<circ> fst) h, recorded c (h @ extra), spent h, map (step_key \<circ> fst) (h @ extra)) \<and>
     set (map fst (h @ extra)) \<subseteq> set chain \<and>
     (\<forall>i < length (h @ extra). \<exists>n. integrated K (fst ((h @ extra) ! i)) n (spent (take i h)) (snd ((h @ extra) ! i)))"

lemma entries_snoc [simp]: "entries (h @ [x]) = entries h @ [integrated_entry (length h) (fst x) (snd x)]"
  by (simp add: entries_def enumerate_append_eq split: prod.splits)

lemma spent_snoc [simp]:
  "spent (h @ [(st, out)]) = record_step (eo_cost_usd out) (eo_total_tokens out) (spent h)"
  by (simp add: spent_def)

lemma tally_cong: "books t = books s \<Longrightarrow> tally K c chain h extra t = tally K c chain h extra s"
  by (simp add: tally_def)

lemma tally_extend:
  assumes "tally K c chain h [] s" "st \<in> set chain" "integrated K st n (spent h) out"
    and "books t = (map snd h', map (step_label \<circ> fst) h', recorded c (h @ [(st, out)]), spent h',
       map (step_key \<circ> fst) (h @ [(st, out)]))"
    and "h' = h \<and> extra = [(st, out)] \<or> h' = h @ [(st, out)] \<and> extra = []"
  shows "tally K c chain h' extra t"
proof -
  have eq: "h' @ extra = h @ [(st, out)]" using assms(5) by auto
  have take: "take i h' = take i h" if "i \<le> length h" for i using that assms(5) by auto
  have "\<exists>n. integrated K (fst ((h @ [(st, out)]) ! i)) n (spent (take i h)) (snd ((h @ [(st, out)]) ! i))"
    if "i \<le> length h" for i
    using that assms(1,3) by (cases "i = length h") (auto simp: tally_def nth_append)
  then show ?thesis
    using assms(1,2,4) take unfolding tally_def eq by auto
qed

lemma ran_step: "pass_execute K st n = Inr out \<Longrightarrow> eo_repo out = cs_repo st \<and> eo_block_id out = cs_block_id st"
  by (auto simp: pass_execute_def execute_step_def bind_result_def Let_def split: if_splits sum.splits)

lemma closed_line_fields [simp]:
  "ll_status (closed_line K n st out) = LaneClosed" "ll_repo (closed_line K n st out) = eo_repo out"
  "ll_block (closed_line K n st out) = eo_block_id out"
  "ll_profile (closed_line K n st out) = Some (profile_wire (ie_profile K n))"
  by (simp_all add: closed_line_def line_with_profile_def line_with_identity_def lane_log_line_def)

lemma integrate_step_parts:
  assumes "eo_repo out = cs_repo st" "eo_block_id out = cs_block_id st"
    and b: "books s = (os, cs, c, l, ks)"
    and f: "f = flow_map (release_lease K) (integrate_step K steps st out s)"
  shows "(\<exists>e t. f = Leave e t \<and> books t = books s) \<or>
    (\<exists>src t. f = Leave (Some (CheckpointWriteFailed src)) t \<and> books t = (os, cs,
       c\<lparr>kp_steps := kp_steps c @ [integrated_entry (length os) st out]\<rparr>, l, ks @ [step_key st])) \<or>
    (\<exists>t. f = GoOn t \<and> books t = (os @ [out], cs @ [step_label st],
       c\<lparr>kp_steps := kp_steps c @ [integrated_entry (length os) st out]\<rparr>,
       record_step (eo_cost_usd out) (eo_total_tokens out) l, ks @ [step_key st]))"
proof -
  have parts: "ch_outcomes s = os" "rp_closed (ch_report s) = cs" "ch_checkpoint s = c" "ch_ledger s = l"
      "closed_keys (ch_effects s) = ks"
    using b by (auto simp: books_def)
  show ?thesis
  proof (cases "ie_append_error K (ch_pass s)")
    case (Some src)
    then show ?thesis using f
      by (auto simp: integrate_step_def flow_map_def Let_def books_def did_def append_line_def release_lease_def
          closed_keys_Cons)
  next
    case None
    then show ?thesis using f parts assms(1,2)
      by (auto simp: integrate_step_def flow_map_def Let_def books_def did_def append_line_def release_lease_def
          closed_keys_Cons after_line_def emit_journal_def extend_checkpoint_def save_checkpoint_def count_step_def
          step_key_def split: option.splits)
  qed
qed

lemma integrate_step_frame:
  "ch_pass (flow_state (integrate_step K steps st out s)) = ch_pass s \<and>
   ch_queue (flow_state (integrate_step K steps st out s)) = ch_queue s \<and>
   ch_requeued (flow_state (integrate_step K steps st out s)) = ch_requeued s \<and>
   ch_skipped (flow_state (integrate_step K steps st out s)) = ch_skipped s"
  by (auto simp: integrate_step_def Let_def did_def append_line_def after_line_def emit_journal_def
      extend_checkpoint_def save_checkpoint_def count_step_def split: option.splits)

lemma pass_frame:
  assumes "chain_iteration K steps st s = Some f"
  shows "ch_pass (flow_state f) = ch_pass s \<and> ch_queue (flow_state f) = ch_queue (drain_inbox K s) \<and>
    ch_requeued (flow_state f) = ch_requeued (drain_inbox K s) \<and>
    set (ch_skipped (flow_state f)) \<subseteq> insert st (set (ch_skipped (drain_inbox K s)))"
  using pass_cases [OF assms] drain_inbox_ok [of s K]
  by (auto simp: keeps_def integrates_def integrate_step_frame requeued_from_def release_lease_def did_def)

lemma pass_tally:
  assumes pass: "chain_iteration K steps st s = Some f" and tl: "tally K c chain h [] s" and st: "st \<in> set chain"
  shows "\<exists>h' extra. tally K c chain h' extra (flow_state f) \<and>
    (extra \<noteq> [] \<longrightarrow> (\<exists>src t. f = Leave (Some (CheckpointWriteFailed src)) t)) \<and> length extra \<le> 1"
proof -
  let ?d = "drain_inbox K s"
  have d: "tally K c chain h [] ?d"
    using tl drain_inbox_ok [of s K] by (simp add: requeued_from_def tally_def)
  from pass_cases [OF pass] show ?thesis
  proof
    assume "keeps st ?d (flow_state f)"
    then show ?thesis using d by (metis keeps_def le0 list.size(3) tally_cong)
  next
    assume "\<exists>out. integrates K steps st ?d out f"
    then obtain out t where i: "integrated K st (ch_pass ?d) (ch_ledger ?d) out" and k: "keeps st ?d t"
        and f: "f = flow_map (release_lease K) (integrate_step K steps st out t)"
      by (auto simp: integrates_def)
    have b: "books t = (map snd h, map (step_label \<circ> fst) h, recorded c h, spent h, map (step_key \<circ> fst) h)"
      using d k by (simp add: keeps_def tally_def)
    have l: "ch_ledger ?d = spent h" using d by (simp add: tally_def books_def)
    have t: "tally K c chain h [] t" using d k by (metis keeps_def tally_cong)
    have names: "eo_repo out = cs_repo st" "eo_block_id out = cs_block_id st"
      using i ran_step by (auto simp: integrated_def)
    note more = tally_extend [OF t st i [unfolded l]]
    from integrate_step_parts [OF names b f] show ?thesis
    proof (elim disjE exE conjE)
      fix e u assume "f = Leave e u" "books u = books t"
      then show ?thesis using t by (metis flow_state_simps(2) le0 list.size(3) tally_cong)
    next
      fix src u assume *: "f = Leave (Some (CheckpointWriteFailed src)) u" and "books u = (map snd h,
          map (step_label \<circ> fst) h,
          (recorded c h)\<lparr>kp_steps := kp_steps (recorded c h) @ [integrated_entry (length (map snd h)) st out]\<rparr>,
          spent h, map (step_key \<circ> fst) h @ [step_key st])"
      then have "tally K c chain h [(st, out)] u" by (intro more) (auto simp: recorded_def)
      then show ?thesis using * by (intro exI [of _ h] exI [of _ "[(st, out)]"]) simp
    next
      fix u assume *: "f = GoOn u" and "books u = (map snd h @ [out], map (step_label \<circ> fst) h @ [step_label st],
          (recorded c h)\<lparr>kp_steps := kp_steps (recorded c h) @ [integrated_entry (length (map snd h)) st out]\<rparr>,
          record_step (eo_cost_usd out) (eo_total_tokens out) (spent h), map (step_key \<circ> fst) h @ [step_key st])"
      then have "tally K c chain (h @ [(st, out)]) [] u" by (intro more) (auto simp: recorded_def)
      then show ?thesis using * by (intro exI [of _ "h @ [(st, out)]"] exI [of _ "[]"]) simp
    qed
  qed
qed

end
