(* ===== verification/ChainProps.thy ===== *)
theory ChainProps
  imports IntegrateLaws
begin

text \<open>The properties of a whole run of the chain driver, over the lemmas of \<open>IntegrateLaws\<close>.\<close>

subsection \<open>Induction over the loop\<close>

lemma chain_loop_rule:
  assumes run: "chain_loop K steps s = Some (e, t)" and start: "I s"
    and ends: "\<And>s. I s \<Longrightarrow> ch_queue s = [] \<Longrightarrow> F None s"
    and goes: "\<And>s st rest u. I s \<Longrightarrow> ch_queue s = st # rest \<Longrightarrow>
      chain_iteration K steps st (s\<lparr>ch_queue := rest\<rparr>) = Some (GoOn u) \<Longrightarrow> I (u\<lparr>ch_pass := Suc (ch_pass u)\<rparr>)"
    and leaves: "\<And>s st rest x u. I s \<Longrightarrow> ch_queue s = st # rest \<Longrightarrow>
      chain_iteration K steps st (s\<lparr>ch_queue := rest\<rparr>) = Some (Leave x u) \<Longrightarrow> F x u"
  shows "F e t"
proof -
  have "K' = K \<longrightarrow> steps' = steps \<longrightarrow> I s \<longrightarrow> F (fst r) (snd r)" if "chain_loop K' steps' s = Some r" for K' steps' s r
  proof (rule chain_loop.raw_induct [OF _ that])
    fix loop K' steps' s r
    assume IH: "\<And>K' steps' s r. loop K' steps' s = Some r \<Longrightarrow>
        K' = K \<longrightarrow> steps' = steps \<longrightarrow> I s \<longrightarrow> F (fst r) (snd r)"
      and eq: "(case ch_queue s of [] \<Rightarrow> Some (None, s) | st # rest \<Rightarrow>
          Option.bind (chain_iteration K' steps' st (s\<lparr>ch_queue := rest\<rparr>)) (\<lambda>f.
            case f of GoOn s \<Rightarrow> loop K' steps' (s\<lparr>ch_pass := Suc (ch_pass s)\<rparr>) | Leave e s \<Rightarrow> Some (e, s))) = Some r"
    show "K' = K \<longrightarrow> steps' = steps \<longrightarrow> I s \<longrightarrow> F (fst r) (snd r)"
      using eq ends goes leaves IH
      by (fastforce split: list.splits chain_flow.splits bind_splits)
  qed
  then show ?thesis using run start by fastforce
qed

lemma chain_loop_simps:
  "ch_queue s = [] \<Longrightarrow> chain_loop K steps s = Some (None, s)"
  "ch_queue s = st # rest \<Longrightarrow> chain_iteration K steps st (s\<lparr>ch_queue := rest\<rparr>) = Some (GoOn t) \<Longrightarrow>
     chain_loop K steps s = chain_loop K steps (t\<lparr>ch_pass := Suc (ch_pass t)\<rparr>)"
  "ch_queue s = st # rest \<Longrightarrow> chain_iteration K steps st (s\<lparr>ch_queue := rest\<rparr>) = Some (Leave e t) \<Longrightarrow>
     chain_loop K steps s = Some (e, t)"
  by (subst chain_loop.simps; simp)+

subsection \<open>Which steps are in play\<close>

definition in_play :: "chain_step list \<Rightarrow> chain_state \<Rightarrow> bool" where
  "in_play chain s \<longleftrightarrow> set (ch_queue s) \<subseteq> set chain \<and> set (ch_skipped s) \<subseteq> set chain"

definition passes_left :: "chain_step list \<Rightarrow> chain_state \<Rightarrow> nat" where
  "passes_left chain s = length (ch_queue s) + card (set (map step_key chain) - set (ch_requeued s))"

lemma in_play_start: "in_play chain (chain_start K saved chain)"
  by (simp add: in_play_def chain_start_def)

lemma drained_pass:
  assumes play: "in_play chain s" and q: "ch_queue s = st # rest"
  shows "in_play chain (drain_inbox K (s\<lparr>ch_queue := rest\<rparr>))"
    and "Suc (passes_left chain (drain_inbox K (s\<lparr>ch_queue := rest\<rparr>))) = passes_left chain s"
    and "ch_pass (drain_inbox K (s\<lparr>ch_queue := rest\<rparr>)) = ch_pass s"
proof -
  let ?d = "drain_inbox K (s\<lparr>ch_queue := rest\<rparr>)"
  obtain again where a: "ch_queue ?d = rest @ again" "set again \<subseteq> set (ch_skipped s)"
      "ch_requeued ?d = rev (map step_key again) @ ch_requeued s" "distinct (map step_key again)"
      "set (map step_key again) \<inter> set (ch_requeued s) = {}" "set (ch_skipped ?d) \<subseteq> set (ch_skipped s)"
      "ch_pass ?d = ch_pass s"
    using drain_inbox_ok [of "s\<lparr>ch_queue := rest\<rparr>" K] by (auto simp: requeued_from_def)
  let ?A = "set (map step_key again)" and ?C = "set (map step_key chain) - set (ch_requeued s)"
  have sub: "?A \<subseteq> ?C" using a(2,5) play by (auto simp: in_play_def)
  have "card (?C - ?A) = card ?C - card ?A" using sub by (intro card_Diff_subset) auto
  moreover have "card ?A \<le> card ?C" using sub by (intro card_mono) auto
  moreover have "card ?A = length again" using a(4) distinct_card by fastforce
  moreover have "?C - ?A = set (map step_key chain) - set (ch_requeued ?d)" using a(3) by auto
  ultimately show "Suc (passes_left chain ?d) = passes_left chain s"
    using a(1) q by (simp add: passes_left_def)
  show "in_play chain ?d" "ch_pass ?d = ch_pass s"
    using a play q by (auto simp: in_play_def)
qed

lemma next_pass:
  assumes play: "in_play chain s" and q: "ch_queue s = st # rest"
    and pass: "chain_iteration K steps st (s\<lparr>ch_queue := rest\<rparr>) = Some f"
  shows "in_play chain ((flow_state f)\<lparr>ch_pass := n\<rparr>)"
    and "Suc (passes_left chain ((flow_state f)\<lparr>ch_pass := n\<rparr>)) = passes_left chain s"
    and "ch_pass (flow_state f) = ch_pass s"
  using drained_pass [OF play q, of K] pass_frame [OF pass] play q
  by (auto simp: in_play_def passes_left_def)

subsection \<open>The books\<close>

lemma start_tally: "tally K (ch_checkpoint (chain_start K saved chain)) chain [] [] (chain_start K saved chain)"
  by (simp add: tally_def books_def recorded_def entries_def spent_def chain_start_def)

lemma run_tally:
  assumes "integrate_chain K saved chain = Some (e, s)"
  shows "\<exists>h extra. tally K (ch_checkpoint (chain_start K saved chain)) chain h extra s \<and> length extra \<le> 1 \<and>
    (extra \<noteq> [] \<longrightarrow> (\<exists>src. e = Some (CheckpointWriteFailed src)))"
proof (cases "Option.bind (ie_coord K) (\<lambda>c. register_chain c chain)")
  case (Some x)
  then show ?thesis using assms start_tally [of K saved chain]
    by (intro exI [of _ "[]"]) (auto simp: integrate_chain_def Let_def)
next
  case None
  let ?c = "ch_checkpoint (chain_start K saved chain)"
  have run: "chain_loop K (length chain) (chain_start K saved chain) = Some (e, s)"
    using assms None by (simp add: integrate_chain_def Let_def)
  have cong: "tally K ?c chain h [] (s\<lparr>ch_queue := q\<rparr>) = tally K ?c chain h [] s"
      "tally K ?c chain h [] (s\<lparr>ch_pass := n\<rparr>) = tally K ?c chain h [] s" for h s q n
    by (rule tally_cong, simp add: books_def)+
  show ?thesis
  proof (rule chain_loop_rule [OF run, where I = "\<lambda>s. in_play chain s \<and> (\<exists>h. tally K ?c chain h [] s)"])
    show "in_play chain (chain_start K saved chain) \<and> (\<exists>h. tally K ?c chain h [] (chain_start K saved chain))"
      using in_play_start start_tally by blast
  next
    fix s assume "in_play chain s \<and> (\<exists>h. tally K ?c chain h [] s)"
    then show "\<exists>h extra. tally K ?c chain h extra s \<and> length extra \<le> 1 \<and>
        (extra \<noteq> [] \<longrightarrow> (\<exists>src. (None :: integrate_error option) = Some (CheckpointWriteFailed src)))"
      by (metis le0 list.size(3))
  next
    fix s st rest u assume "in_play chain s \<and> (\<exists>h. tally K ?c chain h [] s)" and q: "ch_queue s = st # rest"
      and pass: "chain_iteration K (length chain) st (s\<lparr>ch_queue := rest\<rparr>) = Some (GoOn u)"
    then obtain h where play: "in_play chain s" and h: "tally K ?c chain h [] s" by blast
    have st: "st \<in> set chain" using play q by (auto simp: in_play_def)
    obtain h' where "tally K ?c chain h' [] u"
      using pass_tally [OF pass h [unfolded cong(1) [symmetric, of h s rest]] st]
      by (metis chain_flow.distinct(1) flow_state_simps(1))
    then show "in_play chain (u\<lparr>ch_pass := Suc (ch_pass u)\<rparr>) \<and> (\<exists>h. tally K ?c chain h [] (u\<lparr>ch_pass := Suc (ch_pass u)\<rparr>))"
      using next_pass(1) [OF play q pass] cong(2) by auto
  next
    fix s st rest x u assume "in_play chain s \<and> (\<exists>h. tally K ?c chain h [] s)" and q: "ch_queue s = st # rest"
      and pass: "chain_iteration K (length chain) st (s\<lparr>ch_queue := rest\<rparr>) = Some (Leave x u)"
    then obtain h where play: "in_play chain s" and h: "tally K ?c chain h [] s" by blast
    have st: "st \<in> set chain" using play q by (auto simp: in_play_def)
    show "\<exists>h extra. tally K ?c chain h extra u \<and> length extra \<le> 1 \<and>
        (extra \<noteq> [] \<longrightarrow> (\<exists>src. x = Some (CheckpointWriteFailed src)))"
      using pass_tally [OF pass h [unfolded cong(1) [symmetric, of h s rest]] st] by auto
  qed
qed

subsection \<open>Returning\<close>

lemma wait_returns:
  assumes "k \<le> n" and "\<not> hp_held (polls n) \<or> hp_aborted (polls n) \<or> (\<exists>d. deadline_at = Some d \<and> d \<le> hp_time (polls n))"
  shows "wait_for_clearance polls late deadline_at k \<noteq> None"
  using assms(1)
proof (induction rule: inc_induct)
  case base
  then show ?case using assms(2) by (subst wait_for_clearance.simps) auto
next
  case (step m)
  then show ?case by (subst wait_for_clearance.simps) auto
qed

text \<open>The hold a pass may meet is cleared, the wait aborted or its deadline passed at some poll.\<close>

definition answered :: "chain_env \<Rightarrow> nat \<Rightarrow> bool" where
  "answered K n \<longleftrightarrow> (\<exists>k. \<not> hp_held (ie_hold K n k) \<or> hp_aborted (ie_hold K n k) \<or>
     (\<exists>d. ie_hold_deadline K = Some d \<and> ie_hold_start K n + d \<le> hp_time (ie_hold K n k)))"

lemma answered_pass: "answered K n \<Longrightarrow> pass_wait K n st \<noteq> None"
  unfolding pass_wait_def answered_def by (elim exE, rule wait_returns [of 0]) auto

lemma answered_iteration:
  assumes "answered K (ch_pass s)"
  shows "\<exists>f. chain_iteration K steps st s = Some f"
proof (cases "boundary_gates K st (drain_inbox K s)")
  case (Inr t)
  then have "t = drain_inbox K s" using gate_ok_Inr [OF boundary_ok Inr] by simp
  then have "ch_pass t = ch_pass s" using drain_inbox_ok [of s K] by (simp add: requeued_from_def)
  then show ?thesis using Inr answered_pass [OF assms] by (auto simp: chain_iteration_def)
qed (simp add: chain_iteration_def)

lemma loop_returns:
  assumes "\<And>n. answered K n"
  shows "in_play chain s \<Longrightarrow> \<exists>e t. chain_loop K steps s = Some (e, t) \<and> ch_pass t \<le> ch_pass s + passes_left chain s"
proof (induction "passes_left chain s" arbitrary: s rule: less_induct)
  case less
  show ?case
  proof (cases "ch_queue s")
    case Nil
    then show ?thesis by (simp add: chain_loop_simps)
  next
    case (Cons st rest)
    obtain f where f: "chain_iteration K steps st (s\<lparr>ch_queue := rest\<rparr>) = Some f"
      using answered_iteration assms by blast
    note nxt = next_pass [OF less.prems Cons f]
    show ?thesis
    proof (cases f)
      case (GoOn t)
      let ?t = "t\<lparr>ch_pass := Suc (ch_pass t)\<rparr>"
      have "Suc (passes_left chain ?t) = passes_left chain s" and "in_play chain ?t" and "ch_pass t = ch_pass s"
        using nxt GoOn by auto
      then show ?thesis
        using less.hyps [of ?t] chain_loop_simps(2) [OF Cons] f GoOn by fastforce
    next
      case (Leave e t)
      then show ?thesis using nxt(3) chain_loop_simps(3) [OF Cons] f by auto
    qed
  qed
qed

subsection \<open>The properties\<close>

definition outcome_key :: "execution_outcome \<Rightarrow> string \<times> string" where
  "outcome_key out = (eo_repo out, eo_block_id out)"

definition outcome_label :: "execution_outcome \<Rightarrow> string" where
  "outcome_label out = eo_repo out @ '':'' @ eo_block_id out"

definition outcomes_spent :: "execution_outcome list \<Rightarrow> campaign_ledger" where
  "outcomes_spent os = fold (\<lambda>out. record_step (eo_cost_usd out) (eo_total_tokens out)) os campaign_ledger_new"

lemma spent_outcomes: "spent h = outcomes_spent (map snd h)"
  by (simp add: spent_def outcomes_spent_def fold_map comp_def split_def)

lemma tally_outcomes:
  assumes "tally K c chain h extra s"
  shows "map (step_key \<circ> fst) (h @ extra) = map outcome_key (map snd (h @ extra))"
    and "map (step_label \<circ> fst) h = map outcome_label (map snd h)"
proof -
  have same: "eo_repo (snd p) = cs_repo (fst p) \<and> eo_block_id (snd p) = cs_block_id (fst p)" if p: "p \<in> set (h @ extra)" for p
  proof -
    obtain i where i: "i < length (h @ extra)" "(h @ extra) ! i = p" using p by (metis in_set_conv_nth)
    have "\<exists>n. integrated K (fst ((h @ extra) ! i)) n (spent (take i h)) (snd ((h @ extra) ! i))"
      using assms i(1) unfolding tally_def by (elim conjE allE [of _ i]) (rule mp)
    then obtain n where "integrated K (fst p) n (spent (take i h)) (snd p)" unfolding i(2) by blast
    then have "pass_execute K (fst p) n = Inr (snd p)" by (simp add: integrated_def)
    from ran_step [OF this] show ?thesis .
  qed
  then show "map (step_key \<circ> fst) (h @ extra) = map outcome_key (map snd (h @ extra))"
    unfolding map_map by (intro map_cong refl) (simp add: step_key_def outcome_key_def)
  show "map (step_label \<circ> fst) h = map outcome_label (map snd h)"
    unfolding map_map using same by (intro map_cong refl) (simp add: step_label_def outcome_label_def)
qed

lemma entries_Nil [simp]: "entries [] = []"
  by (simp add: entries_def)

lemma entries_parts:
  "map (\<lambda>k. (kp_repo k, kp_block_id k)) (entries h) = map (step_key \<circ> fst) h"
  "map kp_index (entries h) = map (\<lambda>i. of_nat i + 1) [0..<length h]"
  "length (entries h) = length h" "list_all kp_integrated (entries h)"
  by (induction h rule: rev_induct) (auto simp: integrated_entry_def step_key_def)

text \<open>
  C39. The books of a chain agree: whatever ends it, the report's closed blocks, the closed lines that reached the
  log, the entries added to the checkpoint (counted from 1) and the spend on the ledger are those of the outcomes
  the run returns, in the same order. Only a checkpoint that could not be written leaves one line and one entry
  more than there are outcomes.
\<close>

theorem chain_books_agree:
  assumes "integrate_chain K saved chain = Some (e, s)"
  shows "\<exists>extra. length extra \<le> 1 \<and> (extra = [] \<or> (\<exists>src. e = Some (CheckpointWriteFailed src))) \<and>
    rp_closed (ch_report s) = map outcome_label (ch_outcomes s) \<and>
    closed_keys (ch_effects s) = map outcome_key (ch_outcomes s @ extra) \<and>
    ch_ledger s = outcomes_spent (ch_outcomes s) \<and>
    (\<exists>added. kp_steps (ch_checkpoint s) = kp_steps (ch_checkpoint (chain_start K saved chain)) @ added \<and>
       map (\<lambda>k. (kp_repo k, kp_block_id k)) added = map outcome_key (ch_outcomes s @ extra) \<and>
       map kp_index added = map (\<lambda>i. of_nat i + 1) [0..<length added] \<and> list_all kp_integrated added)"
proof -
  obtain h extra where t: "tally K (ch_checkpoint (chain_start K saved chain)) chain h extra s" "length extra \<le> 1"
      "extra \<noteq> [] \<longrightarrow> (\<exists>src. e = Some (CheckpointWriteFailed src))"
    using run_tally [OF assms] by blast
  note o' = tally_outcomes [OF t(1)]
  have b: "ch_outcomes s = map snd h" "rp_closed (ch_report s) = map outcome_label (map snd h)"
      "ch_checkpoint s = recorded (ch_checkpoint (chain_start K saved chain)) (h @ extra)"
      "ch_ledger s = spent h" "closed_keys (ch_effects s) = map outcome_key (map snd (h @ extra))"
    using t(1) o' by (simp_all add: tally_def books_def)
  show ?thesis
    by (rule exI [of _ "map snd extra"], intro conjI exI [of _ "entries (h @ extra)"])
      (use t(2,3) b o' in \<open>auto simp: spent_outcomes recorded_def entries_parts\<close>)
qed


text \<open>
  C40. The chain returns when every operator's hold is answered, by a clearance, an abort or the deadline, however
  the messages, the gates and the runs turn out: an edge released twice requeues a step once, so there are at most
  twice as many passes as the chain has steps.
\<close>

theorem chain_returns:
  assumes "\<And>n. \<exists>k. \<not> hp_held (ie_hold K n k) \<or> hp_aborted (ie_hold K n k) \<or>
     (\<exists>d. ie_hold_deadline K = Some d \<and> ie_hold_start K n + d \<le> hp_time (ie_hold K n k))"
  shows "\<exists>e s. integrate_chain K saved chain = Some (e, s) \<and> ch_pass s \<le> 2 * length chain"
proof (cases "Option.bind (ie_coord K) (\<lambda>c. register_chain c chain)")
  case None
  let ?s = "chain_start K saved chain"
  have "answered K n" for n using assms by (simp add: answered_def)
  then obtain e t where "chain_loop K (length chain) ?s = Some (e, t)" "ch_pass t \<le> ch_pass ?s + passes_left chain ?s"
    using loop_returns [OF _ in_play_start] by blast
  moreover have "ch_pass ?s + passes_left chain ?s \<le> 2 * length chain"
    using card_length [of "map step_key chain"] by (simp add: chain_start_def passes_left_def)
  ultimately show ?thesis using None by (auto simp: integrate_chain_def Let_def)
qed (auto simp: integrate_chain_def Let_def chain_start_def)

text \<open>
  A block that is already closed holds back the steps that need it: the first step is passed over because its
  status says closed, and the second, whose every dependency is met, is skipped as depending on a step that bailed
  or was skipped, whatever the chain is to do on a bail. The chain ends without an error and has done nothing.
\<close>

theorem closed_block_holds_back_dependents:
  assumes "ie_coord K = None" and "ie_budget K = None" and "\<not> ie_cancelled K 0" and "\<not> ie_cancelled K 1"
    and "ie_block_status K 0 (cs_repo a) (cs_block_id a) = BlockRow ''closed''"
    and "status_skip_reason (ie_block_status K 1 (cs_repo b) (cs_block_id b)) = None"
    and "EdgeBlock (cs_repo a) (cs_block_id a) \<in> set (ie_depends K 1 (cs_repo b) (cs_block_id b))"
    and "check_dependencies b (ie_depends K 1) (ie_edge_met K 1) = None"
  shows "\<exists>s. integrate_chain K saved [a, b] = Some (None, s) \<and> ch_outcomes s = [] \<and>
    map sk_block (rp_skipped (ch_report s)) = [step_label a, step_label b]"
proof -
  let ?s = "chain_start K saved [a, b]"
  have drain: "drain_inbox K s = s" for s using assms(1) by (simp add: drain_inbox_def)
  have free: "campaign_check l (ie_budget K) = budget_decision.Allow" for l using assms(2) by (simp add: campaign_check_def)
  obtain reason where "status_skip_reason (ie_block_status K 0 (cs_repo a) (cs_block_id a)) = Some reason"
    using assms(5) by (simp add: status_skip_reason_def)
  then have "chain_iteration K (Suc (Suc 0)) a (?s\<lparr>ch_queue := [b]\<rparr>) = Some (skip_step K a reason None (?s\<lparr>ch_queue := [b]\<rparr>))"
    using assms(3) by (simp add: chain_iteration_def drain free boundary_gates_def recall_gate_def cancel_gate_def
        budget_gate_def status_gate_def chain_start_def)
  then obtain t where first: "chain_iteration K (Suc (Suc 0)) a (?s\<lparr>ch_queue := [b]\<rparr>) = Some (GoOn t)"
      and t: "ch_queue t = [b]" "ch_pass t = 0" "ch_blocked t = [step_key a]" "ch_outcomes t = []" "\<not> ch_pending_skip t"
        "map sk_block (rp_skipped (ch_report t)) = [step_label a]"
    by (auto simp: skip_step_def Let_def append_line_def did_def chain_start_def)
  let ?t = "t\<lparr>ch_pass := Suc (ch_pass t)\<rparr>"
  have "blocking_edge [step_key a] (ie_depends K 1 (cs_repo b) (cs_block_id b)) \<noteq> None"
    using assms(7) unfolding blocking_edge_def find_None_iff by (auto simp: step_key_def intro!: bexI exI)
  then obtain reason edge where "chain_iteration K (Suc (Suc 0)) b (?t\<lparr>ch_queue := []\<rparr>) = Some (skip_step K b reason (Some edge) (?t\<lparr>ch_queue := []\<rparr>))"
    using assms(4,6) t by (auto simp: chain_iteration_def drain free boundary_gates_def recall_gate_def cancel_gate_def
        budget_gate_def status_gate_def chain_edge_gate_def Let_def)
  then obtain u where second: "chain_iteration K (Suc (Suc 0)) b (?t\<lparr>ch_queue := []\<rparr>) = Some (GoOn u)"
      and u: "ch_queue u = []" "ch_outcomes u = []" "map sk_block (rp_skipped (ch_report u)) = [step_label a, step_label b]"
    using t by (auto simp: skip_step_def Let_def append_line_def did_def)
  have "chain_loop K (Suc (Suc 0)) ?s = Some (None, u\<lparr>ch_pass := Suc (ch_pass u)\<rparr>)"
    using chain_loop_simps(2) [OF _ first] chain_loop_simps(2) [OF _ second] t u
    by (simp add: chain_start_def chain_loop_simps(1))
  then show ?thesis using assms(1) u by (simp add: integrate_chain_def Let_def)
qed

text \<open>
  A resumed chain counts integrated blocks where it means a position: when a run passed one step over and went
  on, the plan drawn from its own checkpoint starts at the last block it integrated, which is run a second time,
  and the step that was passed over never runs.
\<close>

theorem resume_repeats_an_integrated_block:
  assumes "integrate_chain K None (before @ [passed] @ later @ rest) = Some (None, s)"
    and "rp_closed (ch_report s) = map step_label (before @ later)" and "later \<noteq> []"
    and "last_status_for_block lines (cs_block_id (last later)) = Some LaneClosed"
  shows "plan_campaign_resume (Some (ch_checkpoint s)) lines (before @ [passed] @ later @ rest) =
    ResumePlan (of_nat (length (before @ later)) + 1) (last later # rest)"
proof -
  obtain h extra where t: "tally K (ch_checkpoint (chain_start K None (before @ [passed] @ later @ rest)))
      (before @ [passed] @ later @ rest) h extra s" and x: "extra = []"
    using run_tally [OF assms(1)] by auto
  have "kp_steps (ch_checkpoint s) = entries h"
    using t x by (simp add: tally_def books_def recorded_def chain_start_def checkpoint_new_def)
  then have "filter kp_integrated (kp_steps (ch_checkpoint s)) = entries h"
    using entries_parts(4) [of h] by (simp add: list_all_iff filter_id_conv)
  moreover have "length h = length (before @ later)"
    using t assms(2) by (metis tally_def books_def length_map prod.inject)
  ultimately have n: "length (filter kp_integrated (kp_steps (ch_checkpoint s))) = length (before @ later)"
    by (simp add: entries_parts)
  obtain m where later: "later = m @ [last later]" using assms(3) by (metis append_butlast_last_id)
  have d: "drop (length (before @ later)) (before @ [passed] @ later @ rest) = last later # rest"
    by (subst (2) later, subst later) simp
  then have "(before @ [passed] @ later @ rest) ! length (before @ later) = last later"
    by (metis hd_drop_conv_nth list.sel(1) drop_eq_Nil2 linorder_not_le list.distinct(1))
  moreover have "\<not> length (before @ [passed] @ later @ rest) \<le> length (before @ later)" by simp
  ultimately show ?thesis
    using assms(4) d unfolding plan_campaign_resume_def by (simp only: option.simps Let_def n) simp
qed

subsection \<open>A chain of two blocks\<close>

definition sample_child :: task_context where
  "sample_child = \<lparr>event = JObj [], nodes = [], metadata = JObj [], node_runs = []\<rparr>"

definition sample_chain_env ::
  "(nat \<Rightarrow> string \<Rightarrow> string \<Rightarrow> block_presence) \<Rightarrow> (nat \<Rightarrow> string \<Rightarrow> string \<Rightarrow> dependency_edge list) \<Rightarrow> chain_env" where
  "sample_chain_env status depends = \<lparr>ie_depends = depends, ie_edge_met = (\<lambda>n r b. True), ie_block_status = status,
     ie_cancelled = (\<lambda>n. False), ie_cancelled_after_hold = (\<lambda>n. False),
     ie_hold = (\<lambda>n k. \<lparr>hp_held = False, hp_time = 0, hp_aborted = False\<rparr>), ie_hold_start = (\<lambda>n. 0),
     ie_hold_deadline = None, ie_duration_str = (\<lambda>d. []), ie_budget = None,
     ie_config = \<lparr>sc_engine = (\<lambda>r b. EngineFlow), sc_repo_path = (\<lambda>r. Inr r), sc_brain_root = ''/'',
       sc_canonical = (\<lambda>p. Some p), sc_use_worktree = False, sc_auto_pr = False, sc_campaign_id = 0,
       sc_flow_policy = None, sc_task_policy = None\<rparr>,
     ie_run_flow = (\<lambda>n i. Inr sample_child), ie_launch = None, ie_profile = (\<lambda>n. Standard),
     ie_action = (\<lambda>r b. None), ie_author = (\<lambda>n g. None), ie_coord = None, ie_triage = None,
     ie_reply_path = (\<lambda>n m. None), ie_preflight = (\<lambda>n r b. PreflightDisabled), ie_on_unjudged = UnjudgedProceed,
     ie_on_bail = StopChain, ie_state_file = (\<lambda>n p. FileText []), ie_read_error = (\<lambda>p. []),
     ie_json = \<lparr>jx_parse = (\<lambda>x. Inr (JObj [(''status'', JStr ''done'')])), jx_decode_error = (\<lambda>j. []),
       jx_print = (\<lambda>j. [])\<rparr>,
     ie_git = (\<lambda>n c a p. Inl []), ie_merge = \<lparr>mp_auto_merge = False, mp_auto_push = False\<rparr>,
     ie_composed = (\<lambda>n out. []), ie_lane = None, ie_log_path = [], ie_append_error = (\<lambda>n. None),
     ie_checkpoint_error = (\<lambda>n. None), ie_now = (\<lambda>n. int n), ie_fresh = (\<lambda>n. of_nat n), ie_build_sha = [],
     ie_formats = sample_ext\<rparr>"

definition passed_over :: "nat \<Rightarrow> string \<Rightarrow> string \<Rightarrow> block_presence" where
  "passed_over n r b = (if b = ''a'' then BlockRow ''closed'' else BlockRow ''open'')"

abbreviation sample_chain_run :: "(integrate_error option \<times> chain_state) option" where
  "sample_chain_run \<equiv> integrate_chain (sample_chain_env passed_over (\<lambda>n r b. [])) None
     (map explicit_step [(''r'', ''a''), (''r'', ''b'')])"

lemma sample_chain_run_integrates:
  "map_option (\<lambda>(e, s). (e, rp_closed (ch_report s), closed_keys (ch_effects s))) sample_chain_run =
     Some (None, [''r:b''], [(''r'', ''b'')])"
  by code_simp

lemma sample_run_state:
  obtains s where "sample_chain_run = Some (None, s)" "rp_closed (ch_report s) = [''r:b'']"
    "closed_keys (ch_effects s) = [(''r'', ''b'')]"
  using sample_chain_run_integrates by (cases "sample_chain_run") auto

theorem chain_books_agree_witness:
  "\<exists>s. sample_chain_run = Some (None, s) \<and> map outcome_key (ch_outcomes s) = [(''r'', ''b'')] \<and>
     map kp_index (kp_steps (ch_checkpoint s)) = [1] \<and> ch_ledger s = outcomes_spent (ch_outcomes s)"
proof -
  obtain s where s: "sample_chain_run = Some (None, s)" "closed_keys (ch_effects s) = [(''r'', ''b'')]"
    by (rule sample_run_state)
  from chain_books_agree [OF s(1)] obtain added where "map outcome_key (ch_outcomes s) = [(''r'', ''b'')]"
      "ch_ledger s = outcomes_spent (ch_outcomes s)" "kp_steps (ch_checkpoint s) = added"
      "map (\<lambda>k. (kp_repo k, kp_block_id k)) added = map outcome_key (ch_outcomes s)"
      "map kp_index added = map (\<lambda>i. of_nat i + 1) [0..<length added]"
    using s(2) by (auto simp: chain_start_def checkpoint_new_def)
  moreover from this have "length added = 1" by (metis length_map length_Cons list.size(3) One_nat_def)
  ultimately show ?thesis using s(1) by auto
qed


theorem chain_returns_witness: "\<exists>e s. sample_chain_run = Some (e, s) \<and> ch_pass s \<le> 4"
  using chain_returns [of "sample_chain_env passed_over (\<lambda>n r b. [])" None "map explicit_step [(''r'', ''a''), (''r'', ''b'')]"]
  by (simp add: sample_chain_env_def)

definition needs_first :: "nat \<Rightarrow> string \<Rightarrow> string \<Rightarrow> dependency_edge list" where
  "needs_first n r b = (if b = ''b'' then [EdgeBlock ''r'' ''a''] else [])"

theorem closed_block_holds_back_dependents_witness:
  "\<exists>s. integrate_chain (sample_chain_env passed_over needs_first) None
      [explicit_step (''r'', ''a''), explicit_step (''r'', ''b'')] = Some (None, s) \<and> ch_outcomes s = []"
  using closed_block_holds_back_dependents [of "sample_chain_env passed_over needs_first" "explicit_step (''r'', ''a'')"
      "explicit_step (''r'', ''b'')" None]
  by (auto simp: sample_chain_env_def passed_over_def needs_first_def explicit_step_def status_skip_reason_def
      check_dependencies_def edge_is_met_def)

theorem resume_repeats_an_integrated_block_witness:
  "\<exists>s. sample_chain_run = Some (None, s) \<and>
     plan_campaign_resume (Some (ch_checkpoint s)) [lane_log_line 0 LaneClosed ''r'' ''b'' [] [] None]
       (map explicit_step [(''r'', ''a''), (''r'', ''b'')]) = ResumePlan 2 [explicit_step (''r'', ''b'')]"
proof -
  obtain s where s: "sample_chain_run = Some (None, s)" "rp_closed (ch_report s) = [''r:b'']" by (rule sample_run_state)
  with resume_repeats_an_integrated_block [of "sample_chain_env passed_over (\<lambda>n r b. [])" "[]"
      "explicit_step (''r'', ''a'')" "[explicit_step (''r'', ''b'')]" "[]" s
      "[lane_log_line 0 LaneClosed ''r'' ''b'' [] [] None]"]
  show ?thesis
    by (simp add: step_label_def explicit_step_def last_status_for_block_def lane_log_line_def)
qed

end
