(* ===== verification/Spec2Isabelle.thy ===== *)
theory Spec2Isabelle
  imports RunLaws Loop Cron Lease Approvals ServeRuns HeavyLaws TaskProps ChainProps
begin

text \<open>
  \<^bold>\<open>A verification library for engine-rs\<close>

  engine-rs is an agentic workflow engine. A workflow is a graph of nodes (\<open>WorkflowSchema\<close>) with a
  registry of implementations; the runner walks a pointer through it, dispatches one node at a time
  over a shared \<open>TaskContext\<close>, and lets router nodes choose the successor. Around that core are the
  gates of a run (cancellation, budget, operator pause), durable markers in the run's metadata, two
  append-only ledgers (model sessions and dispatches), the combinators that build larger nodes
  (parallel, fan-out, aggregate, bounded loop), a dispatcher of workflow types, the layers a run's
  policy is resolved from, recurring schedules, a queue of items for the human operator with the
  ledger of his decisions, and a lease that arbitrates a terminal session between processes. The
  server triggers runs over HTTP, drives each in a task, keeps the last snapshot and the results in
  memory, streams progress, queues snapshots for a database, parks suspended runs until they are
  resumed, and sweeps the runs a crash left behind. Check runs of all processes on a machine share a queue of job
  files. The workflow all this serves first is the software delivery flow (\<open>SDLC_FLOW\<close>): it works through the
  tasks of a spec with model calls, checks, triage and reviews, and keeps its state in its own results. Above it the
  orchestration drives chains of blocks of several repositories: each step is a run of its own behind gates, and a
  step whose run, state file and merge are good is closed in an append-only log and in a checkpoint.

  \<^bold>\<open>How the parts are modelled.\<close> Data structures are records and datatypes with the fields and
  constructors of the source. Operations are total, executable functions on these values, one per
  source function; code that mutates a value returns the new one, and a panic or an error is a value
  (\<open>None\<close> or \<open>Inl\<close>). Machine integers are words, costs are binary64 values, a \<open>HashMap\<close> is an
  association list whose order stands for the unspecified iteration order, a string is the list of
  its UTF-8 bytes, times are integers. What is not in the repository is a parameter with its
  documented behaviour as a hypothesis: the bodies of nodes, the clock and the source of fresh
  identifiers (\<open>world\<close>), the formatters of times and identifiers (\<open>ext\<close>), the cron expression library
  (\<open>cron_ext\<close>), the JSON parser and serializer of a ledger line, the hash of a digest, the file
  system and JSON parser behind a policy (\<open>policy_ext\<close>, \<open>serve_env\<close>), the permission
  configuration and the regular expressions of the command floor, the tmux server (\<open>tmux_ok\<close>), what the
  HTTP handlers read from their process (\<open>http_env\<close>), the TOML parser and the memory probe of the
  heavy-work queue, the outcome of a parked job (\<open>park_env\<close>), and what a node of the software delivery flow
  meets: the answers of models and of \<open>git\<close>, its call's aborts, and the text of JSON (\<open>task_env\<close>, \<open>save_env\<close>), and
  for a check run the commands, the files, the regular expressions and the job files (\<open>check_env\<close>). The driver of a
  chain meets its corpus, holds, messages, runs, git and files in \<open>chain_env\<close>, pass by pass.

  \<^bold>\<open>The theories\<close>, with the sources under \<open>src/crates\<close>:
  \<^item> \<open>Prelude\<close>, \<open>Strings\<close>, \<open>F64\<close>: machine types, hash maps, results, the keyed-store contract; decimal
    text, splitting, trimming; binary64 addition and comparison with their rounding laws.
  \<^item> \<open>Json\<close>, \<open>Contract\<close>: \<open>serde_json::Value\<close> and its accessors; \<open>engine-contract\<close> (\<open>task_context.rs\<close>,
    \<open>node_invocation.rs\<close>) with the wire form of a dispatch row.
  \<^item> \<open>Budget\<close>: \<open>engine-core/src/budget.rs\<close>. The token total is exact below \<open>2 ^ 64\<close>, and the
    gate latches.
  \<^item> \<open>Markers\<close>: \<open>cancellation.rs\<close>, \<open>suspend.rs\<close>, \<open>completion.rs\<close> and the stamps of \<open>workflow.rs\<close>. Round
    trip of the suspension marker, the resume counter, the panics of the writers.
  \<^item> \<open>Ledgers\<close>: \<open>sessions.rs\<close>, \<open>invocations.rs\<close>, both instances of the locale \<open>row_ledger\<close> (rows read
    back are the rows appended).
  \<^item> \<open>Graph\<close>, \<open>Validator\<close>: \<open>schema.rs\<close>, \<open>node.rs\<close>, \<open>routing.rs\<close>, \<open>validate.rs\<close>. The validator always
    returns and accepts exactly the graphs whose fan-out is at routers, that are reachable and have no
    cycle through non-routers; its errors are sound.
  \<^item> \<open>Telemetry\<close>: \<open>policy/telemetry.rs\<close>.
  \<^item> \<open>Runner\<close>, \<open>RunLaws\<close>: \<open>workflow.rs\<close>. The locale \<open>walk_invariant\<close> carries an invariant from the walk's
    steps to its result; termination of validated runs and under a token cap; precedence of the
    gates; pause and resume; the context after a failure; numbering of the dispatch ledger.
  \<^item> \<open>Compose\<close>, \<open>Loop\<close>: the wrappers of \<open>node.rs\<close>, \<open>parallel.rs\<close>, \<open>nodes/fan_out.rs\<close>, \<open>nodes/aggregate.rs\<close>,
    \<open>nodes/suspend.rs\<close>, \<open>loop_combinator.rs\<close>. What a merge keeps and loses, fan-out followed by
    aggregation, the bound of a loop.
  \<^item> \<open>Dispatch\<close>: \<open>dispatch.rs\<close>, two interpretations of \<open>keyed_store\<close> that stay in agreement.
  \<^item> \<open>Cron\<close>: \<open>cron/mod.rs\<close>, \<open>record.rs\<close>, \<open>store.rs\<close>. The locale \<open>cron_store\<close> is the trait \<open>CronStore\<close>, the
    tick is proved against it, and the file store is its interpretation.
  \<^item> \<open>OperatorQueue\<close>: \<open>operator/queue\<close>. Exact delivery, depth and conservation over all sequences of
    calls, independence of arrival order, digests, and the item that is delivered for ever.
  \<^item> \<open>Lease\<close>: \<open>term-core/src/lease.rs\<close>. Clients are programs over driver calls that interleave; what
    holds alone, what the read-back decides, and two races it does not.
  \<^item> \<open>Policy\<close>: \<open>policy\<close> (tiers, overlays, permission profiles, command floor, the four layers of a
    workflow's policy). The locale \<open>policy_knob\<close> says what overlaying does to one knob.
  \<^item> \<open>Payload\<close>, \<open>Approvals\<close>: \<open>operator/payload.rs\<close>, \<open>limits.rs\<close>, \<open>validate.rs\<close>, \<open>failure.rs\<close>, \<open>operator/ledger\<close>.
    Validation, digests, the failure notice, the decision file with torn writes.
  \<^item> \<open>LiveState\<close>, \<open>LiveLaws\<close>: \<open>engine-serve/src/live_state.rs\<close>. The ring refines a bounded map (locale
    \<open>bounded_fifo\<close>); one notice per run, campaign lookups, and readers racing a
    completion, which find a run while the ring has room.
  \<^item> \<open>Durable\<close>: \<open>engine-serve/src/durable.rs\<close> and the statements of \<open>engine-store/src/postgres.rs\<close> it runs.
  \<^item> \<open>QueuePark\<close>: \<open>workflows/queue_park.rs\<close>, the driver of a walk that parks on a job: what it waits for, and
    what the walk goes on with.
  \<^item> \<open>HeavyWork\<close>, \<open>HeavyLaws\<close>: \<open>coord/heavy_work.rs\<close>, the queue of check runs over a directory of job files. One
    admission attempt exactly; the step function \<open>heavy_step\<close>, in which processes take turns after every read and
    write, the limits as long as no turn overtakes another, and the heartbeat that breaks them; the verdict a parked
    walk reads back, the admission lock, and two ways to wait for ever.
  \<^item> \<open>Sweep\<close>: \<open>engine-serve/src/orphan.rs\<close> and \<open>operator/orphan.rs\<close>, boot sweep and stale-run alarms.
  \<^item> \<open>Stream\<close>: \<open>engine-serve/src/stream.rs\<close>, what a subscriber reads.
  \<^item> \<open>Serve\<close>, \<open>ServeLaws\<close>, \<open>ServeRuns\<close>: \<open>http.rs\<close>, \<open>suspend.rs\<close>, \<open>resume.rs\<close>, \<open>abort.rs\<close> of \<open>engine-serve\<close>. One
    server state, one definition per handler, and the step relation \<open>serve_step\<close> in which requests, the
    two halves of a resume, the reports of tasks, the three parts of a task's exit and the writer interleave. One
    driver per run, what each exit leaves behind, suspension followed by resume, and four sequences that break a
    promise.

  \<^item> \<open>SdlcPolicy\<close>, \<open>SdlcSchema\<close>: \<open>workflows/sdlc_flow/policy.rs\<close>, \<open>profiles.rs\<close>, \<open>schema.rs\<close>. The knobs of the flow
    with their layers and wire form; the state of a run, its two wire forms with their round trips, and what
    is derived from it.
  \<^item> \<open>AgentStep\<close>: \<open>nodes/agent_code_step.rs\<close>, \<open>workflows/transport_slot.rs\<close>, \<open>policy/shaping.rs\<close>. One model call with
    its retries, aborts and bills.
  \<^item> \<open>TaskPrompts\<close>, \<open>TaskText\<close>: the texts of \<open>sdlc_flow/task_loop.rs\<close> and the helpers of \<open>workflows/mod.rs\<close>: replies
    and their repair, feedback, truncation, diffs and commits.
  \<^item> \<open>TaskState\<close>, \<open>TaskLoop\<close>: the rest of \<open>sdlc_flow/task_loop.rs\<close> and the graph of \<open>graph.rs\<close>. Each result of a
    counting node carries a copy of the state; a reader takes the one whose counters are furthest. The nodes are
    registered for the runner of \<open>Runner\<close> as \<open>task_loop_nodes\<close>.
  \<^item> \<open>TaskChecks\<close>, \<open>TaskCheckLaws\<close>: \<open>TestTaskNode\<close> of \<open>task_loop.rs\<close> and \<open>final_validation.rs\<close>. What a pass of an attempt
    means, down to the git lines behind the write guard and the five kinds of checks; what is lost when the
    checks are parked on the heavy-work queue; the checks that the short flow never runs.
  \<^item> \<open>TaskQueueLaws\<close>, \<open>TaskNodeLaws\<close>, \<open>TaskLaws\<close>, \<open>TaskEnd\<close>, \<open>TaskProps\<close>: which copy a reader sees and what each node
    leaves for the next ones; the loop ends, by a measure of the attempts, reviews and passes still to come
    (\<open>potential\<close>); what a call bills; what an abort does to a review; which task comes next, and what happens to a
    number used twice.
  \<^item> \<open>ChainModel\<close>: \<open>workflows/orchestration\<close>, \<open>chain.rs\<close>, \<open>gates.rs\<close>, \<open>execute.rs\<close>, \<open>dispatch.rs\<close>, \<open>checkpoint.rs\<close> and the
    plan of a campaign resume in \<open>engine-serve/src/resume.rs\<close>.
  \<^item> \<open>Integrate\<close>, \<open>IntegrateLaws\<close>, \<open>ChainProps\<close>: the driver of \<open>integrate.rs\<close>, one definition per gate, each of which
    lets a step through or ends its pass, and the loop over a queue that released edges extend. A pass keeps
    the books or integrates its step (\<open>keeps\<close>, \<open>integrates\<close>), so the books are those of the steps integrated (\<open>tally\<close>);
    a block is closed only behind every gate, the books agree, the chain returns, and two ways in which an integrated
    or closed block is treated as if it were not.

  \<^bold>\<open>Loops and fuel.\<close> The walk may run for ever (a router may cycle), so it is a partial function with
  \<open>None\<close> for a run that does not return, and termination is proved where it holds. The depth-first
  search of the validator recurses on fuel, the reachability loop on a measure; \<open>validate\<close> passes fuel
  that \<open>validate_exact\<close> shows to be enough for every schema. Every other loop is structural or has a
  termination proof.

  \<^bold>\<open>Not modelled.\<close> Log and trace events and error texts that nothing reads; the array form that
  serde accepts for a struct; scheduling of asynchronous tasks (a node is one atomic step of the walk,
  and parallel branches cannot observe each other; in \<open>Serve\<close> a handler is one step, except a resume,
  which is two, and the exit of a task, which is three); poisoned locks; partial writes of any file but the decision ledger; the overflow
  panics of a debug build; the texts of parse errors. Of the software delivery flow: a panic of a check inside the
  heavy-work queue, and two runs of one command within one dispatch that answer differently; the setup before the
  loop, and the end review, documents, wrap-up and pull request after it, of which the laws use no more than that
  they are plain nodes and how \<open>EndReviewRouterNode\<close> routes. Of the orchestration: the admission semaphore, the model calls that judge
  messages and premises, the readers of the corpus, and what is written about a bail, which is one effect. The other
  workflows, transports, the other coordination files, the rollup of a campaign, the webhooks and the journal of the server are outside the library so far; they
  are clients of the parts modelled here.
\<close>

end
